(* ===== verification/Iotkit_Prelude.thy ===== *)
theory Iotkit_Prelude
  imports "HOL-Library.Word" "HOL-Library.Monad_Syntax"
begin

unbundle bit_operations_syntax

text \<open>
  Shared vocabulary of the development: the C integer types, byte memory with checked
  accesses, write cursors (a buffer and the offset of the running pointer), and the
  automation all components use.

  A C buffer is the list of its bytes, a pointer into it an offset. Every access goes through
  \<open>rd\<close>, \<open>wr\<close>, \<open>rd_bytes\<close> and \<open>wr_bytes\<close>, which return \<open>None\<close> where the C program would
  touch memory outside the buffer. A component operation that returns \<open>None\<close> therefore has
  undefined behaviour on that input (or does not return, where the text says so), and a theorem
  that it returns \<open>Some\<close> includes its memory safety.
\<close>

type_synonym u8 = "8 word"
type_synonym u16 = "16 word"
type_synonym u32 = "32 word"
type_synonym bytes = "u8 list"

named_theorems mem_simps "checked memory accesses that are in range"
named_theorems emits_intro "writers and the bytes they put into the buffer"

section \<open>Checked byte memory\<close>

definition rd :: "bytes \<Rightarrow> nat \<Rightarrow> u8 option" where
  "rd m i = (if i < length m then Some (m ! i) else None)"

definition wr :: "bytes \<Rightarrow> nat \<Rightarrow> u8 \<Rightarrow> bytes option" where
  "wr m i b = (if i < length m then Some (m[i := b]) else None)"

definition rd_bytes :: "bytes \<Rightarrow> nat \<Rightarrow> nat \<Rightarrow> bytes option" where
  "rd_bytes m i n = (if i + n \<le> length m then Some (take n (drop i m)) else None)"

definition overwrite :: "bytes \<Rightarrow> nat \<Rightarrow> bytes \<Rightarrow> bytes" where
  "overwrite m i bs = take i m @ bs @ drop (i + length bs) m"

text \<open>\<open>memcpy\<close> of the bytes \<open>bs\<close> to offset \<open>i\<close>.\<close>

definition wr_bytes :: "bytes \<Rightarrow> nat \<Rightarrow> bytes \<Rightarrow> bytes option" where
  "wr_bytes m i bs = (if i + length bs \<le> length m then Some (overwrite m i bs) else None)"

lemma rd_in [mem_simps]: "i < length m \<Longrightarrow> rd m i = Some (m ! i)"
  by (simp add: rd_def)

lemma rd_append_left [mem_simps]: "i < length xs \<Longrightarrow> rd (xs @ ys) i = Some (xs ! i)"
  by (simp add: rd_def nth_append)

lemma rd_append_at [mem_simps]: "rd (xs @ y # ys) (length xs) = Some y"
  by (simp add: rd_def)

lemma rd_bytes_append [mem_simps]: "rd_bytes (xs @ ys @ zs) (length xs) (length ys) = Some ys"
  by (simp add: rd_bytes_def)

lemma rd_bytes_length: "rd_bytes m i n = Some bs \<Longrightarrow> length bs = n"
  by (auto simp: rd_bytes_def split: if_splits)

lemma length_overwrite [simp]:
  "i + length bs \<le> length m \<Longrightarrow> length (overwrite m i bs) = length m"
  by (simp add: overwrite_def)

lemma overwrite_Nil [simp]: "i \<le> length m \<Longrightarrow> overwrite m i [] = m"
  by (simp add: overwrite_def)

lemma overwrite_append:
  assumes "i + length as \<le> length m"
  shows "overwrite (overwrite m i as) (i + length as) bs = overwrite m i (as @ bs)"
proof -
  let ?n = "i + length as"
  have pre: "length (take i m @ as) = ?n" using assms by simp
  have "overwrite m i as = (take i m @ as) @ drop ?n m"
    by (simp add: overwrite_def)
  then have "take ?n (overwrite m i as) = take i m @ as"
    and "drop (?n + length bs) (overwrite m i as) = drop (?n + length bs) m"
    using pre by (simp_all add: add.commute)
  then show ?thesis
    by (simp add: overwrite_def [of "overwrite m i as"] overwrite_def [of m i "as @ bs"] add.assoc)
qed

lemma overwrite_single: "i < length m \<Longrightarrow> m[i := b] = overwrite m i [b]"
  by (simp add: overwrite_def upd_conv_take_nth_drop)

lemma overwrite_zero: "overwrite m 0 bs = bs @ drop (length bs) m"
  by (simp add: overwrite_def)

lemma wr_length: "wr m i b = Some m' \<Longrightarrow> length m' = length m"
  by (auto simp: wr_def split: if_splits)

lemma wr_bytes_length: "wr_bytes m i bs = Some m' \<Longrightarrow> length m' = length m"
  by (auto simp: wr_bytes_def split: if_splits)

section \<open>Write cursors\<close>

text \<open>
  \<open>unsigned char **pptr\<close>: the buffer and the offset the pointer has reached. A writer \<open>emits\<close>
  the bytes \<open>bs\<close> when from every offset in the buffer it stores exactly \<open>bs\<close> there and
  advances the pointer by their number, and is undefined exactly when they do not fit.
\<close>

type_synonym cursor = "bytes \<times> nat"

definition emits :: "(cursor \<Rightarrow> cursor option) \<Rightarrow> bytes \<Rightarrow> bool" where
  "emits w bs \<longleftrightarrow> (\<forall>m p. p \<le> length m \<longrightarrow>
     w (m, p) = (if p + length bs \<le> length m
                 then Some (overwrite m p bs, p + length bs) else None))"

definition put_bytes :: "bytes \<Rightarrow> cursor \<Rightarrow> cursor option" where
  "put_bytes bs c = (case c of (m, p) \<Rightarrow> map_option (\<lambda>m'. (m', p + length bs)) (wr_bytes m p bs))"

lemma emits_put_bytes [emits_intro]: "emits (put_bytes bs) bs"
  by (simp add: emits_def put_bytes_def wr_bytes_def)

lemma emits_skip [emits_intro]: "emits (\<lambda>c. Some c) []"
  by (simp add: emits_def)

lemma emits_bind:
  assumes "emits v as" and "emits w bs"
  shows "emits (\<lambda>c. v c \<bind> w) (as @ bs)"
  unfolding emits_def
proof (intro allI impI)
  fix m :: bytes and p assume p: "p \<le> length m"
  show "v (m, p) \<bind> w =
    (if p + length (as @ bs) \<le> length m
     then Some (overwrite m p (as @ bs), p + length (as @ bs)) else None)"
  proof (cases "p + length as \<le> length m")
    case True
    then have "w (overwrite m p as, p + length as) =
      (if p + length (as @ bs) \<le> length m
       then Some (overwrite m p (as @ bs), p + length (as @ bs)) else None)"
      using assms(2) by (simp add: emits_def overwrite_append add.assoc)
    with True p assms(1) show ?thesis by (simp add: emits_def)
  next
    case False
    with p assms(1) show ?thesis by (simp add: emits_def)
  qed
qed

lemma emits_if:
  "emits v as \<Longrightarrow> emits w bs \<Longrightarrow> emits (\<lambda>c. if b then v c else w c) (if b then as else bs)"
  by simp

lemma emits_run:
  "emits w bs \<Longrightarrow> p + length bs \<le> length m \<Longrightarrow> w (m, p) = Some (overwrite m p bs, p + length bs)"
  by (simp add: emits_def)

lemma emits_run_None:
  "emits w bs \<Longrightarrow> p \<le> length m \<Longrightarrow> length m < p + length bs \<Longrightarrow> w (m, p) = None"
  by (simp add: emits_def)

section \<open>Words and bytes\<close>

definition be16 :: "nat \<Rightarrow> bytes" where
  "be16 n = [of_nat (n div 256), of_nat (n mod 256)]"

lemma length_be16 [simp]: "length (be16 n) = 2"
  by (simp add: be16_def)

lemma unat_byte: "unat (b :: u8) < 256"
  using unsigned_less [of b, where ?'a = nat] by simp

lemma unat_of_nat_byte: "unat (of_nat n :: u8) = n mod 256"
  by (simp add: unat_of_nat)

lemma be16_decode: "n < 65536 \<Longrightarrow> 256 * unat (be16 n ! 0) + unat (be16 n ! 1) = n"
  by (simp add: be16_def unat_of_nat_byte)

lemma unat_and_mask7: "unat ((w :: u8) AND 127) = unat w mod 128"
proof -
  have "w AND 127 = take_bit 7 w"
    by (simp add: take_bit_eq_mask mask_eq_exp_minus_1)
  then have "unat (w AND 127) = take_bit 7 (unat w)"
    by (simp only: unsigned_take_bit_eq)
  then show ?thesis
    by (simp add: take_bit_eq_mod)
qed

text \<open>Extensionality of bytes, bit by bit; the bits themselves are then left to \<open>bit_simps\<close>.\<close>

lemma u8_eqI:
  fixes a b :: u8
  assumes "bit a 0 = bit b 0" "bit a 1 = bit b 1" "bit a 2 = bit b 2" "bit a 3 = bit b 3"
    "bit a 4 = bit b 4" "bit a 5 = bit b 5" "bit a 6 = bit b 6" "bit a 7 = bit b 7"
  shows "a = b"
proof (rule bit_word_eqI)
  fix n assume "n < LENGTH(8)"
  then have "n \<in> {0, 1, 2, 3, 4, 5, 6, 7}" by auto
  with assms show "bit a n = bit b n" by auto
qed

lemma u8_and_128: "((w :: u8) AND 128 = 0) = (unat w < 128)"
proof -
  have "(w AND 128 = 0) = (\<not> bit w 7)"
    using and_exp_eq_0_iff_not_bit [of w 7] by simp
  also have "bit w 7 = bit (unat w) 7"
    by (simp add: bit_unsigned_iff)
  also have "bit (unat w) 7 = odd (unat w div 128)"
    by (simp add: bit_iff_odd)
  also have "odd (unat w div 128) = (128 \<le> unat w)"
  proof -
    have "unat w < 256" by (rule unat_byte)
    then have "unat w div 128 = (if 128 \<le> unat w then 1 else 0)" by auto
    then show ?thesis by simp
  qed
  finally show ?thesis by auto
qed

lemma cont_byte: 
  assumes "n < 128"
  shows "unat ((of_nat n :: u8) OR 128) = n + 128"
proof -
  have "(of_nat n :: u8) AND 128 = 0"
    using assms by (simp add: u8_and_128 unat_of_nat_byte)
  then have "(of_nat n :: u8) OR 128 = of_nat n + 128"
    by (metis disjunctive_add_eq_or)
  then show ?thesis using assms by (simp add: unat_word_ariths unat_of_nat_byte)
qed

text \<open>The two bytes of a 16-bit number, as the code takes them out and puts them together.\<close>

lemma ucast_high_byte: "(ucast (drop_bit 8 ((w :: u16) AND 0xFF00)) :: u8) = of_nat (unat w div 256)"
proof -
  have d: "unat w div 256 = drop_bit 8 (unat w)" by (simp add: drop_bit_eq_div)
  show ?thesis unfolding d
    by (rule u8_eqI) (simp_all add: bit_simps)
qed

lemma ucast_low_byte: "(ucast ((w :: u16) AND 0x00FF) :: u8) = of_nat (unat w mod 256)"
proof -
  have d: "unat w mod 256 = take_bit 8 (unat w)" by (simp add: take_bit_eq_mod)
  show ?thesis unfolding d
    by (rule u8_eqI) (simp_all add: bit_simps)
qed

lemma u16_of_bytes:
  assumes "m < 65536"
  shows "push_bit 8 (ucast (of_nat (m div 256) :: u8)) + ucast (of_nat (m mod 256) :: u8) = (of_nat m :: u16)"
proof -
  have "m div 256 < 256" using assms by simp
  then have "unat (push_bit 8 (ucast (of_nat (m div 256) :: u8)) + ucast (of_nat (m mod 256) :: u8) :: u16) = m"
    using assms by (simp add: unat_word_ariths push_bit_eq_mult unsigned_ucast_eq unsigned_take_bit_eq unat_of_nat take_bit_eq_mod)
  then have "(of_nat (unat (push_bit 8 (ucast (of_nat (m div 256) :: u8)) + ucast (of_nat (m mod 256) :: u8) :: u16)) :: u16) = of_nat m"
    by (rule arg_cong)
  then show ?thesis by simp
qed

lemma ucast_high_byte_masked: "(ucast (drop_bit 8 (w :: u16) AND 0xFF) :: u8) = of_nat (unat w div 256)"
proof -
  have "(ucast (drop_bit 8 w AND 0xFF) :: u8) = ucast (drop_bit 8 (w AND 0xFF00))"
    by (rule u8_eqI) (simp_all add: bit_simps)
  then show ?thesis by (simp only: ucast_high_byte)
qed

section \<open>Text\<close>

text \<open>Bytes in lower-case hexadecimal digits, numbers in decimal digits, and string literals.\<close>

definition hex_digit :: "nat \<Rightarrow> u8" where
  "hex_digit n = of_nat (if n < 10 then 48 + n else 87 + n)"

definition hex :: "bytes \<Rightarrow> bytes" where
  "hex bs = concat (map (\<lambda>b. [hex_digit (unat b div 16), hex_digit (unat b mod 16)]) bs)"

lemma length_hex [simp]: "length (hex bs) = 2 * length bs"
  by (induction bs) (auto simp: hex_def)

fun decimal :: "nat \<Rightarrow> bytes" where
  "decimal n = (if n < 10 then [of_nat (48 + n)] else decimal (n div 10) @ [of_nat (48 + n mod 10)])"

declare decimal.simps [simp del]

definition literal :: "string \<Rightarrow> bytes" where
  "literal s = map of_char s"

text \<open>\<open>strlen\<close> of the string at the start of a memory; without an end it runs out of it.\<close>

definition strlen :: "bytes \<Rightarrow> nat option" where
  "strlen m = (if 0 \<in> set m then Some (length (takeWhile (\<lambda>b. b \<noteq> 0) m)) else None)"

lemma strlen_string: "0 \<notin> set s \<Longrightarrow> strlen (s @ 0 # post) = Some (length s)"
  by (induction s) (auto simp: strlen_def)

end
