(* ===== verification/Mqtt_Packet.thy ===== *)
theory Mqtt_Packet
  imports Iotkit_Prelude
begin

text \<open>
  The MQTT packet library (sdk/comm/mqtt/MQTTPacket): fixed header and remaining length,
  strings, the packets the client sends and the ones it parses.

  Lengths are \<open>nat\<close>: in the code they are \<open>int\<close>s obtained from \<open>strlen\<close>, from 16-bit wire
  fields and sums of these, and the remaining length stays below \<open>2 ^ 28\<close>. A \<open>char *\<close> string
  is the list of its bytes before the terminator. The functions that fill the caller's
  variables take their old values and return the new ones, since on the error paths the C code
  leaves some of them as they were.
\<close>

section \<open>Packet types and the fixed header\<close>

abbreviation (input) CONNECT :: u8 where "CONNECT \<equiv> 1"
abbreviation (input) CONNACK :: u8 where "CONNACK \<equiv> 2"
abbreviation (input) PUBLISH :: u8 where "PUBLISH \<equiv> 3"
abbreviation (input) PUBACK :: u8 where "PUBACK \<equiv> 4"
abbreviation (input) PUBREC :: u8 where "PUBREC \<equiv> 5"
abbreviation (input) PUBREL :: u8 where "PUBREL \<equiv> 6"
abbreviation (input) PUBCOMP :: u8 where "PUBCOMP \<equiv> 7"
abbreviation (input) SUBSCRIBE :: u8 where "SUBSCRIBE \<equiv> 8"
abbreviation (input) SUBACK :: u8 where "SUBACK \<equiv> 9"
abbreviation (input) UNSUBSCRIBE :: u8 where "UNSUBSCRIBE \<equiv> 10"
abbreviation (input) UNSUBACK :: u8 where "UNSUBACK \<equiv> 11"
abbreviation (input) PINGREQ :: u8 where "PINGREQ \<equiv> 12"
abbreviation (input) PINGRESP :: u8 where "PINGRESP \<equiv> 13"
abbreviation (input) DISCONNECT :: u8 where "DISCONNECT \<equiv> 14"

abbreviation (input) MQTTPACKET_BUFFER_TOO_SHORT :: int where "MQTTPACKET_BUFFER_TOO_SHORT \<equiv> -2"
abbreviation (input) MQTTPACKET_READ_ERROR :: int where "MQTTPACKET_READ_ERROR \<equiv> -1"

text \<open>The union \<open>MQTTHeader\<close>: bit fields, retain in the lowest bit. Stores truncate.\<close>

definition header_byte :: "u8 \<Rightarrow> u8 \<Rightarrow> u8 \<Rightarrow> u8 \<Rightarrow> u8" where
  "header_byte ty dup qos retain =
     push_bit 4 (ty AND 15) OR push_bit 3 (dup AND 1) OR push_bit 1 (qos AND 3) OR (retain AND 1)"

definition header_type :: "u8 \<Rightarrow> u8" where "header_type b = drop_bit 4 b"
definition header_dup :: "u8 \<Rightarrow> u8" where "header_dup b = drop_bit 3 b AND 1"
definition header_qos :: "u8 \<Rightarrow> u8" where "header_qos b = drop_bit 1 b AND 3"
definition header_retain :: "u8 \<Rightarrow> u8" where "header_retain b = b AND 1"

lemma header_type_byte [simp]: "header_type (header_byte t d q r) = t AND 15"
  unfolding header_type_def header_byte_def
  by (rule u8_eqI) (simp_all add: bit_simps del: push_bit_Suc push_bit_of_1)
lemma header_dup_byte [simp]: "header_dup (header_byte t d q r) = d AND 1"
  unfolding header_dup_def header_byte_def
  by (rule u8_eqI) (simp_all add: bit_simps del: push_bit_Suc push_bit_of_1)
lemma header_qos_byte [simp]: "header_qos (header_byte t d q r) = q AND 3"
  unfolding header_qos_def header_byte_def
  by (rule u8_eqI) (simp_all add: bit_simps del: push_bit_Suc push_bit_of_1)
lemma header_retain_byte [simp]: "header_retain (header_byte t d q r) = r AND 1"
  unfolding header_retain_def header_byte_def
  by (rule u8_eqI) (simp_all add: bit_simps del: push_bit_Suc push_bit_of_1)

section \<open>Remaining length\<close>

text \<open>\<open>MQTTPacket_encode(buf, length)\<close> with \<open>buf\<close> at offset \<open>p\<close>; \<open>rc\<close> counts the bytes stored.\<close>

fun MQTTPacket_encode_loop :: "bytes \<Rightarrow> nat \<Rightarrow> nat \<Rightarrow> nat \<Rightarrow> (nat \<times> bytes) option" where
  "MQTTPacket_encode_loop m p len rc =
     (let d = of_nat (len mod 128);
          len' = len div 128;
          d' = (if 0 < len' then d OR 0x80 else d)
      in case wr m (p + rc) d' of
           None \<Rightarrow> None
         | Some m' \<Rightarrow> if 0 < len' then MQTTPacket_encode_loop m' p len' (rc + 1)
                      else Some (rc + 1, m'))"

declare MQTTPacket_encode_loop.simps [simp del]

definition MQTTPacket_encode :: "bytes \<Rightarrow> nat \<Rightarrow> nat \<Rightarrow> (nat \<times> bytes) option" where
  "MQTTPacket_encode m p len = MQTTPacket_encode_loop m p len 0"

text \<open>The bytes the MQTT specification prescribes: seven bits each, low group first.\<close>

fun rem_len_bytes :: "nat \<Rightarrow> bytes" where
  "rem_len_bytes n =
     (if n < 128 then [of_nat n] else (of_nat (n mod 128) OR 0x80) # rem_len_bytes (n div 128))"

declare rem_len_bytes.simps [simp del]

text \<open>\<open>ptr += MQTTPacket_encode(ptr, len)\<close>\<close>

definition put_rem_len :: "nat \<Rightarrow> cursor \<Rightarrow> cursor option" where
  "put_rem_len len c =
     (case c of (m, p) \<Rightarrow> map_option (\<lambda>(rc, m'). (m', p + rc)) (MQTTPacket_encode m p len))"

text \<open>
  \<open>MQTTPacket_decode\<close>: \<open>getchar\<close> is the callback, it returns whether it delivered one
  byte, the byte and its new state (\<open>None\<close>: the read itself is undefined). The result is the
  count \<open>len\<close> the function returns and the value stored through its pointer.
\<close>

function MQTTPacket_decode_loop ::
    "('s \<Rightarrow> (bool \<times> u8 \<times> 's) option) \<Rightarrow> 's \<Rightarrow> nat \<Rightarrow> nat \<Rightarrow> nat \<Rightarrow> (nat \<times> nat \<times> 's) option" where
  "MQTTPacket_decode_loop getchar s len multiplier v =
     (let len' = len + 1 in
      if len' > 4 then Some (len', v, s)
      else case getchar s of
             None \<Rightarrow> None
           | Some (ok, c, s') \<Rightarrow>
               if \<not> ok then Some (len', v, s')
               else let v' = v + unat (c AND 127) * multiplier in
                    if c AND 128 \<noteq> 0
                    then MQTTPacket_decode_loop getchar s' len' (multiplier * 128) v'
                    else Some (len', v', s'))"
  by pat_completeness auto
termination
  by (relation "measure (\<lambda>(g, s, len, mult, v). 5 - len)") auto

declare MQTTPacket_decode_loop.simps [simp del]

definition MQTTPacket_decode ::
    "('s \<Rightarrow> (bool \<times> u8 \<times> 's) option) \<Rightarrow> 's \<Rightarrow> (nat \<times> nat \<times> 's) option" where
  "MQTTPacket_decode getchar s = MQTTPacket_decode_loop getchar s 0 1 0"

text \<open>\<open>bufchar\<close> reads through the static \<open>bufptr\<close>, here the offset, and always reports one byte.\<close>

definition bufchar :: "bytes \<Rightarrow> nat \<Rightarrow> (bool \<times> u8 \<times> nat) option" where
  "bufchar m p = map_option (\<lambda>c. (True, c, p + 1)) (rd m p)"

definition MQTTPacket_decodeBuf :: "bytes \<Rightarrow> nat \<Rightarrow> (nat \<times> nat) option" where
  "MQTTPacket_decodeBuf m p =
     map_option (\<lambda>(len, v, _). (len, v)) (MQTTPacket_decode (bufchar m) p)"

definition MQTTPacket_len :: "nat \<Rightarrow> nat" where
  "MQTTPacket_len rem_len =
     (let r = rem_len + 1 in
      if r < 128 then r + 1
      else if r < 16384 then r + 2
      else if r < 2097151 then r + 3
      else r + 4)"

lemma MQTTPacket_encode_loop_eq:
  "p + rc \<le> length m \<Longrightarrow> MQTTPacket_encode_loop m p len rc =
    (if p + rc + length (rem_len_bytes len) \<le> length m
     then Some (rc + length (rem_len_bytes len), overwrite m (p + rc) (rem_len_bytes len))
     else None)"
proof (induction m p len rc rule: MQTTPacket_encode_loop.induct)
  case (1 m p len rc)
  show ?case
  proof (cases "len < 128")
    case True
    then show ?thesis
      by (auto simp: MQTTPacket_encode_loop.simps [of m] rem_len_bytes.simps [of len] wr_def overwrite_single)
  next
    case False
    let ?d = "of_nat (len mod 128) OR 0x80 :: u8"
    from False have pos: "0 < len div 128" by (simp add: div_greater_zero_iff)
    show ?thesis
    proof (cases "p + rc < length m")
      case True
      then have w: "wr m (p + rc) ?d = Some (overwrite m (p + rc) [?d])"
        by (simp add: wr_def overwrite_single)
      have IH: "MQTTPacket_encode_loop (overwrite m (p + rc) [?d]) p (len div 128) (rc + 1) =
        (if p + (rc + 1) + length (rem_len_bytes (len div 128)) \<le> length m
         then Some (rc + 1 + length (rem_len_bytes (len div 128)),
           overwrite (overwrite m (p + rc) [?d]) (p + (rc + 1)) (rem_len_bytes (len div 128))) else None)"
        using "1.IH" [OF refl refl refl] pos w True by simp
      have "overwrite (overwrite m (p + rc) [?d]) (p + (rc + 1)) (rem_len_bytes (len div 128)) =
        overwrite m (p + rc) (?d # rem_len_bytes (len div 128))"
        using overwrite_append [of "p + rc" "[?d]" m] True by simp
      with IH w pos False True show ?thesis
        by (simp add: MQTTPacket_encode_loop.simps [of m] rem_len_bytes.simps [of len] Let_def)
    next
      case False
      with "1.prems" \<open>\<not> len < 128\<close> show ?thesis
        by (simp add: MQTTPacket_encode_loop.simps [of m] rem_len_bytes.simps [of len] wr_def)
    qed
  qed
qed

lemma emits_put_rem_len [emits_intro]: "emits (put_rem_len n) (rem_len_bytes n)"
  by (simp add: emits_def put_rem_len_def MQTTPacket_encode_def MQTTPacket_encode_loop_eq)

lemma length_rem_len_bytes: 
  "n < 128 \<Longrightarrow> length (rem_len_bytes n) = 1"
  "128 \<le> n \<Longrightarrow> n < 16384 \<Longrightarrow> length (rem_len_bytes n) = 2"
  "16384 \<le> n \<Longrightarrow> n < 2097152 \<Longrightarrow> length (rem_len_bytes n) = 3"
  "2097152 \<le> n \<Longrightarrow> n < 268435456 \<Longrightarrow> length (rem_len_bytes n) = 4"
proof -
  have s: "length (rem_len_bytes n) = (if n < 128 then 1 else Suc (length (rem_len_bytes (n div 128))))" for n
    by (subst rem_len_bytes.simps) simp
  show 1: "n < 128 \<Longrightarrow> length (rem_len_bytes n) = 1" for n by (simp add: s)
  show 2: "128 \<le> n \<Longrightarrow> n < 16384 \<Longrightarrow> length (rem_len_bytes n) = 2" for n
    using 1 [of "n div 128"] by (subst s) simp
  show 3: "16384 \<le> n \<Longrightarrow> n < 2097152 \<Longrightarrow> length (rem_len_bytes n) = 3" for n
    using 2 [of "n div 128"] by (subst s) (simp; arith)
  show "2097152 \<le> n \<Longrightarrow> n < 268435456 \<Longrightarrow> length (rem_len_bytes n) = 4"
    using 3 [of "n div 128"] by (subst s) (simp; arith)
qed

text \<open>The room the serialisers reserve is never less than what they write.\<close>

lemma MQTTPacket_len_enough:
  "n < 268435456 \<Longrightarrow> 1 + length (rem_len_bytes n) + n \<le> MQTTPacket_len n"
  using length_rem_len_bytes [of n]
  by (cases "n < 128"; cases "n < 16384"; cases "n < 2097152") (auto simp: MQTTPacket_len_def Let_def)

lemma decode_loop_step:
  "rd m p = Some c \<Longrightarrow> k < 4 \<Longrightarrow> MQTTPacket_decode_loop (bufchar m) p k mult v =
    (if c AND 128 \<noteq> 0
     then MQTTPacket_decode_loop (bufchar m) (p + 1) (k + 1) (mult * 128) (v + unat (c AND 127) * mult)
     else Some (k + 1, v + unat (c AND 127) * mult, p + 1))"
  by (subst MQTTPacket_decode_loop.simps) (simp add: bufchar_def Let_def)

lemma decode_rem_len:
  assumes "n < 128 ^ (4 - k)" and "k < 4"
  shows "MQTTPacket_decode_loop (bufchar (pre @ rem_len_bytes n @ post)) (length pre) k mult v =
    Some (k + length (rem_len_bytes n), v + n * mult, length pre + length (rem_len_bytes n))"
  using assms
proof (induction n arbitrary: pre k mult v rule: rem_len_bytes.induct)
  case (1 n)
  show ?case
  proof (cases "n < 128")
    case True
    then have "(of_nat n :: u8) AND 128 = 0" and "unat ((of_nat n :: u8) AND 127) = n"
      by (simp_all add: u8_and_128 unat_of_nat_byte unat_and_mask7)
    moreover have "rem_len_bytes n = [of_nat n]"
      using True by (simp add: rem_len_bytes.simps)
    ultimately show ?thesis
      using "1.prems" by (simp add: decode_loop_step [OF rd_append_at])
  next
    case False
    let ?d = "of_nat (n mod 128) OR 128 :: u8"
    have d: "?d AND 128 \<noteq> 0" "unat (?d AND 127) = n mod 128"
      by (simp_all add: u8_and_128 cont_byte unat_and_mask7)
    have "Suc k < 4" using "1.prems" False by (cases "k = 3") auto
    moreover have "n div 128 < 128 ^ (4 - Suc k)"
    proof -
      have "4 - k = Suc (4 - Suc k)" using "1.prems" by simp
      have "n < 128 * 128 ^ (4 - Suc k)"
        using "1.prems" \<open>4 - k = Suc (4 - Suc k)\<close> by (simp only: power_Suc)
      then show ?thesis by (simp add: less_mult_imp_div_less mult.commute)
    qed
    ultimately have IH: "MQTTPacket_decode_loop (bufchar ((pre @ [?d]) @ rem_len_bytes (n div 128) @ post))
        (length (pre @ [?d])) (Suc k) (mult * 128) (v + n mod 128 * mult) =
      Some (Suc k + length (rem_len_bytes (n div 128)), v + n mod 128 * mult + n div 128 * (mult * 128),
        length (pre @ [?d]) + length (rem_len_bytes (n div 128)))"
      using False by (intro "1.IH") auto
    have v: "v + n mod 128 * mult + n div 128 * (mult * 128) = v + n * mult"
    proof -
      have "n * mult = n div 128 * 128 * mult + n mod 128 * mult"
        by (metis distrib_right div_mult_mod_eq)
      then show ?thesis by (simp only: ac_simps)
    qed
    have bs: "rem_len_bytes n = ?d # rem_len_bytes (n div 128)"
      using False by (simp add: rem_len_bytes.simps [of n])
    have "MQTTPacket_decode_loop (bufchar (pre @ rem_len_bytes n @ post)) (length pre) k mult v =
      MQTTPacket_decode_loop (bufchar (pre @ rem_len_bytes n @ post)) (length pre + 1) (k + 1)
        (mult * 128) (v + n mod 128 * mult)"
      using d "1.prems"(2) by (subst decode_loop_step [where c = ?d]) (simp_all add: bs rd_append_at)
    with IH show ?thesis by (simp add: bs v)
  qed
qed

lemma MQTTPacket_decodeBuf_rem_len:
  "n < 268435456 \<Longrightarrow> MQTTPacket_decodeBuf (pre @ rem_len_bytes n @ post) (length pre) =
     Some (length (rem_len_bytes n), n)"
  using decode_rem_len [of n 0 pre post 1 0]
  by (simp add: MQTTPacket_decodeBuf_def MQTTPacket_decode_def)

section \<open>Characters, integers and strings\<close>

definition writeChar :: "u8 \<Rightarrow> cursor \<Rightarrow> cursor option" where
  "writeChar b c = (case c of (m, p) \<Rightarrow> map_option (\<lambda>m'. (m', p + 1)) (wr m p b))"

definition writeInt :: "nat \<Rightarrow> cursor \<Rightarrow> cursor option" where
  "writeInt n c = do {
     c \<leftarrow> writeChar (of_nat (n div 256)) c;
     writeChar (of_nat (n mod 256)) c }"

definition readChar :: "bytes \<Rightarrow> nat \<Rightarrow> u8 option" where
  "readChar m p = rd m p"

definition readInt :: "bytes \<Rightarrow> nat \<Rightarrow> nat option" where
  "readInt m p = do {
     hi \<leftarrow> rd m p;
     lo \<leftarrow> rd m (p + 1);
     Some (256 * unat hi + unat lo) }"

record MQTTString =
  cstring :: "bytes option"
  lenstring_len :: nat
  lenstring_data :: "bytes option"

definition MQTTString_initializer :: MQTTString where
  "MQTTString_initializer = \<lparr>cstring = None, lenstring_len = 0, lenstring_data = None\<rparr>"

definition writeCString :: "bytes \<Rightarrow> cursor \<Rightarrow> cursor option" where
  "writeCString s c = do {
     c \<leftarrow> writeInt (length s) c;
     put_bytes s c }"

definition writeMQTTString :: "MQTTString \<Rightarrow> cursor \<Rightarrow> cursor option" where
  "writeMQTTString s c =
     (if 0 < lenstring_len s then do {
        c \<leftarrow> writeInt (lenstring_len s) c;
        d \<leftarrow> lenstring_data s;
        bs \<leftarrow> rd_bytes d 0 (lenstring_len s);
        put_bytes bs c }
      else case cstring s of
             Some cs \<Rightarrow> writeCString cs c
           | None \<Rightarrow> writeInt 0 c)"

definition MQTTstrlen :: "MQTTString \<Rightarrow> nat" where
  "MQTTstrlen s = (case cstring s of Some cs \<Rightarrow> length cs | None \<Rightarrow> lenstring_len s)"

text \<open>
  \<open>readMQTTLenString\<close>: \<open>p\<close> is \<open>*pptr\<close>, \<open>e\<close> the offset of \<open>enddata\<close>. The result is the return
  code, the string and the new \<open>*pptr\<close>. \<open>lenstring.data\<close> keeps the memory from the pointer on.
\<close>

definition readMQTTLenString :: "bytes \<Rightarrow> MQTTString \<Rightarrow> nat \<Rightarrow> nat \<Rightarrow> (nat \<times> MQTTString \<times> nat) option" where
  "readMQTTLenString m s p e =
     (if int e - int p > 1 then do {
        len \<leftarrow> readInt m p;
        let s = s\<lparr>lenstring_len := len, cstring := None\<rparr>;
        let q = p + 2;
        if q + len \<le> e then Some (1, s\<lparr>lenstring_data := Some (drop q m)\<rparr>, q + len)
        else Some (0, s, q) }
      else Some (0, s\<lparr>cstring := None\<rparr>, p))"

text \<open>\<open>strncmp\<close> on two terminated strings, as far as \<open>MQTTPacket_equals\<close> uses it.\<close>

fun strncmp_eq :: "bytes \<Rightarrow> bytes \<Rightarrow> nat \<Rightarrow> bool" where
  "strncmp_eq _ _ 0 = True"
| "strncmp_eq [] [] (Suc n) = True"
| "strncmp_eq [] (b # bs) (Suc n) = (b = 0)"
| "strncmp_eq (a # as) [] (Suc n) = (a = 0)"
| "strncmp_eq (a # as) (b # bs) (Suc n) = (a = b \<and> (a = 0 \<or> strncmp_eq as bs n))"

definition MQTTPacket_equals :: "MQTTString \<Rightarrow> bytes \<Rightarrow> bool option" where
  "MQTTPacket_equals a b =
     (case cstring a of
        Some cs \<Rightarrow> Some (length cs = length b \<and> strncmp_eq cs b (length cs))
      | None \<Rightarrow>
          if lenstring_len a \<noteq> length b then Some False
          else if lenstring_len a = 0 then Some True
          else do {
            d \<leftarrow> lenstring_data a;
            bs \<leftarrow> rd_bytes d 0 (lenstring_len a);
            Some (strncmp_eq bs b (lenstring_len a)) })"

lemma emits_writeChar [emits_intro]: "emits (writeChar b) [b]"
  by (simp add: emits_def writeChar_def wr_def overwrite_single)

lemma emits_writeInt [emits_intro]: "emits (writeInt n) (be16 n)"
proof -
  have "emits (\<lambda>c. writeChar (of_nat (n div 256)) c \<bind> writeChar (of_nat (n mod 256)))
    ([of_nat (n div 256)] @ [of_nat (n mod 256)])"
    by (intro emits_bind emits_writeChar)
  then show ?thesis unfolding writeInt_def be16_def by simp
qed

lemma emits_writeCString [emits_intro]: "emits (writeCString s) (be16 (length s) @ s)"
  unfolding writeCString_def by (intro emits_bind emits_intro)

text \<open>
  The characters a string stands for. The serialisers measure it with \<open>MQTTstrlen\<close>, which looks at
  \<open>cstring\<close> first, and write it with \<open>writeMQTTString\<close>, which looks at \<open>lenstring\<close> first: a
  string is usable when only one of the two is set, and the memory is there.
\<close>

definition mqtt_chars :: "MQTTString \<Rightarrow> bytes" where
  "mqtt_chars s =
     (if 0 < lenstring_len s then take (lenstring_len s) (the (lenstring_data s))
      else case cstring s of Some cs \<Rightarrow> cs | None \<Rightarrow> [])"

definition mqtt_string_ok :: "MQTTString \<Rightarrow> bool" where
  "mqtt_string_ok s \<longleftrightarrow>
     (if 0 < lenstring_len s
      then cstring s = None \<and>
           (case lenstring_data s of Some d \<Rightarrow> lenstring_len s \<le> length d | None \<Rightarrow> False)
      else True)"

definition mqtt_string_bytes :: "MQTTString \<Rightarrow> bytes" where
  "mqtt_string_bytes s = be16 (length (mqtt_chars s)) @ mqtt_chars s"

lemma MQTTstrlen_chars: "mqtt_string_ok s \<Longrightarrow> MQTTstrlen s = length (mqtt_chars s)"
  by (auto simp: mqtt_string_ok_def MQTTstrlen_def mqtt_chars_def split: option.splits if_splits)

lemma length_mqtt_string_bytes [simp]:
  "length (mqtt_string_bytes s) = 2 + length (mqtt_chars s)"
  by (simp add: mqtt_string_bytes_def)

lemma emits_writeMQTTString [emits_intro]:
  assumes ok: "mqtt_string_ok s"
  shows "emits (writeMQTTString s) (mqtt_string_bytes s)"
proof (cases "0 < lenstring_len s")
  case True
  with ok obtain d where d: "lenstring_data s = Some d" "lenstring_len s \<le> length d"
    by (auto simp: mqtt_string_ok_def split: option.splits)
  have "emits (\<lambda>c. writeInt (lenstring_len s) c \<bind> put_bytes (take (lenstring_len s) d))
    (be16 (lenstring_len s) @ take (lenstring_len s) d)"
    by (intro emits_bind emits_intro)
  with True d show ?thesis
    by (simp add: emits_def writeMQTTString_def mqtt_string_bytes_def mqtt_chars_def rd_bytes_def)
next
  case False
  then show ?thesis
    using emits_writeCString emits_writeInt [of 0]
    by (auto simp: emits_def writeMQTTString_def mqtt_string_bytes_def mqtt_chars_def split: option.splits)
qed

section \<open>Serialisers\<close>

text \<open>
  \<open>ptr = buf; \<dots>; rc = ptr - buf\<close>: run the writes from the start of the buffer and return the
  number of bytes and the buffer.
\<close>

definition run_writer :: "(cursor \<Rightarrow> cursor option) \<Rightarrow> bytes \<Rightarrow> (int \<times> bytes) option" where
  "run_writer w buf = map_option (\<lambda>(m, p). (int p, m)) (w (buf, 0))"

lemma run_writer_emits:
  "emits w bs \<Longrightarrow> length bs \<le> length buf \<Longrightarrow>
   run_writer w buf = Some (int (length bs), bs @ drop (length bs) buf)"
  by (simp add: run_writer_def emits_run overwrite_zero)

lemma run_writer_overrun:
  "emits w bs \<Longrightarrow> length buf < length bs \<Longrightarrow> run_writer w buf = None"
  by (simp add: run_writer_def emits_run_None)

text \<open>\<open>memcpy(ptr, src, n); ptr += n\<close>\<close>

definition put_from :: "bytes \<Rightarrow> nat \<Rightarrow> cursor \<Rightarrow> cursor option" where
  "put_from src n c = do {
     bs \<leftarrow> rd_bytes src 0 n;
     put_bytes bs c }"

lemma emits_put_from: "n \<le> length src \<Longrightarrow> emits (put_from src n) (take n src)"
  using emits_put_bytes by (simp add: emits_def put_from_def rd_bytes_def)

subsection \<open>MQTTConnectClient.c\<close>

record MQTTPacket_willOptions =
  will_struct_id :: bytes
  will_struct_version :: int
  topicName :: MQTTString
  message :: MQTTString
  retained :: u8
  will_qos :: u8

record MQTTPacket_connectData =
  struct_id :: bytes
  struct_version :: int
  MQTTVersion :: u8
  clientID :: MQTTString
  keepAliveInterval :: u16
  cleansession :: u8
  willFlag :: u8
  will :: MQTTPacket_willOptions
  username :: MQTTString
  password :: MQTTString

abbreviation (input) KEEP_ALIVE_INTERVAL_DEFAULT_MIN :: u16 where "KEEP_ALIVE_INTERVAL_DEFAULT_MIN \<equiv> 60"
abbreviation (input) KEEP_ALIVE_INTERVAL_DEFAULT_MAX :: u16 where "KEEP_ALIVE_INTERVAL_DEFAULT_MAX \<equiv> 180"

definition MQTTPacket_willOptions_initializer :: MQTTPacket_willOptions where
  "MQTTPacket_willOptions_initializer =
     \<lparr>will_struct_id = [77, 81, 84, 87], will_struct_version = 0,
      topicName = MQTTString_initializer, message = MQTTString_initializer,
      retained = 0, will_qos = 0\<rparr>"

definition MQTTPacket_connectData_initializer :: MQTTPacket_connectData where
  "MQTTPacket_connectData_initializer =
     \<lparr>struct_id = [77, 81, 84, 67], struct_version = 0, MQTTVersion = 4,
      clientID = MQTTString_initializer, keepAliveInterval = KEEP_ALIVE_INTERVAL_DEFAULT_MIN,
      cleansession = 1, willFlag = 0, will = MQTTPacket_willOptions_initializer,
      username = MQTTString_initializer, password = MQTTString_initializer\<rparr>"

text \<open>The union \<open>MQTTConnectFlags\<close>.\<close>

definition connect_flags :: "u8 \<Rightarrow> u8 \<Rightarrow> u8 \<Rightarrow> u8 \<Rightarrow> u8 \<Rightarrow> u8 \<Rightarrow> u8" where
  "connect_flags clean wll willQoS willRetain pw un =
     push_bit 1 (clean AND 1) OR push_bit 2 (wll AND 1) OR push_bit 3 (willQoS AND 3) OR
     push_bit 5 (willRetain AND 1) OR push_bit 6 (pw AND 1) OR push_bit 7 (un AND 1)"

text \<open>\<open>s.cstring || s.lenstring.data\<close>\<close>

definition mqtt_string_set :: "MQTTString \<Rightarrow> bool" where
  "mqtt_string_set s \<longleftrightarrow> cstring s \<noteq> None \<or> lenstring_data s \<noteq> None"

definition MQTTSerialize_connectLength :: "MQTTPacket_connectData \<Rightarrow> nat" where
  "MQTTSerialize_connectLength options =
     (let len = (if MQTTVersion options = 3 then 12 else if MQTTVersion options = 4 then 10 else 0);
          len = len + (MQTTstrlen (clientID options) + 2);
          len = (if willFlag options \<noteq> 0
                 then len + (MQTTstrlen (topicName (will options)) + 2 +
                             MQTTstrlen (message (will options)) + 2)
                 else len);
          len = (if mqtt_string_set (username options)
                 then len + (MQTTstrlen (username options) + 2) else len);
          len = (if mqtt_string_set (password options)
                 then len + (MQTTstrlen (password options) + 2) else len)
      in len)"

definition connect_flags_of :: "MQTTPacket_connectData \<Rightarrow> u8" where
  "connect_flags_of options =
     (let w = willFlag options \<noteq> 0 in
      connect_flags (cleansession options) (if w then 1 else 0)
        (if w then will_qos (will options) else 0) (if w then retained (will options) else 0)
        (if mqtt_string_set (password options) then 1 else 0)
        (if mqtt_string_set (username options) then 1 else 0))"

text \<open>The protocol names \<open>"MQTT"\<close> and \<open>"MQIsdp"\<close>.\<close>

definition protocol_MQTT :: bytes where "protocol_MQTT = [77, 81, 84, 84]"
definition protocol_MQIsdp :: bytes where "protocol_MQIsdp = [77, 81, 73, 115, 100, 112]"

definition MQTTSerialize_connect ::
    "bytes \<Rightarrow> nat \<Rightarrow> MQTTPacket_connectData \<Rightarrow> (int \<times> bytes) option" where
  "MQTTSerialize_connect buf buflen options =
     (let len = MQTTSerialize_connectLength options in
      if MQTTPacket_len len > buflen then Some (MQTTPACKET_BUFFER_TOO_SHORT, buf)
      else run_writer (\<lambda>c. do {
        c \<leftarrow> writeChar (header_byte CONNECT 0 0 0) c;
        c \<leftarrow> put_rem_len len c;
        c \<leftarrow> writeCString (if MQTTVersion options = 4 then protocol_MQTT else protocol_MQIsdp) c;
        c \<leftarrow> writeChar (if MQTTVersion options = 4 then 4 else 3) c;
        c \<leftarrow> writeChar (connect_flags_of options) c;
        c \<leftarrow> writeInt (unat (keepAliveInterval options)) c;
        c \<leftarrow> writeMQTTString (clientID options) c;
        c \<leftarrow> (if willFlag options \<noteq> 0
             then do {
               c \<leftarrow> writeMQTTString (topicName (will options)) c;
               writeMQTTString (message (will options)) c }
             else Some c);
        c \<leftarrow> (if mqtt_string_set (username options)
             then writeMQTTString (username options) c else Some c);
        if mqtt_string_set (password options)
        then writeMQTTString (password options) c else Some c }) buf)"

definition MQTTSerialize_zero :: "bytes \<Rightarrow> nat \<Rightarrow> u8 \<Rightarrow> (int \<times> bytes) option" where
  "MQTTSerialize_zero buf buflen packettype =
     (if buflen < 2 then Some (MQTTPACKET_BUFFER_TOO_SHORT, buf)
      else run_writer (\<lambda>c. do {
        c \<leftarrow> writeChar (header_byte packettype 0 0 0) c;
        put_rem_len 0 c }) buf)"

definition MQTTSerialize_disconnect :: "bytes \<Rightarrow> nat \<Rightarrow> (int \<times> bytes) option" where
  "MQTTSerialize_disconnect buf buflen = MQTTSerialize_zero buf buflen DISCONNECT"

definition MQTTSerialize_pingreq :: "bytes \<Rightarrow> nat \<Rightarrow> (int \<times> bytes) option" where
  "MQTTSerialize_pingreq buf buflen = MQTTSerialize_zero buf buflen PINGREQ"

text \<open>
  \<open>MQTTDeserialize_connack(&sessionPresent, &connack_rc, buf, buflen)\<close>: the result is the return
  code and the two output variables. The C code reads \<open>buf\<close> with no regard to \<open>buflen\<close>.
\<close>

definition MQTTDeserialize_connack :: "u8 \<Rightarrow> u8 \<Rightarrow> bytes \<Rightarrow> (int \<times> u8 \<times> u8) option" where
  "MQTTDeserialize_connack sessionPresent connack_rc buf = do {
     h \<leftarrow> readChar buf 0;
     if header_type h \<noteq> CONNACK then Some (0, sessionPresent, connack_rc)
     else do {
       (rc, mylen) \<leftarrow> MQTTPacket_decodeBuf buf 1;
       let curdata = 1 + rc;
       let enddata = curdata + mylen;
       if int enddata - int curdata < 2 then Some (int rc, sessionPresent, connack_rc)
       else do {
         flags \<leftarrow> readChar buf curdata;
         code \<leftarrow> readChar buf (curdata + 1);
         Some (1, drop_bit 7 flags, code) } } }"

subsection \<open>MQTTSerializePublish.c\<close>

definition MQTTSerialize_publishLength :: "nat \<Rightarrow> MQTTString \<Rightarrow> nat \<Rightarrow> nat" where
  "MQTTSerialize_publishLength qos topic payloadlen =
     (let len = 2 + MQTTstrlen topic + payloadlen in if 0 < qos then len + 2 else len)"

definition MQTTSerialize_publish ::
    "bytes \<Rightarrow> nat \<Rightarrow> u8 \<Rightarrow> nat \<Rightarrow> u8 \<Rightarrow> u16 \<Rightarrow> MQTTString \<Rightarrow> bytes \<Rightarrow> nat \<Rightarrow> (int \<times> bytes) option" where
  "MQTTSerialize_publish buf buflen dup qos retain packetid topic payload payloadlen =
     (let rem_len = MQTTSerialize_publishLength qos topic payloadlen in
      if MQTTPacket_len rem_len > buflen then Some (MQTTPACKET_BUFFER_TOO_SHORT, buf)
      else run_writer (\<lambda>c. do {
        c \<leftarrow> writeChar (header_byte PUBLISH dup (of_nat qos) retain) c;
        c \<leftarrow> put_rem_len rem_len c;
        c \<leftarrow> writeMQTTString topic c;
        c \<leftarrow> (if 0 < qos then writeInt (unat packetid) c else Some c);
        put_from payload payloadlen c }) buf)"

definition MQTTSerialize_ack :: "bytes \<Rightarrow> nat \<Rightarrow> u8 \<Rightarrow> u8 \<Rightarrow> u16 \<Rightarrow> (int \<times> bytes) option" where
  "MQTTSerialize_ack buf buflen packettype dup packetid =
     (if buflen < 4 then Some (MQTTPACKET_BUFFER_TOO_SHORT, buf)
      else run_writer (\<lambda>c. do {
        c \<leftarrow> writeChar (header_byte packettype dup (if packettype = PUBREL then 1 else 0) 0) c;
        c \<leftarrow> put_rem_len 2 c;
        writeInt (unat packetid) c }) buf)"

definition MQTTSerialize_puback :: "bytes \<Rightarrow> nat \<Rightarrow> u16 \<Rightarrow> (int \<times> bytes) option" where
  "MQTTSerialize_puback buf buflen packetid = MQTTSerialize_ack buf buflen PUBACK 0 packetid"

definition MQTTSerialize_pubrel :: "bytes \<Rightarrow> nat \<Rightarrow> u8 \<Rightarrow> u16 \<Rightarrow> (int \<times> bytes) option" where
  "MQTTSerialize_pubrel buf buflen dup packetid = MQTTSerialize_ack buf buflen PUBREL dup packetid"

definition MQTTSerialize_pubcomp :: "bytes \<Rightarrow> nat \<Rightarrow> u16 \<Rightarrow> (int \<times> bytes) option" where
  "MQTTSerialize_pubcomp buf buflen packetid = MQTTSerialize_ack buf buflen PUBCOMP 0 packetid"

subsection \<open>MQTTSubscribeClient.c and MQTTUnsubscribeClient.c\<close>

text \<open>\<open>count\<close> is the length of the list of filters.\<close>

definition MQTTSerialize_subscribeLength :: "MQTTString list \<Rightarrow> nat" where
  "MQTTSerialize_subscribeLength topicFilters =
     fold (\<lambda>t len. len + (2 + MQTTstrlen t + 1)) topicFilters 2"

fun put_filters_qos :: "(MQTTString \<times> nat) list \<Rightarrow> cursor \<Rightarrow> cursor option" where
  "put_filters_qos [] c = Some c"
| "put_filters_qos ((t, q) # ts) c = do {
     c \<leftarrow> writeMQTTString t c;
     c \<leftarrow> writeChar (of_nat q) c;
     put_filters_qos ts c }"

definition MQTTSerialize_subscribe ::
    "bytes \<Rightarrow> nat \<Rightarrow> u8 \<Rightarrow> u16 \<Rightarrow> MQTTString list \<Rightarrow> nat list \<Rightarrow> (int \<times> bytes) option" where
  "MQTTSerialize_subscribe buf buflen dup packetid topicFilters requestedQoSs =
     (let rem_len = MQTTSerialize_subscribeLength topicFilters in
      if MQTTPacket_len rem_len > buflen then Some (MQTTPACKET_BUFFER_TOO_SHORT, buf)
      else if length requestedQoSs < length topicFilters then None
      else run_writer (\<lambda>c. do {
        c \<leftarrow> writeChar (header_byte SUBSCRIBE dup 1 0) c;
        c \<leftarrow> put_rem_len rem_len c;
        c \<leftarrow> writeInt (unat packetid) c;
        put_filters_qos (zip topicFilters requestedQoSs) c }) buf)"

definition MQTTSerialize_unsubscribeLength :: "MQTTString list \<Rightarrow> nat" where
  "MQTTSerialize_unsubscribeLength topicFilters =
     fold (\<lambda>t len. len + (2 + MQTTstrlen t)) topicFilters 2"

fun put_filters :: "MQTTString list \<Rightarrow> cursor \<Rightarrow> cursor option" where
  "put_filters [] c = Some c"
| "put_filters (t # ts) c = do {
     c \<leftarrow> writeMQTTString t c;
     put_filters ts c }"

definition MQTTSerialize_unsubscribe ::
    "bytes \<Rightarrow> nat \<Rightarrow> u8 \<Rightarrow> u16 \<Rightarrow> MQTTString list \<Rightarrow> (int \<times> bytes) option" where
  "MQTTSerialize_unsubscribe buf buflen dup packetid topicFilters =
     (let rem_len = MQTTSerialize_unsubscribeLength topicFilters in
      if MQTTPacket_len rem_len > buflen then Some (MQTTPACKET_BUFFER_TOO_SHORT, buf)
      else run_writer (\<lambda>c. do {
        c \<leftarrow> writeChar (header_byte UNSUBSCRIBE dup 1 0) c;
        c \<leftarrow> put_rem_len rem_len c;
        c \<leftarrow> writeInt (unat packetid) c;
        put_filters topicFilters c }) buf)"

section \<open>Deserialisers\<close>

text \<open>The variables \<open>MQTTDeserialize_publish\<close> fills; \<open>payload\<close> is an offset into \<open>buf\<close>.\<close>

record publish_out =
  po_dup :: u8
  po_qos :: u8
  po_retained :: u8
  po_packetid :: u16
  po_topicName :: MQTTString
  po_payload :: nat
  po_payloadlen :: int

definition MQTTDeserialize_publish :: "publish_out \<Rightarrow> bytes \<Rightarrow> (int \<times> publish_out) option" where
  "MQTTDeserialize_publish out buf = do {
     h \<leftarrow> readChar buf 0;
     if header_type h \<noteq> PUBLISH then Some (0, out)
     else do {
       let out = out\<lparr>po_dup := header_dup h, po_qos := header_qos h, po_retained := header_retain h\<rparr>;
       (rc, mylen) \<leftarrow> MQTTPacket_decodeBuf buf 1;
       let curdata = 1 + rc;
       let enddata = curdata + mylen;
       (ok, topic, curdata) \<leftarrow> readMQTTLenString buf (po_topicName out) curdata enddata;
       let out = out\<lparr>po_topicName := topic\<rparr>;
       if ok = 0 \<or> int enddata - int curdata < 0 then Some (int rc, out)
       else if 0 < po_qos out then do {
         pid \<leftarrow> readInt buf curdata;
         Some (1, out\<lparr>po_packetid := of_nat pid, po_payload := curdata + 2,
                     po_payloadlen := int enddata - int (curdata + 2)\<rparr>) }
       else Some (1, out\<lparr>po_payload := curdata, po_payloadlen := int enddata - int curdata\<rparr>) } }"

text \<open>The outputs are the packet type, the dup flag and the packet id.\<close>

definition MQTTDeserialize_ack :: "u16 \<Rightarrow> bytes \<Rightarrow> (int \<times> u8 \<times> u8 \<times> u16) option" where
  "MQTTDeserialize_ack packetid buf = do {
     h \<leftarrow> readChar buf 0;
     (rc, mylen) \<leftarrow> MQTTPacket_decodeBuf buf 1;
     let curdata = 1 + rc;
     let enddata = curdata + mylen;
     if int enddata - int curdata < 2 then Some (int rc, header_type h, header_dup h, packetid)
     else do {
       pid \<leftarrow> readInt buf curdata;
       Some (1, header_type h, header_dup h, of_nat pid) } }"

text \<open>
  The loop of \<open>MQTTDeserialize_suback\<close>. \<open>qs\<close> is the caller's array (its length is the room it
  has), \<open>n\<close> the number of remaining bytes \<open>enddata - curdata\<close>.
\<close>

fun suback_loop :: "bytes \<Rightarrow> nat \<Rightarrow> nat \<Rightarrow> nat \<Rightarrow> nat \<Rightarrow> int list \<Rightarrow> (int \<times> nat \<times> int list) option" where
  "suback_loop buf curdata 0 maxcount count qs = Some (1, count, qs)"
| "suback_loop buf curdata (Suc n) maxcount count qs =
     (if count > maxcount then Some (-1, count, qs)
      else do {
        c \<leftarrow> readChar buf curdata;
        if count < length qs
        then suback_loop buf (curdata + 1) n maxcount (count + 1) (qs[count := sint c])
        else None })"

definition MQTTDeserialize_suback ::
    "u16 \<Rightarrow> nat \<Rightarrow> nat \<Rightarrow> int list \<Rightarrow> bytes \<Rightarrow> (int \<times> u16 \<times> nat \<times> int list) option" where
  "MQTTDeserialize_suback packetid maxcount count grantedQoSs buf = do {
     h \<leftarrow> readChar buf 0;
     if header_type h \<noteq> SUBACK then Some (0, packetid, count, grantedQoSs)
     else do {
       (rc, mylen) \<leftarrow> MQTTPacket_decodeBuf buf 1;
       let curdata = 1 + rc;
       let enddata = curdata + mylen;
       if int enddata - int curdata < 2 then Some (int rc, packetid, count, grantedQoSs)
       else do {
         pid \<leftarrow> readInt buf curdata;
         (rc, count, qs) \<leftarrow> suback_loop buf (curdata + 2) (mylen - 2) maxcount 0 grantedQoSs;
         Some (rc, of_nat pid, count, qs) } } }"

definition MQTTDeserialize_unsuback :: "u16 \<Rightarrow> bytes \<Rightarrow> (int \<times> u16) option" where
  "MQTTDeserialize_unsuback packetid buf = do {
     (rc, ty, dup, pid) \<leftarrow> MQTTDeserialize_ack packetid buf;
     Some (if ty = UNSUBACK then 1 else rc, pid) }"

section \<open>What the serialisers produce\<close>

text \<open>A packet: fixed header, remaining length, variable header and payload.\<close>

definition mqtt_packet :: "u8 \<Rightarrow> bytes \<Rightarrow> bytes" where
  "mqtt_packet h body = h # rem_len_bytes (length body) @ body"

lemma length_mqtt_packet:
  "length body < 268435456 \<Longrightarrow> length (mqtt_packet h body) \<le> MQTTPacket_len (length body)"
  using MQTTPacket_len_enough [of "length body"] by (simp add: mqtt_packet_def)

text \<open>
  The size of a buffer that is large enough for a packet: its length, and one more for the four lengths of
  the body where \<open>MQTTPacket_len\<close>, which adds the header byte before it counts the bytes of the length,
  counts one too many.
\<close>

definition buffer_needed :: "u8 \<Rightarrow> bytes \<Rightarrow> nat" where
  "buffer_needed h body =
     length (mqtt_packet h body) + (if length body \<in> {127, 16383, 2097150, 2097151} then 1 else 0)"

lemma MQTTPacket_len_needed:
  "length body < 268435456 \<Longrightarrow> MQTTPacket_len (length body) = buffer_needed h body"
  using length_rem_len_bytes [of "length body"]
  by (cases "length body < 128"; cases "length body < 16384"; cases "length body < 2097152")
     (auto simp: MQTTPacket_len_def Let_def buffer_needed_def mqtt_packet_def)

lemma emits_packet:
  assumes "emits w body" and "n = length body"
  shows "emits (\<lambda>c. writeChar h c \<bind> (\<lambda>c. put_rem_len n c \<bind> w)) (mqtt_packet h body)"
proof -
  have "emits (\<lambda>c. writeChar h c \<bind> (\<lambda>c. put_rem_len n c \<bind> w)) ([h] @ rem_len_bytes n @ body)"
    by (intro emits_bind emits_intro assms(1))
  with assms(2) show ?thesis by (simp add: mqtt_packet_def)
qed

lemma run_packet:
  assumes "emits w body" and "length body = n" and "n < 268435456" and "MQTTPacket_len n \<le> length buf"
  shows "run_writer (\<lambda>c. writeChar h c \<bind> (\<lambda>c. put_rem_len n c \<bind> w)) buf =
    Some (int (length (mqtt_packet h body)), mqtt_packet h body @ drop (length (mqtt_packet h body)) buf)"
proof (rule run_writer_emits)
  show "emits (\<lambda>c. writeChar h c \<bind> (\<lambda>c. put_rem_len n c \<bind> w)) (mqtt_packet h body)"
    using assms(1,2) by (intro emits_packet) auto
  show "length (mqtt_packet h body) \<le> length buf"
    using length_mqtt_packet [of body h] assms by simp
qed

definition publish_body :: "nat \<Rightarrow> u16 \<Rightarrow> bytes \<Rightarrow> bytes \<Rightarrow> bytes" where
  "publish_body qos pid topic payload =
     be16 (length topic) @ topic @ (if 0 < qos then be16 (unat pid) else []) @ payload"

definition publish_packet :: "u8 \<Rightarrow> nat \<Rightarrow> u8 \<Rightarrow> u16 \<Rightarrow> bytes \<Rightarrow> bytes \<Rightarrow> bytes" where
  "publish_packet dup qos retain pid topic payload =
     mqtt_packet (header_byte PUBLISH dup (of_nat qos) retain) (publish_body qos pid topic payload)"

lemma publishLength_body:
  "mqtt_string_ok t \<Longrightarrow> n \<le> length payload \<Longrightarrow>
   MQTTSerialize_publishLength qos t n = length (publish_body qos pid (mqtt_chars t) (take n payload))"
  by (simp add: MQTTSerialize_publishLength_def MQTTstrlen_chars publish_body_def)

lemma MQTTSerialize_publish_eq:
  assumes "mqtt_string_ok topic" and "payloadlen \<le> length payload"
    and "MQTTSerialize_publishLength qos topic payloadlen < 268435456" and "buflen \<le> length buf"
  shows "MQTTSerialize_publish buf buflen dup qos retain pid topic payload payloadlen = Some
    (let pkt = publish_packet dup qos retain pid (mqtt_chars topic) (take payloadlen payload) in
     if buflen < MQTTPacket_len (MQTTSerialize_publishLength qos topic payloadlen)
     then (MQTTPACKET_BUFFER_TOO_SHORT, buf)
     else (int (length pkt), pkt @ drop (length pkt) buf))"
proof -
  let ?n = "MQTTSerialize_publishLength qos topic payloadlen"
  let ?body = "publish_body qos pid (mqtt_chars topic) (take payloadlen payload)"
  have n: "length ?body = ?n" using publishLength_body [OF assms(1,2), of qos pid] by simp
  have "emits (\<lambda>c. writeMQTTString topic c \<bind>
      (\<lambda>c. (if 0 < qos then writeInt (unat pid) c else Some c) \<bind> put_from payload payloadlen))
    (mqtt_string_bytes topic @ (if 0 < qos then be16 (unat pid) else []) @ take payloadlen payload)"
    using assms by (intro emits_bind emits_if emits_put_from emits_intro)
  then have "emits (\<lambda>c. writeMQTTString topic c \<bind>
      (\<lambda>c. (if 0 < qos then writeInt (unat pid) c else Some c) \<bind> put_from payload payloadlen)) ?body"
    by (simp add: publish_body_def mqtt_string_bytes_def)
  from run_packet [OF this n] assms(3,4) show ?thesis
    by (auto simp: MQTTSerialize_publish_def Let_def publish_packet_def)
qed

definition connect_body :: "MQTTPacket_connectData \<Rightarrow> bytes" where
  "connect_body opts =
     (if MQTTVersion opts = 4 then be16 4 @ protocol_MQTT @ [4] else be16 6 @ protocol_MQIsdp @ [3]) @
     [connect_flags_of opts] @ be16 (unat (keepAliveInterval opts)) @ mqtt_string_bytes (clientID opts) @
     (if willFlag opts \<noteq> 0
      then mqtt_string_bytes (topicName (will opts)) @ mqtt_string_bytes (message (will opts)) else []) @
     (if mqtt_string_set (username opts) then mqtt_string_bytes (username opts) else []) @
     (if mqtt_string_set (password opts) then mqtt_string_bytes (password opts) else [])"

definition connect_strings_ok :: "MQTTPacket_connectData \<Rightarrow> bool" where
  "connect_strings_ok opts \<longleftrightarrow>
     mqtt_string_ok (clientID opts) \<and> mqtt_string_ok (topicName (will opts)) \<and>
     mqtt_string_ok (message (will opts)) \<and> mqtt_string_ok (username opts) \<and> mqtt_string_ok (password opts)"

lemma connectLength_body:
  "connect_strings_ok opts \<Longrightarrow> MQTTVersion opts = 3 \<or> MQTTVersion opts = 4 \<Longrightarrow>
   length (connect_body opts) = MQTTSerialize_connectLength opts"
  by (auto simp: connect_strings_ok_def connect_body_def MQTTSerialize_connectLength_def Let_def
      MQTTstrlen_chars protocol_MQTT_def protocol_MQIsdp_def)

lemma length_protocol: "length protocol_MQTT = 4" "length protocol_MQIsdp = 6"
  by (simp_all add: protocol_MQTT_def protocol_MQIsdp_def)

lemma emits_connect_body:
  assumes "connect_strings_ok opts"
  shows "emits (\<lambda>c. do {
        c \<leftarrow> writeCString (if MQTTVersion opts = 4 then protocol_MQTT else protocol_MQIsdp) c;
        c \<leftarrow> writeChar (if MQTTVersion opts = 4 then 4 else 3) c;
        c \<leftarrow> writeChar (connect_flags_of opts) c;
        c \<leftarrow> writeInt (unat (keepAliveInterval opts)) c;
        c \<leftarrow> writeMQTTString (clientID opts) c;
        c \<leftarrow> (if willFlag opts \<noteq> 0
             then do {
               c \<leftarrow> writeMQTTString (topicName (will opts)) c;
               writeMQTTString (message (will opts)) c }
             else Some c);
        c \<leftarrow> (if mqtt_string_set (username opts)
             then writeMQTTString (username opts) c else Some c);
        if mqtt_string_set (password opts)
        then writeMQTTString (password opts) c else Some c }) (connect_body opts)" (is "emits ?w _")
proof -
  let ?name = "if MQTTVersion opts = 4 then protocol_MQTT else protocol_MQIsdp"
  have "emits ?w ((be16 (length ?name) @ ?name) @ [if MQTTVersion opts = 4 then 4 else 3] @
     [connect_flags_of opts] @ be16 (unat (keepAliveInterval opts)) @ mqtt_string_bytes (clientID opts) @
     (if willFlag opts \<noteq> 0
      then mqtt_string_bytes (topicName (will opts)) @ mqtt_string_bytes (message (will opts)) else []) @
     (if mqtt_string_set (username opts) then mqtt_string_bytes (username opts) else []) @
     (if mqtt_string_set (password opts) then mqtt_string_bytes (password opts) else []))"
    using assms unfolding connect_strings_ok_def
    by (intro emits_bind emits_if emits_intro) auto
  moreover have "(be16 (length ?name) @ ?name) @ [if MQTTVersion opts = 4 then 4 else 3 :: u8] =
    (if MQTTVersion opts = 4 then be16 4 @ protocol_MQTT @ [4] else be16 6 @ protocol_MQIsdp @ [3])"
    by (simp add: length_protocol)
  ultimately show ?thesis by (simp only: connect_body_def append_assoc [symmetric])
qed

lemma MQTTSerialize_connect_eq:
  assumes "connect_strings_ok opts" and "MQTTVersion opts = 3 \<or> MQTTVersion opts = 4"
    and "MQTTSerialize_connectLength opts < 268435456" and "buflen \<le> length buf"
  shows "MQTTSerialize_connect buf buflen opts = Some
    (let pkt = mqtt_packet (header_byte CONNECT 0 0 0) (connect_body opts) in
     if buflen < MQTTPacket_len (MQTTSerialize_connectLength opts)
     then (MQTTPACKET_BUFFER_TOO_SHORT, buf)
     else (int (length pkt), pkt @ drop (length pkt) buf))"
  using run_packet [OF emits_connect_body [OF assms(1)] connectLength_body [OF assms(1,2)] assms(3),
      of buf "header_byte CONNECT 0 0 0"] assms(4)
  by (auto simp: MQTTSerialize_connect_def Let_def)

text \<open>Any other protocol version is written like 3.1 but counted without the ten or twelve bytes.\<close>

lemma connectLength_other_version:
  "connect_strings_ok opts \<Longrightarrow> MQTTVersion opts \<noteq> 3 \<Longrightarrow> MQTTVersion opts \<noteq> 4 \<Longrightarrow>
   length (connect_body opts) = MQTTSerialize_connectLength opts + 12"
  by (auto simp: connect_strings_ok_def connect_body_def MQTTSerialize_connectLength_def Let_def
      MQTTstrlen_chars length_protocol)

lemma MQTTSerialize_connect_overrun_eq:
  assumes "connect_strings_ok opts" and "MQTTVersion opts \<noteq> 3" and "MQTTVersion opts \<noteq> 4"
    and "length buf = MQTTPacket_len (MQTTSerialize_connectLength opts)"
  shows "MQTTSerialize_connect buf (length buf) opts = None"
proof -
  let ?n = "MQTTSerialize_connectLength opts"
  have "emits (\<lambda>c. writeChar (header_byte CONNECT 0 0 0) c \<bind> (\<lambda>c. put_rem_len ?n c \<bind> w))
      ([header_byte CONNECT 0 0 0] @ rem_len_bytes ?n @ connect_body opts)"
    if "emits w (connect_body opts)" for w
    by (intro emits_bind emits_intro that)
  from this [OF emits_connect_body [OF assms(1)]] show ?thesis
    using connectLength_other_version [OF assms(1-3)] assms(4)
    by (auto simp: MQTTSerialize_connect_def Let_def MQTTPacket_len_def intro!: run_writer_overrun split: if_splits)
qed

lemma MQTTSerialize_ack_correct:
  assumes "4 \<le> length buf"
  shows "MQTTSerialize_ack buf buflen ty dup pid = Some
    (if buflen < 4 then (MQTTPACKET_BUFFER_TOO_SHORT, buf)
     else (4, [header_byte ty dup (if ty = PUBREL then 1 else 0) 0, 2] @ be16 (unat pid) @ drop 4 buf))"
proof -
  have z: "rem_len_bytes 2 = [2]" by (simp add: rem_len_bytes.simps)
  have "emits (\<lambda>c. do {
        c \<leftarrow> writeChar (header_byte ty dup (if ty = PUBREL then 1 else 0) 0) c;
        c \<leftarrow> put_rem_len 2 c;
        writeInt (unat pid) c })
     ([header_byte ty dup (if ty = PUBREL then 1 else 0) 0] @ rem_len_bytes 2 @ be16 (unat pid))"
    by (intro emits_bind emits_intro)
  from run_writer_emits [OF this, of buf] z assms show ?thesis
    by (simp add: MQTTSerialize_ack_def)
qed

lemma MQTTSerialize_zero_correct:
  assumes "2 \<le> length buf"
  shows "MQTTSerialize_zero buf buflen ty = Some
    (if buflen < 2 then (MQTTPACKET_BUFFER_TOO_SHORT, buf)
     else (2, [header_byte ty 0 0 0, 0] @ drop 2 buf))"
proof -
  have z: "rem_len_bytes 0 = [0]" by (simp add: rem_len_bytes.simps)
  have "emits (\<lambda>c. do {
        c \<leftarrow> writeChar (header_byte ty 0 0 0) c;
        put_rem_len 0 c }) ([header_byte ty 0 0 0] @ rem_len_bytes 0)"
    by (intro emits_bind emits_intro)
  from run_writer_emits [OF this, of buf] z assms show ?thesis
    by (simp add: MQTTSerialize_zero_def numeral_2_eq_2)
qed

definition filter_bytes :: "MQTTString \<times> nat \<Rightarrow> bytes" where
  "filter_bytes tq = mqtt_string_bytes (fst tq) @ [of_nat (snd tq)]"

lemma emits_put_filters_qos:
  "list_all (mqtt_string_ok \<circ> fst) tqs \<Longrightarrow> emits (put_filters_qos tqs) (concat (map filter_bytes tqs))"
proof (induction tqs)
  case Nil
  have "put_filters_qos [] = (\<lambda>c. Some c)" by (rule ext) simp
  then show ?case by (simp add: emits_skip)
next
  case (Cons tq tqs)
  obtain t q where tq: "tq = (t, q)" by (cases tq)
  have "put_filters_qos (tq # tqs) =
    (\<lambda>c. writeMQTTString t c \<bind> (\<lambda>c. writeChar (of_nat q) c \<bind> put_filters_qos tqs))"
    by (rule ext) (simp add: tq)
  moreover have "emits (\<lambda>c. writeMQTTString t c \<bind> (\<lambda>c. writeChar (of_nat q) c \<bind> put_filters_qos tqs))
    (mqtt_string_bytes t @ [of_nat q] @ concat (map filter_bytes tqs))"
    using Cons tq by (intro emits_bind emits_intro) auto
  moreover have "filter_bytes tq = mqtt_string_bytes t @ [of_nat q]"
    by (simp add: tq filter_bytes_def)
  ultimately show ?case by simp
qed

lemma emits_put_filters:
  "list_all mqtt_string_ok ts \<Longrightarrow> emits (put_filters ts) (concat (map mqtt_string_bytes ts))"
proof (induction ts)
  case Nil
  have "put_filters [] = (\<lambda>c. Some c)" by (rule ext) simp
  then show ?case by (simp add: emits_skip)
next
  case (Cons t ts)
  have "put_filters (t # ts) = (\<lambda>c. writeMQTTString t c \<bind> put_filters ts)"
    by (rule ext) simp
  moreover have "emits (\<lambda>c. writeMQTTString t c \<bind> put_filters ts)
    (mqtt_string_bytes t @ concat (map mqtt_string_bytes ts))"
    using Cons by (intro emits_bind emits_intro) auto
  ultimately show ?case by simp
qed

lemma subscribeLength_acc:
  "list_all mqtt_string_ok ts \<Longrightarrow> length qs = length ts \<Longrightarrow>
   fold (\<lambda>t len. len + (2 + MQTTstrlen t + 1)) ts k =
   k + length (concat (map filter_bytes (zip ts qs)))"
  by (induction ts arbitrary: qs k; case_tac qs) (auto simp: MQTTstrlen_chars filter_bytes_def)

lemma unsubscribeLength_acc:
  "list_all mqtt_string_ok ts \<Longrightarrow>
   fold (\<lambda>t len. len + (2 + MQTTstrlen t)) ts k = k + length (concat (map mqtt_string_bytes ts))"
  by (induction ts arbitrary: k) (auto simp: MQTTstrlen_chars)

lemma MQTTSerialize_subscribe_eq:
  assumes "list_all mqtt_string_ok ts" and "length qs = length ts"
    and "MQTTSerialize_subscribeLength ts < 268435456" and "buflen \<le> length buf"
  shows "MQTTSerialize_subscribe buf buflen dup pid ts qs = Some
    (let pkt = mqtt_packet (header_byte SUBSCRIBE dup 1 0)
                 (be16 (unat pid) @ concat (map filter_bytes (zip ts qs))) in
     if buflen < MQTTPacket_len (MQTTSerialize_subscribeLength ts)
     then (MQTTPACKET_BUFFER_TOO_SHORT, buf)
     else (int (length pkt), pkt @ drop (length pkt) buf))"
proof -
  have "list_all (mqtt_string_ok \<circ> fst) (zip ts qs)"
    using assms(1) by (auto simp: list_all_iff dest: set_zip_leftD)
  then have w: "emits (\<lambda>c. writeInt (unat pid) c \<bind> put_filters_qos (zip ts qs))
    (be16 (unat pid) @ concat (map filter_bytes (zip ts qs)))"
    by (intro emits_bind emits_intro emits_put_filters_qos)
  have n: "length (be16 (unat pid) @ concat (map filter_bytes (zip ts qs))) = MQTTSerialize_subscribeLength ts"
    using subscribeLength_acc [OF assms(1,2), of 2] by (simp add: MQTTSerialize_subscribeLength_def)
  show ?thesis
    using run_packet [OF w n assms(3), of buf] assms(2,4)
    by (auto simp: MQTTSerialize_subscribe_def Let_def)
qed

lemma MQTTSerialize_unsubscribe_eq:
  assumes "list_all mqtt_string_ok ts"
    and "MQTTSerialize_unsubscribeLength ts < 268435456" and "buflen \<le> length buf"
  shows "MQTTSerialize_unsubscribe buf buflen dup pid ts = Some
    (let pkt = mqtt_packet (header_byte UNSUBSCRIBE dup 1 0)
                 (be16 (unat pid) @ concat (map mqtt_string_bytes ts)) in
     if buflen < MQTTPacket_len (MQTTSerialize_unsubscribeLength ts)
     then (MQTTPACKET_BUFFER_TOO_SHORT, buf)
     else (int (length pkt), pkt @ drop (length pkt) buf))"
proof -
  have w: "emits (\<lambda>c. writeInt (unat pid) c \<bind> put_filters ts)
    (be16 (unat pid) @ concat (map mqtt_string_bytes ts))"
    by (intro emits_bind emits_intro emits_put_filters assms(1))
  have n: "length (be16 (unat pid) @ concat (map mqtt_string_bytes ts)) = MQTTSerialize_unsubscribeLength ts"
    using unsubscribeLength_acc [OF assms(1), of 2] by (simp add: MQTTSerialize_unsubscribeLength_def)
  show ?thesis
    using run_packet [OF w n assms(2), of buf] assms(3)
    by (auto simp: MQTTSerialize_unsubscribe_def Let_def)
qed

section \<open>What the deserialisers accept\<close>

lemma readInt_be16 [mem_simps]:
  "n < 65536 \<Longrightarrow> p = length pre \<Longrightarrow> readInt (pre @ be16 n @ post) p = Some n"
  using be16_decode [of n] by (simp add: readInt_def rd_def be16_def nth_append)

lemma decodeBuf_packet:
  assumes "length body < 268435456"
  shows "MQTTPacket_decodeBuf (mqtt_packet h body @ rest) 1 =
     Some (length (rem_len_bytes (length body)), length body)"
  using MQTTPacket_decodeBuf_rem_len [OF assms, of "[h]" "body @ rest"] by (simp add: mqtt_packet_def)

lemma readChar_packet: "readChar (mqtt_packet h body @ rest) 0 = Some h"
  by (simp add: readChar_def rd_def mqtt_packet_def)

text \<open>A packet whose length field is one byte long and below 128.\<close>

lemma decodeBuf_one:
  "unat b < 128 \<Longrightarrow> MQTTPacket_decodeBuf (h # b # rest) 1 = Some (1, unat b)"
  using decode_loop_step [of "h # b # rest" 1 b 0 1 0]
  by (simp add: MQTTPacket_decodeBuf_def MQTTPacket_decode_def rd_def u8_and_128 unat_and_mask7)

lemma publish_roundtrip_lemma:
  assumes q: "qos < 4" and t: "length topic < 65536"
    and n: "length (publish_body qos pid topic payload) < 268435456"
    and buf_def: "buf = publish_packet dup qos retain pid topic payload @ rest"
  shows "\<exists>out'. MQTTDeserialize_publish out buf = Some (1, out') \<and>
     po_dup out' = dup AND 1 \<and> po_qos out' = of_nat qos \<and> po_retained out' = retain AND 1 \<and>
     mqtt_chars (po_topicName out') = topic \<and>
     (0 < qos \<longrightarrow> po_packetid out' = pid) \<and>
     po_payloadlen out' = int (length payload) \<and>
     rd_bytes buf (po_payload out') (length payload) = Some payload"
proof -
  define body where "body = publish_body qos pid topic payload"
  define pre where "pre = header_byte PUBLISH dup (of_nat qos) retain # rem_len_bytes (length body)"
  have buf: "buf = pre @ be16 (length topic) @ topic @ (if 0 < qos then be16 (unat pid) else []) @ payload @ rest"
    by (simp add: buf_def pre_def body_def publish_packet_def mqtt_packet_def publish_body_def)
  have q3: "(of_nat qos :: u8) AND 3 = of_nat qos"
  proof -
    from q have "qos \<in> {0, 1, 2, 3}" by auto
    then show ?thesis by auto
  qed
  have q0: "(0 < (of_nat qos :: u8)) = (0 < qos)" 
    using q by (simp add: word_less_nat_alt unat_of_nat_byte)
  have len: "length body = 2 + length topic + (if 0 < qos then 2 else 0) + length payload"
    by (simp add: body_def publish_body_def)
  have h: "readChar buf 0 = Some (header_byte PUBLISH dup (of_nat qos) retain)"
    by (simp add: buf_def publish_packet_def readChar_packet)
  have d: "MQTTPacket_decodeBuf buf 1 = Some (length (rem_len_bytes (length body)), length body)"
    by (simp only: buf_def publish_packet_def decodeBuf_packet [OF n] body_def)
  have tl: "readInt buf (length pre) = Some (length topic)"
    unfolding buf by (rule readInt_be16 [OF t refl])
  have pidr: "readInt buf (length pre + 2 + length topic) = Some (unat pid)" if "0 < qos"
    using that readInt_be16 [of "unat pid" _ "pre @ be16 (length topic) @ topic" "payload @ rest"]
      unsigned_less [of pid, where ?'a = nat] by (simp add: buf)
  have p2: "length pre = 1 + length (rem_len_bytes (length body))" by (simp add: pre_def)
  have dt: "drop (length pre + 2) buf = topic @ (if 0 < qos then be16 (unat pid) else []) @ payload @ rest"
    by (simp add: buf)
  have rp: "rd_bytes buf (length pre + 2 + length topic + (if 0 < qos then 2 else 0)) (length payload) = Some payload"
    using rd_bytes_append [of "pre @ be16 (length topic) @ topic @ (if 0 < qos then be16 (unat pid) else [])" payload rest]
    by (auto simp: buf split: if_splits)
  let ?s = "(po_topicName out)\<lparr>lenstring_len := length topic, cstring := None,
     lenstring_data := Some (drop (length pre + 2) buf)\<rparr>"
  have rs: "readMQTTLenString buf (po_topicName out) (length pre) (length pre + length body) =
    Some (1, ?s, length pre + 2 + length topic)"
    by (simp add: readMQTTLenString_def tl len)
  have chars: "mqtt_chars ?s = topic"
    by (simp add: mqtt_chars_def dt [simplified])
  let ?out = "out\<lparr>po_dup := dup AND 1, po_qos := of_nat qos, po_retained := retain AND 1, po_topicName := ?s\<rparr>"
  show ?thesis
  proof (cases "0 < qos")
    case True
    then have "MQTTDeserialize_publish out buf = Some (1, ?out\<lparr>po_packetid := pid,
        po_payload := length pre + 2 + length topic + 2, po_payloadlen := int (length payload)\<rparr>)"
      using d rs pidr
      by (simp add: MQTTDeserialize_publish_def h q3 q0 p2 len)
    with True chars rp show ?thesis by simp
  next
    case False
    then have "MQTTDeserialize_publish out buf = Some (1, ?out\<lparr>
        po_payload := length pre + 2 + length topic, po_payloadlen := int (length payload)\<rparr>)"
      using d rs
      by (simp add: MQTTDeserialize_publish_def h q3 q0 p2 len)
    with False chars rp show ?thesis by simp
  qed
qed

text \<open>
  A CONNACK or PUBLISH whose length field is one byte long and too small for its contents is
  reported as success (the functions return the size of the length field): nothing but the
  header flags and the topic length is stored in the output variables.
\<close>

lemma MQTTDeserialize_connack_truncated_eq:
  assumes "header_type h = CONNACK" and "unat b < 2"
  shows "MQTTDeserialize_connack sp code (h # b # rest) = Some (1, sp, code)"
  using assms decodeBuf_one [of b h rest]
  by (simp add: MQTTDeserialize_connack_def readChar_def rd_def)

lemma MQTTDeserialize_publish_truncated_eq:
  assumes "header_type h = PUBLISH" and "2 \<le> unat b" and "unat b < 128"
    and "n < 65536" and "unat b < n + 2"
  shows "MQTTDeserialize_publish out (h # b # be16 n @ rest) = Some (1,
     out\<lparr>po_dup := header_dup h, po_qos := header_qos h, po_retained := header_retain h,
         po_topicName := (po_topicName out)\<lparr>lenstring_len := n, cstring := None\<rparr>\<rparr>)"
proof -
  have "readInt (h # b # be16 n @ rest) 2 = Some n"
    using readInt_be16 [of n 2 "[h, b]" rest] assms by simp
  then show ?thesis
    using assms decodeBuf_one [of b h "be16 n @ rest"]
    by (simp add: MQTTDeserialize_publish_def readChar_def rd_def readMQTTLenString_def numeral_2_eq_2)
qed

text \<open>
  \<open>MQTTDeserialize_suback\<close> compares \<open>count > maxcount\<close> before it stores, so a packet with more
  codes than the caller's array has room for is written one element past its end.
\<close>

lemma suback_loop_overrun:
  "length qs = maxcount \<Longrightarrow> count \<le> maxcount \<Longrightarrow> maxcount < count + n \<Longrightarrow>
   curdata + n \<le> length buf \<Longrightarrow> suback_loop buf curdata n maxcount count qs = None"
proof (induction n arbitrary: curdata count qs)
  case 0
  then show ?case by simp
next
  case (Suc n)
  then have "readChar buf curdata = Some (buf ! curdata)" by (simp add: readChar_def rd_def)
  with Suc show ?case by simp
qed

lemma MQTTDeserialize_suback_overrun_eq:
  assumes "header_type h = SUBACK" and "maxcount + 3 \<le> unat b" and "unat b < 128"
    and "length rest = unat b" and "length qs = maxcount"
  shows "MQTTDeserialize_suback pid maxcount count qs (h # b # rest) = None"
proof -
  have "\<exists>n. readInt (h # b # rest) 2 = Some n"
    using assms by (auto simp: readInt_def rd_def numeral_2_eq_2)
  moreover have "suback_loop (h # b # rest) 4 (unat b - 2) maxcount 0 qs = None"
    using assms by (intro suback_loop_overrun) auto
  ultimately show ?thesis
    using assms decodeBuf_one [of b h rest]
    by (auto simp: MQTTDeserialize_suback_def readChar_def rd_def eval_nat_numeral)
qed

lemma MQTTDeserialize_suback_single:
  assumes "hq = header_byte SUBACK 0 0 0"
  shows "MQTTDeserialize_suback pid0 1 count [q0] ([hq, 3] @ be16 (unat (pid :: u16)) @ [q] @ rest) =
    Some (1, pid, 1, [sint q])"
proof -
  have pid: "unat pid < 65536" using unsigned_less [of pid, where ?'a = nat] by simp
  have "readInt ([hq, 3] @ be16 (unat pid) @ [q] @ rest) 2 = Some (unat pid)"
    using readInt_be16 [OF pid, of 2 "[hq, 3]" "[q] @ rest"] by simp
  moreover have "MQTTPacket_decodeBuf ([hq, 3] @ be16 (unat pid) @ [q] @ rest) 1 = Some (1, 3)"
    using decodeBuf_one [of 3 hq "be16 (unat pid) @ [q] @ rest"] by simp
  ultimately show ?thesis
    using assms by (simp add: MQTTDeserialize_suback_def readChar_def rd_def numeral_2_eq_2 numeral_3_eq_3 be16_def)
qed

lemma MQTTDeserialize_ack_correct:
  assumes "header_type h = ty" and "header_dup h = d"
  shows "MQTTDeserialize_ack pid0 ([h, 2] @ be16 (unat pid) @ rest) = Some (1, ty, d, pid)"
proof -
  have pid: "unat pid < 65536" using unsigned_less [of pid, where ?'a = nat] by simp
  have "readInt ([h, 2] @ be16 (unat pid) @ rest) 2 = Some (unat pid)"
    using readInt_be16 [OF pid, of 2 "[h, 2]" rest] by simp
  moreover have "MQTTPacket_decodeBuf ([h, 2] @ be16 (unat pid) @ rest) 1 = Some (1, 2)"
    using decodeBuf_one [of 2 h "be16 (unat pid) @ rest"] by simp
  ultimately show ?thesis
    using assms by (simp add: MQTTDeserialize_ack_def readChar_def rd_def numeral_2_eq_2)
qed

lemma MQTTDeserialize_ack_packet:
  "4 \<le> buflen \<Longrightarrow> 4 \<le> length buf \<Longrightarrow> ty AND 15 = ty \<Longrightarrow>
   \<exists>buf'. MQTTSerialize_ack buf buflen ty dup pid = Some (4, buf') \<and>
          MQTTDeserialize_ack pid0 buf' = Some (1, ty, dup AND 1, pid)"
  using MQTTDeserialize_ack_correct [of "header_byte ty dup (if ty = PUBREL then 1 else 0) 0" ty "dup AND 1"]
  by (auto simp: MQTTSerialize_ack_correct)

lemma strncmp_eq_same_length:
  "length as = length bs \<Longrightarrow> 0 \<notin> set bs \<Longrightarrow> strncmp_eq as bs (length as) = (as = bs)"
  by (induction as bs rule: list_induct2) auto

lemma MQTTPacket_equals_chars:
  assumes "cstring a = None" and "0 < lenstring_len a" and "mqtt_string_ok a" and "0 \<notin> set b"
  shows "MQTTPacket_equals a b = Some (mqtt_chars a = b)"
proof -
  obtain d where d: "lenstring_data a = Some d" "lenstring_len a \<le> length d"
    using assms by (auto simp: mqtt_string_ok_def split: option.splits)
  show ?thesis
  proof (cases "lenstring_len a = length b")
    case True
    with d have "length (take (lenstring_len a) d) = length b" by simp
    from strncmp_eq_same_length [OF this assms(4)] show ?thesis
      using assms d True by (simp add: MQTTPacket_equals_def mqtt_chars_def rd_bytes_def)
  next
    case False
    with d have "take (lenstring_len a) d \<noteq> b" by auto
    with False assms d show ?thesis by (simp add: MQTTPacket_equals_def mqtt_chars_def)
  qed
qed

section \<open>Properties\<close>

definition demo_topic :: MQTTString where
  "demo_topic = \<lparr>cstring = Some [97, 47, 98], lenstring_len = 0, lenstring_data = None\<rparr>"

definition demo_connect :: "u8 \<Rightarrow> MQTTPacket_connectData" where
  "demo_connect v = MQTTPacket_connectData_initializer\<lparr>MQTTVersion := v, clientID := demo_topic\<rparr>"

lemmas demo_connect_simps = demo_connect_def demo_topic_def connect_strings_ok_def mqtt_string_ok_def
  MQTTPacket_connectData_initializer_def MQTTPacket_willOptions_initializer_def
  MQTTString_initializer_def MQTTSerialize_connectLength_def MQTTstrlen_def mqtt_string_set_def

text \<open>
  Property C14: Serialising a PUBLISH never touches memory outside the send buffer. A buffer that is large enough
  receives exactly the packet of the MQTT specification (header flags, remaining length, topic, packet
  id for QoS above 0, payload) at its start, the rest of it stays as it was and the length of the packet is
  returned. A buffer is refused, and left alone, exactly when it is shorter than the packet, or has its
  very length while the remaining length is 127, 16383, 2097150 or 2097151.
\<close>

theorem MQTTSerialize_publish_correct:
  assumes "mqtt_string_ok topic" and "payloadlen \<le> length payload"
    and "MQTTSerialize_publishLength qos topic payloadlen < 268435456"
  shows "MQTTSerialize_publish buf (length buf) dup qos retain pid topic payload payloadlen = Some
    (let body = publish_body qos pid (mqtt_chars topic) (take payloadlen payload);
         pkt = mqtt_packet (header_byte PUBLISH dup (of_nat qos) retain) body
     in if length buf < length pkt + (if length body \<in> {127, 16383, 2097150, 2097151} then 1 else 0)
        then (MQTTPACKET_BUFFER_TOO_SHORT, buf)
        else (int (length pkt), pkt @ drop (length pkt) buf))"
proof -
  let ?body = "publish_body qos pid (mqtt_chars topic) (take payloadlen payload)"
  have n: "MQTTSerialize_publishLength qos topic payloadlen = length ?body"
    by (rule publishLength_body [OF assms(1,2)])
  have "MQTTPacket_len (MQTTSerialize_publishLength qos topic payloadlen) =
      buffer_needed (header_byte PUBLISH dup (of_nat qos) retain) ?body"
    unfolding n by (rule MQTTPacket_len_needed) (use assms(3) n in simp)
  then show ?thesis
    using MQTTSerialize_publish_eq [OF assms le_refl [of "length buf"]]
    by (simp only: buffer_needed_def publish_packet_def Let_def)
qed

theorem MQTTSerialize_publish_correct_witness:
  "\<exists>buf'. MQTTSerialize_publish (replicate 11 0) 11 0 1 0 7 demo_topic [1, 2, 3] 2 = Some (11, buf') \<and>
     take 11 buf' = [0x32, 9, 0, 3, 97, 47, 98, 0, 7, 1, 2]"
proof -
  have h: "mqtt_string_ok demo_topic" "2 \<le> length [1, 2, 3 :: u8]"
      "MQTTSerialize_publishLength 1 demo_topic 2 < 268435456"
    by (simp_all add: demo_topic_def mqtt_string_ok_def MQTTSerialize_publishLength_def MQTTstrlen_def)
  have e: "MQTTSerialize_publish (replicate 11 0) 11 0 1 0 7 demo_topic [1, 2, 3] 2 =
      Some (11, [0x32, 9, 0, 3, 97, 47, 98, 0, 7, 1, 2])"
    by code_simp
  obtain r where "MQTTSerialize_publish (replicate 11 0) 11 0 1 0 7 demo_topic [1, 2, 3] 2 = Some r"
    using MQTTSerialize_publish_correct [OF h, of "replicate 11 0" 0 0 7] unfolding length_replicate by blast
  with e show ?thesis by auto
qed

text \<open>
  Property C2: Parsing a serialised PUBLISH gives back the flags, QoS, topic, packet id and
  payload it was made from, whatever bytes follow it in the read buffer.
\<close>

theorem MQTT_publish_roundtrip:
  assumes "qos < 4" and "length topic < 65536"
    and "length (publish_body qos pid topic payload) < 268435456"
  shows "\<exists>out'. MQTTDeserialize_publish out (publish_packet dup qos retain pid topic payload @ rest) = Some (1, out') \<and>
     po_dup out' = dup AND 1 \<and> po_qos out' = of_nat qos \<and> po_retained out' = retain AND 1 \<and>
     mqtt_chars (po_topicName out') = topic \<and> (0 < qos \<longrightarrow> po_packetid out' = pid) \<and>
     po_payloadlen out' = int (length payload) \<and>
     rd_bytes (publish_packet dup qos retain pid topic payload @ rest) (po_payload out') (length payload) = Some payload"
  by (rule publish_roundtrip_lemma [OF assms refl])

theorem MQTT_publish_roundtrip_witness:
  "\<exists>out'. MQTTDeserialize_publish \<lparr>po_dup = 0, po_qos = 0, po_retained = 0, po_packetid = 0,
       po_topicName = MQTTString_initializer, po_payload = 0, po_payloadlen = 0\<rparr>
       (publish_packet 0 1 0 7 [97] [5, 6] @ [9]) = Some (1, out') \<and>
     mqtt_chars (po_topicName out') = [97] \<and> po_packetid out' = 7 \<and> po_payloadlen out' = 2"
  using MQTT_publish_roundtrip [of 1 "[97]" 7 "[5, 6]" "\<lparr>po_dup = 0, po_qos = 0, po_retained = 0, po_packetid = 0,
       po_topicName = MQTTString_initializer, po_payload = 0, po_payloadlen = 0\<rparr>" 0 0 "[9]"]
  by (auto simp: publish_body_def)



text \<open>
  With any other protocol version the length is computed without the ten or twelve
  bytes of the protocol name and flags, but they are written: in a send buffer of exactly the
  size the function asks for, it writes past the end.
\<close>

theorem MQTTSerialize_connect_overrun:
  assumes "connect_strings_ok opts" and "MQTTVersion opts \<noteq> 3" and "MQTTVersion opts \<noteq> 4"
    and "length buf = MQTTPacket_len (MQTTSerialize_connectLength opts)"
  shows "MQTTSerialize_connect buf (length buf) opts = None"
  by (rule MQTTSerialize_connect_overrun_eq [OF assms])

theorem MQTTSerialize_connect_overrun_witness:
  "MQTTSerialize_connect (replicate 7 0) 7 (demo_connect 5) = None"
proof -
  have "connect_strings_ok (demo_connect 5)" and "MQTTVersion (demo_connect 5) \<noteq> 3"
    and "MQTTVersion (demo_connect 5) \<noteq> 4"
    and "length (replicate 7 (0 :: u8)) = MQTTPacket_len (MQTTSerialize_connectLength (demo_connect 5))"
    by (simp_all add: demo_connect_simps MQTTPacket_len_def)
  from MQTTSerialize_connect_overrun [OF this] show ?thesis by simp
qed

text \<open>
  Property C37: Serialising a SUBSCRIBE stores exactly the packet id and every filter with its
  requested QoS, and never leaves the send buffer; the buffer is refused exactly when it is shorter than the
  packet, or has its very length while the remaining length is 127, 16383, 2097150 or 2097151.
\<close>

theorem MQTTSerialize_subscribe_correct:
  assumes "list_all mqtt_string_ok ts" and "length qs = length ts"
    and "MQTTSerialize_subscribeLength ts < 268435456"
  shows "MQTTSerialize_subscribe buf (length buf) dup pid ts qs = Some
    (let body = be16 (unat pid) @ concat (map filter_bytes (zip ts qs));
         pkt = mqtt_packet (header_byte SUBSCRIBE dup 1 0) body
     in if length buf < length pkt + (if length body \<in> {127, 16383, 2097150, 2097151} then 1 else 0)
        then (MQTTPACKET_BUFFER_TOO_SHORT, buf)
        else (int (length pkt), pkt @ drop (length pkt) buf))"
proof -
  let ?body = "be16 (unat pid) @ concat (map filter_bytes (zip ts qs))"
  have n: "MQTTSerialize_subscribeLength ts = length ?body"
    using subscribeLength_acc [OF assms(1,2), of 2] by (simp add: MQTTSerialize_subscribeLength_def)
  have "MQTTPacket_len (MQTTSerialize_subscribeLength ts) = buffer_needed (header_byte SUBSCRIBE dup 1 0) ?body"
    unfolding n by (rule MQTTPacket_len_needed) (use assms(3) n in simp)
  then show ?thesis
    using MQTTSerialize_subscribe_eq [OF assms le_refl [of "length buf"]]
    by (simp only: buffer_needed_def Let_def)
qed

theorem MQTTSerialize_subscribe_correct_witness:
  "\<exists>buf'. MQTTSerialize_subscribe (replicate 10 0) 10 0 7 [demo_topic] [1] = Some (10, buf') \<and>
     take 10 buf' = [0x82, 8, 0, 7, 0, 3, 97, 47, 98, 1]"
proof -
  have h: "list_all mqtt_string_ok [demo_topic]" "length [1 :: nat] = length [demo_topic]"
      "MQTTSerialize_subscribeLength [demo_topic] < 268435456"
    by (simp_all add: demo_topic_def mqtt_string_ok_def MQTTSerialize_subscribeLength_def MQTTstrlen_def)
  have e: "MQTTSerialize_subscribe (replicate 10 0) 10 0 7 [demo_topic] [1] =
      Some (10, [0x82, 8, 0, 7, 0, 3, 97, 47, 98, 1])"
    by code_simp
  obtain r where "MQTTSerialize_subscribe (replicate 10 0) 10 0 7 [demo_topic] [1] = Some r"
    using MQTTSerialize_subscribe_correct [OF h, of "replicate 10 0" 0 7] unfolding length_replicate by blast
  with e show ?thesis by auto
qed

text \<open>
  A PUBLISH whose topic length points past the end of the packet is reported as
  success when its length field is one byte: the parser returns the size of the length field,
  which is 1. The topic then has the claimed length and no data, and the payload variables keep
  their old values.
\<close>

theorem MQTTDeserialize_publish_truncated:
  assumes "header_type h = PUBLISH" and "2 \<le> unat b" and "unat b < 128"
    and "n < 65536" and "unat b < n + 2"
  shows "MQTTDeserialize_publish out (h # b # be16 n @ rest) = Some (1,
     out\<lparr>po_dup := header_dup h, po_qos := header_qos h, po_retained := header_retain h,
         po_topicName := (po_topicName out)\<lparr>lenstring_len := n, cstring := None\<rparr>\<rparr>)"
  by (rule MQTTDeserialize_publish_truncated_eq [OF assms])

theorem MQTTDeserialize_publish_truncated_witness:
  "\<exists>out'. MQTTDeserialize_publish \<lparr>po_dup = 0, po_qos = 0, po_retained = 0, po_packetid = 0,
       po_topicName = MQTTString_initializer, po_payload = 0, po_payloadlen = 0\<rparr>
       [0x30, 2, 0xff, 0xff] = Some (1, out') \<and>
     lenstring_len (po_topicName out') = 65535 \<and> lenstring_data (po_topicName out') = None"
  using MQTTDeserialize_publish_truncated [of "0x30" 2 65535 "\<lparr>po_dup = 0, po_qos = 0, po_retained = 0,
       po_packetid = 0, po_topicName = MQTTString_initializer, po_payload = 0, po_payloadlen = 0\<rparr>" "[]"]
  by (simp add: header_type_def be16_def MQTTString_initializer_def)

text \<open>
  \<open>MQTTDeserialize_suback\<close> tests \<open>count > maxcount\<close> before it stores, so a SUBACK
  with more return codes than \<open>maxcount\<close> is written one element past the end of an array
  that has room for \<open>maxcount\<close> codes.
\<close>

theorem MQTTDeserialize_suback_overrun:
  assumes "header_type h = SUBACK" and "maxcount + 3 \<le> unat b" and "unat b < 128"
    and "length rest = unat b" and "length qs = maxcount"
  shows "MQTTDeserialize_suback pid maxcount count qs (h # b # rest) = None"
  by (rule MQTTDeserialize_suback_overrun_eq [OF assms])

theorem MQTTDeserialize_suback_overrun_witness:
  "MQTTDeserialize_suback 0 1 0 [-1] [0x90, 4, 0, 7, 1, 1] = None"
  using MQTTDeserialize_suback_overrun [of "0x90" 1 4 "[0, 7, 1, 1]" "[-1]" 0 0]
  by (simp add: header_type_def)

end
