(* ===== verification/Mqtt_Topic.thy ===== *)
theory Mqtt_Topic
  imports Mqtt_Packet
begin

text \<open>
  Topic names and filters of the MQTT client (sdk/comm/mqtt/iotx_mqtt_client.c): the syntax
  check of \<open>iotx_mc_check_topic\<close> and the matching of \<open>iotx_mc_is_topic_matched\<close>. A C string is
  the list of its bytes without the terminating zero, a \<open>NULL\<close> pointer is \<open>None\<close>.
\<close>

abbreviation (input) SUCCESS_RETURN :: int where "SUCCESS_RETURN \<equiv> 0"
abbreviation (input) FAIL_RETURN :: int where "FAIL_RETURN \<equiv> -1"
abbreviation (input) NULL_VALUE_ERROR :: int where "NULL_VALUE_ERROR \<equiv> -2"

abbreviation (input) ch_slash :: u8 where "ch_slash \<equiv> 47"
abbreviation (input) ch_plus :: u8 where "ch_plus \<equiv> 43"
abbreviation (input) ch_hash :: u8 where "ch_hash \<equiv> 35"

datatype iotx_mc_topic_type_t = TOPIC_NAME_TYPE | TOPIC_FILTER_TYPE

section \<open>The syntax check\<close>

text \<open>The loop of \<open>iotx_mc_check_rule\<close>; \<open>char\<close> is signed, so a byte above 127 is less than 32.\<close>

fun check_rule_loop :: "iotx_mc_topic_type_t \<Rightarrow> nat \<Rightarrow> bytes \<Rightarrow> int" where
  "check_rule_loop ty len [] = SUCCESS_RETURN"
| "check_rule_loop ty len (b # bs) =
     (if ty = TOPIC_FILTER_TYPE \<and> (b = ch_plus \<or> b = ch_hash) \<and> len \<noteq> 1 then FAIL_RETURN
      else if ty \<noteq> TOPIC_FILTER_TYPE \<and> (b = ch_plus \<or> b = ch_hash) then FAIL_RETURN
      else if sint b < 32 \<or> sint b \<ge> 127 then FAIL_RETURN
      else check_rule_loop ty len bs)"

definition iotx_mc_check_rule :: "bytes option \<Rightarrow> iotx_mc_topic_type_t \<Rightarrow> int" where
  "iotx_mc_check_rule iterm ty =
     (case iterm of None \<Rightarrow> FAIL_RETURN | Some s \<Rightarrow> check_rule_loop ty (length s) s)"

text \<open>\<open>strtok(s, "/")\<close>: skip delimiters; \<open>None\<close> at the end, else the token and the rest.\<close>

definition strtok :: "bytes \<Rightarrow> bytes option \<times> bytes" where
  "strtok s =
     (let s = dropWhile (\<lambda>b. b = ch_slash) s in
      if s = [] then (None, [])
      else (Some (takeWhile (\<lambda>b. b \<noteq> ch_slash) s), tl (dropWhile (\<lambda>b. b \<noteq> ch_slash) s)))"

lemma strtok_shorter:
  "strtok s = (Some t, r) \<Longrightarrow> length r < length s"
proof -
  assume "strtok s = (Some t, r)"
  then have ne: "dropWhile (\<lambda>b. b = ch_slash) s \<noteq> []"
    and r: "r = tl (dropWhile (\<lambda>b. b \<noteq> ch_slash) (dropWhile (\<lambda>b. b = ch_slash) s))"
    by (auto simp: strtok_def Let_def split: if_splits)
  have "length r \<le> length (dropWhile (\<lambda>b. b = ch_slash) s) - 1"
    using length_dropWhile_le [of "\<lambda>b. b \<noteq> ch_slash" "dropWhile (\<lambda>b. b = ch_slash) s"]
    by (simp add: r)
  moreover have "length (dropWhile (\<lambda>b. b = ch_slash) s) \<le> length s"
    by (rule length_dropWhile_le)
  moreover have "0 < length (dropWhile (\<lambda>b. b = ch_slash) s)" using ne by simp
  ultimately show ?thesis by linarith
qed

function check_topic_loop :: "iotx_mc_topic_type_t \<Rightarrow> bool \<Rightarrow> bytes \<Rightarrow> int" where
  "check_topic_loop ty msk rest =
     (case strtok rest of
        (None, _) \<Rightarrow> SUCCESS_RETURN
      | (Some iterm, rest') \<Rightarrow>
          if msk then FAIL_RETURN
          else if iotx_mc_check_rule (Some iterm) ty \<noteq> SUCCESS_RETURN then FAIL_RETURN
          else check_topic_loop ty (if hd iterm = ch_hash then True else msk) rest')"
  by pat_completeness auto
termination
  by (relation "measure (\<lambda>(_, _, s). length s)") (auto dest!: strtok_shorter [OF sym])

declare check_topic_loop.simps [simp del]

text \<open>\<open>IOTX_MC_TOPIC_NAME_MAX_LEN\<close> is 128; \<open>strncpy\<close> copies at most 127 characters.\<close>

definition iotx_mc_check_topic :: "bytes option \<Rightarrow> iotx_mc_topic_type_t \<Rightarrow> int" where
  "iotx_mc_check_topic topic ty =
     (case topic of
        None \<Rightarrow> FAIL_RETURN
      | Some name \<Rightarrow>
          if length name > 128 then FAIL_RETURN
          else
            let (iterm, rest) = strtok (take 127 name) in
            if iotx_mc_check_rule iterm ty \<noteq> SUCCESS_RETURN then FAIL_RETURN
            else check_topic_loop ty False rest)"

section \<open>Topic matching\<close>

text \<open>
  The loop of \<open>iotx_mc_is_topic_matched\<close>: the arguments are the filter from \<open>curf\<close> on and the
  topic from \<open>curn\<close> to \<open>curn_end\<close>. A \<open>break\<close> leaves \<open>curn\<close> before \<open>curn_end\<close>, so the result
  is 0. After \<open>'+'\<close> the cursor stands on the last byte before the next separator, after \<open>'#'\<close>
  on the last byte; both are then advanced by one.
\<close>

fun topic_matched_loop :: "bytes \<Rightarrow> bytes \<Rightarrow> bool" where
  "topic_matched_loop (f # fs) (n # ns) =
     (if n = ch_slash \<and> f \<noteq> ch_slash then False
      else if f \<noteq> ch_plus \<and> f \<noteq> ch_hash \<and> f \<noteq> n then False
      else if f = ch_plus then topic_matched_loop fs (dropWhile (\<lambda>b. b \<noteq> ch_slash) ns)
      else if f = ch_hash then topic_matched_loop fs []
      else topic_matched_loop fs ns)"
| "topic_matched_loop fs ns = (ns = [] \<and> fs = [])"

text \<open>
  \<open>data = NULL\<close> with a length above 0 is dereferenced in the first round of the loop if the
  filter is not empty.
\<close>

definition iotx_mc_is_topic_matched :: "bytes option \<Rightarrow> MQTTString \<Rightarrow> bool option" where
  "iotx_mc_is_topic_matched topicFilter topic =
     (case topicFilter of
        None \<Rightarrow> Some False
      | Some f \<Rightarrow>
          if lenstring_len topic = 0 then Some (topic_matched_loop f [])
          else if f = [] then Some False
          else do {
            d \<leftarrow> lenstring_data topic;
            name \<leftarrow> rd_bytes d 0 (lenstring_len topic);
            Some (topic_matched_loop f name) })"

section \<open>What the two routines decide\<close>

text \<open>The levels of a topic: the parts between the separators.\<close>

fun levels :: "bytes \<Rightarrow> bytes list" where
  "levels [] = [[]]"
| "levels (b # bs) = (if b = ch_slash then [] # levels bs else (b # hd (levels bs)) # tl (levels bs))"

fun join_levels :: "bytes list \<Rightarrow> bytes" where
  "join_levels [] = []"
| "join_levels [l] = l"
| "join_levels (l # ls) = l @ ch_slash # join_levels ls"

text \<open>Matching by levels, where no level of the topic is empty.\<close>

fun levels_match :: "bytes list \<Rightarrow> bytes list \<Rightarrow> bool" where
  "levels_match [] [] = True"
| "levels_match (f # fs) (n # ns) =
     (if f = [ch_hash] then fs = []
      else (f = [ch_plus] \<or> f = n) \<and> levels_match fs ns)"
| "levels_match _ _ = False"

text \<open>A level of a filter is \<open>+\<close>, \<open>#\<close>, or has neither; a topic level is not empty.\<close>

definition literal_level :: "bytes \<Rightarrow> bool" where
  "literal_level l \<longleftrightarrow> ch_slash \<notin> set l \<and> ch_plus \<notin> set l \<and> ch_hash \<notin> set l"

definition filter_level :: "bytes \<Rightarrow> bool" where
  "filter_level l \<longleftrightarrow> l = [ch_plus] \<or> l = [ch_hash] \<or> literal_level l"

definition topic_level :: "bytes \<Rightarrow> bool" where
  "topic_level l \<longleftrightarrow> l \<noteq> [] \<and> ch_slash \<notin> set l"

subsection \<open>Matching\<close>

definition tail_of :: "bytes \<Rightarrow> bool" where
  "tail_of r \<longleftrightarrow> r = [] \<or> hd r = ch_slash"

lemma tail_of_cases: "tail_of r \<Longrightarrow> r = [] \<or> (\<exists>r'. r = ch_slash # r')"
  by (cases r) (auto simp: tail_of_def)

lemma match_literal:
  assumes "tail_of F" and "tail_of N"
  shows "literal_level l \<Longrightarrow> ch_slash \<notin> set n \<Longrightarrow>
    topic_matched_loop (l @ F) (n @ N) = (l = n \<and> topic_matched_loop F N)"
proof (induction l arbitrary: n)
  case Nil
  show ?case
  proof (cases n)
    case (Cons b n')
    with Nil tail_of_cases [OF assms(1)] show ?thesis by auto
  qed simp
next
  case (Cons a l)
  then have a: "a \<noteq> ch_slash" "a \<noteq> ch_plus" "a \<noteq> ch_hash" "literal_level l"
    by (auto simp: literal_level_def)
  show ?case
  proof (cases n)
    case Nil
    with a tail_of_cases [OF assms(2)] show ?thesis by auto
  next
    case (Cons b n')
    with a Cons.IH [of n'] Cons.prems show ?thesis by auto
  qed
qed

lemma dropWhile_level: "ch_slash \<notin> set n \<Longrightarrow> tail_of N \<Longrightarrow> dropWhile (\<lambda>b. b \<noteq> ch_slash) (n @ N) = N"
  by (induction n) (auto dest: tail_of_cases)

lemma match_plus:
  "topic_level n \<Longrightarrow> tail_of N \<Longrightarrow> topic_matched_loop (ch_plus # F) (n @ N) = topic_matched_loop F N"
  by (cases n) (auto simp: topic_level_def dropWhile_level)

lemma match_hash:
  "topic_level n \<Longrightarrow> topic_matched_loop (ch_hash # F) (n @ N) = (F = [])"
  by (cases n; cases F) (auto simp: topic_level_def)

lemma join_levels_Cons: "join_levels (l # ls) = l @ (if ls = [] then [] else ch_slash # join_levels ls)"
  by (cases ls) simp_all

lemma topic_matched_levels:
  "fs \<noteq> [] \<Longrightarrow> ns \<noteq> [] \<Longrightarrow> (\<forall>f \<in> set fs. filter_level f) \<Longrightarrow> (\<forall>n \<in> set ns. topic_level n) \<Longrightarrow>
     topic_matched_loop (join_levels fs) (join_levels ns) = levels_match fs ns"
proof (induction fs arbitrary: ns)
  case (Cons f fs)
  then obtain n ns' where ns: "ns = n # ns'" by (cases ns) auto
  define F where "F = (if fs = [] then [] else ch_slash # join_levels fs)"
  define N where "N = (if ns' = [] then [] else ch_slash # join_levels ns')"
  have tails: "tail_of F" "tail_of N" by (simp_all add: tail_of_def F_def N_def)
  have n: "topic_level n" "ch_slash \<notin> set n" using Cons.prems ns by (auto simp: topic_level_def)
  have rest: "topic_matched_loop F N = levels_match fs ns'"
  proof (cases "fs = [] \<or> ns' = []")
    case True
    then show ?thesis by (cases fs; cases ns') (simp_all add: F_def N_def)
  next
    case False
    with Cons.IH [of ns'] Cons.prems ns show ?thesis by (simp add: F_def N_def)
  qed
  have "topic_matched_loop (f @ F) (n @ N) = levels_match (f # fs) (n # ns')"
  proof (cases "f = [ch_hash]")
    case True
    have "(F = []) = (fs = [])" by (simp add: F_def)
    with True match_hash [OF n(1)] show ?thesis by simp
  next
    case nh: False
    show ?thesis
    proof (cases "f = [ch_plus]")
      case True
      with match_plus [OF n(1) tails(2)] rest show ?thesis by simp
    next
      case False
      with nh Cons.prems have "literal_level f" by (auto simp: filter_level_def)
      with match_literal [OF tails this n(2)] nh False rest show ?thesis by simp
    qed
  qed
  then show ?case by (simp add: ns join_levels_Cons F_def N_def)
qed simp

lemma levels_ne: "levels s \<noteq> []" by (induction s) auto

lemma join_levels_levels: "join_levels (levels s) = s"
proof (induction s)
  case (Cons b s)
  obtain l ls where l: "levels s = l # ls" using levels_ne by (cases "levels s") auto
  with Cons show ?case by (simp add: join_levels_Cons)
qed simp

subsection \<open>The syntax check\<close>

lemma sint_u8: "sint (b :: u8) = (if unat b < 128 then int (unat b) else int (unat b) - 256)"
proof -
  have lt: "uint b < 256" "0 \<le> uint b" using uint_lt2p [of b] by simp_all
  have *: "(u + 128) mod 256 - 128 = (if u < 128 then u else u - 256)" if "u < 256" "0 \<le> u" for u :: int
  proof (cases "u < 128")
    case True
    then show ?thesis using that by simp
  next
    case False
    have "(u + 128) mod 256 = (u - 128) mod 256"
      using mod_add_self2 [of "u - 128" 256] by (simp add: add.commute)
    also have "\<dots> = u - 128" using False that by simp
    finally show ?thesis using False by simp
  qed
  have "sint b = (uint b + 128) mod 256 - 128"
    by (simp add: sint_uint signed_take_bit_eq_take_bit_shift take_bit_eq_mod)
  also have "\<dots> = (if uint b < 128 then uint b else uint b - 256)"
    by (rule * [OF lt])
  finally show ?thesis using of_nat_less_iff [of "unat b" 128, where ?'a = int] by simp
qed

lemma signed_char_printable: "(sint (b :: u8) < 32 \<or> sint b \<ge> 127) = (\<not> (32 \<le> unat b \<and> unat b < 127))"
proof -
  have "unat b < 256" by (rule unat_byte)
  then show ?thesis by (simp only: sint_u8) (auto simp del: of_nat_unat)
qed

definition rule_ok :: "iotx_mc_topic_type_t \<Rightarrow> bytes \<Rightarrow> bool" where
  "rule_ok ty t \<longleftrightarrow> (\<forall>b \<in> set t. 32 \<le> unat b \<and> unat b < 127 \<and>
     (b = ch_plus \<or> b = ch_hash \<longrightarrow> ty = TOPIC_FILTER_TYPE \<and> length t = 1))"

lemma check_rule_loop_ok:
  "check_rule_loop ty len s = SUCCESS_RETURN \<longleftrightarrow>
     (\<forall>b \<in> set s. 32 \<le> unat b \<and> unat b < 127 \<and>
        (b = ch_plus \<or> b = ch_hash \<longrightarrow> ty = TOPIC_FILTER_TYPE \<and> len = 1))"
proof (induction s)
  case (Cons b bs)
  define W where "W \<longleftrightarrow> b = ch_plus \<or> b = ch_hash"
  have "check_rule_loop ty len (b # bs) =
     (if ty = TOPIC_FILTER_TYPE \<and> W \<and> len \<noteq> 1 then FAIL_RETURN
      else if ty \<noteq> TOPIC_FILTER_TYPE \<and> W then FAIL_RETURN
      else if \<not> (32 \<le> unat b \<and> unat b < 127) then FAIL_RETURN
      else check_rule_loop ty len bs)"
    by (simp only: check_rule_loop.simps W_def signed_char_printable)
  with Cons show ?case by (simp only: W_def [symmetric] list.set ball_simps insert_iff) auto
qed simp

lemma check_rule_ok: "iotx_mc_check_rule (Some t) ty = SUCCESS_RETURN \<longleftrightarrow> rule_ok ty t"
  by (simp add: iotx_mc_check_rule_def check_rule_loop_ok rule_ok_def)

text \<open>The tokens of a string: its levels that are not empty.\<close>

definition tokens :: "bytes \<Rightarrow> bytes list" where
  "tokens s = filter (\<lambda>l. l \<noteq> []) (levels s)"

lemma levels_word:
  "ch_slash \<notin> set w \<Longrightarrow> tail_of r \<Longrightarrow> levels (w @ r) = w # (if r = [] then [] else levels (tl r))"
  by (induction w) (auto dest: tail_of_cases)

lemma tokens_word:
  "ch_slash \<notin> set w \<Longrightarrow> w \<noteq> [] \<Longrightarrow> tail_of r \<Longrightarrow> tokens (w @ r) = w # tokens (tl r)"
  using levels_word [of w r] by (cases "r = []") (simp_all add: tokens_def)

lemma tokens_slash: "tokens (ch_slash # s) = tokens s"
  by (simp add: tokens_def)

lemma tokens_strtok: "strtok s = (t, r) \<Longrightarrow> tokens s = (case t of None \<Rightarrow> [] | Some t \<Rightarrow> t # tokens r) \<and> t \<noteq> Some []"
proof -
  assume t: "strtok s = (t, r)"
  define s' where "s' = dropWhile (\<lambda>b. b = ch_slash) s"
  have "tokens (dropWhile (\<lambda>b. b = ch_slash) s) = tokens s"
    by (induction s) (simp_all add: tokens_slash)
  then have "tokens s = tokens s'" by (simp add: s'_def)
  moreover have "s' = [] \<or> hd s' \<noteq> ch_slash"
    unfolding s'_def by (metis (mono_tags) hd_dropWhile)
  moreover have "tokens s' = takeWhile (\<lambda>b. b \<noteq> ch_slash) s' # tokens (tl (dropWhile (\<lambda>b. b \<noteq> ch_slash) s'))"
    if "s' \<noteq> []" "hd s' \<noteq> ch_slash"
  proof -
    let ?w = "takeWhile (\<lambda>b. b \<noteq> ch_slash) s'" and ?r = "dropWhile (\<lambda>b. b \<noteq> ch_slash) s'"
    have "tail_of ?r" unfolding tail_of_def by (metis (mono_tags, lifting) hd_dropWhile)
    moreover have "ch_slash \<notin> set ?w" by (auto dest: set_takeWhileD)
    moreover have "?w \<noteq> []" using that by (cases s') auto
    ultimately have "tokens (?w @ ?r) = ?w # tokens (tl ?r)" by (intro tokens_word)
    then show ?thesis by (simp only: takeWhile_dropWhile_id)
  qed
  moreover have "takeWhile (\<lambda>b. b \<noteq> ch_slash) s' \<noteq> []" if "s' \<noteq> []" "hd s' \<noteq> ch_slash"
    using that by (cases s') auto
  ultimately show ?thesis
    using t by (auto simp: strtok_def Let_def s'_def [symmetric] tokens_def split: if_splits)
qed

lemma check_topic_loop_ok:
  "check_topic_loop ty msk s = SUCCESS_RETURN \<longleftrightarrow>
     (\<forall>t \<in> set (tokens s). rule_ok ty t) \<and> (msk \<longrightarrow> tokens s = []) \<and>
     (\<forall>t \<in> set (butlast (tokens s)). hd t \<noteq> ch_hash)"
proof (induction ty msk s rule: check_topic_loop.induct)
  case (1 ty msk s)
  obtain t r where t: "strtok s = (t, r)" by fastforce
  show ?case
  proof (cases t)
    case None
    with tokens_strtok [OF t] t show ?thesis by (subst check_topic_loop.simps) simp
  next
    case (Some u)
    with tokens_strtok [OF t] have ts: "tokens s = u # tokens r" by simp
    have ih: "\<not> msk \<Longrightarrow> iotx_mc_check_rule (Some u) ty = SUCCESS_RETURN \<Longrightarrow>
       check_topic_loop ty (if hd u = ch_hash then True else msk) r = SUCCESS_RETURN \<longleftrightarrow>
       (\<forall>t \<in> set (tokens r). rule_ok ty t) \<and> ((if hd u = ch_hash then True else msk) \<longrightarrow> tokens r = []) \<and>
       (\<forall>t \<in> set (butlast (tokens r)). hd t \<noteq> ch_hash)"
      using 1 t Some by simp
    show ?thesis
      using ih t Some
      by (subst check_topic_loop.simps) (auto simp: ts check_rule_ok split: if_splits)
  qed
qed

lemma check_topic_ok:
  "iotx_mc_check_topic (Some s) ty = SUCCESS_RETURN \<longleftrightarrow>
     length s \<le> 128 \<and> tokens (take 127 s) \<noteq> [] \<and>
     (\<forall>t \<in> set (tokens (take 127 s)). rule_ok ty t) \<and>
     (\<forall>t \<in> set (butlast (tl (tokens (take 127 s)))). hd t \<noteq> ch_hash)"
proof -
  obtain t r where t: "strtok (take 127 s) = (t, r)" by fastforce
  show ?thesis
  proof (cases t)
    case None
    with tokens_strtok [OF t] t show ?thesis
      by (simp add: iotx_mc_check_topic_def iotx_mc_check_rule_def)
  next
    case (Some u)
    with tokens_strtok [OF t] t show ?thesis
      by (auto simp add: iotx_mc_check_topic_def check_rule_ok check_topic_loop_ok Let_def)
  qed
qed

lemma set_tokens: "(\<Union>t \<in> set (tokens s). set t) = set s - {ch_slash}"
proof -
  have "(\<Union>t \<in> set (levels s). set t) = set s - {ch_slash}"
  proof (induction s)
    case (Cons b s)
    then show ?case using levels_ne [of s] by (cases "levels s") auto
  qed simp
  moreover have "(\<Union>t \<in> set (tokens s). set t) = (\<Union>t \<in> set (levels s). set t)"
    by (auto simp: tokens_def)
  ultimately show ?thesis by simp
qed

section \<open>Properties\<close>

text \<open>
  Property C9: For a filter whose levels are literals, \<open>+\<close> or \<open>#\<close> and a topic without empty
  levels, the character loop of \<open>iotx_mc_is_topic_matched\<close> decides exactly matching level by
  level: \<open>+\<close> takes one level, a final \<open>#\<close> one or more, a literal level only itself.
\<close>

theorem topic_matched_correct:
  assumes "\<forall>f \<in> set (levels filt). filter_level f" and "\<forall>n \<in> set (levels name). topic_level n"
    and "lenstring_len topic = length name" and "lenstring_data topic = Some (name @ rest)"
  shows "iotx_mc_is_topic_matched (Some filt) topic = Some (levels_match (levels filt) (levels name))"
proof -
  have "name \<noteq> []" using assms(2) by (auto simp: topic_level_def)
  moreover have "topic_matched_loop filt name = levels_match (levels filt) (levels name)"
    using topic_matched_levels [OF levels_ne levels_ne assms(1,2)] by (simp add: join_levels_levels)
  ultimately show ?thesis
    using assms(3,4) by (cases filt) (auto simp: iotx_mc_is_topic_matched_def rd_bytes_def)
qed

theorem topic_matched_correct_witness:
  "iotx_mc_is_topic_matched (Some [97, ch_slash, ch_plus, ch_slash, ch_hash])
     \<lparr>cstring = None, lenstring_len = 7, lenstring_data = Some [97, ch_slash, 98, ch_slash, 99, ch_slash, 100, 1, 2]\<rparr> = Some True"
  using topic_matched_correct [of "[97, ch_slash, ch_plus, ch_slash, ch_hash]" "[97, ch_slash, 98, ch_slash, 99, ch_slash, 100]"
     "\<lparr>cstring = None, lenstring_len = 7, lenstring_data = Some [97, ch_slash, 98, ch_slash, 99, ch_slash, 100, 1, 2]\<rparr>" "[1, 2]"]
  by (simp add: filter_level_def literal_level_def topic_level_def)

text \<open>
  \<open>iotx_mc_check_topic\<close> accepts a topic name exactly when it has at most 128
  characters, and the first 127 of them are printable, are no wildcards and are not all
  separators.
\<close>

theorem check_topic_name_correct:
  "iotx_mc_check_topic (Some s) TOPIC_NAME_TYPE = SUCCESS_RETURN \<longleftrightarrow>
     length s \<le> 128 \<and> list_ex (\<lambda>b. b \<noteq> ch_slash) (take 127 s) \<and>
     list_all (\<lambda>b. 32 \<le> unat b \<and> unat b < 127 \<and> b \<noteq> ch_plus \<and> b \<noteq> ch_hash) (take 127 s)"
proof -
  define ok where "ok b \<longleftrightarrow> 32 \<le> unat b \<and> unat b < 127 \<and> b \<noteq> ch_plus \<and> b \<noteq> ch_hash" for b :: u8
  let ?s = "take 127 s"
  have rule: "rule_ok TOPIC_NAME_TYPE t \<longleftrightarrow> (\<forall>b \<in> set t. ok b)" for t
    by (auto simp: rule_ok_def ok_def)
  have "(\<forall>t \<in> set (tokens ?s). rule_ok TOPIC_NAME_TYPE t) \<longleftrightarrow> (\<forall>b \<in> (\<Union>t \<in> set (tokens ?s). set t). ok b)"
    by (auto simp: rule)
  also have "\<dots> \<longleftrightarrow> (\<forall>b \<in> set ?s. ok b)"
  proof -
    have "ok ch_slash" by (simp add: ok_def)
    then show ?thesis unfolding set_tokens by blast
  qed
  finally have all: "(\<forall>t \<in> set (tokens ?s). rule_ok TOPIC_NAME_TYPE t) \<longleftrightarrow> (\<forall>b \<in> set ?s. ok b)" .
  have "tokens ?s \<noteq> [] \<longleftrightarrow> (\<Union>t \<in> set (tokens ?s). set t) \<noteq> {}"
    by (auto simp: tokens_def filter_empty_conv neq_Nil_conv)
  then have ne: "tokens ?s \<noteq> [] \<longleftrightarrow> (\<exists>b \<in> set ?s. b \<noteq> ch_slash)"
    unfolding set_tokens by auto
  have "hd t \<noteq> ch_hash" if "\<forall>t \<in> set (tokens ?s). rule_ok TOPIC_NAME_TYPE t" "t \<in> set (tokens ?s)" for t
  proof -
    have "t \<noteq> []" using that(2) by (simp add: tokens_def)
    then have "hd t \<in> set t" by simp
    with that have "ok (hd t)" by (simp add: rule)
    then show ?thesis by (simp add: ok_def)
  qed
  then have "(\<forall>t \<in> set (tokens ?s). rule_ok TOPIC_NAME_TYPE t) \<Longrightarrow>
      (\<forall>t \<in> set (butlast (tl (tokens ?s))). hd t \<noteq> ch_hash)"
    by (metis butlast.simps(1) empty_iff in_set_butlastD list.set(1) list.set_sel(2) list.sel(2))
  with all ne show ?thesis
    unfolding check_topic_ok list_all_iff list_ex_iff ok_def by blast
qed

text \<open>
  For a filter the check works on the non-empty levels of the first 127 characters:
  each is printable, a wildcard stands alone in its level, and no level but the first and the
  last is \<open>#\<close>. A leading \<open>#\<close> is accepted wherever it stands, which MQTT forbids.
\<close>

theorem check_topic_filter_correct:
  "iotx_mc_check_topic (Some s) TOPIC_FILTER_TYPE = SUCCESS_RETURN \<longleftrightarrow>
     length s \<le> 128 \<and> tokens (take 127 s) \<noteq> [] \<and>
     list_all (\<lambda>t. list_all (\<lambda>b. 32 \<le> unat b \<and> unat b < 127) t \<and>
        (length t = 1 \<or> (ch_plus \<notin> set t \<and> ch_hash \<notin> set t))) (tokens (take 127 s)) \<and>
     list_all (\<lambda>t. hd t \<noteq> ch_hash) (butlast (tl (tokens (take 127 s))))"
proof -
  have "rule_ok TOPIC_FILTER_TYPE t = (list_all (\<lambda>b. 32 \<le> unat b \<and> unat b < 127) t \<and>
        (length t = 1 \<or> (ch_plus \<notin> set t \<and> ch_hash \<notin> set t)))" for t
    unfolding rule_ok_def list_all_iff by (cases "length t = 1") auto
  then show ?thesis
    by (simp only: check_topic_ok list_all_iff)
qed

end
