(* ===== verification/Utils_Timer.thy ===== *)
theory Utils_Timer
  imports Iotkit_Prelude
begin

text \<open>
  The millisecond timers of sdk/utils/misc/utils_timer.c: a timer is a 32-bit time stamp, all
  arithmetic on it wraps. A reading of \<open>HAL_UptimeMs\<close> is an argument \<open>now\<close>; a function that
  reads the clock twice has two. A \<open>NULL\<close> timer is \<open>None\<close>.
\<close>

record iotx_time_t =
  time :: u32

definition iotx_time_start :: "u32 \<Rightarrow> iotx_time_t option \<Rightarrow> iotx_time_t option" where
  "iotx_time_start now timer =
     (case timer of None \<Rightarrow> None | Some t \<Rightarrow> Some (t\<lparr>time := now\<rparr>))"

definition utils_time_spend :: "u32 \<Rightarrow> iotx_time_t option \<Rightarrow> u32" where
  "utils_time_spend now start = (case start of None \<Rightarrow> 0 | Some s \<Rightarrow> now - time s)"

text \<open>\<open>UINT32_MAX / 2\<close> is \<open>2147483647\<close>.\<close>

definition utils_time_is_expired :: "u32 \<Rightarrow> iotx_time_t option \<Rightarrow> bool" where
  "utils_time_is_expired now timer =
     (case timer of None \<Rightarrow> True | Some t \<Rightarrow> now - time t < 2147483647)"

definition iotx_time_left :: "u32 \<Rightarrow> u32 \<Rightarrow> iotx_time_t option \<Rightarrow> u32" where
  "iotx_time_left now1 now2 deadline =
     (case deadline of
        None \<Rightarrow> 0
      | Some e \<Rightarrow> if utils_time_is_expired now1 (Some e) then 0 else time e - now2)"

definition iotx_time_init :: "iotx_time_t option \<Rightarrow> iotx_time_t option" where
  "iotx_time_init timer = (case timer of None \<Rightarrow> None | Some t \<Rightarrow> Some (t\<lparr>time := 0\<rparr>))"

definition utils_time_countdown_ms :: "u32 \<Rightarrow> iotx_time_t option \<Rightarrow> u32 \<Rightarrow> iotx_time_t option" where
  "utils_time_countdown_ms now timer millisecond =
     (case timer of None \<Rightarrow> None | Some t \<Rightarrow> Some (t\<lparr>time := now + millisecond\<rparr>))"

section \<open>The contract of a countdown\<close>

text \<open>
  What the clients of the timers rely on: a deadline \<open>ms\<close> milliseconds after \<open>t0\<close> is not
  expired while fewer milliseconds have passed, and expired afterwards, up to half the
  range of the clock. The clock starts anywhere, so it may wrap in between.
\<close>

locale countdown =
  fixes arm :: "u32 \<Rightarrow> nat \<Rightarrow> 't"
    and expired :: "u32 \<Rightarrow> 't \<Rightarrow> bool"
    and left :: "u32 \<Rightarrow> 't \<Rightarrow> u32"
    and limit :: nat
  assumes not_before: "e < ms \<Longrightarrow> ms \<le> limit \<Longrightarrow> \<not> expired (t0 + of_nat e) (arm t0 ms)"
    and after: "ms \<le> e \<Longrightarrow> e < ms + limit \<Longrightarrow> expired (t0 + of_nat e) (arm t0 ms)"
    and left_running: "e < ms \<Longrightarrow> ms \<le> limit \<Longrightarrow> left (t0 + of_nat e) (arm t0 ms) = of_nat (ms - e)"
    and left_expired: "expired now t \<Longrightarrow> left now t = 0"
    and limit_word: "limit < 2 ^ 32"
begin

lemma expired_iff:
  "ms \<le> limit \<Longrightarrow> e < limit \<Longrightarrow> expired (t0 + of_nat e) (arm t0 ms) \<longleftrightarrow> ms \<le> e"
  using not_before after by (meson le_less_linear trans_less_add2)

text \<open>The time left is never more than was asked for, so a wait on it ends in time.\<close>

lemma left_bound:
  assumes "ms \<le> limit" and "e < limit"
  shows "unat (left (t0 + of_nat e) (arm t0 ms)) = ms - e"
proof (cases "e < ms")
  case True
  then have "ms - e < 2 ^ 32" using assms limit_word by simp
  then show ?thesis
    by (simp only: left_running [OF True assms(1)] unat_of_nat) simp
next
  case False
  with assms show ?thesis by (simp add: left_expired after)
qed

text \<open>A loop that polls until expiry stops: the first poll at or after the deadline sees it.\<close>

lemma polling_stops:
  assumes "ms \<le> limit" and "polls \<noteq> []" and "ms \<le> last polls" and "last polls < limit"
  shows "\<exists>e \<in> set polls. expired (t0 + of_nat e) (arm t0 ms)"
  using assms last_in_set expired_iff by blast

end

lemma unat_minus_of_nat:
  assumes "0 < d" and "d < 2 ^ 32"
  shows "unat (- (of_nat d :: u32)) = 2 ^ 32 - d"
proof -
  have "(of_nat (2 ^ 32 - d) :: u32) = of_nat (2 ^ 32) - of_nat d"
    using assms(2) by (intro of_nat_diff) simp
  then have "- (of_nat d :: u32) = of_nat (2 ^ 32 - d)" by simp
  moreover have "unat (of_nat (2 ^ 32 - d) :: u32) = 2 ^ 32 - d"
    using assms by (simp only: unat_of_nat) simp
  ultimately show ?thesis by simp
qed

lemma word_diff_before:
  "e \<le> ms \<Longrightarrow> (t0 :: u32) + of_nat e - (t0 + of_nat ms) = - of_nat (ms - e)"
  by simp

lemma word_diff_after:
  "ms \<le> e \<Longrightarrow> (t0 :: u32) + of_nat e - (t0 + of_nat ms) = of_nat (e - ms)"
  by simp

lemma minus_of_nat_late:
  "0 < d \<Longrightarrow> d \<le> 2147483647 \<Longrightarrow> 2147483648 < unat (- (of_nat d :: u32))"
  by (simp add: unat_minus_of_nat)

interpretation utils_timer: countdown
  "\<lambda>t0 ms. \<lparr>time = t0 + of_nat ms\<rparr>"
  "\<lambda>now t. utils_time_is_expired now (Some t)"
  "\<lambda>now t. iotx_time_left now now (Some t)"
  2147483647
proof unfold_locales
  fix e ms :: nat and t0 now :: u32 and t :: iotx_time_t
  show nb: "\<not> utils_time_is_expired (t0 + of_nat e) (Some \<lparr>time = t0 + of_nat ms\<rparr>)"
    if "e < ms" "ms \<le> 2147483647"
  proof -
    have "2147483648 < unat (- (of_nat (ms - e) :: u32))"
      using that by (intro minus_of_nat_late) simp_all
    then show ?thesis
      by (simp only: utils_time_is_expired_def option.case iotx_time_t.select_convs
          word_diff_before [OF less_imp_le [OF that(1)]] word_less_nat_alt) simp
  qed
  show "utils_time_is_expired (t0 + of_nat e) (Some \<lparr>time = t0 + of_nat ms\<rparr>)"
    if "ms \<le> e" "e < ms + 2147483647"
  proof -
    have "unat (of_nat (e - ms) :: u32) < 2147483647"
      using that by (simp only: unat_of_nat) simp
    then show ?thesis
      by (simp only: utils_time_is_expired_def option.case iotx_time_t.select_convs
          word_diff_after [OF that(1)] word_less_nat_alt) simp
  qed
  show "iotx_time_left (t0 + of_nat e) (t0 + of_nat e) (Some \<lparr>time = t0 + of_nat ms\<rparr>) = of_nat (ms - e)"
    if "e < ms" "ms \<le> 2147483647"
    using nb [OF that] that by (simp add: iotx_time_left_def)
  show "utils_time_is_expired now (Some t) \<Longrightarrow> iotx_time_left now now (Some t) = 0"
    by (simp add: iotx_time_left_def)
qed simp

section \<open>Properties\<close>

text \<open>
  A timer armed for \<open>ms\<close> milliseconds (up to \<open>2 ^ 31 - 1\<close>) reads as expired
  exactly when at least \<open>ms\<close> milliseconds have passed, and reports exactly the remaining
  time, for every starting value of the 32-bit clock, also when it wraps in between.
\<close>

theorem countdown_exact:
  assumes "ms \<le> 2147483647" and "e < 2147483647"
    and "utils_time_countdown_ms t0 (Some t) (of_nat ms) = Some timer"
  shows "(utils_time_is_expired (t0 + of_nat e) (Some timer) \<longleftrightarrow> ms \<le> e) \<and>
         unat (iotx_time_left (t0 + of_nat e) (t0 + of_nat e) (Some timer)) = ms - e"
proof -
  have "timer = \<lparr>time = t0 + of_nat ms\<rparr>"
    using assms(3) by (cases t) (auto simp: utils_time_countdown_ms_def)
  then show ?thesis
    using utils_timer.expired_iff [OF assms(1,2)] utils_timer.left_bound [OF assms(1,2)] by simp
qed

theorem countdown_exact_witness:
  "\<not> utils_time_is_expired (0xFFFFFFF0 + of_nat 99) (Some \<lparr>time = 0xFFFFFFF0 + 100\<rparr>) \<and>
   unat (iotx_time_left (0xFFFFFFF0 + of_nat 99) (0xFFFFFFF0 + of_nat 99) (Some \<lparr>time = 0xFFFFFFF0 + 100\<rparr>)) = 1"
  using countdown_exact [of 100 99 "0xFFFFFFF0" "\<lparr>time = 0\<rparr>" "\<lparr>time = 0xFFFFFFF0 + 100\<rparr>"]
  by (simp add: utils_time_countdown_ms_def)

text \<open>
  \<open>iotx_time_left\<close> reads the clock twice. When the deadline passes between the two
  readings the result is not 0 but wraps: a wait of more than \<open>2 ^ 31\<close> milliseconds.
\<close>

theorem iotx_time_left_race:
  assumes "0 < d" and "d \<le> 2147483647" and "0 < k" and "k \<le> 2147483647"
  shows "iotx_time_left (e - of_nat d) (e + of_nat k) (Some \<lparr>time = e\<rparr>) = - of_nat k \<and>
         2147483647 < unat (iotx_time_left (e - of_nat d) (e + of_nat k) (Some \<lparr>time = e\<rparr>))"
proof -
  have "\<not> utils_time_is_expired (e - of_nat d) (Some \<lparr>time = e\<rparr>)"
    using minus_of_nat_late [OF assms(1,2)] by (simp add: utils_time_is_expired_def word_less_nat_alt)
  then have left: "iotx_time_left (e - of_nat d) (e + of_nat k) (Some \<lparr>time = e\<rparr>) = - of_nat k"
    by (simp add: iotx_time_left_def)
  then show ?thesis
    using minus_of_nat_late [OF assms(3,4)] by simp
qed

theorem iotx_time_left_race_witness:
  "iotx_time_left (1000 - of_nat 1) (1000 + of_nat 2) (Some \<lparr>time = 1000\<rparr>) = 4294967294"
  using iotx_time_left_race [of 1 2 1000] by simp

end
