(* ===== verification/Utils_List.thy ===== *)
theory Utils_List
  imports Iotkit_Prelude
begin

text \<open>
  The doubly linked list of sdk/utils/misc/utils_list.c over an explicit heap of nodes. A pointer
  is a natural number, \<open>0\<close> is \<open>NULL\<close>; the heap maps the addresses of the allocated nodes to
  their contents. Reading or writing through \<open>NULL\<close> or a freed node is \<open>None\<close>. The result of
  \<open>HAL_Malloc\<close> is an argument (\<open>0\<close> on failure). Values that the list passes to its \<open>free\<close>
  callback are returned, in the order of the calls.
\<close>

type_synonym ptr = nat
abbreviation (input) NULL :: ptr where "NULL \<equiv> 0"

datatype list_direction_t = LIST_HEAD | LIST_TAIL

record 'v list_node_t =
  prev :: ptr
  "next" :: ptr
  val :: 'v

type_synonym 'v heap = "ptr \<Rightarrow> 'v list_node_t option"

text \<open>The callbacks: \<open>free_set\<close> says whether \<open>free\<close> is set; \<open>match\<close> is \<open>None\<close> when not set.\<close>

record 'v list_t =
  head :: ptr
  tail :: ptr
  len :: u32
  free_set :: bool
  match :: "('v \<Rightarrow> 'v \<Rightarrow> bool) option"

record list_iterator_t =
  it_next :: ptr
  it_direction :: list_direction_t

definition deref :: "'v heap \<Rightarrow> ptr \<Rightarrow> 'v list_node_t option" where
  "deref h p = (if p = NULL then None else h p)"

definition upd :: "'v heap \<Rightarrow> ptr \<Rightarrow> ('v list_node_t \<Rightarrow> 'v list_node_t) \<Rightarrow> 'v heap option" where
  "upd h p f = map_option (\<lambda>n. h(p \<mapsto> f n)) (deref h p)"

definition HAL_Free :: "'v heap \<Rightarrow> ptr \<Rightarrow> 'v heap option" where
  "HAL_Free h p = map_option (\<lambda>_. h(p := None)) (deref h p)"

section \<open>Operations\<close>

definition list_new :: "'v list_t" where
  "list_new = \<lparr>head = NULL, tail = NULL, len = 0, free_set = False, match = None\<rparr>"

definition list_node_new :: "ptr \<Rightarrow> 'v heap \<Rightarrow> 'v \<Rightarrow> ptr \<times> 'v heap" where
  "list_node_new a h v =
     (if a = NULL then (NULL, h) else (a, h(a \<mapsto> \<lparr>prev = NULL, next = NULL, val = v\<rparr>)))"

definition list_rpush :: "'v heap \<Rightarrow> 'v list_t \<Rightarrow> ptr \<Rightarrow> (ptr \<times> 'v heap \<times> 'v list_t) option" where
  "list_rpush h self node =
     (if node = NULL then Some (NULL, h, self)
      else if len self \<noteq> 0 then do {
        h \<leftarrow> upd h node (\<lambda>n. n\<lparr>prev := tail self, next := NULL\<rparr>);
        h \<leftarrow> upd h (tail self) (\<lambda>n. n\<lparr>next := node\<rparr>);
        Some (node, h, self\<lparr>tail := node, len := len self + 1\<rparr>) }
      else do {
        h \<leftarrow> upd h node (\<lambda>n. n\<lparr>prev := NULL, next := NULL\<rparr>);
        Some (node, h, self\<lparr>head := node, tail := node, len := len self + 1\<rparr>) })"

definition list_lpush :: "'v heap \<Rightarrow> 'v list_t \<Rightarrow> ptr \<Rightarrow> (ptr \<times> 'v heap \<times> 'v list_t) option" where
  "list_lpush h self node =
     (if node = NULL then Some (NULL, h, self)
      else if len self \<noteq> 0 then do {
        h \<leftarrow> upd h node (\<lambda>n. n\<lparr>next := head self, prev := NULL\<rparr>);
        h \<leftarrow> upd h (head self) (\<lambda>n. n\<lparr>prev := node\<rparr>);
        Some (node, h, self\<lparr>head := node, len := len self + 1\<rparr>) }
      else do {
        h \<leftarrow> upd h node (\<lambda>n. n\<lparr>prev := NULL, next := NULL\<rparr>);
        Some (node, h, self\<lparr>head := node, tail := node, len := len self + 1\<rparr>) })"

definition list_rpop :: "'v heap \<Rightarrow> 'v list_t \<Rightarrow> (ptr \<times> 'v heap \<times> 'v list_t) option" where
  "list_rpop h self =
     (if len self = 0 then Some (NULL, h, self)
      else do {
        let node = tail self;
        let self = self\<lparr>len := len self - 1\<rparr>;
        (h, self) \<leftarrow>
          (if len self \<noteq> 0 then do {
             n \<leftarrow> deref h node;
             h \<leftarrow> upd h (prev n) (\<lambda>n. n\<lparr>next := NULL\<rparr>);
             Some (h, self\<lparr>tail := prev n\<rparr>) }
           else Some (h, self\<lparr>tail := NULL, head := NULL\<rparr>));
        h \<leftarrow> upd h node (\<lambda>n. n\<lparr>next := NULL, prev := NULL\<rparr>);
        Some (node, h, self) })"

definition list_lpop :: "'v heap \<Rightarrow> 'v list_t \<Rightarrow> (ptr \<times> 'v heap \<times> 'v list_t) option" where
  "list_lpop h self =
     (if len self = 0 then Some (NULL, h, self)
      else do {
        let node = head self;
        let self = self\<lparr>len := len self - 1\<rparr>;
        (h, self) \<leftarrow>
          (if len self \<noteq> 0 then do {
             n \<leftarrow> deref h node;
             h \<leftarrow> upd h (next n) (\<lambda>n. n\<lparr>prev := NULL\<rparr>);
             Some (h, self\<lparr>head := next n\<rparr>) }
           else Some (h, self\<lparr>head := NULL, tail := NULL\<rparr>));
        h \<leftarrow> upd h node (\<lambda>n. n\<lparr>next := NULL, prev := NULL\<rparr>);
        Some (node, h, self) })"

text \<open>The iterators; \<open>mem\<close> is what \<open>HAL_Malloc\<close> returned for the new one. Nothing else refers to an
  iterator, so it is a value here, and \<open>None\<close> is \<open>NULL\<close>.\<close>

definition list_iterator_new_from_node :: "ptr \<Rightarrow> ptr \<Rightarrow> list_direction_t \<Rightarrow> list_iterator_t option" where
  "list_iterator_new_from_node mem node dir = (if mem = NULL then None else Some \<lparr>it_next = node, it_direction = dir\<rparr>)"

definition list_iterator_new :: "ptr \<Rightarrow> 'v list_t \<Rightarrow> list_direction_t \<Rightarrow> list_iterator_t option" where
  "list_iterator_new mem l dir =
     list_iterator_new_from_node mem (if dir = LIST_HEAD then head l else tail l) dir"

definition list_iterator_next :: "'v heap \<Rightarrow> list_iterator_t \<Rightarrow> (ptr \<times> list_iterator_t) option" where
  "list_iterator_next h self =
     (let cur = it_next self in
      if cur \<noteq> NULL then do {
        n \<leftarrow> deref h cur;
        Some (cur, self\<lparr>it_next := (if it_direction self = LIST_HEAD then next n else prev n)\<rparr>) }
      else Some (cur, self))"

text \<open>The loop of \<open>list_find\<close>; a cyclic list keeps it running for ever, which is \<open>None\<close>.\<close>

partial_function (option) find_loop ::
    "'v heap \<Rightarrow> 'v list_t \<Rightarrow> 'v \<Rightarrow> list_iterator_t \<Rightarrow> ptr option" where
  "find_loop h self v it = do {
     (node, it) \<leftarrow> list_iterator_next h it;
     if node = NULL then Some NULL
     else do {
       n \<leftarrow> deref h node;
       if (case match self of Some f \<Rightarrow> f v (val n) | None \<Rightarrow> v = val n) then Some node
       else find_loop h self v it } }"

definition list_find :: "ptr \<Rightarrow> 'v heap \<Rightarrow> 'v list_t \<Rightarrow> 'v \<Rightarrow> ptr option" where
  "list_find mem h self v =
     (case list_iterator_new mem self LIST_HEAD of None \<Rightarrow> Some NULL | Some it \<Rightarrow> find_loop h self v it)"

fun next_times :: "'v heap \<Rightarrow> nat \<Rightarrow> ptr \<Rightarrow> list_iterator_t \<Rightarrow> ptr option" where
  "next_times h 0 node it = Some node"
| "next_times h (Suc k) node it = do {
     (node, it) \<leftarrow> list_iterator_next h it;
     next_times h k node it }"

text \<open>\<open>index = ~index\<close> is \<open>- index - 1\<close>.\<close>

definition list_at :: "ptr \<Rightarrow> 'v heap \<Rightarrow> 'v list_t \<Rightarrow> int \<Rightarrow> ptr option" where
  "list_at mem h self index =
     (let (dir, index) = (if index < 0 then (LIST_TAIL, - index - 1) else (LIST_HEAD, index)) in
      if index < int (unat (len self)) then
        case list_iterator_new mem self dir of
          None \<Rightarrow> Some NULL
        | Some it \<Rightarrow> do {
            (node, it) \<leftarrow> list_iterator_next h it;
            next_times h (nat index) node it }
      else Some NULL)"

definition list_remove :: "'v heap \<Rightarrow> 'v list_t \<Rightarrow> ptr \<Rightarrow> ('v list \<times> 'v heap \<times> 'v list_t) option" where
  "list_remove h self node = do {
     n \<leftarrow> deref h node;
     (h, self) \<leftarrow>
       (if prev n \<noteq> NULL then map_option (\<lambda>h'. (h', self)) (upd h (prev n) (\<lambda>p. p\<lparr>next := next n\<rparr>))
        else Some (h, self\<lparr>head := next n\<rparr>));
     n \<leftarrow> deref h node;
     (h, self) \<leftarrow>
       (if next n \<noteq> NULL then map_option (\<lambda>h'. (h', self)) (upd h (next n) (\<lambda>p. p\<lparr>prev := prev n\<rparr>))
        else Some (h, self\<lparr>tail := prev n\<rparr>));
     n \<leftarrow> deref h node;
     let freed = (if free_set self then [val n] else []);
     h \<leftarrow> HAL_Free h node;
     Some (freed, h, self\<lparr>len := len self - 1\<rparr>) }"

fun destroy_loop :: "'v heap \<Rightarrow> 'v list_t \<Rightarrow> nat \<Rightarrow> ptr \<Rightarrow> ('v list \<times> 'v heap) option" where
  "destroy_loop h self 0 cur = Some ([], h)"
| "destroy_loop h self (Suc k) cur = do {
     n \<leftarrow> deref h cur;
     h \<leftarrow> HAL_Free h cur;
     (freed, h) \<leftarrow> destroy_loop h self k (next n);
     Some ((if free_set self then [val n] else []) @ freed, h) }"

definition list_destroy :: "'v heap \<Rightarrow> 'v list_t \<Rightarrow> ('v list \<times> 'v heap) option" where
  "list_destroy h self = destroy_loop h self (unat (len self)) (head self)"

section \<open>A list as a chain of cells\<close>

text \<open>A cell is a node's address and value. \<open>seg h p cs n\<close>: the cells \<open>cs\<close> are linked in
  this order, the node before the first is \<open>p\<close> and the one after the last is \<open>n\<close>.\<close>

type_synonym 'v cell = "ptr \<times> 'v"

definition first_ptr :: "'v cell list \<Rightarrow> ptr \<Rightarrow> ptr" where
  "first_ptr cs n = (case cs of [] \<Rightarrow> n | c # _ \<Rightarrow> fst c)"

definition last_ptr :: "ptr \<Rightarrow> 'v cell list \<Rightarrow> ptr" where
  "last_ptr p cs = (if cs = [] then p else fst (last cs))"

fun seg :: "'v heap \<Rightarrow> ptr \<Rightarrow> 'v cell list \<Rightarrow> ptr \<Rightarrow> bool" where
  "seg h p [] n = True"
| "seg h p (c # cs) n =
     (h (fst c) = Some \<lparr>prev = p, next = first_ptr cs n, val = snd c\<rparr> \<and> seg h (fst c) cs n)"

fun addrs :: "'v cell list \<Rightarrow> ptr set" where
  "addrs [] = {}"
| "addrs (c # cs) = insert (fst c) (addrs cs)"

fun apart :: "'v cell list \<Rightarrow> bool" where
  "apart [] = True"
| "apart (c # cs) = (fst c \<notin> addrs cs \<and> apart cs)"

definition dll :: "'v heap \<Rightarrow> 'v list_t \<Rightarrow> 'v cell list \<Rightarrow> bool" where
  "dll h l cs \<longleftrightarrow> seg h NULL cs NULL \<and> apart cs \<and> NULL \<notin> addrs cs \<and>
     head l = first_ptr cs NULL \<and> tail l = last_ptr NULL cs \<and>
     len l = of_nat (length cs) \<and> length cs < 2 ^ 32"

named_theorems dll_simps "chains of cells"

lemma first_ptr_simps [dll_simps]:
  "first_ptr [] n = n" "first_ptr (c # cs) n = fst c"
  "first_ptr (xs @ ys) n = first_ptr xs (first_ptr ys n)"
  by (simp_all add: first_ptr_def split: list.split)

lemma last_ptr_simps [dll_simps]:
  "last_ptr p [] = p" "last_ptr p (c # cs) = last_ptr (fst c) cs"
  "last_ptr p (xs @ ys) = last_ptr (last_ptr p xs) ys"
  by (auto simp: last_ptr_def)

lemma addrs_append [dll_simps]: "addrs (xs @ ys) = addrs xs \<union> addrs ys"
  by (induction xs) auto

lemma addrs_rev [dll_simps]: "addrs (rev xs) = addrs xs"
  by (induction xs) (auto simp: addrs_append)

lemma apart_append [dll_simps]: "apart (xs @ ys) = (apart xs \<and> apart ys \<and> addrs xs \<inter> addrs ys = {})"
  by (induction xs) (auto simp: addrs_append)

lemma seg_append [dll_simps]:
  "seg h p (xs @ ys) n \<longleftrightarrow> seg h p xs (first_ptr ys n) \<and> seg h (last_ptr p xs) ys n"
  by (induction xs arbitrary: p) (auto simp: dll_simps)

lemma seg_frame [dll_simps]: "a \<notin> addrs cs \<Longrightarrow> seg (h(a := x)) p cs n = seg h p cs n"
  by (induction cs arbitrary: p) (auto simp: dll_simps)

lemma last_ptr_null [dll_simps]: "NULL \<notin> addrs cs \<Longrightarrow> (last_ptr NULL cs = NULL) = (cs = [])"
  by (cases cs rule: rev_cases) (auto simp: last_ptr_def addrs_append)

lemma first_ptr_null [dll_simps]: "NULL \<notin> addrs cs \<Longrightarrow> (first_ptr cs NULL = NULL) = (cs = [])"
  by (cases cs) (auto simp: first_ptr_def)

lemma deref_simps [dll_simps]:
  "a \<noteq> NULL \<Longrightarrow> deref h a = h a"
  "a \<noteq> NULL \<Longrightarrow> h a = Some n \<Longrightarrow> upd h a f = Some (h(a \<mapsto> f n))"
  "a \<noteq> NULL \<Longrightarrow> h a = Some n \<Longrightarrow> HAL_Free h a = Some (h(a := None))"
  by (simp_all add: deref_def upd_def HAL_Free_def)

lemma len_word_simps [dll_simps]:
  "n < 4294967296 \<Longrightarrow> ((of_nat n :: u32) = 0) = (n = 0)"
  "n < 4294967295 \<Longrightarrow> (1 + of_nat n :: u32) \<noteq> 0"
  "n < 4294967294 \<Longrightarrow> (2 + of_nat n :: u32) \<noteq> 0"
proof -
  show nz: "n < 4294967296 \<Longrightarrow> ((of_nat n :: u32) = 0) = (n = 0)" for n
    by (auto simp: word_of_nat_eq_0_iff dest: nat_dvd_not_less)
  show "n < 4294967295 \<Longrightarrow> (1 + of_nat n :: u32) \<noteq> 0"
    using nz [of "Suc n"] by simp
  show "n < 4294967294 \<Longrightarrow> (2 + of_nat n :: u32) \<noteq> 0"
    using nz [of "Suc (Suc n)"] by simp
qed

lemma dll_len: "dll h l cs \<Longrightarrow> unat (len l) = length cs"
  by (simp add: dll_def unat_of_nat)

lemma dll_empty: "dll h l cs \<Longrightarrow> (len l = 0) = (cs = [])"
  using dll_len by (metis length_0_conv unat_0 unat_eq_zero)

lemma dll_new: "dll h list_new []"
  by (simp add: dll_def list_new_def dll_simps)

lemma cells_cases_last: obtains "cs = []" | xs b w where "cs = xs @ [(b, w)]"
  by (metis rev_exhaust surj_pair)

lemma list_rpush_dll:
  assumes d: "dll h l cs" and n: "h a = Some n" and a: "a \<noteq> NULL" "a \<notin> addrs cs"
    and room: "Suc (length cs) < 2 ^ 32"
  shows "\<exists>h' l'. list_rpush h l a = Some (a, h', l') \<and> dll h' l' (cs @ [(a, val n)]) \<and>
     (\<forall>q. q \<noteq> a \<longrightarrow> q \<notin> addrs cs \<longrightarrow> h' q = h q)"
proof (cases cs rule: cells_cases_last)
  case 1
  with assms dll_empty [OF d] show ?thesis
    by (auto simp: list_rpush_def dll_def dll_simps)
next
  case (2 xs b w)
  with dll_empty [OF d] have ne: "len l \<noteq> 0" by simp
  have b: "h b = Some \<lparr>prev = last_ptr NULL xs, next = NULL, val = w\<rparr>" "b \<noteq> NULL" "tail l = b" "b \<noteq> a"
    using 2 d a by (auto simp: dll_def dll_simps)
  show ?thesis
    using assms 2 b by (simp add: list_rpush_def ne dll_def dll_simps)
qed

lemma list_lpush_dll:
  assumes d: "dll h l cs" and n: "h a = Some n" and a: "a \<noteq> NULL" "a \<notin> addrs cs"
    and room: "Suc (length cs) < 2 ^ 32"
  shows "\<exists>h' l'. list_lpush h l a = Some (a, h', l') \<and> dll h' l' ((a, val n) # cs) \<and>
     (\<forall>q. q \<noteq> a \<longrightarrow> q \<notin> addrs cs \<longrightarrow> h' q = h q)"
proof (cases cs)
  case Nil
  with assms dll_empty [OF d] show ?thesis
    by (auto simp: list_lpush_def dll_def dll_simps)
next
  case (Cons c cs')
  with dll_empty [OF d] have ne: "len l \<noteq> 0" by simp
  have c: "h (fst c) = Some \<lparr>prev = NULL, next = first_ptr cs' NULL, val = snd c\<rparr>" "fst c \<noteq> NULL" "head l = fst c" "fst c \<noteq> a"
    using Cons d a by (auto simp: dll_def dll_simps)
  show ?thesis
    using assms Cons c by (simp add: list_lpush_def ne dll_def dll_simps)
qed

lemma list_rpop_empty: "dll h l [] \<Longrightarrow> list_rpop h l = Some (NULL, h, l)"
  by (simp add: list_rpop_def dll_empty)

lemma list_lpop_empty: "dll h l [] \<Longrightarrow> list_lpop h l = Some (NULL, h, l)"
  by (simp add: list_lpop_def dll_empty)

lemma list_rpop_dll:
  assumes d: "dll h l (cs @ [(a, v)])"
  shows "\<exists>h' l'. list_rpop h l = Some (a, h', l') \<and> dll h' l' cs \<and>
     h' a = Some \<lparr>prev = NULL, next = NULL, val = v\<rparr> \<and> (\<forall>q. q \<noteq> a \<longrightarrow> q \<notin> addrs cs \<longrightarrow> h' q = h q)"
proof (cases cs rule: cells_cases_last)
  case 1
  with assms dll_empty [OF d] show ?thesis
    by (auto simp: list_rpop_def dll_def dll_simps)
next
  case (2 xs b w)
  have len: "len l \<noteq> 0" "len l - 1 = of_nat (length cs)" "of_nat (length cs) \<noteq> (0 :: u32)"
    using dll_empty [OF d] d dll_empty [of h "l\<lparr>head := first_ptr cs NULL, tail := last_ptr NULL cs, len := of_nat (length cs)\<rparr>" cs]
    by (simp_all add: dll_def dll_simps 2)
  have b: "h b = Some \<lparr>prev = last_ptr NULL xs, next = a, val = w\<rparr>" "b \<noteq> NULL" "tail l = a" "b \<noteq> a" "a \<noteq> NULL"
     "h a = Some \<lparr>prev = b, next = NULL, val = v\<rparr>"
    using 2 d by (auto simp: dll_def dll_simps)
  show ?thesis
    using d 2 b by (simp add: list_rpop_def len dll_def dll_simps)
qed

lemma list_lpop_dll:
  assumes d: "dll h l ((a, v) # cs)"
  shows "\<exists>h' l'. list_lpop h l = Some (a, h', l') \<and> dll h' l' cs \<and>
     h' a = Some \<lparr>prev = NULL, next = NULL, val = v\<rparr> \<and> (\<forall>q. q \<noteq> a \<longrightarrow> q \<notin> addrs cs \<longrightarrow> h' q = h q)"
proof (cases cs)
  case Nil
  with assms dll_empty [OF d] show ?thesis
    by (auto simp: list_lpop_def dll_def dll_simps)
next
  case (Cons c cs')
  have len: "len l \<noteq> 0" "len l - 1 = of_nat (length cs)" "of_nat (length cs) \<noteq> (0 :: u32)"
    using dll_empty [OF d] d by (simp_all add: dll_def dll_simps Cons)
  have b: "h (fst c) = Some \<lparr>prev = a, next = first_ptr cs' NULL, val = snd c\<rparr>" "fst c \<noteq> NULL" "head l = a" "fst c \<noteq> a" "a \<noteq> NULL"
     "h a = Some \<lparr>prev = NULL, next = fst c, val = v\<rparr>"
    using Cons d by (auto simp: dll_def dll_simps)
  show ?thesis
    using d Cons b by (simp add: list_lpop_def len dll_def dll_simps)
qed

lemma dll_at:
  "dll h l (xs @ (a, v) # ys) \<Longrightarrow>
     a \<noteq> NULL \<and> deref h a = Some \<lparr>prev = last_ptr NULL xs, next = first_ptr ys NULL, val = v\<rparr>"
  by (auto simp: dll_def dll_simps)

lemma list_remove_dll:
  assumes d: "dll h l (xs @ (a, v) # ys)"
  shows "\<exists>h' l'. list_remove h l a = Some (if free_set l then [v] else [], h', l') \<and>
     dll h' l' (xs @ ys) \<and> h' a = None \<and> free_set l' = free_set l \<and> match l' = match l \<and>
     (\<forall>q. q \<noteq> a \<longrightarrow> q \<notin> addrs (xs @ ys) \<longrightarrow> h' q = h q)"
proof -
  have a: "a \<noteq> NULL" "h a = Some \<lparr>prev = last_ptr NULL xs, next = first_ptr ys NULL, val = v\<rparr>"
    using d by (auto simp: dll_def dll_simps)
  show ?thesis
  proof (cases xs rule: cells_cases_last)
    case 1
    show ?thesis
    proof (cases ys)
      case Nil
      with 1 a d show ?thesis by (simp add: list_remove_def dll_def dll_simps)
    next
      case (Cons c ys')
      with 1 a d show ?thesis by (simp add: list_remove_def dll_def dll_simps)
    qed
  next
    case x: (2 xs' b w)
    show ?thesis
    proof (cases ys)
      case Nil
      with x a d show ?thesis by (auto simp add: list_remove_def dll_def dll_simps)
    next
      case (Cons c ys')
      with x a d show ?thesis by (auto simp add: list_remove_def dll_def dll_simps)
    qed
  qed
qed

section \<open>Iteration, search and indexing\<close>

lemma iterator_next_null: "list_iterator_next h \<lparr>it_next = NULL, it_direction = dir\<rparr> = Some (NULL, \<lparr>it_next = NULL, it_direction = dir\<rparr>)"
  by (simp add: list_iterator_next_def)

lemma iterator_next_head:
  "dll h l (xs @ (a, v) # ys) \<Longrightarrow>
     list_iterator_next h \<lparr>it_next = a, it_direction = LIST_HEAD\<rparr> =
       Some (a, \<lparr>it_next = first_ptr ys NULL, it_direction = LIST_HEAD\<rparr>)"
  by (drule dll_at) (simp add: list_iterator_next_def)

lemma iterator_next_tail:
  "dll h l (xs @ (a, v) # ys) \<Longrightarrow>
     list_iterator_next h \<lparr>it_next = a, it_direction = LIST_TAIL\<rparr> =
       Some (a, \<lparr>it_next = last_ptr NULL xs, it_direction = LIST_TAIL\<rparr>)"
  by (drule dll_at) (simp add: list_iterator_next_def)

definition matches :: "'v list_t \<Rightarrow> 'v \<Rightarrow> 'v \<Rightarrow> bool" where
  "matches l v w = (case match l of Some f \<Rightarrow> f v w | None \<Rightarrow> v = w)"

definition addr_of_first :: "('v \<Rightarrow> bool) \<Rightarrow> 'v cell list \<Rightarrow> ptr" where
  "addr_of_first P cs = (case find (\<lambda>c. P (snd c)) cs of Some c \<Rightarrow> fst c | None \<Rightarrow> NULL)"

lemma find_loop_dll:
  "dll h l (xs @ ys) \<Longrightarrow>
     find_loop h l v \<lparr>it_next = first_ptr ys NULL, it_direction = LIST_HEAD\<rparr> =
       Some (addr_of_first (matches l v) ys)"
proof (induction ys arbitrary: xs)
  case Nil
  show ?case
    by (subst find_loop.simps) (simp add: dll_simps iterator_next_null addr_of_first_def)
next
  case (Cons c ys)
  obtain a w where c: "c = (a, w)" by (cases c)
  note d = Cons.prems [unfolded c]
  have ih: "find_loop h l v \<lparr>it_next = first_ptr ys NULL, it_direction = LIST_HEAD\<rparr> =
       Some (addr_of_first (matches l v) ys)"
    using Cons.IH [of "xs @ [c]"] Cons.prems by simp
  from d have "first_ptr (c # ys) NULL = a" by (simp add: c dll_simps)
  then show ?case
    using dll_at [OF d] ih
    by (subst find_loop.simps)
       (simp add: iterator_next_head [OF d] c matches_def addr_of_first_def split: option.split)
qed

lemma list_iterator_new_dll:
  assumes "dll h l cs" and "mem \<noteq> NULL"
  shows "list_iterator_new mem l LIST_HEAD = Some \<lparr>it_next = first_ptr cs NULL, it_direction = LIST_HEAD\<rparr>"
    and "list_iterator_new mem l LIST_TAIL = Some \<lparr>it_next = last_ptr NULL cs, it_direction = LIST_TAIL\<rparr>"
  using assms by (simp_all add: list_iterator_new_def list_iterator_new_from_node_def dll_def)

lemma list_iterator_new_failed: "list_iterator_new NULL l dir = None"
  by (simp add: list_iterator_new_def list_iterator_new_from_node_def)

lemma list_find_dll:
  "dll h l cs \<Longrightarrow> list_find mem h l v = Some (if mem = NULL then NULL else addr_of_first (matches l v) cs)"
  using find_loop_dll [of h l "[]" cs v]
  by (cases "mem = NULL") (simp_all add: list_find_def list_iterator_new_dll list_iterator_new_failed)

lemma next_times_head:
  "dll h l (xs @ ys) \<Longrightarrow> k < length ys \<Longrightarrow>
     next_times h (Suc k) node \<lparr>it_next = first_ptr ys NULL, it_direction = LIST_HEAD\<rparr> = Some (fst (ys ! k))"
proof (induction k arbitrary: xs ys node)
  case 0
  then obtain a w zs where ys: "ys = (a, w) # zs" by (cases ys) auto
  with 0 iterator_next_head [of h l xs a w zs] show ?case by (simp add: dll_simps)
next
  case (Suc k)
  then obtain a w zs where ys: "ys = (a, w) # zs" by (cases ys) auto
  have "next_times h (Suc k) a \<lparr>it_next = first_ptr zs NULL, it_direction = LIST_HEAD\<rparr> = Some (fst (zs ! k))"
    using Suc.IH [of "xs @ [(a, w)]" zs] Suc.prems ys by simp
  with Suc.prems ys iterator_next_head [of h l xs a w zs] show ?case by (simp add: dll_simps)
qed

lemma next_times_tail:
  "dll h l (xs @ ys) \<Longrightarrow> k < length xs \<Longrightarrow>
     next_times h (Suc k) node \<lparr>it_next = last_ptr NULL xs, it_direction = LIST_TAIL\<rparr> = Some (fst (rev xs ! k))"
proof (induction k arbitrary: xs ys node)
  case 0
  then obtain a w zs where xs: "xs = zs @ [(a, w)]" by (cases xs rule: cells_cases_last) auto
  with 0 iterator_next_tail [of h l zs a w ys] show ?case by (simp add: dll_simps)
next
  case (Suc k)
  then obtain a w zs where xs: "xs = zs @ [(a, w)]" by (cases xs rule: cells_cases_last) auto
  have "next_times h (Suc k) a \<lparr>it_next = last_ptr NULL zs, it_direction = LIST_TAIL\<rparr> = Some (fst (rev zs ! k))"
    using Suc.IH [of zs "(a, w) # ys"] Suc.prems xs by simp
  with Suc.prems xs iterator_next_tail [of h l zs a w ys] show ?case by (simp add: dll_simps)
qed

lemma list_at_eq_next_times:
  "list_at mem h l i =
     (let (dir, index) = (if i < 0 then (LIST_TAIL, - i - 1) else (LIST_HEAD, i)) in
      if index < int (unat (len l)) then
        case list_iterator_new mem l dir of None \<Rightarrow> Some NULL | Some it \<Rightarrow> next_times h (Suc (nat index)) NULL it
      else Some NULL)"
  by (auto simp: list_at_def Let_def split: option.split)

lemma list_at_dll:
  assumes d: "dll h l cs" and mem: "mem \<noteq> NULL"
  shows "list_at mem h l i =
     Some (if 0 \<le> i \<and> i < int (length cs) then fst (cs ! nat i)
           else if i < 0 \<and> - i \<le> int (length cs) then fst (cs ! nat (int (length cs) + i)) else NULL)"
proof -
  note it = list_iterator_new_dll [OF d mem]
  show ?thesis
  proof (cases "0 \<le> i")
    case True
    then show ?thesis
      using next_times_head [of h l "[]" cs "nat i" NULL] d
      by (auto simp del: next_times.simps simp add: list_at_eq_next_times dll_len [OF d] it nat_less_iff)
  next
    case False
    have "next_times h (Suc (nat (- i - 1))) NULL \<lparr>it_next = last_ptr NULL cs, it_direction = LIST_TAIL\<rparr> =
        Some (fst (cs ! nat (int (length cs) + i)))" if "- i \<le> int (length cs)"
    proof -
      have "nat (- i - 1) < length cs" "length cs - Suc (nat (- i - 1)) = nat (int (length cs) + i)"
        using False that by linarith+
      then show ?thesis
        using next_times_tail [of h l cs "[]" "nat (- i - 1)" NULL] d by (simp add: rev_nth del: next_times.simps)
    qed
    with False show ?thesis
      by (simp del: next_times.simps add: list_at_eq_next_times dll_len [OF d] it)
  qed
qed

lemma destroy_loop_dll:
  "seg h p cs NULL \<Longrightarrow> apart cs \<Longrightarrow> NULL \<notin> addrs cs \<Longrightarrow>
     destroy_loop h l (length cs) (first_ptr cs NULL) =
       Some (if free_set l then map snd cs else [], \<lambda>q. if q \<in> addrs cs then None else h q)"
proof (induction cs arbitrary: h p)
  case Nil
  then show ?case by (simp add: dll_simps)
next
  case (Cons c cs)
  have "destroy_loop (h(fst c := None)) l (length cs) (first_ptr cs NULL) =
       Some (if free_set l then map snd cs else [], \<lambda>q. if q \<in> addrs cs then None else (h(fst c := None)) q)"
  proof (rule Cons.IH)
    show "seg (h(fst c := None)) (fst c) cs NULL"
      by (rule seg_frame [THEN iffD2]) (use Cons.prems in simp_all)
  qed (use Cons.prems in simp_all)
  with Cons.prems show ?case
    by (auto simp: dll_simps)
qed

lemma list_destroy_dll:
  "dll h l cs \<Longrightarrow> list_destroy h l =
     Some (if free_set l then map snd cs else [], \<lambda>q. if q \<in> addrs cs then None else h q)"
  using destroy_loop_dll [of h NULL cs l]
  by (simp add: list_destroy_def dll_len) (simp add: dll_def)

lemma dll_update_val:
  assumes d: "dll h l (xs @ (a, v) # ys)"
  shows "\<exists>h'. upd h a (\<lambda>n. n\<lparr>val := w\<rparr>) = Some h' \<and> dll h' l (xs @ (a, w) # ys)"
proof -
  have "h a = Some \<lparr>prev = last_ptr NULL xs, next = first_ptr ys NULL, val = v\<rparr>" "a \<noteq> NULL"
    using d by (auto simp: dll_def dll_simps)
  with d show ?thesis
    by (auto simp: dll_def dll_simps)
qed

section \<open>Sweeping a list while removing from it\<close>

text \<open>
  The loop the MQTT client runs over its lists of packets that wait for an acknowledgement
  (\<open>MQTTPubInfoProc\<close>, \<open>MQTTSubInfoProc\<close>): from the tail, each value is visited; a value to
  be dropped is only remembered in \<open>tempNode\<close> and removed after the iterator has moved on.
  A visit may keep the (possibly changed) value, mark it for removal, or leave the loop. Without memory
  for the iterator nothing is visited.
\<close>

datatype 'v visit = Keep 'v | Mark | Stop 'v

partial_function (option) sweep_loop ::
    "('s \<Rightarrow> 'v \<Rightarrow> 'v visit \<times> 's) \<Rightarrow> 'v heap \<Rightarrow> 'v list_t \<Rightarrow> list_iterator_t \<Rightarrow> ptr \<Rightarrow> 's \<Rightarrow>
       ('v heap \<times> 'v list_t \<times> 's) option" where
  "sweep_loop body h l it tempNode s = do {
     (node, it) \<leftarrow> list_iterator_next h it;
     (h, l) \<leftarrow> (if tempNode \<noteq> NULL then map_option snd (list_remove h l tempNode) else Some (h, l));
     if node = NULL then Some (h, l, s)
     else do {
       n \<leftarrow> deref h node;
       (case body s (val n) of
          (Mark, s) \<Rightarrow> sweep_loop body h l it node s
        | (Keep v, s) \<Rightarrow> do {
            h \<leftarrow> upd h node (\<lambda>n. n\<lparr>val := v\<rparr>);
            sweep_loop body h l it NULL s }
        | (Stop v, s) \<Rightarrow> do {
            h \<leftarrow> upd h node (\<lambda>n. n\<lparr>val := v\<rparr>);
            Some (h, l, s) }) } }"

definition sweep ::
    "ptr \<Rightarrow> ('s \<Rightarrow> 'v \<Rightarrow> 'v visit \<times> 's) \<Rightarrow> 'v heap \<Rightarrow> 'v list_t \<Rightarrow> 's \<Rightarrow> ('v heap \<times> 'v list_t \<times> 's) option" where
  "sweep mem body h l s =
     (if len l = 0 then Some (h, l, s)
      else case list_iterator_new mem l LIST_TAIL of
        None \<Rightarrow> Some (h, l, s)
      | Some it \<Rightarrow> sweep_loop body h l it NULL s)"

text \<open>What it computes, over the values in the order of the visits.\<close>

fun sweep_vals :: "('s \<Rightarrow> 'v \<Rightarrow> 'v visit \<times> 's) \<Rightarrow> 's \<Rightarrow> 'v list \<Rightarrow> 'v list \<times> 's" where
  "sweep_vals body s [] = ([], s)"
| "sweep_vals body s (v # vs) =
     (case body s v of
        (Mark, s) \<Rightarrow> sweep_vals body s vs
      | (Keep w, s) \<Rightarrow> map_prod (Cons w) id (sweep_vals body s vs)
      | (Stop w, s) \<Rightarrow> (w # vs, s))"

lemma sweep_loop_dll:
  "dll h l (xs @ mid @ done) \<Longrightarrow> length mid \<le> 1 \<Longrightarrow>
     sweep_vals body s (rev (map snd xs)) = (ws, s') \<Longrightarrow>
     \<exists>h' l' cs. sweep_loop body h l \<lparr>it_next = last_ptr NULL xs, it_direction = LIST_TAIL\<rparr> (first_ptr mid NULL) s = Some (h', l', s') \<and>
       dll h' l' (cs @ done) \<and> map snd cs = rev ws"
proof (induction xs arbitrary: h l mid "done" s ws rule: rev_induct)
  case Nil
  have *: "length mid \<le> 1 \<Longrightarrow> mid = [] \<or> (\<exists>a v. mid = [(a, v)])" by (cases mid) auto
  show ?case
  proof (cases mid)
    case Nil
    with Nil.prems show ?thesis
      by (subst sweep_loop.simps) (auto simp: dll_simps iterator_next_null)
  next
    case (Cons c mid')
    then obtain a v where mid: "mid = [(a, v)]" using Nil.prems(2) by (cases c) auto
    then have d: "dll h l ([] @ (a, v) # done)" using Nil.prems(1) by simp
    from list_remove_dll [OF d] dll_at [OF d] Nil.prems(3) show ?thesis
      by (subst sweep_loop.simps) (auto simp: dll_simps iterator_next_null mid)
  qed
next
  case (snoc c xs)
  obtain a v where c: "c = (a, v)" by (cases c)
  have d: "dll h l (xs @ (a, v) # mid @ done)" using snoc.prems(1) c by simp
  obtain h2 l2 where rem: "(if first_ptr mid NULL \<noteq> NULL then map_option snd (list_remove h l (first_ptr mid NULL)) else Some (h, l)) = Some (h2, l2)"
    and d2: "dll h2 l2 (xs @ (a, v) # done)"
  proof (cases mid)
    case Nil
    with d that show ?thesis by (simp add: dll_simps)
  next
    case (Cons b mid')
    then obtain b w where mid: "mid = [(b, w)]" using snoc.prems(2) by (cases b) auto
    then have d1: "dll h l ((xs @ [(a, v)]) @ (b, w) # done)" using d by simp
    from list_remove_dll [OF d1] dll_at [OF d1] that show ?thesis
      by (auto simp: mid dll_simps)
  qed
  note step = iterator_next_tail [OF d] rem dll_at [OF d2]
  have ih: "\<exists>h' l' cs. sweep_loop body h3 l3 \<lparr>it_next = last_ptr NULL xs, it_direction = LIST_TAIL\<rparr> (first_ptr mid3 NULL) s3 = Some (h', l', s') \<and>
       dll h' l' (cs @ done3) \<and> map snd cs = rev ws3"
    if "dll h3 l3 (xs @ mid3 @ done3)" "length mid3 \<le> 1" "sweep_vals body s3 (rev (map snd xs)) = (ws3, s')"
    for h3 l3 mid3 done3 s3 ws3
    using snoc.IH that by blast
  obtain r s2 where b: "body s v = (r, s2)" by (cases "body s v")
  show ?case
  proof (cases r)
    case Mark
    have "sweep_vals body s2 (rev (map snd xs)) = (ws, s')" using snoc.prems(3) b Mark c by simp
    with ih [of h2 l2 "[(a, v)]" "done" s2 ws] d2 step b Mark c show ?thesis
      by (subst sweep_loop.simps) (auto simp: dll_simps)
  next
    case (Keep w)
    obtain h3 where h3: "upd h2 a (\<lambda>n. n\<lparr>val := w\<rparr>) = Some h3" "dll h3 l2 (xs @ (a, w) # done)"
      using dll_update_val [OF d2] by blast
    obtain ws2 where ws2: "sweep_vals body s2 (rev (map snd xs)) = (ws2, s')" "ws = w # ws2"
      using snoc.prems(3) b Keep c by (auto simp: map_prod_def split: prod.splits)
    obtain h4 l4 cs where 4: "sweep_loop body h3 l2 \<lparr>it_next = last_ptr NULL xs, it_direction = LIST_TAIL\<rparr> NULL s2 = Some (h4, l4, s')"
       "dll h4 l4 (cs @ (a, w) # done)" "map snd cs = rev ws2"
      using ih [of h3 l2 "[]" "(a, w) # done" s2 ws2] h3 ws2 by (auto simp: dll_simps)
    have "sweep_loop body h l \<lparr>it_next = last_ptr NULL (xs @ [c]), it_direction = LIST_TAIL\<rparr> (first_ptr mid NULL) s = Some (h4, l4, s')"
      using step b Keep c h3 4 by (subst sweep_loop.simps) (auto simp: dll_simps)
    moreover have "dll h4 l4 ((cs @ [(a, w)]) @ done)" "map snd (cs @ [(a, w)]) = rev ws"
      using 4 ws2 by simp_all
    ultimately show ?thesis by blast
  next
    case (Stop w)
    obtain h3 where h3: "upd h2 a (\<lambda>n. n\<lparr>val := w\<rparr>) = Some h3" "dll h3 l2 (xs @ (a, w) # done)"
      using dll_update_val [OF d2] by blast
    have s: "ws = w # rev (map snd xs)" "s2 = s'"
      using snoc.prems(3) b Stop c by auto
    have "sweep_loop body h l \<lparr>it_next = last_ptr NULL (xs @ [c]), it_direction = LIST_TAIL\<rparr> (first_ptr mid NULL) s = Some (h3, l2, s')"
      using step b Stop c h3 s by (subst sweep_loop.simps) (auto simp: dll_simps)
    moreover have "dll h3 l2 ((xs @ [(a, w)]) @ done)" "map snd (xs @ [(a, w)]) = rev ws"
      using h3 s by (simp_all add: rev_map)
    ultimately show ?thesis by blast
  qed
qed

lemma sweep_dll:
  assumes d: "dll h l cs" and s: "sweep_vals body s (rev (map snd cs)) = (ws, s')" and mem: "mem \<noteq> NULL"
  shows "\<exists>h' l' cs'. sweep mem body h l s = Some (h', l', s') \<and> dll h' l' cs' \<and> map snd cs' = rev ws"
proof (cases "cs = []")
  case True
  with assms show ?thesis by (auto simp: sweep_def dll_empty [OF d])
next
  case False
  with sweep_loop_dll [of h l cs "[]" "[]" body s ws s'] d s show ?thesis
    by (simp add: sweep_def dll_empty [OF d] list_iterator_new_dll [OF d mem] dll_simps)
qed

lemma sweep_vals_filter:
  "(\<And>s v. fst (body s v) = (if P v then Mark else Keep v)) \<Longrightarrow>
     fst (sweep_vals body s vs) = filter (\<lambda>v. \<not> P v) vs"
proof (induction vs arbitrary: s)
  case (Cons v vs)
  from Cons.prems [of s v] show ?case
    by (cases "body s v") (simp add: Cons.IH [OF Cons.prems] split: visit.split)
qed simp

section \<open>Stacks and queues of nodes\<close>

text \<open>
  What a client of the push and pop operations relies on: pushing appends the node to the
  represented sequence of cells and touches no node outside it; popping detaches a node at one
  end. Both ends of the list satisfy it, with the sequence read in either direction.
\<close>

fun push_all ::
    "('v heap \<Rightarrow> 'v list_t \<Rightarrow> ptr \<Rightarrow> (ptr \<times> 'v heap \<times> 'v list_t) option) \<Rightarrow>
     'v heap \<Rightarrow> 'v list_t \<Rightarrow> ptr list \<Rightarrow> ('v heap \<times> 'v list_t) option" where
  "push_all push h l [] = Some (h, l)"
| "push_all push h l (a # as) = do { (_, h, l) \<leftarrow> push h l a; push_all push h l as }"

fun pop_all ::
    "('v heap \<Rightarrow> 'v list_t \<Rightarrow> (ptr \<times> 'v heap \<times> 'v list_t) option) \<Rightarrow>
     'v heap \<Rightarrow> 'v list_t \<Rightarrow> nat \<Rightarrow> (ptr list \<times> 'v heap \<times> 'v list_t) option" where
  "pop_all pop h l 0 = Some ([], h, l)"
| "pop_all pop h l (Suc k) = do {
     (a, h, l) \<leftarrow> pop h l;
     (as, h, l) \<leftarrow> pop_all pop h l k;
     Some (a # as, h, l) }"

locale node_seq =
  fixes rep :: "'v heap \<Rightarrow> 'v list_t \<Rightarrow> 'v cell list \<Rightarrow> bool"
    and push :: "'v heap \<Rightarrow> 'v list_t \<Rightarrow> ptr \<Rightarrow> (ptr \<times> 'v heap \<times> 'v list_t) option"
  assumes push_ok: "rep h l cs \<Longrightarrow> h a = Some n \<Longrightarrow> a \<noteq> NULL \<Longrightarrow> a \<notin> addrs cs \<Longrightarrow> Suc (length cs) < 2 ^ 32 \<Longrightarrow>
      \<exists>h' l'. push h l a = Some (a, h', l') \<and> rep h' l' (cs @ [(a, val n)]) \<and>
        (\<forall>q. q \<noteq> a \<longrightarrow> q \<notin> addrs cs \<longrightarrow> h' q = h q)"
begin

lemma push_all_ok:
  "rep h l cs \<Longrightarrow> distinct (map fst ns) \<Longrightarrow>
     (\<And>a v. (a, v) \<in> set ns \<Longrightarrow> a \<noteq> NULL \<and> a \<notin> addrs cs \<and> map_option val (h a) = Some v) \<Longrightarrow>
     length cs + length ns < 2 ^ 32 \<Longrightarrow>
     \<exists>h' l'. push_all push h l (map fst ns) = Some (h', l') \<and> rep h' l' (cs @ ns)"
proof (induction ns arbitrary: h l cs)
  case (Cons c ns)
  obtain a v where c: "c = (a, v)" by (cases c)
  have a: "a \<noteq> NULL" "a \<notin> addrs cs" and "map_option val (h a) = Some v"
    using Cons.prems(3) [of a v] c by auto
  then obtain n where n: "h a = Some n" "val n = v" by auto
  obtain h' l' where h': "push h l a = Some (a, h', l')" "rep h' l' (cs @ [(a, v)])"
      "\<forall>q. q \<noteq> a \<longrightarrow> q \<notin> addrs cs \<longrightarrow> h' q = h q"
    using push_ok [OF Cons.prems(1) n(1) a] Cons.prems(4) n(2) by auto
  have "\<exists>h'' l''. push_all push h' l' (map fst ns) = Some (h'', l'') \<and> rep h'' l'' ((cs @ [(a, v)]) @ ns)"
  proof (rule Cons.IH [OF h'(2)])
    fix b w assume b: "(b, w) \<in> set ns"
    with Cons.prems(2) c have "b \<noteq> a" by force
    moreover have "b \<noteq> NULL \<and> b \<notin> addrs cs \<and> map_option val (h b) = Some w"
      using Cons.prems(3) [of b w] b by simp
    ultimately show "b \<noteq> NULL \<and> b \<notin> addrs (cs @ [(a, v)]) \<and> map_option val (h' b) = Some w"
      using h'(3) by (simp add: dll_simps)
  qed (use Cons.prems in simp_all)
  with h' c show ?case by auto
qed simp

end

locale node_queue = node_seq +
  fixes pop :: "'v heap \<Rightarrow> 'v list_t \<Rightarrow> (ptr \<times> 'v heap \<times> 'v list_t) option"
  assumes pop_ok: "rep h l ((a, v) # cs) \<Longrightarrow> \<exists>h' l'. pop h l = Some (a, h', l') \<and> rep h' l' cs"
begin

lemma pop_all_ok:
  "rep h l (ns @ cs) \<Longrightarrow> \<exists>h' l'. pop_all pop h l (length ns) = Some (map fst ns, h', l') \<and> rep h' l' cs"
proof (induction ns arbitrary: h l)
  case (Cons c ns)
  obtain a v where c: "c = (a, v)" by (cases c)
  then obtain h' l' where "pop h l = Some (a, h', l')" "rep h' l' (ns @ cs)"
    using pop_ok [of h l a v "ns @ cs"] Cons.prems by auto
  with Cons.IH [of h' l'] c show ?case by auto
qed simp

lemma first_in_first_out:
  assumes "rep h l cs" and "distinct (map fst ns)"
    and "\<And>a v. (a, v) \<in> set ns \<Longrightarrow> a \<noteq> NULL \<and> a \<notin> addrs cs \<and> map_option val (h a) = Some v"
    and "length cs + length ns < 2 ^ 32"
  shows "\<exists>h1 l1 h2 l2. push_all push h l (map fst ns) = Some (h1, l1) \<and>
     pop_all pop h1 l1 (length cs + length ns) = Some (map fst cs @ map fst ns, h2, l2) \<and> rep h2 l2 []"
  using push_all_ok [OF assms] pop_all_ok [of _ _ "cs @ ns" "[]"] by fastforce

end

locale node_stack = node_seq +
  fixes pop :: "'v heap \<Rightarrow> 'v list_t \<Rightarrow> (ptr \<times> 'v heap \<times> 'v list_t) option"
  assumes pop_ok: "rep h l (cs @ [(a, v)]) \<Longrightarrow> \<exists>h' l'. pop h l = Some (a, h', l') \<and> rep h' l' cs"
begin

lemma pop_all_ok:
  "rep h l (cs @ ns) \<Longrightarrow> \<exists>h' l'. pop_all pop h l (length ns) = Some (rev (map fst ns), h', l') \<and> rep h' l' cs"
proof (induction ns arbitrary: h l rule: rev_induct)
  case (snoc c ns)
  obtain a v where c: "c = (a, v)" by (cases c)
  then obtain h' l' where "pop h l = Some (a, h', l')" "rep h' l' (cs @ ns)"
    using pop_ok [of h l "cs @ ns" a v] snoc.prems by auto
  with snoc.IH [of h' l'] c show ?case by auto
qed simp

lemma last_in_first_out:
  assumes "rep h l cs" and "distinct (map fst ns)"
    and "\<And>a v. (a, v) \<in> set ns \<Longrightarrow> a \<noteq> NULL \<and> a \<notin> addrs cs \<and> map_option val (h a) = Some v"
    and "length cs + length ns < 2 ^ 32"
  shows "\<exists>h1 l1 h2 l2. push_all push h l (map fst ns) = Some (h1, l1) \<and>
     pop_all pop h1 l1 (length ns) = Some (rev (map fst ns), h2, l2) \<and> rep h2 l2 cs"
  using push_all_ok [OF assms] pop_all_ok by fastforce

end

interpretation tail_queue: node_queue dll list_rpush list_lpop
proof unfold_locales
  show "\<exists>h' l'. list_lpop h l = Some (a, h', l') \<and> dll h' l' cs"
    if "dll h l ((a, v) # cs)" for h l a v cs
    using list_lpop_dll [OF that] by auto
qed (rule list_rpush_dll)

interpretation head_queue: node_queue "\<lambda>h l cs. dll h l (rev cs)" list_lpush list_rpop
proof unfold_locales
  show "\<exists>h' l'. list_lpush h l a = Some (a, h', l') \<and> dll h' l' (rev (cs @ [(a, val n)])) \<and>
        (\<forall>q. q \<noteq> a \<longrightarrow> q \<notin> addrs cs \<longrightarrow> h' q = h q)"
    if "dll h l (rev cs)" "h a = Some n" "a \<noteq> NULL" "a \<notin> addrs cs" "Suc (length cs) < 2 ^ 32" for h l cs a n
    using list_lpush_dll [OF that(1,2,3)] that(4,5) by (simp add: dll_simps)
  show "\<exists>h' l'. list_rpop h l = Some (a, h', l') \<and> dll h' l' (rev cs)"
    if "dll h l (rev ((a, v) # cs))" for h l a v cs
    using list_rpop_dll [of h l "rev cs" a v] that by auto
qed

interpretation tail_stack: node_stack dll list_rpush list_rpop
proof unfold_locales
  show "\<exists>h' l'. list_rpop h l = Some (a, h', l') \<and> dll h' l' cs"
    if "dll h l (cs @ [(a, v)])" for h l a v cs
    using list_rpop_dll [OF that] by auto
qed

interpretation head_stack: node_stack "\<lambda>h l cs. dll h l (rev cs)" list_lpush list_lpop
proof unfold_locales
  show "\<exists>h' l'. list_lpop h l = Some (a, h', l') \<and> dll h' l' (rev cs)"
    if "dll h l (rev (cs @ [(a, v)]))" for h l cs a v
    using list_lpop_dll [of h l a v "rev cs"] that by auto
qed

section \<open>Properties\<close>

text \<open>
  Property C31: Nodes appended to a list with \<open>list_rpush\<close> come back from \<open>list_lpop\<close> in the order
  in which they were appended, after the ones that were in the list before; no operation
  touches memory that is not a live node, and the list ends up empty.
\<close>

theorem list_fifo:
  assumes "dll h l cs" and "distinct (map fst ns)"
    and "\<And>a v. (a, v) \<in> set ns \<Longrightarrow> a \<noteq> NULL \<and> a \<notin> addrs cs \<and> map_option val (h a) = Some v"
    and "length cs + length ns < 2 ^ 32"
  shows "\<exists>h1 l1 h2 l2. push_all list_rpush h l (map fst ns) = Some (h1, l1) \<and>
     pop_all list_lpop h1 l1 (length cs + length ns) = Some (map fst cs @ map fst ns, h2, l2) \<and> dll h2 l2 []"
  by (rule tail_queue.first_in_first_out [OF assms])

theorem list_fifo_witness:
  "\<exists>h1 l1 h2 l2. push_all list_rpush
      [5 \<mapsto> \<lparr>prev = 0, next = 0, val = True\<rparr>, 7 \<mapsto> \<lparr>prev = 9, next = 9, val = False\<rparr>] list_new [7, 5] = Some (h1, l1) \<and>
     pop_all list_lpop h1 l1 (Suc (Suc 0)) = Some ([7, 5], h2, l2) \<and> dll h2 l2 []"
proof -
  let ?h = "[5 \<mapsto> \<lparr>prev = 0, next = 0, val = True\<rparr>, 7 \<mapsto> \<lparr>prev = 9, next = 9, val = False\<rparr>]"
  have "a \<noteq> NULL \<and> a \<notin> addrs ([] :: bool cell list) \<and> map_option val (?h a) = Some v"
    if "(a, v) \<in> set [(7, False), (5, True)]" for a v
    using that by auto
  from list_fifo [where h = ?h and ns = "[(7, False), (5, True)]", OF dll_new _ this] show ?thesis
    by (auto simp del: push_all.simps pop_all.simps fun_upd_apply)
qed

text \<open>
  Sweeping a list from the tail with deferred removal, with memory for the iterator, never touches a freed node,
  visits every value once, newest first, and leaves exactly the values that were not marked, in
  their order.
\<close>

theorem list_sweep_filters:
  assumes "dll h l cs"
    and "\<And>s v. fst (body s v) = (if P v then Mark else Keep v)" and "mem \<noteq> NULL"
  shows "\<exists>h' l' s' cs'. sweep mem body h l s = Some (h', l', s') \<and> dll h' l' cs' \<and>
     map snd cs' = filter (\<lambda>v. \<not> P v) (map snd cs) \<and> s' = fold (\<lambda>v s. snd (body s v)) (rev (map snd cs)) s"
proof -
  obtain ws s' where s: "sweep_vals body s (rev (map snd cs)) = (ws, s')"
    by fastforce
  moreover have "ws = filter (\<lambda>v. \<not> P v) (rev (map snd cs))"
    using sweep_vals_filter [of body P s "rev (map snd cs)"] assms(2) s by simp
  moreover have "snd (sweep_vals body s vs) = fold (\<lambda>v s. snd (body s v)) vs s" for vs s
  proof (induction vs arbitrary: s)
    case (Cons v vs)
    then show ?case using assms(2) [of s v]
      by (cases "body s v") (auto split: visit.split if_splits)
  qed simp
  moreover obtain h' l' cs' where "sweep mem body h l s = Some (h', l', s')" "dll h' l' cs'" "map snd cs' = rev ws"
    using sweep_dll [OF assms(1) s assms(3)] by blast
  ultimately show ?thesis
    by (metis rev_filter rev_rev_ident snd_conv)
qed

theorem list_sweep_filters_witness:
  "\<exists>h' l' cs'. sweep 9 (\<lambda>n v. (if v then Mark else Keep v, Suc n))
      [5 \<mapsto> \<lparr>prev = 0, next = 7, val = True\<rparr>, 7 \<mapsto> \<lparr>prev = 5, next = 0, val = False\<rparr>]
      \<lparr>head = 5, tail = 7, len = 2, free_set = True, match = None\<rparr> (0 :: nat) = Some (h', l', 2) \<and>
     dll h' l' cs' \<and> map snd cs' = [False]"
proof -
  have "dll [5 \<mapsto> \<lparr>prev = 0, next = 7, val = True\<rparr>, 7 \<mapsto> \<lparr>prev = 5, next = 0, val = False\<rparr>]
      \<lparr>head = 5, tail = 7, len = 2, free_set = True, match = None\<rparr> [(5, True), (7, False)]"
    by (simp add: dll_def dll_simps)
  from list_sweep_filters [OF this, of "\<lambda>n v. (if v then Mark else Keep v, Suc n)" "\<lambda>v. v" 9 0]
  obtain h' l' s' cs' where "sweep 9 (\<lambda>n v. (if v then Mark else Keep v, Suc n))
      [5 \<mapsto> \<lparr>prev = 0, next = 7, val = True\<rparr>, 7 \<mapsto> \<lparr>prev = 5, next = 0, val = False\<rparr>]
      \<lparr>head = 5, tail = 7, len = 2, free_set = True, match = None\<rparr> (0 :: nat) = Some (h', l', s')"
    "dll h' l' cs'" "map snd cs' = [False]" "s' = 2"
    by auto
  then show ?thesis by (intro exI conjI) simp_all
qed

end
