(* ===== verification/Mqtt_Client.thy ===== *)
theory Mqtt_Client
  imports Mqtt_Topic Utils_Timer Utils_List
begin

text \<open>
  The MQTT client of sdk/comm/mqtt/iotx_mqtt_client.c, first part: its state, sending packets,
  the lists of packets that wait for an acknowledgement, reading a packet and handling it up to
  \<open>iotx_mc_cycle\<close>.

  The platform (clock, network, allocator, the application's callbacks) is a record of functions
  \<open>e\<close> over a world \<open>w\<close> that is passed along; each call returns the world after it. A client
  function takes \<open>e\<close>, the client \<open>c\<close> and \<open>w\<close> and returns its result, the client and the
  world, or \<open>None\<close> where the C program touches memory it does not own or never returns. The
  client pointer is not \<open>NULL\<close> (the public functions check it). The locks are not modelled: the
  client is driven by one thread, and callbacks do not call back into it.
\<close>

abbreviation (input) MQTT_SUB_INFO_NOT_FOUND_ERROR :: int where "MQTT_SUB_INFO_NOT_FOUND_ERROR \<equiv> -43"
abbreviation (input) MQTT_PUSH_TO_LIST_ERROR :: int where "MQTT_PUSH_TO_LIST_ERROR \<equiv> -42"
abbreviation (input) MQTT_TOPIC_FORMAT_ERROR :: int where "MQTT_TOPIC_FORMAT_ERROR \<equiv> -41"
abbreviation (input) MQTT_CONNACK_UNKNOWN_ERROR :: int where "MQTT_CONNACK_UNKNOWN_ERROR \<equiv> -39"
abbreviation (input) MQTT_CONNECT_ERROR :: int where "MQTT_CONNECT_ERROR \<equiv> -33"
abbreviation (input) MQTT_PING_PACKET_ERROR :: int where "MQTT_PING_PACKET_ERROR \<equiv> -31"
abbreviation (input) MQTT_CONNECT_PACKET_ERROR :: int where "MQTT_CONNECT_PACKET_ERROR \<equiv> -30"
abbreviation (input) MQTT_CONNECT_ACK_PACKET_ERROR :: int where "MQTT_CONNECT_ACK_PACKET_ERROR \<equiv> -29"
abbreviation (input) MQTT_NETWORK_CONNECT_ERROR :: int where "MQTT_NETWORK_CONNECT_ERROR \<equiv> -28"
abbreviation (input) MQTT_STATE_ERROR :: int where "MQTT_STATE_ERROR \<equiv> -27"
abbreviation (input) MQTT_SUBSCRIBE_PACKET_ERROR :: int where "MQTT_SUBSCRIBE_PACKET_ERROR \<equiv> -26"
abbreviation (input) MQTT_SUBSCRIBE_ACK_PACKET_ERROR :: int where "MQTT_SUBSCRIBE_ACK_PACKET_ERROR \<equiv> -25"
abbreviation (input) MQTT_SUBSCRIBE_ACK_FAILURE :: int where "MQTT_SUBSCRIBE_ACK_FAILURE \<equiv> -24"
abbreviation (input) MQTT_UNSUBSCRIBE_PACKET_ERROR :: int where "MQTT_UNSUBSCRIBE_PACKET_ERROR \<equiv> -22"
abbreviation (input) MQTT_PUBLISH_PACKET_ERROR :: int where "MQTT_PUBLISH_PACKET_ERROR \<equiv> -21"
abbreviation (input) MQTT_PUBLISH_QOS_ERROR :: int where "MQTT_PUBLISH_QOS_ERROR \<equiv> -20"
abbreviation (input) MQTT_PUBLISH_ACK_PACKET_ERROR :: int where "MQTT_PUBLISH_ACK_PACKET_ERROR \<equiv> -19"
abbreviation (input) MQTT_UNSUBSCRIBE_ACK_PACKET_ERROR :: int where "MQTT_UNSUBSCRIBE_ACK_PACKET_ERROR \<equiv> -15"
abbreviation (input) MQTT_NETWORK_ERROR :: int where "MQTT_NETWORK_ERROR \<equiv> -14"
abbreviation (input) MQTT_PUBLISH_ACK_TYPE_ERROR :: int where "MQTT_PUBLISH_ACK_TYPE_ERROR \<equiv> -13"

abbreviation (input) IOTX_MC_SUB_NUM_MAX :: nat where "IOTX_MC_SUB_NUM_MAX \<equiv> 30"
abbreviation (input) IOTX_MC_REPUB_NUM_MAX :: nat where "IOTX_MC_REPUB_NUM_MAX \<equiv> 20"
abbreviation (input) IOTX_MC_SUB_REQUEST_NUM_MAX :: nat where "IOTX_MC_SUB_REQUEST_NUM_MAX \<equiv> 30"
abbreviation (input) IOTX_MC_PACKET_ID_MAX :: u32 where "IOTX_MC_PACKET_ID_MAX \<equiv> 65535"
abbreviation (input) IOTX_MC_KEEPALIVE_PROBE_MAX :: u8 where "IOTX_MC_KEEPALIVE_PROBE_MAX \<equiv> 3"

section \<open>State\<close>

text \<open>
  \<open>iotx_mqtt_topic_info_t\<close>. A pointer is the memory from the address it holds to the end of its
  buffer, \<open>None\<close> for \<open>NULL\<close>.
\<close>

record iotx_mqtt_topic_info_t =
  ti_packet_id :: u16
  ti_qos :: u8
  ti_dup :: u8
  ti_retain :: u8
  ti_topic_len :: u16
  ti_payload_len :: u16
  ti_ptopic :: "bytes option"
  ti_payload :: "bytes option"

text \<open>The events the client reports, with what \<open>msg\<close> holds.\<close>

datatype iotx_mqtt_event =
    IOTX_MQTT_EVENT_DISCONNECT
  | IOTX_MQTT_EVENT_RECONNECT
  | IOTX_MQTT_EVENT_SUBCRIBE_SUCCESS u16
  | IOTX_MQTT_EVENT_SUBCRIBE_TIMEOUT u16
  | IOTX_MQTT_EVENT_SUBCRIBE_NACK u16
  | IOTX_MQTT_EVENT_UNSUBCRIBE_SUCCESS u16
  | IOTX_MQTT_EVENT_UNSUBCRIBE_TIMEOUT u16
  | IOTX_MQTT_EVENT_PUBLISH_SUCCESS u16
  | IOTX_MQTT_EVENT_PUBLISH_RECVEIVED iotx_mqtt_topic_info_t
  | IOTX_MQTT_EVENT_BUFFER_OVERFLOW

datatype iotx_mc_state_t =
    IOTX_MC_STATE_INVALID
  | IOTX_MC_STATE_INITIALIZED
  | IOTX_MC_STATE_CONNECTED
  | IOTX_MC_STATE_DISCONNECTED
  | IOTX_MC_STATE_DISCONNECTED_RECONNECTING

datatype iotx_mc_node_t = IOTX_MC_NODE_STATE_NORMANL | IOTX_MC_NODE_STATE_INVALID

text \<open>Function pointers and contexts are numbers, \<open>0\<close> is \<open>NULL\<close>.\<close>

record iotx_mc_topic_handle_t =
  topic_filter :: "bytes option"
  h_fp :: nat
  pcontext :: nat

definition null_handle :: iotx_mc_topic_handle_t where
  "null_handle = \<lparr>topic_filter = None, h_fp = 0, pcontext = 0\<rparr>"

record iotx_mc_subsribe_info_t =
  sub_type :: u8
  sub_msg_id :: u16
  sub_start_time :: iotx_time_t
  sub_node_state :: iotx_mc_node_t
  sub_handler :: iotx_mc_topic_handle_t
  sub_len :: u16
  sub_buf :: bytes

record iotx_mc_pub_info_t =
  pub_start_time :: iotx_time_t
  pub_node_state :: iotx_mc_node_t
  pub_msg_id :: u16
  pub_len :: u32
  pub_buf :: bytes

record iotx_mc_client_t =
  packet_id :: u32
  request_timeout_ms :: u32
  buf_size_send :: u32
  buf_size_read :: u32
  keepalive_probes :: u8
  buf_send :: bytes
  buf_read :: bytes
  sub_handle :: "iotx_mc_topic_handle_t list"
  next_ping_time :: iotx_time_t
  ping_mark :: int
  client_state :: iotx_mc_state_t
  reconnect_next_time :: iotx_time_t
  reconnect_time_interval_ms :: u32
  connect_data :: MQTTPacket_connectData
  list_pub_wait_ack :: "iotx_mc_pub_info_t list"
  list_sub_wait_ack :: "iotx_mc_subsribe_info_t list"
  event_fp :: nat
  event_pcontext :: nat
  reconnect_open :: bool

text \<open>
  The platform and the application. \<open>net_write data timeout\<close> returns the number of bytes sent or
  a negative error; \<open>net_read n timeout\<close> the return code and the bytes it stored, of which at
  most \<open>n\<close> reach the buffer. \<open>notify fp context event\<close> is a call of an application callback.
  \<open>device_secret\<close> is the secret of the device table (\<open>None\<close> when there is no table).
  \<open>password_memory\<close> is the string at the password pointer of the parameters, for a caller that changes it
  while the client exists; otherwise it is the string of the parameters.
  \<open>stack_u16\<close> is what an uninitialised 16-bit local variable holds.
\<close>

record 'w env =
  uptime :: "'w \<Rightarrow> u32 \<times> 'w"
  net_write :: "bytes \<Rightarrow> u32 \<Rightarrow> 'w \<Rightarrow> int \<times> 'w"
  net_read :: "nat \<Rightarrow> u32 \<Rightarrow> 'w \<Rightarrow> int \<times> bytes \<times> 'w"
  net_connect :: "'w \<Rightarrow> int \<times> 'w"
  net_disconnect :: "'w \<Rightarrow> int \<times> 'w"
  malloc_ok :: "nat \<Rightarrow> 'w \<Rightarrow> bool \<times> 'w"
  hal_random :: "u32 \<Rightarrow> 'w \<Rightarrow> u32 \<times> 'w"
  hal_srandom :: "u32 \<Rightarrow> 'w \<Rightarrow> 'w"
  hal_delay :: "u32 \<Rightarrow> 'w \<Rightarrow> 'w"
  notify :: "nat \<Rightarrow> nat \<Rightarrow> iotx_mqtt_event \<Rightarrow> 'w \<Rightarrow> 'w"
  mqtt_pre_auth_process :: "('w \<Rightarrow> int \<times> 'w) option"
  mqtt_post_auth_process :: "('w \<Rightarrow> int \<times> 'w) option"
  mqtt_up_process :: "(bytes \<Rightarrow> iotx_mqtt_topic_info_t \<Rightarrow> 'w \<Rightarrow> iotx_mqtt_topic_info_t \<times> 'w) option"
  mqtt_down_process :: "(iotx_mqtt_topic_info_t \<Rightarrow> 'w \<Rightarrow> iotx_mqtt_topic_info_t \<times> 'w) option"
  device_secret :: "bytes option"
  password_memory :: "('w \<Rightarrow> bytes) option"
  stack_u16 :: u16

type_synonym 'w mc_result = "(int \<times> iotx_mc_client_t \<times> 'w) option"

definition notify_client :: "'w env \<Rightarrow> iotx_mc_client_t \<Rightarrow> iotx_mqtt_event \<Rightarrow> 'w \<Rightarrow> 'w" where
  "notify_client e c ev w =
     (if event_fp c \<noteq> 0 then notify e (event_fp c) (event_pcontext c) ev w else w)"

definition iotx_mc_set_client_state :: "iotx_mc_client_t \<Rightarrow> iotx_mc_state_t \<Rightarrow> iotx_mc_client_t" where
  "iotx_mc_set_client_state c s = c\<lparr>client_state := s\<rparr>"

definition iotx_mc_check_state_normal :: "iotx_mc_client_t \<Rightarrow> bool" where
  "iotx_mc_check_state_normal c \<longleftrightarrow> client_state c = IOTX_MC_STATE_CONNECTED"

text \<open>The timers of Utils_Timer with the clock of the platform.\<close>

definition timer_arm :: "'w env \<Rightarrow> u32 \<Rightarrow> 'w \<Rightarrow> iotx_time_t \<times> 'w" where
  "timer_arm e ms w = (let (now, w) = uptime e w in (\<lparr>time = now + ms\<rparr>, w))"

definition timer_expired :: "'w env \<Rightarrow> iotx_time_t \<Rightarrow> 'w \<Rightarrow> bool \<times> 'w" where
  "timer_expired e t w = (let (now, w) = uptime e w in (utils_time_is_expired now (Some t), w))"

definition timer_left :: "'w env \<Rightarrow> iotx_time_t \<Rightarrow> 'w \<Rightarrow> u32 \<times> 'w" where
  "timer_left e t w =
     (let (now1, w) = uptime e w in
      if utils_time_is_expired now1 (Some t) then (0, w)
      else let (now2, w) = uptime e w in (iotx_time_left now1 now2 (Some t), w))"

text \<open>\<open>iotx_time_left(t) == 0 ? 1 : iotx_time_left(t)\<close>\<close>

definition timer_left_or_1 :: "'w env \<Rightarrow> iotx_time_t \<Rightarrow> 'w \<Rightarrow> u32 \<times> 'w" where
  "timer_left_or_1 e t w = (let (l, w) = timer_left e t w in if l = 0 then (1, w) else timer_left e t w)"

section \<open>Sending\<close>

text \<open>
  \<open>iotx_mc_send_packet\<close>. Every round hands \<open>length\<close> bytes from \<open>&buf[sent]\<close> to the network,
  which may read them all.
\<close>

partial_function (option) send_loop ::
    "'w env \<Rightarrow> bytes \<Rightarrow> nat \<Rightarrow> iotx_time_t \<Rightarrow> nat \<Rightarrow> 'w \<Rightarrow> (nat \<times> 'w) option" where
  "send_loop e buf plen t sent w =
     (if sent < plen then
        let (ex, w) = timer_expired e t w in
        if ex then Some (sent, w)
        else
          let (left, w) = timer_left e t w in
          case rd_bytes buf sent plen of
            None \<Rightarrow> None
          | Some data \<Rightarrow>
              let (rc, w) = net_write e data left w in
              if rc < 0 then Some (sent, w)
              else send_loop e buf plen t (sent + nat rc) w
      else Some (sent, w))"

definition iotx_mc_send_packet :: "'w env \<Rightarrow> bytes \<Rightarrow> nat \<Rightarrow> iotx_time_t \<Rightarrow> 'w \<Rightarrow> (int \<times> 'w) option" where
  "iotx_mc_send_packet e buf plen t w = do {
     (sent, w) \<leftarrow> send_loop e buf plen t 0 w;
     Some (if sent = plen then SUCCESS_RETURN else MQTT_NETWORK_ERROR, w) }"

definition iotx_mc_get_next_packetid :: "iotx_mc_client_t \<Rightarrow> u32 \<times> iotx_mc_client_t" where
  "iotx_mc_get_next_packetid c =
     (let pid = (if packet_id c = IOTX_MC_PACKET_ID_MAX then 1 else packet_id c + 1)
      in (pid, c\<lparr>packet_id := pid\<rparr>))"

definition MQTTKeepalive :: "'w env \<Rightarrow> iotx_mc_client_t \<Rightarrow> 'w \<Rightarrow> 'w mc_result" where
  "MQTTKeepalive e c w = do {
     let (t, w) = timer_arm e 1000 w;
     (plen, buf) \<leftarrow> MQTTSerialize_pingreq (buf_send c) (unat (buf_size_send c));
     let c = c\<lparr>buf_send := buf\<rparr>;
     if plen \<le> 0 then Some (MQTT_PING_PACKET_ERROR, c, w)
     else do {
       (rc, w) \<leftarrow> iotx_mc_send_packet e (buf_send c) (nat plen) t w;
       Some (if rc \<noteq> SUCCESS_RETURN then MQTT_NETWORK_ERROR else SUCCESS_RETURN, c, w) } }"

definition connect_strings :: "'w env \<Rightarrow> iotx_mc_client_t \<Rightarrow> 'w \<Rightarrow> MQTTPacket_connectData" where
  "connect_strings e c w =
     (case password_memory e of
        None \<Rightarrow> connect_data c
      | Some f \<Rightarrow> (connect_data c)\<lparr>password := MQTTString_initializer\<lparr>cstring := Some (f w)\<rparr>\<rparr>)"

definition MQTTConnect :: "'w env \<Rightarrow> iotx_mc_client_t \<Rightarrow> 'w \<Rightarrow> 'w mc_result" where
  "MQTTConnect e c w = do {
     (plen, buf) \<leftarrow> MQTTSerialize_connect (buf_send c) (unat (buf_size_send c)) (connect_strings e c w);
     let c = c\<lparr>buf_send := buf\<rparr>;
     if plen \<le> 0 then Some (MQTT_CONNECT_PACKET_ERROR, c, w)
     else do {
       let (t, w) = timer_arm e (request_timeout_ms c) w;
       (rc, w) \<leftarrow> iotx_mc_send_packet e (buf_send c) (nat plen) t w;
       Some (if rc \<noteq> SUCCESS_RETURN then MQTT_NETWORK_ERROR else SUCCESS_RETURN, c, w) } }"

text \<open>\<open>enum msgTypes\<close> is passed as the packet type byte.\<close>

definition MQTTPuback :: "'w env \<Rightarrow> iotx_mc_client_t \<Rightarrow> u16 \<Rightarrow> u8 \<Rightarrow> 'w \<Rightarrow> 'w mc_result" where
  "MQTTPuback e c msgId ty w = do {
     let (t, w) = timer_arm e (request_timeout_ms c) w;
     if ty = PUBACK \<or> ty = PUBREC \<or> ty = PUBREL then do {
       (plen, buf) \<leftarrow> MQTTSerialize_ack (buf_send c) (unat (buf_size_send c)) ty 0 msgId;
       let c = c\<lparr>buf_send := buf\<rparr>;
       if plen \<le> 0 then Some (MQTT_PUBLISH_ACK_PACKET_ERROR, c, w)
       else do {
         (rc, w) \<leftarrow> iotx_mc_send_packet e (buf_send c) (nat plen) t w;
         Some (if rc \<noteq> SUCCESS_RETURN then MQTT_NETWORK_ERROR else SUCCESS_RETURN, c, w) } }
     else Some (MQTT_PUBLISH_ACK_TYPE_ERROR, c, w) }"

definition MQTTDisconnect :: "'w env \<Rightarrow> iotx_mc_client_t \<Rightarrow> 'w \<Rightarrow> 'w mc_result" where
  "MQTTDisconnect e c w = do {
     (plen, buf) \<leftarrow> MQTTSerialize_disconnect (buf_send c) (unat (buf_size_send c));
     let c = c\<lparr>buf_send := buf\<rparr>;
     let (t, w) = timer_arm e (request_timeout_ms c) w;
     if plen > 0 then do {
       (rc, w) \<leftarrow> iotx_mc_send_packet e (buf_send c) (nat plen) t w;
       Some (rc, c, w) }
     else Some (FAIL_RETURN, c, w) }"

section \<open>The lists of packets that wait for an acknowledgement\<close>

text \<open>
  A list is modelled by the sequence of its values, from head to tail; Utils_List shows that the
  linked list implements it. The node just pushed is the last one, so removing it again is
  \<open>butlast\<close>.
\<close>

definition iotx_mc_push_pubInfo_to :: "'w env \<Rightarrow> iotx_mc_client_t \<Rightarrow> nat \<Rightarrow> u16 \<Rightarrow> 'w \<Rightarrow> 'w mc_result" where
  "iotx_mc_push_pubInfo_to e c plen msgId w =
     (if plen > unat (buf_size_send c) then Some (FAIL_RETURN, c, w)
      else if length (list_pub_wait_ack c) \<ge> IOTX_MC_REPUB_NUM_MAX then Some (FAIL_RETURN, c, w)
      else
        let (ok, w) = malloc_ok e plen w in
        if \<not> ok then Some (FAIL_RETURN, c, w)
        else
          let (now, w) = uptime e w in
          case rd_bytes (buf_send c) 0 plen of
            None \<Rightarrow> None
          | Some packet \<Rightarrow>
              let (ok, w) = malloc_ok e 0 w in
              if \<not> ok then Some (FAIL_RETURN, c, w)
              else Some (SUCCESS_RETURN,
                c\<lparr>list_pub_wait_ack := list_pub_wait_ack c @
                  [\<lparr>pub_start_time = \<lparr>time = now\<rparr>, pub_node_state = IOTX_MC_NODE_STATE_NORMANL,
                    pub_msg_id = msgId, pub_len = of_nat plen, pub_buf = packet\<rparr>]\<rparr>, w))"

definition iotx_mc_push_subInfo_to ::
    "'w env \<Rightarrow> iotx_mc_client_t \<Rightarrow> nat \<Rightarrow> u16 \<Rightarrow> u8 \<Rightarrow> iotx_mc_topic_handle_t \<Rightarrow> 'w \<Rightarrow> 'w mc_result" where
  "iotx_mc_push_subInfo_to e c plen msgId ty handler w =
     (if length (list_sub_wait_ack c) \<ge> IOTX_MC_SUB_REQUEST_NUM_MAX then Some (FAIL_RETURN, c, w)
      else
        let (ok, w) = malloc_ok e plen w in
        if \<not> ok then Some (FAIL_RETURN, c, w)
        else
          let (now, w) = uptime e w in
          case rd_bytes (buf_send c) 0 plen of
            None \<Rightarrow> None
          | Some packet \<Rightarrow>
              let (ok, w) = malloc_ok e 0 w in
              if \<not> ok then Some (FAIL_RETURN, c, w)
              else Some (SUCCESS_RETURN,
                c\<lparr>list_sub_wait_ack := list_sub_wait_ack c @
                  [\<lparr>sub_type = ty, sub_msg_id = msgId, sub_start_time = \<lparr>time = now\<rparr>,
                    sub_node_state = IOTX_MC_NODE_STATE_NORMANL, sub_handler = handler,
                    sub_len = of_nat plen, sub_buf = packet\<rparr>]\<rparr>, w))"

definition mask_pub :: "u16 \<Rightarrow> iotx_mc_pub_info_t \<Rightarrow> iotx_mc_pub_info_t" where
  "mask_pub msgId i =
     (if pub_msg_id i = msgId then i\<lparr>pub_node_state := IOTX_MC_NODE_STATE_INVALID\<rparr> else i)"

text \<open>
  The iterator over a list that is not empty has to be allocated. Without it nothing is marked, and the
  result is success all the same.
\<close>

definition list_iterator_made :: "'w env \<Rightarrow> 'w \<Rightarrow> bool \<times> 'w" where
  "list_iterator_made e w = malloc_ok e 0 w"

definition iotx_mc_mask_pubInfo_from :: "'w env \<Rightarrow> iotx_mc_client_t \<Rightarrow> u16 \<Rightarrow> 'w \<Rightarrow> iotx_mc_client_t \<times> 'w" where
  "iotx_mc_mask_pubInfo_from e c msgId w =
     (if list_pub_wait_ack c = [] then (c, w)
      else
        let (ok, w) = list_iterator_made e w in
        if \<not> ok then (c, w)
        else (c\<lparr>list_pub_wait_ack := map (mask_pub msgId) (list_pub_wait_ack c)\<rparr>, w))"

definition mask_sub :: "u16 \<Rightarrow> iotx_mc_subsribe_info_t \<Rightarrow> iotx_mc_subsribe_info_t" where
  "mask_sub msgId i =
     (if sub_msg_id i = msgId then i\<lparr>sub_node_state := IOTX_MC_NODE_STATE_INVALID\<rparr> else i)"

text \<open>The iterator runs from the tail, so the handler of the match nearest to the head stays.\<close>

fun last_handler :: "u16 \<Rightarrow> 'h option \<Rightarrow> ('h \<times> u16) list \<Rightarrow> 'h option" where
  "last_handler msgId h [] = h"
| "last_handler msgId h ((g, i) # is) = last_handler msgId (if i = msgId then Some g else h) is"

definition iotx_mc_mask_subInfo_from ::
    "'w env \<Rightarrow> iotx_mc_client_t \<Rightarrow> u16 \<Rightarrow> iotx_mc_topic_handle_t option \<Rightarrow> 'w \<Rightarrow>
     iotx_mc_topic_handle_t option \<times> iotx_mc_client_t \<times> 'w" where
  "iotx_mc_mask_subInfo_from e c msgId messageHandler w =
     (if list_sub_wait_ack c = [] then (messageHandler, c, w)
      else
        let (ok, w) = list_iterator_made e w in
        if \<not> ok then (messageHandler, c, w)
        else
          (last_handler msgId messageHandler (map (\<lambda>i. (sub_handler i, sub_msg_id i)) (rev (list_sub_wait_ack c))),
           c\<lparr>list_sub_wait_ack := map (mask_sub msgId) (list_sub_wait_ack c)\<rparr>, w))"

section \<open>PUBLISH, SUBSCRIBE, UNSUBSCRIBE\<close>

definition mqtt_cstring :: "bytes \<Rightarrow> MQTTString" where
  "mqtt_cstring s = MQTTString_initializer\<lparr>cstring := Some s\<rparr>"

definition MQTTPublish :: "'w env \<Rightarrow> iotx_mc_client_t \<Rightarrow> bytes \<Rightarrow> iotx_mqtt_topic_info_t \<Rightarrow> 'w \<Rightarrow> 'w mc_result" where
  "MQTTPublish e c topic msg w = do {
     let (t, w) = timer_arm e (request_timeout_ms c) w;
     payload \<leftarrow> (if ti_payload_len msg = 0 then Some [] else ti_payload msg);
     (plen, buf) \<leftarrow> MQTTSerialize_publish (buf_send c) (unat (buf_size_send c)) 0 (unat (ti_qos msg))
        (ti_retain msg) (ti_packet_id msg) (mqtt_cstring topic) payload (unat (ti_payload_len msg));
     let c = c\<lparr>buf_send := buf\<rparr>;
     if plen \<le> 0 then Some (MQTT_PUBLISH_PACKET_ERROR, c, w)
     else do {
       (rc, c, w) \<leftarrow> (if ti_qos msg > 0 then iotx_mc_push_pubInfo_to e c (nat plen) (ti_packet_id msg) w
                    else Some (SUCCESS_RETURN, c, w));
       if rc \<noteq> SUCCESS_RETURN then Some (MQTT_PUSH_TO_LIST_ERROR, c, w)
       else do {
         (rc, w) \<leftarrow> iotx_mc_send_packet e (buf_send c) (nat plen) t w;
         if rc \<noteq> SUCCESS_RETURN
         then Some (MQTT_NETWORK_ERROR,
                (if ti_qos msg > 0 then c\<lparr>list_pub_wait_ack := butlast (list_pub_wait_ack c)\<rparr> else c), w)
         else Some (SUCCESS_RETURN, c, w) } } }"

definition MQTTSubscribe ::
    "'w env \<Rightarrow> iotx_mc_client_t \<Rightarrow> bytes \<Rightarrow> nat \<Rightarrow> u32 \<Rightarrow> nat \<Rightarrow> nat \<Rightarrow> 'w \<Rightarrow> 'w mc_result" where
  "MQTTSubscribe e c filt qos msgId messageHandler ctx w =
     (if messageHandler = 0 then Some (FAIL_RETURN, c, w)
      else do {
        let (t, w) = timer_arm e (request_timeout_ms c) w;
        (plen, buf) \<leftarrow> MQTTSerialize_subscribe (buf_send c) (unat (buf_size_send c)) 0 (ucast msgId)
           [mqtt_cstring filt] [qos];
        let c = c\<lparr>buf_send := buf\<rparr>;
        if plen \<le> 0 then Some (MQTT_SUBSCRIBE_PACKET_ERROR, c, w)
        else do {
          (rc, c, w) \<leftarrow> iotx_mc_push_subInfo_to e c (nat plen) (ucast msgId) SUBSCRIBE
             \<lparr>topic_filter = Some filt, h_fp = messageHandler, pcontext = ctx\<rparr> w;
          if rc \<noteq> SUCCESS_RETURN then Some (MQTT_PUSH_TO_LIST_ERROR, c, w)
          else do {
            (rc, w) \<leftarrow> iotx_mc_send_packet e (buf_send c) (nat plen) t w;
            if rc \<noteq> SUCCESS_RETURN
            then Some (MQTT_NETWORK_ERROR, c\<lparr>list_sub_wait_ack := butlast (list_sub_wait_ack c)\<rparr>, w)
            else Some (SUCCESS_RETURN, c, w) } } })"

definition MQTTUnsubscribe :: "'w env \<Rightarrow> iotx_mc_client_t \<Rightarrow> bytes \<Rightarrow> u32 \<Rightarrow> 'w \<Rightarrow> 'w mc_result" where
  "MQTTUnsubscribe e c filt msgId w = do {
     let (t, w) = timer_arm e (request_timeout_ms c) w;
     (plen, buf) \<leftarrow> MQTTSerialize_unsubscribe (buf_send c) (unat (buf_size_send c)) 0 (ucast msgId)
        [mqtt_cstring filt];
     let c = c\<lparr>buf_send := buf\<rparr>;
     if plen \<le> 0 then Some (MQTT_UNSUBSCRIBE_PACKET_ERROR, c, w)
     else do {
       (rc, c, w) \<leftarrow> iotx_mc_push_subInfo_to e c (nat plen) (ucast msgId) UNSUBSCRIBE
          \<lparr>topic_filter = Some filt, h_fp = 0, pcontext = 0\<rparr> w;
       if rc \<noteq> SUCCESS_RETURN then Some (MQTT_PUSH_TO_LIST_ERROR, c, w)
       else do {
         (rc, w) \<leftarrow> iotx_mc_send_packet e (buf_send c) (nat plen) t w;
         if rc \<noteq> SUCCESS_RETURN
         then Some (MQTT_NETWORK_ERROR, c\<lparr>list_sub_wait_ack := butlast (list_sub_wait_ack c)\<rparr>, w)
         else Some (SUCCESS_RETURN, c, w) } } }"

section \<open>Reading a packet\<close>

text \<open>One call of \<open>ipstack->read\<close> into the read buffer at offset \<open>off\<close>.\<close>

definition read_into :: "'w env \<Rightarrow> iotx_mc_client_t \<Rightarrow> nat \<Rightarrow> nat \<Rightarrow> u32 \<Rightarrow> 'w \<Rightarrow> 'w mc_result" where
  "read_into e c off n timeout w =
     (let (rc, data, w) = net_read e n timeout w in
      map_option (\<lambda>buf. (rc, c\<lparr>buf_read := buf\<rparr>, w)) (wr_bytes (buf_read c) off (take n data)))"

text \<open>
  \<open>iotx_mc_decode_packet\<close>: \<open>n\<close> is the number of bytes that may still be read (4 at first). A read
  that returns 1 and stores nothing leaves the variable uninitialised.
\<close>

fun decode_packet_loop :: "'w env \<Rightarrow> u32 \<Rightarrow> nat \<Rightarrow> nat \<Rightarrow> nat \<Rightarrow> 'w \<Rightarrow> (int \<times> nat \<times> 'w) option" where
  "decode_packet_loop e timeout 0 multiplier v w = Some (MQTTPACKET_READ_ERROR, v, w)"
| "decode_packet_loop e timeout (Suc n) multiplier v w =
     (let (rc, data, w) = net_read e 1 (if timeout = 0 then 1 else timeout) w in
      if rc \<noteq> 1 then Some (MQTT_NETWORK_ERROR, v, w)
      else case data of
             [] \<Rightarrow> None
           | i # _ \<Rightarrow>
               let v = v + unat (i AND 127) * multiplier in
               if i AND 128 \<noteq> 0 then decode_packet_loop e timeout n (multiplier * 128) v w
               else Some (4 - int n, v, w))"

definition iotx_mc_decode_packet :: "'w env \<Rightarrow> u32 \<Rightarrow> 'w \<Rightarrow> (int \<times> nat \<times> 'w) option" where
  "iotx_mc_decode_packet e timeout w = decode_packet_loop e timeout 4 1 0 w"

text \<open>
  \<open>iotx_mc_read_packet\<close>: besides the return code, the value stored in \<open>*packet_type\<close>, \<open>None\<close>
  where nothing is stored.
\<close>

definition iotx_mc_read_packet ::
    "'w env \<Rightarrow> iotx_mc_client_t \<Rightarrow> iotx_time_t \<Rightarrow> 'w \<Rightarrow> (int \<times> u8 option \<times> iotx_mc_client_t \<times> 'w) option" where
  "iotx_mc_read_packet e c t w = do {
     let (left, w) = timer_left_or_1 e t w;
     (rc, c, w) \<leftarrow> read_into e c 0 1 left w;
     if rc = 0 then Some (SUCCESS_RETURN, Some 0, c, w)
     else if rc \<noteq> 1 then Some (FAIL_RETURN, None, c, w)
     else do {
       let (left, w) = timer_left e t w;
       (rc, rem_len, w) \<leftarrow> iotx_mc_decode_packet e left w;
       if rc < 0 then Some (rc, None, c, w)
       else do {
         (n, buf) \<leftarrow> MQTTPacket_encode (buf_read c) 1 rem_len;
         let c = c\<lparr>buf_read := buf\<rparr>;
         let plen = 1 + n;
         if rem_len > 0 \<and> rem_len + plen > unat (buf_size_read c) then do {
           let needReadLen = int (unat (buf_size_read c)) - int plen;
           let (left, w) = timer_left_or_1 e t w;
           (rc, c, w) \<leftarrow> read_into e c plen (nat (needReadLen mod 2 ^ 32)) left w;
           if rc \<noteq> needReadLen then Some (FAIL_RETURN, None, c, w)
           else do {
             let remainDataLen = int rem_len - needReadLen;
             let (ok, w) = malloc_ok e (nat (remainDataLen + 1)) w;
             if \<not> ok then Some (FAIL_RETURN, None, c, w)
             else do {
               let (left, w) = timer_left_or_1 e t w;
               let (rc, data, w) = net_read e (nat remainDataLen) left w;
               if rc \<noteq> remainDataLen then Some (FAIL_RETURN, None, c, w)
               else Some (SUCCESS_RETURN, None, c, notify_client e c IOTX_MQTT_EVENT_BUFFER_OVERFLOW w) } } }
         else do {
           (rc, c, w) \<leftarrow> (if rem_len > 0
              then let (left, w) = timer_left_or_1 e t w in read_into e c plen rem_len left w
              else Some (0, c, w));
           if rem_len > 0 \<and> rc \<noteq> int rem_len then Some (FAIL_RETURN, None, c, w)
           else do {
             h \<leftarrow> rd (buf_read c) 0;
             Some (SUCCESS_RETURN, Some (header_type h), c, w) } } } } }"

section \<open>Delivering messages\<close>

text \<open>The loop over the subscription table.\<close>

fun deliver_loop ::
    "'w env \<Rightarrow> MQTTString \<Rightarrow> iotx_mqtt_topic_info_t \<Rightarrow> iotx_mc_topic_handle_t list \<Rightarrow> bool \<Rightarrow> 'w \<Rightarrow> (bool \<times> 'w) option" where
  "deliver_loop e topic msg [] flag_matched w = Some (flag_matched, w)"
| "deliver_loop e topic msg (h # hs) flag_matched w =
     (case topic_filter h of
        None \<Rightarrow> deliver_loop e topic msg hs flag_matched w
      | Some f \<Rightarrow> do {
          eq \<leftarrow> MQTTPacket_equals topic f;
          m \<leftarrow> (if eq then Some True else iotx_mc_is_topic_matched (Some f) topic);
          if m \<and> h_fp h \<noteq> 0
          then deliver_loop e topic msg hs True
                 (notify e (h_fp h) (pcontext h) (IOTX_MQTT_EVENT_PUBLISH_RECVEIVED msg) w)
          else deliver_loop e topic msg hs flag_matched w })"

definition iotx_mc_deliver_message ::
    "'w env \<Rightarrow> iotx_mc_client_t \<Rightarrow> MQTTString \<Rightarrow> iotx_mqtt_topic_info_t \<Rightarrow> 'w \<Rightarrow> 'w option" where
  "iotx_mc_deliver_message e c topic msg w = do {
     let msg = msg\<lparr>ti_ptopic := lenstring_data topic, ti_topic_len := of_nat (lenstring_len topic)\<rparr>;
     (flag_matched, w) \<leftarrow> deliver_loop e topic msg (sub_handle c) False w;
     Some (if flag_matched then w else notify_client e c (IOTX_MQTT_EVENT_PUBLISH_RECVEIVED msg) w) }"

section \<open>Handling the packets from the broker\<close>

definition connack_result :: "u8 \<Rightarrow> int" where
  "connack_result connack_rc =
     (if connack_rc = 0 then SUCCESS_RETURN
      else if connack_rc = 1 then -38
      else if connack_rc = 2 then -37
      else if connack_rc = 3 then -36
      else if connack_rc = 4 then -35
      else if connack_rc = 5 then -34
      else MQTT_CONNACK_UNKNOWN_ERROR)"

definition iotx_mc_handle_recv_CONNACK :: "iotx_mc_client_t \<Rightarrow> int option" where
  "iotx_mc_handle_recv_CONNACK c = do {
     (rc, sessionPresent, connack_rc) \<leftarrow> MQTTDeserialize_connack 0 255 (buf_read c);
     Some (if rc \<noteq> 1 then MQTT_CONNECT_ACK_PACKET_ERROR else connack_result connack_rc) }"

definition iotx_mc_handle_recv_PUBACK :: "'w env \<Rightarrow> iotx_mc_client_t \<Rightarrow> 'w \<Rightarrow> 'w mc_result" where
  "iotx_mc_handle_recv_PUBACK e c w = do {
     (rc, ty, dup, mypacketid) \<leftarrow> MQTTDeserialize_ack (stack_u16 e) (buf_read c);
     if rc \<noteq> 1 then Some (MQTT_PUBLISH_ACK_PACKET_ERROR, c, w)
     else
       let (c, w) = iotx_mc_mask_pubInfo_from e c mypacketid w in
       Some (SUCCESS_RETURN, c, notify_client e c (IOTX_MQTT_EVENT_PUBLISH_SUCCESS mypacketid) w) }"

text \<open>\<open>0\<close> identical, \<open>1\<close> different; \<open>strlen\<close> of a \<open>NULL\<close> filter is undefined.\<close>

definition iotx_mc_check_handle_is_identical ::
    "iotx_mc_topic_handle_t \<Rightarrow> iotx_mc_topic_handle_t \<Rightarrow> int option" where
  "iotx_mc_check_handle_is_identical h1 h2 = do {
     f1 \<leftarrow> topic_filter h1;
     f2 \<leftarrow> topic_filter h2;
     Some (if length f1 \<noteq> length f2 then 1
           else if \<not> strncmp_eq f1 f2 (length f1) then 1
           else if h_fp h1 \<noteq> h_fp h2 then 1
           else if pcontext h1 \<noteq> pcontext h2 then 1
           else 0) }"

text \<open>The search of \<open>iotx_mc_handle_recv_SUBACK\<close>: \<open>flag_dup\<close> and \<open>i_free\<close>.\<close>

fun find_free_handle ::
    "iotx_mc_topic_handle_t \<Rightarrow> iotx_mc_topic_handle_t list \<Rightarrow> nat \<Rightarrow> nat option \<Rightarrow> (bool \<times> nat option) option" where
  "find_free_handle mh [] i i_free = Some (False, i_free)"
| "find_free_handle mh (h # hs) i i_free =
     (if topic_filter h \<noteq> None then do {
        r \<leftarrow> iotx_mc_check_handle_is_identical h mh;
        if r = 0 then Some (True, i_free) else find_free_handle mh hs (Suc i) i_free }
      else find_free_handle mh hs (Suc i) (if i_free = None then Some i else i_free))"

definition iotx_mc_handle_recv_SUBACK :: "'w env \<Rightarrow> iotx_mc_client_t \<Rightarrow> 'w \<Rightarrow> 'w mc_result" where
  "iotx_mc_handle_recv_SUBACK e c w = do {
     (rc, mypacketid, count, qs) \<leftarrow> MQTTDeserialize_suback (stack_u16 e) 1 0 [-1] (buf_read c);
     if rc \<noteq> 1 then Some (MQTT_SUBSCRIBE_ACK_PACKET_ERROR, c, w)
     else do {
       let (mh, c, w) = iotx_mc_mask_subInfo_from e c mypacketid (Some null_handle) w;
       messagehandler \<leftarrow> mh;
       if (of_int (hd qs) :: u8) = 0x80
       then Some (MQTT_SUBSCRIBE_ACK_FAILURE, c, notify_client e c (IOTX_MQTT_EVENT_SUBCRIBE_NACK mypacketid) w)
       else if h_fp messagehandler = 0 \<or> topic_filter messagehandler = None
       then Some (MQTT_SUB_INFO_NOT_FOUND_ERROR, c, w)
       else do {
         (flag_dup, i_free) \<leftarrow> find_free_handle messagehandler (sub_handle c) 0 None;
         (case (flag_dup, i_free) of
            (False, None) \<Rightarrow> Some (FAIL_RETURN, c, w)
          | _ \<Rightarrow>
              let c = (case (flag_dup, i_free) of
                         (False, Some i) \<Rightarrow> c\<lparr>sub_handle := (sub_handle c)[i := messagehandler]\<rparr>
                       | _ \<Rightarrow> c) in
              Some (SUCCESS_RETURN, c, notify_client e c (IOTX_MQTT_EVENT_SUBCRIBE_SUCCESS mypacketid) w)) } } }"

definition publish_out_init :: publish_out where
  "publish_out_init = \<lparr>po_dup = 0, po_qos = 0, po_retained = 0, po_packetid = 0,
     po_topicName = MQTTString_initializer, po_payload = 0, po_payloadlen = 0\<rparr>"

text \<open>The payload pointer that was not set is \<open>NULL\<close>; no payload starts at offset 0.\<close>

definition topic_info_of :: "bytes \<Rightarrow> publish_out \<Rightarrow> iotx_mqtt_topic_info_t" where
  "topic_info_of buf out =
     \<lparr>ti_packet_id = po_packetid out, ti_qos = po_qos out, ti_dup = po_dup out,
      ti_retain = po_retained out, ti_topic_len = 0, ti_payload_len = of_int (po_payloadlen out),
      ti_ptopic = None,
      ti_payload = (if po_payload out = 0 then None else Some (drop (po_payload out) buf))\<rparr>"

definition iotx_mc_handle_recv_PUBLISH :: "'w env \<Rightarrow> iotx_mc_client_t \<Rightarrow> 'w \<Rightarrow> 'w mc_result" where
  "iotx_mc_handle_recv_PUBLISH e c w = do {
     (rc, out) \<leftarrow> MQTTDeserialize_publish publish_out_init (buf_read c);
     if rc \<noteq> 1 then Some (MQTT_PUBLISH_PACKET_ERROR, c, w)
     else do {
       let msg = topic_info_of (buf_read c) out;
       let (msg, w) = (case mqtt_down_process e of Some f \<Rightarrow> f msg w | None \<Rightarrow> (msg, w));
       let msg = msg\<lparr>ti_ptopic := None, ti_topic_len := 0\<rparr>;
       w \<leftarrow> iotx_mc_deliver_message e c (po_topicName out) msg w;
       if ti_qos msg = 0 then Some (SUCCESS_RETURN, c, w)
       else if ti_qos msg = 1 then MQTTPuback e c (ti_packet_id msg) PUBACK w
       else if ti_qos msg = 2 then MQTTPuback e c (ti_packet_id msg) PUBREC w
       else Some (MQTT_PUBLISH_QOS_ERROR, c, w) } }"

text \<open>
  The loop of \<open>iotx_mc_handle_recv_UNSUBACK\<close>. \<open>mh\<close> is \<open>None\<close> when \<open>messageHandler\<close> was never
  written: comparing with it is undefined.
\<close>

fun remove_handles ::
    "iotx_mc_topic_handle_t option \<Rightarrow> iotx_mc_topic_handle_t list \<Rightarrow> iotx_mc_topic_handle_t list option" where
  "remove_handles mh [] = Some []"
| "remove_handles mh (h # hs) = do {
     h \<leftarrow> (if topic_filter h \<noteq> None
          then do {
            m \<leftarrow> mh;
            r \<leftarrow> iotx_mc_check_handle_is_identical h m;
            Some (if r = 0 then null_handle else h) }
          else Some h);
     hs \<leftarrow> remove_handles mh hs;
     Some (h # hs) }"

definition iotx_mc_handle_recv_UNSUBACK :: "'w env \<Rightarrow> iotx_mc_client_t \<Rightarrow> 'w \<Rightarrow> 'w mc_result" where
  "iotx_mc_handle_recv_UNSUBACK e c w = do {
     (rc, mypacketid) \<leftarrow> MQTTDeserialize_unsuback 0 (buf_read c);
     if rc \<noteq> 1 then Some (MQTT_UNSUBSCRIBE_ACK_PACKET_ERROR, c, w)
     else do {
       let (mh, c, w) = iotx_mc_mask_subInfo_from e c mypacketid None w;
       hs \<leftarrow> remove_handles mh (sub_handle c);
       let c = c\<lparr>sub_handle := hs\<rparr>;
       Some (SUCCESS_RETURN, c, notify_client e c (IOTX_MQTT_EVENT_UNSUBCRIBE_SUCCESS mypacketid) w) } }"

text \<open>
  \<open>iotx_mc_cycle\<close>. Its \<open>packetType\<close> has no initial value: after a packet that did not fit, which
  stores none, the comparison reads an indeterminate value.
\<close>

definition iotx_mc_cycle :: "'w env \<Rightarrow> iotx_mc_client_t \<Rightarrow> iotx_time_t \<Rightarrow> 'w \<Rightarrow> 'w mc_result" where
  "iotx_mc_cycle e c t w =
     (if client_state c \<noteq> IOTX_MC_STATE_CONNECTED then Some (MQTT_STATE_ERROR, c, w)
      else do {
        let c = (if IOTX_MC_KEEPALIVE_PROBE_MAX < keepalive_probes c
                 then (iotx_mc_set_client_state c IOTX_MC_STATE_DISCONNECTED)\<lparr>keepalive_probes := 0\<rparr>
                 else c);
        (rc, packetType, c, w) \<leftarrow> iotx_mc_read_packet e c t w;
        if rc \<noteq> SUCCESS_RETURN
        then Some (MQTT_NETWORK_ERROR, iotx_mc_set_client_state c IOTX_MC_STATE_DISCONNECTED, w)
        else do {
          packetType \<leftarrow> packetType;
          if packetType = 0 then Some (SUCCESS_RETURN, c, w)
          else
            let c = c\<lparr>ping_mark := 0, keepalive_probes := 0\<rparr> in
            if packetType = CONNACK then Some (SUCCESS_RETURN, c, w)
            else if packetType = PUBACK then iotx_mc_handle_recv_PUBACK e c w
            else if packetType = SUBACK then iotx_mc_handle_recv_SUBACK e c w
            else if packetType = PUBLISH then iotx_mc_handle_recv_PUBLISH e c w
            else if packetType = UNSUBACK then iotx_mc_handle_recv_UNSUBACK e c w
            else if packetType = PINGRESP then Some (SUCCESS_RETURN, c, w)
            else Some (FAIL_RETURN, c, w) } })"

section \<open>Packet ids\<close>

lemma next_packetid_step:
  assumes "unat (packet_id c) \<le> 65535"
  shows "unat (fst (iotx_mc_get_next_packetid c)) = unat (packet_id c) mod 65535 + 1"
    and "packet_id (snd (iotx_mc_get_next_packetid c)) = fst (iotx_mc_get_next_packetid c)"
proof -
  have "unat (packet_id c + 1) = unat (packet_id c) mod 65535 + 1" if "packet_id c \<noteq> 65535"
  proof -
    have "unat (packet_id c) \<noteq> 65535" using that by (simp add: word_unat_eq_iff)
    then show ?thesis using assms by (simp add: unat_word_ariths)
  qed
  then show "unat (fst (iotx_mc_get_next_packetid c)) = unat (packet_id c) mod 65535 + 1"
    by (auto simp: iotx_mc_get_next_packetid_def Let_def)
qed (simp add: iotx_mc_get_next_packetid_def Let_def)

text \<open>The id of the \<open>n\<close>-th call after the state \<open>c\<close>.\<close>

definition nth_packetid :: "iotx_mc_client_t \<Rightarrow> nat \<Rightarrow> u32" where
  "nth_packetid c n = fst (iotx_mc_get_next_packetid (((\<lambda>c. snd (iotx_mc_get_next_packetid c)) ^^ n) c))"

lemma nth_packetid_eq:
  assumes "unat (packet_id c) \<le> 65535"
  shows "unat (nth_packetid c n) = (unat (packet_id c) + n) mod 65535 + 1"
proof (induction n)
  case 0
  then show ?case using next_packetid_step(1) [OF assms] by (simp add: nth_packetid_def)
next
  case (Suc n)
  define c' where "c' = ((\<lambda>c. snd (iotx_mc_get_next_packetid c)) ^^ Suc n) c"
  have p: "packet_id c' = nth_packetid c n"
    by (simp add: c'_def nth_packetid_def iotx_mc_get_next_packetid_def Let_def)
  have "unat (packet_id c') \<le> 65535"
    unfolding p Suc.IH by (simp add: Suc_leI)
  from next_packetid_step(1) [OF this] have "unat (nth_packetid c (Suc n)) = unat (packet_id c') mod 65535 + 1"
    by (simp add: nth_packetid_def c'_def)
  then show ?case
    by (simp add: p Suc.IH mod_Suc_eq)
qed

section \<open>Sending a packet\<close>

lemma send_loop_done: "n \<le> sent \<Longrightarrow> send_loop e buf n t sent w = Some (sent, w)"
  by (subst send_loop.simps) simp

text \<open>A network that sends all it is given, or fails.\<close>

definition full_writes :: "'w env \<Rightarrow> bool" where
  "full_writes e \<longleftrightarrow> (\<forall>data left w. fst (net_write e data left w) < 0 \<or>
     fst (net_write e data left w) = int (length data))"

text \<open>The one write a packet then needs.\<close>

definition send_once :: "'w env \<Rightarrow> bytes \<Rightarrow> iotx_time_t \<Rightarrow> 'w \<Rightarrow> int \<times> 'w" where
  "send_once e packet t w =
     (let (ex, w) = timer_expired e t w in
      if ex then (MQTT_NETWORK_ERROR, w)
      else
        let (left, w) = timer_left e t w;
            (rc, w) = net_write e packet left w in
        (if rc < 0 then MQTT_NETWORK_ERROR else SUCCESS_RETURN, w))"

text \<open>This one write fails, or takes the whole packet, or is not made because the time is over.\<close>

definition writes_whole :: "'w env \<Rightarrow> bytes \<Rightarrow> iotx_time_t \<Rightarrow> 'w \<Rightarrow> bool" where
  "writes_whole e packet t w \<longleftrightarrow>
     (let (ex, w) = timer_expired e t w; (left, w) = timer_left e t w; n = fst (net_write e packet left w)
      in ex \<or> n < 0 \<or> n = int (length packet))"

lemma full_writes_whole: "full_writes e \<Longrightarrow> writes_whole e packet t w"
  by (auto simp: full_writes_def writes_whole_def Let_def split: prod.splits)

lemma send_packet_whole:
  assumes "writes_whole e (take n buf) t w" and "0 < n" and "n \<le> length buf"
  shows "iotx_mc_send_packet e buf n t w = Some (send_once e (take n buf) t w)"
proof -
  obtain ex w1 where ex: "timer_expired e t w = (ex, w1)" by fastforce
  obtain left w2 where left: "timer_left e t w1 = (left, w2)" by fastforce
  obtain rc w3 where rc: "net_write e (take n buf) left w2 = (rc, w3)" by fastforce
  have full: "ex \<or> rc < 0 \<or> rc = int n"
    using assms(1,3) ex left rc by (simp add: writes_whole_def min_absorb2)
  have "rd_bytes buf 0 n = Some (take n buf)" using assms(3) by (simp add: rd_bytes_def)
  with ex left rc full assms(2) show ?thesis
    unfolding iotx_mc_send_packet_def send_once_def
    by (subst send_loop.simps) (auto simp: send_loop_done)
qed

lemmas send_packet_full = send_packet_whole [OF full_writes_whole]

text \<open>
  After a write of \<open>k\<close> bytes the next one is given \<open>n\<close> bytes from offset \<open>k\<close> on, which lie beyond
  a buffer that holds just the packet.
\<close>

lemma send_packet_partial_eq:
  assumes "timer_expired e t w = (False, w1)" and "timer_left e t w1 = (left, w2)"
    and "net_write e buf left w2 = (int k, w3)" and "0 < k" and "k < length buf"
    and "timer_expired e t w3 = (False, w4)"
  shows "iotx_mc_send_packet e buf (length buf) t w = None"
proof -
  obtain left' w5 where left': "timer_left e t w4 = (left', w5)" by fastforce
  have "send_loop e buf (length buf) t k w3 = None"
    using assms(4,5,6) left' by (subst send_loop.simps) (simp add: rd_bytes_def)
  with assms show ?thesis
    unfolding iotx_mc_send_packet_def
    by (subst send_loop.simps) (auto simp: rd_bytes_def)
qed

section \<open>Buffers keep their size\<close>

definition keeps_len :: "(cursor \<Rightarrow> cursor option) \<Rightarrow> bool" where
  "keeps_len f \<longleftrightarrow> (\<forall>m p m' p'. p \<le> length m \<longrightarrow> f (m, p) = Some (m', p') \<longrightarrow>
     length m' = length m \<and> p \<le> p' \<and> p' \<le> length m')"

named_theorems keeps_len_intro "writers that keep the size of the buffer"

lemma keeps_lenI:
  "(\<And>m p m' p'. p \<le> length m \<Longrightarrow> f (m, p) = Some (m', p') \<Longrightarrow>
     length m' = length m \<and> p \<le> p' \<and> p' \<le> length m') \<Longrightarrow> keeps_len f"
  unfolding keeps_len_def by blast

lemma keeps_lenD:
  "keeps_len f \<Longrightarrow> f (m, p) = Some (m', p') \<Longrightarrow> p \<le> length m \<Longrightarrow>
     length m' = length m \<and> p \<le> p' \<and> p' \<le> length m'"
  unfolding keeps_len_def by blast

lemma keeps_len_None [keeps_len_intro]: "keeps_len (\<lambda>c. None)"
  by (simp add: keeps_len_def)

lemma keeps_len_bind [keeps_len_intro]:
  assumes f: "keeps_len f" and g: "keeps_len g"
  shows "keeps_len (\<lambda>c. f c \<bind> g)"
proof (rule keeps_lenI)
  fix m p m' p'
  assume p: "p \<le> length m" and "f (m, p) \<bind> g = Some (m', p')"
  then obtain m1 p1 where 1: "f (m, p) = Some (m1, p1)" "g (m1, p1) = Some (m', p')"
    by (auto simp: bind_eq_Some_conv)
  from keeps_lenD [OF f 1(1) p] keeps_lenD [OF g 1(2)]
  show "length m' = length m \<and> p \<le> p' \<and> p' \<le> length m'" by simp
qed

lemma keeps_len_const [keeps_len_intro]:
  "(\<And>x. x0 = Some x \<Longrightarrow> keeps_len (g x)) \<Longrightarrow> keeps_len (\<lambda>c. x0 \<bind> (\<lambda>x. g x c))"
  by (cases x0) (simp_all add: keeps_len_None)

lemma keeps_len_if [keeps_len_intro]: "keeps_len f \<Longrightarrow> keeps_len g \<Longrightarrow> keeps_len (\<lambda>c. if b then f c else g c)"
  by (cases b) simp_all

lemma keeps_len_Some [keeps_len_intro]: "keeps_len (\<lambda>c. Some c)"
  by (simp add: keeps_len_def)

lemma length_overwrite_in: "p + length bs \<le> length m \<Longrightarrow> length (overwrite m p bs) = length m"
  by (simp add: overwrite_def)

lemma keeps_len_emits: 
  assumes "emits f bs"
  shows "keeps_len f"
proof (rule keeps_lenI)
  fix m p m' p'
  assume "p \<le> length m" "f (m, p) = Some (m', p')"
  then show "length m' = length m \<and> p \<le> p' \<and> p' \<le> length m'"
    using emits_run [OF assms, of p m] emits_run_None [OF assms, of p m]
    by (cases "p + length bs \<le> length m") (auto simp: length_overwrite_in)
qed

lemmas keeps_len_basic [keeps_len_intro] =
  keeps_len_emits [OF emits_writeChar] keeps_len_emits [OF emits_writeInt] keeps_len_emits [OF emits_put_rem_len]
  keeps_len_emits [OF emits_put_bytes] keeps_len_emits [OF emits_writeCString]

lemma keeps_len_writeMQTTString [keeps_len_intro]: "keeps_len (writeMQTTString s)"
proof -
  have "keeps_len (\<lambda>c. writeMQTTString s c)"
    unfolding writeMQTTString_def
    by (cases "cstring s") (simp_all only: option.case, (intro keeps_len_intro)+)
  then show ?thesis by simp
qed

lemma keeps_len_put_from [keeps_len_intro]: "keeps_len (put_from src n)"
proof -
  have "keeps_len (\<lambda>c. put_from src n c)"
    unfolding put_from_def by (intro keeps_len_intro)
  then show ?thesis by simp
qed

lemma keeps_len_put_filters_qos [keeps_len_intro]: "keeps_len (put_filters_qos fs)"
proof (induction fs)
  case Nil
  have "put_filters_qos [] = (\<lambda>c. Some c)" by (rule ext) simp
  then show ?case by (simp add: keeps_len_Some)
next
  case (Cons f fs)
  obtain t q where f: "f = (t, q)" by (cases f)
  have "keeps_len (\<lambda>c. writeMQTTString t c \<bind> (\<lambda>c. writeChar (of_nat q) c \<bind> put_filters_qos fs))"
    by (intro keeps_len_intro Cons)
  moreover have "put_filters_qos (f # fs) = (\<lambda>c. writeMQTTString t c \<bind> (\<lambda>c. writeChar (of_nat q) c \<bind> put_filters_qos fs))"
    by (rule ext) (simp add: f)
  ultimately show ?case by simp
qed

lemma keeps_len_put_filters [keeps_len_intro]: "keeps_len (put_filters fs)"
proof (induction fs)
  case Nil
  have "put_filters [] = (\<lambda>c. Some c)" by (rule ext) simp
  then show ?case by (simp add: keeps_len_Some)
next
  case (Cons t fs)
  have "keeps_len (\<lambda>c. writeMQTTString t c \<bind> put_filters fs)"
    by (intro keeps_len_intro Cons)
  moreover have "put_filters (t # fs) = (\<lambda>c. writeMQTTString t c \<bind> put_filters fs)"
    by (rule ext) simp
  ultimately show ?case by simp
qed

lemma run_writer_keeps_len:
  "keeps_len w \<Longrightarrow> run_writer w buf = Some (rc, buf') \<Longrightarrow> length buf' = length buf \<and> 0 \<le> rc \<and> nat rc \<le> length buf"
  by (auto simp: run_writer_def dest: keeps_lenD)

text \<open>So does every serialiser; what it returns as a length fits the buffer.\<close>

definition sized :: "bytes \<Rightarrow> (int \<times> bytes) option \<Rightarrow> bool" where
  "sized buf r \<longleftrightarrow> (case r of None \<Rightarrow> True
     | Some (rc, buf') \<Rightarrow> length buf' = length buf \<and> nat rc \<le> length buf)"

lemma sized_run_writer: "keeps_len w \<Longrightarrow> sized buf (run_writer w buf)"
  by (auto simp: sized_def dest: run_writer_keeps_len split: option.split)

lemma sized_short: "sized buf (Some (MQTTPACKET_BUFFER_TOO_SHORT, buf))"
  by (simp add: sized_def)

lemma sized_None: "sized buf None"
  by (simp add: sized_def)

lemma sized_if: "sized buf a \<Longrightarrow> sized buf b \<Longrightarrow> sized buf (if P then a else b)"
  by simp

lemmas serialiser_sized = sized_if sized_run_writer sized_short sized_None

lemma sized_publish: "sized buf (MQTTSerialize_publish buf n dup qos retain pid topic payload k)"
  unfolding MQTTSerialize_publish_def Let_def
  by (intro serialiser_sized keeps_len_intro)

lemma sized_connect: "sized buf (MQTTSerialize_connect buf n opts)"
  unfolding MQTTSerialize_connect_def Let_def
  by (intro serialiser_sized keeps_len_intro)

lemma sized_zero: "sized buf (MQTTSerialize_zero buf n ty)"
  unfolding MQTTSerialize_zero_def
  by (intro serialiser_sized keeps_len_intro)

lemma sized_ack: "sized buf (MQTTSerialize_ack buf n ty dup pid)"
  unfolding MQTTSerialize_ack_def
  by (intro serialiser_sized keeps_len_intro)

lemma sized_subscribe: "sized buf (MQTTSerialize_subscribe buf n dup pid fs qs)"
  unfolding MQTTSerialize_subscribe_def Let_def
  by (intro serialiser_sized keeps_len_intro)

lemma sized_unsubscribe: "sized buf (MQTTSerialize_unsubscribe buf n dup pid fs)"
  unfolding MQTTSerialize_unsubscribe_def Let_def
  by (intro serialiser_sized keeps_len_intro)

lemmas serialisers_sized = sized_publish sized_connect sized_zero sized_ack sized_subscribe sized_unsubscribe
  sized_zero [where ty = PINGREQ, folded MQTTSerialize_pingreq_def]
  sized_zero [where ty = DISCONNECT, folded MQTTSerialize_disconnect_def]

lemma sizedD: "sized buf r \<Longrightarrow> r = Some (rc, buf') \<Longrightarrow> length buf' = length buf \<and> nat rc \<le> length buf"
  by (simp add: sized_def)

section \<open>Frames\<close>

text \<open>Sending a packet changes nothing of the client but the contents of the send buffer.\<close>

definition sends_only :: "iotx_mc_client_t \<Rightarrow> 'w mc_result \<Rightarrow> bool" where
  "sends_only c r \<longleftrightarrow> (case r of None \<Rightarrow> True
     | Some (rc, c', w') \<Rightarrow> \<exists>b. length b = length (buf_send c) \<and> c' = c\<lparr>buf_send := b\<rparr>)"

lemma sends_only_const:
  "length b = length (buf_send c) \<Longrightarrow> sends_only c (Some (rc, c\<lparr>buf_send := b\<rparr>, w))"
  by (auto simp: sends_only_def)

lemma sends_only_same: "sends_only c (Some (rc, c, w))"
  using sends_only_const [of "buf_send c" c] by simp

lemma sends_only_send:
  assumes "length b = length (buf_send c)"
  shows "sends_only c (x \<bind> (\<lambda>(rc, w). Some (f rc, c\<lparr>buf_send := b\<rparr>, w)))"
  using assms by (cases x) (auto simp: sends_only_def)

lemma sends_only_serialised:
  assumes "sized (buf_send c) ser"
    and "\<And>n b. length b = length (buf_send c) \<Longrightarrow> sends_only c (k n b)"
  shows "sends_only c (ser \<bind> (\<lambda>(n, b). k n b))"
  using assms by (cases ser) (auto simp: sized_def sends_only_def)

lemma sends_only_if: "sends_only c a \<Longrightarrow> sends_only c b \<Longrightarrow> sends_only c (if P then a else b)"
  by simp

lemmas sends_only_intro = sends_only_if sends_only_serialised sends_only_send sends_only_const sends_only_same serialisers_sized

lemma MQTTKeepalive_frame: "sends_only c (MQTTKeepalive e c w)"
  unfolding MQTTKeepalive_def Let_def by (auto split: prod.split intro!: sends_only_intro)

lemma MQTTConnect_frame: "sends_only c (MQTTConnect e c w)"
  unfolding MQTTConnect_def Let_def by (auto split: prod.split intro!: sends_only_intro)

lemma MQTTPuback_frame: "sends_only c (MQTTPuback e c pid ty w)"
  unfolding MQTTPuback_def Let_def by (auto split: prod.split intro!: sends_only_intro)

lemma MQTTDisconnect_frame: "sends_only c (MQTTDisconnect e c w)"
  unfolding MQTTDisconnect_def Let_def by (auto split: prod.split intro!: sends_only_intro)

text \<open>Reading a packet changes only the contents of the read buffer.\<close>

lemma wr_bytes_length_eq: "wr_bytes m i bs = Some m' \<Longrightarrow> length m' = length m"
  by (auto simp: wr_bytes_def overwrite_def split: if_splits)

lemma read_into_frame:
  "read_into e c off n timeout w = Some (rc, c', w') \<Longrightarrow>
     \<exists>b. length b = length (buf_read c) \<and> c' = c\<lparr>buf_read := b\<rparr>"
  by (auto simp: read_into_def dest: wr_bytes_length_eq split: prod.splits)

lemma read_into_ok:
  "off + n \<le> length (buf_read c) \<Longrightarrow> \<exists>rc b w'. read_into e c off n timeout w = Some (rc, c\<lparr>buf_read := b\<rparr>, w') \<and>
     length b = length (buf_read c)"
  by (auto simp: read_into_def wr_bytes_def length_overwrite_in split: prod.splits)

lemma encode_length: "MQTTPacket_encode m p n = Some (k, m') \<Longrightarrow> p \<le> length m \<Longrightarrow> length m' = length m"
  using MQTTPacket_encode_loop_eq [of p 0 m n]
  by (auto simp: MQTTPacket_encode_def length_overwrite_in split: if_splits)

definition reads_only :: "iotx_mc_client_t \<Rightarrow> iotx_mc_client_t \<Rightarrow> bool" where
  "reads_only c c' \<longleftrightarrow> (\<exists>b. length b = length (buf_read c) \<and> c' = c\<lparr>buf_read := b\<rparr>)"

lemma reads_only_refl: "reads_only c c"
  unfolding reads_only_def by (rule exI [of _ "buf_read c"]) simp

lemma reads_only_trans: "reads_only c c' \<Longrightarrow> reads_only c' c'' \<Longrightarrow> reads_only c c''"
  by (auto simp: reads_only_def)

text \<open>A read that returns 1 has stored a byte.\<close>

definition reads_bytes :: "'w env \<Rightarrow> bool" where
  "reads_bytes e \<longleftrightarrow> (\<forall>n timeout w. fst (net_read e n timeout w) = 1 \<longrightarrow> fst (snd (net_read e n timeout w)) \<noteq> [])"

lemma decode_packet_loop_bound:
  assumes "reads_bytes e"
  shows "n \<le> 4 \<Longrightarrow> v < 128 ^ (4 - n) \<Longrightarrow>
    \<exists>rc v' w'. decode_packet_loop e timeout n (128 ^ (4 - n)) v w = Some (rc, v', w') \<and> v' < 268435456"
proof (induction n arbitrary: v w)
  case 0
  then show ?case by simp
next
  case (Suc n)
  obtain rc data w1 where r: "net_read e 1 (if timeout = 0 then 1 else timeout) w = (rc, data, w1)"
    by (metis prod_cases3)
  have p: "(128 :: nat) ^ (4 - n) = 128 * 128 ^ (4 - Suc n)"
    using Suc.prems(1) by (metis Suc_diff_le diff_Suc_Suc power_Suc)
  have small: "(128 :: nat) ^ (4 - Suc n) \<le> 128 ^ 4"
    by (rule power_increasing) simp_all
  show ?case
  proof (cases "rc = 1")
    case False
    with r Suc.prems small show ?thesis by auto
  next
    case True
    then obtain i ds where d: "data = i # ds"
      using assms r unfolding reads_bytes_def by (metis fst_conv snd_conv list.exhaust)
    let ?v = "v + unat (i AND 127) * 128 ^ (4 - Suc n)"
    have "unat (i AND 127) \<le> 127" by (simp add: unat_and_mask7)
    then have "unat (i AND 127) * 128 ^ (4 - Suc n) \<le> 127 * 128 ^ (4 - Suc n)"
      by (rule mult_le_mono1)
    with Suc.prems(2) have v: "?v < 128 ^ (4 - n)" unfolding p by linarith
    have "(128 :: nat) ^ (4 - n) \<le> 128 ^ 4" by (rule power_increasing) simp_all
    with v have "?v < 268435456" by simp
    with Suc.IH [of ?v w1] Suc.prems(1) v r True d p show ?thesis
      by (cases "i AND 128 = 0") (auto simp: Let_def mult.commute)
  qed
qed

lemma decode_packet_ok:
  "reads_bytes e \<Longrightarrow> \<exists>rc v w'. iotx_mc_decode_packet e timeout w = Some (rc, v, w') \<and> v < 268435456"
  using decode_packet_loop_bound [of e 4 0 timeout w] by (simp add: iotx_mc_decode_packet_def)

lemma encode_ok:
  assumes "n < 268435456" and "5 \<le> length m"
  shows "\<exists>k m'. MQTTPacket_encode m 1 n = Some (k, m') \<and> k \<le> 4 \<and> length m' = length m"
proof -
  have "length (rem_len_bytes n) \<le> 4"
    using length_rem_len_bytes [of n] assms(1) by linarith
  with MQTTPacket_encode_loop_eq [of 1 0 m n] assms(2) show ?thesis
    by (auto simp: MQTTPacket_encode_def length_overwrite_in)
qed

lemma read_packet_ok:
  assumes e: "reads_bytes e" and size: "length (buf_read c) = unat (buf_size_read c)" "5 \<le> length (buf_read c)"
  shows "\<exists>rc pt c' w'. iotx_mc_read_packet e c t w = Some (rc, pt, c', w') \<and> reads_only c c'"
proof -
  obtain l0 w0 where l0: "timer_left_or_1 e t w = (l0, w0)" by fastforce
  obtain rc b w1 where r1: "read_into e c 0 1 l0 w0 = Some (rc, c\<lparr>buf_read := b\<rparr>, w1)" and b: "length b = length (buf_read c)"
    using read_into_ok [of 0 1 c e l0 w0] size by auto
  define c1 where "c1 = c\<lparr>buf_read := b\<rparr>"
  have c1: "reads_only c c1" using b by (auto simp: reads_only_def c1_def)
  show ?thesis
  proof (cases "rc = 1")
    case False
    with l0 r1 c1 show ?thesis by (auto simp: iotx_mc_read_packet_def c1_def)
  next
    case True
    obtain l1 w2 where l1: "timer_left e t w1 = (l1, w2)" by fastforce
    obtain rc2 n w3 where d: "iotx_mc_decode_packet e l1 w2 = Some (rc2, n, w3)" and n: "n < 268435456"
      using decode_packet_ok [OF e] by blast
    obtain k m where k: "MQTTPacket_encode b 1 n = Some (k, m)" "k \<le> 4" "length m = length b"
      using encode_ok [OF n] size b by metis
    define c2 where "c2 = c\<lparr>buf_read := m\<rparr>"
    have c2: "reads_only c c2" using b k by (auto simp: reads_only_def c2_def)
    have sz: "length (buf_read c2) = unat (buf_size_read c)" "1 + k \<le> unat (buf_size_read c)"
      using size b k by (auto simp: c2_def)
    obtain l2 w4 where l2: "timer_left_or_1 e t w3 = (l2, w4)" by fastforce
    note steps = l0 r1 True l1 d k(1) l2
    show ?thesis
    proof (cases "rc2 < 0")
      case True
      with steps c1 show ?thesis by (auto simp: iotx_mc_read_packet_def c1_def)
    next
      case pos: False
      show ?thesis
      proof (cases "0 < n \<and> n + (1 + k) > unat (buf_size_read c)")
        case True
        define need where "need = unat (buf_size_read c) - (1 + k)"
        have need: "int (unat (buf_size_read c)) - int (1 + k) = int need" "nat (int need mod 2 ^ 32) = need"
          "1 + k + need = length (buf_read c2)"
        proof -
          have "need < 2 ^ 32" using unsigned_less [of "buf_size_read c", where ?'a = nat] by (simp add: need_def)
          then show "nat (int need mod 2 ^ 32) = need" by (simp flip: nat_mod_distrib)
        qed (use sz in \<open>simp_all add: need_def\<close>)
        obtain rc3 b3 w5 where r3: "read_into e c2 (1 + k) need l2 w4 = Some (rc3, c2\<lparr>buf_read := b3\<rparr>, w5)"
            "length b3 = length (buf_read c2)"
          using read_into_ok [of "1 + k" need c2 e l2 w4] need by auto
        have c3: "reads_only c (c2\<lparr>buf_read := b3\<rparr>)"
          using r3 k b by (auto simp: reads_only_def c2_def)
        show ?thesis
          using steps pos True need r3(1) c3
          by (auto simp: iotx_mc_read_packet_def c2_def Let_def split: prod.split)
      next
        case False
        obtain rc3 b3 w5 where r3: "(if 0 < n then let (left, w) = timer_left_or_1 e t w3 in read_into e c2 (1 + k) n left w
              else Some (0, c2, w3)) = Some (rc3, c2\<lparr>buf_read := b3\<rparr>, w5)" "length b3 = length (buf_read c2)"
        proof (cases "0 < n")
          case True
          with False sz have "1 + k + n \<le> length (buf_read c2)" by simp
          from read_into_ok [OF this, of e l2 w4] True l2 that show ?thesis by auto
        next
          case zero: False
          have "c2 = c2\<lparr>buf_read := buf_read c2\<rparr>" by simp
          with zero that [of 0 "buf_read c2" w3] show ?thesis by simp
        qed
        have c3: "reads_only c (c2\<lparr>buf_read := b3\<rparr>)"
          using r3 k b by (auto simp: reads_only_def c2_def)
        have "b3 \<noteq> []" using r3(2) sz by auto
        then have "rd b3 0 = Some (b3 ! 0)" by (simp add: rd_def)
        moreover have "rd m 0 = Some (m ! 0)" using k(3) b size by (simp add: rd_def)
        ultimately show ?thesis using steps pos False r3(1) c3
          by (auto simp: iotx_mc_read_packet_def c2_def Let_def)
      qed
    qed
  qed
qed

section \<open>The subscription table\<close>

text \<open>A C string has no zero byte; entries in use have a filter and a callback.\<close>

definition handle_ok :: "iotx_mc_topic_handle_t \<Rightarrow> bool" where
  "handle_ok h \<longleftrightarrow> (case topic_filter h of None \<Rightarrow> True | Some f \<Rightarrow> 0 \<notin> set f \<and> h_fp h \<noteq> 0)"

lemma check_identical_eq:
  assumes "topic_filter h1 = Some f1" and "topic_filter h2 = Some f2" and "0 \<notin> set f2"
  shows "iotx_mc_check_handle_is_identical h1 h2 = Some (if h1 = h2 then 0 else 1)"
proof -
  have "length f1 = length f2 \<Longrightarrow> strncmp_eq f1 f2 (length f1) = (f1 = f2)"
    by (rule strncmp_eq_same_length [OF _ assms(3)])
  with assms show ?thesis
    by (cases h1; cases h2) (auto simp: iotx_mc_check_handle_is_identical_def)
qed

lemma find_free_handle_new:
  assumes "topic_filter mh = Some f" and "0 \<notin> set f"
  shows "mh \<notin> set hs \<Longrightarrow> find_free_handle mh hs i fr =
     Some (False, if fr \<noteq> None then fr
                  else if \<exists>h \<in> set hs. topic_filter h = None
                  then Some (i + length (takeWhile (\<lambda>h. topic_filter h \<noteq> None) hs)) else None)"
proof (induction hs arbitrary: i fr)
  case (Cons h hs)
  then show ?case
    using check_identical_eq [OF _ assms, of h] by (cases "topic_filter h") auto
qed simp

lemma find_free_handle_dup:
  assumes "topic_filter mh = Some f" and "0 \<notin> set f"
  shows "mh \<in> set hs \<Longrightarrow> \<exists>fr'. find_free_handle mh hs i fr = Some (True, fr')"
proof (induction hs arbitrary: i fr)
  case (Cons h hs)
  then show ?case
    using check_identical_eq [OF _ assms, of h] assms(1) by (cases "topic_filter h"; cases "h = mh") auto
qed simp

lemma first_free:
  "\<exists>h \<in> set hs. topic_filter h = None \<Longrightarrow>
     length (takeWhile (\<lambda>h. topic_filter h \<noteq> None) hs) < length hs \<and>
     topic_filter (hs ! length (takeWhile (\<lambda>h. topic_filter h \<noteq> None) hs)) = None"
  by (induction hs) auto

text \<open>
  What a SUBACK makes of the table: a handler that is there stays there once, a new one takes the
  first free entry.
\<close>

definition table_insert :: "iotx_mc_topic_handle_t \<Rightarrow> iotx_mc_topic_handle_t list \<Rightarrow> iotx_mc_topic_handle_t list" where
  "table_insert mh hs =
     (if mh \<in> set hs then hs
      else hs[length (takeWhile (\<lambda>h. topic_filter h \<noteq> None) hs) := mh])"

lemma recv_SUBACK_eq:
  assumes buf: "buf_read c = [header_byte SUBACK 0 0 0, 3] @ be16 (unat pid) @ [q] @ rest" and q: "q \<noteq> 0x80"
    and mh: "iotx_mc_mask_subInfo_from e c pid (Some null_handle) w = (Some mh, c1, w1)"
      "topic_filter mh = Some f" "0 \<notin> set f" "h_fp mh \<noteq> 0"
  shows "iotx_mc_handle_recv_SUBACK e c w =
     (if mh \<in> set (sub_handle c) \<or> (\<exists>h \<in> set (sub_handle c). topic_filter h = None)
      then Some (SUCCESS_RETURN, c1\<lparr>sub_handle := table_insert mh (sub_handle c)\<rparr>,
             notify_client e c (IOTX_MQTT_EVENT_SUBCRIBE_SUCCESS pid) w1)
      else Some (FAIL_RETURN, c1, w1))"
proof -
  have s: "MQTTDeserialize_suback (stack_u16 e) 1 0 [-1] (buf_read c) = Some (1, pid, 1, [sint q])"
    unfolding buf by (rule MQTTDeserialize_suback_single [OF refl])
  have q': "(word_of_int (sint q) :: u8) = q" by simp
  have c1: "sub_handle c1 = sub_handle c" "event_fp c1 = event_fp c" "event_pcontext c1 = event_pcontext c"
    using mh(1) by (auto simp: iotx_mc_mask_subInfo_from_def split: if_splits prod.splits)
  note base = s mh q q' c1
  show ?thesis
  proof (cases "mh \<in> set (sub_handle c)")
    case True
    then obtain fr where "find_free_handle mh (sub_handle c) 0 None = Some (True, fr)"
      using find_free_handle_dup [OF mh(2,3)] by blast
    with base True show ?thesis
      by (simp add: iotx_mc_handle_recv_SUBACK_def table_insert_def notify_client_def flip: c1(1))
  next
    case False
    from find_free_handle_new [OF mh(2,3) this, of 0 None] base False show ?thesis
      by (auto simp: iotx_mc_handle_recv_SUBACK_def table_insert_def notify_client_def)
  qed
qed

lemma remove_handles_unsub:
  assumes "topic_filter mh = Some g" and "0 \<notin> set g" and "h_fp mh = 0"
  shows "\<forall>h \<in> set hs. handle_ok h \<Longrightarrow> remove_handles (Some mh) hs = Some hs"
proof (induction hs)
  case (Cons h hs)
  then show ?case
    using check_identical_eq [OF _ assms(1,2), of h] assms(3)
    by (cases "topic_filter h") (auto simp: handle_ok_def)
qed simp

lemma MQTTDeserialize_unsuback_eq:
  "MQTTDeserialize_unsuback pid0 ([header_byte UNSUBACK 0 0 0, 2] @ be16 (unat pid) @ rest) = Some (1, pid)"
  using MQTTDeserialize_ack_correct [of "header_byte UNSUBACK 0 0 0" UNSUBACK 0 pid0 pid rest]
  by (simp add: MQTTDeserialize_unsuback_def)

section \<open>Delivery\<close>

definition handle_matches :: "bytes \<Rightarrow> iotx_mc_topic_handle_t \<Rightarrow> bool" where
  "handle_matches name h \<longleftrightarrow> h_fp h \<noteq> 0 \<and>
     (case topic_filter h of None \<Rightarrow> False | Some f \<Rightarrow> f = name \<or> topic_matched_loop f name)"

lemma deliver_loop_eq:
  assumes "cstring topic = None" and "lenstring_len topic = length name" and "0 < length name"
    and "lenstring_data topic = Some (name @ rest)"
  shows "\<forall>h \<in> set hs. handle_ok h \<Longrightarrow> deliver_loop e topic msg hs fl w =
     Some (fl \<or> (\<exists>h \<in> set hs. handle_matches name h),
       fold (\<lambda>h. notify e (h_fp h) (pcontext h) (IOTX_MQTT_EVENT_PUBLISH_RECVEIVED msg))
         (filter (handle_matches name) hs) w)"
proof (induction hs arbitrary: fl w)
  case (Cons h hs)
  show ?case
  proof (cases "topic_filter h")
    case None
    with Cons show ?thesis by (simp add: handle_matches_def)
  next
    case (Some f)
    with Cons.prems have f: "0 \<notin> set f" "h_fp h \<noteq> 0" by (auto simp: handle_ok_def)
    have "mqtt_string_ok topic" using assms by (simp add: mqtt_string_ok_def)
    from MQTTPacket_equals_chars [OF assms(1) _ this f(1)] assms
    have eq: "MQTTPacket_equals topic f = Some (name = f)"
      by (simp add: mqtt_chars_def)
    have m: "iotx_mc_is_topic_matched (Some f) topic = Some (topic_matched_loop f name)"
      using assms by (cases f; cases name) (auto simp: iotx_mc_is_topic_matched_def rd_bytes_def)
    have "handle_matches name h \<longleftrightarrow> f = name \<or> topic_matched_loop f name"
      using Some f by (simp add: handle_matches_def)
    with Cons Some f eq m show ?thesis by auto
  qed
qed simp

lemma deliver_loop_null:
  assumes "cstring topic = None" and "lenstring_data topic = None" and "0 < lenstring_len topic"
  shows "\<exists>h \<in> set hs. \<exists>f. topic_filter h = Some f \<and> f \<noteq> [] \<Longrightarrow> deliver_loop e topic msg hs fl w = None"
proof (induction hs arbitrary: fl w)
  case (Cons h hs)
  have eq: "MQTTPacket_equals topic f = Some False \<or> MQTTPacket_equals topic f = None" for f
    using assms by (simp add: MQTTPacket_equals_def)
  show ?case
  proof (cases "topic_filter h")
    case None
    with Cons show ?thesis by simp
  next
    case (Some f)
    with Cons eq [of f] assms show ?thesis
      by (cases "f = []") (auto simp: iotx_mc_is_topic_matched_def)
  qed
qed simp

section \<open>A concrete platform\<close>

text \<open>
  For examples: the world is the bytes still to be received and the bytes sent so far, the clock
  stands still, a callback leaves its number among the bytes sent.
\<close>

definition demo_env :: "(bytes \<times> bytes) env" where
  "demo_env =
     \<lparr>uptime = (\<lambda>w. (0, w)),
      net_write = (\<lambda>d _ (i, out). (int (length d), (i, out @ d))),
      net_read = (\<lambda>n _ (i, out). (int (length (take n i)), take n i, (drop n i, out))),
      net_connect = (\<lambda>w. (0, w)), net_disconnect = (\<lambda>w. (0, w)),
      malloc_ok = (\<lambda>_ w. (True, w)), hal_random = (\<lambda>_ w. (0, w)), hal_srandom = (\<lambda>_ w. w),
      hal_delay = (\<lambda>_ w. w),
      notify = (\<lambda>fp _ _ (i, out). (i, out @ [of_nat fp])),
      mqtt_pre_auth_process = None, mqtt_post_auth_process = None,
      mqtt_up_process = None, mqtt_down_process = None, device_secret = Some [115], password_memory = None, stack_u16 = 0\<rparr>"

lemma demo_env_simps [simp]:
  "uptime demo_env w = (0, w)" "net_connect demo_env w = (0, w)" "net_disconnect demo_env w = (0, w)"
  "net_write demo_env d l io = (int (length d), (fst io, snd io @ d))"
  "net_read demo_env n l io = (int (length (take n (fst io))), take n (fst io), (drop n (fst io), snd io))"
  "malloc_ok demo_env k w = (True, w)" "hal_random demo_env r w = (0, w)" "hal_delay demo_env ms w = w"
  "notify demo_env fp ctx ev io = (fst io, snd io @ [of_nat fp])"
  "mqtt_pre_auth_process demo_env = None" "mqtt_post_auth_process demo_env = None"
  "mqtt_up_process demo_env = None" "mqtt_down_process demo_env = None" "stack_u16 demo_env = 0"
  by (simp_all add: demo_env_def split: prod.split)

lemma demo_env_full_writes: "full_writes demo_env"
  by (simp add: full_writes_def)

lemma demo_env_reads_bytes: "reads_bytes demo_env"
  by (auto simp: reads_bytes_def)

text \<open>A client in the connected state with small buffers and one subscription, to \<open>a/+\<close>.\<close>

definition demo_handle :: iotx_mc_topic_handle_t where
  "demo_handle = \<lparr>topic_filter = Some [97, ch_slash, ch_plus], h_fp = 7, pcontext = 0\<rparr>"

definition demo_client :: iotx_mc_client_t where
  "demo_client =
     \<lparr>packet_id = 0, request_timeout_ms = 2000, buf_size_send = 16, buf_size_read = 16,
      keepalive_probes = 0, buf_send = replicate 16 0, buf_read = replicate 16 0,
      sub_handle = [demo_handle, null_handle], next_ping_time = \<lparr>time = 1\<rparr>, ping_mark = 0,
      client_state = IOTX_MC_STATE_CONNECTED, reconnect_next_time = \<lparr>time = 0\<rparr>,
      reconnect_time_interval_ms = 1000, connect_data = MQTTPacket_connectData_initializer,
      list_pub_wait_ack = [], list_sub_wait_ack = [], event_fp = 9, event_pcontext = 0, reconnect_open = True\<rparr>"

definition demo_pending :: "u8 \<Rightarrow> nat \<Rightarrow> iotx_mc_subsribe_info_t" where
  "demo_pending ty fp = \<lparr>sub_type = ty, sub_msg_id = 5, sub_start_time = \<lparr>time = 0\<rparr>,
     sub_node_state = IOTX_MC_NODE_STATE_NORMANL,
     sub_handler = \<lparr>topic_filter = Some [97, ch_slash, ch_plus], h_fp = fp, pcontext = 0\<rparr>,
     sub_len = 0, sub_buf = []\<rparr>"

section \<open>Properties\<close>

text \<open>
  Property C38: The packet ids the client uses are never 0 and never more than 65535, and no id
  comes again before 65535 others have been used, also across the wrap.
\<close>

theorem packet_ids_distinct:
  assumes "unat (packet_id c) \<le> 65535" and "i < j" and "j < i + 65535"
  shows "nth_packetid c i \<noteq> nth_packetid c j \<and> 1 \<le> unat (nth_packetid c i) \<and> unat (nth_packetid c i) \<le> 65535"
proof -
  have "(unat (packet_id c) + i) mod 65535 \<noteq> (unat (packet_id c) + j) mod 65535"
  proof
    assume "(unat (packet_id c) + i) mod 65535 = (unat (packet_id c) + j) mod 65535"
    then have "(65535 :: nat) dvd (unat (packet_id c) + j) - (unat (packet_id c) + i)"
      by (metis mod_eq_dvd_iff_nat assms(2) nat_add_left_cancel_le less_imp_le)
    with assms(2,3) show False by (auto dest: dvd_imp_le)
  qed
  with nth_packetid_eq [OF assms(1), of i] nth_packetid_eq [OF assms(1), of j] show ?thesis
    by (auto simp: Suc_leI)
qed

theorem packet_ids_distinct_witness:
  "nth_packetid (demo_client\<lparr>packet_id := 65535\<rparr>) 0 \<noteq> nth_packetid (demo_client\<lparr>packet_id := 65535\<rparr>) 65534"
  using packet_ids_distinct [of "demo_client\<lparr>packet_id := 65535\<rparr>" 0 65534] by simp

text \<open>
  Over a network that takes all it is given or fails, sending a packet is one write
  of exactly its bytes, and the result is success exactly when that write succeeded in time.
\<close>

theorem send_packet_exact:
  assumes "full_writes e" and "0 < n" and "n \<le> length buf"
  shows "iotx_mc_send_packet e buf n t w = Some (send_once e (take n buf) t w)"
  by (rule send_packet_full [OF assms])

theorem send_packet_exact_witness:
  "iotx_mc_send_packet demo_env [1, 2, 3, 4] 3 \<lparr>time = 1000\<rparr> ([], []) = Some (SUCCESS_RETURN, ([], [1, 2, 3]))"
  using send_packet_exact [OF demo_env_full_writes, of 3 "[1, 2, 3, 4]" "\<lparr>time = 1000\<rparr>" "([], [])"]
  by (simp add: send_once_def timer_expired_def timer_left_def utils_time_is_expired_def)

text \<open>
  When the network takes only part of a packet and time is left, the next write is
  given the full length again from the middle of the buffer: for a buffer that holds just the
  packet (as in the list of unacknowledged publishes) it reads past its end.
\<close>

theorem send_packet_partial_overread:
  assumes "timer_expired e t w = (False, w1)" and "timer_left e t w1 = (left, w2)"
    and "net_write e buf left w2 = (int k, w3)" and "0 < k" and "k < length buf"
    and "timer_expired e t w3 = (False, w4)"
  shows "iotx_mc_send_packet e buf (length buf) t w = None"
  by (rule send_packet_partial_eq [OF assms])

theorem send_packet_partial_overread_witness:
  "iotx_mc_send_packet (demo_env\<lparr>net_write := \<lambda>d l w. (1, w)\<rparr>) [1, 2, 3] 3 \<lparr>time = 1000\<rparr> ([], []) = None"
  using send_packet_partial_overread [of "demo_env\<lparr>net_write := \<lambda>d l w. (1, w)\<rparr>" "\<lparr>time = 1000\<rparr>" "([], [])" "([], [])"
      1000 "([], [])" "[1, 2, 3]" 1 "([], [])" "([], [])"]
  by (simp add: timer_expired_def timer_left_def utils_time_is_expired_def iotx_time_left_def numeral_3_eq_3)

text \<open>
  Whatever the network delivers, reading a packet into a read buffer of at least
  five bytes returns, never writes outside the buffer, and changes nothing else of the client.
\<close>

theorem read_packet_safe:
  assumes "reads_bytes e" and "length (buf_read c) = unat (buf_size_read c)" and "5 \<le> length (buf_read c)"
  shows "\<exists>rc pt c' w'. iotx_mc_read_packet e c t w = Some (rc, pt, c', w') \<and>
     c'\<lparr>buf_read := buf_read c\<rparr> = c \<and> length (buf_read c') = length (buf_read c)"
  using read_packet_ok [OF assms] by (fastforce simp: reads_only_def)

theorem read_packet_safe_witness:
  "\<exists>rc pt c' w'. iotx_mc_read_packet demo_env demo_client \<lparr>time = 1000\<rparr> ([0x30, 0xFF, 0xFF, 0x7F, 1], []) = Some (rc, pt, c', w') \<and>
     length (buf_read c') = 16"
  using read_packet_safe [OF demo_env_reads_bytes, of demo_client "\<lparr>time = 1000\<rparr>" "([0x30, 0xFF, 0xFF, 0x7F, 1], [])"]
  by (auto simp: demo_client_def)

text \<open>
  A SUBACK that grants a pending subscription enters its handler into the first free
  entry of the subscription table, or leaves the table alone if the handler is there already.
\<close>

theorem suback_registers:
  assumes "buf_read c = [header_byte SUBACK 0 0 0, 3] @ be16 (unat pid) @ [q] @ rest" and "q \<noteq> 0x80"
    and "iotx_mc_mask_subInfo_from e c pid (Some null_handle) w = (Some mh, c1, w1)"
    and "topic_filter mh = Some f" and "0 \<notin> set f" and "h_fp mh \<noteq> 0"
    and "list_ex (\<lambda>h. topic_filter h = None) (sub_handle c)"
  shows "iotx_mc_handle_recv_SUBACK e c w =
      Some (SUCCESS_RETURN, c1\<lparr>sub_handle := table_insert mh (sub_handle c)\<rparr>,
        notify_client e c (IOTX_MQTT_EVENT_SUBCRIBE_SUCCESS pid) w1) \<and>
     mh \<in> set (table_insert mh (sub_handle c))"
proof -
  have free: "\<exists>h \<in> set (sub_handle c). topic_filter h = None" using assms(7) by (simp add: list_ex_iff)
  then have "mh \<in> set (table_insert mh (sub_handle c))"
    using first_free [OF free] by (auto simp: table_insert_def set_update_memI)
  with recv_SUBACK_eq [OF assms(1-6)] free show ?thesis by simp
qed

theorem suback_registers_witness:
  "let c = demo_client\<lparr>sub_handle := [null_handle], list_sub_wait_ack := [demo_pending SUBSCRIBE 7],
                       buf_read := [header_byte SUBACK 0 0 0, 3] @ be16 (unat (5 :: u16)) @ [1] @ [0, 0]\<rparr>
   in \<exists>c'. iotx_mc_handle_recv_SUBACK demo_env c ([], []) = Some (SUCCESS_RETURN, c', ([], [9])) \<and>
          sub_handle c' = [demo_handle]"
  using suback_registers [of "demo_client\<lparr>sub_handle := [null_handle], list_sub_wait_ack := [demo_pending SUBSCRIBE 7],
        buf_read := [header_byte SUBACK 0 0 0, 3] @ be16 (unat (5 :: u16)) @ [1] @ [0, 0]\<rparr>" 5 1 "[0, 0]" demo_env "([], [])" demo_handle
        "demo_client\<lparr>sub_handle := [null_handle], list_sub_wait_ack := [mask_sub 5 (demo_pending SUBSCRIBE 7)],
        buf_read := [header_byte SUBACK 0 0 0, 3] @ be16 (unat (5 :: u16)) @ [1] @ [0, 0]\<rparr>" "([], [])" "[97, ch_slash, ch_plus]"]
  by (simp add: iotx_mc_mask_subInfo_from_def list_iterator_made_def demo_pending_def demo_handle_def demo_client_def null_handle_def
      table_insert_def notify_client_def)

text \<open>
  An UNSUBACK never removes a handler. The pending entry of an UNSUBSCRIBE has no
  callback, the entries of the table have one, so the comparison always fails and the table stays
  as it was: messages are still delivered after a confirmed unsubscribe.
\<close>

theorem unsuback_keeps_handlers:
  assumes "buf_read c = [header_byte UNSUBACK 0 0 0, 2] @ be16 (unat pid) @ rest"
    and "iotx_mc_mask_subInfo_from e c pid None w = (Some mh, c1, w1)"
    and "topic_filter mh = Some g" and "0 \<notin> set g" and "h_fp mh = 0"
    and "list_all handle_ok (sub_handle c)"
  shows "\<exists>c' w'. iotx_mc_handle_recv_UNSUBACK e c w = Some (SUCCESS_RETURN, c', w') \<and>
     sub_handle c' = sub_handle c"
proof -
  have "sub_handle c1 = sub_handle c" using assms(2) by (auto simp: iotx_mc_mask_subInfo_from_def split: if_splits prod.splits)
  moreover have "remove_handles (Some mh) (sub_handle c) = Some (sub_handle c)"
    using remove_handles_unsub [OF assms(3-5)] assms(6) by (simp add: list_all_iff)
  ultimately show ?thesis
    using assms(1,2) by (simp add: iotx_mc_handle_recv_UNSUBACK_def Let_def MQTTDeserialize_unsuback_eq [simplified])
qed

theorem unsuback_keeps_handlers_witness:
  "let c = demo_client\<lparr>list_sub_wait_ack := [demo_pending UNSUBSCRIBE 0],
                       buf_read := [header_byte UNSUBACK 0 0 0, 2] @ be16 (unat (5 :: u16)) @ [0]\<rparr>
   in \<exists>c' w'. iotx_mc_handle_recv_UNSUBACK demo_env c ([], []) = Some (SUCCESS_RETURN, c', w') \<and>
          sub_handle c' = [demo_handle, null_handle]"
  using unsuback_keeps_handlers [of "demo_client\<lparr>list_sub_wait_ack := [demo_pending UNSUBSCRIBE 0],
        buf_read := [header_byte UNSUBACK 0 0 0, 2] @ be16 (unat (5 :: u16)) @ [0]\<rparr>" 5 "[0]" demo_env "([], [])"
        "sub_handler (demo_pending UNSUBSCRIBE 0)"
        "demo_client\<lparr>list_sub_wait_ack := [mask_sub 5 (demo_pending UNSUBSCRIBE 0)],
        buf_read := [header_byte UNSUBACK 0 0 0, 2] @ be16 (unat (5 :: u16)) @ [0]\<rparr>" "([], [])" "[97, ch_slash, ch_plus]"]
  by (simp add: list_iterator_made_def iotx_mc_mask_subInfo_from_def demo_pending_def demo_handle_def demo_client_def null_handle_def handle_ok_def)

text \<open>
  Property C26: A received message is handed, in table order and once each, to exactly the handlers
  whose filter equals or matches its topic, and to the default handler exactly when there is none.
\<close>

theorem deliver_calls_matching:
  assumes "cstring topic = None" and "lenstring_len topic = length name" and "0 < length name"
    and "lenstring_data topic = Some (name @ rest)" and "list_all handle_ok (sub_handle c)"
  shows "iotx_mc_deliver_message e c topic msg w =
     (let msg = msg\<lparr>ti_ptopic := Some (name @ rest), ti_topic_len := of_nat (length name)\<rparr>;
          called = filter (handle_matches name) (sub_handle c)
      in Some (if called = [] then notify_client e c (IOTX_MQTT_EVENT_PUBLISH_RECVEIVED msg) w
               else fold (\<lambda>h. notify e (h_fp h) (pcontext h) (IOTX_MQTT_EVENT_PUBLISH_RECVEIVED msg)) called w))"
proof -
  have "\<forall>h \<in> set (sub_handle c). handle_ok h" using assms(5) by (simp add: list_all_iff)
  from deliver_loop_eq [OF assms(1-4) this, of e "msg\<lparr>ti_ptopic := Some (name @ rest), ti_topic_len := of_nat (length name)\<rparr>" False w]
  show ?thesis
    unfolding iotx_mc_deliver_message_def Let_def
    using assms(2,4) by (auto simp: filter_empty_conv)
qed

theorem deliver_calls_matching_witness:
  "iotx_mc_deliver_message demo_env demo_client
      \<lparr>cstring = None, lenstring_len = 3, lenstring_data = Some ([97, ch_slash, 98] @ [1])\<rparr>
      (topic_info_of [] publish_out_init) ([], []) = Some ([], [7])"
  using deliver_calls_matching [of "\<lparr>cstring = None, lenstring_len = 3, lenstring_data = Some ([97, ch_slash, 98] @ [1])\<rparr>"
      "[97, ch_slash, 98]" "[1]" demo_client demo_env "topic_info_of [] publish_out_init" "([], [])"]
  by (simp add: demo_client_def demo_handle_def null_handle_def handle_ok_def handle_matches_def numeral_3_eq_3)

text \<open>
  A PUBLISH whose topic is cut off by the remaining length is taken as valid by the
  parser, and its delivery dereferences a null pointer as soon as one subscription exists.
\<close>

theorem truncated_publish_crashes:
  assumes "buf_read c = h # b # be16 n @ rest" and "header_type h = PUBLISH"
    and "2 \<le> unat b" and "unat b < 128" and "n < 65536" and "unat b < n + 2"
    and "list_ex (\<lambda>s. topic_filter s \<noteq> None \<and> topic_filter s \<noteq> Some []) (sub_handle c)"
  shows "iotx_mc_handle_recv_PUBLISH e c w = None"
proof -
  have "\<exists>s \<in> set (sub_handle c). \<exists>f. topic_filter s = Some f \<and> f \<noteq> []"
    using assms(7) by (auto simp: list_ex_iff)
  note null = deliver_loop_null [OF _ _ _ this]
  show ?thesis
    unfolding iotx_mc_handle_recv_PUBLISH_def assms(1)
      MQTTDeserialize_publish_truncated_eq [OF assms(2-6)]
    using assms(3,6)
    by (auto simp: Let_def iotx_mc_deliver_message_def null publish_out_init_def MQTTString_initializer_def
        split: option.split prod.split)
qed

theorem truncated_publish_crashes_witness:
  "iotx_mc_handle_recv_PUBLISH demo_env (demo_client\<lparr>buf_read := [0x30, 2] @ be16 9\<rparr>) ([], []) = None"
  using truncated_publish_crashes [of "demo_client\<lparr>buf_read := [0x30, 2] @ be16 9\<rparr>" "0x30" 2 9 "[]" demo_env "([], [])"]
  by (simp add: header_type_def demo_client_def demo_handle_def null_handle_def)

end
