(* ===== verification/Mqtt_Session.thy ===== *)
theory Mqtt_Session
  imports Mqtt_Client
begin

text \<open>
  The MQTT client of sdk/comm/mqtt/iotx_mqtt_client.c, second part: the public operations,
  connecting and reconnecting, keep-alive, the supervision of the lists of unacknowledged
  packets, and the loop of \<open>IOT_MQTT_Yield\<close>. The conventions are those of Mqtt_Client.
\<close>

section \<open>Subscribe, unsubscribe, publish\<close>

definition iotx_mc_subscribe ::
    "'w env \<Rightarrow> iotx_mc_client_t \<Rightarrow> bytes option \<Rightarrow> nat \<Rightarrow> nat \<Rightarrow> nat \<Rightarrow> 'w \<Rightarrow> 'w mc_result" where
  "iotx_mc_subscribe e c topicFilter qos topic_handle_func ctx w =
     (case topicFilter of
        None \<Rightarrow> Some (NULL_VALUE_ERROR, c, w)
      | Some filt \<Rightarrow>
          if topic_handle_func = 0 then Some (NULL_VALUE_ERROR, c, w)
          else if \<not> iotx_mc_check_state_normal c then Some (MQTT_STATE_ERROR, c, w)
          else if iotx_mc_check_topic (Some filt) TOPIC_FILTER_TYPE \<noteq> 0 then Some (MQTT_TOPIC_FORMAT_ERROR, c, w)
          else do {
            let (msgId, c) = iotx_mc_get_next_packetid c;
            (rc, c, w) \<leftarrow> MQTTSubscribe e c filt qos msgId topic_handle_func ctx w;
            if rc \<noteq> SUCCESS_RETURN
            then Some (rc, (if rc = MQTT_NETWORK_ERROR
                            then iotx_mc_set_client_state c IOTX_MC_STATE_DISCONNECTED else c), w)
            else Some (sint msgId, c, w) })"

text \<open>The packet id is taken before the arguments are checked.\<close>

definition iotx_mc_unsubscribe ::
    "'w env \<Rightarrow> iotx_mc_client_t \<Rightarrow> bytes option \<Rightarrow> 'w \<Rightarrow> 'w mc_result" where
  "iotx_mc_unsubscribe e c topicFilter w =
     (let (msgId, c) = iotx_mc_get_next_packetid c in
      case topicFilter of
        None \<Rightarrow> Some (NULL_VALUE_ERROR, c, w)
      | Some filt \<Rightarrow>
          if iotx_mc_check_topic (Some filt) TOPIC_FILTER_TYPE \<noteq> 0 then Some (MQTT_TOPIC_FORMAT_ERROR, c, w)
          else if \<not> iotx_mc_check_state_normal c then Some (MQTT_STATE_ERROR, c, w)
          else do {
            (rc, c, w) \<leftarrow> MQTTUnsubscribe e c filt msgId w;
            if rc \<noteq> SUCCESS_RETURN
            then Some (rc, (if rc = MQTT_NETWORK_ERROR
                            then iotx_mc_set_client_state c IOTX_MC_STATE_DISCONNECTED else c), w)
            else Some (sint msgId, c, w) })"

text \<open>The caller's \<open>topic_msg\<close> is changed too; the result has it after the call.\<close>

definition iotx_mc_publish ::
    "'w env \<Rightarrow> iotx_mc_client_t \<Rightarrow> bytes option \<Rightarrow> iotx_mqtt_topic_info_t option \<Rightarrow> 'w \<Rightarrow>
       (int \<times> iotx_mc_client_t \<times> iotx_mqtt_topic_info_t option \<times> 'w) option" where
  "iotx_mc_publish e c topic topic_msg w =
     (case (topic, topic_msg) of
        (Some topic, Some msg) \<Rightarrow>
          if iotx_mc_check_topic (Some topic) TOPIC_NAME_TYPE \<noteq> 0
          then Some (MQTT_TOPIC_FORMAT_ERROR, c, Some msg, w)
          else if \<not> iotx_mc_check_state_normal c then Some (MQTT_STATE_ERROR, c, Some msg, w)
          else do {
            let (msg_id, msg, c) =
              (if ti_qos msg = 1 \<or> ti_qos msg = 2
               then let (pid, c) = iotx_mc_get_next_packetid c in
                    (ucast pid, msg\<lparr>ti_packet_id := ucast pid\<rparr>, c)
               else (0 :: u16, msg, c));
            if ti_qos msg = 2 then Some (MQTT_PUBLISH_QOS_ERROR, c, Some msg, w)
            else do {
              let (msg, w) = (case mqtt_up_process e of Some f \<Rightarrow> f topic msg w | None \<Rightarrow> (msg, w));
              (rc, c, w) \<leftarrow> MQTTPublish e c topic msg w;
              if rc \<noteq> SUCCESS_RETURN
              then Some (rc, (if rc = MQTT_NETWORK_ERROR
                              then iotx_mc_set_client_state c IOTX_MC_STATE_DISCONNECTED else c), Some msg, w)
              else Some (int (unat msg_id), c, Some msg, w) } }
      | _ \<Rightarrow> Some (NULL_VALUE_ERROR, c, topic_msg, w))"

section \<open>Supervision of unacknowledged packets\<close>

definition MQTTRePublish :: "'w env \<Rightarrow> iotx_mc_client_t \<Rightarrow> bytes \<Rightarrow> nat \<Rightarrow> 'w \<Rightarrow> (int \<times> 'w) option" where
  "MQTTRePublish e c buf n w = do {
     let (t, w) = timer_arm e (request_timeout_ms c) w;
     (rc, w) \<leftarrow> iotx_mc_send_packet e buf n t w;
     Some (if rc \<noteq> SUCCESS_RETURN then MQTT_NETWORK_ERROR else SUCCESS_RETURN, w) }"

text \<open>
  The visit of one node in \<open>MQTTPubInfoProc\<close> and \<open>MQTTSubInfoProc\<close>, as a body of the sweep of
  Utils_List: the node is marked for removal, kept, or the loop is left. The state of the sweep is
  the client and the world, \<open>None\<close> after a step with no defined result.
\<close>

type_synonym 'w sweep_state = "(iotx_mc_client_t \<times> 'w) option"

definition pub_visit ::
    "'w env \<Rightarrow> 'w sweep_state \<Rightarrow> iotx_mc_pub_info_t \<Rightarrow> iotx_mc_pub_info_t visit \<times> 'w sweep_state" where
  "pub_visit e s i =
     (case s of
        None \<Rightarrow> (Stop i, None)
      | Some (c, w) \<Rightarrow>
          if pub_node_state i = IOTX_MC_NODE_STATE_INVALID then (Mark, Some (c, w))
          else if client_state c \<noteq> IOTX_MC_STATE_CONNECTED then (Keep i, Some (c, w))
          else
            let (now, w) = uptime e w in
            if utils_time_spend now (Some (pub_start_time i)) \<le> request_timeout_ms c * 2 then (Keep i, Some (c, w))
            else
              case MQTTRePublish e c (pub_buf i) (unat (pub_len i)) w of
                None \<Rightarrow> (Stop i, None)
              | Some (rc, w) \<Rightarrow>
                  let (now, w) = uptime e w;
                      i = i\<lparr>pub_start_time := \<lparr>time = now\<rparr>\<rparr> in
                  if rc = MQTT_NETWORK_ERROR
                  then (Stop i, Some (iotx_mc_set_client_state c IOTX_MC_STATE_DISCONNECTED, w))
                  else (Keep i, Some (c, w)))"

definition sub_visit ::
    "'w env \<Rightarrow> 'w sweep_state \<Rightarrow> iotx_mc_subsribe_info_t \<Rightarrow> iotx_mc_subsribe_info_t visit \<times> 'w sweep_state" where
  "sub_visit e s i =
     (case s of
        None \<Rightarrow> (Stop i, None)
      | Some (c, w) \<Rightarrow>
          if sub_node_state i = IOTX_MC_NODE_STATE_INVALID then (Mark, Some (c, w))
          else if client_state c \<noteq> IOTX_MC_STATE_CONNECTED then (Keep i, Some (c, w))
          else
            let (now, w) = uptime e w in
            if utils_time_spend now (Some (sub_start_time i)) \<le> request_timeout_ms c * 2 then (Keep i, Some (c, w))
            else
              (Mark, Some (c, notify_client e c
                 (if sub_type i = SUBSCRIBE then IOTX_MQTT_EVENT_SUBCRIBE_TIMEOUT (sub_msg_id i)
                  else IOTX_MQTT_EVENT_UNSUBCRIBE_TIMEOUT (sub_msg_id i)) w)))"

text \<open>The iterators run from the tail; without memory for one the round does nothing.\<close>

definition MQTTPubInfoProc :: "'w env \<Rightarrow> iotx_mc_client_t \<Rightarrow> 'w \<Rightarrow> 'w mc_result" where
  "MQTTPubInfoProc e c w =
     (if list_pub_wait_ack c = [] then Some (SUCCESS_RETURN, c, w)
      else
        let (ok, w) = list_iterator_made e w in
        if \<not> ok then Some (SUCCESS_RETURN, c, w)
        else case sweep_vals (pub_visit e) (Some (c, w)) (rev (list_pub_wait_ack c)) of
            (is, None) \<Rightarrow> None
          | (is, Some (c, w)) \<Rightarrow> Some (SUCCESS_RETURN, c\<lparr>list_pub_wait_ack := rev is\<rparr>, w))"

definition MQTTSubInfoProc :: "'w env \<Rightarrow> iotx_mc_client_t \<Rightarrow> 'w \<Rightarrow> 'w mc_result" where
  "MQTTSubInfoProc e c w =
     (if list_sub_wait_ack c = [] then Some (SUCCESS_RETURN, c, w)
      else
        let (ok, w) = list_iterator_made e w in
        if \<not> ok then Some (SUCCESS_RETURN, c, w)
        else case sweep_vals (sub_visit e) (Some (c, w)) (rev (list_sub_wait_ack c)) of
            (is, None) \<Rightarrow> None
          | (is, Some (c, w)) \<Rightarrow> Some (SUCCESS_RETURN, c\<lparr>list_sub_wait_ack := rev is\<rparr>, w))"

section \<open>Connecting\<close>

definition iotx_mc_set_connect_params :: "iotx_mc_client_t \<Rightarrow> MQTTPacket_connectData option \<Rightarrow> int \<times> iotx_mc_client_t" where
  "iotx_mc_set_connect_params c pConnectParams =
     (case pConnectParams of
        None \<Rightarrow> (NULL_VALUE_ERROR, c)
      | Some p \<Rightarrow>
          (SUCCESS_RETURN, c\<lparr>connect_data := p\<lparr>keepAliveInterval :=
             (if keepAliveInterval p < KEEP_ALIVE_INTERVAL_DEFAULT_MIN then KEEP_ALIVE_INTERVAL_DEFAULT_MIN
              else if keepAliveInterval p > KEEP_ALIVE_INTERVAL_DEFAULT_MAX then KEEP_ALIVE_INTERVAL_DEFAULT_MAX
              else keepAliveInterval p)\<rparr>\<rparr>))"

text \<open>
  The loop of \<open>iotx_mc_wait_CONNACK\<close>. \<open>n\<close> is \<open>WAIT_CONNACK_MAX\<close> (10) less the packets counted so
  far; \<open>packetType\<close> keeps its value when a packet stores none.
\<close>

fun wait_CONNACK_loop ::
    "'w env \<Rightarrow> iotx_mc_client_t \<Rightarrow> iotx_time_t \<Rightarrow> nat \<Rightarrow> u8 \<Rightarrow> 'w \<Rightarrow> 'w mc_result" where
  "wait_CONNACK_loop e c t n packetType w = do {
     (rc, pt, c, w) \<leftarrow> iotx_mc_read_packet e c t w;
     if rc \<noteq> SUCCESS_RETURN then Some (MQTT_NETWORK_ERROR, c, w)
     else case n of
       0 \<Rightarrow> Some (MQTT_NETWORK_ERROR, c, w)
     | Suc m \<Rightarrow>
         let packetType = (case pt of Some p \<Rightarrow> p | None \<Rightarrow> packetType) in
         if packetType \<noteq> CONNACK then wait_CONNACK_loop e c t m packetType w
         else do {
           rc \<leftarrow> iotx_mc_handle_recv_CONNACK c;
           Some (rc, c, w) } }"

declare wait_CONNACK_loop.simps [simp del]

definition iotx_mc_wait_CONNACK :: "'w env \<Rightarrow> iotx_mc_client_t \<Rightarrow> 'w \<Rightarrow> 'w mc_result" where
  "iotx_mc_wait_CONNACK e c w =
     (let (t, w) = timer_arm e (request_timeout_ms c) w in wait_CONNACK_loop e c t 10 0 w)"

text \<open>\<open>ERROR_CERTIFICATE_EXPIRED\<close> is -1015, \<open>ERROR_CERT_VERIFY_FAIL\<close> is -309.\<close>

definition iotx_mc_connect :: "'w env \<Rightarrow> iotx_mc_client_t \<Rightarrow> 'w \<Rightarrow> 'w mc_result" where
  "iotx_mc_connect e c w = do {
     let (rc, w) = (case mqtt_pre_auth_process e of Some f \<Rightarrow> f w | None \<Rightarrow> (SUCCESS_RETURN, w));
     if rc \<noteq> SUCCESS_RETURN then Some (FAIL_RETURN, c, w)
     else do {
       let (rc, w) = net_connect e w;
       if rc \<noteq> SUCCESS_RETURN
       then
         let (_, w) = net_disconnect e w in
         Some (if rc = -1015 then -309 else MQTT_NETWORK_CONNECT_ERROR, c, w)
       else do {
         (rc, c, w) \<leftarrow> MQTTConnect e c w;
         if rc \<noteq> SUCCESS_RETURN
         then let (_, w) = net_disconnect e w in Some (rc, c, w)
         else do {
           (rc, c, w) \<leftarrow> iotx_mc_wait_CONNACK e c w;
           if rc \<noteq> SUCCESS_RETURN
           then do {
             (_, c, w) \<leftarrow> MQTTDisconnect e c w;
             let (_, w) = net_disconnect e w;
             Some (MQTT_CONNECT_ERROR, c, w) }
           else do {
             let c = iotx_mc_set_client_state c IOTX_MC_STATE_CONNECTED;
             let (rc, w) = (case mqtt_post_auth_process e of Some f \<Rightarrow> f w | None \<Rightarrow> (SUCCESS_RETURN, w));
             if rc \<noteq> SUCCESS_RETURN then Some (FAIL_RETURN, c, w)
             else do {
               let (t, w) = timer_arm e (ucast (keepAliveInterval (connect_data c)) * 1000) w;
               Some (SUCCESS_RETURN, c\<lparr>next_ping_time := t\<rparr>, w) } } } } } }"

definition iotx_mc_attempt_reconnect :: "'w env \<Rightarrow> iotx_mc_client_t \<Rightarrow> 'w \<Rightarrow> 'w mc_result" where
  "iotx_mc_attempt_reconnect e c w = do {
     (rc, c, w) \<leftarrow> iotx_mc_connect e c w;
     Some (if rc \<noteq> SUCCESS_RETURN then rc else SUCCESS_RETURN, c, w) }"

partial_function (option) wait_expired :: "'w env \<Rightarrow> iotx_time_t \<Rightarrow> 'w \<Rightarrow> 'w option" where
  "wait_expired e t w =
     (let (ex, w) = timer_expired e t w in
      if ex then Some w else wait_expired e t (hal_delay e 20 w))"

text \<open>The interval after a failed attempt, and the wait until the next one.\<close>

definition next_interval :: "u32 \<Rightarrow> u32" where
  "next_interval i = (if 60000 > i then i * 2 else 60000)"

definition reconnect_wait :: "u32 \<Rightarrow> u32 \<Rightarrow> u32" where
  "reconnect_wait i r = (if 60000 < i + r then 60000 else i + r)"

definition iotx_mc_handle_reconnect :: "'w env \<Rightarrow> iotx_mc_client_t \<Rightarrow> 'w \<Rightarrow> 'w mc_result" where
  "iotx_mc_handle_reconnect e c w = do {
     w \<leftarrow> wait_expired e (reconnect_next_time c) w;
     (rc, c, w) \<leftarrow> iotx_mc_attempt_reconnect e c w;
     if rc = SUCCESS_RETURN
     then Some (SUCCESS_RETURN, iotx_mc_set_client_state c IOTX_MC_STATE_CONNECTED, w)
     else do {
       let c = c\<lparr>reconnect_time_interval_ms := next_interval (reconnect_time_interval_ms c)\<rparr>;
       let (r, w) = hal_random e (reconnect_time_interval_ms c) w;
       let (t, w) = timer_arm e (reconnect_wait (reconnect_time_interval_ms c) r) w;
       Some (rc, c\<lparr>reconnect_next_time := t\<rparr>, w) } }"

definition iotx_mc_disconnect :: "'w env \<Rightarrow> iotx_mc_client_t \<Rightarrow> 'w \<Rightarrow> 'w mc_result" where
  "iotx_mc_disconnect e c w = do {
     (_, c, w) \<leftarrow> (if iotx_mc_check_state_normal c then MQTTDisconnect e c w else Some (-1, c, w));
     let (_, w) = net_disconnect e w;
     Some (SUCCESS_RETURN, iotx_mc_set_client_state c IOTX_MC_STATE_INITIALIZED, w) }"

definition iotx_mc_disconnect_callback :: "'w env \<Rightarrow> iotx_mc_client_t \<Rightarrow> 'w \<Rightarrow> 'w" where
  "iotx_mc_disconnect_callback e c w = notify_client e c IOTX_MQTT_EVENT_DISCONNECT w"

definition iotx_mc_reconnect_callback :: "'w env \<Rightarrow> iotx_mc_client_t \<Rightarrow> 'w \<Rightarrow> 'w" where
  "iotx_mc_reconnect_callback e c w = notify_client e c IOTX_MQTT_EVENT_RECONNECT w"

text \<open>The client after \<open>iotx_mc_release\<close> no longer exists but for its state field.\<close>

definition iotx_mc_release :: "'w env \<Rightarrow> iotx_mc_client_t \<Rightarrow> 'w \<Rightarrow> 'w mc_result" where
  "iotx_mc_release e c w = do {
     let w = hal_delay e 100 w;
     (_, c, w) \<leftarrow> iotx_mc_disconnect e c w;
     let c = iotx_mc_set_client_state c IOTX_MC_STATE_INVALID;
     let w = hal_delay e 100 w;
     Some (SUCCESS_RETURN, c\<lparr>list_pub_wait_ack := [], list_sub_wait_ack := []\<rparr>, w) }"

section \<open>Keep-alive\<close>

definition iotx_mc_keepalive_sub :: "'w env \<Rightarrow> iotx_mc_client_t \<Rightarrow> 'w \<Rightarrow> 'w mc_result" where
  "iotx_mc_keepalive_sub e c w =
     (if \<not> iotx_mc_check_state_normal c then Some (SUCCESS_RETURN, c, w)
      else
        let (ex, w) = timer_expired e (next_ping_time c) w in
        if \<not> ex then Some (SUCCESS_RETURN, c, w)
        else do {
          let (t, w) = timer_arm e (ucast (keepAliveInterval (connect_data c)) * 1000) w;
          (rc, c, w) \<leftarrow> MQTTKeepalive e (c\<lparr>next_ping_time := t\<rparr>) w;
          if rc \<noteq> SUCCESS_RETURN
          then Some (rc, (if rc = MQTT_NETWORK_ERROR
                          then iotx_mc_set_client_state c IOTX_MC_STATE_DISCONNECTED else c), w)
          else Some (SUCCESS_RETURN, c\<lparr>ping_mark := 1, keepalive_probes := keepalive_probes c + 1\<rparr>, w) })"

definition iotx_mc_keepalive :: "'w env \<Rightarrow> iotx_mc_client_t \<Rightarrow> 'w \<Rightarrow> (iotx_mc_client_t \<times> 'w) option" where
  "iotx_mc_keepalive e c w = do {
     (_, c, w) \<leftarrow> iotx_mc_keepalive_sub e c w;
     if \<not> reconnect_open c then Some (c, w)
     else if client_state c = IOTX_MC_STATE_DISCONNECTED_RECONNECTING then do {
       (rc, c, w) \<leftarrow> iotx_mc_handle_reconnect e (c\<lparr>ping_mark := 0\<rparr>) w;
       if rc \<noteq> SUCCESS_RETURN then Some (c, w)
       else Some (c\<lparr>reconnect_time_interval_ms := 1000\<rparr>, iotx_mc_reconnect_callback e c w) }
     else if client_state c = IOTX_MC_STATE_DISCONNECTED then do {
       let w = iotx_mc_disconnect_callback e c w;
       let (t, w) = timer_arm e 1000 w;
       let c = c\<lparr>reconnect_time_interval_ms := 1000, reconnect_next_time := t\<rparr>;
       let (_, w) = net_disconnect e w;
       Some (iotx_mc_set_client_state c IOTX_MC_STATE_DISCONNECTED_RECONNECTING, w) }
     else Some (c, w) }"

section \<open>Initialisation\<close>

text \<open>
  \<open>iotx_mqtt_param_t\<close>, as far as the client reads it. The four process callbacks are in the
  environment.
\<close>

record iotx_mqtt_param_t =
  prm_host :: "bytes option"
  prm_client_id :: "bytes option"
  prm_username :: "bytes option"
  prm_password :: "bytes option"
  prm_clean_session :: u8
  prm_request_timeout_ms :: u32
  prm_keepalive_interval_ms :: u32
  prm_pwrite_buf :: "bytes option"
  prm_write_buf_size :: u32
  prm_pread_buf :: "bytes option"
  prm_read_buf_size :: u32
  prm_event_fp :: nat
  prm_event_pcontext :: nat
  prm_reconnect_open :: bool

text \<open>
  \<open>iotx_mc_calc_seed\<close> for the device secret and the uptime in milliseconds. \<open>char\<close> is signed, the
  sum wraps; \<open>seed %= UINT32_MAX\<close>.
\<close>

definition iotx_mc_calc_seed :: "bytes \<Rightarrow> u32 \<Rightarrow> u32" where
  "iotx_mc_calc_seed secret now =
     (let seed = fold (\<lambda>b s. s + (scast b :: u32)) secret 0 + now div 1000
      in seed mod 0xFFFFFFFF)"

definition str_set :: "bytes option \<Rightarrow> bool" where
  "str_set s \<longleftrightarrow> (case s of None \<Rightarrow> False | Some b \<Rightarrow> b \<noteq> [])"

definition iotx_mc_calc_random_init :: "'w env \<Rightarrow> 'w \<Rightarrow> int \<times> 'w" where
  "iotx_mc_calc_random_init e w =
     (if \<not> str_set (device_secret e) then (FAIL_RETURN, w)
      else let (now, w) = uptime e w in
           (SUCCESS_RETURN, hal_srandom e (iotx_mc_calc_seed (the (device_secret e)) now) w))"

definition request_timeout_of :: "u32 \<Rightarrow> u32" where
  "request_timeout_of ms = (if ms < 500 \<or> ms > 5000 then 2000 else ms)"

definition init_connect_data :: "iotx_mqtt_param_t \<Rightarrow> MQTTPacket_connectData" where
  "init_connect_data p =
     MQTTPacket_connectData_initializer
       \<lparr>MQTTVersion := 4, keepAliveInterval := ucast (prm_keepalive_interval_ms p div 1000),
        clientID := MQTTString_initializer\<lparr>cstring := prm_client_id p\<rparr>,
        username := MQTTString_initializer\<lparr>cstring := prm_username p\<rparr>,
        password := MQTTString_initializer\<lparr>cstring := prm_password p\<rparr>,
        cleansession := prm_clean_session p\<rparr>"

text \<open>
  \<open>iotx_mc_init\<close>. The locks, the two queues and the network structure are allocations that may fail. The
  code checks the first three locks and the structure, but not the queues and not the lock of the write buffer: a
  failed \<open>list_new\<close> leaves a \<open>NULL\<close> queue in a client that is returned as initialised, and whose next
  supervision reads through it. No client of the model has such a queue, so the result is then \<open>None\<close>; if a
  later step fails, the result is that failure. \<open>iotx_net_init\<close> fails only without a host, which the
  caller has checked.
\<close>

definition iotx_mc_init ::
    "'w env \<Rightarrow> iotx_mqtt_param_t \<Rightarrow> bytes \<Rightarrow> bytes \<Rightarrow> 'w \<Rightarrow> (int \<times> iotx_mc_client_t \<times> 'w) option" where
  "iotx_mc_init e p write_buf read_buf w =
     (let c = \<lparr>packet_id = 0, request_timeout_ms = request_timeout_of (prm_request_timeout_ms p),
               buf_size_send = prm_write_buf_size p, buf_size_read = prm_read_buf_size p,
               keepalive_probes = 0, buf_send = write_buf, buf_read = read_buf,
               sub_handle = replicate IOTX_MC_SUB_NUM_MAX null_handle,
               next_ping_time = \<lparr>time = 0\<rparr>, ping_mark = 0, client_state = IOTX_MC_STATE_INVALID,
               reconnect_next_time = \<lparr>time = 0\<rparr>, reconnect_time_interval_ms = 1000,
               connect_data = MQTTPacket_connectData_initializer,
               list_pub_wait_ack = [], list_sub_wait_ack = [],
               event_fp = prm_event_fp p, event_pcontext = prm_event_pcontext p,
               reconnect_open = prm_reconnect_open p\<rparr>;
          (ok, w) = malloc_ok e 0 w in
      if \<not> ok then Some (FAIL_RETURN, c, w) else
      let (ok, w) = malloc_ok e 0 w in
      if \<not> ok then Some (FAIL_RETURN, c, w) else
      let (ok, w) = malloc_ok e 0 w in
      if \<not> ok then Some (FAIL_RETURN, c, w) else
      let (pub_list, w) = malloc_ok e 0 w; (sub_list, w) = malloc_ok e 0 w; (_, w) = malloc_ok e 0 w;
          (rc, c) = iotx_mc_set_connect_params c (Some (init_connect_data p)) in
      if rc \<noteq> SUCCESS_RETURN then Some (rc, iotx_mc_set_client_state c IOTX_MC_STATE_INVALID, w) else
      let (ok, w) = malloc_ok e 0 w in
      if \<not> ok then Some (FAIL_RETURN, iotx_mc_set_client_state c IOTX_MC_STATE_INVALID, w) else
      let (rc, w) = iotx_mc_calc_random_init e w in
      if rc \<noteq> SUCCESS_RETURN then Some (FAIL_RETURN, iotx_mc_set_client_state c IOTX_MC_STATE_INVALID, w)
      else if \<not> pub_list \<or> \<not> sub_list then None
      else Some (SUCCESS_RETURN, iotx_mc_set_client_state c IOTX_MC_STATE_INITIALIZED, w))"

section \<open>The public interface\<close>

text \<open>\<open>None\<close> as the resulting client is the \<open>NULL\<close> handle.\<close>

definition IOT_MQTT_Construct ::
    "'w env \<Rightarrow> iotx_mqtt_param_t option \<Rightarrow> 'w \<Rightarrow> (iotx_mc_client_t option \<times> 'w) option" where
  "IOT_MQTT_Construct e pInitParams w =
     (case pInitParams of
        None \<Rightarrow> Some (None, w)
      | Some p \<Rightarrow>
          (case (prm_pwrite_buf p, prm_pread_buf p) of
             (Some wb, Some rb) \<Rightarrow>
               if \<not> str_set (prm_host p) \<or> \<not> str_set (prm_client_id p) \<or>
                  \<not> str_set (prm_username p) \<or> \<not> str_set (prm_password p) then Some (None, w)
               else do {
                 let (ok, w) = malloc_ok e 0 w;
                 if \<not> ok then Some (None, w)
                 else do {
                   (rc, c, w) \<leftarrow> iotx_mc_init e p wb rb w;
                   if rc \<noteq> SUCCESS_RETURN then Some (None, w)
                   else do {
                     (rc, c, w) \<leftarrow> iotx_mc_connect e c w;
                     if rc \<noteq> SUCCESS_RETURN
                     then do { (_, c, w) \<leftarrow> iotx_mc_release e c w; Some (None, w) }
                     else Some (Some c, w) } } }
           | _ \<Rightarrow> Some (None, w)))"

definition IOT_MQTT_Destroy :: "'w env \<Rightarrow> iotx_mc_client_t option \<Rightarrow> 'w \<Rightarrow> (int \<times> iotx_mc_client_t option \<times> 'w) option" where
  "IOT_MQTT_Destroy e handle w =
     (case handle of
        None \<Rightarrow> Some (NULL_VALUE_ERROR, None, w)
      | Some c \<Rightarrow> do { (_, c, w) \<leftarrow> iotx_mc_release e c w; Some (SUCCESS_RETURN, None, w) })"

text \<open>The body of the loop of \<open>IOT_MQTT_Yield\<close>; \<open>rc\<close> is the result of the previous round.\<close>

definition yield_round :: "'w env \<Rightarrow> iotx_time_t \<Rightarrow> int \<Rightarrow> iotx_mc_client_t \<Rightarrow> 'w \<Rightarrow> 'w mc_result" where
  "yield_round e t rc c w = do {
     let w = (if rc \<noteq> SUCCESS_RETURN
              then let (left_t, w) = timer_left e t w in hal_delay e (if left_t < 20 then left_t else 20) w
              else w);
     (c, w) \<leftarrow> iotx_mc_keepalive e c w;
     (rc, c, w) \<leftarrow> iotx_mc_cycle e c t w;
     if rc = SUCCESS_RETURN then do {
       (_, c, w) \<leftarrow> MQTTPubInfoProc e c w;
       (_, c, w) \<leftarrow> MQTTSubInfoProc e c w;
       Some (rc, c, w) }
     else Some (rc, c, w) }"

partial_function (option) yield_loop ::
    "'w env \<Rightarrow> iotx_time_t \<Rightarrow> int \<Rightarrow> iotx_mc_client_t \<Rightarrow> 'w \<Rightarrow> (iotx_mc_client_t \<times> 'w) option" where
  "yield_loop e t rc c w =
     (case yield_round e t rc c w of
        None \<Rightarrow> None
      | Some (rc, c, w) \<Rightarrow>
          let (ex, w) = timer_expired e t w in
          if ex then Some (c, w) else yield_loop e t rc c w)"

definition IOT_MQTT_Yield :: "'w env \<Rightarrow> iotx_mc_client_t option \<Rightarrow> int \<Rightarrow> 'w \<Rightarrow> (int \<times> iotx_mc_client_t option \<times> 'w) option" where
  "IOT_MQTT_Yield e handle timeout_ms w =
     (case handle of
        None \<Rightarrow> Some (NULL_VALUE_ERROR, None, w)
      | Some c \<Rightarrow>
          if timeout_ms < 0 then Some (-1, Some c, w)
          else do {
            let (t, w) = timer_arm e (of_int (if timeout_ms = 0 then 10 else timeout_ms)) w;
            (c, w) \<leftarrow> yield_loop e t SUCCESS_RETURN c w;
            Some (0, Some c, w) })"

definition IOT_MQTT_CheckStateNormal :: "iotx_mc_client_t option \<Rightarrow> int" where
  "IOT_MQTT_CheckStateNormal handle =
     (case handle of None \<Rightarrow> NULL_VALUE_ERROR | Some c \<Rightarrow> if iotx_mc_check_state_normal c then 1 else 0)"

definition IOT_MQTT_Subscribe ::
    "'w env \<Rightarrow> iotx_mc_client_t option \<Rightarrow> bytes option \<Rightarrow> nat \<Rightarrow> nat \<Rightarrow> nat \<Rightarrow> 'w \<Rightarrow>
       (int \<times> iotx_mc_client_t option \<times> 'w) option" where
  "IOT_MQTT_Subscribe e handle filt qos topic_handle_func ctx w =
     (case handle of
        None \<Rightarrow> Some (NULL_VALUE_ERROR, None, w)
      | Some c \<Rightarrow>
          if topic_handle_func = 0 \<or> \<not> str_set filt then Some (NULL_VALUE_ERROR, Some c, w)
          else do {
            (rc, c, w) \<leftarrow> iotx_mc_subscribe e c filt (if qos > 2 then 0 else qos) topic_handle_func ctx w;
            Some (rc, Some c, w) })"

definition IOT_MQTT_Unsubscribe ::
    "'w env \<Rightarrow> iotx_mc_client_t option \<Rightarrow> bytes option \<Rightarrow> 'w \<Rightarrow> (int \<times> iotx_mc_client_t option \<times> 'w) option" where
  "IOT_MQTT_Unsubscribe e handle filt w =
     (case handle of
        None \<Rightarrow> Some (NULL_VALUE_ERROR, None, w)
      | Some c \<Rightarrow>
          if \<not> str_set filt then Some (NULL_VALUE_ERROR, Some c, w)
          else do {
            (rc, c, w) \<leftarrow> iotx_mc_unsubscribe e c filt w;
            Some (rc, Some c, w) })"

definition IOT_MQTT_Publish ::
    "'w env \<Rightarrow> iotx_mc_client_t option \<Rightarrow> bytes option \<Rightarrow> iotx_mqtt_topic_info_t option \<Rightarrow> 'w \<Rightarrow>
       (int \<times> iotx_mc_client_t option \<times> iotx_mqtt_topic_info_t option \<times> 'w) option" where
  "IOT_MQTT_Publish e handle topic msg w =
     (case handle of
        None \<Rightarrow> Some (NULL_VALUE_ERROR, None, msg, w)
      | Some c \<Rightarrow>
          if \<not> str_set topic then Some (NULL_VALUE_ERROR, Some c, msg, w)
          else do {
            (rc, c, msg, w) \<leftarrow> iotx_mc_publish e c topic msg w;
            Some (rc, Some c, msg, w) })"

section \<open>The invariant of the client\<close>

definition cstring_ok :: "bytes option \<Rightarrow> bool" where
  "cstring_ok s \<longleftrightarrow> (case s of None \<Rightarrow> True | Some f \<Rightarrow> 0 \<notin> set f)"

definition pending_ok :: "iotx_mc_subsribe_info_t \<Rightarrow> bool" where
  "pending_ok i \<longleftrightarrow> cstring_ok (topic_filter (sub_handler i))"

definition pub_ok :: "iotx_mc_pub_info_t \<Rightarrow> bool" where
  "pub_ok i \<longleftrightarrow> unat (pub_len i) = length (pub_buf i)"

text \<open>
  The buffers have the size the client believes, the table has 30 entries that are free or have a
  callback, the two lists respect their bounds and hold whole packets, and the packet id, the
  keep-alive interval and the reconnect interval are in their ranges.
\<close>

definition mc_inv :: "iotx_mc_client_t \<Rightarrow> bool" where
  "mc_inv c \<longleftrightarrow>
     length (buf_send c) = unat (buf_size_send c) \<and> length (buf_read c) = unat (buf_size_read c) \<and>
     length (sub_handle c) = IOTX_MC_SUB_NUM_MAX \<and> list_all handle_ok (sub_handle c) \<and>
     length (list_pub_wait_ack c) \<le> IOTX_MC_REPUB_NUM_MAX \<and> list_all pub_ok (list_pub_wait_ack c) \<and>
     length (list_sub_wait_ack c) \<le> IOTX_MC_SUB_REQUEST_NUM_MAX \<and> list_all pending_ok (list_sub_wait_ack c) \<and>
     unat (packet_id c) \<le> 65535 \<and>
     60 \<le> keepAliveInterval (connect_data c) \<and> keepAliveInterval (connect_data c) \<le> 180 \<and>
     1000 \<le> reconnect_time_interval_ms c \<and> reconnect_time_interval_ms c < 120000"

text \<open>A result whose client, if there is one, satisfies the invariant.\<close>

definition inv_r :: "'w mc_result \<Rightarrow> bool" where
  "inv_r r \<longleftrightarrow> (case r of None \<Rightarrow> True | Some (rc, c, w) \<Rightarrow> mc_inv c)"

named_theorems inv_intro "operations that keep the invariant"

lemma inv_r_None [inv_intro]: "inv_r None"
  by (simp add: inv_r_def)

lemma inv_r_Some [inv_intro]: "mc_inv c \<Longrightarrow> inv_r (Some (rc, c, w))"
  by (simp add: inv_r_def)

lemma inv_r_if [inv_intro]: "(P \<Longrightarrow> inv_r a) \<Longrightarrow> (\<not> P \<Longrightarrow> inv_r b) \<Longrightarrow> inv_r (if P then a else b)"
  by simp

lemma inv_r_bind [inv_intro]:
  "inv_r x \<Longrightarrow> (\<And>rc c w. mc_inv c \<Longrightarrow> inv_r (k rc c w)) \<Longrightarrow> inv_r (x \<bind> (\<lambda>(rc, c, w). k rc c w))"
  by (cases x) (auto simp: inv_r_def)

lemma inv_r_bind_env [inv_intro]:
  "(\<And>y. x = Some y \<Longrightarrow> inv_r (k y)) \<Longrightarrow> inv_r (x \<bind> k)"
  by (cases x) (auto simp: inv_r_def)

lemma inv_set_state [inv_intro]: "mc_inv c \<Longrightarrow> mc_inv (iotx_mc_set_client_state c s)"
  by (simp add: mc_inv_def iotx_mc_set_client_state_def)

lemma inv_packetid: "mc_inv c \<Longrightarrow> iotx_mc_get_next_packetid c = (pid, c') \<Longrightarrow> mc_inv c'"
proof -
  assume c: "mc_inv c" and g: "iotx_mc_get_next_packetid c = (pid, c')"
  have "unat (packet_id c') \<le> 65535"
    using next_packetid_step [of c] c g by (auto simp: mc_inv_def Suc_leI)
  moreover obtain x where "c' = c\<lparr>packet_id := x\<rparr>"
    using g by (auto simp: iotx_mc_get_next_packetid_def Let_def)
  ultimately show "mc_inv c'" using c by (simp add: mc_inv_def)
qed

lemma inv_sends_only: "mc_inv c \<Longrightarrow> sends_only c r \<Longrightarrow> inv_r r"
  by (auto simp: sends_only_def inv_r_def mc_inv_def split: option.splits)

lemma inv_reads_only: "mc_inv c \<Longrightarrow> reads_only c c' \<Longrightarrow> mc_inv c'"
  by (auto simp: reads_only_def mc_inv_def)

lemma encode_loop_length: "MQTTPacket_encode_loop m p n k = Some (j, m') \<Longrightarrow> length m' = length m"
proof (induction m p n k arbitrary: j m' rule: MQTTPacket_encode_loop.induct)
  case (1 m p n rc)
  define d where "d = (if 0 < n div 128 then of_nat (n mod 128) OR 0x80 else of_nat (n mod 128) :: u8)"
  from "1.prems" obtain m1 where m1: "wr m (p + rc) d = Some m1"
    by (subst (asm) MQTTPacket_encode_loop.simps) (auto simp: Let_def d_def split: option.splits)
  show ?case
  proof (cases "0 < n div 128")
    case True
    with "1.prems" m1 have "MQTTPacket_encode_loop m1 p (n div 128) (rc + 1) = Some (j, m')"
      by (subst (asm) MQTTPacket_encode_loop.simps) (simp add: Let_def d_def)
    with "1.IH" [OF refl refl refl _ True] m1 True have "length m' = length m1"
      by (simp add: d_def)
    with wr_length [OF m1] show ?thesis by simp
  next
    case False
    with "1.prems" m1 wr_length [OF m1] show ?thesis
      by (subst (asm) MQTTPacket_encode_loop.simps) (simp add: Let_def d_def)
  qed
qed

definition read_r :: "iotx_mc_client_t \<Rightarrow> (int \<times> u8 option \<times> iotx_mc_client_t \<times> 'w) option \<Rightarrow> bool" where
  "read_r c r \<longleftrightarrow> (case r of None \<Rightarrow> True | Some (rc, pt, c', w) \<Rightarrow> reads_only c c')"

named_theorems read_intro "steps that change only the read buffer"

lemma read_r_if [read_intro]: "read_r c a \<Longrightarrow> read_r c b \<Longrightarrow> read_r c (if P then a else b)"
  by simp

lemma read_r_Some [read_intro]: "reads_only c c' \<Longrightarrow> read_r c (Some (rc, pt, c', w))"
  by (simp add: read_r_def)

lemma read_r_prod [read_intro]: "(\<And>a b. p = (a, b) \<Longrightarrow> read_r c (f a b)) \<Longrightarrow> read_r c (case p of (a, b) \<Rightarrow> f a b)"
  by (cases p) simp

lemma read_into_reads:
  "reads_only c c1 \<Longrightarrow> read_into e c1 off n timeout w = Some (rc, c2, w') \<Longrightarrow> reads_only c c2"
  by (auto simp: reads_only_def dest!: read_into_frame)

lemma read_r_bind_read [read_intro]:
  "reads_only c c1 \<Longrightarrow> (\<And>rc c2 w. reads_only c c2 \<Longrightarrow> read_r c (k rc c2 w)) \<Longrightarrow>
     read_r c (read_into e c1 off n timeout w \<bind> (\<lambda>(rc, c2, w). k rc c2 w))"
  by (cases "read_into e c1 off n timeout w") (auto simp: read_r_def dest: read_into_reads)

lemma encode_reads:
  "reads_only c c1 \<Longrightarrow> MQTTPacket_encode (buf_read c1) p j = Some (n, b) \<Longrightarrow> reads_only c (c1\<lparr>buf_read := b\<rparr>)"
  by (auto simp: reads_only_def MQTTPacket_encode_def dest!: encode_loop_length)

lemma read_r_bind_encode [read_intro]:
  "reads_only c c1 \<Longrightarrow> (\<And>n b. reads_only c (c1\<lparr>buf_read := b\<rparr>) \<Longrightarrow> read_r c (k n b)) \<Longrightarrow>
     read_r c (MQTTPacket_encode (buf_read c1) p j \<bind> (\<lambda>(n, b). k n b))"
  by (cases "MQTTPacket_encode (buf_read c1) p j")
     (auto simp: read_r_def dest: encode_reads)

lemma read_r_bind_last [read_intro]:
  "reads_only c c1 \<Longrightarrow> (\<And>rc c2 w. reads_only c c2 \<Longrightarrow> read_r c (k rc c2 w)) \<Longrightarrow>
     read_r c ((if P then case q of (left, w) \<Rightarrow> read_into e c1 off n left w else Some (z, c1, w0)) \<bind>
       (\<lambda>(rc, c2, w). k rc c2 w))"
  by (cases P; cases q) (auto intro: read_r_bind_read)

lemma read_r_bind_env [read_intro]: "(\<And>y. read_r c (k y)) \<Longrightarrow> read_r c (x \<bind> k)"
  by (cases x) (auto simp: read_r_def)

lemma read_packet_frame: "iotx_mc_read_packet e c t w = Some (rc, pt, c', w') \<Longrightarrow> reads_only c c'"
proof -
  have "read_r c (iotx_mc_read_packet e c t w)"
    unfolding iotx_mc_read_packet_def Let_def
    by (intro read_intro reads_only_refl)
  moreover assume "iotx_mc_read_packet e c t w = Some (rc, pt, c', w')"
  ultimately show ?thesis by (simp add: read_r_def)
qed

section \<open>Every operation keeps the invariant\<close>

lemma inv_prod [inv_intro]: "(\<And>a b. p = (a, b) \<Longrightarrow> inv_r (f a b)) \<Longrightarrow> inv_r (case p of (a, b) \<Rightarrow> f a b)"
  by (cases p) simp

lemma inv_option [inv_intro]:
  "(x = None \<Longrightarrow> inv_r a) \<Longrightarrow> (\<And>y. x = Some y \<Longrightarrow> inv_r (f y)) \<Longrightarrow> inv_r (case x of None \<Rightarrow> a | Some y \<Rightarrow> f y)"
  by (cases x) simp_all

lemma inv_Keepalive [inv_intro]: "mc_inv c \<Longrightarrow> inv_r (MQTTKeepalive e c w)"
  by (rule inv_sends_only [OF _ MQTTKeepalive_frame])

lemma inv_Connect [inv_intro]: "mc_inv c \<Longrightarrow> inv_r (MQTTConnect e c w)"
  by (rule inv_sends_only [OF _ MQTTConnect_frame])

lemma inv_Puback [inv_intro]: "mc_inv c \<Longrightarrow> inv_r (MQTTPuback e c pid ty w)"
  by (rule inv_sends_only [OF _ MQTTPuback_frame])

lemma inv_Disconnect [inv_intro]: "mc_inv c \<Longrightarrow> inv_r (MQTTDisconnect e c w)"
  by (rule inv_sends_only [OF _ MQTTDisconnect_frame])

lemma inv_buf: "mc_inv c \<Longrightarrow> sized (buf_send c) ser \<Longrightarrow> ser = Some (n, b) \<Longrightarrow> mc_inv (c\<lparr>buf_send := b\<rparr>)"
  by (auto simp: sized_def mc_inv_def)

lemma inv_push_pub [inv_intro]:
  assumes c: "mc_inv c"
  shows "inv_r (iotx_mc_push_pubInfo_to e c n pid w)"
proof -
  have "mc_inv (c\<lparr>list_pub_wait_ack := list_pub_wait_ack c @
      [\<lparr>pub_start_time = t, pub_node_state = s, pub_msg_id = pid, pub_len = of_nat n, pub_buf = p\<rparr>]\<rparr>)"
    if "\<not> IOTX_MC_REPUB_NUM_MAX \<le> length (list_pub_wait_ack c)" "\<not> unat (buf_size_send c) < n"
      "rd_bytes (buf_send c) 0 n = Some p" for t s p
  proof -
    have "n < 2 ^ 32"
      using that(2) unsigned_less [of "buf_size_send c", where ?'a = nat] by simp
    then have "unat (of_nat n :: u32) = n" by (simp add: unat_of_nat)
    with that rd_bytes_length [OF that(3)] c show ?thesis by (simp add: mc_inv_def pub_ok_def)
  qed
  then show ?thesis
    unfolding iotx_mc_push_pubInfo_to_def Let_def by (intro inv_intro c) auto
qed

lemma inv_push_sub [inv_intro]:
  assumes c: "mc_inv c" and h: "cstring_ok (topic_filter h)"
  shows "inv_r (iotx_mc_push_subInfo_to e c n pid ty h w)"
proof -
  have "mc_inv (c\<lparr>list_sub_wait_ack := list_sub_wait_ack c @
      [\<lparr>sub_type = ty, sub_msg_id = pid, sub_start_time = t, sub_node_state = s, sub_handler = h,
        sub_len = of_nat n, sub_buf = p\<rparr>]\<rparr>)"
    if "\<not> IOTX_MC_SUB_REQUEST_NUM_MAX \<le> length (list_sub_wait_ack c)" for t s p
    using that c h by (simp add: mc_inv_def pending_ok_def)
  then show ?thesis
    unfolding iotx_mc_push_subInfo_to_def Let_def by (intro inv_intro c) auto
qed

lemma inv_drop_pub [inv_intro]: "mc_inv c \<Longrightarrow> mc_inv (c\<lparr>list_pub_wait_ack := butlast (list_pub_wait_ack c)\<rparr>)"
  by (auto simp: mc_inv_def list_all_iff dest: in_set_butlastD)

lemma inv_drop_sub [inv_intro]: "mc_inv c \<Longrightarrow> mc_inv (c\<lparr>list_sub_wait_ack := butlast (list_sub_wait_ack c)\<rparr>)"
  by (auto simp: mc_inv_def list_all_iff dest: in_set_butlastD)

lemma inv_if [inv_intro]: "mc_inv a \<Longrightarrow> mc_inv b \<Longrightarrow> mc_inv (if P then a else b)"
  by simp

lemma inv_Publish [inv_intro]:
  assumes c: "mc_inv c"
  shows "inv_r (MQTTPublish e c topic msg w)"
  unfolding MQTTPublish_def Let_def
  by (intro inv_intro c) (auto intro: inv_buf [OF c sized_publish])

lemma inv_Subscribe [inv_intro]:
  assumes c: "mc_inv c" and f: "0 \<notin> set filt"
  shows "inv_r (MQTTSubscribe e c filt qos pid fp ctx w)"
proof -
  have "cstring_ok (topic_filter \<lparr>topic_filter = Some filt, h_fp = fp, pcontext = ctx\<rparr>)"
    using f by (simp add: cstring_ok_def)
  with c show ?thesis
    unfolding MQTTSubscribe_def Let_def
    by (intro inv_intro) (auto intro: inv_buf [OF c sized_subscribe])
qed

lemma inv_Unsubscribe [inv_intro]:
  assumes c: "mc_inv c" and f: "0 \<notin> set filt"
  shows "inv_r (MQTTUnsubscribe e c filt pid w)"
proof -
  have "cstring_ok (topic_filter \<lparr>topic_filter = Some filt, h_fp = 0, pcontext = 0\<rparr>)"
    using f by (simp add: cstring_ok_def)
  with c show ?thesis
    unfolding MQTTUnsubscribe_def Let_def
    by (intro inv_intro) (auto intro: inv_buf [OF c sized_unsubscribe])
qed

lemma inv_mask_pub: "mc_inv c \<Longrightarrow> iotx_mc_mask_pubInfo_from e c pid w = (c', w') \<Longrightarrow> mc_inv c'"
  by (auto simp: mc_inv_def iotx_mc_mask_pubInfo_from_def mask_pub_def pub_ok_def list_all_iff split: if_splits prod.splits)

lemma inv_mask_sub: "mc_inv c \<Longrightarrow> iotx_mc_mask_subInfo_from e c pid h w = (mh, c', w') \<Longrightarrow> mc_inv c'"
  by (auto simp: mc_inv_def iotx_mc_mask_subInfo_from_def mask_sub_def pending_ok_def list_all_iff split: if_splits prod.splits)

lemma last_handler_pred:
  "last_handler pid h is = Some g \<Longrightarrow> (\<And>g. h = Some g \<Longrightarrow> P g) \<Longrightarrow> (\<And>g i. (g, i) \<in> set is \<Longrightarrow> P g) \<Longrightarrow> P g"
  by (induction pid h "is" rule: last_handler.induct) (auto split: if_splits)

lemma mask_sub_handler_ok:
  assumes "mc_inv c" and "iotx_mc_mask_subInfo_from e c pid (Some null_handle) w = (Some mh, c', w')"
  shows "cstring_ok (topic_filter mh)"
proof -
  have null: "cstring_ok (topic_filter null_handle)" by (simp add: null_handle_def cstring_ok_def)
  have "mh = null_handle \<or>
      last_handler pid (Some null_handle) (map (\<lambda>i. (sub_handler i, sub_msg_id i)) (rev (list_sub_wait_ack c))) = Some mh"
    using assms(2) by (auto simp: iotx_mc_mask_subInfo_from_def split: if_splits prod.splits)
  moreover have "cstring_ok (topic_filter mh)"
    if "last_handler pid (Some null_handle) (map (\<lambda>i. (sub_handler i, sub_msg_id i)) (rev (list_sub_wait_ack c))) = Some mh"
    by (rule last_handler_pred [OF that])
       (use assms(1) null in \<open>auto simp: mc_inv_def list_all_iff pending_ok_def\<close>)
  ultimately show ?thesis using null by auto
qed

lemma inv_set_handle:
  "mc_inv c \<Longrightarrow> handle_ok h \<Longrightarrow> mc_inv (c\<lparr>sub_handle := (sub_handle c)[i := h]\<rparr>)"
  by (auto simp: mc_inv_def list_all_iff dest!: set_update_subset_insert [THEN subsetD])

lemma remove_handles_ok:
  "remove_handles mh hs = Some hs' \<Longrightarrow> length hs' = length hs \<and> (list_all handle_ok hs \<longrightarrow> list_all handle_ok hs')"
proof (induction hs arbitrary: hs')
  case (Cons h hs)
  have "handle_ok null_handle" by (simp add: handle_ok_def null_handle_def)
  with Cons show ?case by (fastforce simp: bind_eq_Some_conv split: if_splits)
qed simp

lemma inv_recv_PUBACK [inv_intro]:
  assumes c: "mc_inv c" shows "inv_r (iotx_mc_handle_recv_PUBACK e c w)"
proof -
  have "inv_r (case iotx_mc_mask_pubInfo_from e c pid w of (c, w) \<Rightarrow> k c w)"
    if k: "\<And>c' w. mc_inv c' \<Longrightarrow> inv_r (k c' w)" for pid k
    using inv_mask_pub [OF c] by (cases "iotx_mc_mask_pubInfo_from e c pid w") (auto intro!: k)
  note mask = this
  show ?thesis
    unfolding iotx_mc_handle_recv_PUBACK_def Let_def by (intro inv_intro mask c)
qed

lemma inv_recv_SUBACK [inv_intro]:
  assumes c: "mc_inv c" shows "inv_r (iotx_mc_handle_recv_SUBACK e c w)"
proof -
  have "inv_r (case iotx_mc_mask_subInfo_from e c pid (Some null_handle) w of (mh, c, w) \<Rightarrow> k mh c w)"
    if k: "\<And>mh c' w. mc_inv c' \<Longrightarrow> (\<And>g. mh = Some g \<Longrightarrow> cstring_ok (topic_filter g)) \<Longrightarrow> inv_r (k mh c' w)" for pid k
    using inv_mask_sub [OF c] mask_sub_handler_ok [OF c]
    by (cases "iotx_mc_mask_subInfo_from e c pid (Some null_handle) w") (auto intro!: k)
  note mask = this
  have put: "mc_inv (c'\<lparr>sub_handle := (sub_handle c')[i := g]\<rparr>)"
    if "mc_inv c'" "cstring_ok (topic_filter g)" "\<not> (h_fp g = 0 \<or> topic_filter g = None)" for c' i g
    using that by (intro inv_set_handle) (auto simp: handle_ok_def cstring_ok_def)
  show ?thesis
    unfolding iotx_mc_handle_recv_SUBACK_def Let_def
    by (intro inv_intro mask c) (auto intro: put split: bool.split option.split intro!: inv_intro)
qed

lemma inv_recv_PUBLISH [inv_intro]:
  assumes c: "mc_inv c" shows "inv_r (iotx_mc_handle_recv_PUBLISH e c w)"
  unfolding iotx_mc_handle_recv_PUBLISH_def Let_def by (intro inv_intro c)

lemma inv_recv_UNSUBACK [inv_intro]:
  assumes c: "mc_inv c" shows "inv_r (iotx_mc_handle_recv_UNSUBACK e c w)"
proof -
  have "mc_inv (c1\<lparr>sub_handle := hs\<rparr>)"
    if "iotx_mc_mask_subInfo_from e c pid None w = (mh, c1, w1)" "remove_handles mh (sub_handle c1) = Some hs" for pid mh c1 w1 hs
    using inv_mask_sub [OF c that(1)] remove_handles_ok [OF that(2)] by (simp add: mc_inv_def)
  then show ?thesis
    unfolding iotx_mc_handle_recv_UNSUBACK_def Let_def by (intro inv_intro c) auto
qed

lemma inv_ping [inv_intro]: "mc_inv c \<Longrightarrow> mc_inv (c\<lparr>ping_mark := x, keepalive_probes := y\<rparr>)"
  by (simp add: mc_inv_def)

lemma inv_probes [inv_intro]: "mc_inv c \<Longrightarrow> mc_inv (c\<lparr>keepalive_probes := y\<rparr>)"
  by (simp add: mc_inv_def)

lemma inv_read: "mc_inv c \<Longrightarrow> iotx_mc_read_packet e c t w = Some (rc, pt, c', w') \<Longrightarrow> mc_inv c'"
  by (rule inv_reads_only [OF _ read_packet_frame])

lemma inv_bind_read [inv_intro]:
  assumes c: "mc_inv c" and k: "\<And>rc pt c' w. mc_inv c' \<Longrightarrow> inv_r (k rc pt c' w)"
  shows "inv_r (iotx_mc_read_packet e c t w \<bind> (\<lambda>(rc, pt, c', w). k rc pt c' w))"
proof (cases "iotx_mc_read_packet e c t w")
  case None
  then show ?thesis by (simp add: inv_r_None)
next
  case (Some y)
  obtain rc pt c' w' where y: "y = (rc, pt, c', w')" by (metis prod_cases4)
  from k [OF inv_read [OF c Some [unfolded y]]] show ?thesis by (simp add: Some y)
qed

lemma inv_cycle [inv_intro]:
  assumes c: "mc_inv c" shows "inv_r (iotx_mc_cycle e c t w)"
  unfolding iotx_mc_cycle_def Let_def by (intro inv_intro c)

lemma inv_r_packetid [inv_intro]:
  "mc_inv c \<Longrightarrow> (\<And>pid c'. mc_inv c' \<Longrightarrow> inv_r (k pid c')) \<Longrightarrow>
     inv_r (case iotx_mc_get_next_packetid c of (pid, c) \<Rightarrow> k pid c)"
  by (cases "iotx_mc_get_next_packetid c") (auto dest: inv_packetid)

lemma inv_subscribe [inv_intro]:
  assumes c: "mc_inv c" and f: "cstring_ok filt"
  shows "inv_r (iotx_mc_subscribe e c filt qos fp ctx w)"
proof (cases filt)
  case None
  then show ?thesis unfolding iotx_mc_subscribe_def by (auto intro: inv_intro c)
next
  case (Some s)
  then have "0 \<notin> set s" using f by (simp add: cstring_ok_def)
  then show ?thesis
    unfolding iotx_mc_subscribe_def Some option.case Let_def by (intro inv_intro c)
qed

lemma inv_unsubscribe [inv_intro]:
  assumes c: "mc_inv c" and f: "cstring_ok filt"
  shows "inv_r (iotx_mc_unsubscribe e c filt w)"
proof (cases filt)
  case None
  then show ?thesis unfolding iotx_mc_unsubscribe_def None option.case Let_def by (intro inv_intro c)
next
  case (Some s)
  then have "0 \<notin> set s" using f by (simp add: cstring_ok_def)
  then show ?thesis
    unfolding iotx_mc_unsubscribe_def Some option.case Let_def by (intro inv_intro c)
qed

definition pub_r :: "(int \<times> iotx_mc_client_t \<times> iotx_mqtt_topic_info_t option \<times> 'w) option \<Rightarrow> bool" where
  "pub_r r \<longleftrightarrow> (case r of None \<Rightarrow> True | Some (rc, c, m, w) \<Rightarrow> mc_inv c)"

lemma pub_r_bind:
  assumes "inv_r r" and k: "\<And>rc c w. mc_inv c \<Longrightarrow> pub_r (k rc c w)"
  shows "pub_r (r \<bind> (\<lambda>(rc, c, w). k rc c w))"
proof (cases r)
  case None
  then show ?thesis by (simp add: pub_r_def)
next
  case (Some y)
  obtain rc c w where y: "y = (rc, c, w)" by (metis prod_cases3)
  with assms(1) Some k [of c rc w] show ?thesis by (simp add: inv_r_def)
qed

lemma pub_r_rules:
  "mc_inv c \<Longrightarrow> pub_r (Some (rc, c, m, w))"
  "(P \<Longrightarrow> pub_r a) \<Longrightarrow> (\<not> P \<Longrightarrow> pub_r b) \<Longrightarrow> pub_r (if P then a else b)"
  "(\<And>x y. p = (x, y) \<Longrightarrow> pub_r (f x y)) \<Longrightarrow> pub_r (case p of (x, y) \<Rightarrow> f x y)"
  by (simp_all add: pub_r_def split: prod.split)

lemma inv_publish:
  assumes c: "mc_inv c"
  shows "pub_r (iotx_mc_publish e c topic msg w)"
proof (cases "topic = None \<or> msg = None")
  case True
  with c show ?thesis by (cases topic; cases msg) (auto simp: iotx_mc_publish_def pub_r_def)
next
  case False
  then obtain t m where tm: "topic = Some t" "msg = Some m" by auto
  define start where "start = (if ti_qos m = 1 \<or> ti_qos m = 2
      then case iotx_mc_get_next_packetid c of (pid, c) \<Rightarrow> (ucast pid, m\<lparr>ti_packet_id := ucast pid\<rparr>, c)
      else (0 :: u16, m, c))"
  obtain mid m1 c1 where st: "start = (mid, m1, c1)" by (metis prod_cases3)
  have c1: "mc_inv c1"
    using st c by (auto simp: start_def split: if_splits prod.splits dest: inv_packetid)
  show ?thesis
    unfolding iotx_mc_publish_def tm prod.case option.case Let_def start_def [symmetric] st
    by (intro pub_r_rules pub_r_bind c c1 inv_intro)
qed

lemma sweep_vals_inv:
  assumes "\<And>s v. I s \<Longrightarrow> Q v \<Longrightarrow> I (snd (body s v)) \<and>
      (case fst (body s v) of Mark \<Rightarrow> True | Keep u \<Rightarrow> Q u | Stop u \<Rightarrow> Q u)"
  shows "I s \<Longrightarrow> list_all Q vs \<Longrightarrow>
     I (snd (sweep_vals body s vs)) \<and> list_all Q (fst (sweep_vals body s vs)) \<and>
     length (fst (sweep_vals body s vs)) \<le> length vs"
proof (induction vs arbitrary: s)
  case (Cons v vs)
  obtain r s' where b: "body s v = (r, s')" by fastforce
  have "I s'" "case r of Mark \<Rightarrow> True | Keep u \<Rightarrow> Q u | Stop u \<Rightarrow> Q u"
    using assms [of s v] Cons.prems b by auto
  with Cons b show ?case by (cases r) (auto split: prod.split dest: Cons.IH [of s'])
qed simp

definition inv_s :: "'w sweep_state \<Rightarrow> bool" where
  "inv_s s \<longleftrightarrow> (case s of None \<Rightarrow> True | Some (c, w) \<Rightarrow> mc_inv c)"

lemma pub_visit_inv:
  "inv_s s \<Longrightarrow> pub_ok i \<Longrightarrow> inv_s (snd (pub_visit e s i)) \<and>
     (case fst (pub_visit e s i) of Mark \<Rightarrow> True | Keep j \<Rightarrow> pub_ok j | Stop j \<Rightarrow> pub_ok j)"
  by (auto simp: pub_visit_def inv_s_def pub_ok_def Let_def inv_set_state split: option.split prod.split)

lemma sub_visit_inv:
  "inv_s s \<Longrightarrow> pending_ok i \<Longrightarrow> inv_s (snd (sub_visit e s i)) \<and>
     (case fst (sub_visit e s i) of Mark \<Rightarrow> True | Keep j \<Rightarrow> pending_ok j | Stop j \<Rightarrow> pending_ok j)"
  by (auto simp: sub_visit_def inv_s_def split: option.split prod.split)

lemma inv_PubInfoProc [inv_intro]:
  assumes c: "mc_inv c" shows "inv_r (MQTTPubInfoProc e c w)"
proof -
  obtain ok w1 where it: "list_iterator_made e w = (ok, w1)" by fastforce
  obtain ks s where sw: "sweep_vals (pub_visit e) (Some (c, w1)) (rev (list_pub_wait_ack c)) = (ks, s)" by fastforce
  have "inv_s s \<and> list_all pub_ok ks \<and> length ks \<le> length (list_pub_wait_ack c)"
    using sweep_vals_inv [of inv_s pub_ok "pub_visit e", OF pub_visit_inv, of "Some (c, w1)" "rev (list_pub_wait_ack c)"] c sw
    by (auto simp: inv_s_def mc_inv_def)
  with c sw it show ?thesis
    by (auto simp: MQTTPubInfoProc_def inv_r_def inv_s_def mc_inv_def split: option.split)
qed

lemma inv_SubInfoProc [inv_intro]:
  assumes c: "mc_inv c" shows "inv_r (MQTTSubInfoProc e c w)"
proof -
  obtain ok w1 where it: "list_iterator_made e w = (ok, w1)" by fastforce
  obtain ks s where sw: "sweep_vals (sub_visit e) (Some (c, w1)) (rev (list_sub_wait_ack c)) = (ks, s)" by fastforce
  have "inv_s s \<and> list_all pending_ok ks \<and> length ks \<le> length (list_sub_wait_ack c)"
    using sweep_vals_inv [of inv_s pending_ok "sub_visit e", OF sub_visit_inv, of "Some (c, w1)" "rev (list_sub_wait_ack c)"] c sw
    by (auto simp: inv_s_def mc_inv_def)
  with c sw it show ?thesis
    by (auto simp: MQTTSubInfoProc_def inv_r_def inv_s_def mc_inv_def split: option.split)
qed

lemma inv_wait_CONNACK_loop: "mc_inv c \<Longrightarrow> inv_r (wait_CONNACK_loop e c t n pt w)"
proof (induction n arbitrary: c pt w)
  case 0
  show ?case
    unfolding wait_CONNACK_loop.simps [of e c t 0] nat.case by (intro inv_intro 0)
next
  case (Suc n)
  show ?case
    unfolding wait_CONNACK_loop.simps [of e c t "Suc n"] nat.case Let_def by (intro inv_intro Suc)
qed

lemma inv_wait_CONNACK [inv_intro]: "mc_inv c \<Longrightarrow> inv_r (iotx_mc_wait_CONNACK e c w)"
  unfolding iotx_mc_wait_CONNACK_def Let_def by (intro inv_intro inv_wait_CONNACK_loop)

lemma inv_next_ping [inv_intro]: "mc_inv c \<Longrightarrow> mc_inv (c\<lparr>next_ping_time := t\<rparr>)"
  by (simp add: mc_inv_def)

lemma inv_connect [inv_intro]:
  assumes c: "mc_inv c" shows "inv_r (iotx_mc_connect e c w)"
  unfolding iotx_mc_connect_def Let_def by (intro inv_intro c)

lemma inv_attempt_reconnect [inv_intro]: "mc_inv c \<Longrightarrow> inv_r (iotx_mc_attempt_reconnect e c w)"
  unfolding iotx_mc_attempt_reconnect_def by (intro inv_intro)

lemma unat_next_interval:
  assumes "unat i < 120000"
  shows "unat (next_interval i) = (if unat i < 60000 then 2 * unat i else 60000)"
  using assms by (auto simp: next_interval_def word_less_nat_alt unat_word_ariths)

lemma inv_next_interval [inv_intro]:
  assumes "mc_inv c"
  shows "mc_inv (c\<lparr>reconnect_time_interval_ms := next_interval (reconnect_time_interval_ms c), reconnect_next_time := t\<rparr>)"
  using assms unat_next_interval [of "reconnect_time_interval_ms c"]
  by (auto simp: mc_inv_def word_less_nat_alt word_le_nat_alt)

lemma inv_handle_reconnect [inv_intro]:
  assumes c: "mc_inv c" shows "inv_r (iotx_mc_handle_reconnect e c w)"
  unfolding iotx_mc_handle_reconnect_def Let_def
  by (intro inv_intro c; simp add: inv_next_interval)

lemma inv_disconnect [inv_intro]:
  assumes c: "mc_inv c" shows "inv_r (iotx_mc_disconnect e c w)"
  unfolding iotx_mc_disconnect_def Let_def by (intro inv_intro c)

lemma inv_keepalive_sub [inv_intro]:
  assumes c: "mc_inv c" shows "inv_r (iotx_mc_keepalive_sub e c w)"
  unfolding iotx_mc_keepalive_sub_def Let_def by (intro inv_intro c)

lemma inv_keepalive:
  assumes c: "mc_inv c"
  shows "inv_s (iotx_mc_keepalive e c w)"
proof -
  have bind: "inv_s (r \<bind> (\<lambda>(rc, c, w). k rc c w))"
    if "inv_r r" "\<And>rc c w. mc_inv c \<Longrightarrow> inv_s (k rc c w)" for r :: "'a mc_result" and k
    using that by (cases r) (auto simp: inv_s_def inv_r_def)
  have "mc_inv (c\<lparr>ping_mark := x\<rparr>)" "mc_inv (c\<lparr>reconnect_time_interval_ms := 1000\<rparr>)"
    "mc_inv (c\<lparr>reconnect_time_interval_ms := 1000, reconnect_next_time := t\<rparr>)" if "mc_inv c" for c x t
    using that by (simp_all add: mc_inv_def)
  then show ?thesis
    unfolding iotx_mc_keepalive_def Let_def
    by (intro bind inv_intro c) (auto simp: inv_s_def split: prod.split intro!: bind [unfolded inv_s_def] inv_intro)
qed

lemma inv_yield_round: 
  assumes c: "mc_inv c" shows "inv_r (yield_round e t rc c w)"
proof -
  have bind: "inv_r (r \<bind> (\<lambda>(c, w). k c w))"
    if "inv_s r" "\<And>c w. mc_inv c \<Longrightarrow> inv_r (k c w)" for r :: "'a sweep_state" and k :: "iotx_mc_client_t \<Rightarrow> 'a \<Rightarrow> 'a mc_result"
    using that by (cases r) (auto simp: inv_s_def inv_r_None)
  show ?thesis
    unfolding yield_round_def Let_def
    by (intro bind inv_keepalive c inv_intro)
qed

lemma inv_yield_loop_r: "yield_loop e t rc c w = Some r \<Longrightarrow> mc_inv c \<longrightarrow> mc_inv (fst r)"
proof (erule yield_loop.raw_induct [rotated, where P = "\<lambda>e t rc c w r. mc_inv c \<longrightarrow> mc_inv (fst r)"], rule impI)
  fix yl :: "'a env \<Rightarrow> iotx_time_t \<Rightarrow> int \<Rightarrow> iotx_mc_client_t \<Rightarrow> 'a \<Rightarrow> (iotx_mc_client_t \<times> 'a) option"
  fix e t rc c w r
  assume IH: "\<And>e t rc c w r. yl e t rc c w = Some r \<Longrightarrow> mc_inv c \<longrightarrow> mc_inv (fst r)"
    and r: "(case yield_round e t rc c w of None \<Rightarrow> None
       | Some (rc, c, w) \<Rightarrow> let (ex, w) = timer_expired e t w in if ex then Some (c, w) else yl e t rc c w) = Some r"
    and c: "mc_inv c"
  from r obtain rc1 c1 w1 where y: "yield_round e t rc c w = Some (rc1, c1, w1)" by (auto split: option.splits)
  have "mc_inv c1" using inv_yield_round [OF c, of e t rc w] y by (simp add: inv_r_def)
  with r y IH show "mc_inv (fst r)" by (auto split: prod.splits if_splits)
qed

lemma inv_yield_loop: "yield_loop e t rc c w = Some (c', w') \<Longrightarrow> mc_inv c \<Longrightarrow> mc_inv c'"
  using inv_yield_loop_r by fastforce

section \<open>Reachable clients\<close>

text \<open>
  The states an application can bring a client to through the public interface, with the world
  changing between the calls. Strings are C strings; the buffers have the sizes the parameters say.
\<close>

definition params_ok :: "iotx_mqtt_param_t \<Rightarrow> bool" where
  "params_ok p \<longleftrightarrow>
     (case prm_pwrite_buf p of None \<Rightarrow> True | Some b \<Rightarrow> length b = unat (prm_write_buf_size p)) \<and>
     (case prm_pread_buf p of None \<Rightarrow> True | Some b \<Rightarrow> length b = unat (prm_read_buf_size p))"

inductive mqtt_reachable :: "'w env \<Rightarrow> iotx_mc_client_t \<Rightarrow> 'w \<Rightarrow> bool" for e where
  construct: "params_ok p \<Longrightarrow> IOT_MQTT_Construct e (Some p) w = Some (Some c, w') \<Longrightarrow> mqtt_reachable e c w'"
| publish: "mqtt_reachable e c w \<Longrightarrow> IOT_MQTT_Publish e (Some c) topic msg w = Some (rc, Some c', msg', w') \<Longrightarrow>
     mqtt_reachable e c' w'"
| subscribe: "mqtt_reachable e c w \<Longrightarrow> cstring_ok filt \<Longrightarrow>
     IOT_MQTT_Subscribe e (Some c) filt qos fp ctx w = Some (rc, Some c', w') \<Longrightarrow> mqtt_reachable e c' w'"
| unsubscribe: "mqtt_reachable e c w \<Longrightarrow> cstring_ok filt \<Longrightarrow>
     IOT_MQTT_Unsubscribe e (Some c) filt w = Some (rc, Some c', w') \<Longrightarrow> mqtt_reachable e c' w'"
| yield: "mqtt_reachable e c w \<Longrightarrow> IOT_MQTT_Yield e (Some c) timeout w = Some (rc, Some c', w') \<Longrightarrow>
     mqtt_reachable e c' w'"
| world: "mqtt_reachable e c w \<Longrightarrow> mqtt_reachable e c w'"

lemma inv_init:
  assumes "params_ok p" and "prm_pwrite_buf p = Some wb" and "prm_pread_buf p = Some rb"
    and "iotx_mc_init e p wb rb w = Some (rc, c, w')" and "rc = SUCCESS_RETURN"
  shows "mc_inv c"
proof -
  define k where "k = ucast (prm_keepalive_interval_ms p div 1000) + (0 :: u16)"
  have h: "handle_ok null_handle" by (simp add: handle_ok_def null_handle_def)
  have k: "60 \<le> (if k < 60 then 60 else if k > 180 then 180 else k)"
     "(if k < 60 then 60 else if k > 180 then 180 else k) \<le> 180" for k :: u16
    by auto
  show ?thesis
    using assms h k
    by (auto simp: iotx_mc_init_def iotx_mc_set_connect_params_def iotx_mc_set_client_state_def params_ok_def
        mc_inv_def list_all_iff init_connect_data_def Let_def split: prod.splits if_splits)
qed

lemma inv_construct:
  assumes p: "params_ok p" and k: "IOT_MQTT_Construct e (Some p) w = Some (Some c, w')"
  shows "mc_inv c"
proof -
  from k obtain wb rb w1 c1 w2 rc where b: "prm_pwrite_buf p = Some wb" "prm_pread_buf p = Some rb"
    and i: "iotx_mc_init e p wb rb w1 = Some (SUCCESS_RETURN, c1, w2)"
    and cn: "iotx_mc_connect e c1 w2 = Some (rc, c, w')"
    by (auto simp: IOT_MQTT_Construct_def bind_eq_Some_conv Let_def split: option.splits prod.splits if_splits)
  from inv_init [OF p b i refl] have "mc_inv c1" .
  from inv_connect [OF this, of e w2] cn show ?thesis by (simp add: inv_r_def)
qed

lemma reachable_inv_lemma: "mqtt_reachable e c w \<Longrightarrow> mc_inv c"
proof (induction rule: mqtt_reachable.induct)
  case (publish c w topic msg rc c' msg' w')
  from publish(2,3) inv_publish [OF publish(3), of e topic msg w] show ?case
    by (auto simp: IOT_MQTT_Publish_def bind_eq_Some_conv pub_r_def split: if_splits)
next
  case (subscribe c w filt qos fp ctx rc c' w')
  from subscribe(3,4) inv_subscribe [OF subscribe(4,2), of e "if qos > 2 then 0 else qos" fp ctx w] show ?case
    by (auto simp: IOT_MQTT_Subscribe_def bind_eq_Some_conv inv_r_def split: if_splits)
next
  case (unsubscribe c w filt rc c' w')
  from unsubscribe(3,4) inv_unsubscribe [OF unsubscribe(4,2), of e w] show ?case
    by (auto simp: IOT_MQTT_Unsubscribe_def bind_eq_Some_conv inv_r_def split: if_splits)
next
  case (yield c w timeout rc c' w')
  then show ?case
    by (auto simp: IOT_MQTT_Yield_def bind_eq_Some_conv Let_def split: if_splits prod.splits intro: inv_yield_loop)
qed (auto dest: inv_construct)

section \<open>Acknowledged publishes\<close>

lemma pub_sweep_normal:
  "sweep_vals (pub_visit e) (Some (c, w)) vs = (ws, Some (c', w')) \<Longrightarrow>
     client_state c' = IOTX_MC_STATE_DISCONNECTED \<or>
     (\<forall>i \<in> set ws. \<exists>j \<in> set vs. pub_msg_id j = pub_msg_id i \<and> pub_node_state j = IOTX_MC_NODE_STATE_NORMANL)"
proof (induction vs arbitrary: c w ws)
  case (Cons v vs)
  obtain r s where b: "pub_visit e (Some (c, w)) v = (r, s)" by fastforce
  have none: "s = None \<Longrightarrow> snd (sweep_vals (pub_visit e) s us) = None" for us
    by (induction us) (simp_all add: pub_visit_def)
  show ?case
  proof (cases s)
    case None
    have "snd (sweep_vals (pub_visit e) (Some (c, w)) (v # vs)) = None"
      using b None none [of vs] by (cases r) simp_all
    with Cons.prems show ?thesis by simp
  next
    case (Some cw)
    obtain c1 w1 where s: "s = Some (c1, w1)" using Some by (cases cw) auto
    show ?thesis
    proof (cases r)
      case Mark
      with Cons.prems b s Cons.IH [of c1 w1 ws] show ?thesis by auto
    next
      case (Keep u)
      obtain us where us: "sweep_vals (pub_visit e) (Some (c1, w1)) vs = (us, Some (c', w'))" "ws = u # us"
        using Cons.prems b s Keep by (auto simp: map_prod_def split: prod.splits)
      have "pub_msg_id u = pub_msg_id v"
        using b Keep by (auto simp: pub_visit_def Let_def split: if_splits prod.splits option.splits)
      moreover have "pub_node_state v = IOTX_MC_NODE_STATE_NORMANL"
        using b Keep by (cases "pub_node_state v") (simp_all add: pub_visit_def)
      ultimately show ?thesis using Cons.IH [OF us(1)] us(2) by auto
    next
      case (Stop u)
      have "client_state c1 = IOTX_MC_STATE_DISCONNECTED"
        using b Stop s by (auto simp: pub_visit_def Let_def iotx_mc_set_client_state_def split: if_splits prod.splits option.splits)
      with Cons.prems b Stop s show ?thesis by auto
    qed
  qed
qed simp

lemma recv_PUBACK_eq:
  assumes "buf_read c = [header_byte PUBACK 0 0 0, 2] @ be16 (unat pid) @ rest"
    and "iotx_mc_mask_pubInfo_from e c pid w = (c1, w1)"
  shows "iotx_mc_handle_recv_PUBACK e c w =
    Some (SUCCESS_RETURN, c1, notify_client e c (IOTX_MQTT_EVENT_PUBLISH_SUCCESS pid) w1)"
proof -
  have "event_fp c1 = event_fp c" "event_pcontext c1 = event_pcontext c"
    using assms(2) by (auto simp: iotx_mc_mask_pubInfo_from_def split: if_splits prod.splits)
  then show ?thesis
    using MQTTDeserialize_ack_correct [of "header_byte PUBACK 0 0 0" PUBACK 0 "stack_u16 e" pid rest] assms
    by (simp add: iotx_mc_handle_recv_PUBACK_def Let_def notify_client_def)
qed

text \<open>The masked queue, when there was memory to mask it, after a round that had memory too.\<close>

lemma puback_sweep:
  assumes "list_all (\<lambda>i. pub_msg_id i = pid \<longrightarrow> pub_node_state i = IOTX_MC_NODE_STATE_INVALID) (list_pub_wait_ack c)"
    and "fst (list_iterator_made e w)" and "MQTTPubInfoProc e c w = Some (rc, c', w')"
    and "client_state c' \<noteq> IOTX_MC_STATE_DISCONNECTED"
  shows "list_all (\<lambda>i. pub_msg_id i \<noteq> pid) (list_pub_wait_ack c')"
proof (cases "list_pub_wait_ack c = []")
  case True
  with assms(3) show ?thesis by (simp add: MQTTPubInfoProc_def)
next
  case False
  obtain w1 where it: "list_iterator_made e w = (True, w1)" using assms(2) by (metis prod.collapse)
  obtain ws c1 where sw: "sweep_vals (pub_visit e) (Some (c, w1)) (rev (list_pub_wait_ack c)) = (ws, Some (c1, w'))"
    and c': "c' = c1\<lparr>list_pub_wait_ack := rev ws\<rparr>"
    using assms(3) it False by (auto simp: MQTTPubInfoProc_def split: prod.splits option.splits)
  from pub_sweep_normal [OF sw] assms(1,4) c' show ?thesis
    by (fastforce simp: list_all_iff)
qed

section \<open>Connecting\<close>

lemma wait_CONNACK_loop_success:
  "wait_CONNACK_loop e c t n pt w = Some (SUCCESS_RETURN, c', w') \<Longrightarrow> pt \<noteq> CONNACK \<Longrightarrow>
     \<exists>sp. MQTTDeserialize_connack 0 255 (buf_read c') = Some (1, sp, 0)"
proof (induction n arbitrary: c pt w)
  case 0
  then show ?case
    by (subst (asm) wait_CONNACK_loop.simps) (auto simp: bind_eq_Some_conv split: if_splits)
next
  case (Suc n)
  from Suc.prems show ?case
    by (subst (asm) wait_CONNACK_loop.simps)
       (auto simp: bind_eq_Some_conv Let_def iotx_mc_handle_recv_CONNACK_def connack_result_def
         split: if_splits option.splits dest!: Suc.IH)
qed

lemma connect_success:
  assumes "iotx_mc_connect e c w = Some (SUCCESS_RETURN, c', w')"
  shows "client_state c' = IOTX_MC_STATE_CONNECTED \<and>
     (\<exists>sp. MQTTDeserialize_connack 0 255 (buf_read c') = Some (1, sp, 0))"
proof -
  from assms obtain c1 w1 c2 w2 t where wc: "iotx_mc_wait_CONNACK e c1 w1 = Some (SUCCESS_RETURN, c2, w2)"
    and c': "c' = (iotx_mc_set_client_state c2 IOTX_MC_STATE_CONNECTED)\<lparr>next_ping_time := t\<rparr>"
    unfolding iotx_mc_connect_def Let_def split_beta
    by (auto simp: bind_eq_Some_conv split: if_splits)
  obtain t1 w3 where "wait_CONNACK_loop e c1 t1 10 0 w3 = Some (SUCCESS_RETURN, c2, w2)"
    using wc by (auto simp: iotx_mc_wait_CONNACK_def split: prod.splits)
  from wait_CONNACK_loop_success [OF this] c' show ?thesis
    by (simp add: iotx_mc_set_client_state_def)
qed

section \<open>Reconnect intervals\<close>

lemma backoff_eq:
  "unat ((next_interval ^^ k) 1000) = (if k \<le> 6 then 1000 * 2 ^ k else 60000)"
proof (induction k)
  case (Suc k)
  have small: "(2 :: nat) ^ k \<le> 64" if "k \<le> 6"
    using power_increasing [OF that, of "2 :: nat"] by simp
  then have "unat ((next_interval ^^ k) 1000) < 120000" using Suc by auto
  from unat_next_interval [OF this] have step: "unat ((next_interval ^^ Suc k) 1000) =
      (if unat ((next_interval ^^ k) 1000) < 60000 then 2 * unat ((next_interval ^^ k) 1000) else 60000)"
    by simp
  consider "k < 6" | "k = 6" | "6 < k" by linarith
  then show ?case
  proof cases
    case 1
    then have "(2 :: nat) ^ k \<le> 32" using power_increasing [of k 5 "2 :: nat"] by simp
    with 1 Suc step show ?thesis by simp
  qed (use Suc step in simp_all)
qed simp

lemma unat_reconnect_wait:
  assumes "unat i < 120000" and "unat r \<le> unat i"
  shows "unat (reconnect_wait i r) = min 60000 (unat i + unat r)"
proof -
  have "unat (i + r) = unat i + unat r" using assms by (simp add: unat_word_ariths)
  then show ?thesis by (auto simp: reconnect_wait_def word_less_nat_alt)
qed

section \<open>Publishing with QoS 1\<close>

lemma push_pubInfo_eq:
  assumes "iotx_mc_push_pubInfo_to e c n pid w = Some (rc, c', w')" and "length (buf_send c) = unat (buf_size_send c)"
  shows "if rc = SUCCESS_RETURN
    then \<exists>t. c' = c\<lparr>list_pub_wait_ack := list_pub_wait_ack c @
           [\<lparr>pub_start_time = t, pub_node_state = IOTX_MC_NODE_STATE_NORMANL, pub_msg_id = pid,
             pub_len = of_nat n, pub_buf = take n (buf_send c)\<rparr>]\<rparr>
    else c' = c"
  using assms
  by (auto simp: iotx_mc_push_pubInfo_to_def Let_def rd_bytes_def split: if_splits prod.splits option.splits)

lemma MQTTPublish_eq:
  assumes len: "length (buf_send c) = unat (buf_size_send c)" and q: "ti_qos msg = 1"
    and pl: "ti_payload msg = Some payload" "unat (ti_payload_len msg) \<le> length payload"
    and sz: "MQTTSerialize_publishLength 1 (mqtt_cstring topic) (unat (ti_payload_len msg)) < 268435456"
    and run: "MQTTPublish e c topic msg w = Some (rc, c', w')"
  defines "pkt \<equiv> publish_packet 0 1 (ti_retain msg) (ti_packet_id msg) topic (take (unat (ti_payload_len msg)) payload)"
  shows "client_state c' = client_state c \<and>
    (if rc = SUCCESS_RETURN
     then (\<exists>t. list_pub_wait_ack c' = list_pub_wait_ack c @
            [\<lparr>pub_start_time = t, pub_node_state = IOTX_MC_NODE_STATE_NORMANL, pub_msg_id = ti_packet_id msg,
              pub_len = of_nat (length pkt), pub_buf = pkt\<rparr>]) \<and>
          take (length pkt) (buf_send c') = pkt \<and>
          (\<exists>t w1. iotx_mc_send_packet e (buf_send c') (length pkt) t w1 = Some (SUCCESS_RETURN, w'))
     else list_pub_wait_ack c' = list_pub_wait_ack c)"
proof -
  obtain t w0 where arm: "timer_arm e (request_timeout_ms c) w = (t, w0)" by fastforce
  have str: "mqtt_string_ok (mqtt_cstring topic)" "mqtt_chars (mqtt_cstring topic) = topic"
    by (simp_all add: mqtt_string_ok_def mqtt_chars_def mqtt_cstring_def MQTTString_initializer_def)
  have pl': "unat (ti_payload_len msg) \<le>
      length (if ti_payload_len msg = 0 then [] else payload)"
    using pl(2) by simp
  have take: "take (unat (ti_payload_len msg)) (if ti_payload_len msg = 0 then [] else payload) =
      take (unat (ti_payload_len msg)) payload" by simp
  have pay: "(if ti_payload_len msg = 0 then Some [] else ti_payload msg) =
      Some (if ti_payload_len msg = 0 then [] else payload)" using pl(1) by simp
  note ser = MQTTSerialize_publish_eq [OF str(1) pl' sz, of "unat (buf_size_send c)" "buf_send c" 0 "ti_retain msg"
      "ti_packet_id msg", unfolded str(2) take, folded pkt_def]
  have npkt: "0 < length pkt" by (simp add: pkt_def publish_packet_def mqtt_packet_def)
  show ?thesis
  proof (cases "unat (buf_size_send c) < MQTTPacket_len
      (MQTTSerialize_publishLength 1 (mqtt_cstring topic) (unat (ti_payload_len msg)))")
    case True
    with run ser len q show ?thesis
      by (auto simp: MQTTPublish_def pay Let_def split: prod.splits)
  next
    case False
    define c1 where "c1 = c\<lparr>buf_send := pkt @ drop (length pkt) (buf_send c)\<rparr>"
    have "length pkt \<le> unat (buf_size_send c)"
      using False publishLength_body [OF str(1) pl', of 1 "ti_packet_id msg", unfolded str(2) take] sz
      by (auto simp: pkt_def publish_packet_def intro: order.trans [OF length_mqtt_packet])
    then have len1: "length (buf_send c1) = unat (buf_size_send c1)" using len by (simp add: c1_def)
    have ser': "MQTTSerialize_publish (buf_send c) (unat (buf_size_send c)) 0 (unat (ti_qos msg))
         (ti_retain msg) (ti_packet_id msg) (mqtt_cstring topic)
         (if ti_payload_len msg = 0 then [] else payload) (unat (ti_payload_len msg)) =
       Some (int (length pkt), pkt @ drop (length pkt) (buf_send c))"
      using ser len q False by simp
    have q': "0 < ti_qos msg" using q by simp
    from run [unfolded MQTTPublish_def pay arm Let_def] npkt obtain rc1 c2 w2 where
      push: "iotx_mc_push_pubInfo_to e c1 (length pkt) (ti_packet_id msg) w0 = Some (rc1, c2, w2)"
      and rest: "(if rc1 \<noteq> SUCCESS_RETURN then Some (MQTT_PUSH_TO_LIST_ERROR, c2, w2)
         else do {
           (rc, w) \<leftarrow> iotx_mc_send_packet e (buf_send c2) (length pkt) t w2;
           if rc \<noteq> SUCCESS_RETURN
           then Some (MQTT_NETWORK_ERROR, c2\<lparr>list_pub_wait_ack := butlast (list_pub_wait_ack c2)\<rparr>, w)
           else Some (SUCCESS_RETURN, c2, w) }) = Some (rc, c', w')"
      by (auto simp: ser' q' c1_def bind_eq_Some_conv [of "iotx_mc_push_pubInfo_to e d n p x" for d n p x] cong: if_cong)
    from push_pubInfo_eq [OF push len1] rest show ?thesis
      by (auto simp: c1_def bind_eq_Some_conv split: if_splits) blast+
  qed
qed

lemma MQTTPublish_rc: "MQTTPublish e c topic msg w = Some (rc, c', w') \<Longrightarrow> rc \<le> 0"
  by (auto simp: MQTTPublish_def Let_def bind_eq_Some_conv split: prod.splits if_splits)

text \<open>What the application's message has become when it is serialised.\<close>

definition up_processed ::
    "'w env \<Rightarrow> bytes \<Rightarrow> iotx_mqtt_topic_info_t \<Rightarrow> 'w \<Rightarrow> iotx_mqtt_topic_info_t \<times> 'w" where
  "up_processed e topic msg w = (case mqtt_up_process e of Some f \<Rightarrow> f topic msg w | None \<Rightarrow> (msg, w))"

lemma publish_qos1_eq:
  assumes len: "length (buf_send c) = unat (buf_size_send c)" and q0: "ti_qos msg = 1"
    and up: "up_processed e topic (msg\<lparr>ti_packet_id := ucast (fst (iotx_mc_get_next_packetid c))\<rparr>) w = (m, wu)"
    and q: "ti_qos m = 1" "ti_packet_id m = ucast (fst (iotx_mc_get_next_packetid c))"
    and pl: "ti_payload m = Some payload" "unat (ti_payload_len m) \<le> length payload"
    and sz: "MQTTSerialize_publishLength 1 (mqtt_cstring topic) (unat (ti_payload_len m)) < 268435456"
    and idok: "unat (packet_id c) \<le> 65535"
    and run: "iotx_mc_publish e c (Some topic) (Some msg) w = Some (rc, c', msg', w')"
  defines "pid \<equiv> fst (iotx_mc_get_next_packetid c)"
  defines "pkt \<equiv> publish_packet 0 1 (ti_retain m) (ucast pid) topic (take (unat (ti_payload_len m)) payload)"
  shows "if 0 < rc
    then rc = int (unat pid) \<and> client_state c' = IOTX_MC_STATE_CONNECTED \<and>
         (\<exists>t. list_pub_wait_ack c' = list_pub_wait_ack c @
            [\<lparr>pub_start_time = t, pub_node_state = IOTX_MC_NODE_STATE_NORMANL, pub_msg_id = ucast pid,
              pub_len = of_nat (length pkt), pub_buf = pkt\<rparr>]) \<and>
         take (length pkt) (buf_send c') = pkt \<and>
         (\<exists>t w1. iotx_mc_send_packet e (buf_send c') (length pkt) t w1 = Some (SUCCESS_RETURN, w'))
    else list_pub_wait_ack c' = list_pub_wait_ack c \<and>
         (rc = MQTT_NETWORK_ERROR \<longrightarrow> client_state c' = IOTX_MC_STATE_DISCONNECTED)"
proof -
  have "unat (packet_id c + 1) = unat (packet_id c) + 1"
    using idok by (simp add: unat_word_ariths)
  then have pid: "pid \<le> 65535" "0 < pid"
    using idok unsigned_word_eqI [where v = "packet_id c" and w = 65535]
    by (auto simp: pid_def iotx_mc_get_next_packetid_def Let_def word_le_nat_alt word_less_nat_alt le_less)
  then have u: "unat (ucast pid :: u16) = unat pid"
    by (simp add: unsigned_ucast_eq unsigned_take_bit_eq take_bit_eq_mod word_le_nat_alt)
  from pid have pos: "0 < uint pid" by (simp add: word_less_def)
  show ?thesis
  proof (cases "iotx_mc_check_topic (Some topic) TOPIC_NAME_TYPE = 0 \<and> iotx_mc_check_state_normal c")
    case False
    with run show ?thesis by (auto simp: iotx_mc_publish_def Let_def split: if_splits)
  next
    case True
    define c1 where "c1 = snd (iotx_mc_get_next_packetid c)"
    have c1: "length (buf_send c1) = unat (buf_size_send c1)" "client_state c1 = IOTX_MC_STATE_CONNECTED"
      "list_pub_wait_ack c1 = list_pub_wait_ack c"
      using len True
      by (simp_all add: c1_def iotx_mc_get_next_packetid_def Let_def iotx_mc_check_state_normal_def)
    from run True q0 up obtain rc1 c2 where p: "MQTTPublish e c1 topic m wu = Some (rc1, c2, w')"
      and res: "if rc1 = SUCCESS_RETURN then rc = int (unat (ucast pid :: u16)) \<and> c' = c2
        else rc = rc1 \<and> c' = (if rc1 = MQTT_NETWORK_ERROR
                        then iotx_mc_set_client_state c2 IOTX_MC_STATE_DISCONNECTED else c2)"
      by (auto simp: iotx_mc_publish_def Let_def split_beta bind_eq_Some_conv c1_def pid_def simp flip: up_processed_def
          split: if_splits)
    note rc1 = MQTTPublish_rc [OF p]
    from MQTTPublish_eq [OF c1(1) q(1) pl sz p] q(2) c1 res u pos rc1 show ?thesis
      by (auto simp: pkt_def pid_def iotx_mc_set_client_state_def split: if_splits)
  qed
qed

section \<open>Losing and regaining the connection\<close>

lemma keepalive_sub_not_normal:
  "client_state c \<noteq> IOTX_MC_STATE_CONNECTED \<Longrightarrow> iotx_mc_keepalive_sub e c w = Some (SUCCESS_RETURN, c, w)"
  by (simp add: iotx_mc_keepalive_sub_def iotx_mc_check_state_normal_def)

lemma keepalive_disconnected:
  assumes "client_state c = IOTX_MC_STATE_DISCONNECTED" and "reconnect_open c"
  shows "iotx_mc_keepalive e c w =
    (let (now, w1) = uptime e (notify_client e c IOTX_MQTT_EVENT_DISCONNECT w)
     in Some (c\<lparr>reconnect_time_interval_ms := 1000, reconnect_next_time := \<lparr>time = now + 1000\<rparr>,
          client_state := IOTX_MC_STATE_DISCONNECTED_RECONNECTING\<rparr>, snd (net_disconnect e w1)))"
  using assms
  by (simp add: iotx_mc_keepalive_def keepalive_sub_not_normal Let_def iotx_mc_set_client_state_def split_beta
      timer_arm_def iotx_mc_disconnect_callback_def)

lemma handle_reconnect_success:
  "iotx_mc_handle_reconnect e c w = Some (SUCCESS_RETURN, c', w') \<Longrightarrow>
     client_state c' = IOTX_MC_STATE_CONNECTED \<and> (\<exists>sp. MQTTDeserialize_connack 0 255 (buf_read c') = Some (1, sp, 0))"
  by (auto simp: iotx_mc_handle_reconnect_def iotx_mc_attempt_reconnect_def bind_eq_Some_conv Let_def split_beta
      iotx_mc_set_client_state_def dest: connect_success split: if_splits)

lemma keepalive_reconnecting:
  assumes "client_state c = IOTX_MC_STATE_DISCONNECTED_RECONNECTING" and "reconnect_open c"
    and "iotx_mc_keepalive e c w = Some (c', w')"
  shows "\<exists>rc w1 c1. iotx_mc_handle_reconnect e (c\<lparr>ping_mark := 0\<rparr>) w = Some (rc, c1, w1) \<and>
    (if rc = SUCCESS_RETURN
     then c' = c1\<lparr>reconnect_time_interval_ms := 1000\<rparr> \<and> w' = notify_client e c1 IOTX_MQTT_EVENT_RECONNECT w1
     else c' = c1 \<and> w' = w1)"
proof -
  from assms obtain rc c1 w1 where h: "iotx_mc_handle_reconnect e (c\<lparr>ping_mark := 0\<rparr>) w = Some (rc, c1, w1)"
    and r: "(if rc \<noteq> SUCCESS_RETURN then Some (c1, w1)
       else Some (c1\<lparr>reconnect_time_interval_ms := 1000\<rparr>, iotx_mc_reconnect_callback e c1 w1)) = Some (c', w')"
    by (auto simp: iotx_mc_keepalive_def keepalive_sub_not_normal bind_eq_Some_conv)
  from r have "if rc = SUCCESS_RETURN
     then c' = c1\<lparr>reconnect_time_interval_ms := 1000\<rparr> \<and> w' = notify_client e c1 IOTX_MQTT_EVENT_RECONNECT w1
     else c' = c1 \<and> w' = w1"
    by (auto simp: iotx_mc_reconnect_callback_def split: if_splits)
  with h show ?thesis by blast
qed

lemma construct_connected:
  "IOT_MQTT_Construct e (Some p) w = Some (Some c, w') \<Longrightarrow>
     client_state c = IOTX_MC_STATE_CONNECTED \<and> (\<exists>sp. MQTTDeserialize_connack 0 255 (buf_read c) = Some (1, sp, 0))"
  by (auto simp: IOT_MQTT_Construct_def bind_eq_Some_conv Let_def dest: connect_success
      split: option.splits prod.splits if_splits)

declare send_loop.simps [code]

section \<open>A concrete session\<close>

definition demo_params :: iotx_mqtt_param_t where
  "demo_params =
     \<lparr>prm_host = Some [104], prm_client_id = Some [105], prm_username = Some [106], prm_password = Some [107],
      prm_clean_session = 1, prm_request_timeout_ms = 2000, prm_keepalive_interval_ms = 60000,
      prm_pwrite_buf = Some (replicate 32 0), prm_write_buf_size = 32,
      prm_pread_buf = Some (replicate 32 0), prm_read_buf_size = 32,
      prm_event_fp = 9, prm_event_pcontext = 0, prm_reconnect_open = True\<rparr>"

lemma demo_params_ok: "params_ok demo_params"
  by (simp add: params_ok_def demo_params_def)

lemma demo_construct:
  "case IOT_MQTT_Construct demo_env (Some demo_params) ([0x20, 2, 0, 0], []) of
     Some (Some c, w) \<Rightarrow> take 6 (snd w) = [0x10, 19, 0, 4, 77, 81] | _ \<Rightarrow> False"
  by code_simp

lemma demo_constructed:
  obtains c w where "IOT_MQTT_Construct demo_env (Some demo_params) ([0x20, 2, 0, 0], []) = Some (Some c, w)"
  using demo_construct by (auto split: option.splits prod.splits)

section \<open>Properties\<close>

text \<open>
  Property C1: every client an application can reach satisfies the invariant of the session. It
  starts from a successful construction and goes through any sequence of publications,
  subscriptions, unsubscriptions and yields, with any behaviour of the network, the clock, the
  allocator and the random generator in between. The buffers keep their sizes, the table of
  callbacks its 30 entries, the two waiting lists their bounds, packet ids stay 16-bit, the
  keep-alive interval stays between 60 and 180 seconds, the reconnect interval between one second
  and two minutes.
\<close>

theorem reachable_inv:
  assumes "mqtt_reachable e c w"
  shows "mc_inv c"
  by (rule reachable_inv_lemma [OF assms])

theorem reachable_inv_witness: "\<exists>c w. mqtt_reachable demo_env c w \<and> mc_inv c"
proof -
  obtain c w where "IOT_MQTT_Construct demo_env (Some demo_params) ([0x20, 2, 0, 0], []) = Some (Some c, w)"
    by (rule demo_constructed)
  from mqtt_reachable.construct [OF demo_params_ok this] have "mqtt_reachable demo_env c w" .
  from this reachable_inv [OF this] show ?thesis by blast
qed

text \<open>
  Property C39: A QoS 1 publication that returns a packet id has used the next packet id, has handed
  exactly the PUBLISH packet of the MQTT specification for the topic, that id and the payload, which is the
  one that the post-processing of the back end (mqtt_up_process, when it is set) has made, to the sending loop,
  which reported success, and has queued the same bytes for retransmission; on every error nothing is left in the queue, and a failure of the
  network also marks the client as disconnected. The post-processing is required to leave QoS and id.
\<close>

theorem publish_qos1:
  assumes "length (buf_send c) = unat (buf_size_send c)" and "ti_qos msg = 1"
    and "up_processed e topic (msg\<lparr>ti_packet_id := ucast (fst (iotx_mc_get_next_packetid c))\<rparr>) w = (m, wu)"
    and "ti_qos m = 1" and "ti_packet_id m = ucast (fst (iotx_mc_get_next_packetid c))"
    and "ti_payload m = Some payload" and "unat (ti_payload_len m) \<le> length payload"
    and "MQTTSerialize_publishLength 1 (mqtt_cstring topic) (unat (ti_payload_len m)) < 268435456"
    and "unat (packet_id c) \<le> 65535"
    and "iotx_mc_publish e c (Some topic) (Some msg) w = Some (rc, c', msg', w')"
  shows "let pid = fst (iotx_mc_get_next_packetid c);
             pkt = publish_packet 0 1 (ti_retain m) (ucast pid) topic (take (unat (ti_payload_len m)) payload)
    in if 0 < rc
       then rc = int (unat pid) \<and> client_state c' = IOTX_MC_STATE_CONNECTED \<and>
         (\<exists>t. list_pub_wait_ack c' = list_pub_wait_ack c @
            [\<lparr>pub_start_time = t, pub_node_state = IOTX_MC_NODE_STATE_NORMANL, pub_msg_id = ucast pid,
              pub_len = of_nat (length pkt), pub_buf = pkt\<rparr>]) \<and>
         take (length pkt) (buf_send c') = pkt \<and>
         (\<exists>t w1. iotx_mc_send_packet e (buf_send c') (length pkt) t w1 = Some (SUCCESS_RETURN, w'))
       else list_pub_wait_ack c' = list_pub_wait_ack c \<and>
         (rc = MQTT_NETWORK_ERROR \<longrightarrow> client_state c' = IOTX_MC_STATE_DISCONNECTED)"
  unfolding Let_def by (rule publish_qos1_eq [OF assms])

definition demo_msg :: iotx_mqtt_topic_info_t where
  "demo_msg = \<lparr>ti_packet_id = 0, ti_qos = 1, ti_dup = 0, ti_retain = 0, ti_topic_len = 1, ti_payload_len = 2,
     ti_ptopic = None, ti_payload = Some [8, 9]\<rparr>"

text \<open>A post-processing that puts a byte in front of the payload.\<close>

definition demo_up :: "bytes \<Rightarrow> iotx_mqtt_topic_info_t \<Rightarrow> 'w \<Rightarrow> iotx_mqtt_topic_info_t \<times> 'w" where
  "demo_up topic m w = (m\<lparr>ti_payload := map_option ((#) 7) (ti_payload m), ti_payload_len := ti_payload_len m + 1\<rparr>, w)"

theorem publish_qos1_witness:
  "\<exists>rc c' m' w'. iotx_mc_publish (demo_env\<lparr>mqtt_up_process := Some demo_up\<rparr>) demo_client (Some [97]) (Some demo_msg) ([], []) =
       Some (rc, c', m', w') \<and> 0 < rc \<and>
     map pub_buf (list_pub_wait_ack c') = [publish_packet 0 1 0 (of_int rc) [97] [7, 8, 9]]"
proof -
  let ?e = "demo_env\<lparr>mqtt_up_process := Some demo_up\<rparr>"
  have run: "case iotx_mc_publish ?e demo_client (Some [97]) (Some demo_msg) ([], []) of
      Some (rc, _) \<Rightarrow> 0 < rc | None \<Rightarrow> False"
    by code_simp
  then obtain rc c' m' w' where r: "iotx_mc_publish ?e demo_client (Some [97]) (Some demo_msg) ([], []) = Some (rc, c', m', w')"
    "0 < rc" by (auto split: option.splits)
  let ?m = "demo_msg\<lparr>ti_packet_id := ucast (fst (iotx_mc_get_next_packetid demo_client)), ti_payload := Some [7, 8, 9],
    ti_payload_len := 3\<rparr>"
  have h: "length (buf_send demo_client) = unat (buf_size_send demo_client)" "ti_qos demo_msg = 1"
    "up_processed ?e [97] (demo_msg\<lparr>ti_packet_id := ucast (fst (iotx_mc_get_next_packetid demo_client))\<rparr>) ([], []) = (?m, [], [])"
    "ti_qos ?m = 1" "ti_packet_id ?m = ucast (fst (iotx_mc_get_next_packetid demo_client))"
    "ti_payload ?m = Some [7, 8, 9]" "unat (ti_payload_len ?m) \<le> length [7, 8, 9 :: u8]"
    "MQTTSerialize_publishLength 1 (mqtt_cstring [97]) (unat (ti_payload_len ?m)) < 268435456"
    "unat (packet_id demo_client) \<le> 65535"
    by (simp_all add: demo_client_def demo_msg_def demo_up_def up_processed_def MQTTSerialize_publishLength_def MQTTstrlen_def
        mqtt_cstring_def MQTTString_initializer_def)
  have q: "list_pub_wait_ack demo_client = []" "ti_retain ?m = 0" by (simp_all add: demo_client_def demo_msg_def)
  from publish_qos1 [OF h r(1)] r q show ?thesis by (auto simp: Let_def)
qed

text \<open>
  Property C8: When the acknowledgement of a publication arrives and there is memory for an iterator over the
  queue, then and in the next supervision round, that round, if it keeps the connection, leaves no entry
  with the packet id in the retransmission queue. The application is told of the success once in any
  case: without memory for the iterator the queue stays as it is and the publication will be sent
  again, although it was reported as acknowledged.
\<close>

theorem puback_clears:
  assumes "buf_read c = [header_byte PUBACK 0 0 0, 2] @ be16 (unat pid) @ rest" and "list_pub_wait_ack c \<noteq> []"
    and "iotx_mc_handle_recv_PUBACK e c w = Some (rc, c1, w1)"
  shows "rc = SUCCESS_RETURN \<and>
    w1 = notify_client e c (IOTX_MQTT_EVENT_PUBLISH_SUCCESS pid) (snd (list_iterator_made e w)) \<and>
    (if fst (list_iterator_made e w)
     then \<forall>w2 rc' c2 w3. fst (list_iterator_made e w2) \<and> MQTTPubInfoProc e c1 w2 = Some (rc', c2, w3) \<and>
            client_state c2 \<noteq> IOTX_MC_STATE_DISCONNECTED \<longrightarrow>
            list_all (\<lambda>i. pub_msg_id i \<noteq> pid) (list_pub_wait_ack c2)
     else c1 = c)"
proof -
  obtain ok wi where it: "list_iterator_made e w = (ok, wi)" by fastforce
  have mask: "iotx_mc_mask_pubInfo_from e c pid w =
      (if ok then c\<lparr>list_pub_wait_ack := map (mask_pub pid) (list_pub_wait_ack c)\<rparr> else c, wi)"
    using assms(2) it by (simp add: iotx_mc_mask_pubInfo_from_def)
  have "iotx_mc_handle_recv_PUBACK e c w = Some (SUCCESS_RETURN,
      if ok then c\<lparr>list_pub_wait_ack := map (mask_pub pid) (list_pub_wait_ack c)\<rparr> else c,
      notify_client e c (IOTX_MQTT_EVENT_PUBLISH_SUCCESS pid) wi)"
    by (rule recv_PUBACK_eq [OF assms(1) mask])
  then have r: "rc = SUCCESS_RETURN" "w1 = notify_client e c (IOTX_MQTT_EVENT_PUBLISH_SUCCESS pid) wi"
    "c1 = (if ok then c\<lparr>list_pub_wait_ack := map (mask_pub pid) (list_pub_wait_ack c)\<rparr> else c)"
    unfolding assms(3) by (simp_all only: option.inject prod.inject)
  have mark: "pub_msg_id (mask_pub pid i) = pid \<longrightarrow> pub_node_state (mask_pub pid i) = IOTX_MC_NODE_STATE_INVALID" for i
    by (simp add: mask_pub_def)
  have masked: "ok \<Longrightarrow> list_all (\<lambda>i. pub_msg_id i = pid \<longrightarrow> pub_node_state i = IOTX_MC_NODE_STATE_INVALID) (list_pub_wait_ack c1)"
    unfolding r(3) using mark by (simp add: list_all_iff)
  have "if ok then \<forall>w2 rc' c2 w3. fst (list_iterator_made e w2) \<and> MQTTPubInfoProc e c1 w2 = Some (rc', c2, w3) \<and>
            client_state c2 \<noteq> IOTX_MC_STATE_DISCONNECTED \<longrightarrow>
            list_all (\<lambda>i. pub_msg_id i \<noteq> pid) (list_pub_wait_ack c2) else c1 = c"
  proof (cases ok)
    case True
    then show ?thesis
      by (simp only: if_True) (intro allI impI, elim conjE, rule puback_sweep [OF masked])
  next
    case False
    with r(3) show ?thesis by simp
  qed
  with r(1,2) show ?thesis unfolding it fst_conv snd_conv by (intro conjI)
qed

theorem puback_clears_witness:
  "let c = demo_client\<lparr>buf_read := [header_byte PUBACK 0 0 0, 2] @ be16 (unat (5 :: u16)) @ [], list_pub_wait_ack :=
     [\<lparr>pub_start_time = \<lparr>time = 0\<rparr>, pub_node_state = IOTX_MC_NODE_STATE_NORMANL, pub_msg_id = 5, pub_len = 0, pub_buf = []\<rparr>]\<rparr>
   in \<exists>c1 c2 w2. iotx_mc_handle_recv_PUBACK demo_env c ([], []) = Some (SUCCESS_RETURN, c1, ([], [9])) \<and>
        MQTTPubInfoProc demo_env c1 ([], [9]) = Some (SUCCESS_RETURN, c2, w2) \<and> 
        list_all (\<lambda>i. pub_msg_id i \<noteq> 5) (list_pub_wait_ack c2)"
proof -
  define c where "c = demo_client\<lparr>buf_read := [header_byte PUBACK 0 0 0, 2] @ be16 (unat (5 :: u16)) @ [], list_pub_wait_ack :=
     [\<lparr>pub_start_time = \<lparr>time = 0\<rparr>, pub_node_state = IOTX_MC_NODE_STATE_NORMANL, pub_msg_id = 5, pub_len = 0, pub_buf = []\<rparr>]\<rparr>"
  have run: "case iotx_mc_handle_recv_PUBACK demo_env c ([], []) of
      None \<Rightarrow> False
    | Some (rc, c1, w1) \<Rightarrow> rc = SUCCESS_RETURN \<and> w1 = ([], [9]) \<and>
        (case MQTTPubInfoProc demo_env c1 w1 of None \<Rightarrow> False | Some (rc, c2, w2) \<Rightarrow>
           rc = SUCCESS_RETURN \<and> client_state c2 = IOTX_MC_STATE_CONNECTED)"
    unfolding c_def by code_simp
  then obtain c1 c2 w2 where
    r: "iotx_mc_handle_recv_PUBACK demo_env c ([], []) = Some (SUCCESS_RETURN, c1, ([], [9]))"
      "MQTTPubInfoProc demo_env c1 ([], [9]) = Some (SUCCESS_RETURN, c2, w2)"
      "client_state c2 = IOTX_MC_STATE_CONNECTED"
    by (auto split: option.splits prod.splits)
  have "buf_read c = [header_byte PUBACK 0 0 0, 2] @ be16 (unat (5 :: u16)) @ []" "list_pub_wait_ack c \<noteq> []"
    by (simp_all add: c_def)
  from puback_clears [OF this r(1)]
  have "\<forall>w2 rc' c2 w3. MQTTPubInfoProc demo_env c1 w2 = Some (rc', c2, w3) \<and>
      client_state c2 \<noteq> IOTX_MC_STATE_DISCONNECTED \<longrightarrow> list_all (\<lambda>i. pub_msg_id i \<noteq> 5) (list_pub_wait_ack c2)"
    unfolding list_iterator_made_def demo_env_simps fst_conv if_True by blast
  then have "list_all (\<lambda>i. pub_msg_id i \<noteq> 5) (list_pub_wait_ack c2)"
    using r(2,3) by (metis iotx_mc_state_t.distinct)
  with r(1,2) show ?thesis
    unfolding c_def [symmetric] Let_def by blast
qed

text \<open>
  A construction that returns a client has completed the MQTT handshake: the client
  is connected and the last packet in its read buffer is a CONNACK with return code 0.
\<close>

theorem construct_handshake:
  assumes "IOT_MQTT_Construct e (Some p) w = Some (Some c, w')"
  shows "client_state c = IOTX_MC_STATE_CONNECTED \<and>
    (\<exists>sp. MQTTDeserialize_connack 0 255 (buf_read c) = Some (1, sp, 0))"
  by (rule construct_connected [OF assms])

theorem construct_handshake_witness:
  "\<exists>c w. IOT_MQTT_Construct demo_env (Some demo_params) ([0x20, 2, 0, 0], []) = Some (Some c, w) \<and>
     client_state c = IOTX_MC_STATE_CONNECTED"
proof -
  obtain c w where "IOT_MQTT_Construct demo_env (Some demo_params) ([0x20, 2, 0, 0], []) = Some (Some c, w)"
    by (rule demo_constructed)
  with construct_handshake [OF this] show ?thesis by blast
qed

text \<open>
  A lost connection is reported once and regained only by a handshake. The keep-alive
  of a disconnected client reports the disconnection, closes the socket, resets the interval to one
  second and goes on to reconnecting; the keep-alive of a reconnecting client reports a reconnection
  exactly when the attempt succeeded, and then the client is connected with an accepted CONNACK.
\<close>

theorem keepalive_reconnects:
  assumes "reconnect_open c" and "iotx_mc_keepalive e c w = Some (c', w')"
  shows "(client_state c = IOTX_MC_STATE_DISCONNECTED \<longrightarrow>
      (\<exists>now w1. uptime e (notify_client e c IOTX_MQTT_EVENT_DISCONNECT w) = (now, w1) \<and>
        c' = c\<lparr>reconnect_time_interval_ms := 1000, reconnect_next_time := \<lparr>time = now + 1000\<rparr>,
          client_state := IOTX_MC_STATE_DISCONNECTED_RECONNECTING\<rparr> \<and> w' = snd (net_disconnect e w1))) \<and>
    (client_state c = IOTX_MC_STATE_DISCONNECTED_RECONNECTING \<longrightarrow>
      (\<exists>rc c1 w1. iotx_mc_handle_reconnect e (c\<lparr>ping_mark := 0\<rparr>) w = Some (rc, c1, w1) \<and>
        (if rc = SUCCESS_RETURN
         then c' = c1\<lparr>reconnect_time_interval_ms := 1000\<rparr> \<and> w' = notify_client e c1 IOTX_MQTT_EVENT_RECONNECT w1 \<and>
           client_state c1 = IOTX_MC_STATE_CONNECTED \<and>
           (\<exists>sp. MQTTDeserialize_connack 0 255 (buf_read c1) = Some (1, sp, 0))
         else c' = c1 \<and> w' = w1)))"
proof (intro conjI impI)
  assume "client_state c = IOTX_MC_STATE_DISCONNECTED"
  from keepalive_disconnected [OF this assms(1), of e w] assms(2) show
    "\<exists>now w1. uptime e (notify_client e c IOTX_MQTT_EVENT_DISCONNECT w) = (now, w1) \<and>
        c' = c\<lparr>reconnect_time_interval_ms := 1000, reconnect_next_time := \<lparr>time = now + 1000\<rparr>,
          client_state := IOTX_MC_STATE_DISCONNECTED_RECONNECTING\<rparr> \<and> w' = snd (net_disconnect e w1)"
    by (auto split: prod.splits)
next
  assume "client_state c = IOTX_MC_STATE_DISCONNECTED_RECONNECTING"
  from keepalive_reconnecting [OF this assms] obtain rc w1 c1 where
    h: "iotx_mc_handle_reconnect e (c\<lparr>ping_mark := 0\<rparr>) w = Some (rc, c1, w1)"
    and r: "if rc = SUCCESS_RETURN
     then c' = c1\<lparr>reconnect_time_interval_ms := 1000\<rparr> \<and> w' = notify_client e c1 IOTX_MQTT_EVENT_RECONNECT w1
     else c' = c1 \<and> w' = w1" by blast
  show "\<exists>rc c1 w1. iotx_mc_handle_reconnect e (c\<lparr>ping_mark := 0\<rparr>) w = Some (rc, c1, w1) \<and>
        (if rc = SUCCESS_RETURN
         then c' = c1\<lparr>reconnect_time_interval_ms := 1000\<rparr> \<and> w' = notify_client e c1 IOTX_MQTT_EVENT_RECONNECT w1 \<and>
           client_state c1 = IOTX_MC_STATE_CONNECTED \<and>
           (\<exists>sp. MQTTDeserialize_connack 0 255 (buf_read c1) = Some (1, sp, 0))
         else c' = c1 \<and> w' = w1)"
    using h r handle_reconnect_success [of e "c\<lparr>ping_mark := 0\<rparr>" w c1 w1] by (intro exI conjI) auto
qed

theorem keepalive_reconnects_witness:
  "\<exists>c'. iotx_mc_keepalive demo_env (demo_client\<lparr>client_state := IOTX_MC_STATE_DISCONNECTED\<rparr>) ([], []) = Some (c', ([], [9])) \<and>
     client_state c' = IOTX_MC_STATE_DISCONNECTED_RECONNECTING"
  using keepalive_reconnects [of "demo_client\<lparr>client_state := IOTX_MC_STATE_DISCONNECTED\<rparr>" demo_env "([], [])"]
  by (simp add: keepalive_disconnected notify_client_def demo_client_def)

text \<open>
  Property C28: the reconnect interval doubles from one second with every failed attempt up to 64
  seconds, then stays at the maximum of 60; the random addition, which the platform keeps within
  the interval, never makes a wait longer than 60 seconds, and no sum wraps.
\<close>

theorem backoff:
  assumes "i = (next_interval ^^ k) 1000" and "r \<le> i"
  shows "unat i = (if k \<le> 6 then 1000 * 2 ^ k else 60000) \<and>
    unat (reconnect_wait i r) = min 60000 (unat i + unat r)"
proof -
  have "k \<le> 6 \<Longrightarrow> (2 :: nat) ^ k \<le> 64" using power_increasing [of k 6 "2 :: nat"] by simp
  then have "unat i < 120000" using backoff_eq [of k] assms(1) by auto
  with unat_reconnect_wait assms backoff_eq show ?thesis by (simp add: word_le_nat_alt)
qed

theorem backoff_witness: "unat ((next_interval ^^ 3) 1000) = 8000 \<and> unat (reconnect_wait 8000 5000) = 13000"
proof -
  have i: "(8000 :: u32) = (next_interval ^^ 3) 1000" by (simp add: next_interval_def numeral_3_eq_3)
  show ?thesis using backoff [OF i, of 5000] by (simp add: i [symmetric])
qed

end
