(* ===== verification/Coap_Packet.thy ===== *)
theory Coap_Packet
  imports Iotkit_Prelude
begin

text \<open>
  The CoAP packet codec (sdk/comm/coap/CoAPPacket: CoAPSerialize.c, CoAPDeserialize.c and the data
  of CoAPExport.h).

  A message under construction owns its option values and its payload; a parsed message points
  into the receive buffer. Both are \<open>bytes option\<close>: the bytes reachable from the pointer,
  \<open>None\<close> for \<open>NULL\<close>. Reads through such a pointer are checked. Handlers and user data are
  numbers, \<open>0\<close> is \<open>NULL\<close>. The two fixed arrays of the message are lists of 8 and 16 elements;
  an access outside them is undefined (\<open>None\<close>).
\<close>

section \<open>Messages\<close>

abbreviation (input) COAP_SUCCESS :: int where "COAP_SUCCESS \<equiv> 0"
abbreviation (input) COAP_ERROR_INVALID_PARAM :: int where "COAP_ERROR_INVALID_PARAM \<equiv> 257"
abbreviation (input) COAP_ERROR_NULL :: int where "COAP_ERROR_NULL \<equiv> 258"
abbreviation (input) COAP_ERROR_INVALID_LENGTH :: int where "COAP_ERROR_INVALID_LENGTH \<equiv> 259"
abbreviation (input) COAP_ERROR_DATA_SIZE :: int where "COAP_ERROR_DATA_SIZE \<equiv> 260"
abbreviation (input) COAP_ERROR_NOT_FOUND :: int where "COAP_ERROR_NOT_FOUND \<equiv> 262"
abbreviation (input) COAP_ERROR_WRITE_FAILED :: int where "COAP_ERROR_WRITE_FAILED \<equiv> 265"

abbreviation (input) COAP_MESSAGE_TYPE_CON :: u8 where "COAP_MESSAGE_TYPE_CON \<equiv> 0"
abbreviation (input) COAP_MESSAGE_TYPE_NON :: u8 where "COAP_MESSAGE_TYPE_NON \<equiv> 1"
abbreviation (input) COAP_MESSAGE_TYPE_ACK :: u8 where "COAP_MESSAGE_TYPE_ACK \<equiv> 2"
abbreviation (input) COAP_MESSAGE_TYPE_RST :: u8 where "COAP_MESSAGE_TYPE_RST \<equiv> 3"

record CoAPMsgHeader =
  hdr_version :: u8
  hdr_type :: u8
  hdr_tokenlen :: u8
  hdr_code :: u8
  hdr_msgid :: u16

record CoAPMsgOption =
  opt_num :: u16
  opt_len :: u16
  opt_val :: "bytes option"

record CoAPMessage =
  msg_header :: CoAPMsgHeader
  msg_token :: bytes
  msg_options :: "CoAPMsgOption list"
  msg_optnum :: u8
  msg_optdelta :: u8
  msg_payload :: "bytes option"
  msg_payloadlen :: u16
  msg_observer :: u8
  msg_topic :: "bytes option"
  msg_handler :: nat
  msg_user :: nat

text \<open>\<open>memset(&message, 0, sizeof(CoAPMessage))\<close>\<close>

definition zero_option :: CoAPMsgOption where
  "zero_option = \<lparr>opt_num = 0, opt_len = 0, opt_val = None\<rparr>"

definition zero_message :: CoAPMessage where
  "zero_message =
     \<lparr>msg_header = \<lparr>hdr_version = 0, hdr_type = 0, hdr_tokenlen = 0, hdr_code = 0, hdr_msgid = 0\<rparr>,
      msg_token = replicate 8 0, msg_options = replicate 16 zero_option, msg_optnum = 0,
      msg_optdelta = 0, msg_payload = None, msg_payloadlen = 0, msg_observer = 0,
      msg_topic = None, msg_handler = 0, msg_user = 0\<rparr>"

section \<open>Serialising\<close>

text \<open>
  Every function writes at offset \<open>p\<close> of the buffer and returns its result with the new buffer.
  \<open>buflen\<close> is the size the caller announces.
\<close>

definition CoAPSerialize_Header :: "CoAPMessage \<Rightarrow> bytes \<Rightarrow> nat \<Rightarrow> u16 \<Rightarrow> (int \<times> bytes) option" where
  "CoAPSerialize_Header msg buf p buflen =
     (let h = msg_header msg in
      if 4 > buflen then Some (0, buf)
      else do {
        (buf, _) \<leftarrow> put_bytes
           [push_bit 6 (hdr_version h AND 0x3) OR push_bit 4 (hdr_type h AND 0x3) OR (hdr_tokenlen h AND 0x0F),
            hdr_code h,
            ucast (drop_bit 8 (hdr_msgid h AND 0xFF00)),
            ucast (hdr_msgid h AND 0x00FF)] (buf, p);
        Some (4, buf) })"

definition CoAPSerialize_Token :: "CoAPMessage \<Rightarrow> bytes \<Rightarrow> nat \<Rightarrow> u16 \<Rightarrow> (int \<times> bytes) option" where
  "CoAPSerialize_Token msg buf p buflen =
     (let n = hdr_tokenlen (msg_header msg) in
      if unat buflen < unat n then Some (0, buf)
      else do {
        t \<leftarrow> rd_bytes (msg_token msg) 0 (unat n);
        (buf, _) \<leftarrow> put_bytes t (buf, p);
        Some (int (unat n), buf) })"

text \<open>The four option fields: the first byte, the extended number, the extended length, the value.\<close>

definition option_head :: "u16 \<Rightarrow> u16 \<Rightarrow> u8" where
  "option_head num olen =
     (if 269 \<le> num then push_bit 4 (14 AND 0x0F)
      else if 13 \<le> num then push_bit 4 (13 AND 0x0F)
      else push_bit 4 (ucast num)) OR
     (if 269 \<le> olen then 14 AND 0x0F
      else if 13 \<le> olen then 13 AND 0x0F
      else ucast olen AND 0x0F)"

definition option_ext :: "u16 \<Rightarrow> bytes" where
  "option_ext v =
     (if 269 \<le> v then [ucast (drop_bit 8 ((v - 269) AND 0xFF00)), ucast ((v - 269) AND 0x00FF)]
      else if 13 \<le> v then [ucast (v - 13)]
      else [])"

definition CoAPSerialize_Option :: "CoAPMsgOption \<Rightarrow> bytes \<Rightarrow> nat \<Rightarrow> (u16 \<times> bytes) option" where
  "CoAPSerialize_Option opt buf p = do {
     c \<leftarrow> put_bytes [option_head (opt_num opt) (opt_len opt)] (buf, p);
     c \<leftarrow> put_bytes (option_ext (opt_num opt)) c;
     c \<leftarrow> put_bytes (option_ext (opt_len opt)) c;
     v \<leftarrow> (if opt_len opt = 0 then Some [] else opt_val opt \<bind> (\<lambda>v. rd_bytes v 0 (unat (opt_len opt))));
     (buf, q) \<leftarrow> put_bytes v c;
     Some (of_nat (q - p), buf) }"

fun serialize_options_loop :: "CoAPMsgOption list \<Rightarrow> bytes \<Rightarrow> nat \<Rightarrow> u16 \<Rightarrow> (u16 \<times> bytes) option" where
  "serialize_options_loop [] buf p count = Some (count, buf)"
| "serialize_options_loop (opt # opts) buf p count = do {
     (n, buf) \<leftarrow> CoAPSerialize_Option opt buf (p + unat count);
     if 0 < n then serialize_options_loop opts buf p (count + n) else Some (0, buf) }"

text \<open>\<open>optnum\<close> beyond the 16 elements reads past the array.\<close>

definition CoAPSerialize_Options :: "CoAPMessage \<Rightarrow> bytes \<Rightarrow> nat \<Rightarrow> (u16 \<times> bytes) option" where
  "CoAPSerialize_Options msg buf p =
     (if unat (msg_optnum msg) \<le> length (msg_options msg)
      then serialize_options_loop (take (unat (msg_optnum msg)) (msg_options msg)) buf p 0
      else None)"

definition CoAPSerialize_OptionLen :: "CoAPMsgOption \<Rightarrow> u16" where
  "CoAPSerialize_OptionLen opt =
     1 + (if 269 \<le> opt_num opt then 2 else if 13 \<le> opt_num opt then 1 else 0)
       + (if 269 \<le> opt_len opt then 2 else if 13 \<le> opt_len opt then 1 else 0) + opt_len opt"

fun options_len_loop :: "CoAPMsgOption list \<Rightarrow> u16 \<Rightarrow> u16" where
  "options_len_loop [] count = count"
| "options_len_loop (opt # opts) count =
     (let n = CoAPSerialize_OptionLen opt in if 0 < n then options_len_loop opts (count + n) else 0)"

definition CoAPSerialize_OptionsLen :: "CoAPMessage \<Rightarrow> u16 option" where
  "CoAPSerialize_OptionsLen msg =
     (if unat (msg_optnum msg) \<le> length (msg_options msg)
      then Some (options_len_loop (take (unat (msg_optnum msg)) (msg_options msg)) 0)
      else None)"

text \<open>\<open>buflen\<close> is an \<open>int\<close> here.\<close>

definition CoAPSerialize_Payload :: "CoAPMessage \<Rightarrow> bytes \<Rightarrow> nat \<Rightarrow> int \<Rightarrow> (int \<times> bytes) option" where
  "CoAPSerialize_Payload msg buf p buflen =
     (if int (unat (msg_payloadlen msg)) + 1 > buflen then Some (-1, buf)
      else case msg_payload msg of
        None \<Rightarrow> Some (0, buf)
      | Some d \<Rightarrow>
          if msg_payloadlen msg > 0 then do {
            c \<leftarrow> put_bytes [0xFF] (buf, p);
            d \<leftarrow> rd_bytes d 0 (unat (msg_payloadlen msg));
            (buf, _) \<leftarrow> put_bytes d c;
            Some (int (unat (msg_payloadlen msg)) + 1, buf) }
          else Some (0, buf))"

definition CoAPSerialize_MessageLength :: "CoAPMessage \<Rightarrow> u16 option" where
  "CoAPSerialize_MessageLength msg = do {
     n \<leftarrow> CoAPSerialize_OptionsLen msg;
     Some (4 + ucast (hdr_tokenlen (msg_header msg)) + n +
       (if 0 < msg_payloadlen msg then msg_payloadlen msg + 1 else 0)) }"

text \<open>
  The counts are stored in an \<open>unsigned short\<close>, so the \<open>-1\<close> of a payload that does not fit
  becomes 65535 and moves the pointer and the remaining length by that.
\<close>

definition CoAPSerialize_Message :: "CoAPMessage \<Rightarrow> bytes \<Rightarrow> u16 \<Rightarrow> (int \<times> bytes) option" where
  "CoAPSerialize_Message msg buf buflen = do {
     let (ptr, remlen) = (0, buflen);
     (rc, buf) \<leftarrow> CoAPSerialize_Header msg buf ptr remlen;
     let count = (of_int rc :: u16);
     let (ptr, remlen) = (ptr + unat count, remlen - count);
     (rc, buf) \<leftarrow> CoAPSerialize_Token msg buf ptr remlen;
     let count = (of_int rc :: u16);
     let (ptr, remlen) = (ptr + unat count, remlen - count);
     (count, buf) \<leftarrow> CoAPSerialize_Options msg buf ptr;
     let (ptr, remlen) = (ptr + unat count, remlen - count);
     (rc, buf) \<leftarrow> CoAPSerialize_Payload msg buf ptr (int (unat remlen));
     let count = (of_int rc :: u16);
     let remlen = remlen - count;
     Some (int (unat buflen) - int (unat remlen), buf) }"

section \<open>Parsing\<close>

definition CoAPDeserialize_Header :: "CoAPMessage \<Rightarrow> bytes \<Rightarrow> nat \<Rightarrow> (nat \<times> CoAPMessage) option" where
  "CoAPDeserialize_Header msg buf p = do {
     b0 \<leftarrow> rd buf p;
     b1 \<leftarrow> rd buf (p + 1);
     b2 \<leftarrow> rd buf (p + 2);
     b3 \<leftarrow> rd buf (p + 3);
     Some (4, msg\<lparr>msg_header :=
       \<lparr>hdr_version = drop_bit 6 b0 AND 0x03, hdr_type = drop_bit 4 b0 AND 0x03,
        hdr_tokenlen = b0 AND 0x0F, hdr_code = b1,
        hdr_msgid = push_bit 8 (ucast b2) + ucast b3\<rparr>\<rparr>) }"

text \<open>\<open>memcpy\<close> into the token array of the message.\<close>

definition CoAPDeserialize_Token :: "CoAPMessage \<Rightarrow> bytes \<Rightarrow> nat \<Rightarrow> (nat \<times> CoAPMessage) option" where
  "CoAPDeserialize_Token msg buf p = do {
     let n = unat (hdr_tokenlen (msg_header msg));
     t \<leftarrow> rd_bytes buf p n;
     tok \<leftarrow> wr_bytes (msg_token msg) 0 t;
     Some (n, msg\<lparr>msg_token := tok\<rparr>) }"

text \<open>
  One option at offset \<open>p\<close>: the number of bytes it takes, the option, and the running number
  that the next delta is added to. The value 15 of the reserved nibble is taken as it is.
\<close>

definition CoAPDeserialize_Option :: "bytes \<Rightarrow> nat \<Rightarrow> u16 \<Rightarrow> (nat \<times> CoAPMsgOption \<times> u16) option" where
  "CoAPDeserialize_Option buf p predeltas = do {
     b \<leftarrow> rd buf p;
     let optdelta = (ucast (drop_bit 4 (b AND 0xF0)) :: u16);
     let optlen = (ucast (b AND 0x0F) :: u16);
     let ptr = p + 1;
     (predelta, ptr) \<leftarrow>
       (if optdelta = 13 then do { x \<leftarrow> rd buf ptr; Some (predeltas + (13 + ucast x), ptr + 1) }
        else if optdelta = 14 then do {
          x \<leftarrow> rd buf ptr; y \<leftarrow> rd buf (ptr + 1);
          Some (predeltas + 269 + push_bit 8 (ucast x) + ucast y, ptr + 2) }
        else Some (predeltas + optdelta, ptr));
     (optlen, ptr) \<leftarrow>
       (if optlen = 13 then do { x \<leftarrow> rd buf ptr; Some (13 + ucast x, ptr + 1) }
        else if optlen = 14 then do {
          x \<leftarrow> rd buf ptr; y \<leftarrow> rd buf (ptr + 1);
          Some (269 + push_bit 8 (ucast x) + ucast y, ptr + 2) }
        else Some (optlen, ptr));
     Some (ptr - p + unat optlen,
       \<lparr>opt_num = predelta, opt_len = optlen, opt_val = Some (drop ptr buf)\<rparr>, predelta) }"

text \<open>
  The loop of \<open>CoAPDeserialize_Options\<close>: \<open>ptr\<close> is the offset, \<open>index\<close> the slot of the next
  option; a 17th option is written past the array. The count of one option is an
  \<open>unsigned short\<close>.
\<close>

function deserialize_options_loop ::
    "bytes \<Rightarrow> int \<Rightarrow> CoAPMsgOption list \<Rightarrow> nat \<Rightarrow> nat \<Rightarrow> int \<Rightarrow> u16 \<Rightarrow> u8 \<Rightarrow>
     (CoAPMsgOption list \<times> u8 \<times> nat) option" where
  "deserialize_options_loop buf buflen opts index ptr count optdeltas optnum =
     (if count < buflen then do {
        b \<leftarrow> rd buf ptr;
        if b = 0xFF then Some (opts, optnum, ptr)
        else if index < length opts then do {
          (k, opt, optdeltas) \<leftarrow> CoAPDeserialize_Option buf ptr optdeltas;
          let n = unat (of_nat k :: u16);
          deserialize_options_loop buf buflen (opts[index := opt]) (index + 1) (ptr + n) (count + int n)
            optdeltas (optnum + 1) }
        else None }
      else Some (opts, optnum, ptr))"
  by pat_completeness auto
termination
  by (relation "measure (\<lambda>(buf, buflen, opts, index, _). length opts - index)") auto

declare deserialize_options_loop.simps [simp del]

definition CoAPDeserialize_Options :: "CoAPMessage \<Rightarrow> bytes \<Rightarrow> nat \<Rightarrow> int \<Rightarrow> (int \<times> CoAPMessage) option" where
  "CoAPDeserialize_Options msg buf p buflen = do {
     (opts, optnum, ptr) \<leftarrow> deserialize_options_loop buf buflen (msg_options msg) 0 p 0 0 0;
     Some (int ptr - int p, msg\<lparr>msg_options := opts, msg_optnum := optnum\<rparr>) }"

definition CoAPDeserialize_Payload :: "CoAPMessage \<Rightarrow> bytes \<Rightarrow> nat \<Rightarrow> int \<Rightarrow> (int \<times> CoAPMessage) option" where
  "CoAPDeserialize_Payload msg buf p buflen = do {
     b \<leftarrow> rd buf p;
     if b = 0xFF
     then Some (buflen, msg\<lparr>msg_payloadlen := of_int (buflen - 1), msg_payload := Some (drop (p + 1) buf)\<rparr>)
     else Some (0, msg) }"

definition CoAPDeserialize_Message :: "CoAPMessage \<Rightarrow> bytes \<Rightarrow> int \<Rightarrow> (int \<times> CoAPMessage) option" where
  "CoAPDeserialize_Message msg buf buflen =
     (if buflen < 4 then Some (COAP_ERROR_INVALID_LENGTH, msg)
      else do {
        (count, msg) \<leftarrow> CoAPDeserialize_Header msg buf 0;
        let (ptr, remlen) = (count, buflen - int count);
        (count, msg) \<leftarrow> CoAPDeserialize_Token msg buf ptr;
        let (ptr, remlen) = (ptr + count, remlen - int count);
        (count, msg) \<leftarrow> CoAPDeserialize_Options msg buf ptr remlen;
        let (ptr, remlen) = (nat (int ptr + count), remlen - count);
        (_, msg) \<leftarrow> CoAPDeserialize_Payload msg buf ptr remlen;
        Some (COAP_SUCCESS, msg) })"

section \<open>The encoding of RFC 7252\<close>

text \<open>
  The nibble and the extension bytes of an option number or length, an option, and a whole
  message.
\<close>

definition nibble :: "nat \<Rightarrow> nat" where
  "nibble n = (if n < 13 then n else if n < 269 then 13 else 14)"

definition ext_bytes :: "nat \<Rightarrow> bytes" where
  "ext_bytes n = (if n < 13 then [] else if n < 269 then [of_nat (n - 13)] else be16 (n - 269))"

definition coap_option :: "nat \<Rightarrow> bytes \<Rightarrow> bytes" where
  "coap_option delta v =
     of_nat (16 * nibble delta + nibble (length v)) # ext_bytes delta @ ext_bytes (length v) @ v"

definition option_ok :: "CoAPMsgOption \<Rightarrow> bool" where
  "option_ok opt \<longleftrightarrow> opt_len opt = 0 \<or>
     (case opt_val opt of None \<Rightarrow> False | Some v \<Rightarrow> unat (opt_len opt) \<le> length v)"

definition option_value :: "CoAPMsgOption \<Rightarrow> bytes" where
  "option_value opt = (case opt_val opt of None \<Rightarrow> [] | Some v \<Rightarrow> take (unat (opt_len opt)) v)"

definition option_bytes :: "CoAPMsgOption \<Rightarrow> bytes" where
  "option_bytes opt = coap_option (unat (opt_num opt)) (option_value opt)"

definition used_options :: "CoAPMessage \<Rightarrow> CoAPMsgOption list" where
  "used_options msg = take (unat (msg_optnum msg)) (msg_options msg)"

definition header_bytes :: "CoAPMsgHeader \<Rightarrow> bytes" where
  "header_bytes h =
     of_nat (64 * unat (hdr_version h) + 16 * unat (hdr_type h) + unat (hdr_tokenlen h)) # hdr_code h #
     be16 (unat (hdr_msgid h))"

definition token_of :: "CoAPMessage \<Rightarrow> bytes" where
  "token_of msg = take (unat (hdr_tokenlen (msg_header msg))) (msg_token msg)"

definition payload_of :: "CoAPMessage \<Rightarrow> bytes" where
  "payload_of msg =
     (case msg_payload msg of None \<Rightarrow> [] | Some d \<Rightarrow> take (unat (msg_payloadlen msg)) d)"

definition coap_message :: "CoAPMessage \<Rightarrow> bytes" where
  "coap_message msg =
     header_bytes (msg_header msg) @ token_of msg @ concat (map option_bytes (used_options msg)) @
     (if payload_of msg = [] then [] else 0xFF # payload_of msg)"

text \<open>
  A message as the setters build it: bit fields in range, arrays of their size, every value and the
  payload as long as announced.
\<close>

definition message_ok :: "CoAPMessage \<Rightarrow> bool" where
  "message_ok msg \<longleftrightarrow>
     unat (hdr_version (msg_header msg)) < 4 \<and> unat (hdr_type (msg_header msg)) < 4 \<and>
     unat (hdr_tokenlen (msg_header msg)) \<le> 8 \<and> length (msg_token msg) = 8 \<and>
     length (msg_options msg) = 16 \<and> unat (msg_optnum msg) \<le> 16 \<and>
     list_all option_ok (used_options msg) \<and>
     (case msg_payload msg of None \<Rightarrow> msg_payloadlen msg = 0 | Some d \<Rightarrow> unat (msg_payloadlen msg) \<le> length d)"

section \<open>Bit fields\<close>

lemma nibble_less: "nibble n < 15"
  by (simp add: nibble_def)

lemma nibble_pairs:
  "\<forall>a \<in> set [0..<16]. \<forall>b \<in> set [0..<16].
     push_bit 4 (of_nat a :: u8) OR of_nat b = of_nat (16 * a + b) \<and>
     drop_bit 4 ((of_nat (16 * a + b) :: u8) AND 0xF0) = of_nat a \<and>
     (of_nat (16 * a + b) :: u8) AND 0x0F = of_nat b"
  by code_simp

lemma nibble_or: "a < 16 \<Longrightarrow> b < 16 \<Longrightarrow> push_bit 4 (of_nat a :: u8) OR of_nat b = of_nat (16 * a + b)"
  and nibble_high: "a < 16 \<Longrightarrow> b < 16 \<Longrightarrow> drop_bit 4 ((of_nat (16 * a + b) :: u8) AND 0xF0) = of_nat a"
  and nibble_low: "a < 16 \<Longrightarrow> b < 16 \<Longrightarrow> (of_nat (16 * a + b) :: u8) AND 0x0F = of_nat b"
  using nibble_pairs by auto

lemma head_fields:
  "\<forall>v \<in> set [0..<4]. \<forall>t \<in> set [0..<4]. \<forall>n \<in> set [0..<9].
     push_bit 6 ((of_nat v :: u8) AND 3) OR push_bit 4 ((of_nat t :: u8) AND 3) OR (of_nat n AND 15) =
       of_nat (64 * v + 16 * t + n) \<and>
     drop_bit 6 (of_nat (64 * v + 16 * t + n) :: u8) AND 3 = of_nat v \<and>
     drop_bit 4 (of_nat (64 * v + 16 * t + n) :: u8) AND 3 = of_nat t \<and>
     (of_nat (64 * v + 16 * t + n) :: u8) AND 15 = of_nat n"
  by code_simp

lemma header_byte_nat:
  assumes "v < 4" "t < 4" "n \<le> 8"
  shows "push_bit 6 ((of_nat v :: u8) AND 3) OR push_bit 4 ((of_nat t :: u8) AND 3) OR (of_nat n AND 15) =
    of_nat (64 * v + 16 * t + n)"
  using head_fields assms by auto

lemma header_byte_eq:
  assumes "unat v < 4" "unat t < 4" "unat n \<le> 8"
  shows "push_bit 6 ((v :: u8) AND 0x3) OR push_bit 4 ((t :: u8) AND 0x3) OR ((n :: u8) AND 0x0F) =
    of_nat (64 * unat v + 16 * unat t + unat n)"
  using header_byte_nat [OF assms] by simp

lemma header_byte_fields:
  assumes "v < 4" "t < 4" "n \<le> 8"
  shows "drop_bit 6 (of_nat (64 * v + 16 * t + n) :: u8) AND 3 = of_nat v"
    "drop_bit 4 (of_nat (64 * v + 16 * t + n) :: u8) AND 3 = of_nat t"
    "(of_nat (64 * v + 16 * t + n) :: u8) AND 15 = of_nat n"
  using head_fields assms by auto

section \<open>Serialising stores exactly the encoding\<close>

lemma unat_16_269: "(269 \<le> (v :: u16)) = (269 \<le> unat v)" "(13 \<le> v) = (13 \<le> unat v)"
  by (simp_all add: word_le_nat_alt)

lemma unat_sub_16: "n \<le> unat v \<Longrightarrow> n < 65536 \<Longrightarrow> unat (v - of_nat n :: u16) = unat v - n"
  by (subst unat_sub) (simp_all add: word_le_nat_alt unat_of_nat)

lemma option_head_eq: "option_head num olen = of_nat (16 * nibble (unat num) + nibble (unat olen))"
proof -
  have u: "(ucast w :: u8) = of_nat (unat w)" for w :: u16 by simp
  have hi: "(if 269 \<le> num then push_bit 4 (14 AND 0x0F) else if 13 \<le> num then push_bit 4 (13 AND 0x0F)
      else push_bit 4 (ucast num)) = push_bit 4 (of_nat (nibble (unat num)) :: u8)"
    by (simp add: nibble_def unat_16_269)
  have lo: "(if 269 \<le> olen then 14 AND 0x0F else if 13 \<le> olen then 13 AND 0x0F else ucast olen AND 0x0F) =
      (of_nat (nibble (unat olen)) :: u8)"
  proof -
    have "unat olen < 13 \<Longrightarrow> (ucast olen :: u8) AND 0x0F = of_nat (unat olen)"
      using nibble_low [of 0 "unat olen"] by simp
    then show ?thesis by (simp add: nibble_def unat_16_269)
  qed
  show ?thesis
    unfolding option_head_def hi lo
    by (rule nibble_or) (use nibble_less in \<open>auto intro: less_trans\<close>)
qed

lemma option_ext_eq: "option_ext v = ext_bytes (unat v)"
proof -
  consider "unat v < 13" | "13 \<le> unat v" "unat v < 269" | "269 \<le> unat v" by linarith
  then show ?thesis
  proof cases
    case 1
    then show ?thesis by (simp add: option_ext_def ext_bytes_def unat_16_269)
  next
    case 2
    have "(ucast (v - 13) :: u8) = of_nat (unat (v - 13))" by simp
    also have "unat (v - 13) = unat v - 13" using unat_sub_16 [of 13 v] 2 by simp
    finally show ?thesis unfolding option_ext_def ext_bytes_def unat_16_269 using 2 by simp
  next
    case 3
    have d: "unat (v - 269) = unat v - 269" using unat_sub_16 [of 269 v] 3 by simp
    have "option_ext v = [ucast (drop_bit 8 ((v - 269) AND 0xFF00)), ucast ((v - 269) AND 0x00FF)]"
      using 3 by (simp only: option_ext_def unat_16_269 if_True)
    then show ?thesis
      unfolding ucast_high_byte ucast_low_byte d using 3 by (simp add: ext_bytes_def be16_def)
  qed
qed

lemma length_ext_bytes: "length (ext_bytes n) \<le> 2"
  by (simp add: ext_bytes_def)


lemma emits_eq: "emits w bs \<Longrightarrow> bs = bs' \<Longrightarrow> emits w bs'"
  by simp

lemma option_value_read:
  "option_ok opt \<Longrightarrow>
   (if opt_len opt = 0 then Some [] else opt_val opt \<bind> (\<lambda>v. rd_bytes v 0 (unat (opt_len opt)))) = Some (option_value opt)"
  by (auto simp: option_ok_def option_value_def rd_bytes_def split: option.splits)

lemma length_option_value: "option_ok opt \<Longrightarrow> length (option_value opt) = unat (opt_len opt)"
  by (auto simp: option_ok_def option_value_def split: option.splits)

lemma Serialize_Option_eq:
  assumes ok: "option_ok opt" and fit: "p + length (option_bytes opt) \<le> length buf"
  shows "CoAPSerialize_Option opt buf p =
    Some (of_nat (length (option_bytes opt)), overwrite buf p (option_bytes opt))"
proof -
  let ?a = "[option_head (opt_num opt) (opt_len opt)]" and ?b = "option_ext (opt_num opt)"
    and ?c = "option_ext (opt_len opt)" and ?v = "option_value opt"
  have bytes: "option_bytes opt = ?a @ ?b @ ?c @ ?v"
    by (simp add: option_bytes_def coap_option_def option_head_eq option_ext_eq length_option_value [OF ok])
  have "emits (\<lambda>c. put_bytes ?a c \<bind> (\<lambda>c. put_bytes ?b c \<bind> (\<lambda>c. put_bytes ?c c \<bind> put_bytes ?v))) (option_bytes opt)"
    unfolding bytes by (intro emits_bind emits_put_bytes)
  note run = emits_run [OF this fit]
  have "CoAPSerialize_Option opt buf p =
     (put_bytes ?a (buf, p) \<bind> (\<lambda>c. put_bytes ?b c \<bind> (\<lambda>c. put_bytes ?c c \<bind> put_bytes ?v))) \<bind>
     (\<lambda>(buf, q). Some (of_nat (q - p), buf))"
    by (simp only: CoAPSerialize_Option_def option_value_read [OF ok] Option.bind_assoc Option.bind.bind_lunit)
  then show ?thesis unfolding run by simp
qed

lemma serialize_options_loop_eq:
  assumes "list_all option_ok os" and "unat count + length (concat (map option_bytes os)) < 65536"
    and "p + unat count + length (concat (map option_bytes os)) \<le> length buf"
  shows "serialize_options_loop os buf p count =
    Some (count + of_nat (length (concat (map option_bytes os))), overwrite buf (p + unat count) (concat (map option_bytes os)))"
  using assms
proof (induction os arbitrary: buf count)
  case (Cons opt os)
  let ?bs = "option_bytes opt"
  have step: "CoAPSerialize_Option opt buf (p + unat count) = Some (of_nat (length ?bs), overwrite buf (p + unat count) ?bs)"
    using Cons.prems by (intro Serialize_Option_eq) auto
  have "length ?bs < 65536" using Cons.prems(2) by simp
  then have n: "unat (of_nat (length ?bs) :: u16) = length ?bs" by (simp add: unat_of_nat)
  have pos: "0 < length ?bs" by (simp add: option_bytes_def coap_option_def)
  have c: "unat (count + of_nat (length ?bs)) = unat count + length ?bs"
    using Cons.prems n by (simp add: unat_word_ariths)
  have "0 < (of_nat (length ?bs) :: u16)" using n pos by (simp add: word_less_nat_alt)
  with step Cons.IH [of "count + of_nat (length ?bs)" "overwrite buf (p + unat count) ?bs"] Cons.prems c
    overwrite_append [of "p + unat count" ?bs buf "concat (map option_bytes os)"] show ?case
    by (simp add: add.assoc)
qed simp


lemma OptionLen_eq:
  assumes "option_ok opt" and "length (option_bytes opt) < 65536"
  shows "CoAPSerialize_OptionLen opt = of_nat (length (option_bytes opt))"
proof -
  have "(of_nat (length (option_bytes opt)) :: u16) =
     1 + of_nat (length (ext_bytes (unat (opt_num opt)))) + of_nat (length (ext_bytes (unat (opt_len opt)))) + opt_len opt"
    using length_option_value [OF assms(1)] by (simp add: option_bytes_def coap_option_def)
  moreover have "(of_nat (length (ext_bytes (unat v))) :: u16) = (if 269 \<le> v then 2 else if 13 \<le> v then 1 else 0)" for v :: u16
    by (simp add: ext_bytes_def unat_16_269)
  ultimately show ?thesis unfolding CoAPSerialize_OptionLen_def by (simp only:)
qed

lemma options_len_loop_eq:
  assumes "list_all option_ok os" and "length (concat (map option_bytes os)) < 65536"
  shows "options_len_loop os count = count + of_nat (length (concat (map option_bytes os)))"
  using assms
proof (induction os arbitrary: count)
  case (Cons opt os)
  have l: "length (option_bytes opt) < 65536" using Cons.prems(2) by simp
  then have "unat (of_nat (length (option_bytes opt)) :: u16) = length (option_bytes opt)" by (simp add: unat_of_nat)
  moreover have "0 < length (option_bytes opt)" by (simp add: option_bytes_def coap_option_def)
  ultimately have "0 < (of_nat (length (option_bytes opt)) :: u16)" by (simp add: word_less_nat_alt)
  with Cons OptionLen_eq [OF _ l] show ?case by (simp add: Let_def add.assoc)
qed simp

lemma length_token_of: "message_ok msg \<Longrightarrow> length (token_of msg) = unat (hdr_tokenlen (msg_header msg))"
  by (simp add: message_ok_def token_of_def)

lemma length_payload_of: "message_ok msg \<Longrightarrow> length (payload_of msg) = unat (msg_payloadlen msg)"
  by (auto simp: message_ok_def payload_of_def split: option.splits)

lemma payload_empty: "message_ok msg \<Longrightarrow> payload_of msg = [] \<longleftrightarrow> msg_payloadlen msg = 0"
  using length_payload_of [of msg] by (metis length_0_conv unat_eq_zero)

lemma MessageLength_eq:
  assumes "message_ok msg" and "length (coap_message msg) < 65536"
  shows "CoAPSerialize_MessageLength msg = Some (of_nat (length (coap_message msg)))"
proof -
  have os: "list_all option_ok (used_options msg)" "length (concat (map option_bytes (used_options msg))) < 65536"
    using assms by (simp_all add: message_ok_def coap_message_def)
  have pay: "(of_nat (length (if payload_of msg = [] then [] else 0xFF # payload_of msg)) :: u16) =
      (if 0 < msg_payloadlen msg then msg_payloadlen msg + 1 else 0)"
    using length_payload_of [OF assms(1)] payload_empty [OF assms(1)] by (simp add: word_gt_0)
  have tok: "(of_nat (length (token_of msg)) :: u16) = ucast (hdr_tokenlen (msg_header msg))"
    by (simp add: length_token_of [OF assms(1)])
  show ?thesis
    using assms options_len_loop_eq [OF os, of 0] pay tok
    by (simp add: CoAPSerialize_MessageLength_def CoAPSerialize_OptionsLen_def used_options_def message_ok_def
        coap_message_def header_bytes_def del: length_concat)
qed

lemma Serialize_Header_eq:
  assumes "message_ok msg" and "4 \<le> buflen" and "p + 4 \<le> length buf"
  shows "CoAPSerialize_Header msg buf p buflen = Some (4, overwrite buf p (header_bytes (msg_header msg)))"
proof -
  let ?h = "msg_header msg"
  have b: "[push_bit 6 (hdr_version ?h AND 0x3) OR push_bit 4 (hdr_type ?h AND 0x3) OR (hdr_tokenlen ?h AND 0x0F),
       hdr_code ?h, ucast (drop_bit 8 (hdr_msgid ?h AND 0xFF00)), ucast (hdr_msgid ?h AND 0x00FF)] = header_bytes ?h"
    unfolding header_bytes_def be16_def ucast_high_byte ucast_low_byte
    by (subst header_byte_eq) (use assms(1) in \<open>simp_all add: message_ok_def\<close>)
  have "length (header_bytes ?h) = 4" by (simp add: header_bytes_def)
  then have "put_bytes (header_bytes ?h) (buf, p) = Some (overwrite buf p (header_bytes ?h), p + 4)"
    using assms(3) by (simp add: put_bytes_def wr_bytes_def)
  then show ?thesis
    using assms(2) unfolding CoAPSerialize_Header_def Let_def b by simp
qed

lemma Serialize_Token_eq:
  assumes "message_ok msg" and "unat (hdr_tokenlen (msg_header msg)) \<le> unat buflen"
    and "p + length (token_of msg) \<le> length buf"
  shows "CoAPSerialize_Token msg buf p buflen = Some (int (length (token_of msg)), overwrite buf p (token_of msg))"
  using assms length_token_of [OF assms(1)]
  by (simp add: CoAPSerialize_Token_def rd_bytes_def put_bytes_def wr_bytes_def message_ok_def Let_def flip: token_of_def)

lemma Serialize_Payload_eq:
  assumes "message_ok msg" and "int (unat (msg_payloadlen msg)) + 1 \<le> buflen"
  defines "bs \<equiv> (if payload_of msg = [] then [] else 0xFF # payload_of msg)"
  assumes "p + length bs \<le> length buf"
  shows "CoAPSerialize_Payload msg buf p buflen = Some (int (length bs), overwrite buf p bs)"
proof (cases "payload_of msg")
  case Nil
  with assms payload_empty [OF assms(1)] show ?thesis
    by (auto simp: CoAPSerialize_Payload_def bs_def split: option.splits)
next
  case (Cons x xs)
  then obtain d where d: "msg_payload msg = Some d" "take (unat (msg_payloadlen msg)) d = payload_of msg"
    by (auto simp: payload_of_def split: option.splits)
  have n: "unat (msg_payloadlen msg) = length (payload_of msg)" using length_payload_of [OF assms(1)] by simp
  have "emits (\<lambda>c. put_bytes [0xFF] c \<bind> put_bytes (payload_of msg)) ([0xFF] @ payload_of msg)"
    by (intro emits_bind emits_put_bytes)
  from emits_run [OF this, of p buf] assms(4) Cons
  have run: "put_bytes [0xFF] (buf, p) \<bind> put_bytes (payload_of msg) = Some (overwrite buf p bs, p + length bs)"
    by (simp add: bs_def)
  have "0 < msg_payloadlen msg" using n Cons by (simp add: word_less_nat_alt)
  moreover have "unat (msg_payloadlen msg) \<le> length d" using assms(1) d by (simp add: message_ok_def)
  ultimately have "CoAPSerialize_Payload msg buf p buflen =
     (put_bytes [0xFF] (buf, p) \<bind> put_bytes (payload_of msg)) \<bind> (\<lambda>(buf, _). Some (int (unat (msg_payloadlen msg)) + 1, buf))"
    using assms(2) d by (simp add: CoAPSerialize_Payload_def rd_bytes_def Option.bind_assoc)
  then show ?thesis unfolding run using n Cons by (simp add: bs_def)
qed


text \<open>
  A message without payload needs one byte more than it takes: the test for the payload marker is
  made in any case.
\<close>

lemma Serialize_Message_eq:
  assumes ok: "message_ok msg" and buf: "unat buflen \<le> length buf"
    and fit: "length (coap_message msg) + (if payload_of msg = [] then 1 else 0) \<le> unat buflen"
  shows "CoAPSerialize_Message msg buf buflen =
    Some (int (length (coap_message msg)), coap_message msg @ drop (length (coap_message msg)) buf)"
proof -
  define H where "H = header_bytes (msg_header msg)"
  define T where "T = token_of msg"
  define O' where "O' = concat (map option_bytes (used_options msg))"
  define P where "P = (if payload_of msg = [] then [] else 0xFF # payload_of msg)"
  have msg: "coap_message msg = H @ T @ O' @ P"
    by (simp add: coap_message_def H_def T_def O'_def P_def)
  have lH: "length H = 4" by (simp add: H_def header_bytes_def)
  have lT: "length T = unat (hdr_tokenlen (msg_header msg))" using length_token_of [OF ok] by (simp add: T_def)
  have "unat buflen < 65536" using unsigned_less [of buflen, where ?'a = nat] by simp
  note fit' = fit [unfolded msg] this
  have u: "unat (of_nat (length xs) :: u16) = length xs" if "length xs \<le> unat buflen" for xs :: bytes
    using that fit' by (simp add: unat_of_nat)
  have r1: "unat (buflen - 4) = unat buflen - 4" using fit' lH by (simp add: unat_sub word_le_nat_alt)
  have r2: "unat (buflen - 4 - of_nat (length T)) = unat buflen - 4 - length T"
    using fit' lH u [of T] r1 by (simp add: unat_sub word_le_nat_alt)
  have r3: "unat (buflen - 4 - of_nat (length T) - of_nat (length O')) = unat buflen - 4 - length T - length O'"
    using fit' lH u [of O'] r2 by (simp add: unat_sub word_le_nat_alt)
  have r4: "unat (buflen - 4 - of_nat (length T) - of_nat (length O') - of_nat (length P)) =
      unat buflen - 4 - length T - length O' - length P"
    using fit' lH u [of P] r3 by (simp add: unat_sub word_le_nat_alt)
  have h: "CoAPSerialize_Header msg buf 0 buflen = Some (4, overwrite buf 0 H)"
    unfolding H_def using fit' lH buf by (intro Serialize_Header_eq ok) (simp_all add: word_le_nat_alt)
  define b1 where "b1 = overwrite buf 0 H"
  have t: "CoAPSerialize_Token msg b1 4 (buflen - 4) = Some (int (length T), overwrite b1 4 T)"
    unfolding T_def using fit' lH lT buf r1
    by (intro Serialize_Token_eq ok) (simp_all add: b1_def T_def)
  define b2 where "b2 = overwrite b1 4 T"
  have len: "length b2 = length buf" using fit' lH buf by (simp add: b2_def b1_def)
  have os: "list_all option_ok (used_options msg)" "unat (msg_optnum msg) \<le> length (msg_options msg)"
    using ok by (simp_all add: message_ok_def)
  have o: "CoAPSerialize_Options msg b2 (4 + length T) = Some (of_nat (length O'), overwrite b2 (4 + length T) O')"
    using serialize_options_loop_eq [OF os(1), of 0 "4 + length T" b2] os(2) fit' lH len buf
    by (simp add: CoAPSerialize_Options_def O'_def used_options_def)
  define b3 where "b3 = overwrite b2 (4 + length T) O'"
  have len3: "length b3 = length buf" using fit' lH buf len by (simp add: b3_def)
  have p: "CoAPSerialize_Payload msg b3 (4 + length T + length O') (int (unat buflen - 4 - length T - length O')) =
      Some (int (length P), overwrite b3 (4 + length T + length O') P)"
  proof -
    have "unat (msg_payloadlen msg) + 1 \<le> unat buflen - 4 - length T - length O'"
      using fit' lH length_payload_of [OF ok] by (auto simp: P_def split: if_splits)
    then have "int (unat (msg_payloadlen msg) + 1) \<le> int (unat buflen - 4 - length T - length O')"
      by (rule iffD2 [OF of_nat_le_iff])
    then show ?thesis
      unfolding P_def using fit' lH buf len3
      by (intro Serialize_Payload_eq ok) (auto simp: P_def)
  qed
  have all: "overwrite b3 (4 + length T + length O') P = coap_message msg @ drop (length (coap_message msg)) buf"
    using fit' lH buf overwrite_append [of 0 H buf T] overwrite_append [of 0 "H @ T" buf O']
      overwrite_append [of 0 "H @ T @ O'" buf P]
    by (simp add: b3_def b2_def b1_def msg overwrite_zero add.assoc)
  have "int (unat buflen) - int (unat buflen - 4 - length T - length O' - length P) = int (length (coap_message msg))"
    using fit' lH by (simp add: msg of_nat_diff)
  moreover have "uint (buflen - 4 - of_nat (length T) - of_nat (length O')) = int (unat buflen - 4 - length T - length O')"
    unfolding r3 [symmetric] by simp
  moreover have "uint (buflen - 4 - of_nat (length T) - of_nat (length O') - of_nat (length P)) =
      int (unat buflen - 4 - length T - length O' - length P)"
    unfolding r4 [symmetric] by simp
  ultimately show ?thesis
    using h t o p u [of T] u [of O'] all fit' lH
    by (simp add: CoAPSerialize_Message_def Let_def b1_def b2_def b3_def del: of_nat_diff)
qed


section \<open>Parsing recovers the message\<close>

lemma option_bytes_split:
  "coap_option n v = of_nat (16 * nibble n + nibble (length v)) # ext_bytes n @ ext_bytes (length v) @ v"
  by (simp add: coap_option_def)

text \<open>The extension bytes at offset \<open>q\<close> give back the number.\<close>

lemma read_ext:
  assumes "n < 65536" and "buf = pre @ ext_bytes n @ post"
  shows "(if nibble n = 13 then do { x \<leftarrow> rd buf (length pre); Some (k + (13 + ucast x), length pre + 1) }
      else if nibble n = 14 then do {
        x \<leftarrow> rd buf (length pre); y \<leftarrow> rd buf (length pre + 1);
        Some (k + 269 + push_bit 8 (ucast x) + ucast y, length pre + 2) }
      else Some (k + of_nat (nibble n), length pre)) =
    Some (k + (of_nat n :: u16), length pre + length (ext_bytes n))"
proof -
  consider "n < 13" | "13 \<le> n" "n < 269" | "269 \<le> n" by linarith
  then show ?thesis
  proof cases
    case 2
    then have "ucast (of_nat (n - 13) :: u8) = (of_nat (n - 13) :: u16)"
      using u16_of_bytes [of "n - 13"] by simp
    with 2 assms show ?thesis
      by (simp add: nibble_def ext_bytes_def rd_def nth_append of_nat_diff)
  next
    case 3
    then have "push_bit 8 (ucast (be16 (n - 269) ! 0)) + ucast (be16 (n - 269) ! 1) = (of_nat (n - 269) :: u16)"
      using u16_of_bytes [of "n - 269"] assms(1) by (simp add: be16_def)
    with 3 assms show ?thesis
      by (simp add: nibble_def ext_bytes_def rd_def nth_append of_nat_diff be16_def add.assoc)
  qed (simp add: nibble_def ext_bytes_def)
qed


lemma ucast_byte: "k < 256 \<Longrightarrow> (ucast (of_nat k :: u8) :: u16) = of_nat k"
  using u16_of_bytes [of k] by simp

lemma of_nat_nibble: "(of_nat (nibble n) :: u16) = 13 \<longleftrightarrow> nibble n = 13" "(of_nat (nibble n) :: u16) = 14 \<longleftrightarrow> nibble n = 14"
proof -
  have "unat (of_nat (nibble n) :: u16) = nibble n" using nibble_less [of n] by (simp add: unat_of_nat)
  then show "(of_nat (nibble n) :: u16) = 13 \<longleftrightarrow> nibble n = 13" "(of_nat (nibble n) :: u16) = 14 \<longleftrightarrow> nibble n = 14"
    by (simp_all add: word_unat_eq_iff)
qed

lemma Deserialize_Option_eq:
  assumes n: "n < 65536" and v: "length v < 65536" and buf: "buf = pre @ coap_option n v @ post"
  shows "CoAPDeserialize_Option buf (length pre) d =
    Some (length (coap_option n v), \<lparr>opt_num = d + of_nat n, opt_len = of_nat (length v), opt_val = Some (v @ post)\<rparr>, d + of_nat n)"
proof -
  define b where "b = (of_nat (16 * nibble n + nibble (length v)) :: u8)"
  have head: "rd buf (length pre) = Some b"
    by (simp add: buf coap_option_def b_def mem_simps)
  have nib: "nibble n < 16" "nibble (length v) < 16" using nibble_less by (auto intro: less_trans)
  have hi: "(ucast (drop_bit 4 (b AND 0xF0)) :: u16) = of_nat (nibble n)"
    unfolding b_def nibble_high [OF nib] using nib by (simp add: ucast_byte)
  have lo: "(ucast (b AND 0x0F) :: u16) = of_nat (nibble (length v))"
    unfolding b_def nibble_low [OF nib] using nib by (simp add: ucast_byte)
  let ?q = "length pre + 1" and ?r = "length pre + 1 + length (ext_bytes n)"
  have buf1: "buf = (pre @ [b]) @ ext_bytes n @ (ext_bytes (length v) @ v @ post)"
    and buf2: "buf = (pre @ b # ext_bytes n) @ ext_bytes (length v) @ (v @ post)"
    by (simp_all add: buf coap_option_def b_def)
  have lens: "length (pre @ [b]) = ?q" "length (pre @ b # ext_bytes n) = ?r" by simp_all
  note r1 = read_ext [OF n buf1, of d, unfolded lens]
  note r2 = read_ext [OF v buf2, of 0, unfolded lens add_0_left]
  have x1: "(if nibble n = 13 then do { x \<leftarrow> rd buf ?q; Some (d + (13 + ucast x), ?q + 1) }
      else if nibble n = 14 then do {
        x \<leftarrow> rd buf ?q; y \<leftarrow> rd buf (?q + 1);
        Some (d + 269 + push_bit 8 (ucast x) + ucast y, ?q + 2) }
      else Some (d + of_nat (nibble n), ?q)) = Some (d + (of_nat n :: u16), ?r)"
    by (rule r1)
  have x2: "(if nibble (length v) = 13 then do { x \<leftarrow> rd buf ?r; Some (13 + ucast x, ?r + 1) }
      else if nibble (length v) = 14 then do {
        x \<leftarrow> rd buf ?r; y \<leftarrow> rd buf (?r + 1);
        Some (269 + push_bit 8 (ucast x) + ucast y, ?r + 2) }
      else Some (of_nat (nibble (length v)), ?r)) = Some ((of_nat (length v) :: u16), ?r + length (ext_bytes (length v)))"
    by (rule r2)
  have u: "unat (of_nat (length v) :: u16) = length v" using v by (simp add: unat_of_nat)
  have "drop (?r + length (ext_bytes (length v))) buf = v @ post"
    by (simp add: buf coap_option_def)
  then show ?thesis
    unfolding CoAPDeserialize_Option_def head Option.bind.bind_lunit Let_def hi lo of_nat_nibble x1 prod.case x2
    using u by (simp add: coap_option_def)
qed


text \<open>
  The options of the parsed message: absolute numbers, and values that point into the buffer, where
  \<open>post\<close> follows the options.
\<close>

fun parsed_options :: "CoAPMsgOption list \<Rightarrow> u16 \<Rightarrow> bytes \<Rightarrow> CoAPMsgOption list" where
  "parsed_options [] d post = []"
| "parsed_options (opt # os) d post =
     \<lparr>opt_num = d + opt_num opt, opt_len = opt_len opt,
      opt_val = Some (option_value opt @ concat (map option_bytes os) @ post)\<rparr> #
     parsed_options os (d + opt_num opt) post"

lemma length_parsed_options [simp]: "length (parsed_options os d post) = length os"
  by (induction os d post rule: parsed_options.induct) simp_all

lemma option_head_not_marker: "(of_nat (16 * nibble a + nibble b) :: u8) \<noteq> 0xFF"
proof -
  have "16 * nibble a + nibble b < 255" using nibble_less [of a] nibble_less [of b] by linarith
  then have "unat (of_nat (16 * nibble a + nibble b) :: u8) < 255" unfolding unat_of_nat by simp
  then show ?thesis by (auto simp: word_unat_eq_iff)
qed

lemma deserialize_options_loop_eq:
  assumes "list_all option_ok os" and "length (concat (map option_bytes os)) < 65536"
    and "buf = pre @ concat (map option_bytes os) @ post"
    and "index + length os \<le> length opts"
    and "buflen = count + int (length (concat (map option_bytes os))) \<or>
      (count + int (length (concat (map option_bytes os))) < buflen \<and> (\<exists>r. post = 0xFF # r))"
  shows "deserialize_options_loop buf buflen opts index (length pre) count d k =
    Some (take index opts @ parsed_options os d post @ drop (index + length os) opts, k + of_nat (length os),
          length pre + length (concat (map option_bytes os)))"
  using assms
proof (induction os arbitrary: pre index opts count d k)
  case Nil
  from Nil.prems(5) have "count < buflen \<Longrightarrow> \<exists>r. post = 0xFF # r" by auto
  with Nil.prems show ?case
    by (subst deserialize_options_loop.simps) (auto simp: mem_simps)
next
  case (Cons opt os)
  let ?bs = "option_bytes opt" and ?v = "option_value opt" and ?n = "unat (opt_num opt)"
  let ?rest = "concat (map option_bytes os) @ post"
  let ?opt = "\<lparr>opt_num = d + opt_num opt, opt_len = opt_len opt, opt_val = Some (?v @ ?rest)\<rparr>"
  have bs: "?bs = of_nat (16 * nibble ?n + nibble (length ?v)) # ext_bytes ?n @ ext_bytes (length ?v) @ ?v"
    by (simp only: option_bytes_def coap_option_def)
  have lv: "length ?v = unat (opt_len opt)" using Cons.prems(1) by (simp add: length_option_value)
  have small: "?n < 65536" "length ?v < 65536"
    using unsigned_less [of "opt_num opt", where ?'a = nat] unsigned_less [of "opt_len opt", where ?'a = nat] lv by simp_all
  have buf: "buf = pre @ coap_option ?n ?v @ ?rest" using Cons.prems(3) by (simp add: option_bytes_def [of opt])
  have step: "CoAPDeserialize_Option buf (length pre) d = Some (length ?bs, ?opt, d + opt_num opt)"
    using Deserialize_Option_eq [OF small buf, of d] lv by (simp add: option_bytes_def)
  have byte: "rd buf (length pre) = Some (of_nat (16 * nibble ?n + nibble (length ?v)))"
    using Cons.prems(3) by (simp only: bs list.map concat.simps append_Cons append_assoc mem_simps)
  have n: "unat (of_nat (length ?bs) :: u16) = length ?bs"
    using Cons.prems(2) by (simp add: unat_of_nat)
  have pos: "0 < length ?bs" by (simp add: bs)
  have IH: "deserialize_options_loop buf buflen (opts[index := ?opt]) (index + 1) (length (pre @ ?bs))
      (count + int (length ?bs)) (d + opt_num opt) (k + 1) =
    Some (take (index + 1) (opts[index := ?opt]) @ parsed_options os (d + opt_num opt) post @
        drop (index + 1 + length os) (opts[index := ?opt]), k + 1 + of_nat (length os),
        length (pre @ ?bs) + length (concat (map option_bytes os)))"
    using Cons.prems by (intro Cons.IH) (auto simp: add.assoc)
  have "length (concat (map option_bytes (opt # os))) = length ?bs + length (concat (map option_bytes os))" by simp
  from Cons.prems(5) [unfolded this] pos have "count < buflen" by (elim disjE conjE; linarith)
  moreover have "index < length opts" using Cons.prems(4) by simp
  moreover have "int (unat (of_nat (length ?bs) :: u16)) = int (length ?bs)" using n by (rule arg_cong)
  then have "uint (of_nat (length ?bs) :: u16) = int (length ?bs)" by simp
  ultimately show ?case
    using step byte IH n option_head_not_marker [of ?n "length ?v"]
    by (subst deserialize_options_loop.simps)
       (simp add: take_Suc_conv_app_nth add.assoc del: of_nat_add of_nat_mult of_nat_numeral)
qed


lemma Deserialize_Header_eq:
  assumes "message_ok msg" and "buf = header_bytes (msg_header msg) @ post"
  shows "CoAPDeserialize_Header m0 buf 0 = Some (4, m0\<lparr>msg_header := msg_header msg\<rparr>)"
proof -
  let ?h = "msg_header msg"
  define b where "b = (of_nat (64 * unat (hdr_version ?h) + 16 * unat (hdr_type ?h) + unat (hdr_tokenlen ?h)) :: u8)"
  have f: "drop_bit 6 b AND 3 = hdr_version ?h" "drop_bit 4 b AND 3 = hdr_type ?h" "b AND 15 = hdr_tokenlen ?h"
    unfolding b_def
    by (subst header_byte_fields; use assms(1) in \<open>simp add: message_ok_def\<close>)+
  have "unat (hdr_msgid ?h) < 65536" using unsigned_less [of "hdr_msgid ?h", where ?'a = nat] by simp
  from u16_of_bytes [OF this] have g: "push_bit 8 (ucast (be16 (unat (hdr_msgid ?h)) ! 0)) + ucast (be16 (unat (hdr_msgid ?h)) ! 1) = hdr_msgid ?h"
    by (simp add: be16_def)
  have buf: "rd buf 0 = Some b" "rd buf (0 + 1) = Some (hdr_code ?h)" "rd buf (0 + 2) = Some (be16 (unat (hdr_msgid ?h)) ! 0)"
    "rd buf (0 + 3) = Some (be16 (unat (hdr_msgid ?h)) ! 1)"
    using assms(2) by (simp_all add: header_bytes_def be16_def rd_def b_def numeral_3_eq_3)
  show ?thesis
    unfolding CoAPDeserialize_Header_def buf Option.bind.bind_lunit f g by simp
qed

lemma Deserialize_Message_eq:
  assumes ok: "message_ok msg" and small: "length (coap_message msg) < 65536"
    and m0: "length (msg_token m0) = 8" "length (msg_options m0) = 16"
    and post: "post \<noteq> []" "payload_of msg = [] \<Longrightarrow> hd post \<noteq> 0xFF"
  shows "CoAPDeserialize_Message m0 (coap_message msg @ post) (int (length (coap_message msg))) =
    Some (COAP_SUCCESS,
      (let P = (if payload_of msg = [] then [] else 0xFF # payload_of msg);
           m = m0\<lparr>msg_header := msg_header msg,
             msg_token := token_of msg @ drop (length (token_of msg)) (msg_token m0),
             msg_options := parsed_options (used_options msg) 0 (P @ post) @ drop (length (used_options msg)) (msg_options m0),
             msg_optnum := msg_optnum msg\<rparr>
       in if payload_of msg = [] then m
          else m\<lparr>msg_payloadlen := msg_payloadlen msg, msg_payload := Some (payload_of msg @ post)\<rparr>))"
proof -
  define H where "H = header_bytes (msg_header msg)"
  define T where "T = token_of msg"
  define OS where "OS = concat (map option_bytes (used_options msg))"
  define P where "P = (if payload_of msg = [] then [] else 0xFF # payload_of msg)"
  define buf where "buf = H @ T @ OS @ P @ post"
  define n where "n = int (length (coap_message msg))"
  have msg: "coap_message msg = H @ T @ OS @ P" by (simp add: coap_message_def H_def T_def OS_def P_def)
  have lH: "length H = 4" by (simp add: H_def header_bytes_def)
  have lT: "length T = unat (hdr_tokenlen (msg_header msg))" "length T \<le> 8"
    using length_token_of [OF ok] ok by (simp_all add: T_def message_ok_def)
  have n: "n = int (4 + length T + length OS + length P)" using lH by (simp add: n_def msg)
  have lO: "length (used_options msg) = unat (msg_optnum msg)" "unat (msg_optnum msg) \<le> 16" "list_all option_ok (used_options msg)"
    using ok by (simp_all add: message_ok_def used_options_def)
  have h: "CoAPDeserialize_Header m0 buf 0 = Some (4, m0\<lparr>msg_header := msg_header msg\<rparr>)"
    by (rule Deserialize_Header_eq [OF ok]) (simp add: buf_def H_def)
  have "rd_bytes buf 4 (length T) = Some T"
    using lH by (simp add: buf_def rd_bytes_def)
  moreover have "wr_bytes (msg_token m0) 0 T = Some (T @ drop (length T) (msg_token m0))"
    using lT m0(1) by (simp add: wr_bytes_def overwrite_zero)
  ultimately have t: "CoAPDeserialize_Token (m0\<lparr>msg_header := msg_header msg\<rparr>) buf 4 =
      Some (length T, m0\<lparr>msg_header := msg_header msg, msg_token := T @ drop (length T) (msg_token m0)\<rparr>)"
    using lT by (simp add: CoAPDeserialize_Token_def Let_def)
  define m1 where "m1 = m0\<lparr>msg_header := msg_header msg, msg_token := T @ drop (length T) (msg_token m0)\<rparr>"
  define opts where "opts = parsed_options (used_options msg) 0 (P @ post) @ drop (length (used_options msg)) (msg_options m0)"
  have loop: "deserialize_options_loop buf (n - 4 - int (length T)) (msg_options m1) 0 (length (H @ T)) 0 0 0 =
     Some (take 0 (msg_options m1) @ parsed_options (used_options msg) 0 (P @ post) @ drop (0 + length (used_options msg)) (msg_options m1),
       0 + of_nat (length (used_options msg)), length (H @ T) + length OS)"
    unfolding OS_def
    by (rule deserialize_options_loop_eq [OF lO(3)])
       (use small lO m0 n in \<open>auto simp: msg OS_def m1_def buf_def P_def\<close>)
  have o: "CoAPDeserialize_Options m1 buf (4 + length T) (n - 4 - int (length T)) =
     Some (int (length OS), m1\<lparr>msg_options := opts, msg_optnum := msg_optnum msg\<rparr>)"
    using loop lH lO by (simp add: CoAPDeserialize_Options_def opts_def m1_def)
  define m2 where "m2 = m1\<lparr>msg_options := opts, msg_optnum := msg_optnum msg\<rparr>"
  have p: "CoAPDeserialize_Payload m2 buf (4 + length T + length OS) (int (length P)) =
     Some (if payload_of msg = [] then (0, m2)
       else (int (length P), m2\<lparr>msg_payloadlen := msg_payloadlen msg, msg_payload := Some (payload_of msg @ post)\<rparr>))"
  proof -
    have b: "rd buf (4 + length T + length OS) = Some (hd (P @ post))"
      and d: "drop (4 + length T + length OS + 1) buf = tl (P @ post)"
      using lH post(1) by (cases "P @ post"; simp add: buf_def rd_def nth_append P_def hd_conv_nth tl_append split: if_splits list.splits)+
    show ?thesis
      using b d post length_payload_of [OF ok]
      by (auto simp: CoAPDeserialize_Payload_def P_def)
  qed
  have "nat (4 + int (length T) + int (length OS)) = 4 + length T + length OS" by simp
  then have "CoAPDeserialize_Message m0 buf n = Some (COAP_SUCCESS, if payload_of msg = [] then m2
       else m2\<lparr>msg_payloadlen := msg_payloadlen msg, msg_payload := Some (payload_of msg @ post)\<rparr>)"
    using h t o p n unfolding m1_def m2_def CoAPDeserialize_Message_def
    by (simp add: Let_def nat_int_add)
  then show ?thesis
    by (simp add: buf_def n_def msg m2_def m1_def opts_def T_def P_def Let_def)
qed


section \<open>A token longer than the array, a payload longer than the buffer\<close>

lemma Deserialize_Token_overflow:
  assumes "length (msg_token m0) = 8" and "4 \<le> buflen" and "rd buf 0 = Some b" and "8 < unat (b AND 15)"
  shows "CoAPDeserialize_Message m0 buf buflen = None"
proof -
  have "CoAPDeserialize_Token m buf 4 = None"
    if "hdr_tokenlen (msg_header m) = b AND 15" "msg_token m = msg_token m0" for m
    using assms(1,4) that
    by (cases "rd_bytes buf 4 (unat (b AND 15))")
       (auto simp: CoAPDeserialize_Token_def wr_bytes_def dest: rd_bytes_length)
  then show ?thesis
    using assms(2,3)
    by (cases "rd buf (Suc 0)"; cases "rd buf 2"; cases "rd buf 3")
       (simp_all add: CoAPDeserialize_Message_def CoAPDeserialize_Header_def Let_def)
qed

lemma Serialize_payload_dropped_eq:
  assumes ok: "message_ok msg" and buf: "unat buflen \<le> length buf"
  defines "front \<equiv> header_bytes (msg_header msg) @ token_of msg @ concat (map option_bytes (used_options msg))"
  assumes fit: "length front \<le> unat buflen" and long: "unat buflen - length front < unat (msg_payloadlen msg) + 1"
  shows "CoAPSerialize_Message msg buf buflen = Some (int (length front) - 1, front @ drop (length front) buf)"
proof -
  define H where "H = header_bytes (msg_header msg)"
  define T where "T = token_of msg"
  define O' where "O' = concat (map option_bytes (used_options msg))"
  have front: "front = H @ T @ O'" by (simp add: front_def H_def T_def O'_def)
  have lH: "length H = 4" by (simp add: H_def header_bytes_def)
  have lT: "length T = unat (hdr_tokenlen (msg_header msg))" using length_token_of [OF ok] by (simp add: T_def)
  have "unat buflen < 65536" using unsigned_less [of buflen, where ?'a = nat] by simp
  note fit' = fit [unfolded front] this
  have u: "unat (of_nat (length xs) :: u16) = length xs" if "length xs \<le> unat buflen" for xs :: bytes
    using that fit' by (simp add: unat_of_nat)
  have r1: "unat (buflen - 4) = unat buflen - 4" using fit' lH by (simp add: unat_sub word_le_nat_alt)
  have r2: "unat (buflen - 4 - of_nat (length T)) = unat buflen - 4 - length T"
    using fit' lH u [of T] r1 by (simp add: unat_sub word_le_nat_alt)
  have r3: "unat (buflen - 4 - of_nat (length T) - of_nat (length O')) = unat buflen - length front"
    using fit' lH u [of O'] r2 by (simp add: unat_sub word_le_nat_alt front)
  have h: "CoAPSerialize_Header msg buf 0 buflen = Some (4, overwrite buf 0 H)"
    unfolding H_def using fit' lH buf by (intro Serialize_Header_eq ok) (simp_all add: word_le_nat_alt)
  define b1 where "b1 = overwrite buf 0 H"
  have t: "CoAPSerialize_Token msg b1 4 (buflen - 4) = Some (int (length T), overwrite b1 4 T)"
    unfolding T_def using fit' lH lT buf r1
    by (intro Serialize_Token_eq ok) (simp_all add: b1_def T_def)
  define b2 where "b2 = overwrite b1 4 T"
  have len: "length b2 = length buf" using fit' lH buf by (simp add: b2_def b1_def)
  have os: "list_all option_ok (used_options msg)" "unat (msg_optnum msg) \<le> length (msg_options msg)"
    using ok by (simp_all add: message_ok_def)
  have o: "CoAPSerialize_Options msg b2 (4 + length T) = Some (of_nat (length O'), overwrite b2 (4 + length T) O')"
    using serialize_options_loop_eq [OF os(1), of 0 "4 + length T" b2] os(2) fit' lH len buf
    by (simp add: CoAPSerialize_Options_def O'_def used_options_def)
  define rem where "rem = buflen - 4 - of_nat (length T) - of_nat (length O')"
  have urem: "unat rem = unat buflen - length front" using r3 by (simp add: rem_def)
  have p: "CoAPSerialize_Payload msg b q (int (unat rem)) = Some (-1, b)" for b q
  proof -
    have "int (unat rem) < int (unat (msg_payloadlen msg) + 1)"
      unfolding urem using long by (rule iffD2 [OF of_nat_less_iff])
    then show ?thesis by (simp add: CoAPSerialize_Payload_def)
  qed
  have all: "overwrite b2 (4 + length T) O' = front @ drop (length front) buf"
    using fit' lH buf overwrite_append [of 0 H buf T] overwrite_append [of 0 "H @ T" buf O']
    by (simp add: b2_def b1_def front overwrite_zero add.assoc)
  have "unat rem + 1 < 65536" using fit' lH urem by (simp add: front)
  then have "unat (rem + 1) = unat buflen - length front + 1" using urem by (simp add: unat_word_ariths)
  then have "int (unat buflen) - int (unat (rem + 1)) = int (length front) - 1" using fit by simp
  moreover have "rem - of_int (- 1) = rem + 1" by simp
  ultimately show ?thesis
    using h t o p u [of T] u [of O'] all fit' lH
    by (simp add: CoAPSerialize_Message_def Let_def b1_def b2_def rem_def [symmetric])
qed

lemma option_value_append:
  "unat l = length v \<Longrightarrow> option_value \<lparr>opt_num = n, opt_len = l, opt_val = Some (v @ r)\<rparr> = v"
  by (simp add: option_value_def)

lemma parsed_options_contents:
  "list_all option_ok os \<Longrightarrow> map (\<lambda>opt. (opt_num opt, option_value opt)) (parsed_options os d post) =
     map (\<lambda>i. (d + sum_list (map opt_num (take (Suc i) os)), option_value (os ! i))) [0..<length os]"
proof (induction os arbitrary: d)
  case (Cons opt os)
  have up: "[0..<length (opt # os)] = 0 # map Suc [0..<length os]"
    by (simp add: upt_conv_Cons map_Suc_upt del: upt_Suc)
  have "unat (opt_len opt) = length (option_value opt)" using Cons.prems by (simp add: length_option_value)
  with Cons show ?case unfolding up by (simp add: option_value_append add.assoc o_def)
qed simp

section \<open>Properties\<close>

text \<open>A GET request with a token, the option Uri-Path \<open>a\<close> and a one-byte payload.\<close>

definition demo_coap :: CoAPMessage where
  "demo_coap = zero_message
     \<lparr>msg_header := \<lparr>hdr_version = 1, hdr_type = 0, hdr_tokenlen = 2, hdr_code = 1, hdr_msgid = 0x1234\<rparr>,
      msg_token := [7, 8, 0, 0, 0, 0, 0, 0],
      msg_options := \<lparr>opt_num = 11, opt_len = 1, opt_val = Some [97]\<rparr> # replicate 15 zero_option,
      msg_optnum := 1, msg_payload := Some [42], msg_payloadlen := 1\<rparr>"

lemma demo_coap_ok: "message_ok demo_coap"
  by (simp add: demo_coap_def zero_message_def message_ok_def used_options_def option_ok_def)

lemma demo_coap_bytes:
  "coap_message demo_coap = [0x42, 1, 0x12, 0x34, 7, 8, 0xB1, 97, 0xFF, 42]"
  by code_simp

lemma demo_coap_payload: "payload_of demo_coap = [42]"
  by code_simp

text \<open>
  Property C35: For a message as the setters build it, CoAPSerialize_Message stores exactly the
  encoding of RFC 7252 (header, token, options with nibbles and extensions, payload marker and
  payload) at the start of the buffer, leaves the rest alone and returns its length, and
  CoAPSerialize_MessageLength announces that length; a message without payload needs one spare
  byte.
\<close>

theorem coap_serialize_correct:
  assumes "message_ok msg" and "unat buflen \<le> length buf"
    and "length (coap_message msg) + (if payload_of msg = [] then 1 else 0) \<le> unat buflen"
  shows "CoAPSerialize_Message msg buf buflen =
      Some (int (length (coap_message msg)), coap_message msg @ drop (length (coap_message msg)) buf) \<and>
    CoAPSerialize_MessageLength msg = Some (of_nat (length (coap_message msg)))"
proof -
  have "length (coap_message msg) < 65536"
    using assms(3) unsigned_less [of buflen, where ?'a = nat] by simp
  then show ?thesis using Serialize_Message_eq [OF assms] MessageLength_eq [OF assms(1)] by simp
qed

theorem coap_serialize_correct_witness:
  "CoAPSerialize_Message demo_coap [5, 5, 5, 5, 5, 5, 5, 5, 5, 5, 5, 5] 12 =
     Some (10, [0x42, 1, 0x12, 0x34, 7, 8, 0xB1, 97, 0xFF, 42, 5, 5])"
  using coap_serialize_correct [OF demo_coap_ok, of 12 "[5, 5, 5, 5, 5, 5, 5, 5, 5, 5, 5, 5]"]
  by (simp add: demo_coap_bytes demo_coap_payload)

text \<open>
  Property C3: Parsing the bytes of a message returns the message: its header, its token, its
  options with the deltas summed up to absolute numbers and values that read back as they were
  written, and its payload. The memory behind the packet, which the parser looks at when there is
  no payload, must not hold the payload marker.
\<close>

theorem coap_roundtrip:
  assumes "message_ok msg" and "length (coap_message msg) < 65536"
    and "post \<noteq> []" and "payload_of msg = [] \<Longrightarrow> hd post \<noteq> 0xFF"
  shows "\<exists>m. CoAPDeserialize_Message zero_message (coap_message msg @ post) (int (length (coap_message msg))) =
       Some (COAP_SUCCESS, m) \<and>
    msg_header m = msg_header msg \<and> token_of m = token_of msg \<and> payload_of m = payload_of msg \<and>
    map (\<lambda>opt. (opt_num opt, option_value opt)) (used_options m) =
      (let os = used_options msg
       in map (\<lambda>i. (sum_list (map opt_num (take (Suc i) os)), option_value (os ! i))) [0..<length os])"
proof -
  have z: "length (msg_token zero_message) = 8" "length (msg_options zero_message) = 16"
    by (simp_all add: zero_message_def)
  have used: "length (used_options msg) = unat (msg_optnum msg)" "list_all option_ok (used_options msg)"
    using assms(1) by (simp_all add: message_ok_def used_options_def)
  note parse = Deserialize_Message_eq [OF assms(1,2) z assms(3,4)]
  obtain m where m: "CoAPDeserialize_Message zero_message (coap_message msg @ post) (int (length (coap_message msg))) =
      Some (COAP_SUCCESS, m)" by (rule that [OF parse])
  have tok: "token_of m = token_of msg" "msg_header m = msg_header msg"
    using m parse length_token_of [OF assms(1)] by (auto simp: token_of_def Let_def split: if_splits)
  have "msg_payload m = (if payload_of msg = [] then None else Some (payload_of msg @ post))"
    "payload_of msg \<noteq> [] \<Longrightarrow> msg_payloadlen m = msg_payloadlen msg"
    using m parse by (auto simp: zero_message_def Let_def split: if_splits)
  then have pay: "payload_of m = payload_of msg"
    using length_payload_of [OF assms(1)] by (simp add: payload_of_def [of m])
  obtain Q where "used_options m = parsed_options (used_options msg) 0 Q"
    using m parse used(1) by (auto simp: used_options_def [of m] Let_def split: if_splits)
  with parsed_options_contents [OF used(2), of 0 Q] m tok pay show ?thesis by (simp add: Let_def)
qed

theorem coap_roundtrip_witness:
  "\<exists>m. CoAPDeserialize_Message zero_message ([0x42, 1, 0x12, 0x34, 7, 8, 0xB1, 97, 0xFF, 42] @ [0]) 10 = Some (COAP_SUCCESS, m) \<and>
     payload_of m = [42]"
  using coap_roundtrip [OF demo_coap_ok, of "[0]"] by (auto simp: demo_coap_bytes demo_coap_payload)

text \<open>
  A packet that announces a token of more than eight bytes makes the parser write past
  the token array of the message, whatever the rest of the packet is.
\<close>

theorem coap_token_overflow:
  assumes "4 \<le> buflen" and "rd buf 0 = Some b" and "8 < unat (b AND 15)"
  shows "CoAPDeserialize_Message zero_message buf buflen = None"
  by (rule Deserialize_Token_overflow [OF _ assms]) (simp add: zero_message_def)

theorem coap_token_overflow_witness:
  "CoAPDeserialize_Message zero_message (0x4F # replicate 40 0) 41 = None"
  using coap_token_overflow [of 41 "0x4F # replicate 40 0" "0x4F"] by (simp add: rd_def)

text \<open>
  When the payload and its marker do not fit behind the options, the error code of
  CoAPSerialize_Payload is lost in an unsigned 16-bit counter: the call reports success with one
  byte less than the header, the token and the options take, so that what is sent is cut short by
  a byte and has no payload.
\<close>

theorem coap_payload_dropped:
  assumes "message_ok msg" and "unat buflen \<le> length buf"
    and "front = header_bytes (msg_header msg) @ token_of msg @ concat (map option_bytes (used_options msg))"
    and "length front \<le> unat buflen" and "unat buflen - length front < unat (msg_payloadlen msg) + 1"
  shows "CoAPSerialize_Message msg buf buflen = Some (int (length front) - 1, front @ drop (length front) buf)"
  using Serialize_payload_dropped_eq [OF assms(1,2)] assms(4,5) unfolding assms(3) .

theorem coap_payload_dropped_witness:
  "CoAPSerialize_Message demo_coap [0, 0, 0, 0, 0, 0, 0, 0, 0] 9 = Some (7, [0x42, 1, 0x12, 0x34, 7, 8, 0xB1, 97, 0])"
proof -
  have "header_bytes (msg_header demo_coap) @ token_of demo_coap @ concat (map option_bytes (used_options demo_coap)) =
      [0x42, 1, 0x12, 0x34, 7, 8, 0xB1, 97]"
    by code_simp
  moreover have "msg_payloadlen demo_coap = 1" by (simp add: demo_coap_def)
  ultimately show ?thesis
    using coap_payload_dropped [OF demo_coap_ok _ refl, of 9 "[0, 0, 0, 0, 0, 0, 0, 0, 0]"] by simp
qed

end
