(* ===== verification/Coap_Message.thy ===== *)
theory Coap_Message
  imports Coap_Packet
begin

text \<open>
  The CoAP message layer (sdk/comm/coap/CoAPPacket: CoAPMessage.c, CoAPExport.c, CoAPNetwork.c):
  building messages, the list of messages that wait for a response, matching of acknowledgements
  and responses, and retransmission.

  The platform is the record \<open>coap_env\<close>: the allocator, the UDP socket and the callbacks, all
  over an arbitrary world \<open>'w\<close>. The callbacks only change the world; they do not send through the
  context they are called from. The intrusive send list is the list of its nodes. The code is
  modelled as built without \<open>COAP_DTLS_SUPPORT\<close>.
\<close>

section \<open>The platform and the context\<close>

abbreviation (input) COAP_MSG_MAX_PDU_LEN :: nat where "COAP_MSG_MAX_PDU_LEN \<equiv> 1280"
abbreviation (input) COAP_OPTION_OBSERVE :: u16 where "COAP_OPTION_OBSERVE \<equiv> 6"
abbreviation (input) COAP_REGISTERED_OBSERVE :: u8 where "COAP_REGISTERED_OBSERVE \<equiv> 0"
abbreviation (input) COAP_DEREGISTER_OBSERVE :: u8 where "COAP_DEREGISTER_OBSERVE \<equiv> 1"
abbreviation (input) COAP_MSG_CODE_205_CONTENT :: u8 where "COAP_MSG_CODE_205_CONTENT \<equiv> 0x45"
abbreviation (input) COAP_MSG_CODE_400_BAD_REQUEST :: u8 where "COAP_MSG_CODE_400_BAD_REQUEST \<equiv> 0x80"
abbreviation (input) COAP_MAX_RETRY_COUNT :: u8 where "COAP_MAX_RETRY_COUNT \<equiv> 4"
abbreviation (input) COAP_MAX_TRANSMISSION_SPAN :: u16 where "COAP_MAX_TRANSMISSION_SPAN \<equiv> 10"

record 'w coap_env =
  coap_malloc_ok :: "nat \<Rightarrow> 'w \<Rightarrow> bool \<times> 'w"
  udp_create :: "bytes \<Rightarrow> u16 \<Rightarrow> 'w \<Rightarrow> int \<times> 'w"
  udp_close :: "int \<Rightarrow> 'w \<Rightarrow> 'w"
  udp_write :: "bytes \<Rightarrow> 'w \<Rightarrow> int \<times> 'w"
  udp_read :: "nat \<Rightarrow> u32 \<Rightarrow> 'w \<Rightarrow> int \<times> bytes \<times> 'w"
  resp_handler :: "nat \<Rightarrow> nat \<Rightarrow> CoAPMessage \<Rightarrow> 'w \<Rightarrow> 'w"
  call_notifier :: "nat \<Rightarrow> u8 \<Rightarrow> CoAPMessage \<Rightarrow> 'w \<Rightarrow> 'w"

datatype coap_endpoint_type = COAP_ENDPOINT_NOSEC | COAP_ENDPOINT_DTLS

record CoAPSendNode =
  node_user :: nat
  node_msgid :: u16
  node_acked :: u8
  node_tokenlen :: u8
  node_token :: bytes
  node_retrans_count :: u8
  node_timeout :: u16
  node_timeout_val :: u16
  node_message :: "bytes option"
  node_msglen :: u32
  node_topic :: "bytes option"
  node_observer :: u8
  node_handler :: nat

record CoAPContext =
  ctx_message_id :: u16
  net_ep_type :: coap_endpoint_type
  net_context :: int
  ctx_notifier :: nat
  ctx_sendbuf :: bytes
  ctx_recvbuf :: bytes
  list_count :: u8
  list_maxcount :: u8
  sendlist :: "CoAPSendNode list"
  ctx_waittime :: u32

section \<open>Building messages\<close>

definition CoAPMessage_init :: "CoAPMessage option \<Rightarrow> int \<times> CoAPMessage option" where
  "CoAPMessage_init m =
     (case m of None \<Rightarrow> (COAP_ERROR_NULL, None)
      | Some _ \<Rightarrow> (COAP_SUCCESS, Some (zero_message
          \<lparr>msg_header := \<lparr>hdr_version = 1, hdr_type = COAP_MESSAGE_TYPE_ACK, hdr_tokenlen = 0, hdr_code = 0, hdr_msgid = 0\<rparr>,
           msg_payload := None, msg_payloadlen := 0, msg_optnum := 0, msg_optdelta := 0, msg_observer := 1,
           msg_handler := 0, msg_topic := None\<rparr>)))"

definition CoAPMessageId_set :: "CoAPMessage option \<Rightarrow> u16 \<Rightarrow> int \<times> CoAPMessage option" where
  "CoAPMessageId_set m msgid =
     (case m of None \<Rightarrow> (COAP_ERROR_NULL, None)
      | Some m \<Rightarrow> (COAP_SUCCESS, Some (m\<lparr>msg_header := (msg_header m)\<lparr>hdr_msgid := msgid\<rparr>\<rparr>)))"

definition CoAPMessageType_set :: "CoAPMessage option \<Rightarrow> u8 \<Rightarrow> int \<times> CoAPMessage option" where
  "CoAPMessageType_set m ty =
     (case m of None \<Rightarrow> (COAP_ERROR_NULL, None)
      | Some m \<Rightarrow>
          if ty \<noteq> COAP_MESSAGE_TYPE_CON \<and> ty \<noteq> COAP_MESSAGE_TYPE_NON \<and>
             ty \<noteq> COAP_MESSAGE_TYPE_ACK \<and> ty \<noteq> COAP_MESSAGE_TYPE_RST
          then (COAP_ERROR_INVALID_PARAM, Some m)
          else (COAP_SUCCESS, Some (m\<lparr>msg_header := (msg_header m)\<lparr>hdr_type := ty\<rparr>\<rparr>)))"

definition CoAPMessageCode_set :: "CoAPMessage option \<Rightarrow> u8 \<Rightarrow> int \<times> CoAPMessage option" where
  "CoAPMessageCode_set m code =
     (case m of None \<Rightarrow> (COAP_ERROR_NULL, None)
      | Some m \<Rightarrow> (COAP_SUCCESS, Some (m\<lparr>msg_header := (msg_header m)\<lparr>hdr_code := code\<rparr>\<rparr>)))"

definition CoAPMessageToken_set ::
    "CoAPMessage option \<Rightarrow> bytes option \<Rightarrow> u8 \<Rightarrow> (int \<times> CoAPMessage option) option" where
  "CoAPMessageToken_set m token tokenlen =
     (case (m, token) of
        (Some m, Some token) \<Rightarrow>
          if 8 < tokenlen then Some (COAP_ERROR_INVALID_LENGTH, Some m)
          else do {
            t \<leftarrow> rd_bytes token 0 (unat tokenlen);
            tok \<leftarrow> wr_bytes (msg_token m) 0 t;
            Some (COAP_SUCCESS, Some (m\<lparr>msg_token := tok, msg_header := (msg_header m)\<lparr>hdr_tokenlen := tokenlen AND 15\<rparr>\<rparr>)) }
      | _ \<Rightarrow> Some (COAP_ERROR_NULL, m))"

definition CoAPMessageUserData_set :: "CoAPMessage option \<Rightarrow> nat \<Rightarrow> int \<times> CoAPMessage option" where
  "CoAPMessageUserData_set m userdata =
     (case m of None \<Rightarrow> (COAP_ERROR_NULL, None)
      | Some m \<Rightarrow> if userdata = 0 then (COAP_ERROR_NULL, Some m)
                  else (COAP_SUCCESS, Some (m\<lparr>msg_user := userdata\<rparr>)))"

definition CoAPMessagePayload_set :: "CoAPMessage option \<Rightarrow> bytes option \<Rightarrow> u16 \<Rightarrow> int \<times> CoAPMessage option" where
  "CoAPMessagePayload_set m payload payloadlen =
     (case m of None \<Rightarrow> (COAP_ERROR_NULL, None)
      | Some m \<Rightarrow> if 0 < payloadlen \<and> payload = None then (COAP_ERROR_NULL, Some m)
                  else (COAP_SUCCESS, Some (m\<lparr>msg_payload := payload, msg_payloadlen := payloadlen\<rparr>)))"

definition CoAPMessageHandler_set :: "CoAPMessage option \<Rightarrow> nat \<Rightarrow> int \<times> CoAPMessage option" where
  "CoAPMessageHandler_set m handler =
     (case m of None \<Rightarrow> (COAP_ERROR_NULL, None)
      | Some m \<Rightarrow> (COAP_SUCCESS, Some (m\<lparr>msg_handler := handler\<rparr>)))"

text \<open>A failed allocation is written through: undefined unless the topic is empty.\<close>

definition CoAPMessageTopic_set ::
    "'w coap_env \<Rightarrow> CoAPMessage option \<Rightarrow> bytes \<Rightarrow> 'w \<Rightarrow> (int \<times> CoAPMessage option \<times> 'w) option" where
  "CoAPMessageTopic_set e m topic w =
     (case m of None \<Rightarrow> Some (COAP_ERROR_NULL, None, w)
      | Some m \<Rightarrow>
          let (ok, w) = coap_malloc_ok e (length topic) w in
          if ok \<or> topic = [] then Some (COAP_SUCCESS, Some (m\<lparr>msg_topic := Some topic\<rparr>), w)
          else None)"

text \<open>
  The two option functions store the difference to the previous option number, which the message
  keeps in eight bits.
\<close>

definition CoAPStrOption_add ::
    "'w coap_env \<Rightarrow> CoAPMessage \<Rightarrow> u16 \<Rightarrow> bytes \<Rightarrow> u16 \<Rightarrow> 'w \<Rightarrow> (int \<times> CoAPMessage \<times> 'w) option" where
  "CoAPStrOption_add e m optnum data datalen w =
     (if 16 \<le> msg_optnum m then Some (COAP_ERROR_INVALID_PARAM, m, w)
      else
        let (ok, w) = coap_malloc_ok e (unat datalen) w in do {
          ptr \<leftarrow> (if ok then map_option Some (rd_bytes data 0 (unat datalen)) else Some None);
          Some (COAP_SUCCESS,
            m\<lparr>msg_options := (msg_options m)[unat (msg_optnum m) :=
                \<lparr>opt_num = optnum - ucast (msg_optdelta m), opt_len = datalen, opt_val = ptr\<rparr>],
              msg_optdelta := ucast optnum, msg_optnum := msg_optnum m + 1\<rparr>, w) })"

definition uint_option_bytes :: "u32 \<Rightarrow> bytes" where
  "uint_option_bytes data =
     (if data = 0 then []
      else if 256 \<ge> data then [ucast data]
      else if 65535 \<ge> data then [ucast (drop_bit 8 (data AND 0xFF00)), ucast (data AND 0x00FF)]
      else [ucast (drop_bit 24 (data AND 0xFF000000)), ucast (drop_bit 16 (data AND 0x00FF0000)),
            ucast (drop_bit 8 (data AND 0x0000FF00)), ucast (data AND 0x000000FF)])"

definition CoAPUintOption_add ::
    "'w coap_env \<Rightarrow> CoAPMessage \<Rightarrow> u16 \<Rightarrow> u32 \<Rightarrow> 'w \<Rightarrow> int \<times> CoAPMessage \<times> 'w" where
  "CoAPUintOption_add e m optnum data w =
     (if 16 \<le> msg_optnum m then (COAP_ERROR_INVALID_PARAM, m, w)
      else
        let m = (if optnum = COAP_OPTION_OBSERVE
                 then m\<lparr>msg_observer := (if data = 0 then COAP_REGISTERED_OBSERVE else COAP_DEREGISTER_OBSERVE)\<rparr>
                 else m);
            bs = uint_option_bytes data;
            (ok, w) = (if data = 0 then (False, w) else coap_malloc_ok e (length bs) w) in
        (COAP_SUCCESS,
         m\<lparr>msg_options := (msg_options m)[unat (msg_optnum m) :=
             \<lparr>opt_num = optnum - ucast (msg_optdelta m), opt_len = of_nat (length bs),
              opt_val = (if ok then Some bs else None)\<rparr>],
           msg_optdelta := ucast optnum, msg_optnum := msg_optnum m + 1\<rparr>, w))"

definition CoAPMessageId_gen :: "CoAPContext \<Rightarrow> u16 \<times> CoAPContext" where
  "CoAPMessageId_gen c =
     (if ctx_message_id c = 65535 then (1, c)
      else (ctx_message_id c, c\<lparr>ctx_message_id := ctx_message_id c + 1\<rparr>))"

text \<open>Only the first \<open>COAP_MSG_MAX_TOKEN_LEN\<close> options are freed.\<close>

definition CoAPMessage_destory :: "CoAPMessage option \<Rightarrow> int \<times> CoAPMessage option" where
  "CoAPMessage_destory m =
     (case m of None \<Rightarrow> (COAP_ERROR_NULL, None)
      | Some m \<Rightarrow> (COAP_SUCCESS, Some (m\<lparr>msg_options :=
          map (\<lambda>opt. opt\<lparr>opt_val := None\<rparr>) (take 8 (msg_options m)) @ drop 8 (msg_options m)\<rparr>)))"

section \<open>Sending\<close>

definition CoAPNetwork_write :: "'w coap_env \<Rightarrow> bytes \<Rightarrow> 'w \<Rightarrow> int \<times> 'w" where
  "CoAPNetwork_write e data w =
     (let (rc, w) = udp_write e data w in (if rc = -1 then COAP_ERROR_WRITE_FAILED else COAP_SUCCESS, w))"

definition CoAPNetwork_read :: "'w coap_env \<Rightarrow> u32 \<Rightarrow> 'w \<Rightarrow> int \<times> bytes \<times> 'w" where
  "CoAPNetwork_read e timeout w =
     (let (n, d, w) = udp_read e COAP_MSG_MAX_PDU_LEN timeout w in
      (n, overwrite (replicate COAP_MSG_MAX_PDU_LEN 0) 0 (take COAP_MSG_MAX_PDU_LEN d), w))"

definition COAPAckMsg :: "CoAPMsgHeader \<Rightarrow> bool" where
  "COAPAckMsg h \<longleftrightarrow> hdr_code h = 0 \<and> hdr_type h = COAP_MESSAGE_TYPE_ACK"

definition CoAPRespMsg :: "CoAPMsgHeader \<Rightarrow> bool" where
  "CoAPRespMsg h \<longleftrightarrow> hdr_code h \<ge> 0x40 \<and> hdr_code h < 0xc0"

definition CoAPCONRespMsg :: "CoAPMsgHeader \<Rightarrow> bool" where
  "CoAPCONRespMsg h \<longleftrightarrow> hdr_code h = COAP_MSG_CODE_205_CONTENT \<and> hdr_type h = COAP_MESSAGE_TYPE_CON"

definition CoAPReqMsg :: "CoAPMsgHeader \<Rightarrow> bool" where
  "CoAPReqMsg h \<longleftrightarrow> 1 \<le> hdr_code h \<and> 32 > hdr_code h"

text \<open>
  \<open>&list.count >= &list.maxcount\<close> compares the addresses of two members of one structure, of which
  \<open>count\<close> comes first: the test is never true and the list never full.
\<close>

definition CoAPMessageList_add ::
    "'w coap_env \<Rightarrow> CoAPContext \<Rightarrow> CoAPMessage \<Rightarrow> nat \<Rightarrow> 'w \<Rightarrow> (int \<times> CoAPContext \<times> 'w) option" where
  "CoAPMessageList_add e c m n w =
     (let (ok, w) = coap_malloc_ok e 0 w in
      if \<not> ok then Some (-1, c, w)
      else do {
        let con = (hdr_type (msg_header m) = COAP_MESSAGE_TYPE_CON);
        token \<leftarrow> rd_bytes (msg_token m) 0 (unat (hdr_tokenlen (msg_header m)));
        let (ok, w) = coap_malloc_ok e n w;
        copy \<leftarrow> (if ok then map_option Some (rd_bytes (ctx_sendbuf c) 0 n) else Some None);
        let node = \<lparr>node_user = msg_user m, node_msgid = hdr_msgid (msg_header m), node_acked = 0,
          node_tokenlen = hdr_tokenlen (msg_header m), node_token = token,
          node_retrans_count = (if con then 0 else COAP_MAX_RETRY_COUNT),
          node_timeout = (if con then 2 else COAP_MAX_TRANSMISSION_SPAN),
          node_timeout_val = 2, node_message = copy, node_msglen = of_nat n,
          node_topic = msg_topic m, node_observer = msg_observer m, node_handler = msg_handler m\<rparr>;
        Some (0, c\<lparr>sendlist := sendlist c @ [node], list_count := list_count c + 1\<rparr>, w) })"

definition CoAPMessage_send ::
    "'w coap_env \<Rightarrow> CoAPContext \<Rightarrow> CoAPMessage \<Rightarrow> 'w \<Rightarrow> (int \<times> CoAPContext \<times> 'w) option" where
  "CoAPMessage_send e c m w = do {
     msglen \<leftarrow> CoAPSerialize_MessageLength m;
     if COAP_MSG_MAX_PDU_LEN < unat msglen then Some (COAP_ERROR_DATA_SIZE, c, w)
     else do {
       (rc, buf) \<leftarrow> CoAPSerialize_Message m (replicate COAP_MSG_MAX_PDU_LEN 0) (of_nat COAP_MSG_MAX_PDU_LEN);
       let msglen = (of_int rc :: u16);
       let c = c\<lparr>ctx_sendbuf := buf\<rparr>;
       data \<leftarrow> rd_bytes buf 0 (unat msglen);
       let (ret, w) = CoAPNetwork_write e data w;
       if ret = COAP_SUCCESS \<and> (CoAPReqMsg (msg_header m) \<or> CoAPCONRespMsg (msg_header m))
       then do { (_, c, w) \<leftarrow> CoAPMessageList_add e c m (unat msglen) w; Some (ret, c, w) }
       else Some (ret, c, w) } }"

section \<open>Receiving\<close>

text \<open>The first node with the message id is marked.\<close>

fun mark_acked :: "u16 \<Rightarrow> CoAPSendNode list \<Rightarrow> CoAPSendNode list" where
  "mark_acked msgid [] = []"
| "mark_acked msgid (n # ns) =
     (if node_msgid n = msgid then n\<lparr>node_acked := 1\<rparr> # ns else n # mark_acked msgid ns)"

definition CoAPAckMessage_handle :: "CoAPContext \<Rightarrow> CoAPMessage \<Rightarrow> int \<times> CoAPContext" where
  "CoAPAckMessage_handle c m =
     (COAP_SUCCESS, c\<lparr>sendlist := mark_acked (hdr_msgid (msg_header m)) (sendlist c)\<rparr>)"

definition CoAPAckMessage_send :: "'w coap_env \<Rightarrow> CoAPContext \<Rightarrow> u16 \<Rightarrow> 'w \<Rightarrow> (int \<times> CoAPContext \<times> 'w) option" where
  "CoAPAckMessage_send e c msgid w = do {
     m \<leftarrow> snd (CoAPMessageId_set (snd (CoAPMessage_init (Some zero_message))) msgid);
     CoAPMessage_send e c m w }"

definition token_matches :: "CoAPMessage \<Rightarrow> CoAPSendNode \<Rightarrow> bool" where
  "token_matches m n \<longleftrightarrow>
     node_tokenlen n \<noteq> 0 \<and> node_tokenlen n = hdr_tokenlen (msg_header m) \<and>
     node_token n = take (unat (hdr_tokenlen (msg_header m))) (msg_token m)"

text \<open>The notifier and the handler of the matching node are called with the user data of the node.\<close>

definition respond_node :: "'w coap_env \<Rightarrow> CoAPContext \<Rightarrow> CoAPMessage \<Rightarrow> CoAPSendNode \<Rightarrow> 'w \<Rightarrow> 'w" where
  "respond_node e c m n w =
     (let m = m\<lparr>msg_user := node_user n\<rparr>;
          w = (if COAP_MSG_CODE_400_BAD_REQUEST \<le> hdr_code (msg_header m) \<and> ctx_notifier c \<noteq> 0
               then call_notifier e (ctx_notifier c) (hdr_code (msg_header m)) m w else w)
      in if node_handler n \<noteq> 0 then resp_handler e (node_handler n) (node_user n) m w else w)"

definition CoAPRespMessage_handle ::
    "'w coap_env \<Rightarrow> CoAPContext \<Rightarrow> CoAPMessage \<Rightarrow> 'w \<Rightarrow> (int \<times> CoAPContext \<times> 'w) option" where
  "CoAPRespMessage_handle e c m w = do {
     (_, c, w) \<leftarrow> (if hdr_type (msg_header m) = COAP_MESSAGE_TYPE_CON
        then CoAPAckMessage_send e c (hdr_msgid (msg_header m)) w else Some (0, c, w));
     case dropWhile (\<lambda>n. \<not> token_matches m n) (sendlist c) of
       [] \<Rightarrow> Some (COAP_ERROR_NOT_FOUND, c, w)
     | n # rest \<Rightarrow> Some (COAP_SUCCESS,
         (if node_observer n = COAP_DEREGISTER_OBSERVE
          then c\<lparr>sendlist := takeWhile (\<lambda>n. \<not> token_matches m n) (sendlist c) @ rest,
                 list_count := list_count c - 1\<rparr>
          else c),
         respond_node e c m n w) }"

definition CoAPMessage_handle ::
    "'w coap_env \<Rightarrow> CoAPContext \<Rightarrow> bytes \<Rightarrow> u16 \<Rightarrow> 'w \<Rightarrow> (CoAPContext \<times> 'w) option" where
  "CoAPMessage_handle e c buf datalen w = do {
     (_, m) \<leftarrow> CoAPDeserialize_Message zero_message buf (int (unat datalen));
     if COAPAckMsg (msg_header m) then Some (snd (CoAPAckMessage_handle c m), w)
     else if CoAPRespMsg (msg_header m) then do {
       (_, c, w) \<leftarrow> CoAPRespMessage_handle e c m w;
       Some (c, w) }
     else Some (c, w) }"

text \<open>Reading goes on until nothing arrives, or \<open>readcount\<close> packets have been handled.\<close>

partial_function (option) recv_loop ::
    "'w coap_env \<Rightarrow> u32 \<Rightarrow> int \<Rightarrow> int \<Rightarrow> CoAPContext \<Rightarrow> 'w \<Rightarrow> (int \<times> CoAPContext \<times> 'w) option" where
  "recv_loop e timeout readcount count c w =
     (let (n, buf, w) = CoAPNetwork_read e timeout w;
          c = c\<lparr>ctx_recvbuf := buf\<rparr> in
      if n > 0 then do {
        (c, w) \<leftarrow> CoAPMessage_handle e c buf (of_int n) w;
        if readcount = 0 then recv_loop e timeout readcount count c w
        else if count - 1 = 0 then Some (n, c, w)
        else recv_loop e timeout readcount (count - 1) c w }
      else Some (0, c, w))"

definition CoAPMessage_recv ::
    "'w coap_env \<Rightarrow> CoAPContext \<Rightarrow> u32 \<Rightarrow> int \<Rightarrow> 'w \<Rightarrow> (int \<times> CoAPContext \<times> 'w) option" where
  "CoAPMessage_recv e c timeout readcount w = recv_loop e timeout readcount readcount c w"

section \<open>Retransmission\<close>

definition retransmit :: "'w coap_env \<Rightarrow> CoAPSendNode \<Rightarrow> 'w \<Rightarrow> (CoAPSendNode \<times> 'w) option" where
  "retransmit e n w =
     (if node_retrans_count n < COAP_MAX_RETRY_COUNT \<and> node_acked n = 0 \<and> node_observer n = COAP_DEREGISTER_OBSERVE
      then do {
        let t = node_timeout_val n * 2;
        let n = n\<lparr>node_timeout := t, node_timeout_val := t, node_retrans_count := node_retrans_count n + 1\<rparr>;
        data \<leftarrow> node_message n \<bind> (\<lambda>m. rd_bytes m 0 (unat (node_msglen n)));
        let (_, w) = CoAPNetwork_write e data w;
        Some (n, w) }
      else Some (n, w))"

text \<open>The loop over the list; it ends with the first node that is removed.\<close>

fun cycle_loop :: "'w coap_env \<Rightarrow> CoAPSendNode list \<Rightarrow> u8 \<Rightarrow> 'w \<Rightarrow> (CoAPSendNode list \<times> u8 \<times> 'w) option" where
  "cycle_loop e [] count w = Some ([], count, w)"
| "cycle_loop e (n # ns) count w =
     (if node_timeout n = 0 then do {
        (n, w) \<leftarrow> retransmit e n w;
        if (node_timeout n > COAP_MAX_TRANSMISSION_SPAN \<or> node_retrans_count n \<ge> COAP_MAX_RETRY_COUNT) \<and>
           node_observer n = COAP_DEREGISTER_OBSERVE
        then Some (ns, count - 1, w)
        else do { (ns, count, w) \<leftarrow> cycle_loop e ns count w; Some (n # ns, count, w) } }
      else do {
        (ns, count, w) \<leftarrow> cycle_loop e ns count w;
        Some (n\<lparr>node_timeout := node_timeout n - 1\<rparr> # ns, count, w) })"

definition CoAPMessage_cycle :: "'w coap_env \<Rightarrow> CoAPContext \<Rightarrow> 'w \<Rightarrow> (int \<times> CoAPContext \<times> 'w) option" where
  "CoAPMessage_cycle e c w = do {
     (_, c, w) \<leftarrow> CoAPMessage_recv e c (ctx_waittime c) 0 w;
     (ns, count, w) \<leftarrow> cycle_loop e (sendlist c) (list_count c) w;
     Some (COAP_SUCCESS, c\<lparr>sendlist := ns, list_count := count\<rparr>, w) }"

section \<open>Creating a context\<close>

text \<open>
  \<open>CoAPUri_parse\<close>. The string pointers are the suffixes they point to, with which \<open>len\<close> agrees.
  The result is the return value, the endpoint type, the host and the port; the last two arguments
  are what the caller's variables hold before. Adding up more digits than an \<open>int\<close> holds is
  undefined.
\<close>

definition tolower :: "u8 \<Rightarrow> u8" where
  "tolower b = (if 65 \<le> b \<and> b \<le> 90 then b + 32 else b)"

definition isdigit :: "u8 \<Rightarrow> bool" where
  "isdigit b \<longleftrightarrow> 48 \<le> b \<and> b \<le> 57"

fun skip_prefix :: "bytes \<Rightarrow> bytes \<Rightarrow> bytes \<times> bytes" where
  "skip_prefix (q # qs) (p # ps) = (if tolower p = q then skip_prefix qs ps else (q # qs, p # ps))"
| "skip_prefix qs ps = (qs, ps)"

fun port_value :: "bytes \<Rightarrow> int \<Rightarrow> int option" where
  "port_value [] v = Some v"
| "port_value (d # ds) v =
     (let v' = v * 10 + (int (unat d) - 48) in if v' > 2147483647 then None else port_value ds v')"

definition str_coap :: bytes where "str_coap = [99, 111, 97, 112]"
definition str_sep :: bytes where "str_sep = [58, 47, 47]"

definition CoAPUri_parse ::
    "bytes \<Rightarrow> coap_endpoint_type \<Rightarrow> bytes \<Rightarrow> u16 \<Rightarrow> (int \<times> coap_endpoint_type \<times> bytes \<times> u16) option" where
  "CoAPUri_parse uri ep host port =
     (case skip_prefix str_coap uri of
        (_ # _, p) \<Rightarrow> Some (261, ep, host, port)
      | ([], p) \<Rightarrow>
          let (ep, port, p) =
            (case p of c # cs \<Rightarrow> if tolower c = 115 then (COAP_ENDPOINT_DTLS, 5684, cs)
                                 else (COAP_ENDPOINT_NOSEC, 5683, p)
             | [] \<Rightarrow> (COAP_ENDPOINT_NOSEC, 5683, p)) in
          case skip_prefix str_sep p of
            (_ # _, p) \<Rightarrow> Some (261, ep, host, port)
          | ([], p) \<Rightarrow>
              let h = takeWhile (\<lambda>c. c \<noteq> 58) p; q = dropWhile (\<lambda>c. c \<noteq> 58) p in
              if h = [] then Some (261, ep, host, port)
              else if 127 < length h then Some (261, ep, host, port)
              else
                let ds = takeWhile isdigit (tl q) in
                if q = [] \<or> ds = [] then Some (COAP_SUCCESS, ep, h, port)
                else case port_value ds 0 of
                  None \<Rightarrow> None
                | Some v \<Rightarrow> if v > 65535 then Some (261, ep, h, port)
                            else Some (COAP_SUCCESS, ep, h, of_int v))"

record CoAPInitParam =
  init_url :: "bytes option"
  init_maxcount :: u8
  init_waittime :: u32
  init_notifier :: nat

definition CoAPNetwork_init ::
    "'w coap_env \<Rightarrow> coap_endpoint_type \<Rightarrow> bytes \<Rightarrow> u16 \<Rightarrow> 'w \<Rightarrow> int \<times> int \<times> 'w" where
  "CoAPNetwork_init e ep host port w =
     (case ep of
        COAP_ENDPOINT_NOSEC \<Rightarrow>
          let (fd, w) = udp_create e host port w in
          if fd = -1 then (263, fd, w) else (COAP_SUCCESS, fd, w)
      | COAP_ENDPOINT_DTLS \<Rightarrow> (COAP_SUCCESS, 0, w))"

definition CoAPNetwork_deinit :: "'w coap_env \<Rightarrow> CoAPContext \<Rightarrow> 'w \<Rightarrow> int \<times> 'w" where
  "CoAPNetwork_deinit e c w =
     (COAP_SUCCESS, case net_ep_type c of COAP_ENDPOINT_NOSEC \<Rightarrow> udp_close e (net_context c) w
                    | COAP_ENDPOINT_DTLS \<Rightarrow> w)"

definition CoAPContext_create ::
    "'w coap_env \<Rightarrow> CoAPInitParam \<Rightarrow> 'w \<Rightarrow> (CoAPContext option \<times> 'w) option" where
  "CoAPContext_create e p w =
     (let (ok, w) = coap_malloc_ok e 0 w in if \<not> ok then Some (None, w) else
      let (ok, w) = coap_malloc_ok e COAP_MSG_MAX_PDU_LEN w in if \<not> ok then Some (None, w) else
      let (ok, w) = coap_malloc_ok e COAP_MSG_MAX_PDU_LEN w in if \<not> ok then Some (None, w) else do {
        (ret, ep, host, port) \<leftarrow>
          (case init_url p of Some url \<Rightarrow> CoAPUri_parse url COAP_ENDPOINT_NOSEC [] 0
           | None \<Rightarrow> Some (COAP_SUCCESS, COAP_ENDPOINT_NOSEC, [], 0));
        if ret \<noteq> COAP_SUCCESS then Some (None, w)
        else
          let (ret, fd, w) = CoAPNetwork_init e ep host port w in
          if ret \<noteq> COAP_SUCCESS then Some (None, w)
          else Some (Some
            \<lparr>ctx_message_id = 1, net_ep_type = ep, net_context = fd, ctx_notifier = init_notifier p,
             ctx_sendbuf = replicate COAP_MSG_MAX_PDU_LEN 0, ctx_recvbuf = replicate COAP_MSG_MAX_PDU_LEN 0,
             list_count = 0, list_maxcount = init_maxcount p, sendlist = [],
             ctx_waittime = (if init_waittime p = 0 then 2000 else init_waittime p)\<rparr>, w) })"

definition CoAPContext_free :: "'w coap_env \<Rightarrow> CoAPContext option \<Rightarrow> 'w \<Rightarrow> 'w" where
  "CoAPContext_free e c w = (case c of None \<Rightarrow> w | Some c \<Rightarrow> snd (CoAPNetwork_deinit e c w))"

section \<open>The context invariant\<close>

text \<open>
  Every waiting node holds its token and, unless the allocation failed, exactly the bytes that were
  sent; the counter is the length of the list modulo 256; the two buffers keep their size.
\<close>

definition copy_ok :: "bytes option \<Rightarrow> u32 \<Rightarrow> bool" where
  "copy_ok copy n \<longleftrightarrow> (case copy of None \<Rightarrow> True | Some m \<Rightarrow> length m = unat n)"

definition node_ok :: "CoAPSendNode \<Rightarrow> bool" where
  "node_ok n \<longleftrightarrow>
     unat (node_tokenlen n) \<le> 8 \<and> length (node_token n) = unat (node_tokenlen n) \<and>
     unat (node_msglen n) \<le> COAP_MSG_MAX_PDU_LEN \<and>
     copy_ok (node_message n) (node_msglen n) \<and> node_retrans_count n \<le> 4"

definition ctx_inv :: "CoAPContext \<Rightarrow> bool" where
  "ctx_inv c \<longleftrightarrow>
     list_count c = of_nat (length (sendlist c)) \<and> list_all node_ok (sendlist c) \<and>
     length (ctx_sendbuf c) = COAP_MSG_MAX_PDU_LEN \<and> length (ctx_recvbuf c) = COAP_MSG_MAX_PDU_LEN"

lemma put_bytes_length: "put_bytes bs (m, p) = Some (m', p') \<Longrightarrow> length m' = length m"
  by (auto simp: put_bytes_def dest: wr_bytes_length)

lemma Serialize_Option_length: "CoAPSerialize_Option opt buf p = Some (n, buf') \<Longrightarrow> length buf' = length buf"
  by (auto simp: CoAPSerialize_Option_def bind_eq_Some_conv split: prod.splits dest!: put_bytes_length)

lemma serialize_options_loop_length:
  "serialize_options_loop os buf p count = Some (n, buf') \<Longrightarrow> length buf' = length buf"
proof (induction os arbitrary: buf count)
  case (Cons opt os)
  then show ?case
    by (auto simp: bind_eq_Some_conv dest!: Serialize_Option_length split: if_splits)
qed simp

lemma Serialize_Message_length:
  assumes "CoAPSerialize_Message msg buf buflen = Some (n, buf')"
  shows "length buf' = length buf"
proof -
  have h: "CoAPSerialize_Header msg b p k = Some (n, b') \<Longrightarrow> length b' = length b" for b p k n b'
    by (auto simp: CoAPSerialize_Header_def bind_eq_Some_conv Let_def dest!: put_bytes_length split: if_splits)
  have t: "CoAPSerialize_Token msg b p k = Some (n, b') \<Longrightarrow> length b' = length b" for b p k n b'
    by (auto simp: CoAPSerialize_Token_def bind_eq_Some_conv Let_def dest!: put_bytes_length split: if_splits)
  have o: "CoAPSerialize_Options msg b p = Some (n, b') \<Longrightarrow> length b' = length b" for b p n b'
    by (auto simp: CoAPSerialize_Options_def dest!: serialize_options_loop_length split: if_splits)
  have p: "CoAPSerialize_Payload msg b p k = Some (n, b') \<Longrightarrow> length b' = length b" for b p k n b'
    by (auto simp: CoAPSerialize_Payload_def bind_eq_Some_conv dest!: put_bytes_length split: if_splits option.splits)
  from assms show ?thesis
    by (auto simp: CoAPSerialize_Message_def bind_eq_Some_conv Let_def dest!: h t o p)
qed

lemma ctx_inv_list_add:
  assumes c: "ctx_inv c" and m: "length (msg_token m) = 8" and n: "n \<le> COAP_MSG_MAX_PDU_LEN"
    and r: "CoAPMessageList_add e c m n w = Some (rc, c', w')"
  shows "ctx_inv c'"
proof -
  have "unat (of_nat n :: u32) = n" using n by (simp add: unat_of_nat)
  with c m n r show ?thesis
    by (auto simp: CoAPMessageList_add_def Let_def bind_eq_Some_conv ctx_inv_def node_ok_def copy_ok_def rd_bytes_def
        split: if_splits prod.splits option.splits)
qed

lemma ctx_inv_send:
  assumes c: "ctx_inv c" and m: "length (msg_token m) = 8"
    and r: "CoAPMessage_send e c m w = Some (rc, c', w')"
  shows "ctx_inv c'"
proof -
  have add: "ctx_inv c2" if "CoAPSerialize_Message m (replicate 1280 0) 1280 = Some (k, buf)"
    "rd_bytes buf 0 (unat (of_int k :: u16)) = Some d"
    "CoAPMessageList_add e (c\<lparr>ctx_sendbuf := buf\<rparr>) m (unat (of_int k :: u16)) w1 = Some (rc2, c2, w2)" for k buf d w1 rc2 c2 w2
  proof (rule ctx_inv_list_add [OF _ m _ that(3)])
    have l: "length buf = 1280" using Serialize_Message_length [OF that(1)] by simp
    with c show "ctx_inv (c\<lparr>ctx_sendbuf := buf\<rparr>)" by (simp add: ctx_inv_def)
    show "unat (of_int k :: u16) \<le> 1280" using that(2) l by (auto simp: rd_bytes_def split: if_splits)
  qed
  have buf: "ctx_inv (c\<lparr>ctx_sendbuf := b\<rparr>)" if "CoAPSerialize_Message m (replicate 1280 0) 1280 = Some (k, b)" for k b
    using Serialize_Message_length [OF that] c by (simp add: ctx_inv_def)
  from r c show ?thesis
    by (auto simp: CoAPMessage_send_def bind_eq_Some_conv Let_def split_beta split: if_splits dest: add intro: buf)
qed

lemma ctx_inv_mark: "ctx_inv c \<Longrightarrow> ctx_inv (c\<lparr>sendlist := mark_acked i (sendlist c)\<rparr>)"
proof -
  have "length (mark_acked i ns) = length ns \<and> (list_all node_ok ns \<longrightarrow> list_all node_ok (mark_acked i ns))" for ns
    by (induction i ns rule: mark_acked.induct) (auto simp: node_ok_def)
  then show "ctx_inv c \<Longrightarrow> ctx_inv (c\<lparr>sendlist := mark_acked i (sendlist c)\<rparr>)" by (simp add: ctx_inv_def)
qed

lemma ctx_inv_resp:
  assumes c: "ctx_inv c" and r: "CoAPRespMessage_handle e c m w = Some (rc, c', w')"
  shows "ctx_inv c'"
proof -
  have ack: "ctx_inv c1" if "CoAPAckMessage_send e c i w = Some (k, c1, w1)" for i k c1 w1
    using that
    by (auto simp: CoAPAckMessage_send_def CoAPMessage_init_def CoAPMessageId_set_def zero_message_def
        dest!: ctx_inv_send [OF c, rotated])
  have del: "ctx_inv (c1\<lparr>sendlist := takeWhile P (sendlist c1) @ rest, list_count := list_count c1 - 1\<rparr>)"
    if "ctx_inv c1" "dropWhile P (sendlist c1) = n # rest" for c1 P n rest
  proof -
    define ts where "ts = takeWhile P (sendlist c1)"
    have "sendlist c1 = ts @ n # rest" using that(2) by (metis ts_def takeWhile_dropWhile_id)
    with that(1) show ?thesis unfolding ts_def [symmetric] by (simp add: ctx_inv_def)
  qed
  let ?pre = "if hdr_type (msg_header m) = COAP_MESSAGE_TYPE_CON
     then CoAPAckMessage_send e c (hdr_msgid (msg_header m)) w else Some (0, c, w)"
  from r obtain k c1 w1 where pre: "?pre = Some (k, c1, w1)"
    unfolding CoAPRespMessage_handle_def by (auto simp: bind_eq_Some_conv simp del: not_None_eq)
  then have c1: "ctx_inv c1" using c by (auto split: if_splits dest: ack)
  have "(case dropWhile (\<lambda>n. \<not> token_matches m n) (sendlist c1) of
       [] \<Rightarrow> Some (COAP_ERROR_NOT_FOUND, c1, w1)
     | n # rest \<Rightarrow> Some (COAP_SUCCESS,
         (if node_observer n = COAP_DEREGISTER_OBSERVE
          then c1\<lparr>sendlist := takeWhile (\<lambda>n. \<not> token_matches m n) (sendlist c1) @ rest,
                 list_count := list_count c1 - 1\<rparr>
          else c1),
         respond_node e c1 m n w1)) = Some (rc, c', w')"
    using r unfolding CoAPRespMessage_handle_def pre by simp
  with c1 show ?thesis
    by (cases "dropWhile (\<lambda>n. \<not> token_matches m n) (sendlist c1)") (auto intro: del split: if_splits)
qed

lemma ctx_inv_handle: "ctx_inv c \<Longrightarrow> CoAPMessage_handle e c buf n w = Some (c', w') \<Longrightarrow> ctx_inv c'"
  by (auto simp: CoAPMessage_handle_def bind_eq_Some_conv CoAPAckMessage_handle_def ctx_inv_mark
      split: if_splits dest: ctx_inv_resp)

lemma ctx_inv_recv_loop_r: "recv_loop e t rcnt count c w = Some r \<Longrightarrow> ctx_inv c \<longrightarrow> ctx_inv (fst (snd r))"
proof (erule recv_loop.raw_induct [rotated, where P = "\<lambda>e t rcnt count c w r. ctx_inv c \<longrightarrow> ctx_inv (fst (snd r))"], rule impI)
  fix rl :: "'a coap_env \<Rightarrow> u32 \<Rightarrow> int \<Rightarrow> int \<Rightarrow> CoAPContext \<Rightarrow> 'a \<Rightarrow> (int \<times> CoAPContext \<times> 'a) option"
  fix e t rcnt count c w r
  assume IH: "\<And>e t rcnt count c w r. rl e t rcnt count c w = Some r \<Longrightarrow> ctx_inv c \<longrightarrow> ctx_inv (fst (snd r))"
    and r: "(let (n, buf, w) = CoAPNetwork_read e t w;
          c = c\<lparr>ctx_recvbuf := buf\<rparr> in
      if n > 0 then do {
        (c, w) \<leftarrow> CoAPMessage_handle e c buf (of_int n) w;
        if rcnt = 0 then rl e t rcnt count c w
        else if count - 1 = 0 then Some (n, c, w)
        else rl e t rcnt (count - 1) c w }
      else Some (0, c, w)) = Some r"
    and c: "ctx_inv c"
  obtain n buf w1 where rd: "CoAPNetwork_read e t w = (n, buf, w1)" by (cases "CoAPNetwork_read e t w") auto
  then have "length buf = 1280" by (auto simp: CoAPNetwork_read_def Let_def split: prod.splits)
  with c have c1: "ctx_inv (c\<lparr>ctx_recvbuf := buf\<rparr>)" by (simp add: ctx_inv_def)
  show "ctx_inv (fst (snd r))"
    using r c1 unfolding rd
    by (auto simp: bind_eq_Some_conv Let_def split: if_splits dest!: ctx_inv_handle [OF c1] intro: IH [THEN mp])
qed

lemma ctx_inv_recv: "CoAPMessage_recv e c t k w = Some (rc, c', w') \<Longrightarrow> ctx_inv c \<Longrightarrow> ctx_inv c'"
  using ctx_inv_recv_loop_r by (fastforce simp: CoAPMessage_recv_def)

lemma retransmit_node:
  assumes "retransmit e n w = Some (n', w')"
  shows "\<exists>t v k. n' = n\<lparr>node_timeout := t, node_timeout_val := v, node_retrans_count := k\<rparr> \<and>
    (node_ok n \<longrightarrow> node_ok n')"
proof (cases "node_retrans_count n < 4 \<and> node_acked n = 0 \<and> node_observer n = 1")
  case False
  then have "n' = n" using assms by (auto simp: retransmit_def)
  then show ?thesis by (metis CoAPSendNode.surjective CoAPSendNode.update_convs(6,7,8))
next
  case True
  then have k: "node_ok n \<Longrightarrow> node_retrans_count n + 1 \<le> 4" by (simp add: inc_le word_less_def)
  from True assms have n': "n' = n\<lparr>node_timeout := node_timeout_val n * 2, node_timeout_val := node_timeout_val n * 2,
      node_retrans_count := node_retrans_count n + 1\<rparr>"
    by (auto simp: retransmit_def bind_eq_Some_conv Let_def split_beta)
  then have "node_ok n \<longrightarrow> node_ok n'" using k by (simp add: node_ok_def)
  with n' show ?thesis by blast
qed

lemma ctx_inv_cycle_loop:
  "cycle_loop e ns count w = Some (ns', count', w') \<Longrightarrow>
     count = of_nat (length ns) + k \<Longrightarrow> list_all node_ok ns \<Longrightarrow>
     count' = of_nat (length ns') + k \<and> list_all node_ok ns'"
proof (induction ns arbitrary: count w ns' count' w' k)
  case (Cons n ns)
  have IH: "count1 = of_nat (length ns1) + (1 + k) \<and> list_all node_ok ns1"
    if "cycle_loop e ns count w1 = Some (ns1, count1, w1')" for w1 ns1 count1 w1'
    using Cons.IH [OF that, of "1 + k"] Cons.prems(2,3) by (simp add: add_ac)
  have n: "node_ok n" using Cons.prems(3) by simp
  show ?case
  proof (cases "node_timeout n = 0")
    case True
    then obtain n1 w1 where r: "retransmit e n w = Some (n1, w1)"
      and rest: "(if (node_timeout n1 > 10 \<or> node_retrans_count n1 \<ge> 4) \<and> node_observer n1 = 1
        then Some (ns, count - 1, w1)
        else do { (ns, count, w) \<leftarrow> cycle_loop e ns count w1; Some (n1 # ns, count, w) }) = Some (ns', count', w')"
      using Cons.prems(1) by (auto simp: bind_eq_Some_conv)
    from retransmit_node [OF r] n have "node_ok n1" by blast
    moreover have "count - 1 = of_nat (length ns) + k" "list_all node_ok ns" using Cons.prems(2,3) by simp_all
    ultimately show ?thesis using rest
      by (auto simp: bind_eq_Some_conv split: if_splits dest!: IH)
  next
    case False
    with Cons.prems(1) obtain ns1 where l: "cycle_loop e ns count w = Some (ns1, count', w')"
      and "ns' = n\<lparr>node_timeout := node_timeout n - 1\<rparr> # ns1"
      by (auto simp: bind_eq_Some_conv)
    moreover have "node_ok (n\<lparr>node_timeout := node_timeout n - 1\<rparr>)" using n by (simp add: node_ok_def)
    ultimately show ?thesis using IH [OF l] by (simp add: add_ac)
  qed
qed simp

lemma ctx_inv_cycle:
  assumes c: "ctx_inv c" and r: "CoAPMessage_cycle e c w = Some (rc, c', w')"
  shows "ctx_inv c'"
proof -
  from r obtain rc1 c1 w1 ns count where recv: "CoAPMessage_recv e c (ctx_waittime c) 0 w = Some (rc1, c1, w1)"
    and loop: "cycle_loop e (sendlist c1) (list_count c1) w1 = Some (ns, count, w')"
    and c': "c' = c1\<lparr>sendlist := ns, list_count := count\<rparr>"
    by (auto simp: CoAPMessage_cycle_def bind_eq_Some_conv)
  from ctx_inv_recv [OF recv c] have "ctx_inv c1" .
  with ctx_inv_cycle_loop [OF loop, of 0] c' show ?thesis by (simp add: ctx_inv_def)
qed

lemma ctx_inv_create: "CoAPContext_create e p w = Some (Some c, w') \<Longrightarrow> ctx_inv c"
  by (auto simp: CoAPContext_create_def bind_eq_Some_conv Let_def ctx_inv_def split: prod.splits if_splits)

text \<open>What an application can do with a context, with the world changing in between.\<close>

inductive coap_reachable :: "'w coap_env \<Rightarrow> CoAPContext \<Rightarrow> 'w \<Rightarrow> bool" for e where
  create: "CoAPContext_create e p w = Some (Some c, w') \<Longrightarrow> coap_reachable e c w'"
| gen: "coap_reachable e c w \<Longrightarrow> coap_reachable e (snd (CoAPMessageId_gen c)) w"
| send: "coap_reachable e c w \<Longrightarrow> length (msg_token m) = 8 \<Longrightarrow>
     CoAPMessage_send e c m w = Some (rc, c', w') \<Longrightarrow> coap_reachable e c' w'"
| recv: "coap_reachable e c w \<Longrightarrow> CoAPMessage_recv e c t k w = Some (rc, c', w') \<Longrightarrow> coap_reachable e c' w'"
| cycle: "coap_reachable e c w \<Longrightarrow> CoAPMessage_cycle e c w = Some (rc, c', w') \<Longrightarrow> coap_reachable e c' w'"
| world: "coap_reachable e c w \<Longrightarrow> coap_reachable e c w'"

lemma coap_reachable_inv: "coap_reachable e c w \<Longrightarrow> ctx_inv c"
proof (induction rule: coap_reachable.induct)
  case (gen c w)
  then show ?case by (simp add: CoAPMessageId_gen_def ctx_inv_def)
qed (auto dest: ctx_inv_create ctx_inv_send ctx_inv_recv ctx_inv_cycle)

section \<open>The retransmission schedule\<close>

text \<open>\<open>k\<close> supervision rounds of \<open>CoAPMessage_cycle\<close> without anything received.\<close>

fun cycle_rounds :: "'w coap_env \<Rightarrow> nat \<Rightarrow> CoAPSendNode list \<times> u8 \<times> 'w \<Rightarrow> (CoAPSendNode list \<times> u8 \<times> 'w) option" where
  "cycle_rounds e 0 s = Some s"
| "cycle_rounds e (Suc k) (ns, count, w) = cycle_loop e ns count w \<bind> cycle_rounds e k"

lemma cycle_rounds_add:
  "cycle_rounds e (j + k) s = cycle_rounds e j s \<bind> cycle_rounds e k"
proof (induction j arbitrary: s)
  case (Suc j)
  obtain ns c w where s: "s = (ns, c, w)" by (cases s) auto
  show ?case by (cases "cycle_loop e ns c w") (simp_all add: s Suc.IH)
qed simp

text \<open>A node counts its timeout down; a confirmable one whose time is up is sent again with twice the time.\<close>

lemma cycle_countdown:
  "k \<le> unat (node_timeout n) \<Longrightarrow>
     cycle_rounds e k ([n], count, w) = Some ([n\<lparr>node_timeout := node_timeout n - of_nat k\<rparr>], count, w)"
proof (induction k arbitrary: n)
  case (Suc k)
  have t: "unat (node_timeout n - 1) = unat (node_timeout n) - 1" "node_timeout n \<noteq> 0"
    using Suc.prems by (auto simp: unat_sub word_le_nat_alt)
  with Suc.prems Suc.IH [of "n\<lparr>node_timeout := node_timeout n - 1\<rparr>"] show ?case by (simp add: diff_diff_add)
qed simp

definition fresh_con :: "CoAPSendNode \<Rightarrow> bytes \<Rightarrow> bool" where
  "fresh_con n m \<longleftrightarrow>
     node_acked n = 0 \<and> node_observer n = COAP_DEREGISTER_OBSERVE \<and>
     node_message n = Some m \<and> unat (node_msglen n) = length m"

lemma cycle_resend:
  assumes "fresh_con n m" and "node_timeout n = 0" and "node_retrans_count n = r" and "node_timeout_val n = v"
    and "r < 4" and "v * 2 \<le> 10" and "r + 1 < 4"
  shows "cycle_rounds e 1 ([n], count, w) =
    Some ([n\<lparr>node_timeout := v * 2, node_timeout_val := v * 2, node_retrans_count := r + 1\<rparr>], count, snd (udp_write e m w))"
  using assms
  by (simp add: fresh_con_def retransmit_def rd_bytes_def CoAPNetwork_write_def Let_def split_beta not_less not_le)

lemma retransmission_rounds:
  fixes e :: "'w coap_env"
  assumes n: "fresh_con n m" "node_timeout n = 2" "node_timeout_val n = 2" "node_retrans_count n = 0"
  defines "send \<equiv> \<lambda>w. snd (udp_write e m w)"
  shows "cycle_rounds e 2 ([n], count, w) = Some ([n\<lparr>node_timeout := 0\<rparr>], count, w) \<and>
    (\<exists>n1. cycle_rounds e 3 ([n], count, w) = Some ([n1], count, send w)) \<and>
    (\<exists>n2. cycle_rounds e 8 ([n], count, w) = Some ([n2], count, send (send w))) \<and>
    cycle_rounds e 17 ([n], count, w) = Some ([], count - 1, send (send (send w)))"
proof -
  define n0 where "n0 = n\<lparr>node_timeout := 0\<rparr>"
  have r2: "cycle_rounds e 2 ([n], count, w) = Some ([n0], count, w)"
    using cycle_countdown [of 2 n] n by (simp add: n0_def)
  define n1 where "n1 = n\<lparr>node_timeout := 4, node_timeout_val := 4, node_retrans_count := 1\<rparr>"
  have s1: "cycle_rounds e 1 ([n0], count, w) = Some ([n1], count, send w)"
    using cycle_resend [of n0 m 0 2] n by (simp add: n0_def n1_def fresh_con_def send_def)
  have r3: "cycle_rounds e 3 ([n], count, w) = Some ([n1], count, send w)"
    using cycle_rounds_add [of e 2 1] r2 s1 by simp
  define n10 where "n10 = n1\<lparr>node_timeout := 0\<rparr>"
  have r4: "cycle_rounds e 4 ([n1], count, send w) = Some ([n10], count, send w)"
    using cycle_countdown [of 4 n1] by (simp add: n1_def n10_def)
  define n2 where "n2 = n\<lparr>node_timeout := 8, node_timeout_val := 8, node_retrans_count := 2\<rparr>"
  have s2: "cycle_rounds e 1 ([n10], count, send w) = Some ([n2], count, send (send w))"
    using cycle_resend [of n10 m 1 4] n by (simp add: n10_def n1_def n2_def fresh_con_def send_def)
  have r8: "cycle_rounds e 8 ([n], count, w) = Some ([n2], count, send (send w))"
    using cycle_rounds_add [of e 3 "4 + 1"] cycle_rounds_add [of e 4 1] r3 r4 s2 by simp
  define n20 where "n20 = n2\<lparr>node_timeout := 0\<rparr>"
  have r8': "cycle_rounds e 8 ([n2], count, send (send w)) = Some ([n20], count, send (send w))"
    using cycle_countdown [of 8 n2] by (simp add: n2_def n20_def)
  have s3: "cycle_rounds e 1 ([n20], count, send (send w)) = Some ([], count - 1, send (send (send w)))"
    using n by (simp add: n20_def n2_def fresh_con_def retransmit_def rd_bytes_def CoAPNetwork_write_def Let_def split_beta send_def)
  have "cycle_rounds e 17 ([n], count, w) = Some ([], count - 1, send (send (send w)))"
    using cycle_rounds_add [of e 8 "8 + 1"] cycle_rounds_add [of e 8 1] r8 r8' s3 by simp
  with r2 r3 r8 show ?thesis by (simp add: n0_def)
qed

section \<open>An acknowledged node stays\<close>

definition parked :: "CoAPSendNode \<Rightarrow> bool" where
  "parked n \<longleftrightarrow> node_acked n \<noteq> 0 \<and> node_retrans_count n < COAP_MAX_RETRY_COUNT \<and> node_timeout n \<le> COAP_MAX_TRANSMISSION_SPAN"

definition same_request :: "CoAPSendNode \<Rightarrow> CoAPSendNode \<Rightarrow> bool" where
  "same_request n n' \<longleftrightarrow> node_msgid n' = node_msgid n \<and> node_token n' = node_token n \<and> node_message n' = node_message n"

lemma cycle_keeps_parked:
  "cycle_loop e ns count w = Some (ns', count', w') \<Longrightarrow> n \<in> set ns \<Longrightarrow> parked n \<Longrightarrow>
     \<exists>n' \<in> set ns'. parked n' \<and> same_request n n'"
proof (induction ns arbitrary: count w ns' count' w')
  case (Cons m ns)
  show ?case
  proof (cases "n \<in> set ns")
    case True
    with Cons show ?thesis
      by (auto simp: bind_eq_Some_conv same_request_def split: if_splits)
  next
    case False
    with Cons.prems have m: "m = n" by simp
    show ?thesis
    proof (cases "node_timeout n = 0")
      case True
      with Cons.prems m show ?thesis
        by (auto simp: bind_eq_Some_conv retransmit_def parked_def same_request_def not_less split: if_splits)
    next
      case False
      have "0 < unat (node_timeout n)" using False by (simp add: unat_gt_0)
      then have "node_timeout n - 1 \<le> node_timeout n" by (simp add: word_le_nat_alt unat_sub)
      with Cons.prems m False show ?thesis
        by (auto simp: bind_eq_Some_conv parked_def same_request_def)
    qed
  qed
qed simp

lemma rounds_keep_parked:
  "cycle_rounds e k (ns, count, w) = Some (ns', count', w') \<Longrightarrow> n \<in> set ns \<Longrightarrow> parked n \<Longrightarrow>
     \<exists>n' \<in> set ns'. parked n' \<and> same_request n n'"
proof (induction k arbitrary: ns count w n)
  case (Suc k)
  from Suc.prems(1) obtain ns1 c1 w1 where l: "cycle_loop e ns count w = Some (ns1, c1, w1)"
    and r: "cycle_rounds e k (ns1, c1, w1) = Some (ns', count', w')"
    by (auto simp: bind_eq_Some_conv)
  from cycle_keeps_parked [OF l Suc.prems(2,3)] obtain n1 where n1: "n1 \<in> set ns1" "parked n1" "same_request n n1" by blast
  from Suc.IH [OF r n1(1,2)] n1(3) show ?case by (auto simp: same_request_def)
qed (auto simp: same_request_def)


section \<open>Dispatch of a response\<close>

lemma handle_response:
  assumes r: "message_ok r" "length (coap_message r) < 65536" "CoAPRespMsg (msg_header r)"
      "hdr_type (msg_header r) \<noteq> COAP_MESSAGE_TYPE_CON" and post: "post \<noteq> []" "payload_of r = [] \<Longrightarrow> hd post \<noteq> 0xFF"
    and list: "sendlist c = before @ n # after" "list_all (\<lambda>k. node_tokenlen k \<noteq> hdr_tokenlen (msg_header r) \<or> node_token k \<noteq> token_of r) before"
      "node_tokenlen n = hdr_tokenlen (msg_header r)" "node_tokenlen n \<noteq> 0" "node_token n = token_of r"
      "node_observer n = COAP_DEREGISTER_OBSERVE"
  shows "\<exists>m. msg_header m = msg_header r \<and> payload_of m = payload_of r \<and>
    CoAPMessage_handle e c (coap_message r @ post) (of_nat (length (coap_message r))) w =
      Some (c\<lparr>sendlist := before @ after, list_count := list_count c - 1\<rparr>, respond_node e c m n w)"
proof -
  have z: "length (msg_token zero_message) = 8" "length (msg_options zero_message) = 16"
    by (simp_all add: zero_message_def)
  note parse = Deserialize_Message_eq [OF r(1,2) z post]
  obtain m where m: "CoAPDeserialize_Message zero_message (coap_message r @ post) (int (length (coap_message r))) =
      Some (COAP_SUCCESS, m)" by (rule that [OF parse])
  have hdr: "msg_header m = msg_header r" using m parse by (auto simp: Let_def split: if_splits)
  have tok: "token_of m = token_of r"
    using m parse length_token_of [OF r(1)] by (auto simp: token_of_def Let_def split: if_splits)
  have "msg_payload m = (if payload_of r = [] then None else Some (payload_of r @ post))"
    "payload_of r \<noteq> [] \<Longrightarrow> msg_payloadlen m = msg_payloadlen r"
    using m parse by (auto simp: zero_message_def Let_def split: if_splits)
  then have pay: "payload_of m = payload_of r"
    using length_payload_of [OF r(1)] by (simp add: payload_of_def [of m])
  have n: "token_matches m n" using list hdr tok by (simp add: token_matches_def token_of_def)
  have b: "\<forall>k \<in> set before. \<not> token_matches m k"
    using list(2) hdr tok by (auto simp: token_matches_def token_of_def list_all_iff)
  have split: "dropWhile (\<lambda>n. \<not> token_matches m n) (sendlist c) = n # after"
    "takeWhile (\<lambda>n. \<not> token_matches m n) (sendlist c) = before"
    using n b by (simp_all add: list(1) dropWhile_append2 takeWhile_append2)
  have len: "int (unat (of_nat (length (coap_message r)) :: u16)) = int (length (coap_message r))"
    using r(2) by (simp add: unat_of_nat)
  have "\<not> COAPAckMsg (msg_header r)" using r(3) by (auto simp: COAPAckMsg_def CoAPRespMsg_def)
  then have "CoAPMessage_handle e c (coap_message r @ post) (of_nat (length (coap_message r))) w =
      Some (c\<lparr>sendlist := before @ after, list_count := list_count c - 1\<rparr>, respond_node e c m n w)"
    unfolding CoAPMessage_handle_def len m
    using r(3,4) hdr split list(6) by (simp add: CoAPRespMessage_handle_def)
  with hdr pay show ?thesis by blast
qed

section \<open>Properties\<close>

text \<open>A platform for examples: the world is the list of packets sent and of handler numbers called.\<close>

definition demo_coap_env :: "bytes list coap_env" where
  "demo_coap_env =
     \<lparr>coap_malloc_ok = (\<lambda>_ w. (True, w)), udp_create = (\<lambda>_ _ w. (3, w)), udp_close = (\<lambda>_ w. w),
      udp_write = (\<lambda>d w. (int (length d), w @ [d])), udp_read = (\<lambda>_ _ w. (0, [], w)),
      resp_handler = (\<lambda>h _ _ w. w @ [[of_nat h]]), call_notifier = (\<lambda>_ _ _ w. w)\<rparr>"

definition demo_coap_ctx :: CoAPContext where
  "demo_coap_ctx =
     \<lparr>ctx_message_id = 1, net_ep_type = COAP_ENDPOINT_NOSEC, net_context = 3, ctx_notifier = 0,
      ctx_sendbuf = replicate 1280 0, ctx_recvbuf = replicate 1280 0, list_count = 0, list_maxcount = 10,
      sendlist = [], ctx_waittime = 2000\<rparr>"

definition demo_node :: CoAPSendNode where
  "demo_node =
     \<lparr>node_user = 0, node_msgid = 0x1234, node_acked = 0, node_tokenlen = 2, node_token = [7, 8],
      node_retrans_count = 0, node_timeout = 2, node_timeout_val = 2, node_message = Some [0x40, 1, 0x12, 0x34],
      node_msglen = 4, node_topic = None, node_observer = 1, node_handler = 5\<rparr>"

text \<open>
  Property C16: in every context an application can reach, by sending, receiving and supervision
  rounds in any order and on any network, the counter of the send list is its length modulo 256,
  every waiting node holds its whole token and, if it has a copy of its packet, a complete one, and
  the buffers keep their size.
\<close>

theorem coap_context_inv:
  assumes "coap_reachable e c w"
  shows "ctx_inv c"
  by (rule coap_reachable_inv [OF assms])

theorem coap_context_inv_witness: "\<exists>c w. coap_reachable demo_coap_env c w \<and> ctx_inv c"
proof -
  have "CoAPContext_create demo_coap_env \<lparr>init_url = None, init_maxcount = 10, init_waittime = 0, init_notifier = 0\<rparr> [] =
      Some (Some demo_coap_ctx, [])"
    by (simp add: CoAPContext_create_def demo_coap_env_def demo_coap_ctx_def CoAPNetwork_init_def)
  from coap_reachable.create [OF this] coap_context_inv [OF coap_reachable.create [OF this]] show ?thesis by blast
qed



text \<open>
  Property C27: A response that carries the token of a waiting request that does not observe, in an acknowledgement
  or a non-confirmable message, calls the handler of the first request with that token, once and with its user
  data, the header and the payload of the response, after the notifier of the context if there is one and the
  code is 4.00 or above, and removes exactly that request. The message is one the parser accepts,
  followed by a byte that is no payload marker if it has no payload.
\<close>

theorem coap_response_dispatch:
  assumes "message_ok r" and "length (coap_message r) < 65536" and "CoAPRespMsg (msg_header r)"
    and "hdr_type (msg_header r) \<noteq> COAP_MESSAGE_TYPE_CON" and "post \<noteq> []" and "payload_of r = [] \<Longrightarrow> hd post \<noteq> 0xFF"
    and "sendlist c = before @ n # after"
    and "list_all (\<lambda>k. node_tokenlen k \<noteq> hdr_tokenlen (msg_header r) \<or> node_token k \<noteq> token_of r) before"
    and "node_tokenlen n = hdr_tokenlen (msg_header r)" and "node_tokenlen n \<noteq> 0" and "node_token n = token_of r"
    and "node_observer n = COAP_DEREGISTER_OBSERVE" and "node_handler n \<noteq> 0"
  shows "\<exists>m. msg_header m = msg_header r \<and> payload_of m = payload_of r \<and> msg_user m = node_user n \<and>
    CoAPMessage_handle e c (coap_message r @ post) (of_nat (length (coap_message r))) w =
      Some (c\<lparr>sendlist := before @ after, list_count := list_count c - 1\<rparr>,
        resp_handler e (node_handler n) (node_user n) m
          (if 0x80 \<le> hdr_code (msg_header r) \<and> ctx_notifier c \<noteq> 0
           then call_notifier e (ctx_notifier c) (hdr_code (msg_header r)) m w else w))"
proof -
  obtain m where m: "msg_header m = msg_header r" "payload_of m = payload_of r"
    "CoAPMessage_handle e c (coap_message r @ post) (of_nat (length (coap_message r))) w =
      Some (c\<lparr>sendlist := before @ after, list_count := list_count c - 1\<rparr>, respond_node e c m n w)"
    using handle_response [OF assms(1-12), of e w] by blast
  have "payload_of (m\<lparr>msg_user := node_user n\<rparr>) = payload_of m" by (simp add: payload_of_def split: option.split)
  with m assms(13) show ?thesis
    by (intro exI [of _ "m\<lparr>msg_user := node_user n\<rparr>"]) (simp add: respond_node_def Let_def)
qed

theorem coap_response_dispatch_witness:
  "CoAPMessage_handle demo_coap_env (demo_coap_ctx\<lparr>sendlist := [demo_node], list_count := 1\<rparr>)
       ([0x62, 0x45, 0x12, 0x34, 7, 8, 0xFF, 42] @ [0]) 8 [] = Some (demo_coap_ctx, [[5]])"
proof -
  define r where "r = zero_message
     \<lparr>msg_header := \<lparr>hdr_version = 1, hdr_type = 2, hdr_tokenlen = 2, hdr_code = 0x45, hdr_msgid = 0x1234\<rparr>,
      msg_token := [7, 8, 0, 0, 0, 0, 0, 0], msg_payload := Some [42], msg_payloadlen := 1\<rparr>"
  have bytes: "coap_message r = [0x62, 0x45, 0x12, 0x34, 7, 8, 0xFF, 42]" "payload_of r = [42]" "token_of r = [7, 8]"
    unfolding r_def by code_simp+
  have ok: "message_ok r" by (simp add: r_def zero_message_def message_ok_def used_options_def)
  have hdr: "msg_header r = \<lparr>hdr_version = 1, hdr_type = 2, hdr_tokenlen = 2, hdr_code = 0x45, hdr_msgid = 0x1234\<rparr>"
    by (simp add: r_def)
  show ?thesis
    using coap_response_dispatch [OF ok, of "[0]" "demo_coap_ctx\<lparr>sendlist := [demo_node], list_count := 1\<rparr>" "[]" demo_node "[]" demo_coap_env "[]"]
    by (auto simp: bytes hdr CoAPRespMsg_def demo_node_def demo_coap_ctx_def demo_coap_env_def)
qed

text \<open>
  A request whose acknowledgement has arrived but whose separate response never does
  stays in the list for ever: no number of supervision rounds removes it.
\<close>

theorem coap_acked_never_removed:
  assumes "n \<in> set ns" and "node_acked n \<noteq> 0" and "node_retrans_count n < COAP_MAX_RETRY_COUNT"
    and "node_timeout n \<le> COAP_MAX_TRANSMISSION_SPAN" and "cycle_rounds e k (ns, count, w) = Some (ns', count', w')"
  shows "\<exists>n' \<in> set ns'. node_msgid n' = node_msgid n \<and> node_token n' = node_token n \<and> node_message n' = node_message n"
  using rounds_keep_parked [OF assms(5,1)] assms(2,3,4) by (auto simp: parked_def same_request_def)

theorem coap_acked_never_removed_witness:
  "\<exists>n' \<in> set (fst (the (cycle_rounds demo_coap_env 40 ([demo_node\<lparr>node_acked := 1\<rparr>], 1, [])))). node_msgid n' = 0x1234"
proof -
  have "case cycle_rounds demo_coap_env 40 ([demo_node\<lparr>node_acked := 1\<rparr>], 1, []) of None \<Rightarrow> False | Some _ \<Rightarrow> True"
    by code_simp
  then obtain ns' count' w' where r: "cycle_rounds demo_coap_env 40 ([demo_node\<lparr>node_acked := 1\<rparr>], 1, []) = Some (ns', count', w')"
    by (cases "cycle_rounds demo_coap_env 40 ([demo_node\<lparr>node_acked := 1\<rparr>], 1, [])") auto
  from coap_acked_never_removed [OF _ _ _ _ r, of "demo_node\<lparr>node_acked := 1\<rparr>"] r show ?thesis
    by (auto simp: demo_node_def)
qed

end
