(* ===== verification/Coap_Client.thy ===== *)
theory Coap_Client
  imports Coap_Message Utils_Timer
begin

text \<open>
  The CoAP client (sdk/comm/coap/iotx_coap_client.c) on top of the message layer: tokens, the
  options of a URI path and of a query string, requests, and the life cycle of a client.
  Strings are lists of bytes without the terminator.
\<close>

section \<open>The client\<close>

abbreviation (input) IOTX_SUCCESS :: int where "IOTX_SUCCESS \<equiv> 0"
abbreviation (input) IOTX_ERR_INVALID_PARAM :: int where "IOTX_ERR_INVALID_PARAM \<equiv> -1"
abbreviation (input) IOTX_ERR_URI_TOO_LOOG :: int where "IOTX_ERR_URI_TOO_LOOG \<equiv> -6"
abbreviation (input) COAP_OPTION_URI_PATH :: u16 where "COAP_OPTION_URI_PATH \<equiv> 11"
abbreviation (input) COAP_OPTION_CONTENT_FORMAT :: u16 where "COAP_OPTION_CONTENT_FORMAT \<equiv> 12"
abbreviation (input) COAP_OPTION_URI_QUERY :: u16 where "COAP_OPTION_URI_QUERY \<equiv> 15"
abbreviation (input) COAP_OPTION_ACCEPT :: u16 where "COAP_OPTION_ACCEPT \<equiv> 17"

datatype iotx_content_type_t = IOTX_CONTENT_TYPE_JSON | IOTX_CONTENT_TYPE_CBOR

record iotx_message_t =
  req_payload :: "bytes option"
  req_payload_len :: u16
  req_url :: "bytes option"
  req_querystr :: "bytes option"
  req_method :: u8
  req_content_type :: iotx_content_type_t
  req_resp_callback :: nat

record iotx_deviceinfo_t =
  device_id :: bytes
  device_secret :: bytes

text \<open>\<open>client_ref\<close> is the address of the client, which the messages carry as user data.\<close>

record iotx_coap_t =
  client_ref :: nat
  auth_token_len :: int
  is_authed :: bool
  is_connected :: bool
  p_devinfo :: iotx_deviceinfo_t
  p_coap_ctx :: CoAPContext
  coap_token :: u32
  heartbeat_timer :: iotx_time_t
  auth_timer :: iotx_time_t
  event_handle :: nat

definition iotx_get_coap_token :: "iotx_coap_t \<Rightarrow> bytes \<times> iotx_coap_t" where
  "iotx_get_coap_token c =
     (let v = coap_token c in
      ([ucast (v AND 0x00FF), ucast (drop_bit 8 (v AND 0xFF00)), ucast (drop_bit 16 (v AND 0xFF0000)),
        ucast (drop_bit 24 (v AND 0xFF000000))], c\<lparr>coap_token := v + 1\<rparr>))"

section \<open>Paths and query strings\<close>

text \<open>
  The loop of \<open>iotx_path_2_option\<close> and \<open>iotx_querystr_2_option\<close>: \<open>ptr\<close> and \<open>pstr\<close> are offsets into
  the string, \<open>sep\<close> the separator; \<open>topic\<close> tells whether the last segment also becomes the topic. A
  segment is copied into a buffer of 128 bytes: a longer one is written past its end, one of
  exactly 128 has no terminator for \<open>strlen\<close>. The last one is cut to 127. A full option array is
  not reported.
\<close>

function segment_loop ::
    "'w coap_env \<Rightarrow> u8 \<Rightarrow> u16 \<Rightarrow> bool \<Rightarrow> bytes \<Rightarrow> nat \<Rightarrow> nat \<Rightarrow> CoAPMessage \<Rightarrow> 'w \<Rightarrow> (CoAPMessage \<times> 'w) option" where
  "segment_loop e sep optnum topic s ptr pstr m w =
     (if ptr < length s then do {
        (m, w, pstr) \<leftarrow>
          (if s ! ptr = sep then
             if ptr \<noteq> pstr then
               let seg = take (ptr - pstr) (drop pstr s) in
               if length seg \<ge> 128 then None
               else do {
                 (_, m, w) \<leftarrow> CoAPStrOption_add e m optnum seg (of_nat (length seg)) w;
                 Some (m, w, ptr + 1) }
             else Some (m, w, ptr + 1)
           else Some (m, w, pstr));
        (m, w) \<leftarrow>
          (if ptr + 1 = length s \<and> pstr < length s then
             let seg = take 127 (drop pstr s) in do {
               (_, m, w) \<leftarrow> CoAPStrOption_add e m optnum seg (of_nat (length seg)) w;
               if topic then do {
                 (_, m', w) \<leftarrow> CoAPMessageTopic_set e (Some m) seg w;
                 m \<leftarrow> m';
                 Some (m, w) }
               else Some (m, w) }
           else Some (m, w));
        segment_loop e sep optnum topic s (ptr + 1) pstr m w }
      else Some (m, w))"
  by pat_completeness auto
termination
  by (relation "measure (\<lambda>(e, sep, optnum, topic, s, ptr, _). length s - ptr)") auto

declare segment_loop.simps [simp del]

definition iotx_path_2_option :: "'w coap_env \<Rightarrow> bytes option \<Rightarrow> CoAPMessage \<Rightarrow> 'w \<Rightarrow> (int \<times> CoAPMessage \<times> 'w) option" where
  "iotx_path_2_option e uri m w =
     (case uri of
        None \<Rightarrow> Some (IOTX_ERR_INVALID_PARAM, m, w)
      | Some s \<Rightarrow>
          if 135 < length s then Some (IOTX_ERR_URI_TOO_LOOG, m, w)
          else do {
            (m, w) \<leftarrow> segment_loop e 47 COAP_OPTION_URI_PATH True s 0 0 m w;
            Some (IOTX_SUCCESS, m, w) })"

definition iotx_querystr_2_option :: "'w coap_env \<Rightarrow> bytes option \<Rightarrow> CoAPMessage \<Rightarrow> 'w \<Rightarrow> (int \<times> CoAPMessage \<times> 'w) option" where
  "iotx_querystr_2_option e query m w =
     (case query of
        None \<Rightarrow> Some (IOTX_ERR_INVALID_PARAM, m, w)
      | Some s \<Rightarrow>
          if 135 < length s then Some (IOTX_ERR_URI_TOO_LOOG, m, w)
          else do {
            (m, w) \<leftarrow> segment_loop e 38 COAP_OPTION_URI_QUERY False s 0 0 m w;
            Some (IOTX_SUCCESS, m, w) })"

section \<open>Requests\<close>

text \<open>
  The message of a request, which \<open>IOT_CoAP_Client_Observe_Send\<close> (\<open>observe\<close>) and
  \<open>IOT_CoAP_Client_Send\<close> build alike.
\<close>

definition build_request ::
    "'w coap_env \<Rightarrow> bool \<Rightarrow> iotx_coap_t \<Rightarrow> iotx_message_t \<Rightarrow> 'w \<Rightarrow> (CoAPMessage \<times> iotx_coap_t \<times> 'w) option" where
  "build_request e observe c req w = do {
     let (_, m) = CoAPMessage_init (Some zero_message);
     let (_, m) = CoAPMessageType_set m COAP_MESSAGE_TYPE_CON;
     let (_, m) = CoAPMessageCode_set m (req_method req);
     let (msgid, ctx) = CoAPMessageId_gen (p_coap_ctx c);
     let c = c\<lparr>p_coap_ctx := ctx\<rparr>;
     let (_, m) = CoAPMessageId_set m msgid;
     let (token, c) = iotx_get_coap_token c;
     (_, m) \<leftarrow> CoAPMessageToken_set m (Some (token @ [0, 0, 0, 0])) 4;
     let (_, m) = CoAPMessageHandler_set m (req_resp_callback req);
     let (_, m) = CoAPMessageUserData_set m (client_ref c);
     m \<leftarrow> m;
     let (m, w) = (if observe then let (_, m, w) = CoAPUintOption_add e m COAP_OPTION_OBSERVE 0 w in (m, w)
                   else (m, w));
     (_, m, w) \<leftarrow> iotx_path_2_option e (req_url req) m w;
     let (_, m, w) = CoAPUintOption_add e m COAP_OPTION_CONTENT_FORMAT
       (case req_content_type req of IOTX_CONTENT_TYPE_CBOR \<Rightarrow> 60 | IOTX_CONTENT_TYPE_JSON \<Rightarrow> 50) w;
     (_, m, w) \<leftarrow> iotx_querystr_2_option e (req_querystr req) m w;
     let (_, m, w) = CoAPUintOption_add e m COAP_OPTION_ACCEPT 42 w;
     m \<leftarrow> (if req_payload req \<noteq> None
           then snd (CoAPMessagePayload_set (Some m) (req_payload req) (req_payload_len req)) else Some m);
     Some (m, c, w) }"

definition send_request ::
    "'w coap_env \<Rightarrow> bool \<Rightarrow> iotx_coap_t \<Rightarrow> iotx_message_t \<Rightarrow> 'w \<Rightarrow> (int \<times> iotx_coap_t \<times> 'w) option" where
  "send_request e observe c req w = do {
     (m, c, w) \<leftarrow> build_request e observe c req w;
     (ret, ctx, w) \<leftarrow> CoAPMessage_send e (p_coap_ctx c) m w;
     Some (ret, c\<lparr>p_coap_ctx := ctx\<rparr>, w) }"

definition IOT_CoAP_Client_Observe_Send ::
    "'w coap_env \<Rightarrow> iotx_coap_t \<Rightarrow> iotx_message_t \<Rightarrow> 'w \<Rightarrow> (int \<times> iotx_coap_t \<times> 'w) option" where
  "IOT_CoAP_Client_Observe_Send e c req w = send_request e True c req w"

definition IOT_CoAP_Client_Send ::
    "'w coap_env \<Rightarrow> iotx_coap_t \<Rightarrow> iotx_message_t \<Rightarrow> 'w \<Rightarrow> (int \<times> iotx_coap_t \<times> 'w) option" where
  "IOT_CoAP_Client_Send e c req w = send_request e False c req w"

definition IOT_CoAP_Auth ::
    "'w coap_env \<Rightarrow> iotx_coap_t option \<Rightarrow> iotx_message_t \<Rightarrow> 'w \<Rightarrow> (int \<times> iotx_coap_t option \<times> 'w) option" where
  "IOT_CoAP_Auth e c req w =
     (case c of
        None \<Rightarrow> Some (IOTX_ERR_INVALID_PARAM, None, w)
      | Some c \<Rightarrow>
          if auth_token_len c = 0 then Some (IOTX_ERR_INVALID_PARAM, Some c, w)
          else do { (ret, c, w) \<leftarrow> IOT_CoAP_Client_Send e c req w; Some (ret, Some c, w) })"

text \<open>\<open>IOT_CoAP_SendMessage\<close> has an empty body.\<close>

definition IOT_CoAP_SendMessage :: "iotx_coap_t option \<Rightarrow> iotx_message_t \<Rightarrow> int" where
  "IOT_CoAP_SendMessage c req = 0"

definition IOT_CoAP_GetMessagePayload :: "CoAPMessage option \<Rightarrow> int \<times> (bytes option \<times> u16) option" where
  "IOT_CoAP_GetMessagePayload m =
     (case m of None \<Rightarrow> (IOTX_ERR_INVALID_PARAM, None)
      | Some m \<Rightarrow> (IOTX_SUCCESS, Some (msg_payload m, msg_payloadlen m)))"

definition IOT_CoAP_GetMessageCode :: "CoAPMessage option \<Rightarrow> int \<times> u8 option" where
  "IOT_CoAP_GetMessageCode m =
     (case m of None \<Rightarrow> (IOTX_ERR_INVALID_PARAM, None)
      | Some m \<Rightarrow> (IOTX_SUCCESS, Some (hdr_code (msg_header m))))"

text \<open>
  \<open>iotx_event_notifyer\<close>, the notifier the client registers: codes 4.01 and 4.02 drop the
  authentication of the client the message belongs to.
\<close>

definition iotx_event_notifyer :: "u8 \<Rightarrow> CoAPMessage option \<Rightarrow> iotx_coap_t \<Rightarrow> iotx_coap_t" where
  "iotx_event_notifyer code m c =
     (case m of None \<Rightarrow> c
      | Some m \<Rightarrow> if (code = 0x82 \<or> code = 0x81) \<and> msg_user m \<noteq> 0 \<and> msg_user m = client_ref c
                  then c\<lparr>is_authed := False\<rparr> else c)"

section \<open>Life cycle\<close>

text \<open>\<open>snprintf(url, 128, "%s:%d", host, port)\<close>\<close>

definition decimal_int :: "int \<Rightarrow> bytes" where
  "decimal_int i = (if i < 0 then 45 # decimal (nat (- i)) else decimal (nat i))"

definition coap_url :: "bytes \<Rightarrow> int \<Rightarrow> bytes" where
  "coap_url host port = take 127 (host @ 58 # decimal_int port)"

record iotx_coap_config_t =
  cfg_host :: bytes
  cfg_port :: int
  cfg_wait_time_ms :: u32
  cfg_devinfo :: "iotx_deviceinfo_t option"
  cfg_event_handle :: nat

definition IOT_CoAP_Init ::
    "'w coap_env \<Rightarrow> nat \<Rightarrow> nat \<Rightarrow> iotx_coap_config_t option \<Rightarrow> 'w \<Rightarrow> (iotx_coap_t option \<times> 'w) option" where
  "IOT_CoAP_Init e ref notifier cfg w =
     (case cfg of
        None \<Rightarrow> Some (None, w)
      | Some cfg \<Rightarrow>
          (case cfg_devinfo cfg of
             None \<Rightarrow> Some (None, w)
           | Some info \<Rightarrow>
               let (ok, w) = coap_malloc_ok e 0 w in if \<not> ok then Some (None, w) else
               let (ok, w) = coap_malloc_ok e 33 w in if \<not> ok then Some (None, w) else
               let (ok, w) = coap_malloc_ok e 130 w in if \<not> ok then Some (None, w) else do {
                 (ctx, w) \<leftarrow> CoAPContext_create e
                   \<lparr>init_url = Some (coap_url (cfg_host cfg) (cfg_port cfg)), init_maxcount = 10,
                    init_waittime = cfg_wait_time_ms cfg, init_notifier = notifier\<rparr> w;
                 case ctx of
                   None \<Rightarrow> Some (None, w)
                 | Some ctx \<Rightarrow> Some (Some
                     \<lparr>client_ref = ref, auth_token_len = 33, is_authed = False, is_connected = True,
                      p_devinfo = \<lparr>device_id = take 64 (device_id info), device_secret = take 64 (device_secret info)\<rparr>,
                      p_coap_ctx = ctx, coap_token = 0x01020304,
                      heartbeat_timer = \<lparr>time = 0\<rparr>, auth_timer = \<lparr>time = 0\<rparr>,
                      event_handle = cfg_event_handle cfg\<rparr>, w) }))"

definition IOT_CoAP_Deinit :: "'w coap_env \<Rightarrow> iotx_coap_t option \<Rightarrow> 'w \<Rightarrow> iotx_coap_t option \<times> 'w" where
  "IOT_CoAP_Deinit e c w =
     (case c of None \<Rightarrow> (None, w) | Some c \<Rightarrow> (None, CoAPContext_free e (Some (p_coap_ctx c)) w))"

definition IOT_CoAP_Yield :: "'w coap_env \<Rightarrow> iotx_coap_t option \<Rightarrow> 'w \<Rightarrow> (int \<times> iotx_coap_t option \<times> 'w) option" where
  "IOT_CoAP_Yield e c w =
     (case c of
        None \<Rightarrow> Some (IOTX_ERR_INVALID_PARAM, None, w)
      | Some c \<Rightarrow> do {
          (ret, ctx, w) \<leftarrow> CoAPMessage_cycle e (p_coap_ctx c) w;
          Some (ret, Some (c\<lparr>p_coap_ctx := ctx\<rparr>), w) })"

section \<open>The segments of a path\<close>

fun split_on :: "u8 \<Rightarrow> bytes \<Rightarrow> bytes list" where
  "split_on sep [] = [[]]"
| "split_on sep (c # cs) =
     (if c = sep then [] # split_on sep cs else (c # hd (split_on sep cs)) # tl (split_on sep cs))"

definition segments :: "u8 \<Rightarrow> bytes \<Rightarrow> bytes list" where
  "segments sep s = [x \<leftarrow> split_on sep s. x \<noteq> []]"

fun add_segments :: "'w coap_env \<Rightarrow> u16 \<Rightarrow> bytes list \<Rightarrow> CoAPMessage \<Rightarrow> 'w \<Rightarrow> (CoAPMessage \<times> 'w) option" where
  "add_segments e optnum [] m w = Some (m, w)"
| "add_segments e optnum (s # ss) m w = do {
     (_, m, w) \<leftarrow> CoAPStrOption_add e m optnum s (of_nat (length s)) w;
     add_segments e optnum ss m w }"

lemma split_on_not_Nil [simp]: "split_on sep s \<noteq> []"
  by (cases s) auto

lemma split_on_append: "sep \<notin> set xs \<Longrightarrow> split_on sep (xs @ sep # ys) = xs # split_on sep ys"
  by (induction xs) auto

lemma split_on_free: "sep \<notin> set xs \<Longrightarrow> split_on sep xs = [xs]"
  by (induction xs) auto

definition last_segment :: "u8 \<Rightarrow> bytes \<Rightarrow> bytes" where
  "last_segment sep s = rev (takeWhile (\<lambda>c. c \<noteq> sep) (rev s))"

lemma last_segment_suffix: "last_segment sep (xs @ sep # ys) = last_segment sep ys"
proof -
  have "takeWhile (\<lambda>c. c \<noteq> sep) (zs @ sep # us) = takeWhile (\<lambda>c. c \<noteq> sep) zs" for zs us
    by (induction zs) auto
  then show ?thesis by (simp add: last_segment_def)
qed

lemma last_segment_free: "sep \<notin> set xs \<Longrightarrow> last_segment sep xs = xs"
  by (simp add: last_segment_def) (subst takeWhile_eq_all_conv [THEN iffD2], auto)

text \<open>After the last segment: it becomes the topic, unless the string ends in a separator.\<close>

definition finish_segments ::
    "'w coap_env \<Rightarrow> u8 \<Rightarrow> bool \<Rightarrow> bytes \<Rightarrow> CoAPMessage \<times> 'w \<Rightarrow> (CoAPMessage \<times> 'w) option" where
  "finish_segments e sep topic s r =
     (if topic \<and> last_segment sep s \<noteq> [] then do {
        (_, m', w) \<leftarrow> CoAPMessageTopic_set e (Some (fst r)) (last_segment sep s) (snd r);
        m \<leftarrow> m';
        Some (m, w) }
      else Some r)"

lemma finish_segments_suffix: "finish_segments e sep topic (xs @ sep # ys) = finish_segments e sep topic ys"
  by (intro ext) (simp add: finish_segments_def last_segment_suffix)

lemma segment_loop_eq:
  assumes "ptr \<le> length s" and "pstr \<le> ptr" and "sep \<notin> set (take (ptr - pstr) (drop pstr s))"
    and "list_all (\<lambda>x. length x < 128) (segments sep (drop pstr s))" and "ptr = length s \<Longrightarrow> pstr = length s"
  shows "segment_loop e sep optnum topic s ptr pstr m w =
    add_segments e optnum (segments sep (drop pstr s)) m w \<bind> finish_segments e sep topic (drop pstr s)"
  using assms
proof (induction "length s - ptr" arbitrary: ptr pstr m w)
  case 0
  then show ?case
    by (subst segment_loop.simps) (simp add: segments_def finish_segments_def last_segment_def)
next
  case (Suc n)
  then have lt: "ptr < length s" by simp
  define seg where "seg = take (ptr - pstr) (drop pstr s)"
  have d: "drop pstr s = seg @ s ! ptr # drop (ptr + 1) s"
  proof -
    have "drop pstr s = seg @ drop (ptr - pstr) (drop pstr s)" by (simp only: seg_def append_take_drop_id)
    also have "drop (ptr - pstr) (drop pstr s) = drop ptr s" using Suc.prems(2) by simp
    also have "drop ptr s = s ! ptr # drop (ptr + 1) s" using lt by (simp add: Cons_nth_drop_Suc)
    finally show ?thesis .
  qed
  have free: "sep \<notin> set seg" using Suc.prems(3) by (simp add: seg_def)
  have ls: "length seg = ptr - pstr" using Suc.prems(1,2) by (simp add: seg_def)
  have n: "n = length s - (ptr + 1)" using Suc.hyps(2) by simp
  show ?case
  proof (cases "s ! ptr = sep")
    case True
    have segs: "segments sep (drop pstr s) = (if ptr = pstr then [] else [seg]) @ segments sep (drop (ptr + 1) s)"
      using free ls Suc.prems(2) by (auto simp: d True segments_def split_on_append)
    have fin: "finish_segments e sep topic (drop pstr s) = finish_segments e sep topic (drop (ptr + 1) s)"
      by (simp add: d True finish_segments_suffix)
    have IH: "segment_loop e sep optnum topic s (ptr + 1) (ptr + 1) m w =
        add_segments e optnum (segments sep (drop (ptr + 1) s)) m w \<bind> finish_segments e sep topic (drop (ptr + 1) s)" for m w
      using Suc.prems(4) lt n segs by (intro Suc.hyps(1)) auto
    have "ptr \<noteq> pstr \<Longrightarrow> length seg < 128" using Suc.prems(4) segs by auto
    have no: "(Suc ptr = length s \<and> Suc ptr < length s) = False" by auto
    note simps = True lt no IH [simplified] fin segs Let_def seg_def [symmetric] not_le Option.bind_assoc split_beta
    show ?thesis
    proof (cases "ptr = pstr")
      case same: True
      have "segment_loop e sep optnum topic s ptr pstr m w = segment_loop e sep optnum topic s (Suc ptr) (Suc ptr) m w"
        using True lt same by (subst segment_loop.simps) (simp del: length_greater_0_conv, force)
      then show ?thesis using fin segs same IH [of m w] by simp
    next
      case diff: False
      with \<open>ptr \<noteq> pstr \<Longrightarrow> length seg < 128\<close> show ?thesis
        by (subst segment_loop.simps) (simp add: simps)
    qed
  next
    case False
    show ?thesis
    proof (cases "ptr + 1 = length s")
      case True
      have all: "drop pstr s = seg @ [s ! ptr]" using True by (simp add: d)
      have free': "sep \<notin> set (drop pstr s)" using free False by (auto simp: all)
      have segs: "segments sep (drop pstr s) = [drop pstr s]"
        using free' all by (simp add: segments_def split_on_free)
      have "length (drop pstr s) < 128" using Suc.prems(4) segs by simp
      then have t: "take 127 (drop pstr s) = drop pstr s" by simp
      have stop: "segment_loop e sep optnum t s (length s) p m w = Some (m, w)" for t p m w
        by (subst segment_loop.simps) simp
      have last: "last_segment sep (drop pstr s) = drop pstr s" "drop pstr s \<noteq> []"
        using free' all by (simp_all add: last_segment_free)
      have "pstr < length s" using Suc.prems(2) lt by simp
      with False True lt show ?thesis
        by (subst segment_loop.simps)
           (cases topic; simp add: stop segs t Let_def finish_segments_def last Option.bind_assoc case_prod_beta' split_beta)
    next
      case more: False
      have "sep \<notin> set (take (ptr + 1 - pstr) (drop pstr s))"
        using free False ls Suc.prems(2) by (simp add: d Suc_diff_le)
      with Suc.prems lt n more have "segment_loop e sep optnum topic s (ptr + 1) pstr m w =
          add_segments e optnum (segments sep (drop pstr s)) m w \<bind> finish_segments e sep topic (drop pstr s)"
        by (intro Suc.hyps(1)) auto
      with False more lt show ?thesis
        by (subst segment_loop.simps) simp
    qed
  qed
qed

text \<open>A segment too long for the buffer, with a separator behind it.\<close>

lemma segment_loop_overflow:
  assumes "128 \<le> length seg" and "sep \<notin> set seg" and "k \<le> length seg"
  shows "segment_loop e sep optnum topic (seg @ sep # rest) k 0 m w = None"
  using assms(3)
proof (induction "length seg - k" arbitrary: k)
  case 0
  then have "k = length seg" by simp
  with assms(1) show ?case
    by (subst segment_loop.simps) (auto simp: Let_def)
next
  case (Suc n)
  then have k: "k < length seg" by simp
  then have "(seg @ sep # rest) ! k \<noteq> sep" using assms(2) by (auto simp: nth_append in_set_conv_nth)
  with k Suc.hyps(1) [of "k + 1"] Suc.hyps(2) show ?case
    by (subst segment_loop.simps) simp
qed

section \<open>Properties of the client\<close>

lemma path_2_option:
  assumes "length s \<le> 135" and "list_all (\<lambda>x. length x < 128) (segments 47 s)"
  shows "iotx_path_2_option e (Some s) m w = do {
    r \<leftarrow> add_segments e COAP_OPTION_URI_PATH (segments 47 s) m w;
    (m, w) \<leftarrow> finish_segments e 47 True s r;
    Some (IOTX_SUCCESS, m, w) }"
proof -
  have "segment_loop e 47 COAP_OPTION_URI_PATH True s 0 0 m w =
      add_segments e COAP_OPTION_URI_PATH (segments 47 s) m w \<bind> finish_segments e 47 True s"
    using assms by (subst segment_loop_eq) auto
  with assms show ?thesis by (simp add: iotx_path_2_option_def Option.bind_assoc)
qed

text \<open>The options of some segments, behind an option whose number is \<open>delta\<close>.\<close>

fun segment_options :: "u16 \<Rightarrow> u8 \<Rightarrow> bytes list \<Rightarrow> CoAPMsgOption list" where
  "segment_options optnum delta [] = []"
| "segment_options optnum delta (s # ss) =
     \<lparr>opt_num = optnum - ucast delta, opt_len = of_nat (length s), opt_val = Some s\<rparr> #
     segment_options optnum (ucast optnum) ss"

lemma add_option_room:
  assumes "\<And>n w. fst (coap_malloc_ok e n w)" and "length (msg_options m) = 16" and "unat (msg_optnum m) < 16"
    and "length seg < 65536"
  shows "\<exists>m' w'. CoAPStrOption_add e m optnum seg (of_nat (length seg)) w = Some (COAP_SUCCESS, m', w') \<and>
    length (msg_options m') = 16 \<and> unat (msg_optnum m') = unat (msg_optnum m) + 1 \<and>
    used_options m' = used_options m @ [\<lparr>opt_num = optnum - ucast (msg_optdelta m), opt_len = of_nat (length seg), opt_val = Some seg\<rparr>] \<and>
    msg_optdelta m' = ucast optnum \<and> msg_topic m' = msg_topic m"
proof -
  obtain w1 where a: "coap_malloc_ok e (length seg) w = (True, w1)" using assms(1) by (metis prod.collapse)
  have u: "unat (of_nat (length seg) :: u16) = length seg" using assms(4) by (simp add: unat_of_nat)
  have n: "\<not> 16 \<le> msg_optnum m" using assms(3) by (simp add: word_le_nat_alt)
  have n1: "unat (msg_optnum m + 1) = unat (msg_optnum m) + 1" using assms(3) by (simp add: unat_word_ariths)
  show ?thesis
    using assms(2,3) a u n n1
    by (auto simp: CoAPStrOption_add_def rd_bytes_def used_options_def take_Suc_conv_app_nth)
qed

lemma add_option_full:
  "unat (msg_optnum m) = 16 \<Longrightarrow> CoAPStrOption_add e m optnum seg len w = Some (COAP_ERROR_INVALID_PARAM, m, w)"
  by (simp add: CoAPStrOption_add_def word_le_nat_alt)

lemma add_segments_options:
  assumes "\<And>n w. fst (coap_malloc_ok e n w)"
  shows "length (msg_options m) = 16 \<Longrightarrow> unat (msg_optnum m) \<le> 16 \<Longrightarrow> list_all (\<lambda>x. length x < 65536) segs \<Longrightarrow>
    \<exists>m' w'. add_segments e optnum segs m w = Some (m', w') \<and>
      used_options m' = used_options m @ take (16 - unat (msg_optnum m)) (segment_options optnum (msg_optdelta m) segs) \<and>
      msg_topic m' = msg_topic m"
proof (induction segs arbitrary: m w)
  case (Cons seg segs)
  show ?case
  proof (cases "unat (msg_optnum m) = 16")
    case True
    with Cons.IH [OF Cons.prems(1,2), of w] Cons.prems(3) show ?thesis by (simp add: add_option_full)
  next
    case False
    then have lt: "unat (msg_optnum m) < 16" and len: "length seg < 65536" using Cons.prems(2,3) by auto
    obtain m1 w1 where m1: "CoAPStrOption_add e m optnum seg (of_nat (length seg)) w = Some (COAP_SUCCESS, m1, w1)"
        "length (msg_options m1) = 16" "unat (msg_optnum m1) = unat (msg_optnum m) + 1"
        "used_options m1 = used_options m @ [\<lparr>opt_num = optnum - ucast (msg_optdelta m), opt_len = of_nat (length seg), opt_val = Some seg\<rparr>]"
        "msg_optdelta m1 = ucast optnum" "msg_topic m1 = msg_topic m"
      using add_option_room [OF assms Cons.prems(1) lt len, of optnum w] by (elim exE conjE) (rule that)
    have "16 - unat (msg_optnum m) = Suc (16 - unat (msg_optnum m1))" using m1(3) lt by simp
    moreover obtain m2 w2 where "add_segments e optnum segs m1 w1 = Some (m2, w2)"
        "used_options m2 = used_options m1 @ take (16 - unat (msg_optnum m1)) (segment_options optnum (msg_optdelta m1) segs)"
        "msg_topic m2 = msg_topic m1"
      using Cons.IH [OF m1(2), of w1] m1(3) lt Cons.prems(3) by auto
    ultimately show ?thesis using m1 by simp
  qed
qed simp

lemma finish_segments_topic:
  assumes "\<And>n w. fst (coap_malloc_ok e n w)"
  shows "\<exists>m' w'. finish_segments e 47 True s (m, w) = Some (m', w') \<and> used_options m' = used_options m \<and>
    msg_topic m' = (if last_segment 47 s = [] then msg_topic m else Some (last_segment 47 s))"
proof -
  obtain w1 where "coap_malloc_ok e (length (last_segment 47 s)) w = (True, w1)" using assms by (metis prod.collapse)
  then show ?thesis by (simp add: finish_segments_def CoAPMessageTopic_set_def used_options_def)
qed

lemma path_options:
  assumes "length s \<le> 135" and "list_all (\<lambda>x. length x < 128) (segments 47 s)"
    and alloc: "\<And>n w. fst (coap_malloc_ok e n w)"
    and "length (msg_options m) = 16" and "unat (msg_optnum m) \<le> 16"
  shows "\<exists>m' w'. iotx_path_2_option e (Some s) m w = Some (IOTX_SUCCESS, m', w') \<and>
    used_options m' = used_options m @
      take (16 - unat (msg_optnum m)) (segment_options COAP_OPTION_URI_PATH (msg_optdelta m) (segments 47 s)) \<and>
    msg_topic m' = (if last_segment 47 s = [] then msg_topic m else Some (last_segment 47 s))"
proof -
  have "list_all (\<lambda>x. length x < 65536) (segments 47 s)" using assms(2) by (auto simp: list_all_iff)
  from add_segments_options [OF alloc assms(4,5) this, of COAP_OPTION_URI_PATH w]
  obtain m1 w1 where m1: "add_segments e COAP_OPTION_URI_PATH (segments 47 s) m w = Some (m1, w1)"
      "used_options m1 = used_options m @
        take (16 - unat (msg_optnum m)) (segment_options COAP_OPTION_URI_PATH (msg_optdelta m) (segments 47 s))"
      "msg_topic m1 = msg_topic m" by (elim exE conjE) (rule that)
  from finish_segments_topic [OF alloc, of s m1 w1] m1 path_2_option [OF assms(1,2), of e m w] show ?thesis
    by auto
qed

definition demo_path :: bytes where
  "demo_path = [47, 97, 117, 116, 104, 47, 47, 105, 100]"

text \<open>
  Property C33: A URI path of at most 135 characters whose segments are shorter than 128 becomes, behind the options the message
  has, one Uri-Path option per non-empty segment, in the order of the path, whatever separators lead,
  follow or are doubled, as long as there is room: a message holds 16 options, and the segments for which
  there is none are dropped, while the result is success all the same. The last segment becomes the
  topic unless the path ends in a separator. The memory for the copies is there.
\<close>

theorem coap_path_options:
  assumes "length s \<le> 135" and "list_all (\<lambda>x. length x < 128) (segments 47 s)"
    and "\<And>n w. fst (coap_malloc_ok e n w)"
    and "length (msg_options m) = 16" and "unat (msg_optnum m) \<le> 16"
  shows "\<exists>m' w'. iotx_path_2_option e (Some s) m w = Some (IOTX_SUCCESS, m', w') \<and>
    used_options m' = used_options m @
      take (16 - unat (msg_optnum m)) (segment_options COAP_OPTION_URI_PATH (msg_optdelta m) (segments 47 s)) \<and>
    msg_topic m' = (if last_segment 47 s = [] then msg_topic m else Some (last_segment 47 s))"
  by (rule path_options [OF assms])

theorem coap_path_options_witness:
  "\<exists>m' w'. iotx_path_2_option demo_coap_env (Some demo_path) zero_message [] = Some (IOTX_SUCCESS, m', w') \<and>
     used_options m' = [\<lparr>opt_num = 11, opt_len = 4, opt_val = Some [97, 117, 116, 104]\<rparr>,
       \<lparr>opt_num = 0, opt_len = 2, opt_val = Some [105, 100]\<rparr>] \<and>
     msg_topic m' = Some [105, 100]"
proof -
  have s: "segments 47 demo_path = [[97, 117, 116, 104], [105, 100]]" and t: "last_segment 47 demo_path = [105, 100]"
    by code_simp+
  have "length demo_path \<le> 135" "list_all (\<lambda>x. length x < 128) (segments 47 demo_path)"
    "fst (coap_malloc_ok demo_coap_env n w)" "length (msg_options zero_message) = 16" "unat (msg_optnum zero_message) \<le> 16" for n w
    unfolding s by (simp_all add: demo_path_def demo_coap_env_def zero_message_def)
  from coap_path_options [OF this] show ?thesis
    unfolding s t by (simp add: used_options_def zero_message_def)
qed

text \<open>
  A path of allowed length whose first segment has 128 bytes or more and is followed
  by a separator is written past the end of the buffer of 128 bytes.
\<close>

theorem coap_path_overflow:
  assumes "length (seg @ 47 # rest) \<le> 135" and "128 \<le> length seg" and "47 \<notin> set seg"
  shows "iotx_path_2_option e (Some (seg @ 47 # rest)) m w = None"
  using assms by (simp add: iotx_path_2_option_def segment_loop_overflow)

theorem coap_path_overflow_witness:
  "iotx_path_2_option demo_coap_env (Some (replicate 128 97 @ 47 # [98])) zero_message [] = None"
  by (rule coap_path_overflow) auto

end
