(* ===== verification/Cloud_Datapoint.thy ===== *)
theory Cloud_Datapoint
  imports Iotkit_Prelude
begin

text \<open>
  The data points of a device (sdk/cloud/datapoint/iotx_datapoint_api.c): their table, reading and
  writing them, the binary format they are exchanged in, and when they are sent.

  \<open>double\<close> is a type parameter with its arithmetic in the record \<open>fp\<close>, so every result holds for
  any floating-point unit. \<open>int32_t\<close> and \<open>int\<close> are words of 32 bits, read with \<open>sint\<close>; shifts and
  sums wrap. \<open>long\<close> has 32 bits, as on the microcontrollers the SDK runs on. The contents of the
  record \<open>HAL_Malloc\<close> returns before it is initialised come from the environment, and so do the
  allocator's refusals, the clock, the reboot and \<open>IOT_Comm_SendData\<close>.
\<close>

section \<open>Data\<close>

datatype dp_transmit_mode_t = DP_TRANSMIT_MODE_MANUAL | DP_TRANSMIT_MODE_AUTOMATIC

datatype dp_permission_t = DP_PERMISSION_UP_ONLY | DP_PERMISSION_DOWN_ONLY | DP_PERMISSION_UP_DOWN

datatype data_type_t = DATA_TYPE_BOOL | DATA_TYPE_NUM | DATA_TYPE_ENUM | DATA_TYPE_STRING | DATA_TYPE_BINARY

datatype read_datapoint_result_t = RESULT_DATAPOINT_OLD | RESULT_DATAPOINT_NEW | RESULT_DATAPOINT_NONE

text \<open>The conversion of a \<open>double\<close> outside \<open>int32_t\<close> is undefined: \<open>None\<close>.\<close>

record 'd fp =
  fp_lt :: "'d \<Rightarrow> 'd \<Rightarrow> bool"
  fp_eq :: "'d \<Rightarrow> 'd \<Rightarrow> bool"
  fp_add :: "'d \<Rightarrow> 'd \<Rightarrow> 'd"
  fp_sub :: "'d \<Rightarrow> 'd \<Rightarrow> 'd"
  fp_mul :: "'d \<Rightarrow> 'd \<Rightarrow> 'd"
  fp_div :: "'d \<Rightarrow> 'd \<Rightarrow> 'd"
  fp_of_int :: "int \<Rightarrow> 'd"
  fp_to_int32 :: "'d \<Rightarrow> u32 option"

record 'd number_property_t =
  minValue :: 'd
  maxValue :: 'd
  resolution :: int

record 'd property_conf =
  dpID :: u16
  dataType :: data_type_t
  permission :: dp_permission_t
  prop_runtime :: u32
  change :: bool
  readFlag :: read_datapoint_result_t
  numberProperty :: "'d number_property_t"
  boolValue :: bool
  numberIntValue :: u32
  numberDoubleValue :: 'd
  enumValue :: u32
  stringValue :: bytes
  binaryValue :: bytes
  binaryLen :: u16

text \<open>The globals: \<open>properties\<close> holds the first \<open>properties_count\<close> entries of the array of 50.\<close>

record 'd dp_state =
  properties :: "'d property_conf list"
  datapoint_transmit_mode :: dp_transmit_mode_t
  datapoint_transmit_lapse :: u32
  transmit_runtime :: u32

record ('d, 'w) dp_env =
  dp_fp :: "'d fp"
  malloc_conf :: "'w \<Rightarrow> 'd property_conf option \<times> 'w"
  malloc_ok :: "nat \<Rightarrow> 'w \<Rightarrow> bool \<times> 'w"
  comm_send_data :: "bytes \<Rightarrow> 'w \<Rightarrow> int \<times> 'w"
  dp_uptime :: "'w \<Rightarrow> u32 \<times> 'w"
  system_reboot :: "'w \<Rightarrow> 'w"

abbreviation (input) CONFIG_PROPERTIES_MAX :: nat where "CONFIG_PROPERTIES_MAX \<equiv> 50"
abbreviation (input) CONFIG_AUTOMATIC_INTERVAL :: u32 where "CONFIG_AUTOMATIC_INTERVAL \<equiv> 600"
abbreviation (input) DPID_DEFAULT_BOOL_RESET :: u16 where "DPID_DEFAULT_BOOL_RESET \<equiv> 0x7F80"
abbreviation (input) DPID_DEFAULT_BOOL_GETALLDATAPOINT :: u16 where "DPID_DEFAULT_BOOL_GETALLDATAPOINT \<equiv> 0x7F81"

section \<open>The table\<close>

text \<open>\<open>None\<close> is the result \<open>-1\<close>.\<close>

fun property_index_from :: "u16 \<Rightarrow> nat \<Rightarrow> 'd property_conf list \<Rightarrow> nat option" where
  "property_index_from i k [] = None"
| "property_index_from i k (p # ps) = (if dpID p = i then Some k else property_index_from i (Suc k) ps)"

definition getPropertyIndex :: "'d dp_state \<Rightarrow> u16 \<Rightarrow> nat option" where
  "getPropertyIndex s i = property_index_from i 0 (properties s)"

definition isPropertyChanged :: "'d dp_state \<Rightarrow> bool" where
  "isPropertyChanged s = list_ex change (properties s)"

definition getPropertyCount :: "'d dp_state \<Rightarrow> u8" where
  "getPropertyCount s = of_nat (length (properties s))"

definition clearPropertyChangeFlag :: "'d dp_state \<Rightarrow> 'd dp_state" where
  "clearPropertyChangeFlag s =
     s\<lparr>properties := map (\<lambda>p. if change p then p\<lparr>change := False\<rparr> else p) (properties s)\<rparr>"

text \<open>\<open>_pow\<close>\<close>

definition fp_pow :: "'d fp \<Rightarrow> 'd \<Rightarrow> int \<Rightarrow> 'd" where
  "fp_pow f base exponent = ((\<lambda>r. fp_mul f r base) ^^ nat exponent) (fp_of_int f 1)"

definition getDatapointTransmitMode :: "'d dp_state \<Rightarrow> dp_transmit_mode_t" where
  "getDatapointTransmitMode s = datapoint_transmit_mode s"

definition IOT_DataPoint_Control :: "dp_transmit_mode_t \<Rightarrow> u32 \<Rightarrow> 'd dp_state \<Rightarrow> 'd dp_state" where
  "IOT_DataPoint_Control mode lapse s =
     (let s = s\<lparr>datapoint_transmit_mode := mode\<rparr> in
      if mode = DP_TRANSMIT_MODE_AUTOMATIC
      then if lapse < CONFIG_AUTOMATIC_INTERVAL then s\<lparr>datapoint_transmit_lapse := CONFIG_AUTOMATIC_INTERVAL\<rparr>
           else s\<lparr>datapoint_transmit_lapse := lapse\<rparr>
      else s)"

text \<open>
  The new record, not yet counted. The code has no bound: with 50 records it stores the pointer behind the
  array \<open>properties[CONFIG_PROPERTIES_MAX]\<close>, an access outside of an object, so the result is \<open>None\<close>. So it is
  for a refused allocation, whose \<open>NULL\<close> is written through; \<open>change\<close> keeps what the allocator left there.
\<close>

definition setDatapointValueInit ::
    "('d, 'w) dp_env \<Rightarrow> 'd dp_state \<Rightarrow> u16 \<Rightarrow> data_type_t \<Rightarrow> dp_permission_t \<Rightarrow> 'w \<Rightarrow> ('d property_conf \<times> 'w) option" where
  "setDatapointValueInit e s i ty perm w =
     (let (conf, w) = malloc_conf e w in
      if length (properties s) < CONFIG_PROPERTIES_MAX then do {
        p \<leftarrow> conf;
        Some (p\<lparr>dpID := i, dataType := ty, permission := perm, prop_runtime := 0, readFlag := RESULT_DATAPOINT_OLD\<rparr>, w) }
      else None)"

definition define_property ::
    "('d, 'w) dp_env \<Rightarrow> u16 \<Rightarrow> data_type_t \<Rightarrow> dp_permission_t \<Rightarrow>
     ('d property_conf \<Rightarrow> 'w \<Rightarrow> ('d property_conf \<times> 'w) option) \<Rightarrow> 'd dp_state \<Rightarrow> 'w \<Rightarrow> ('d dp_state \<times> 'w) option" where
  "define_property e i ty perm fill s w =
     (if getPropertyIndex s i = None then do {
        (p, w) \<leftarrow> setDatapointValueInit e s i ty perm w;
        (p, w) \<leftarrow> fill p w;
        Some (s\<lparr>properties := properties s @ [p]\<rparr>, w) }
      else Some (s, w))"

definition IOT_DataPoint_DefineBool ::
    "('d, 'w) dp_env \<Rightarrow> u16 \<Rightarrow> dp_permission_t \<Rightarrow> bool \<Rightarrow> 'd dp_state \<Rightarrow> 'w \<Rightarrow> ('d dp_state \<times> 'w) option" where
  "IOT_DataPoint_DefineBool e i perm value s w =
     define_property e i DATA_TYPE_BOOL perm (\<lambda>p w. Some (p\<lparr>boolValue := value\<rparr>, w)) s w"

text \<open>The value cut to its range is computed, but the value itself is stored.\<close>

definition IOT_DataPoint_DefineNumber ::
    "('d, 'w) dp_env \<Rightarrow> u16 \<Rightarrow> dp_permission_t \<Rightarrow> 'd \<Rightarrow> 'd \<Rightarrow> int \<Rightarrow> 'd \<Rightarrow> 'd dp_state \<Rightarrow> 'w \<Rightarrow> ('d dp_state \<times> 'w) option" where
  "IOT_DataPoint_DefineNumber e i perm mn mx res value s w =
     define_property e i DATA_TYPE_NUM perm (\<lambda>p w. do {
       let defaultValue = (if fp_lt (dp_fp e) value mn then mn else if fp_lt (dp_fp e) mx value then mx else value);
       p \<leftarrow> (if res = 0 then do { v \<leftarrow> fp_to_int32 (dp_fp e) value; Some (p\<lparr>numberIntValue := v\<rparr>) }
             else Some (p\<lparr>numberDoubleValue := value\<rparr>));
       Some (p\<lparr>numberProperty := \<lparr>minValue = mn, maxValue = mx, resolution = res\<rparr>\<rparr>, w) }) s w"

definition IOT_DataPoint_DefineEnum ::
    "('d, 'w) dp_env \<Rightarrow> u16 \<Rightarrow> dp_permission_t \<Rightarrow> u32 \<Rightarrow> 'd dp_state \<Rightarrow> 'w \<Rightarrow> ('d dp_state \<times> 'w) option" where
  "IOT_DataPoint_DefineEnum e i perm value s w =
     define_property e i DATA_TYPE_ENUM perm
       (\<lambda>p w. Some (p\<lparr>enumValue := (if sint value < 0 then 0 else value)\<rparr>, w)) s w"

definition IOT_DataPoint_DefineString ::
    "('d, 'w) dp_env \<Rightarrow> u16 \<Rightarrow> dp_permission_t \<Rightarrow> u16 \<Rightarrow> bytes \<Rightarrow> 'd dp_state \<Rightarrow> 'w \<Rightarrow> ('d dp_state \<times> 'w) option" where
  "IOT_DataPoint_DefineString e i perm maxLen value s w =
     define_property e i DATA_TYPE_STRING perm (\<lambda>p w.
       let (ok, w) = malloc_ok e (length value + 1) w in
       if ok then Some (p\<lparr>stringValue := value\<rparr>, w) else None) s w"

text \<open>The counter of the copy loop has 8 bits: for a length above 255 the loop does not end.\<close>

definition IOT_DataPoint_DefineBinary ::
    "('d, 'w) dp_env \<Rightarrow> u16 \<Rightarrow> dp_permission_t \<Rightarrow> u16 \<Rightarrow> bytes \<Rightarrow> u16 \<Rightarrow> 'd dp_state \<Rightarrow> 'w \<Rightarrow> ('d dp_state \<times> 'w) option" where
  "IOT_DataPoint_DefineBinary e i perm maxLen value n s w =
     define_property e i DATA_TYPE_BINARY perm (\<lambda>p w.
       let (ok, w) = malloc_ok e (unat n) w in
       if n > 255 then None
       else if \<not> ok \<and> n \<noteq> 0 then None
       else do {
         v \<leftarrow> rd_bytes value 0 (unat n);
         Some (p\<lparr>binaryValue := v, binaryLen := n\<rparr>, w) }) s w"

section \<open>Reading\<close>

text \<open>The value in a field of a data point, whatever its type is, and whether it is new.\<close>

definition read_property ::
    "('d property_conf \<Rightarrow> 'v) \<Rightarrow> u16 \<Rightarrow> 'd dp_state \<Rightarrow> read_datapoint_result_t \<times> 'v option \<times> 'd dp_state" where
  "read_property field i s =
     (case getPropertyIndex s i of
        None \<Rightarrow> (RESULT_DATAPOINT_NONE, None, s)
      | Some k \<Rightarrow>
          let p = properties s ! k in
          (readFlag p, Some (field p), s\<lparr>properties := (properties s)[k := p\<lparr>readFlag := RESULT_DATAPOINT_OLD\<rparr>]\<rparr>))"

definition IOT_DataPoint_ReadBool :: "u16 \<Rightarrow> 'd dp_state \<Rightarrow> read_datapoint_result_t \<times> bool option \<times> 'd dp_state" where
  "IOT_DataPoint_ReadBool = read_property boolValue"

definition IOT_DataPoint_ReadNumberInt32 :: "u16 \<Rightarrow> 'd dp_state \<Rightarrow> read_datapoint_result_t \<times> u32 option \<times> 'd dp_state" where
  "IOT_DataPoint_ReadNumberInt32 = read_property numberIntValue"

definition IOT_DataPoint_ReadNumberDouble :: "u16 \<Rightarrow> 'd dp_state \<Rightarrow> read_datapoint_result_t \<times> 'd option \<times> 'd dp_state" where
  "IOT_DataPoint_ReadNumberDouble = read_property numberDoubleValue"

definition IOT_DataPoint_ReadEnum :: "u16 \<Rightarrow> 'd dp_state \<Rightarrow> read_datapoint_result_t \<times> u32 option \<times> 'd dp_state" where
  "IOT_DataPoint_ReadEnum = read_property enumValue"

definition IOT_DataPoint_ReadString :: "u16 \<Rightarrow> 'd dp_state \<Rightarrow> read_datapoint_result_t \<times> bytes option \<times> 'd dp_state" where
  "IOT_DataPoint_ReadString = read_property stringValue"

definition IOT_DataPoint_ReadBinary ::
    "u16 \<Rightarrow> 'd dp_state \<Rightarrow> read_datapoint_result_t \<times> (bytes \<times> u16) option \<times> 'd dp_state" where
  "IOT_DataPoint_ReadBinary = read_property (\<lambda>p. (binaryValue p, binaryLen p))"

section \<open>Writing\<close>

text \<open>
  The flags after a write by the user (\<open>type\<close> not 0) or by the platform (\<open>type\<close> 0), to a different
  or to the same value.
\<close>

definition mark_write :: "u8 \<Rightarrow> bool \<Rightarrow> 'd property_conf \<Rightarrow> 'd property_conf" where
  "mark_write type differs p =
     (if differs then p\<lparr>change := True, readFlag := (if type \<noteq> 0 then RESULT_DATAPOINT_OLD else RESULT_DATAPOINT_NEW)\<rparr>
      else if type \<noteq> 0 then p\<lparr>change := False, readFlag := RESULT_DATAPOINT_OLD\<rparr>
      else p\<lparr>change := True, readFlag := RESULT_DATAPOINT_NEW\<rparr>)"

definition write_property ::
    "u16 \<Rightarrow> ('d property_conf \<Rightarrow> bool) \<Rightarrow> ('d property_conf \<Rightarrow> 'd property_conf option) \<Rightarrow> 'd dp_state \<Rightarrow> 'd dp_state option" where
  "write_property i accepts f s =
     (case getPropertyIndex s i of
        None \<Rightarrow> Some s
      | Some k \<Rightarrow>
          if accepts (properties s ! k) then do {
            p \<leftarrow> f (properties s ! k);
            Some (s\<lparr>properties := (properties s)[k := p]\<rparr>) }
          else Some s)"

definition writeDatapointBool :: "u16 \<Rightarrow> bool \<Rightarrow> u8 \<Rightarrow> 'd dp_state \<Rightarrow> 'd dp_state option" where
  "writeDatapointBool i value type s =
     write_property i (\<lambda>p. dataType p = DATA_TYPE_BOOL)
       (\<lambda>p. Some ((mark_write type (boolValue p \<noteq> value) p)\<lparr>boolValue := value\<rparr>)) s"

definition writeDatapointNumberInt32 :: "'d fp \<Rightarrow> u16 \<Rightarrow> u32 \<Rightarrow> u8 \<Rightarrow> 'd dp_state \<Rightarrow> 'd dp_state option" where
  "writeDatapointNumberInt32 f i value type s =
     write_property i (\<lambda>p. dataType p = DATA_TYPE_NUM \<and> resolution (numberProperty p) = 0)
       (\<lambda>p. do {
         tmp \<leftarrow> (if fp_lt f (fp_of_int f (sint value)) (minValue (numberProperty p))
                then fp_to_int32 f (minValue (numberProperty p))
                else if fp_lt f (maxValue (numberProperty p)) (fp_of_int f (sint value))
                then fp_to_int32 f (maxValue (numberProperty p))
                else Some value);
         let p' = mark_write type (numberIntValue p \<noteq> value) p;
         Some (if numberIntValue p \<noteq> value then p'\<lparr>numberIntValue := tmp\<rparr> else p') }) s"

definition writeDatapointNumberDouble :: "'d fp \<Rightarrow> u16 \<Rightarrow> 'd \<Rightarrow> u8 \<Rightarrow> 'd dp_state \<Rightarrow> 'd dp_state option" where
  "writeDatapointNumberDouble f i value type s =
     write_property i (\<lambda>p. dataType p = DATA_TYPE_NUM \<and> resolution (numberProperty p) \<noteq> 0)
       (\<lambda>p. do {
         let np = numberProperty p;
         let d = (if fp_lt f value (minValue np) then minValue np
                  else if fp_lt f (maxValue np) value then maxValue np else value);
         let pow = fp_pow f (fp_of_int f 10) (resolution np);
         tmp \<leftarrow> fp_to_int32 f (fp_mul f d pow);
         let differs = (\<not> fp_eq f (numberDoubleValue p) d);
         let p' = mark_write type differs p;
         Some (if differs then p'\<lparr>numberDoubleValue := fp_div f (fp_of_int f (sint tmp)) pow\<rparr> else p') }) s"

definition writeDatapointEnum :: "u16 \<Rightarrow> u32 \<Rightarrow> u8 \<Rightarrow> 'd dp_state \<Rightarrow> 'd dp_state option" where
  "writeDatapointEnum i value type s =
     write_property i (\<lambda>p. dataType p = DATA_TYPE_ENUM)
       (\<lambda>p. Some ((mark_write type (enumValue p \<noteq> value) p)\<lparr>enumValue := value\<rparr>)) s"

text \<open>The string is \<open>None\<close> for a null pointer.\<close>

definition writeDatapointString ::
    "('d, 'w) dp_env \<Rightarrow> u16 \<Rightarrow> bytes option \<Rightarrow> u8 \<Rightarrow> 'd dp_state \<Rightarrow> 'w \<Rightarrow> ('d dp_state \<times> 'w) option" where
  "writeDatapointString e i value type s w =
     (case getPropertyIndex s i of
        None \<Rightarrow> Some (s, w)
      | Some k \<Rightarrow>
          let p = properties s ! k in
          if dataType p \<noteq> DATA_TYPE_STRING then Some (s, w)
          else do {
            v \<leftarrow> value;
            if stringValue p \<noteq> v then
              let (ok, w) = malloc_ok e (length v + 1) w in
              if ok then Some (s\<lparr>properties := (properties s)[k := (mark_write type True p)\<lparr>stringValue := v\<rparr>]\<rparr>, w)
              else None
            else Some (s\<lparr>properties := (properties s)[k := mark_write type False p]\<rparr>, w) })"

text \<open>The bytes are at offset \<open>off\<close> of the memory \<open>mem\<close>; they are read only for a binary data point.\<close>

definition writeDatapointBinary ::
    "('d, 'w) dp_env \<Rightarrow> u16 \<Rightarrow> bytes \<Rightarrow> nat \<Rightarrow> u16 \<Rightarrow> u8 \<Rightarrow> 'd dp_state \<Rightarrow> 'w \<Rightarrow> ('d dp_state \<times> 'w) option" where
  "writeDatapointBinary e i mem off n type s w =
     (case getPropertyIndex s i of
        None \<Rightarrow> Some (s, w)
      | Some k \<Rightarrow>
          let p = properties s ! k in
          if dataType p \<noteq> DATA_TYPE_BINARY then Some (s, w)
          else do {
            v \<leftarrow> rd_bytes mem off (unat n);
            if binaryLen p \<noteq> n \<or> take (unat n) (binaryValue p) \<noteq> v then
              let (ok, w) = malloc_ok e (unat n) w in
              if ok \<or> n = 0
              then Some (s\<lparr>properties := (properties s)[k := (mark_write type True p)\<lparr>binaryValue := v, binaryLen := n\<rparr>]\<rparr>, w)
              else None
            else Some (s\<lparr>properties := (properties s)[k := mark_write type False p]\<rparr>, w) })"

definition IOT_DataPoint_WriteBool :: "u16 \<Rightarrow> bool \<Rightarrow> 'd dp_state \<Rightarrow> 'd dp_state option" where
  "IOT_DataPoint_WriteBool i value s = writeDatapointBool i value 1 s"

definition IOT_DataPoint_WriteNumberInt32 :: "'d fp \<Rightarrow> u16 \<Rightarrow> u32 \<Rightarrow> 'd dp_state \<Rightarrow> 'd dp_state option" where
  "IOT_DataPoint_WriteNumberInt32 f i value s = writeDatapointNumberInt32 f i value 1 s"

definition IOT_DataPoint_WriteNumberDouble :: "'d fp \<Rightarrow> u16 \<Rightarrow> 'd \<Rightarrow> 'd dp_state \<Rightarrow> 'd dp_state option" where
  "IOT_DataPoint_WriteNumberDouble f i value s = writeDatapointNumberDouble f i value 1 s"

definition IOT_DataPoint_WriteEnum :: "u16 \<Rightarrow> u32 \<Rightarrow> 'd dp_state \<Rightarrow> 'd dp_state option" where
  "IOT_DataPoint_WriteEnum i value s = writeDatapointEnum i value 1 s"

definition IOT_DataPoint_WriteString ::
    "('d, 'w) dp_env \<Rightarrow> u16 \<Rightarrow> bytes option \<Rightarrow> 'd dp_state \<Rightarrow> 'w \<Rightarrow> ('d dp_state \<times> 'w) option" where
  "IOT_DataPoint_WriteString e i value s w = writeDatapointString e i value 1 s w"

definition IOT_DataPoint_WriteBinary ::
    "('d, 'w) dp_env \<Rightarrow> u16 \<Rightarrow> bytes \<Rightarrow> u16 \<Rightarrow> 'd dp_state \<Rightarrow> 'w \<Rightarrow> ('d dp_state \<times> 'w) option" where
  "IOT_DataPoint_WriteBinary e i value n s w = writeDatapointBinary e i value 0 n 1 s w"

section \<open>The binary format\<close>

text \<open>
  A writer over a cursor into the caller's buffer; a byte past its end is undefined. The record is
  the one at the index.
\<close>

definition put_id :: "u16 \<Rightarrow> cursor \<Rightarrow> cursor option" where
  "put_id i = (if i < 0x80 then put_bytes [ucast (i AND 0xFF)]
               else put_bytes [ucast (drop_bit 8 i OR 0x80), ucast (i AND 0xFF)])"

definition put_len :: "u16 \<Rightarrow> cursor \<Rightarrow> cursor option" where
  "put_len n = (if n < 0x80 then put_bytes [ucast (n AND 0xFF)]
                else put_bytes [ucast (drop_bit 8 n OR 0x80), ucast (n AND 0xFF)])"

definition put_number :: "u32 \<Rightarrow> cursor \<Rightarrow> cursor option" where
  "put_number v =
     (if v AND 0xFFFF0000 \<noteq> 0
      then put_bytes [4, ucast (drop_bit 24 v AND 0xFF), ucast (drop_bit 16 v AND 0xFF), ucast (drop_bit 8 v AND 0xFF), ucast (v AND 0xFF)]
      else if v AND 0xFFFFFF00 \<noteq> 0 then put_bytes [2, ucast (drop_bit 8 v AND 0xFF), ucast (v AND 0xFF)]
      else put_bytes [1, ucast (v AND 0xFF)])"

definition number_to_send :: "'d fp \<Rightarrow> 'd property_conf \<Rightarrow> u32 option" where
  "number_to_send f p =
     (if resolution (numberProperty p) = 0 then Some (numberIntValue p)
      else fp_to_int32 f (fp_mul f (fp_sub f (numberDoubleValue p) (minValue (numberProperty p)))
             (fp_pow f (fp_of_int f 10) (resolution (numberProperty p)))))"

definition intoyunFormDataPointBinary :: "'d fp \<Rightarrow> 'd property_conf \<Rightarrow> cursor \<Rightarrow> cursor option" where
  "intoyunFormDataPointBinary f p c = do {
     c \<leftarrow> put_id (dpID p) c;
     case dataType p of
       DATA_TYPE_BOOL \<Rightarrow> put_bytes [0, 1, if boolValue p then 1 else 0] c
     | DATA_TYPE_NUM \<Rightarrow> do {
         c \<leftarrow> put_bytes [1] c;
         v \<leftarrow> number_to_send f p;
         put_number v c }
     | DATA_TYPE_ENUM \<Rightarrow> put_bytes [2, 1, ucast (enumValue p)] c
     | DATA_TYPE_STRING \<Rightarrow> do {
         let n = (of_nat (length (stringValue p)) :: u16);
         c \<leftarrow> put_bytes [3] c;
         c \<leftarrow> put_len n c;
         put_bytes (take (unat n) (stringValue p)) c }
     | DATA_TYPE_BINARY \<Rightarrow> do {
         c \<leftarrow> put_bytes [4] c;
         c \<leftarrow> put_len (binaryLen p) c;
         v \<leftarrow> rd_bytes (binaryValue p) 0 (unat (binaryLen p));
         put_bytes v c } }"

definition intoyunFormSingleDatapoint :: "'d fp \<Rightarrow> 'd dp_state \<Rightarrow> nat \<Rightarrow> bytes \<Rightarrow> (u16 \<times> bytes) option" where
  "intoyunFormSingleDatapoint f s k buffer = do {
     c \<leftarrow> put_bytes [0x31] (buffer, 0);
     (buffer, n) \<leftarrow> intoyunFormDataPointBinary f (properties s ! k) c;
     Some (of_nat n, buffer) }"

definition intoyunTransmitData :: "('d, 'w) dp_env \<Rightarrow> bytes \<Rightarrow> 'w \<Rightarrow> int \<times> 'w" where
  "intoyunTransmitData e data w = (let (result, w) = comm_send_data e data w in (if result \<noteq> 0 then 0 else 1, w))"

definition intoyunSendSingleDatapoint ::
    "('d, 'w) dp_env \<Rightarrow> 'd dp_state \<Rightarrow> nat \<Rightarrow> 'w \<Rightarrow> (int \<times> 'w) option" where
  "intoyunSendSingleDatapoint e s k w = do {
     (n, buffer) \<leftarrow> intoyunFormSingleDatapoint (dp_fp e) s k (replicate 256 0);
     data \<leftarrow> rd_bytes buffer 0 (unat n);
     Some (intoyunTransmitData e data w) }"

fun form_all_loop :: "'d fp \<Rightarrow> u8 \<Rightarrow> 'd property_conf list \<Rightarrow> cursor \<Rightarrow> cursor option" where
  "form_all_loop f type [] c = Some c"
| "form_all_loop f type (p # ps) c =
     (if permission p = DP_PERMISSION_DOWN_ONLY then form_all_loop f type ps c
      else if dpID p > 0x3F00 then form_all_loop f type ps c
      else if type \<noteq> 0 \<or> type = 0 \<and> change p then do {
        c \<leftarrow> intoyunFormDataPointBinary f p c;
        form_all_loop f type ps c }
      else form_all_loop f type ps c)"

definition intoyunFormAllDatapoint :: "'d fp \<Rightarrow> 'd dp_state \<Rightarrow> u8 \<Rightarrow> bytes \<Rightarrow> (u16 \<times> bytes) option" where
  "intoyunFormAllDatapoint f s type buffer = do {
     c \<leftarrow> put_bytes [0x31] (buffer, 0);
     (buffer, n) \<leftarrow> form_all_loop f type (properties s) c;
     Some (of_nat n, buffer) }"

section \<open>Sending\<close>

definition IOT_DataPoint_SendAll :: "('d, 'w) dp_env \<Rightarrow> 'd dp_state \<Rightarrow> 'w \<Rightarrow> (int \<times> 'd dp_state \<times> 'w) option" where
  "IOT_DataPoint_SendAll e s w =
     (if getPropertyCount s = 0 then Some (-1, s, w)
      else do {
        (n, buffer) \<leftarrow> intoyunFormAllDatapoint (dp_fp e) s 1 (replicate 512 0);
        let s = clearPropertyChangeFlag s;
        data \<leftarrow> rd_bytes buffer 0 (unat n);
        let (r, w) = intoyunTransmitData e data w;
        Some (r, s, w) })"

definition IOT_DataPoint_SendAllDatapointManual ::
    "('d, 'w) dp_env \<Rightarrow> 'd dp_state \<Rightarrow> 'w \<Rightarrow> (int \<times> 'd dp_state \<times> 'w) option" where
  "IOT_DataPoint_SendAllDatapointManual e s w =
     (if getPropertyCount s = 0 then Some (-1, s, w)
      else if getDatapointTransmitMode s = DP_TRANSMIT_MODE_AUTOMATIC then Some (-1, s, w)
      else IOT_DataPoint_SendAll e (clearPropertyChangeFlag s) w)"

text \<open>The comparison of the two 32-bit integers is unsigned.\<close>

definition interval_over :: "u32 \<Rightarrow> u32 \<Rightarrow> u32 \<Rightarrow> bool" where
  "interval_over now runtime lapse =
     (let elapsed = now - runtime;
          elapsed = (if sint elapsed < 0 then 0xFFFFFFFF - runtime + now else elapsed)
      in lapse * 1000 \<le> elapsed)"

definition IOT_DataPoint_SendDatapointAutomatic ::
    "('d, 'w) dp_env \<Rightarrow> 'd dp_state \<Rightarrow> 'w \<Rightarrow> (int \<times> 'd dp_state \<times> 'w) option" where
  "IOT_DataPoint_SendDatapointAutomatic e s w =
     (if getPropertyCount s = 0 then Some (-1, s, w)
      else if getDatapointTransmitMode s = DP_TRANSMIT_MODE_MANUAL then Some (-1, s, w)
      else
        let (sendFlag, w) =
          (if isPropertyChanged s then (True, w)
           else let (now, w) = dp_uptime e w in
                (interval_over now (transmit_runtime s) (datapoint_transmit_lapse s), w)) in
        if sendFlag then
          let (now, w) = dp_uptime e w in
          IOT_DataPoint_SendAll e (clearPropertyChangeFlag (s\<lparr>transmit_runtime := now\<rparr>)) w
        else Some (-1, s, w))"

text \<open>What the six \<open>IOT_DataPoint_Send\<close> functions share: the write, then the mode and the permission.\<close>

definition send_property ::
    "('d, 'w) dp_env \<Rightarrow> u16 \<Rightarrow> ('d dp_state \<Rightarrow> 'w \<Rightarrow> ('d dp_state \<times> 'w) option) \<Rightarrow> 'd dp_state \<Rightarrow> 'w \<Rightarrow>
     (int \<times> 'd dp_state \<times> 'w) option" where
  "send_property e i write s w =
     (case getPropertyIndex s i of
        None \<Rightarrow> Some (-1, s, w)
      | Some k \<Rightarrow> do {
          (s, w) \<leftarrow> write s w;
          if getDatapointTransmitMode s = DP_TRANSMIT_MODE_AUTOMATIC then Some (-1, s, w)
          else if permission (properties s ! k) = DP_PERMISSION_DOWN_ONLY then Some (-1, s, w)
          else do {
            (r, w) \<leftarrow> intoyunSendSingleDatapoint e s k w;
            Some (r, s, w) } })"

definition IOT_DataPoint_SendBool ::
    "('d, 'w) dp_env \<Rightarrow> u16 \<Rightarrow> bool \<Rightarrow> 'd dp_state \<Rightarrow> 'w \<Rightarrow> (int \<times> 'd dp_state \<times> 'w) option" where
  "IOT_DataPoint_SendBool e i value s w =
     send_property e i (\<lambda>s w. do { s \<leftarrow> writeDatapointBool i value 1 s; Some (s, w) }) s w"

definition IOT_DataPoint_SendNumberInt32 ::
    "('d, 'w) dp_env \<Rightarrow> u16 \<Rightarrow> u32 \<Rightarrow> 'd dp_state \<Rightarrow> 'w \<Rightarrow> (int \<times> 'd dp_state \<times> 'w) option" where
  "IOT_DataPoint_SendNumberInt32 e i value s w =
     send_property e i (\<lambda>s w. do { s \<leftarrow> writeDatapointNumberInt32 (dp_fp e) i value 1 s; Some (s, w) }) s w"

definition IOT_DataPoint_SendNumberDouble ::
    "('d, 'w) dp_env \<Rightarrow> u16 \<Rightarrow> 'd \<Rightarrow> 'd dp_state \<Rightarrow> 'w \<Rightarrow> (int \<times> 'd dp_state \<times> 'w) option" where
  "IOT_DataPoint_SendNumberDouble e i value s w =
     send_property e i (\<lambda>s w. do { s \<leftarrow> writeDatapointNumberDouble (dp_fp e) i value 1 s; Some (s, w) }) s w"

definition IOT_DataPoint_SendEnum ::
    "('d, 'w) dp_env \<Rightarrow> u16 \<Rightarrow> u32 \<Rightarrow> 'd dp_state \<Rightarrow> 'w \<Rightarrow> (int \<times> 'd dp_state \<times> 'w) option" where
  "IOT_DataPoint_SendEnum e i value s w =
     send_property e i (\<lambda>s w. do { s \<leftarrow> writeDatapointEnum i value 1 s; Some (s, w) }) s w"

definition IOT_DataPoint_SendString ::
    "('d, 'w) dp_env \<Rightarrow> u16 \<Rightarrow> bytes option \<Rightarrow> 'd dp_state \<Rightarrow> 'w \<Rightarrow> (int \<times> 'd dp_state \<times> 'w) option" where
  "IOT_DataPoint_SendString e i value s w =
     send_property e i (writeDatapointString e i value 1) s w"

definition IOT_DataPoint_SendBinary ::
    "('d, 'w) dp_env \<Rightarrow> u16 \<Rightarrow> bytes \<Rightarrow> u16 \<Rightarrow> 'd dp_state \<Rightarrow> 'w \<Rightarrow> (int \<times> 'd dp_state \<times> 'w) option" where
  "IOT_DataPoint_SendBinary e i value n s w =
     send_property e i (writeDatapointBinary e i value 0 n 1) s w"

section \<open>Receiving\<close>

text \<open>
  Up to four bytes, the first of them always: the value of a number or an enumeration whose length
  byte is \<open>n\<close>. A length other than 2, 3 and 4 is one byte.
\<close>

definition get_value :: "bytes \<Rightarrow> nat \<Rightarrow> (u32 \<times> nat) option" where
  "get_value payload index = do {
     n \<leftarrow> rd payload index;
     a \<leftarrow> rd payload (index + 1);
     if n = 2 then do {
       b \<leftarrow> rd payload (index + 2);
       Some (push_bit 8 (ucast a) OR ucast b, index + 3) }
     else if n = 3 then do {
       b \<leftarrow> rd payload (index + 2);
       c \<leftarrow> rd payload (index + 3);
       Some (push_bit 8 (push_bit 8 (ucast a) OR ucast b) OR ucast c, index + 4) }
     else if n = 4 then do {
       b \<leftarrow> rd payload (index + 2);
       c \<leftarrow> rd payload (index + 3);
       d \<leftarrow> rd payload (index + 4);
       Some (push_bit 8 (push_bit 8 (push_bit 8 (ucast a) OR ucast b) OR ucast c) OR ucast d, index + 5) }
     else Some (ucast a, index + 2) }"

text \<open>An identifier or a length: one byte, or two when the top bit of the first is set.\<close>

definition get_id :: "bytes \<Rightarrow> nat \<Rightarrow> (u16 \<times> nat) option" where
  "get_id payload index = do {
     a \<leftarrow> rd payload index;
     if a \<ge> 0x80 then do {
       b \<leftarrow> rd payload (index + 1);
       Some (push_bit 8 (ucast a AND 0x7F) OR ucast b, index + 2) }
     else Some (ucast a, index + 1) }"

text \<open>
  One data point of a packet. For a number the record of an unknown identifier is looked up at
  index 255, outside the array. A refused allocation leaves the string null.
\<close>

definition parse_datapoint ::
    "('d, 'w) dp_env \<Rightarrow> bytes \<Rightarrow> nat \<Rightarrow> 'd dp_state \<Rightarrow> 'w \<Rightarrow> (nat \<times> 'd dp_state \<times> 'w) option" where
  "parse_datapoint e payload index s w = do {
     (i, index) \<leftarrow> get_id payload index;
     ty \<leftarrow> rd payload index;
     let index = index + 1;
     if ty = 0 then do {
       _ \<leftarrow> rd payload index;
       v \<leftarrow> rd payload (index + 1);
       s \<leftarrow> writeDatapointBool i (v \<noteq> 0) 0 s;
       Some (index + 2, s, w) }
     else if ty = 1 then do {
       (v, index) \<leftarrow> get_value payload index;
       k \<leftarrow> getPropertyIndex s i;
       let np = numberProperty (properties s ! k);
       s \<leftarrow> (if resolution np = 0 then do {
              mn \<leftarrow> fp_to_int32 (dp_fp e) (minValue np);
              writeDatapointNumberInt32 (dp_fp e) i (v + mn) 0 s }
            else
              let f = dp_fp e in
              writeDatapointNumberDouble f i
                (fp_add f (fp_div f (fp_of_int f (sint v)) (fp_pow f (fp_of_int f 10) (resolution np))) (minValue np)) 0 s);
       Some (index, s, w) }
     else if ty = 2 then do {
       (v, index) \<leftarrow> get_value payload index;
       s \<leftarrow> writeDatapointEnum i v 0 s;
       Some (index, s, w) }
     else if ty = 3 then do {
       (n, index) \<leftarrow> get_id payload index;
       let (ok, w) = malloc_ok e (unat n + 1) w;
       str \<leftarrow> (if ok then do { data \<leftarrow> rd_bytes payload index (unat n); Some (Some (takeWhile (\<lambda>b. b \<noteq> 0) data)) } else Some None);
       (s, w) \<leftarrow> writeDatapointString e i str 0 s w;
       Some (index + unat n, s, w) }
     else if ty = 4 then do {
       (n, index) \<leftarrow> get_id payload index;
       (s, w) \<leftarrow> writeDatapointBinary e i payload index n 0 s w;
       Some (index + unat n, s, w) }
     else Some (index, s, w) }"

lemma get_id_progress: "get_id payload index = Some (i, index') \<Longrightarrow> index < index'"
  by (auto simp: get_id_def Option.bind_eq_Some_conv split: if_splits)

lemma get_value_progress: "get_value payload index = Some (v, index') \<Longrightarrow> index < index'"
  by (auto simp: get_value_def Option.bind_eq_Some_conv split: if_splits)

lemma parse_datapoint_progress:
  "parse_datapoint e payload index s w = Some (index', s', w') \<Longrightarrow> index < index'"
  by (auto simp: parse_datapoint_def Option.bind_eq_Some_conv split_beta Let_def
      split: if_splits dest!: get_id_progress get_value_progress)

text \<open>The loop over a packet of \<open>n\<close> bytes.\<close>

function parse_loop ::
    "('d, 'w) dp_env \<Rightarrow> bytes \<Rightarrow> nat \<Rightarrow> nat \<Rightarrow> 'd dp_state \<Rightarrow> 'w \<Rightarrow> ('d dp_state \<times> 'w) option" where
  "parse_loop e payload n index s w =
     (if index < n then
        (case parse_datapoint e payload index s w of
           None \<Rightarrow> None
         | Some (index, s, w) \<Rightarrow> parse_loop e payload n index s w)
      else Some (s, w))"
  by pat_completeness auto
termination
  by (relation "measure (\<lambda>(e, payload, n, index, s, w). n - index)") (auto dest: parse_datapoint_progress)

declare parse_loop.simps [simp del]

text \<open>The two data points the platform uses as commands: restart, and send everything.\<close>

definition run_commands :: "('d, 'w) dp_env \<Rightarrow> 'd dp_state \<Rightarrow> 'w \<Rightarrow> ('d dp_state \<times> 'w) option" where
  "run_commands e s w =
     (let (r, _, s) = IOT_DataPoint_ReadBool DPID_DEFAULT_BOOL_RESET s in
      if r = RESULT_DATAPOINT_NEW then Some (s, system_reboot e w)
      else
        let (r, _, s) = IOT_DataPoint_ReadBool DPID_DEFAULT_BOOL_GETALLDATAPOINT s in
        if r = RESULT_DATAPOINT_NEW then do {
          (_, s, w) \<leftarrow> IOT_DataPoint_SendAll e s w;
          Some (s, w) }
        else Some (s, w))"

definition IOT_DataPoint_ParseReceiveDatapoints ::
    "('d, 'w) dp_env \<Rightarrow> bytes option \<Rightarrow> u32 \<Rightarrow> 'd dp_state \<Rightarrow> 'w \<Rightarrow> ('d dp_state \<times> 'w) option" where
  "IOT_DataPoint_ParseReceiveDatapoints e payload n s w =
     (case payload of
        None \<Rightarrow> Some (s, w)
      | Some payload \<Rightarrow> do {
          tag \<leftarrow> rd payload 0;
          if tag \<noteq> 0x31 \<or> n = 0 then Some (s, w)
          else do {
            (s, w) \<leftarrow> parse_loop e payload (unat n) 1 s w;
            run_commands e s w } })"

section \<open>Bytes of words\<close>

lemma take_bit_self: "unat (v :: 'a :: len word) < 2 ^ n \<Longrightarrow> take_bit n v = v"
  by (simp add: word_unat_eq_iff unsigned_take_bit_eq take_bit_nat_eq_self_iff)

lemma and_ff: "(v :: 'a :: len word) AND 0xFF = take_bit 8 v"
  by (simp add: take_bit_eq_mask mask_eq_exp_minus_1)

lemma ucast_byte_ucast:
  assumes "8 \<le> LENGTH('a :: len)"
  shows "(ucast (ucast (v :: 'a word) :: u8) :: 'a word) = take_bit 8 v"
  using assms by (intro bit_word_eqI) (auto simp: bit_simps)

lemma join_byte:
  "push_bit 8 (take_bit m (drop_bit (k + 8) v)) OR take_bit 8 (drop_bit k v) = take_bit (m + 8) (drop_bit k (v :: 'a :: len word))"
proof (rule bit_word_eqI)
  fix n assume "n < LENGTH('a)"
  show "bit (push_bit 8 (take_bit m (drop_bit (k + 8) v)) OR take_bit 8 (drop_bit k v)) n = bit (take_bit (m + 8) (drop_bit k v)) n"
    by (cases "n < 8") (auto simp: bit_simps add.commute add.left_commute dest: bit_imp_le_length)
qed

lemma id_high:
  assumes "unat (i :: u16) < 0x8000"
  shows "(ucast (ucast (drop_bit 8 i OR 0x80) :: u8) :: u16) AND 0x7F = take_bit 7 (drop_bit 8 i)"
proof (rule bit_word_eqI)
  fix n assume n: "n < LENGTH(16)"
  have "take_bit 15 i = i" using assms by (intro take_bit_self) simp
  then have "\<not> bit i 15" by (metis bit_take_bit_iff less_irrefl)
  have m: "(0x7F :: u16) = mask 7" by (simp add: mask_eq_exp_minus_1)
  have "\<not> bit (0x80 :: u16) n" if "n < 7"
  proof -
    have "n \<in> set [0..<7]" using that by simp
    then show ?thesis by (auto simp: upt_rec)
  qed
  then show "bit ((ucast (ucast (drop_bit 8 i OR 0x80) :: u8) :: u16) AND 0x7F) n = bit (take_bit 7 (drop_bit 8 i)) n"
    using n unfolding m by (auto simp: bit_simps)
qed

lemma id_join:
  assumes "unat (i :: u16) < 0x8000"
  shows "push_bit 8 ((ucast (ucast (drop_bit 8 i OR 0x80) :: u8) :: u16) AND 0x7F) OR ucast (ucast (i AND 0xFF) :: u8) = i"
proof -
  have "push_bit 8 (take_bit 7 (drop_bit (0 + 8) i)) OR take_bit 8 (drop_bit 0 i) = i"
    using assms by (simp only: join_byte) (simp add: take_bit_self)
  then show ?thesis by (simp only: id_high [OF assms] and_ff) (simp add: ucast_byte_ucast)
qed

lemma number_join4:
  fixes v :: u32
  shows "push_bit 8 (push_bit 8 (push_bit 8 (ucast (ucast (drop_bit 24 v AND 0xFF) :: u8)) OR
     ucast (ucast (drop_bit 16 v AND 0xFF) :: u8)) OR ucast (ucast (drop_bit 8 v AND 0xFF) :: u8)) OR
     ucast (ucast (v AND 0xFF) :: u8) = v"
proof -
  have "push_bit 8 (take_bit 24 (drop_bit (0 + 8) v)) OR take_bit 8 (drop_bit 0 v) = v"
    "push_bit 8 (take_bit 16 (drop_bit (8 + 8) v)) OR take_bit 8 (drop_bit 8 v) = take_bit 24 (drop_bit 8 v)"
    "push_bit 8 (take_bit 8 (drop_bit (16 + 8) v)) OR take_bit 8 (drop_bit 16 v) = take_bit 16 (drop_bit 16 v)"
    by (simp_all only: join_byte) (simp_all add: take_bit_self take_bit_length_eq [where ?'a = 32, simplified])
  then show ?thesis by (simp add: ucast_byte_ucast and_ff)
qed


section \<open>The format as a specification\<close>

datatype dp_value =
  Bool_value bool | Number_value u32 | Enum_value u8 | String_value bytes | Binary_value bytes

definition short_bytes :: "u16 \<Rightarrow> bytes" where
  "short_bytes n = (if n < 0x80 then [ucast (n AND 0xFF)] else [ucast (drop_bit 8 n OR 0x80), ucast (n AND 0xFF)])"

definition number_bytes :: "u32 \<Rightarrow> bytes" where
  "number_bytes v =
     (if v AND 0xFFFF0000 \<noteq> 0
      then [4, ucast (drop_bit 24 v AND 0xFF), ucast (drop_bit 16 v AND 0xFF), ucast (drop_bit 8 v AND 0xFF), ucast (v AND 0xFF)]
      else if v AND 0xFFFFFF00 \<noteq> 0 then [2, ucast (drop_bit 8 v AND 0xFF), ucast (v AND 0xFF)]
      else [1, ucast (v AND 0xFF)])"

fun encode_value :: "dp_value \<Rightarrow> bytes" where
  "encode_value (Bool_value b) = [0, 1, if b then 1 else 0]"
| "encode_value (Number_value v) = 1 # number_bytes v"
| "encode_value (Enum_value b) = [2, 1, b]"
| "encode_value (String_value str) = 3 # short_bytes (of_nat (length str)) @ str"
| "encode_value (Binary_value bs) = 4 # short_bytes (of_nat (length bs)) @ bs"

definition encode :: "u16 \<times> dp_value \<Rightarrow> bytes" where
  "encode iv = short_bytes (fst iv) @ encode_value (snd iv)"

text \<open>What a data point sends, if that is defined, and which data points are sent together.\<close>

definition sent_value :: "'d fp \<Rightarrow> 'd property_conf \<Rightarrow> dp_value option" where
  "sent_value f p =
     (case dataType p of
        DATA_TYPE_BOOL \<Rightarrow> Some (Bool_value (boolValue p))
      | DATA_TYPE_NUM \<Rightarrow> map_option Number_value (number_to_send f p)
      | DATA_TYPE_ENUM \<Rightarrow> Some (Enum_value (ucast (enumValue p)))
      | DATA_TYPE_STRING \<Rightarrow> Some (String_value (take (length (stringValue p) mod 65536) (stringValue p)))
      | DATA_TYPE_BINARY \<Rightarrow> map_option Binary_value (rd_bytes (binaryValue p) 0 (unat (binaryLen p))))"

definition sendable :: "'d property_conf \<Rightarrow> bool" where
  "sendable p \<longleftrightarrow> permission p \<noteq> DP_PERMISSION_DOWN_ONLY \<and> dpID p \<le> 0x3F00"

definition sent_values :: "'d fp \<Rightarrow> 'd property_conf list \<Rightarrow> (u16 \<times> dp_value) list option" where
  "sent_values f ps = those (map (\<lambda>p. map_option (Pair (dpID p)) (sent_value f p)) (filter sendable ps))"

section \<open>Forming packets\<close>

lemma of_nat_mod_16: "(of_nat (n mod 65536) :: u16) = of_nat n"
  by (simp add: word_unat_eq_iff unat_of_nat)

lemma form_emits:
  assumes "sent_value f p = Some v"
  shows "emits (intoyunFormDataPointBinary f p) (encode (dpID p, v))"
proof -
  have id: "emits (put_id i) (short_bytes i)" for i
    by (simp add: put_id_def short_bytes_def emits_put_bytes)
  have len: "emits (put_len n) (short_bytes n)" for n
    by (simp add: put_len_def short_bytes_def emits_put_bytes)
  have num: "emits (put_number n) (number_bytes n)" for n
    by (simp add: put_number_def number_bytes_def emits_put_bytes)
  have tag: "emits (\<lambda>c. put_bytes [t] c \<bind> g) (t # bs)" if "emits g bs" for t g bs
    using emits_bind [OF emits_put_bytes [of "[t]"] that] by simp
  have "emits (\<lambda>c. case dataType p of
       DATA_TYPE_BOOL \<Rightarrow> put_bytes [0, 1, if boolValue p then 1 else 0] c
     | DATA_TYPE_NUM \<Rightarrow> do { c \<leftarrow> put_bytes [1] c; v \<leftarrow> number_to_send f p; put_number v c }
     | DATA_TYPE_ENUM \<Rightarrow> put_bytes [2, 1, ucast (enumValue p)] c
     | DATA_TYPE_STRING \<Rightarrow> do {
         let n = (of_nat (length (stringValue p)) :: u16);
         c \<leftarrow> put_bytes [3] c; c \<leftarrow> put_len n c; put_bytes (take (unat n) (stringValue p)) c }
     | DATA_TYPE_BINARY \<Rightarrow> do {
         c \<leftarrow> put_bytes [4] c; c \<leftarrow> put_len (binaryLen p) c;
         v \<leftarrow> rd_bytes (binaryValue p) 0 (unat (binaryLen p)); put_bytes v c }) (encode_value v)"
  proof (cases "dataType p = DATA_TYPE_BINARY")
    case True
    with assms obtain z where z: "rd_bytes (binaryValue p) 0 (unat (binaryLen p)) = Some z" "v = Binary_value z"
      by (auto simp: sent_value_def)
    with rd_bytes_length [OF z(1)] True show ?thesis
      by (auto intro!: tag emits_put_bytes emits_bind len)
  next
    case False
    with assms show ?thesis
      by (cases "dataType p")
         (auto simp: sent_value_def Let_def unat_of_nat of_nat_mod_16
           intro!: tag emits_put_bytes num emits_bind len split: option.splits)
  qed
  from emits_bind [OF id [of "dpID p"] this] show ?thesis
    by (simp add: intoyunFormDataPointBinary_def [abs_def] encode_def cong: data_type_t.case_cong)
qed


lemma form_undefined: "sent_value f p = None \<Longrightarrow> intoyunFormDataPointBinary f p c = None"
  by (cases "put_id (dpID p) c"; cases "dataType p")
     (auto simp: sent_value_def intoyunFormDataPointBinary_def Let_def Option.bind_eq_None_conv split: option.splits)

lemma form_all_emits:
  assumes "sent_values f ps = Some ivs" and "type \<noteq> 0"
  shows "emits (form_all_loop f type ps) (concat (map encode ivs))"
  using assms(1)
proof (induction ps arbitrary: ivs)
  case Nil
  then show ?case by (simp add: sent_values_def emits_def)
next
  case (Cons p ps)
  show ?case
  proof (cases "sendable p")
    case True
    with Cons.prems obtain v ivs' where v: "sent_value f p = Some v" "sent_values f ps = Some ivs'" "ivs = (dpID p, v) # ivs'"
      by (auto simp: sent_values_def split: option.splits)
    have "form_all_loop f type (p # ps) = (\<lambda>c. intoyunFormDataPointBinary f p c \<bind> form_all_loop f type ps)"
      using True assms(2) by (intro ext) (auto simp: sendable_def)
    with emits_bind [OF form_emits [OF v(1)] Cons.IH [OF v(2)]] v(3) show ?thesis by simp
  next
    case False
    then have "form_all_loop f type (p # ps) = form_all_loop f type ps"
      using assms(2) by (auto simp: sendable_def not_le)
    with Cons False show ?thesis by (simp add: sent_values_def)
  qed
qed

lemma form_all_undefined:
  assumes "sent_values f ps = None" and "type \<noteq> 0"
  shows "form_all_loop f type ps c = None"
  using assms(1)
proof (induction ps arbitrary: c)
  case (Cons p ps)
  show ?case
  proof (cases "sendable p")
    case True
    with Cons.prems have "sent_value f p = None \<or> sent_values f ps = None"
      by (auto simp: sent_values_def split: option.splits)
    with True assms(2) Cons.IH show ?thesis
      by (cases "intoyunFormDataPointBinary f p c") (auto simp: sendable_def form_undefined)
  next
    case False
    then have "form_all_loop f type (p # ps) c = form_all_loop f type ps c"
      using assms(2) by (auto simp: sendable_def not_le)
    with Cons False show ?thesis by (simp add: sent_values_def)
  qed
qed (simp add: sent_values_def)

text \<open>A single data point, and all of them, in a buffer of \<open>length buffer\<close> bytes.\<close>

definition packet :: "(u16 \<times> dp_value) list \<Rightarrow> bytes" where
  "packet ivs = 0x31 # concat (map encode ivs)"

lemma emits_datapoints:
  assumes "emits w bs"
  shows "put_bytes [0x31] (buffer, 0) \<bind> w = (if 1 + length bs \<le> length buffer
    then Some (overwrite buffer 0 (0x31 # bs), 1 + length bs) else None)"
proof -
  have "emits (\<lambda>c. put_bytes [0x31] c \<bind> w) ([0x31] @ bs)"
    by (rule emits_bind [OF emits_put_bytes assms])
  then show ?thesis by (simp add: emits_def)
qed

lemma Form_all_eq:
  assumes "type \<noteq> 0"
  shows "intoyunFormAllDatapoint f s type buffer =
    (case sent_values f (properties s) of None \<Rightarrow> None
     | Some ivs \<Rightarrow> if length (packet ivs) \<le> length buffer
         then Some (of_nat (length (packet ivs)), overwrite buffer 0 (packet ivs)) else None)"
proof (cases "sent_values f (properties s)")
  case None
  with assms show ?thesis
    by (simp add: intoyunFormAllDatapoint_def form_all_undefined Option.bind_eq_None_conv)
next
  case Some: (Some _)
  show ?thesis
    unfolding intoyunFormAllDatapoint_def Option.bind_assoc [symmetric] emits_datapoints [OF form_all_emits [OF Some assms]]
    by (simp add: Some packet_def Let_def)
qed

lemma Form_single_eq:
  "intoyunFormSingleDatapoint f s k buffer =
    (case sent_value f (properties s ! k) of None \<Rightarrow> None
     | Some v \<Rightarrow> let bs = packet [(dpID (properties s ! k), v)] in
         if length bs \<le> length buffer then Some (of_nat (length bs), overwrite buffer 0 bs) else None)"
proof (cases "sent_value f (properties s ! k)")
  case None
  then show ?thesis
    by (simp add: intoyunFormSingleDatapoint_def form_undefined Option.bind_eq_None_conv)
next
  case Some: (Some _)
  show ?thesis
    unfolding intoyunFormSingleDatapoint_def Option.bind_assoc [symmetric] emits_datapoints [OF form_emits [OF Some]]
    by (simp add: Some packet_def Let_def)
qed


section \<open>Parsing packets\<close>

definition value_ok :: "dp_value \<Rightarrow> bool" where
  "value_ok v \<longleftrightarrow> (case v of String_value str \<Rightarrow> length str < 0x8000 \<and> 0 \<notin> set str
     | Binary_value bs \<Rightarrow> length bs < 0x8000 | _ \<Rightarrow> True)"

text \<open>What the platform's value does to a table.\<close>

fun receive_value ::
    "('d, 'w) dp_env \<Rightarrow> u16 \<times> dp_value \<Rightarrow> 'd dp_state \<Rightarrow> 'w \<Rightarrow> ('d dp_state \<times> 'w) option" where
  "receive_value e (i, Bool_value b) s w = do { s \<leftarrow> writeDatapointBool i b 0 s; Some (s, w) }"
| "receive_value e (i, Number_value v) s w = do {
     k \<leftarrow> getPropertyIndex s i;
     let np = numberProperty (properties s ! k);
     s \<leftarrow> (if resolution np = 0 then do {
            mn \<leftarrow> fp_to_int32 (dp_fp e) (minValue np);
            writeDatapointNumberInt32 (dp_fp e) i (v + mn) 0 s }
          else
            let f = dp_fp e in
            writeDatapointNumberDouble f i
              (fp_add f (fp_div f (fp_of_int f (sint v)) (fp_pow f (fp_of_int f 10) (resolution np))) (minValue np)) 0 s);
     Some (s, w) }"
| "receive_value e (i, Enum_value b) s w = do { s \<leftarrow> writeDatapointEnum i (ucast b) 0 s; Some (s, w) }"
| "receive_value e (i, String_value str) s w =
     (let (ok, w) = malloc_ok e (length str + 1) w in
      writeDatapointString e i (if ok then Some str else None) 0 s w)"
| "receive_value e (i, Binary_value bs) s w = writeDatapointBinary e i bs 0 (of_nat (length bs)) 0 s w"

fun receive_values ::
    "('d, 'w) dp_env \<Rightarrow> (u16 \<times> dp_value) list \<Rightarrow> 'd dp_state \<Rightarrow> 'w \<Rightarrow> ('d dp_state \<times> 'w) option" where
  "receive_values e [] s w = Some (s, w)"
| "receive_values e (iv # ivs) s w = do { (s, w) \<leftarrow> receive_value e iv s w; receive_values e ivs s w }"

lemma rd_append_right: "rd (xs @ ys) (length xs + k) = rd ys k"
  by (simp add: rd_def nth_append)

lemma rd_head: "rd (xs @ y # ys) (length xs) = Some y"
  by (simp add: rd_def)

lemma rd_Cons: "rd (y # ys) 0 = Some y" "rd (y # ys) (Suc k) = rd ys k"
  by (simp_all add: rd_def)

lemma get_id1: "\<not> 0x80 \<le> a \<Longrightarrow> get_id (pre @ a # post) (length pre) = Some (ucast a, length pre + 1)"
  by (simp add: get_id_def rd_def nth_append)

lemma get_id2:
  "0x80 \<le> a \<Longrightarrow> get_id (pre @ a # b # post) (length pre) = Some (push_bit 8 (ucast a AND 0x7F) OR ucast b, length pre + 2)"
  by (simp add: get_id_def rd_def nth_append)

lemma high_bit_ge: "bit (a :: u8) 7 \<Longrightarrow> 0x80 \<le> a"
  using u8_and_128 [of a] and_exp_eq_0_iff_not_bit [of a 7] by (simp add: word_le_nat_alt)

lemma get_id_short:
  assumes "unat i < 0x8000"
  shows "get_id (pre @ short_bytes i @ post) (length pre) = Some (i, length pre + length (short_bytes i))"
proof (cases "i < 0x80")
  case True
  then have "take_bit 8 i = i" by (intro take_bit_self) (simp add: word_less_nat_alt)
  then have "(ucast (ucast (i AND 0xFF) :: u8) :: u16) = i"
    using ucast_byte_ucast [of i] by (simp add: and_ff)
  moreover have "\<not> 0x80 \<le> (ucast (i AND 0xFF) :: u8)"
    using True \<open>take_bit 8 i = i\<close> unfolding and_ff
    by (simp add: word_le_nat_alt word_less_nat_alt unsigned_ucast_eq take_bit_nat_eq_self)
  ultimately show ?thesis
    using True get_id1 [of "ucast (i AND 0xFF)" pre post] by (simp add: short_bytes_def)
next
  case False
  have "0x80 \<le> (ucast (drop_bit 8 i OR 0x80) :: u8)"
    by (rule high_bit_ge) (simp add: bit_simps)
  then have "get_id (pre @ ucast (drop_bit 8 i OR 0x80) # ucast (i AND 0xFF) # post) (length pre) = Some (i, length pre + 2)"
    by (simp only: get_id2 id_join [OF assms])
  with False show ?thesis by (simp add: short_bytes_def)
qed

lemma number_bytes_join2:
  fixes v :: u32
  shows "push_bit 8 (ucast (ucast (drop_bit 8 v AND 0xFF) :: u8)) OR ucast (ucast (v AND 0xFF) :: u8) = take_bit 16 v"
proof -
  have "push_bit 8 (take_bit 8 (drop_bit (0 + 8) v)) OR take_bit 8 (drop_bit 0 v) = take_bit 16 v"
    by (simp only: join_byte) simp
  then show ?thesis by (simp add: ucast_byte_ucast and_ff)
qed

lemma take_bit_masked: "(v :: u32) AND NOT (mask n) = 0 \<Longrightarrow> take_bit n v = v"
  by (intro bit_word_eqI) (auto simp: bit_simps bit_eq_iff)

lemma get_value_number:
  "get_value (pre @ number_bytes v @ post) (length pre) = Some (v, length pre + length (number_bytes v))"
proof -
  have m: "(0xFFFF0000 :: u32) = NOT (mask 16)" "(0xFFFFFF00 :: u32) = NOT (mask 8)"
    by (simp_all add: mask_eq_exp_minus_1)
  have two: "take_bit 16 v = v" if "v AND 0xFFFF0000 = 0" using that take_bit_masked [of v 16] unfolding m by simp
  have one: "take_bit 8 v = v" if "v AND 0xFFFFFF00 = 0" using that take_bit_masked [of v 8] unfolding m by simp
  have g4: "get_value (pre @ 4 # a # b # c # d # post) (length pre) =
      Some (push_bit 8 (push_bit 8 (push_bit 8 (ucast a) OR ucast b) OR ucast c) OR ucast d, length pre + 5)" for a b c d
    by (simp add: get_value_def rd_def nth_append del: push_bit_or)
  have g2: "get_value (pre @ 2 # a # b # post) (length pre) = Some (push_bit 8 (ucast a) OR ucast b, length pre + 3)" for a b
    by (simp add: get_value_def rd_def nth_append)
  have g1: "get_value (pre @ 1 # a # post) (length pre) = Some (ucast a, length pre + 2)" for a
    by (simp add: get_value_def rd_def nth_append)
  show ?thesis
    by (simp add: number_bytes_def g4 g2 g1 number_join4 number_bytes_join2 two one del: push_bit_or) (simp add: one ucast_byte_ucast and_ff)
qed


lemma rd_bytes_mid: "rd_bytes (xs @ ys @ zs) (length xs) (length ys) = Some ys"
  by (simp add: rd_bytes_def)

lemma write_binary_mid:
  "length bs < 65536 \<Longrightarrow>
   writeDatapointBinary e i (pre @ bs @ post) (length pre) (of_nat (length bs)) t s w =
   writeDatapointBinary e i bs 0 (of_nat (length bs)) t s w"
  using rd_bytes_mid [of "[]" bs "[]"]
  by (cases "getPropertyIndex s i") (simp_all add: writeDatapointBinary_def unat_of_nat rd_bytes_mid Let_def)

lemma parse_datapoint_encode:
  assumes i: "unat i < 0x8000" and v: "value_ok v"
  shows "parse_datapoint e (pre @ encode (i, v) @ post) (length pre) s w = do {
    (s, w) \<leftarrow> receive_value e (i, v) s w;
    Some (length pre + length (encode (i, v)), s, w) }"
proof -
  define p where "p = pre @ short_bytes i"
  have len: "length pre + length (short_bytes i) = length p" by (simp add: p_def)
  have mem: "pre @ encode (i, v) @ post = p @ encode_value v @ post"
    by (simp add: encode_def p_def)
  have id: "get_id (p @ encode_value v @ post) (length pre) = Some (i, length p)"
    using get_id_short [OF i, of pre "encode_value v @ post"] by (simp add: p_def)
  have total: "length pre + length (encode (i, v)) = length p + length (encode_value v)"
    by (simp add: encode_def p_def)
  show ?thesis
  proof (cases v)
    case (Bool_value b)
    have "rd (p @ [0, 1, x] @ post) (length p + 1) = Some 1" "rd (p @ [0, 1, x] @ post) (length p + 2) = Some x" for x
      by (simp_all add: rd_def nth_append)
    then show ?thesis unfolding mem total using id
      by (auto simp: rd_head parse_datapoint_def Bool_value Option.bind_assoc split_beta)
  next
    case (Number_value n)
    have "get_value (p @ encode_value v @ post) (length p + 1) = Some (n, length p + length (encode_value v))"
      using get_value_number [of "p @ [1]" n post] by (simp add: Number_value)
    then show ?thesis unfolding mem total using id
      by (simp add: rd_head parse_datapoint_def Number_value Option.bind_assoc split_beta Let_def cong: if_cong)
  next
    case (Enum_value b)
    have "get_value (p @ encode_value v @ post) (length p + 1) = Some (ucast b, length p + length (encode_value v))"
      by (simp add: Enum_value get_value_def rd_def nth_append)
    then show ?thesis unfolding mem total using id
      by (simp add: rd_head parse_datapoint_def Enum_value Option.bind_assoc split_beta)
  next
    case (String_value str)
    let ?n = "of_nat (length str) :: u16"
    have n: "unat ?n = length str" "unat ?n < 0x8000" using v by (auto simp: value_ok_def String_value unat_of_nat)
    have 1: "get_id (p @ encode_value v @ post) (length p + 1) = Some (?n, length p + 1 + length (short_bytes ?n))"
      using get_id_short [OF n(2), of "p @ [3]" "str @ post"] by (simp add: String_value)
    have 2: "rd_bytes (p @ encode_value v @ post) (length p + 1 + length (short_bytes ?n)) (length str) = Some str"
      using rd_bytes_mid [of "p @ [3] @ short_bytes ?n" str post] by (simp add: String_value)
    have 3: "takeWhile (\<lambda>b. b \<noteq> 0) str = str" using v by (subst takeWhile_eq_all_conv) (auto simp: value_ok_def String_value)
    show ?thesis unfolding mem total using id 1 2 n(1)
      by (auto simp: 3 add.assoc rd_head parse_datapoint_def String_value Option.bind_assoc split_beta Let_def cong: if_cong)
  next
    case (Binary_value bs)
    let ?n = "of_nat (length bs) :: u16"
    have n: "unat ?n = length bs" "unat ?n < 0x8000" "length bs < 65536"
      using v by (auto simp: value_ok_def Binary_value unat_of_nat)
    have 1: "get_id (p @ encode_value v @ post) (length p + 1) = Some (?n, length p + 1 + length (short_bytes ?n))"
      using get_id_short [OF n(2), of "p @ [4]" "bs @ post"] by (simp add: Binary_value)
    have 2: "writeDatapointBinary e i (p @ encode_value v @ post) (length p + 1 + length (short_bytes ?n)) ?n t s w =
        writeDatapointBinary e i bs 0 ?n t s w" for t s w
      using write_binary_mid [OF n(3), of e i "p @ [4] @ short_bytes ?n" post] by (simp add: Binary_value)
    show ?thesis unfolding mem total using id 1 2 n(1)
      by (auto simp: add.assoc rd_head parse_datapoint_def Binary_value Option.bind_assoc split_beta Let_def)
  qed
qed

lemma parse_loop_encode:
  assumes "list_all (\<lambda>(i, v). unat i < 0x8000 \<and> value_ok v) ivs"
  shows "parse_loop e (pre @ concat (map encode ivs) @ post) (length pre + length (concat (map encode ivs))) (length pre) s w =
    receive_values e ivs s w"
  using assms
proof (induction ivs arbitrary: pre s w)
  case Nil
  then show ?case by (subst parse_loop.simps) simp
next
  case (Cons iv ivs)
  obtain i v where iv: "iv = (i, v)" by (cases iv)
  let ?rest = "concat (map encode ivs)"
  have ne: "encode iv \<noteq> []" by (simp add: encode_def short_bytes_def)
  have step: "parse_datapoint e (pre @ encode iv @ ?rest @ post) (length pre) s w = do {
      (s, w) \<leftarrow> receive_value e iv s w;
      Some (length pre + length (encode iv), s, w) }"
    using Cons.prems by (simp add: iv parse_datapoint_encode)
  have IH: "parse_loop e (pre @ encode iv @ ?rest @ post) (length pre + (length (encode iv) + length ?rest)) (length pre + length (encode iv)) s w =
      receive_values e ivs s w" for s w
    using Cons.IH [of "pre @ encode iv" s w] Cons.prems by (simp add: add.assoc)
  show ?case using ne step IH
    by (subst parse_loop.simps) (auto split: option.splits bind_split)
qed

lemma sent_values_Cons:
  "sent_values f (p # ps) =
    (if sendable p then (case sent_value f p of None \<Rightarrow> None
       | Some v \<Rightarrow> map_option ((#) (dpID p, v)) (sent_values f ps)) else sent_values f ps)"
  by (auto simp: sent_values_def split: option.splits)

definition strings_ok :: "'d property_conf list \<Rightarrow> bool" where
  "strings_ok ps \<longleftrightarrow> (\<forall>p\<in>set ps. dataType p = DATA_TYPE_STRING \<longrightarrow> 0 \<notin> set (stringValue p))"

lemma sent_values_ok:
  assumes "sent_values f ps = Some ivs" and "strings_ok ps" and "length (packet ivs) < 0x8000"
  shows "list_all (\<lambda>(i, v). unat i < 0x8000 \<and> value_ok v) ivs"
  using assms
proof (induction ps arbitrary: ivs)
  case Nil
  then show ?case by (simp add: sent_values_def)
next
  case (Cons p ps)
  show ?case
  proof (cases "sendable p")
    case True
    with Cons.prems(1) obtain v ivs' where v: "sent_value f p = Some v" "sent_values f ps = Some ivs'" "ivs = (dpID p, v) # ivs'"
      by (auto simp: sent_values_Cons split: option.splits)
    have "dpID p \<le> 0x3F00" using True by (simp add: sendable_def)
    then have id: "unat (dpID p) < 0x8000" by (simp add: word_le_nat_alt)
    have "length (encode (dpID p, v)) < 0x8000" "length (packet ivs') < 0x8000"
      using Cons.prems(3) by (simp_all add: v(3) packet_def)
    moreover have "dataType p = DATA_TYPE_STRING \<longrightarrow> 0 \<notin> set (stringValue p)" "strings_ok ps"
      using Cons.prems(2) by (simp_all add: strings_ok_def)
    ultimately show ?thesis
      using v id Cons.IH [OF v(2)]
      by (cases v) (auto simp: value_ok_def encode_def sent_value_def dest: in_set_takeD split: data_type_t.splits)
  next
    case False
    with Cons show ?thesis by (simp add: sent_values_Cons strings_ok_def)
  qed
qed

text \<open>What one device forms, another one parses to the same values, whatever follows them in the buffer.\<close>

lemma parse_formed:
  assumes "intoyunFormAllDatapoint f sender type (replicate 512 0) = Some (n, buf)" and "type \<noteq> 0"
    and "strings_ok (properties sender)"
  obtains ivs where "sent_values f (properties sender) = Some ivs"
    and "take (unat n) buf = packet ivs"
    and "IOT_DataPoint_ParseReceiveDatapoints e (Some buf) (ucast n) s w = do {
      (s, w) \<leftarrow> receive_values e ivs s w; run_commands e s w }"
proof -
  from assms(1) obtain ivs where ivs: "sent_values f (properties sender) = Some ivs" "length (packet ivs) \<le> 512"
    "n = of_nat (length (packet ivs))" "buf = overwrite (replicate 512 0) 0 (packet ivs)"
    by (auto simp: Form_all_eq [OF assms(2)] split: option.splits if_splits)
  have n: "unat n = length (packet ivs)" "unat (ucast n :: u32) = length (packet ivs)"
    using ivs(2,3) by (simp_all add: unat_of_nat unsigned_ucast_eq take_bit_nat_eq_self)
  obtain post where buf: "buf = packet ivs @ post" by (simp add: ivs(4) overwrite_zero)
  have ok: "list_all (\<lambda>(i, v). unat i < 0x8000 \<and> value_ok v) ivs"
    by (rule sent_values_ok [OF ivs(1) assms(3)]) (use ivs(2) in simp)
  have nz: "(ucast n :: u32) \<noteq> 0" using n(2) by (auto simp: packet_def)
  have "parse_loop e buf (unat (ucast n :: u32)) 1 s w = receive_values e ivs s w"
    using parse_loop_encode [OF ok, of e "[0x31]" post s w] by (simp add: n(2) buf packet_def)
  then have "IOT_DataPoint_ParseReceiveDatapoints e (Some buf) (ucast n) s w = do {
      (s, w) \<leftarrow> receive_values e ivs s w; run_commands e s w }"
    using nz by (simp add: IOT_DataPoint_ParseReceiveDatapoints_def buf packet_def rd_def)
  moreover have "take (unat n) buf = packet ivs" by (simp add: buf n(1))
  ultimately show ?thesis using ivs(1) that by blast
qed

section \<open>Data points come back unchanged\<close>

text \<open>
  The data points whose value survives: numbers are sent without their minimum but it is added on
  arrival, so only a minimum of 0 is neutral; the value of an enumeration is sent in one byte.
\<close>

definition echo_ok :: "'d fp \<Rightarrow> 'd property_conf \<Rightarrow> bool" where
  "echo_ok f p \<longleftrightarrow>
     (case dataType p of
        DATA_TYPE_BOOL \<Rightarrow> True
      | DATA_TYPE_NUM \<Rightarrow> resolution (numberProperty p) = 0 \<and> fp_to_int32 f (minValue (numberProperty p)) = Some 0 \<and>
          \<not> fp_lt f (fp_of_int f (sint (numberIntValue p))) (minValue (numberProperty p)) \<and>
          \<not> fp_lt f (maxValue (numberProperty p)) (fp_of_int f (sint (numberIntValue p)))
      | DATA_TYPE_ENUM \<Rightarrow> unat (enumValue p) < 256
      | DATA_TYPE_STRING \<Rightarrow> 0 \<notin> set (stringValue p) \<and> length (stringValue p) < 65536
      | DATA_TYPE_BINARY \<Rightarrow> length (binaryValue p) = unat (binaryLen p))"

lemma property_index_from_distinct:
  "distinct (map dpID ps) \<Longrightarrow> k < length ps \<Longrightarrow> property_index_from (dpID (ps ! k)) j ps = Some (j + k)"
proof (induction ps arbitrary: j k)
  case (Cons p ps)
  show ?case
  proof (cases k)
    case (Suc k')
    with Cons.prems have "dpID (ps ! k') \<in> dpID ` set ps" by simp
    with Cons Suc show ?thesis by auto
  qed simp
qed simp

lemma getPropertyIndex_nth:
  "distinct (map dpID (properties s)) \<Longrightarrow> k < length (properties s) \<Longrightarrow> getPropertyIndex s (dpID (properties s ! k)) = Some k"
  using property_index_from_distinct [of "properties s" k 0] by (simp add: getPropertyIndex_def)

lemma ucast_up_down: "unat (v :: u32) < 256 \<Longrightarrow> (ucast (ucast v :: u8) :: u32) = v"
  using ucast_byte_ucast [of v] take_bit_self [of v 8] by simp

lemma mark_write_same:
  "(mark_write t False p)\<lparr>boolValue := boolValue p\<rparr> = mark_write t False p"
  "(mark_write t False p)\<lparr>enumValue := enumValue p\<rparr> = mark_write t False p"
  by (simp_all add: mark_write_def)

lemma receive_own:
  assumes "distinct (map dpID (properties s))" and "k < length (properties s)"
    and "sent_value f (properties s ! k) = Some v" and "echo_ok f (properties s ! k)" and "f = dp_fp e"
    and "\<And>n w. fst (malloc_ok e n w)"
  shows "\<exists>w'. receive_value e (dpID (properties s ! k), v) s w =
    Some (s\<lparr>properties := (properties s)[k := mark_write 0 False (properties s ! k)]\<rparr>, w')"
proof -
  let ?p = "properties s ! k"
  note idx = getPropertyIndex_nth [OF assms(1,2)]
  show ?thesis
  proof (cases "dataType ?p")
    case DATA_TYPE_BOOL
    with assms(3) idx show ?thesis
      by (auto simp: sent_value_def writeDatapointBool_def write_property_def mark_write_same)
  next
    case DATA_TYPE_NUM
    with assms(3,4,5) idx show ?thesis
      by (auto simp: sent_value_def number_to_send_def echo_ok_def writeDatapointNumberInt32_def write_property_def)
  next
    case DATA_TYPE_ENUM
    with assms(3,4) idx show ?thesis
      by (auto simp: sent_value_def writeDatapointEnum_def write_property_def echo_ok_def ucast_up_down mark_write_same)
  next
    case DATA_TYPE_STRING
    with assms(3,4,6) idx show ?thesis
      by (auto simp: sent_value_def echo_ok_def writeDatapointString_def Let_def split_beta)
  next
    case DATA_TYPE_BINARY
    with assms(3,4) idx show ?thesis
      by (auto simp: sent_value_def echo_ok_def writeDatapointBinary_def rd_bytes_def)
  qed
qed


lemma receive_all_own:
  assumes "distinct (map dpID (xs @ ps))" and "sent_values f ps = Some ivs" and "f = dp_fp e"
    and "\<forall>p\<in>set ps. sendable p \<longrightarrow> echo_ok f p" and "\<And>n w. fst (malloc_ok e n w)"
    and "properties s = xs @ ps"
  shows "\<exists>w'. receive_values e ivs s w =
    Some (s\<lparr>properties := xs @ map (\<lambda>p. if sendable p then mark_write 0 False p else p) ps\<rparr>, w')"
  using assms(1,2,4,6)
proof (induction ps arbitrary: xs s w ivs)
  case Nil
  then show ?case by (simp add: sent_values_def)
next
  case (Cons p ps)
  show ?case
  proof (cases "sendable p")
    case True
    with Cons.prems(2) obtain v ivs' where v: "sent_value f p = Some v" "sent_values f ps = Some ivs'" "ivs = (dpID p, v) # ivs'"
      by (auto simp: sent_values_Cons split: option.splits)
    let ?s = "s\<lparr>properties := xs @ mark_write 0 False p # ps\<rparr>"
    have nth: "properties s ! length xs = p" "length xs < length (properties s)"
      "(properties s)[length xs := mark_write 0 False p] = xs @ mark_write 0 False p # ps"
      using Cons.prems(4) by (simp_all add: list_update_append)
    have "distinct (map dpID (properties s))" using Cons.prems(1,4) by simp
    from receive_own [OF this nth(2), of f v e w] obtain w1 where
      1: "receive_value e (dpID p, v) s w = Some (?s, w1)"
      using nth v(1) Cons.prems(3) True assms(3,5) by auto
    have "dpID (mark_write 0 False p) = dpID p" by (simp add: mark_write_def)
    then obtain w2 where "receive_values e ivs' ?s w1 =
        Some (?s\<lparr>properties := (xs @ [mark_write 0 False p]) @ map (\<lambda>p. if sendable p then mark_write 0 False p else p) ps\<rparr>, w2)"
      using Cons.IH [of "xs @ [mark_write 0 False p]" ivs' ?s w1] v(2) Cons.prems(1,3) by auto
    with 1 v(3) True show ?thesis by auto
  next
    case False
    with Cons.IH [of "xs @ [p]" ivs s w] Cons.prems show ?thesis by (auto simp: sent_values_Cons)
  qed
qed

lemma receive_packet_own:
  assumes "distinct (map dpID (properties s))" and "dp_fp e = f" and "type \<noteq> 0"
    and "\<forall>p\<in>set (properties s). sendable p \<longrightarrow> echo_ok f p" and "\<And>n w. fst (malloc_ok e n w)"
    and "strings_ok (properties s)"
    and "intoyunFormAllDatapoint f s type (replicate 512 0) = Some (n, buf)"
  obtains w' where "IOT_DataPoint_ParseReceiveDatapoints e (Some buf) (ucast n) s w =
    run_commands e (s\<lparr>properties := map (\<lambda>p. if sendable p then mark_write 0 False p else p) (properties s)\<rparr>) w'"
proof -
  obtain ivs where ivs: "sent_values f (properties s) = Some ivs"
    and parse: "IOT_DataPoint_ParseReceiveDatapoints e (Some buf) (ucast n) s w = do {
      (s, w) \<leftarrow> receive_values e ivs s w; run_commands e s w }"
    by (rule parse_formed [OF assms(7,3,6)])
  from receive_all_own [where xs = "[]" and ps = "properties s" and s = s and w = w, OF _ ivs assms(2) [symmetric] assms(4,5)] assms(1)
  obtain w' where "receive_values e ivs s w =
      Some (s\<lparr>properties := map (\<lambda>p. if sendable p then mark_write 0 False p else p) (properties s)\<rparr>, w')" by auto
  with parse that show ?thesis by simp
qed

section \<open>The invariant of the table\<close>

definition prop_ok :: "'d property_conf \<Rightarrow> bool" where
  "prop_ok p \<longleftrightarrow> (dataType p = DATA_TYPE_STRING \<longrightarrow> 0 \<notin> set (stringValue p)) \<and>
     (dataType p = DATA_TYPE_BINARY \<longrightarrow> length (binaryValue p) = unat (binaryLen p))"

definition dp_inv :: "'d dp_state \<Rightarrow> bool" where
  "dp_inv s \<longleftrightarrow> length (properties s) \<le> 50 \<and> distinct (map dpID (properties s)) \<and> (\<forall>p\<in>set (properties s). prop_ok p)"

text \<open>One call of the interface. A string an application hands over has no zero byte in it.\<close>

inductive dp_step :: "('d, 'w) dp_env \<Rightarrow> 'd dp_state \<times> 'w \<Rightarrow> 'd dp_state \<times> 'w \<Rightarrow> bool" for e where
  "IOT_DataPoint_DefineBool e i perm b s w = Some (s', w') \<Longrightarrow> dp_step e (s, w) (s', w')"
| "IOT_DataPoint_DefineNumber e i perm mn mx res d s w = Some (s', w') \<Longrightarrow> dp_step e (s, w) (s', w')"
| "IOT_DataPoint_DefineEnum e i perm v s w = Some (s', w') \<Longrightarrow> dp_step e (s, w) (s', w')"
| "IOT_DataPoint_DefineString e i perm m str s w = Some (s', w') \<Longrightarrow> 0 \<notin> set str \<Longrightarrow> dp_step e (s, w) (s', w')"
| "IOT_DataPoint_DefineBinary e i perm m bs n s w = Some (s', w') \<Longrightarrow> dp_step e (s, w) (s', w')"
| "IOT_DataPoint_ReadBool i s = (r, b, s') \<Longrightarrow> dp_step e (s, w) (s', w)"
| "IOT_DataPoint_ReadNumberInt32 i s = (r, v, s') \<Longrightarrow> dp_step e (s, w) (s', w)"
| "IOT_DataPoint_ReadNumberDouble i s = (r, d, s') \<Longrightarrow> dp_step e (s, w) (s', w)"
| "IOT_DataPoint_ReadEnum i s = (r, v, s') \<Longrightarrow> dp_step e (s, w) (s', w)"
| "IOT_DataPoint_ReadString i s = (r, str, s') \<Longrightarrow> dp_step e (s, w) (s', w)"
| "IOT_DataPoint_ReadBinary i s = (r, bs, s') \<Longrightarrow> dp_step e (s, w) (s', w)"
| "IOT_DataPoint_WriteBool i b s = Some s' \<Longrightarrow> dp_step e (s, w) (s', w)"
| "IOT_DataPoint_WriteNumberInt32 (dp_fp e) i v s = Some s' \<Longrightarrow> dp_step e (s, w) (s', w)"
| "IOT_DataPoint_WriteNumberDouble (dp_fp e) i d s = Some s' \<Longrightarrow> dp_step e (s, w) (s', w)"
| "IOT_DataPoint_WriteEnum i v s = Some s' \<Longrightarrow> dp_step e (s, w) (s', w)"
| "IOT_DataPoint_WriteString e i (Some str) s w = Some (s', w') \<Longrightarrow> 0 \<notin> set str \<Longrightarrow> dp_step e (s, w) (s', w')"
| "IOT_DataPoint_WriteBinary e i bs n s w = Some (s', w') \<Longrightarrow> dp_step e (s, w) (s', w')"
| "IOT_DataPoint_SendBool e i b s w = Some (rc, s', w') \<Longrightarrow> dp_step e (s, w) (s', w')"
| "IOT_DataPoint_SendNumberInt32 e i v s w = Some (rc, s', w') \<Longrightarrow> dp_step e (s, w) (s', w')"
| "IOT_DataPoint_SendNumberDouble e i d s w = Some (rc, s', w') \<Longrightarrow> dp_step e (s, w) (s', w')"
| "IOT_DataPoint_SendEnum e i v s w = Some (rc, s', w') \<Longrightarrow> dp_step e (s, w) (s', w')"
| "IOT_DataPoint_SendString e i (Some str) s w = Some (rc, s', w') \<Longrightarrow> 0 \<notin> set str \<Longrightarrow> dp_step e (s, w) (s', w')"
| "IOT_DataPoint_SendBinary e i bs n s w = Some (rc, s', w') \<Longrightarrow> dp_step e (s, w) (s', w')"
| "dp_step e (s, w) (IOT_DataPoint_Control mode lapse s, w)"
| "IOT_DataPoint_ParseReceiveDatapoints e payload n s w = Some (s', w') \<Longrightarrow> dp_step e (s, w) (s', w')"
| "IOT_DataPoint_SendAllDatapointManual e s w = Some (rc, s', w') \<Longrightarrow> dp_step e (s, w) (s', w')"
| "IOT_DataPoint_SendDatapointAutomatic e s w = Some (rc, s', w') \<Longrightarrow> dp_step e (s, w) (s', w')"

inductive dp_reachable :: "('d, 'w) dp_env \<Rightarrow> 'd dp_state \<times> 'w \<Rightarrow> bool" for e where
  start: "dp_reachable e (\<lparr>properties = [], datapoint_transmit_mode = DP_TRANSMIT_MODE_AUTOMATIC,
    datapoint_transmit_lapse = 600, transmit_runtime = 0\<rparr>, w)"
| step: "dp_reachable e c \<Longrightarrow> dp_step e c c' \<Longrightarrow> dp_reachable e c'"

lemma property_index_from_None: "(property_index_from i k ps = None) = (i \<notin> dpID ` set ps)"
  by (induction ps arbitrary: k) auto

lemma property_index_from_Some:
  "property_index_from i j ps = Some k \<Longrightarrow> j \<le> k \<and> k - j < length ps \<and> dpID (ps ! (k - j)) = i"
proof (induction ps arbitrary: j)
  case (Cons p ps)
  show ?case
  proof (cases "dpID p = i")
    case False
    with Cons.prems Cons.IH [of "Suc j"] show ?thesis
      by (cases "k - j") (auto simp: Suc_diff_Suc [symmetric])
  qed (use Cons.prems in auto)
qed simp

lemma getPropertyIndex_Some:
  "getPropertyIndex s i = Some k \<Longrightarrow> k < length (properties s) \<and> dpID (properties s ! k) = i"
  using property_index_from_Some [of i 0 "properties s" k] by (simp add: getPropertyIndex_def)

lemma inv_update:
  assumes "dp_inv s" and "k < length (properties s)" and "dpID p = dpID (properties s ! k)" and "prop_ok p"
  shows "dp_inv (s\<lparr>properties := (properties s)[k := p]\<rparr>)"
proof -
  have "map dpID ((properties s)[k := p]) = map dpID (properties s)"
    using assms(2,3) by (metis list_update_id map_update nth_map length_map)
  with assms show ?thesis by (auto simp: dp_inv_def dest: set_update_subset_insert [THEN subsetD])
qed

lemma inv_nth: "dp_inv s \<Longrightarrow> k < length (properties s) \<Longrightarrow> prop_ok (properties s ! k)"
  by (simp add: dp_inv_def)

lemma dp_inv_read:
  assumes "dp_inv s" and "read_property field i s = (r, v, s')"
  shows "dp_inv s'"
proof (cases "getPropertyIndex s i")
  case None
  with assms show ?thesis by (simp add: read_property_def)
next
  case (Some k)
  have "prop_ok (properties s ! k)" using assms(1) getPropertyIndex_Some [OF Some] by (simp add: inv_nth)
  then have "dp_inv (s\<lparr>properties := (properties s)[k := (properties s ! k)\<lparr>readFlag := RESULT_DATAPOINT_OLD\<rparr>]\<rparr>)"
    using assms(1) getPropertyIndex_Some [OF Some] by (intro inv_update) (auto simp: prop_ok_def)
  with assms Some show ?thesis by (auto simp: read_property_def Let_def)
qed

lemma inv_write:
  assumes "dp_inv s" and "write_property i P f s = Some s'"
    and "\<And>p p'. f p = Some p' \<Longrightarrow> P p \<Longrightarrow> prop_ok p \<Longrightarrow> dpID p' = dpID p \<and> prop_ok p'"
  shows "dp_inv s'"
proof (cases "getPropertyIndex s i")
  case None
  with assms show ?thesis by (simp add: write_property_def)
next
  case (Some k)
  then have k: "k < length (properties s)" using getPropertyIndex_Some by blast
  with assms Some show ?thesis
    by (auto simp: write_property_def Option.bind_eq_Some_conv inv_nth intro!: inv_update split: if_splits)
qed

lemma mark_write_simps [simp]:
  "dpID (mark_write t d p) = dpID p" "dataType (mark_write t d p) = dataType p"
  "stringValue (mark_write t d p) = stringValue p" "binaryValue (mark_write t d p) = binaryValue p"
  "binaryLen (mark_write t d p) = binaryLen p" "permission (mark_write t d p) = permission p"
  by (simp_all add: mark_write_def)

lemma inv_writeBool: "dp_inv s \<Longrightarrow> writeDatapointBool i b t s = Some s' \<Longrightarrow> dp_inv s'"
  unfolding writeDatapointBool_def by (erule inv_write, assumption) (auto simp: prop_ok_def)

lemma inv_writeInt32: "dp_inv s \<Longrightarrow> writeDatapointNumberInt32 f i v t s = Some s' \<Longrightarrow> dp_inv s'"
  unfolding writeDatapointNumberInt32_def
  by (erule inv_write, assumption) (auto simp: prop_ok_def Option.bind_eq_Some_conv Let_def split: if_splits)

lemma inv_writeDouble: "dp_inv s \<Longrightarrow> writeDatapointNumberDouble f i d t s = Some s' \<Longrightarrow> dp_inv s'"
  unfolding writeDatapointNumberDouble_def
  by (erule inv_write, assumption) (auto simp: prop_ok_def Option.bind_eq_Some_conv Let_def split: if_splits)

lemma inv_writeEnum: "dp_inv s \<Longrightarrow> writeDatapointEnum i v t s = Some s' \<Longrightarrow> dp_inv s'"
  unfolding writeDatapointEnum_def by (erule inv_write, assumption) (auto simp: prop_ok_def)

lemma inv_writeString:
  "dp_inv s \<Longrightarrow> writeDatapointString e i str t s w = Some (s', w') \<Longrightarrow> (\<And>v. str = Some v \<Longrightarrow> 0 \<notin> set v) \<Longrightarrow> dp_inv s'"
  by (auto simp: writeDatapointString_def Option.bind_eq_Some_conv Let_def split_beta prop_ok_def
      dest!: getPropertyIndex_Some dest: inv_nth intro!: inv_update split: if_splits option.splits)

lemma inv_writeBinary:
  "dp_inv s \<Longrightarrow> writeDatapointBinary e i mem off n t s w = Some (s', w') \<Longrightarrow> dp_inv s'"
  by (auto simp: writeDatapointBinary_def Option.bind_eq_Some_conv Let_def split_beta prop_ok_def
      dest!: getPropertyIndex_Some dest: inv_nth rd_bytes_length intro!: inv_update split: if_splits option.splits)


lemma inv_define:
  assumes "dp_inv s" and "define_property e i ty perm fill s w = Some (s', w')"
    and "\<And>p w p' w'. fill p w = Some (p', w') \<Longrightarrow> dataType p = ty \<Longrightarrow> dpID p' = dpID p \<and> dataType p' = ty \<and>
      (ty = DATA_TYPE_STRING \<longrightarrow> 0 \<notin> set (stringValue p')) \<and>
      (ty = DATA_TYPE_BINARY \<longrightarrow> length (binaryValue p') = unat (binaryLen p'))"
  shows "dp_inv s'"
proof (cases "getPropertyIndex s i")
  case (Some k)
  with assms show ?thesis by (simp add: define_property_def)
next
  case None
  with assms(2) obtain conf w1 p w2 where len: "length (properties s) < 50"
    and fill: "fill (conf\<lparr>dpID := i, dataType := ty, permission := perm, prop_runtime := 0, readFlag := RESULT_DATAPOINT_OLD\<rparr>) w1 = Some (p, w2)"
    and s': "s' = s\<lparr>properties := properties s @ [p]\<rparr>"
    by (auto simp: define_property_def setDatapointValueInit_def Option.bind_eq_Some_conv split_beta Let_def split: if_splits)
  have new: "i \<notin> dpID ` set (properties s)" using None by (simp add: getPropertyIndex_def property_index_from_None)
  from assms(3) [OF fill] have "dpID p = i" "prop_ok p" by (auto simp: prop_ok_def)
  with assms(1) len new show ?thesis by (auto simp: dp_inv_def s')
qed

lemma inv_defines:
  assumes "dp_inv s"
  shows "IOT_DataPoint_DefineBool e i perm b s w = Some (s', w') \<Longrightarrow> dp_inv s'"
    and "IOT_DataPoint_DefineNumber e i perm mn mx res d s w = Some (s', w') \<Longrightarrow> dp_inv s'"
    and "IOT_DataPoint_DefineEnum e i perm v s w = Some (s', w') \<Longrightarrow> dp_inv s'"
    and "IOT_DataPoint_DefineString e i perm m str s w = Some (s', w') \<Longrightarrow> 0 \<notin> set str \<Longrightarrow> dp_inv s'"
    and "IOT_DataPoint_DefineBinary e i perm m bs n s w = Some (s', w') \<Longrightarrow> dp_inv s'"
  unfolding IOT_DataPoint_DefineBool_def IOT_DataPoint_DefineNumber_def IOT_DataPoint_DefineEnum_def
    IOT_DataPoint_DefineString_def IOT_DataPoint_DefineBinary_def
  by (erule inv_define [OF assms], auto simp: Let_def split_beta Option.bind_eq_Some_conv dest: rd_bytes_length split: if_splits)+

lemma inv_clear: "dp_inv s \<Longrightarrow> dp_inv (clearPropertyChangeFlag s)"
proof -
  let ?f = "\<lambda>p :: 'a property_conf. if change p then p\<lparr>change := False\<rparr> else p"
  have "dpID (?f p) = dpID p" "prop_ok (p\<lparr>change := False\<rparr>) = prop_ok p" for p by (auto simp: prop_ok_def)
  moreover from this(1) have "map dpID (map ?f ps) = map dpID ps" for ps by simp
  ultimately show "dp_inv s \<Longrightarrow> dp_inv (clearPropertyChangeFlag s)"
    by (auto simp: dp_inv_def clearPropertyChangeFlag_def simp del: map_map)
qed

lemma inv_SendAll: "dp_inv s \<Longrightarrow> IOT_DataPoint_SendAll e s w = Some (rc, s', w') \<Longrightarrow> dp_inv s'"
  by (auto simp: IOT_DataPoint_SendAll_def Option.bind_eq_Some_conv Let_def split_beta inv_clear split: if_splits)

lemma inv_send_property:
  assumes "dp_inv s" and "send_property e i write s w = Some (rc, s', w')"
    and "\<And>s1 w1. write s w = Some (s1, w1) \<Longrightarrow> dp_inv s1"
  shows "dp_inv s'"
  using assms by (auto simp: send_property_def Option.bind_eq_Some_conv split_beta split: if_splits option.splits)

lemma inv_sends:
  assumes "dp_inv s"
  shows "IOT_DataPoint_SendBool e i b s w = Some (rc, s', w') \<Longrightarrow> dp_inv s'"
    and "IOT_DataPoint_SendNumberInt32 e i v s w = Some (rc, s', w') \<Longrightarrow> dp_inv s'"
    and "IOT_DataPoint_SendNumberDouble e i d s w = Some (rc, s', w') \<Longrightarrow> dp_inv s'"
    and "IOT_DataPoint_SendEnum e i v s w = Some (rc, s', w') \<Longrightarrow> dp_inv s'"
    and "IOT_DataPoint_SendString e i (Some str) s w = Some (rc, s', w') \<Longrightarrow> 0 \<notin> set str \<Longrightarrow> dp_inv s'"
    and "IOT_DataPoint_SendBinary e i bs n s w = Some (rc, s', w') \<Longrightarrow> dp_inv s'"
  unfolding IOT_DataPoint_SendBool_def IOT_DataPoint_SendNumberInt32_def IOT_DataPoint_SendNumberDouble_def
    IOT_DataPoint_SendEnum_def IOT_DataPoint_SendString_def IOT_DataPoint_SendBinary_def
  by (erule inv_send_property [OF assms], auto simp: Option.bind_eq_Some_conv assms
      intro: inv_writeBool [OF assms] inv_writeInt32 [OF assms] inv_writeDouble [OF assms] inv_writeEnum [OF assms]
        inv_writeString [OF assms] inv_writeBinary [OF assms])+

lemma surjective_pairing3: "x = (fst x, fst (snd x), snd (snd x))"
  by simp

lemma inv_run_commands:
  assumes "dp_inv s" and "run_commands e s w = Some (s', w')"
  shows "dp_inv s'"
  using assms
  by (auto simp: run_commands_def IOT_DataPoint_ReadBool_def Option.bind_eq_Some_conv split_beta Let_def
      intro: dp_inv_read [OF _ surjective_pairing3] dest!: inv_SendAll [rotated] split: if_splits)

lemma inv_parse_datapoint:
  assumes "dp_inv s" and "parse_datapoint e payload index s w = Some (index', s', w')"
  shows "dp_inv s'"
  using assms
  by (auto simp: parse_datapoint_def Option.bind_eq_Some_conv split_beta Let_def
      dest: set_takeWhileD intro: assms(1) inv_writeBool [OF assms(1)] inv_writeInt32 [OF assms(1)] inv_writeDouble [OF assms(1)]
        inv_writeEnum [OF assms(1)] inv_writeString [OF assms(1)] inv_writeBinary [OF assms(1)] split: if_splits)

lemma inv_parse_loop:
  "parse_loop e payload n index s w = Some (s', w') \<Longrightarrow> dp_inv s \<Longrightarrow> dp_inv s'"
proof (induction e payload n index s w rule: parse_loop.induct)
  case (1 e payload n index s w)
  from 1(2,3) show ?case
    by (subst (asm) parse_loop.simps) (auto intro: 1(1) inv_parse_datapoint split: if_splits option.splits)
qed

lemma inv_parse:
  "IOT_DataPoint_ParseReceiveDatapoints e payload n s w = Some (s', w') \<Longrightarrow> dp_inv s \<Longrightarrow> dp_inv s'"
  by (auto simp: IOT_DataPoint_ParseReceiveDatapoints_def Option.bind_eq_Some_conv split_beta
      dest: inv_parse_loop inv_run_commands split: if_splits option.splits)

lemma inv_manual: "dp_inv s \<Longrightarrow> IOT_DataPoint_SendAllDatapointManual e s w = Some (rc, s', w') \<Longrightarrow> dp_inv s'"
  by (auto simp: IOT_DataPoint_SendAllDatapointManual_def inv_clear dest: inv_SendAll [rotated] split: if_splits)

lemma inv_set_runtime: "dp_inv (s\<lparr>transmit_runtime := t\<rparr>) = dp_inv s"
  by (simp add: dp_inv_def)

lemma inv_automatic: "dp_inv s \<Longrightarrow> IOT_DataPoint_SendDatapointAutomatic e s w = Some (rc, s', w') \<Longrightarrow> dp_inv s'"
  by (auto simp: IOT_DataPoint_SendDatapointAutomatic_def Let_def split_beta inv_set_runtime
      intro: inv_SendAll [rotated, OF _ inv_clear] split: if_splits)


lemma inv_step: "dp_step e c c' \<Longrightarrow> dp_inv (fst c) \<Longrightarrow> dp_inv (fst c')"
proof (induction rule: dp_step.induct)
  case (24 s w mode lapse)
  then show ?case by (simp add: IOT_DataPoint_Control_def Let_def dp_inv_def)
qed (auto simp: IOT_DataPoint_ReadBool_def IOT_DataPoint_ReadNumberInt32_def IOT_DataPoint_ReadNumberDouble_def
    IOT_DataPoint_ReadEnum_def IOT_DataPoint_ReadString_def IOT_DataPoint_ReadBinary_def
    IOT_DataPoint_WriteBool_def IOT_DataPoint_WriteNumberInt32_def IOT_DataPoint_WriteNumberDouble_def
    IOT_DataPoint_WriteEnum_def IOT_DataPoint_WriteString_def IOT_DataPoint_WriteBinary_def
    intro: inv_defines [rotated] dp_inv_read [rotated] inv_writeBool [rotated] inv_writeInt32 [rotated] inv_writeDouble [rotated]
      inv_writeEnum [rotated] inv_writeString [rotated] inv_writeBinary [rotated] inv_sends [rotated] inv_parse
      inv_manual [rotated] inv_automatic [rotated])

lemma dp_reachable_inv: "dp_reachable e c \<Longrightarrow> dp_inv (fst c)"
  by (induction rule: dp_reachable.induct) (auto simp: dp_inv_def [of "\<lparr>properties = [], datapoint_transmit_mode = m,
    datapoint_transmit_lapse = l, transmit_runtime = t\<rparr>" for m l t] dest: inv_step)

section \<open>What is sent, and when\<close>

lemma length_number_bytes: "length (number_bytes v) \<le> 5"
  by (simp add: number_bytes_def)

lemma sent_packet:
  assumes "length bs \<le> m" and "m < 65536"
  shows "rd_bytes (overwrite (replicate m 0) 0 bs) 0 (unat (of_nat (length bs) :: u16)) = Some bs"
  using assms by (simp add: rd_bytes_def overwrite_zero unat_of_nat)

lemma send_single_eq:
  "intoyunSendSingleDatapoint e s k w =
    (case sent_value (dp_fp e) (properties s ! k) of None \<Rightarrow> None
     | Some v \<Rightarrow> if length (packet [(dpID (properties s ! k), v)]) \<le> 256
         then Some (intoyunTransmitData e (packet [(dpID (properties s ! k), v)]) w) else None)"
  by (simp add: intoyunSendSingleDatapoint_def Form_single_eq Let_def sent_packet split: option.split)

lemma send_all_eq:
  assumes "properties s \<noteq> []" and "length (properties s) < 256"
  shows "IOT_DataPoint_SendAll e s w =
    (case sent_values (dp_fp e) (properties s) of None \<Rightarrow> None
     | Some ivs \<Rightarrow> if length (packet ivs) \<le> 512
         then Some (fst (intoyunTransmitData e (packet ivs) w), clearPropertyChangeFlag s,
                    snd (intoyunTransmitData e (packet ivs) w)) else None)"
proof -
  have "getPropertyCount s \<noteq> 0"
    using assms by (simp add: getPropertyCount_def word_unat_eq_iff unat_of_nat)
  then show ?thesis
    by (simp add: IOT_DataPoint_SendAll_def Form_all_eq Let_def sent_packet split_beta split: option.split)
qed

lemma interval_exact:
  assumes "unat (now - runtime) < 2 ^ 31" and "unat lapse * 1000 < 2 ^ 32"
  shows "interval_over now runtime lapse \<longleftrightarrow> unat lapse * 1000 \<le> unat (now - runtime)"
proof -
  have "take_bit 31 (now - runtime) = now - runtime" using assms(1) by (rule take_bit_self)
  then have "\<not> bit (now - runtime) 31" by (metis bit_take_bit_iff less_irrefl)
  then have "0 \<le> sint (now - runtime)" using bit_last_iff [of "now - runtime"] by simp
  moreover have "unat (lapse * 1000) = unat lapse * 1000"
    using assms(2) by (simp add: unat_word_ariths)
  ultimately show ?thesis by (simp add: interval_over_def word_le_nat_alt)
qed

text \<open>A number is stored as it is, even outside its range.\<close>

lemma define_number_unclamped:
  assumes "getPropertyIndex s i = None" and "length (properties s) < 50" and "malloc_conf e w = (Some c, w')"
    and "fp_to_int32 (dp_fp e) d = Some v"
  shows "\<exists>p. IOT_DataPoint_DefineNumber e i perm mn mx 0 d s w = Some (s\<lparr>properties := properties s @ [p]\<rparr>, w') \<and>
    numberIntValue p = v"
  using assms
  by (simp add: IOT_DataPoint_DefineNumber_def define_property_def setDatapointValueInit_def Let_def)
     (rule exI, rule conjI, rule refl, simp)

section \<open>Properties\<close>

definition demo_fp :: "int fp" where
  "demo_fp = \<lparr>fp_lt = (<), fp_eq = (=), fp_add = (+), fp_sub = (-), fp_mul = (*), fp_div = (div), fp_of_int = (\<lambda>i. i),
     fp_to_int32 = (\<lambda>d. if - 2147483648 \<le> d \<and> d \<le> 2147483647 then Some (of_int d) else None)\<rparr>"

definition demo_conf :: "int property_conf" where
  "demo_conf = \<lparr>dpID = 0, dataType = DATA_TYPE_BOOL, permission = DP_PERMISSION_UP_DOWN, prop_runtime = 0, change = False,
     readFlag = RESULT_DATAPOINT_OLD, numberProperty = \<lparr>minValue = 0, maxValue = 100, resolution = 0\<rparr>, boolValue = False,
     numberIntValue = 0, numberDoubleValue = 0, enumValue = 0, stringValue = [], binaryValue = [], binaryLen = 0\<rparr>"

text \<open>The environment notes the packets it is given; its clock shows their number.\<close>

definition demo_dp_env :: "(int, bytes list) dp_env" where
  "demo_dp_env = \<lparr>dp_fp = demo_fp, malloc_conf = (\<lambda>w. (Some demo_conf, w)), malloc_ok = (\<lambda>n w. (True, w)),
     comm_send_data = (\<lambda>d w. (1, w @ [d])), dp_uptime = (\<lambda>w. (of_nat (length w) * 1000000, w)), system_reboot = (\<lambda>w. w)\<rparr>"

definition demo_table :: "int dp_state" where
  "demo_table = \<lparr>properties =
     [demo_conf\<lparr>dpID := 1, boolValue := True\<rparr>,
      demo_conf\<lparr>dpID := 0x102, dataType := DATA_TYPE_NUM, numberIntValue := 42\<rparr>,
      demo_conf\<lparr>dpID := 3, dataType := DATA_TYPE_STRING, stringValue := [111, 110]\<rparr>,
      demo_conf\<lparr>dpID := 4, dataType := DATA_TYPE_ENUM, permission := DP_PERMISSION_DOWN_ONLY, enumValue := 300\<rparr>],
     datapoint_transmit_mode = DP_TRANSMIT_MODE_AUTOMATIC, datapoint_transmit_lapse = 600, transmit_runtime = 0\<rparr>"

lemma demo_sent: "sent_values demo_fp (properties demo_table) =
  Some [(1, Bool_value True), (0x102, Number_value 42), (3, String_value [111, 110])]"
  by (simp add: demo_table_def demo_conf_def sent_values_def sendable_def sent_value_def number_to_send_def)

lemma demo_packet: "packet [(1, Bool_value True), (0x102, Number_value 42), (3, String_value [111, 110])] =
  [0x31, 1, 0, 1, 1, 0x81, 2, 1, 1, 42, 3, 3, 2, 111, 110]"
  by code_simp

lemma demo_form: "intoyunFormAllDatapoint demo_fp demo_table 1 (replicate 512 0) =
  Some (15, overwrite (replicate 512 0) 0 [0x31, 1, 0, 1, 1, 0x81, 2, 1, 1, 42, 3, 3, 2, 111, 110])"
proof -
  have "length (replicate 512 (0 :: u8)) = 512" by (rule length_replicate)
  then show ?thesis
    unfolding Form_all_eq [OF one_neq_zero] demo_sent option.case demo_packet by simp
qed

text \<open>
  Property C4: The packet a device forms of all its data points, parsed by a device with the same table, changes
  no value, provided that every data point that may be sent is one of those for which the format is
  symmetric (\<open>echo_ok\<close>): a number has resolution 0, its minimum is 0 and its value is in range; an
  enumeration is below 256; a string has no zero byte and fits 16 bits of length; the length of a binary is
  the number of its bytes. Then exactly the data points that may be sent are marked as changed and as newly
  received, whatever follows the packet in memory, if the memory for strings and binaries is there. For
  a number with another minimum the code is not symmetric: the minimum is added to what is received but not
  subtracted from what is sent; and an enumeration is sent as its last byte.
\<close>

theorem datapoint_echo:
  assumes "distinct (map dpID (properties s))" and "strings_ok (properties s)"
    and "\<forall>p\<in>set (properties s). sendable p \<longrightarrow> echo_ok (dp_fp e) p"
    and "\<And>n w. fst (malloc_ok e n w)"
    and "intoyunFormAllDatapoint (dp_fp e) s 1 (replicate 512 0) = Some (n, buf)"
  shows "\<exists>w'. IOT_DataPoint_ParseReceiveDatapoints e (Some buf) (ucast n) s w =
    run_commands e (s\<lparr>properties := map (\<lambda>p. if sendable p then p\<lparr>change := True, readFlag := RESULT_DATAPOINT_NEW\<rparr> else p)
      (properties s)\<rparr>) w'"
proof -
  have mark: "mark_write 0 False p = p\<lparr>change := True, readFlag := RESULT_DATAPOINT_NEW\<rparr>" for p :: "'a property_conf"
    by (simp add: mark_write_def)
  obtain w' where "IOT_DataPoint_ParseReceiveDatapoints e (Some buf) (ucast n) s w =
      run_commands e (s\<lparr>properties := map (\<lambda>p. if sendable p then mark_write 0 False p else p) (properties s)\<rparr>) w'"
    by (rule receive_packet_own [OF assms(1) refl one_neq_zero assms(3,4,2,5)])
  then show ?thesis unfolding mark by blast
qed

theorem datapoint_echo_witness:
  "\<exists>buf w'. intoyunFormAllDatapoint demo_fp demo_table 1 (replicate 512 0) = Some (15, buf) \<and>
    IOT_DataPoint_ParseReceiveDatapoints demo_dp_env (Some buf) 15 demo_table [] =
    run_commands demo_dp_env (demo_table\<lparr>properties := map (\<lambda>p. if sendable p then p\<lparr>change := True, readFlag := RESULT_DATAPOINT_NEW\<rparr> else p)
      (properties demo_table)\<rparr>) w'"
proof -
  have "distinct (map dpID (properties demo_table))" "strings_ok (properties demo_table)"
    "\<forall>p\<in>set (properties demo_table). sendable p \<longrightarrow> echo_ok (dp_fp demo_dp_env) p"
    by (simp_all add: demo_table_def demo_conf_def strings_ok_def sendable_def echo_ok_def demo_dp_env_def demo_fp_def)
  from datapoint_echo [OF this, of 15] demo_form show ?thesis by (fastforce simp: demo_dp_env_def)
qed

text \<open>
  Property C17: In every table an application can reach, by defining, reading, writing, sending and receiving
  data points in any order without leaving the array of 50 records, the identifiers are
  distinct, no string holds a zero byte, and the length of a binary value is the number of its bytes. Nothing in the
  code keeps the number of records within the array: with 50 of them the definition of a new identifier, of
  whatever type, writes behind it.
\<close>

theorem datapoint_inv:
  assumes "dp_reachable e c"
  shows "distinct (map dpID (properties (fst c))) \<and> (\<forall>p\<in>set (properties (fst c)). prop_ok p) \<and>
    length (properties (fst c)) \<le> CONFIG_PROPERTIES_MAX \<and>
    (\<forall>i ty perm fill w. length (properties (fst c)) = CONFIG_PROPERTIES_MAX \<and> getPropertyIndex (fst c) i = None \<longrightarrow>
       define_property e i ty perm fill (fst c) w = None)"
  using dp_reachable_inv [OF assms]
  by (auto simp: dp_inv_def define_property_def setDatapointValueInit_def split: prod.split)

theorem datapoint_inv_witness:
  "\<exists>c. dp_reachable demo_dp_env c \<and> length (properties (fst c)) = 1 \<and> dp_inv (fst c)"
proof -
  let ?s = "\<lparr>properties = [], datapoint_transmit_mode = DP_TRANSMIT_MODE_AUTOMATIC, datapoint_transmit_lapse = 600,
    transmit_runtime = 0\<rparr> :: int dp_state"
  have "IOT_DataPoint_DefineBool demo_dp_env 7 DP_PERMISSION_UP_DOWN True ?s [] =
      Some (?s\<lparr>properties := [demo_conf\<lparr>dpID := 7, boolValue := True\<rparr>]\<rparr>, [])"
    by (simp add: IOT_DataPoint_DefineBool_def define_property_def getPropertyIndex_def setDatapointValueInit_def
        demo_dp_env_def demo_conf_def)
  from dp_step.intros(1) [OF this] have r: "dp_reachable demo_dp_env (?s\<lparr>properties := [demo_conf\<lparr>dpID := 7, boolValue := True\<rparr>]\<rparr>, [])"
    by (rule dp_reachable.step [OF dp_reachable.start])
  with datapoint_inv [OF r] show ?thesis by (force simp: dp_inv_def)
qed

text \<open>
  Sending one data point, or all of them, hands exactly their packet to the
  communication layer if it fits in 256, or 512, bytes; a longer one is written past the buffer.
\<close>

theorem datapoint_transmit:
  assumes "properties s \<noteq> []" and "length (properties s) \<le> 50"
    and "sent_value (dp_fp e) (properties s ! k) = Some v" and "sent_values (dp_fp e) (properties s) = Some ivs"
  shows "(let p = packet [(dpID (properties s ! k), v)] in
      intoyunSendSingleDatapoint e s k w = (if length p \<le> 256 then Some (intoyunTransmitData e p w) else None)) \<and>
    IOT_DataPoint_SendAll e s w =
      (if length (packet ivs) \<le> 512
       then Some (fst (intoyunTransmitData e (packet ivs) w), clearPropertyChangeFlag s,
                  snd (intoyunTransmitData e (packet ivs) w))
       else None)"
  using assms send_all_eq [OF assms(1), of e w] send_single_eq [of e s k w] by (simp add: Let_def)

theorem datapoint_transmit_witness:
  "intoyunSendSingleDatapoint demo_dp_env demo_table 1 [] = Some (0, [[0x31, 0x81, 2, 1, 1, 42]]) \<and>
   IOT_DataPoint_SendAll demo_dp_env demo_table [] =
     Some (0, clearPropertyChangeFlag demo_table, [[0x31, 1, 0, 1, 1, 0x81, 2, 1, 1, 42, 3, 3, 2, 111, 110]])"
proof -
  have s: "sent_value demo_fp (properties demo_table ! 1) = Some (Number_value 42)"
    by (simp add: demo_table_def demo_conf_def sent_value_def number_to_send_def)
  have p: "packet [(dpID (properties demo_table ! 1), Number_value 42)] = [0x31, 0x81, 2, 1, 1, 42]"
    by (simp add: demo_table_def) code_simp
  have t: "intoyunTransmitData demo_dp_env d [] = (0, [d])" for d
    by (simp add: demo_dp_env_def intoyunTransmitData_def)
  have fp: "dp_fp demo_dp_env = demo_fp" by (simp add: demo_dp_env_def)
  have ne: "properties demo_table \<noteq> []" "length (properties demo_table) \<le> 50" by (simp_all add: demo_table_def)
  from datapoint_transmit [OF ne, of demo_dp_env 1 "Number_value 42" _ "[]", unfolded fp, OF s demo_sent]
  show ?thesis by (simp add: Let_def p [simplified] demo_packet t)
qed

text \<open>
  In automatic mode with nothing changed, a call less than the interval after the last
  sending leaves everything as it is, and a later one, up to half the range of the clock, sends all
  data points and restarts the interval, also when the clock has wrapped in between.
\<close>

theorem datapoint_automatic:
  assumes "properties s \<noteq> []" and "length (properties s) \<le> 50"
    and "datapoint_transmit_mode s = DP_TRANSMIT_MODE_AUTOMATIC" and "\<not> isPropertyChanged s"
    and "dp_uptime e w = (transmit_runtime s + of_nat d, w1)" and "d < 2 ^ 31"
    and "unat (datapoint_transmit_lapse s) * 1000 < 2 ^ 32"
  shows "(d < unat (datapoint_transmit_lapse s) * 1000 \<longrightarrow>
      IOT_DataPoint_SendDatapointAutomatic e s w = Some (-1, s, w1)) \<and>
    (unat (datapoint_transmit_lapse s) * 1000 \<le> d \<longrightarrow>
      IOT_DataPoint_SendDatapointAutomatic e s w =
        IOT_DataPoint_SendAll e (clearPropertyChangeFlag (s\<lparr>transmit_runtime := fst (dp_uptime e w1)\<rparr>)) (snd (dp_uptime e w1)))"
proof -
  have "getPropertyCount s \<noteq> 0"
    using assms(1,2) by (simp add: getPropertyCount_def word_unat_eq_iff unat_of_nat)
  moreover have "unat (transmit_runtime s + of_nat d - transmit_runtime s) = d"
    using assms(6) by (simp add: unat_of_nat)
  ultimately show ?thesis
    using assms(3-7) interval_exact [of "transmit_runtime s + of_nat d" "transmit_runtime s" "datapoint_transmit_lapse s"]
    by (auto simp: IOT_DataPoint_SendDatapointAutomatic_def getDatapointTransmitMode_def split_beta)
qed

theorem datapoint_automatic_witness:
  "IOT_DataPoint_SendDatapointAutomatic demo_dp_env demo_table [] = Some (-1, demo_table, [])"
  using datapoint_automatic [of demo_table demo_dp_env "[]" 0 "[]"]
  by (simp add: demo_table_def demo_conf_def demo_dp_env_def isPropertyChanged_def)

end
