(* ===== verification/System_Timer.thy ===== *)
theory System_Timer
  imports Iotkit_Prelude
begin

text \<open>
  The soft timers of sdk/system/iotx_timer_api.c: a list of numbered timers whose ticks the
  application counts by calling \<open>IOT_TIMER_Loop\<close>. The list behind the static head is a list of
  records, \<open>None\<close> while the head is null; an operation on a null head is undefined. A callback is a
  number, 0 for none, and changes only the world outside. The contract of a numbered list is shared
  with the keys.
\<close>

section \<open>Numbered lists\<close>

text \<open>What registering relies on: a new number is appended, a number in use leaves the list alone.\<close>

locale numbered_list =
  fixes num :: "'a \<Rightarrow> u8" and insert_new :: "'a \<Rightarrow> 'a list \<Rightarrow> 'a list"
  assumes insert_present: "num x \<in> num ` set xs \<Longrightarrow> insert_new x xs = xs"
    and insert_absent: "num x \<notin> num ` set xs \<Longrightarrow> insert_new x xs = xs @ [x]"
begin

definition numbered :: "'a list \<Rightarrow> bool" where
  "numbered xs \<longleftrightarrow> distinct (map num xs)"

lemma numbered_insert: "numbered xs \<Longrightarrow> numbered (insert_new x xs)"
  by (cases "num x \<in> num ` set xs") (auto simp: numbered_def insert_present insert_absent)

lemma find_insert:
  "find (\<lambda>y. num y = n) (insert_new x xs) =
    (case find (\<lambda>y. num y = n) xs of Some y \<Rightarrow> Some y | None \<Rightarrow> if num x = n then Some x else None)"
proof -
  have app: "find P (ys @ [x]) = (case find P ys of Some y \<Rightarrow> Some y | None \<Rightarrow> if P x then Some x else None)" for P ys
    by (induction ys) auto
  show ?thesis
  proof (cases "num x \<in> num ` set xs")
    case True
    then show ?thesis by (auto simp: insert_present find_None_iff split: option.splits)
  next
    case False
    then show ?thesis by (simp add: insert_absent app)
  qed
qed

lemma length_insert: "length xs \<le> length (insert_new x xs)"
  by (cases "num x \<in> num ` set xs") (simp_all add: insert_present insert_absent)

lemma numbered_at_most: "numbered xs \<Longrightarrow> length xs \<le> 256"
proof -
  assume "numbered xs"
  then have "card (num ` set xs) = length xs"
    using distinct_card [of "map num xs"] by (simp add: numbered_def)
  moreover have "card (num ` set xs) \<le> card (UNIV :: u8 set)" by (intro card_mono) auto
  ultimately show "length xs \<le> 256" by (simp add: card_word)
qed

end

section \<open>Timers\<close>

record iotx_timer_t =
  timerNum :: u8
  period :: u32
  oneShot :: bool
  start :: bool
  timerTick :: u32
  timerCbFunc :: nat

record timer_state =
  timerListHead :: "iotx_timer_t list option"
  timerListInitFlag :: bool

definition TimerListInit :: "bool \<Rightarrow> timer_state \<Rightarrow> timer_state" where
  "TimerListInit ok s = s\<lparr>timerListHead := (if ok then Some [] else None)\<rparr>"

fun TimerExists :: "iotx_timer_t \<Rightarrow> iotx_timer_t list \<Rightarrow> bool" where
  "TimerExists obj [] = False"
| "TimerExists obj (cur # ts) = (if timerNum cur = timerNum obj then True else TimerExists obj ts)"

definition timer_insert :: "iotx_timer_t \<Rightarrow> iotx_timer_t list \<Rightarrow> iotx_timer_t list" where
  "timer_insert obj ts = (if TimerExists obj ts then ts else ts @ [obj])"

definition TimerListInsert :: "iotx_timer_t \<Rightarrow> timer_state \<Rightarrow> timer_state option" where
  "TimerListInsert obj s = do {
     ts \<leftarrow> timerListHead s;
     Some (s\<lparr>timerListHead := Some (timer_insert obj ts)\<rparr>) }"

text \<open>The loops over all timers with a number.\<close>

definition with_num :: "u8 \<Rightarrow> (iotx_timer_t \<Rightarrow> iotx_timer_t) \<Rightarrow> timer_state \<Rightarrow> timer_state option" where
  "with_num n f s = do {
     ts \<leftarrow> timerListHead s;
     Some (s\<lparr>timerListHead := Some (map (\<lambda>cur. if timerNum cur = n then f cur else cur) ts)\<rparr>) }"

definition TimerListChangPeriod :: "u8 \<Rightarrow> u32 \<Rightarrow> timer_state \<Rightarrow> timer_state option" where
  "TimerListChangPeriod n p s = with_num n (\<lambda>cur. cur\<lparr>period := p\<rparr>) s"

definition TimerListTimerStart :: "u8 \<Rightarrow> timer_state \<Rightarrow> timer_state option" where
  "TimerListTimerStart n s = with_num n (\<lambda>cur. cur\<lparr>start := True\<rparr>) s"

definition TimerListTimerStop :: "u8 \<Rightarrow> timer_state \<Rightarrow> timer_state option" where
  "TimerListTimerStop n s = with_num n (\<lambda>cur. cur\<lparr>start := False\<rparr>) s"

definition TimerListTimerReset :: "u8 \<Rightarrow> timer_state \<Rightarrow> timer_state option" where
  "TimerListTimerReset n s = with_num n (\<lambda>cur. cur\<lparr>timerTick := 0\<rparr>) s"

fun timer_loop :: "(nat \<Rightarrow> 'w \<Rightarrow> 'w) \<Rightarrow> iotx_timer_t list \<Rightarrow> 'w \<Rightarrow> iotx_timer_t list \<times> 'w" where
  "timer_loop call [] w = ([], w)"
| "timer_loop call (cur # ts) w =
     (let (cur, w) =
        (if start cur then
           let cur = cur\<lparr>timerTick := timerTick cur + 1\<rparr> in
           if timerTick cur \<ge> period cur then
             let cur = cur\<lparr>timerTick := 0\<rparr>;
                 w = (if timerCbFunc cur \<noteq> 0 then call (timerCbFunc cur) w else w)
             in (if oneShot cur then cur\<lparr>start := False\<rparr> else cur, w)
           else (cur, w)
         else (cur, w));
       (ts, w) = timer_loop call ts w
      in (cur # ts, w))"

definition TimerListLoop :: "(nat \<Rightarrow> 'w \<Rightarrow> 'w) \<Rightarrow> timer_state \<Rightarrow> 'w \<Rightarrow> (timer_state \<times> 'w) option" where
  "TimerListLoop call s w = do {
     ts \<leftarrow> timerListHead s;
     let (ts, w) = timer_loop call ts w;
     Some (s\<lparr>timerListHead := Some ts\<rparr>, w) }"

text \<open>\<open>ok_head\<close> and \<open>ok\<close> are the results of the two allocations.\<close>

definition IOT_TIMER_Register ::
    "bool \<Rightarrow> bool \<Rightarrow> u8 \<Rightarrow> u32 \<Rightarrow> bool \<Rightarrow> nat \<Rightarrow> timer_state \<Rightarrow> timer_state option" where
  "IOT_TIMER_Register ok_head ok n p one cb s =
     (let s = (if \<not> timerListInitFlag s then TimerListInit ok_head (s\<lparr>timerListInitFlag := True\<rparr>) else s) in
      if \<not> ok then Some s
      else TimerListInsert
        \<lparr>timerNum = n, period = p, oneShot = one, start = False, timerTick = 0, timerCbFunc = cb\<rparr> s)"

definition IOT_TIMER_ChangePeriod :: "u8 \<Rightarrow> u32 \<Rightarrow> timer_state \<Rightarrow> timer_state option" where
  "IOT_TIMER_ChangePeriod n p s = TimerListChangPeriod n p s"

definition IOT_TIMER_Start :: "u8 \<Rightarrow> timer_state \<Rightarrow> timer_state option" where
  "IOT_TIMER_Start n s = TimerListTimerStart n s"

definition IOT_TIMER_Stop :: "u8 \<Rightarrow> timer_state \<Rightarrow> timer_state option" where
  "IOT_TIMER_Stop n s = TimerListTimerStop n s"

definition IOT_TIMER_Reset :: "u8 \<Rightarrow> timer_state \<Rightarrow> timer_state option" where
  "IOT_TIMER_Reset n s = TimerListTimerReset n s"

definition IOT_TIMER_Loop :: "(nat \<Rightarrow> 'w \<Rightarrow> 'w) \<Rightarrow> timer_state \<Rightarrow> 'w \<Rightarrow> (timer_state \<times> 'w) option" where
  "IOT_TIMER_Loop call s w = TimerListLoop call s w"

section \<open>Counting\<close>

lemma TimerExists_iff: "TimerExists obj ts \<longleftrightarrow> timerNum obj \<in> timerNum ` set ts"
  by (induction ts) auto

interpretation timers: numbered_list timerNum timer_insert
  by unfold_locales (auto simp: timer_insert_def TimerExists_iff)

text \<open>What one round does to a timer, and how often it has fired after \<open>n\<close> rounds.\<close>

definition tick :: "iotx_timer_t \<Rightarrow> iotx_timer_t" where
  "tick t = (if start t then
     if period t \<le> timerTick t + 1 then t\<lparr>timerTick := 0, start := \<not> oneShot t\<rparr>
     else t\<lparr>timerTick := timerTick t + 1\<rparr> else t)"

definition fires :: "iotx_timer_t \<Rightarrow> bool" where
  "fires t \<longleftrightarrow> start t \<and> period t \<le> timerTick t + 1"

fun fired :: "nat \<Rightarrow> iotx_timer_t \<Rightarrow> nat" where
  "fired 0 t = 0"
| "fired (Suc n) t = (if fires t then 1 else 0) + fired n (tick t)"

lemma timer_loop_eq:
  "timer_loop call ts w =
    (map tick ts, fold (\<lambda>t w. if fires t \<and> timerCbFunc t \<noteq> 0 then call (timerCbFunc t) w else w) ts w)"
proof (induction ts arbitrary: w)
  case (Cons t ts)
  have "t\<lparr>timerTick := 0\<rparr> = t\<lparr>timerTick := 0, start := True\<rparr>" if "start t" using that by (cases t) simp
  with Cons show ?case by (auto simp: tick_def fires_def Let_def)
qed simp

text \<open>A world that is the log of the callbacks.\<close>

definition log_call :: "nat \<Rightarrow> nat list \<Rightarrow> nat list" where
  "log_call cb w = w @ [cb]"

fun timer_rounds :: "nat \<Rightarrow> timer_state \<times> nat list \<Rightarrow> (timer_state \<times> nat list) option" where
  "timer_rounds 0 c = Some c"
| "timer_rounds (Suc n) c = do { c \<leftarrow> IOT_TIMER_Loop log_call (fst c) (snd c); timer_rounds n c }"

lemma tick_keeps [simp]: "timerCbFunc (tick t) = timerCbFunc t" "period (tick t) = period t" "oneShot (tick t) = oneShot t"
  by (simp_all add: tick_def)

lemma count_round:
  "c \<noteq> 0 \<Longrightarrow> count_list (fold (\<lambda>t w. if fires t \<and> timerCbFunc t \<noteq> 0 then log_call (timerCbFunc t) w else w) ts w) c =
    count_list w c + (\<Sum>t\<leftarrow>ts. if timerCbFunc t = c \<and> fires t then 1 else 0)"
  by (induction ts arbitrary: w) (auto simp: log_call_def)

lemma count_rounds:
  assumes "c \<noteq> 0" and "timerListHead s = Some ts" and "timer_rounds n (s, w) = Some (s', w')"
  shows "count_list w' c = count_list w c + (\<Sum>t\<leftarrow>ts. if timerCbFunc t = c then fired n t else 0)"
  using assms(2,3)
proof (induction n arbitrary: s ts w)
  case 0
  have "(\<Sum>t\<leftarrow>ts. if timerCbFunc t = c then 0 else 0 :: nat) = 0" by (induction ts) auto
  with 0 show ?case by auto
next
  case (Suc n)
  let ?w = "fold (\<lambda>t w. if fires t \<and> timerCbFunc t \<noteq> 0 then log_call (timerCbFunc t) w else w) ts w"
  have "count_list w' c = count_list ?w c + (\<Sum>t\<leftarrow>map tick ts. if timerCbFunc t = c then fired n t else 0)"
    using Suc.prems by (intro Suc.IH [of "s\<lparr>timerListHead := Some (map tick ts)\<rparr>"])
      (simp_all add: IOT_TIMER_Loop_def TimerListLoop_def timer_loop_eq)
  moreover have "(\<Sum>t\<leftarrow>ts. if timerCbFunc t = c \<and> fires t then 1 else 0) + (\<Sum>t\<leftarrow>map tick ts. if timerCbFunc t = c then fired n t else 0) =
      (\<Sum>t\<leftarrow>ts. if timerCbFunc t = c then fired (Suc n) t else 0)"
    by (induction ts) (auto simp del: fired.simps(1))
  ultimately show ?case unfolding count_round [OF assms(1)] by (simp only: add.assoc)
qed

lemma rounds_defined: "timerListHead s = Some ts \<Longrightarrow> \<exists>r. timer_rounds n (s, w) = Some r"
  by (induction n arbitrary: s ts w) (auto simp: IOT_TIMER_Loop_def TimerListLoop_def timer_loop_eq)

lemma fired_stopped: "\<not> start t \<Longrightarrow> fired n t = 0"
  by (induction n) (simp_all add: fires_def tick_def)

lemma fired_started:
  assumes "start t" and "timerTick t < period t"
  shows "fired n t = (let k = (unat (timerTick t) + n) div unat (period t) in if oneShot t then min 1 k else k)"
  using assms
proof (induction n arbitrary: t)
  case 0
  then show ?case by (simp add: word_less_nat_alt)
next
  case (Suc n)
  have p: "unat (timerTick t) < unat (period t)" using Suc.prems(2) by (simp add: word_less_nat_alt)
  have s: "unat (timerTick t + 1) = unat (timerTick t) + 1"
    using p unsigned_less [of "period t", where ?'a = nat] by (simp add: unat_word_ariths)
  show ?case
  proof (cases "fires t")
    case True
    then have eq: "unat (timerTick t) + 1 = unat (period t)"
      using p s by (simp add: fires_def word_le_nat_alt)
    then have sum: "(unat (timerTick t) + Suc n) div unat (period t) = Suc (n div unat (period t))"
      by (metis add.commute add_Suc_right add_Suc_shift div_add_self1 p plus_1_eq_Suc not_less_zero)
    show ?thesis
    proof (cases "oneShot t")
      case True
      with \<open>fires t\<close> sum show ?thesis by (simp add: tick_def fires_def fired_stopped Let_def)
    next
      case False
      have "fired n (tick t) = n div unat (period t)"
        using Suc.IH [of "tick t"] \<open>fires t\<close> False p by (simp add: tick_def fires_def word_less_nat_alt Let_def)
      with \<open>fires t\<close> False sum show ?thesis by (simp add: Let_def)
    qed
  next
    case False
    then have lt: "timerTick t + 1 < period t" using Suc.prems(1) by (simp add: fires_def not_le)
    then have "tick t = t\<lparr>timerTick := timerTick t + 1\<rparr>" using Suc.prems(1) by (simp add: tick_def)
    with Suc.IH [of "tick t"] lt Suc.prems(1) s False show ?thesis by (simp add: Let_def)
  qed
qed

section \<open>Properties\<close>

text \<open>
  Property C32: after \<open>n\<close> calls of \<open>IOT_TIMER_Loop\<close> a started timer of period \<open>p\<close> has called its
  function once for every \<open>p\<close> ticks that are over, a one-shot timer at most once, whatever other
  timers are registered.
\<close>

theorem timer_periodic:
  assumes "timerListHead s = Some (before @ t # after)" and "timerCbFunc t = c" and "c \<noteq> 0"
    and "c \<notin> timerCbFunc ` (set before \<union> set after)" and "start t" and "timerTick t < period t"
  shows "\<exists>s' w. timer_rounds n (s, []) = Some (s', w) \<and>
    count_list w c = (let k = (unat (timerTick t) + n) div unat (period t) in if oneShot t then min 1 k else k)"
proof -
  obtain s' w where r: "timer_rounds n (s, []) = Some (s', w)"
    using rounds_defined [OF assms(1)] by (metis surj_pair)
  have zero: "(\<Sum>t\<leftarrow>ts. if timerCbFunc t = c then fired n t else 0) = 0" if "c \<notin> timerCbFunc ` set ts" for ts
    using that by (induction ts) auto
  have "(\<Sum>t\<leftarrow>before. if timerCbFunc t = c then fired n t else 0) = 0"
    "(\<Sum>t\<leftarrow>after. if timerCbFunc t = c then fired n t else 0) = 0"
    using assms(4) by (intro zero; blast)+
  with count_rounds [OF assms(3,1) r] have "count_list w c = fired n t"
    by (simp only: map_append sum_list_append list.map sum_list.Cons assms(2)) simp
  with r fired_started [OF assms(5,6), of n] show ?thesis by auto
qed

definition demo_timer :: iotx_timer_t where
  "demo_timer = \<lparr>timerNum = 1, period = 3, oneShot = False, start = True, timerTick = 0, timerCbFunc = 5\<rparr>"

theorem timer_periodic_witness:
  "\<exists>s' w. timer_rounds 10 (\<lparr>timerListHead = Some [demo_timer], timerListInitFlag = True\<rparr>, []) = Some (s', w) \<and> count_list w 5 = 3"
  using timer_periodic [of "\<lparr>timerListHead = Some [demo_timer], timerListInitFlag = True\<rparr>" "[]" demo_timer "[]" 5 10]
  by (simp add: demo_timer_def)

end
