(* ===== verification/System_Key.thy ===== *)
theory System_Key
  imports System_Timer
begin

text \<open>
  The keys of sdk/system/iotx_key_api.c: the list of registered keys, their callbacks, and the state
  machine of \<open>IOT_KEY_Loop\<close> that turns one sampled level per call into clicks, double clicks and
  long presses. A callback is a number, 0 for none; calling a null function and using a list whose
  head is null are undefined. Callbacks change only the world outside.
\<close>

section \<open>The list of keys\<close>

datatype keyCbFuncType =
  KEY_CLICK_CB | KEY_DOUBLE_CLICK_CB | KEY_PRESS_SATRT_CB | KEY_PRESS_STOP_CB | KEY_PRESS_DURING_CB

record iotx_key_t =
  keyNum :: u8
  cbKeyInitFunc :: nat
  cbKeyGetValueFunc :: nat
  cbKeyClickFunc :: nat
  cbKeyDoubleClickFunc :: nat
  cbKeyPressStartFunc :: nat
  cbKeyPressStopFunc :: nat
  cbKeyPressDuringFunc :: nat

record iotx_key_param_t =
  key_st :: u8
  debounceTime :: u32
  clickTime :: u32
  pressTime :: u32
  buttonReleased :: u8
  buttonPressed :: u8
  isLongPressed :: bool
  startTime :: u32
  stopTime :: u32

record key_state =
  keyParams :: iotx_key_param_t
  keyNumRecord :: u8
  keyListHead :: "iotx_key_t list option"
  keyListInitFlag :: bool

record 'w key_env =
  call_init :: "nat \<Rightarrow> 'w \<Rightarrow> 'w"
  call_get_value :: "nat \<Rightarrow> 'w \<Rightarrow> u16 \<times> 'w"
  call_click :: "nat \<Rightarrow> 'w \<Rightarrow> 'w"
  call_press :: "nat \<Rightarrow> u32 \<Rightarrow> 'w \<Rightarrow> 'w"
  key_uptime :: "'w \<Rightarrow> u32 \<times> 'w"

definition initial_key_state :: key_state where
  "initial_key_state =
     \<lparr>keyParams = \<lparr>key_st = 0, debounceTime = 20, clickTime = 600, pressTime = 1000, buttonReleased = 1,
        buttonPressed = 0, isLongPressed = False, startTime = 0, stopTime = 0\<rparr>,
      keyNumRecord = 0, keyListHead = None, keyListInitFlag = False\<rparr>"

definition KeyListInit :: "bool \<Rightarrow> key_state \<Rightarrow> key_state" where
  "KeyListInit ok s = s\<lparr>keyListHead := (if ok then Some [] else None)\<rparr>"

fun KeyExists :: "iotx_key_t \<Rightarrow> iotx_key_t list \<Rightarrow> bool" where
  "KeyExists obj [] = False"
| "KeyExists obj (cur # ks) = (if keyNum cur = keyNum obj then True else KeyExists obj ks)"

definition key_insert :: "iotx_key_t \<Rightarrow> iotx_key_t list \<Rightarrow> iotx_key_t list" where
  "key_insert obj ks = (if KeyExists obj ks then ks else ks @ [obj])"

definition KeyListInsert :: "iotx_key_t \<Rightarrow> key_state \<Rightarrow> key_state option" where
  "KeyListInsert obj s = do {
     ks \<leftarrow> keyListHead s;
     Some (s\<lparr>keyListHead := Some (key_insert obj ks)\<rparr>) }"

fun query_double_click :: "u8 \<Rightarrow> iotx_key_t list \<Rightarrow> bool" where
  "query_double_click n [] = False"
| "query_double_click n (cur # ks) =
     (if keyNum cur = n \<and> cbKeyDoubleClickFunc cur \<noteq> 0 then True else query_double_click n ks)"

definition KeyListQueryDoubleClickCb :: "u8 \<Rightarrow> key_state \<Rightarrow> bool option" where
  "KeyListQueryDoubleClickCb n s = map_option (query_double_click n) (keyListHead s)"

fun register_cb :: "keyCbFuncType \<Rightarrow> u8 \<Rightarrow> nat \<Rightarrow> nat \<Rightarrow> iotx_key_t list \<Rightarrow> iotx_key_t list" where
  "register_cb ty n cb click [] = []"
| "register_cb ty n cb click (cur # ks) =
     (if keyNum cur = n then
        (case ty of
           KEY_CLICK_CB \<Rightarrow> cur\<lparr>cbKeyClickFunc := click\<rparr>
         | KEY_DOUBLE_CLICK_CB \<Rightarrow> cur\<lparr>cbKeyDoubleClickFunc := click\<rparr>
         | KEY_PRESS_SATRT_CB \<Rightarrow> cur\<lparr>cbKeyPressStartFunc := cb\<rparr>
         | KEY_PRESS_STOP_CB \<Rightarrow> cur\<lparr>cbKeyPressStopFunc := cb\<rparr>
         | KEY_PRESS_DURING_CB \<Rightarrow> cur\<lparr>cbKeyPressDuringFunc := cb\<rparr>) # ks
      else cur # register_cb ty n cb click ks)"

definition KeyListRegisterCbFunc :: "keyCbFuncType \<Rightarrow> u8 \<Rightarrow> nat \<Rightarrow> nat \<Rightarrow> key_state \<Rightarrow> key_state option" where
  "KeyListRegisterCbFunc ty n cb click s = do {
     ks \<leftarrow> keyListHead s;
     Some (s\<lparr>keyListHead := Some (register_cb ty n cb click ks)\<rparr>) }"

text \<open>The branch of the double click has no \<open>break\<close> and runs into that of the long press.\<close>

definition exe_key :: "'w key_env \<Rightarrow> keyCbFuncType \<Rightarrow> u32 \<Rightarrow> iotx_key_t \<Rightarrow> 'w \<Rightarrow> 'w" where
  "exe_key e ty ms cur w =
     (let click = (\<lambda>cb w. if cb \<noteq> 0 then call_click e cb w else w);
          press = (\<lambda>cb w. if cb \<noteq> 0 then call_press e cb ms w else w)
      in case ty of
           KEY_CLICK_CB \<Rightarrow> click (cbKeyClickFunc cur) w
         | KEY_DOUBLE_CLICK_CB \<Rightarrow> press (cbKeyPressStartFunc cur) (click (cbKeyDoubleClickFunc cur) w)
         | KEY_PRESS_SATRT_CB \<Rightarrow> press (cbKeyPressStartFunc cur) w
         | KEY_PRESS_STOP_CB \<Rightarrow> press (cbKeyPressStopFunc cur) w
         | KEY_PRESS_DURING_CB \<Rightarrow> press (cbKeyPressDuringFunc cur) w)"

fun exe_keys :: "'w key_env \<Rightarrow> keyCbFuncType \<Rightarrow> u8 \<Rightarrow> u32 \<Rightarrow> iotx_key_t list \<Rightarrow> 'w \<Rightarrow> 'w" where
  "exe_keys e ty n ms [] w = w"
| "exe_keys e ty n ms (cur # ks) w =
     exe_keys e ty n ms ks (if keyNum cur = n then exe_key e ty ms cur w else w)"

definition KeyListExeCbFunc :: "'w key_env \<Rightarrow> keyCbFuncType \<Rightarrow> u8 \<Rightarrow> u32 \<Rightarrow> key_state \<Rightarrow> 'w \<Rightarrow> 'w option" where
  "KeyListExeCbFunc e ty n ms s w = do { ks \<leftarrow> keyListHead s; Some (exe_keys e ty n ms ks w) }"

text \<open>The keys are asked until one is pressed; its number is returned.\<close>

fun get_value_loop :: "'w key_env \<Rightarrow> u8 \<Rightarrow> iotx_key_t list \<Rightarrow> 'w \<Rightarrow> (u8 option \<times> 'w) option" where
  "get_value_loop e pressed [] w = Some (None, w)"
| "get_value_loop e pressed (cur # ks) w =
     (if cbKeyGetValueFunc cur = 0 then None
      else let (v, w) = call_get_value e (cbKeyGetValueFunc cur) w in
        if v = ucast pressed then Some (Some (keyNum cur), w) else get_value_loop e pressed ks w)"

definition KeyListGetValue :: "'w key_env \<Rightarrow> key_state \<Rightarrow> 'w \<Rightarrow> (u8 \<times> key_state \<times> 'w) option" where
  "KeyListGetValue e s w = do {
     ks \<leftarrow> keyListHead s;
     (found, w) \<leftarrow> get_value_loop e (buttonPressed (keyParams s)) ks w;
     case found of
       Some n \<Rightarrow> Some (buttonPressed (keyParams s), s\<lparr>keyNumRecord := n\<rparr>, w)
     | None \<Rightarrow> Some (buttonReleased (keyParams s), s, w) }"

section \<open>The interface\<close>

definition IOT_KEY_Init :: "'w key_env \<Rightarrow> key_state \<Rightarrow> 'w \<Rightarrow> 'w option" where
  "IOT_KEY_Init e s w = do {
     ks \<leftarrow> keyListHead s;
     Some (fold (\<lambda>cur w. if cbKeyInitFunc cur \<noteq> 0 then call_init e (cbKeyInitFunc cur) w else w) ks w) }"

definition IOT_KEY_SetParams :: "bool \<Rightarrow> u32 \<Rightarrow> u32 \<Rightarrow> u32 \<Rightarrow> key_state \<Rightarrow> key_state" where
  "IOT_KEY_SetParams invert debounce click press s =
     s\<lparr>keyParams := (keyParams s)
       \<lparr>buttonPressed := (if \<not> invert then 0 else 1), buttonReleased := (if \<not> invert then 1 else 0),
        debounceTime := debounce, clickTime := click, pressTime := press,
        key_st := 0, startTime := 0, stopTime := 0\<rparr>\<rparr>"

definition IOT_KEY_Register :: "bool \<Rightarrow> bool \<Rightarrow> u8 \<Rightarrow> nat \<Rightarrow> nat \<Rightarrow> key_state \<Rightarrow> key_state option" where
  "IOT_KEY_Register ok_head ok n initFunc getValFunc s =
     (let s = (if \<not> keyListInitFlag s then KeyListInit ok_head (s\<lparr>keyListInitFlag := True\<rparr>) else s) in
      if \<not> ok then Some s
      else KeyListInsert
        \<lparr>keyNum = n, cbKeyInitFunc = initFunc, cbKeyGetValueFunc = getValFunc, cbKeyClickFunc = 0,
         cbKeyDoubleClickFunc = 0, cbKeyPressStartFunc = 0, cbKeyPressStopFunc = 0, cbKeyPressDuringFunc = 0\<rparr> s)"

definition IOT_KEY_ClickCb :: "u8 \<Rightarrow> nat \<Rightarrow> key_state \<Rightarrow> key_state option" where
  "IOT_KEY_ClickCb n cb s = KeyListRegisterCbFunc KEY_CLICK_CB n 0 cb s"

definition IOT_KEY_DoubleClickCb :: "u8 \<Rightarrow> nat \<Rightarrow> key_state \<Rightarrow> key_state option" where
  "IOT_KEY_DoubleClickCb n cb s = KeyListRegisterCbFunc KEY_DOUBLE_CLICK_CB n 0 cb s"

definition IOT_KEY_PressStartCb :: "u8 \<Rightarrow> nat \<Rightarrow> key_state \<Rightarrow> key_state option" where
  "IOT_KEY_PressStartCb n cb s = KeyListRegisterCbFunc KEY_PRESS_SATRT_CB n cb 0 s"

definition IOT_KEY_PressStopCb :: "u8 \<Rightarrow> nat \<Rightarrow> key_state \<Rightarrow> key_state option" where
  "IOT_KEY_PressStopCb n cb s = KeyListRegisterCbFunc KEY_PRESS_STOP_CB n cb 0 s"

definition IOT_KEY_PressDuringCb :: "u8 \<Rightarrow> nat \<Rightarrow> key_state \<Rightarrow> key_state option" where
  "IOT_KEY_PressDuringCb n cb s = KeyListRegisterCbFunc KEY_PRESS_DURING_CB n cb 0 s"

definition IOT_KEY_Loop :: "'w key_env \<Rightarrow> key_state \<Rightarrow> 'w \<Rightarrow> (key_state \<times> 'w) option" where
  "IOT_KEY_Loop e s w = do {
     (buttonLevel, s, w) \<leftarrow> KeyListGetValue e s w;
     let (now, w) = key_uptime e w;
     let p = keyParams s;
     let n = keyNumRecord s;
     if key_st p = 0 then
       if buttonLevel = buttonPressed p
       then Some (s\<lparr>keyParams := p\<lparr>key_st := 1, startTime := now\<rparr>\<rparr>, w)
       else Some (s, w)
     else if key_st p = 1 then
       if buttonLevel = buttonReleased p \<and> now - startTime p < debounceTime p
       then Some (s\<lparr>keyParams := p\<lparr>key_st := 0\<rparr>\<rparr>, w)
       else if buttonLevel = buttonReleased p
       then Some (s\<lparr>keyParams := p\<lparr>key_st := 2, stopTime := now\<rparr>\<rparr>, w)
       else if buttonLevel = buttonPressed p \<and> now - startTime p > pressTime p
       then do {
         w \<leftarrow> KeyListExeCbFunc e KEY_PRESS_SATRT_CB n 0 s w;
         w \<leftarrow> KeyListExeCbFunc e KEY_PRESS_DURING_CB n (now - startTime p) s w;
         Some (s\<lparr>keyParams := p\<lparr>isLongPressed := True, key_st := 6\<rparr>\<rparr>, w) }
       else Some (s, w)
     else if key_st p = 2 then do {
       double \<leftarrow> KeyListQueryDoubleClickCb n s;
       if \<not> double \<or> now - startTime p > clickTime p
       then do {
         w \<leftarrow> KeyListExeCbFunc e KEY_CLICK_CB n 0 s w;
         Some (s\<lparr>keyParams := p\<lparr>key_st := 0\<rparr>\<rparr>, w) }
       else if buttonLevel = buttonPressed p \<and> now - stopTime p > debounceTime p
       then Some (s\<lparr>keyParams := p\<lparr>key_st := 3, startTime := now\<rparr>\<rparr>, w)
       else Some (s, w) }
     else if key_st p = 3 then
       if buttonLevel = buttonReleased p \<and> now - startTime p > debounceTime p
       then do {
         w \<leftarrow> KeyListExeCbFunc e KEY_DOUBLE_CLICK_CB n 0 s w;
         Some (s\<lparr>keyParams := p\<lparr>key_st := 0\<rparr>\<rparr>, w) }
       else Some (s, w)
     else if key_st p = 6 then
       if buttonLevel = buttonReleased p
       then do {
         w \<leftarrow> KeyListExeCbFunc e KEY_PRESS_STOP_CB n (now - startTime p) s w;
         Some (s\<lparr>keyParams := p\<lparr>isLongPressed := False, key_st := 0\<rparr>\<rparr>, w) }
       else do {
         w \<leftarrow> KeyListExeCbFunc e KEY_PRESS_DURING_CB n (now - startTime p) s w;
         Some (s\<lparr>keyParams := p\<lparr>isLongPressed := True\<rparr>\<rparr>, w) }
     else Some (s, w) }"

section \<open>The contract of the list\<close>

lemma KeyExists_iff: "KeyExists obj ks \<longleftrightarrow> keyNum obj \<in> keyNum ` set ks"
  by (induction ks) auto

interpretation keys: numbered_list keyNum key_insert
  by unfold_locales (auto simp: key_insert_def KeyExists_iff)

lemma register_cb_nums: "map keyNum (register_cb ty n cb click ks) = map keyNum ks"
  by (induction ks) (auto split: keyCbFuncType.split)

section \<open>Gestures\<close>

text \<open>
  One sample per call: the level every key reads and the time. The world is the log of the callbacks.
\<close>

datatype key_event = Click nat | Press nat u32

definition sample :: "u16 \<Rightarrow> u32 \<Rightarrow> key_event list key_env" where
  "sample level now =
     \<lparr>call_init = (\<lambda>_ w. w), call_get_value = (\<lambda>_ w. (level, w)), call_click = (\<lambda>cb w. w @ [Click cb]),
      call_press = (\<lambda>cb ms w. w @ [Press cb ms]), key_uptime = (\<lambda>w. (now, w))\<rparr>"

fun key_feed :: "(u16 \<times> u32) list \<Rightarrow> key_state \<Rightarrow> key_event list \<Rightarrow> (key_state \<times> key_event list) option" where
  "key_feed [] s w = Some (s, w)"
| "key_feed (i # is) s w = do { (s, w) \<leftarrow> IOT_KEY_Loop (sample (fst i) (snd i)) s w; key_feed is s w }"

lemma key_feed_append: "key_feed (is @ js) s w = do { (s, w) \<leftarrow> key_feed is s w; key_feed js s w }"
  by (induction "is" arbitrary: s w) (auto simp: Option.bind_assoc split_beta case_prod_beta')

text \<open>A single registered key, with its parameters.\<close>

definition one_key :: "iotx_key_t \<Rightarrow> iotx_key_param_t \<Rightarrow> key_state" where
  "one_key k p = \<lparr>keyParams = p, keyNumRecord = keyNum k, keyListHead = Some [k], keyListInitFlag = True\<rparr>"

lemma one_key_update [simp]:
  "keyParams (one_key k p) = p" "keyNumRecord (one_key k p) = keyNum k" "keyListHead (one_key k p) = Some [k]"
  "(one_key k p)\<lparr>keyParams := q\<rparr> = one_key k q" "(one_key k p)\<lparr>keyNumRecord := keyNum k\<rparr> = one_key k p"
  by (simp_all add: one_key_def)

lemma sample_simps [simp]:
  "call_get_value (sample l t) f w = (l, w)" "key_uptime (sample l t) w = (t, w)"
  "call_click (sample l t) cb w = w @ [Click cb]" "call_press (sample l t) cb ms w = w @ [Press cb ms]"
  by (simp_all add: sample_def)

definition pressed :: "iotx_key_param_t \<Rightarrow> u16" where
  "pressed p = ucast (buttonPressed p)"

lemma get_value_pressed:
  "cbKeyGetValueFunc k \<noteq> 0 \<Longrightarrow> l = pressed p \<Longrightarrow>
   KeyListGetValue (sample l t) (one_key k p) w = Some (buttonPressed p, one_key k p, w)"
  by (simp add: KeyListGetValue_def pressed_def)

lemma get_value_released:
  "cbKeyGetValueFunc k \<noteq> 0 \<Longrightarrow> l \<noteq> pressed p \<Longrightarrow>
   KeyListGetValue (sample l t) (one_key k p) w = Some (buttonReleased p, one_key k p, w)"
  by (simp add: KeyListGetValue_def pressed_def)

lemma exe_one: "KeyListExeCbFunc e ty (keyNum k) ms (one_key k p) w = Some (exe_key e ty ms k w)"
  by (simp add: KeyListExeCbFunc_def)

lemma query_one: "KeyListQueryDoubleClickCb (keyNum k) (one_key k p) = Some (cbKeyDoubleClickFunc k \<noteq> 0)"
  by (simp add: KeyListQueryDoubleClickCb_def)

lemmas key_simps = IOT_KEY_Loop_def get_value_pressed get_value_released exe_one query_one Let_def

lemma hold_down:
  assumes "cbKeyGetValueFunc k \<noteq> 0" and "buttonPressed p \<noteq> buttonReleased p" and "key_st p = 1"
    and "\<forall>t\<in>set ts. t - startTime p \<le> pressTime p"
  shows "key_feed (map (Pair (pressed p)) ts) (one_key k p) w = Some (one_key k p, w)"
  using assms(4)
proof (induction ts)
  case (Cons t ts)
  then have "\<not> t - startTime p > pressTime p" by (simp add: not_less)
  with assms(1-3) Cons show ?case by (simp add: key_simps)
qed simp

lemma hold_long:
  assumes "cbKeyGetValueFunc k \<noteq> 0" and "buttonPressed p \<noteq> buttonReleased p" and "key_st p = 6" and "isLongPressed p"
    and "cbKeyPressDuringFunc k = d" and "d \<noteq> 0"
  shows "key_feed (map (Pair (pressed p)) ts) (one_key k p) w =
    Some (one_key k p, w @ map (\<lambda>t. Press d (t - startTime p)) ts)"
proof (induction ts arbitrary: w)
  case (Cons t ts)
  have "p\<lparr>isLongPressed := True\<rparr> = p" using assms(4) by simp
  with assms Cons show ?case by (simp add: key_simps exe_key_def \<open>p\<lparr>isLongPressed := True\<rparr> = p\<close>)
qed simp

lemma hold_second:
  assumes "cbKeyGetValueFunc k \<noteq> 0" and "buttonPressed p \<noteq> buttonReleased p" and "key_st p = 3"
  shows "key_feed (map (Pair (pressed p)) ts) (one_key k p) w = Some (one_key k p, w)"
  by (induction ts) (use assms in \<open>simp_all add: key_simps\<close>)


lemma press_first:
  assumes "cbKeyGetValueFunc k \<noteq> 0" and "key_st p = 0"
  shows "key_feed [(pressed p, t0)] (one_key k p) w = Some (one_key k (p\<lparr>key_st := 1, startTime := t0\<rparr>), w)"
  using assms by (simp add: key_simps)

lemma pressed_update [simp]:
  "pressed (p\<lparr>key_st := x\<rparr>) = pressed p" "pressed (p\<lparr>startTime := t\<rparr>) = pressed p"
  "pressed (p\<lparr>stopTime := t\<rparr>) = pressed p" "pressed (p\<lparr>isLongPressed := b\<rparr>) = pressed p"
  by (simp_all add: pressed_def)

lemma params_order [simp]:
  "p\<lparr>startTime := t, key_st := x\<rparr> = p\<lparr>key_st := x, startTime := t\<rparr>"
  "p\<lparr>stopTime := t, key_st := x\<rparr> = p\<lparr>key_st := x, stopTime := t\<rparr>"
  "p\<lparr>isLongPressed := b, key_st := x\<rparr> = p\<lparr>key_st := x, isLongPressed := b\<rparr>"
  "p\<lparr>startTime := t, isLongPressed := b\<rparr> = p\<lparr>isLongPressed := b, startTime := t\<rparr>"
  "p\<lparr>stopTime := t, startTime := u\<rparr> = p\<lparr>startTime := u, stopTime := t\<rparr>"
  by (cases p; simp)+

lemma press_hold:
  assumes "cbKeyGetValueFunc k \<noteq> 0" and "buttonPressed p \<noteq> buttonReleased p" and "key_st p = 0"
    and "\<forall>t\<in>set ts. t - t0 \<le> pressTime p"
  shows "key_feed ((pressed p, t0) # map (Pair (pressed p)) ts @ is) (one_key k p) w =
    key_feed is (one_key k (p\<lparr>key_st := 1, startTime := t0\<rparr>)) w"
proof -
  have "(pressed p, t0) # map (Pair (pressed p)) ts @ is = [(pressed p, t0)] @ map (Pair (pressed p)) ts @ is" by simp
  then show ?thesis
    using press_first [OF assms(1,3), of t0 w] hold_down [of k "p\<lparr>key_st := 1, startTime := t0\<rparr>" ts w] assms
    by (simp only: key_feed_append) simp
qed

section \<open>Properties\<close>

definition demo_key :: iotx_key_t where
  "demo_key = \<lparr>keyNum = 2, cbKeyInitFunc = 0, cbKeyGetValueFunc = 1, cbKeyClickFunc = 10, cbKeyDoubleClickFunc = 0,
     cbKeyPressStartFunc = 12, cbKeyPressStopFunc = 13, cbKeyPressDuringFunc = 14\<rparr>"

definition demo_key_params :: iotx_key_param_t where
  "demo_key_params = keyParams initial_key_state"

text \<open>
  A key that is pressed, sampled any number of times within the press time and then
  released, at least the debounce time after the first sample, calls its click function once and
  nothing else, at the next sample.
\<close>

theorem key_click:
  assumes "cbKeyGetValueFunc k \<noteq> 0" and "buttonPressed p \<noteq> buttonReleased p" and "key_st p = 0"
    and "cbKeyDoubleClickFunc k = 0" and "cbKeyClickFunc k = c" and "c \<noteq> 0"
    and "\<forall>t\<in>set ts. t - t0 \<le> pressTime p" and "l \<noteq> pressed p" and "debounceTime p \<le> t1 - t0"
  shows "key_feed ((pressed p, t0) # map (Pair (pressed p)) ts @ [(l, t1), (l', t2)]) (one_key k p) w =
    Some (one_key k (p\<lparr>key_st := 0, startTime := t0, stopTime := t1\<rparr>), w @ [Click c])"
proof -
  show ?thesis
    unfolding press_hold [OF assms(1-3,7)]
    using assms by (cases "l' = pressed p") (simp_all add: key_simps exe_key_def not_less)
qed

theorem key_click_witness:
  "key_feed [(0, 100), (0, 110), (0, 190), (1, 200), (1, 210)] (one_key demo_key demo_key_params) [] =
    Some (one_key demo_key (demo_key_params\<lparr>key_st := 0, startTime := 100, stopTime := 200\<rparr>), [Click 10])"
  using key_click [of demo_key demo_key_params 10 "[110, 190]" 100 1 200 1 210 "[]"]
  by (simp add: demo_key_def demo_key_params_def initial_key_state_def pressed_def)

text \<open>
  A key held for longer than the press time calls its start function once, its during
  function at every sample with the time it has been held, and its stop function when it is released.
\<close>

theorem key_long_press:
  assumes "cbKeyGetValueFunc k \<noteq> 0" and "buttonPressed p \<noteq> buttonReleased p" and "key_st p = 0"
    and "cbKeyPressStartFunc k = a" and "cbKeyPressDuringFunc k = d" and "cbKeyPressStopFunc k = z"
    and "a \<noteq> 0" and "d \<noteq> 0" and "z \<noteq> 0"
    and "\<forall>t\<in>set ts. t - t0 \<le> pressTime p" and "pressTime p < t1 - t0" and "l \<noteq> pressed p"
  shows "key_feed ((pressed p, t0) # map (Pair (pressed p)) ts @ (pressed p, t1) # map (Pair (pressed p)) us @ [(l, t2)])
      (one_key k p) w =
    Some (one_key k (p\<lparr>key_st := 0, isLongPressed := False, startTime := t0\<rparr>),
      w @ [Press a 0, Press d (t1 - t0)] @ map (\<lambda>t. Press d (t - t0)) us @ [Press z (t2 - t0)])"
proof -
  let ?q = "p\<lparr>key_st := 6, isLongPressed := True, startTime := t0\<rparr>"
  have 1: "key_feed [(pressed p, t1)] (one_key k (p\<lparr>key_st := 1, startTime := t0\<rparr>)) w =
      Some (one_key k ?q, w @ [Press a 0, Press d (t1 - t0)])"
    using assms by (simp add: key_simps exe_key_def)
  have 2: "key_feed (map (Pair (pressed p)) us) (one_key k ?q) w = Some (one_key k ?q, w @ map (\<lambda>t. Press d (t - t0)) us)" for w
    using hold_long [of k ?q d us w] assms by simp
  have 3: "key_feed [(l, t2)] (one_key k ?q) w = Some (one_key k (p\<lparr>key_st := 0, isLongPressed := False, startTime := t0\<rparr>), w @ [Press z (t2 - t0)])" for w
    using assms by (simp add: key_simps exe_key_def)
  have "(pressed p, t1) # map (Pair (pressed p)) us @ [(l, t2)] = [(pressed p, t1)] @ map (Pair (pressed p)) us @ [(l, t2)]" by simp
  then show ?thesis
    unfolding press_hold [OF assms(1-3,10)] by (simp only: key_feed_append 1 2 3 Option.bind.bind_lunit split) (simp del: key_feed.simps add: 3)
qed

theorem key_long_press_witness:
  "key_feed [(0, 100), (0, 1100), (0, 1101), (0, 1150), (1, 1200)] (one_key demo_key demo_key_params) [] =
    Some (one_key demo_key (demo_key_params\<lparr>key_st := 0, isLongPressed := False, startTime := 100\<rparr>),
      [Press 12 0, Press 14 1001, Press 14 1050, Press 13 1100])"
  using key_long_press [of demo_key demo_key_params 12 14 13 "[1100]" 100 1101 1 "[1150]" 1200 "[]"]
  by (simp add: demo_key_def demo_key_params_def initial_key_state_def pressed_def)

text \<open>
  A double click calls the double click function and then, although the key was not held,
  the function for the start of a long press.
\<close>

theorem key_double_click:
  assumes "cbKeyGetValueFunc k \<noteq> 0" and "buttonPressed p \<noteq> buttonReleased p" and "key_st p = 0"
    and "cbKeyDoubleClickFunc k = d" and "d \<noteq> 0" and "cbKeyPressStartFunc k = a" and "a \<noteq> 0"
    and "\<forall>t\<in>set ts. t - t0 \<le> pressTime p" and "l \<noteq> pressed p" and "debounceTime p \<le> t1 - t0"
    and "t2 - t0 \<le> clickTime p" and "debounceTime p < t2 - t1" and "debounceTime p < t3 - t2"
  shows "key_feed ((pressed p, t0) # map (Pair (pressed p)) ts @ [(l, t1), (pressed p, t2), (l, t3)]) (one_key k p) w =
    Some (one_key k (p\<lparr>key_st := 0, startTime := t2, stopTime := t1\<rparr>), w @ [Click d, Press a 0])"
proof -
  show ?thesis
    unfolding press_hold [OF assms(1-3,8)]
    using assms by (simp add: key_simps exe_key_def not_less)
qed

theorem key_double_click_witness:
  "key_feed [(0, 100), (0, 150), (1, 200), (0, 300), (1, 400)] (one_key (demo_key\<lparr>cbKeyDoubleClickFunc := 11\<rparr>) demo_key_params) [] =
    Some (one_key (demo_key\<lparr>cbKeyDoubleClickFunc := 11\<rparr>) (demo_key_params\<lparr>key_st := 0, startTime := 300, stopTime := 200\<rparr>),
      [Click 11, Press 12 0])"
  using key_double_click [of "demo_key\<lparr>cbKeyDoubleClickFunc := 11\<rparr>" demo_key_params 11 12 "[150]" 100 1 200 300 400 "[]"]
  by (simp add: demo_key_def demo_key_params_def initial_key_state_def pressed_def)

end
