(* ===== verification/Digest_Stream.thy ===== *)
theory Digest_Stream
  imports Iotkit_Prelude
begin

text \<open>
  What sdk/utils/digest/utils_md5.c and utils_sha1.c share: the context with its 64-byte buffer, and
  \<open>utils_md5_update\<close> and \<open>utils_sha1_update\<close>, which are the same code but for the function that
  processes a block. The contract of a streaming hash is a locale: the message a context has taken in
  decides its digest, however it was cut into pieces. HMAC is proved once from the contract.
\<close>

section \<open>The context\<close>

record 's digest_context =
  total0 :: u32
  total1 :: u32
  state :: 's
  buffer :: bytes

type_synonym 's process = "bytes \<Rightarrow> 's \<Rightarrow> 's"

text \<open>Whole blocks from the input.\<close>

function process_blocks :: "'s process \<Rightarrow> 's \<Rightarrow> bytes \<Rightarrow> nat \<Rightarrow> ('s \<times> bytes \<times> nat) option" where
  "process_blocks proc s input ilen =
     (if ilen \<ge> 64 then
        (case rd_bytes input 0 64 of
           None \<Rightarrow> None
         | Some block \<Rightarrow> process_blocks proc (proc block s) (drop 64 input) (ilen - 64))
      else Some (s, input, ilen))"
  by pat_completeness auto
termination by (relation "measure (\<lambda>(proc, s, input, ilen). ilen)") auto

declare process_blocks.simps [simp del]

definition add_total :: "nat \<Rightarrow> 's digest_context \<Rightarrow> 's digest_context" where
  "add_total ilen ctx =
     (let ctx = ctx\<lparr>total0 := total0 ctx + of_nat ilen\<rparr> in
      if total0 ctx < of_nat ilen then ctx\<lparr>total1 := total1 ctx + 1\<rparr> else ctx)"

text \<open>
  The end of an update: the blocks in the input, and the rest to the buffer. The input pointer is
  the memory from there on.
\<close>

definition keep_rest :: "'s digest_context \<Rightarrow> nat \<Rightarrow> bytes \<Rightarrow> nat \<Rightarrow> 's digest_context option" where
  "keep_rest ctx left input ilen =
     (if ilen > 0 then do {
        d \<leftarrow> rd_bytes input 0 ilen;
        buf \<leftarrow> wr_bytes (buffer ctx) left d;
        Some (ctx\<lparr>buffer := buf\<rparr>) }
      else Some ctx)"

definition update_blocks :: "'s process \<Rightarrow> 's digest_context \<Rightarrow> bytes \<Rightarrow> nat \<Rightarrow> nat \<Rightarrow> 's digest_context option" where
  "update_blocks proc ctx input ilen left = do {
     (s, input, ilen) \<leftarrow> process_blocks proc (state ctx) input ilen;
     keep_rest (ctx\<lparr>state := s\<rparr>) left input ilen }"

definition digest_update :: "'s process \<Rightarrow> 's digest_context \<Rightarrow> bytes \<Rightarrow> nat \<Rightarrow> 's digest_context option" where
  "digest_update proc ctx input ilen =
     (if ilen = 0 then Some ctx
      else
        let left = unat (total0 ctx AND 0x3F);
            fill = 64 - left;
            ctx = add_total ilen ctx in
        if left \<noteq> 0 \<and> ilen \<ge> fill then do {
          d \<leftarrow> rd_bytes input 0 fill;
          buf \<leftarrow> wr_bytes (buffer ctx) left d;
          update_blocks proc (ctx\<lparr>buffer := buf, state := proc buf (state ctx)\<rparr>) (drop fill input) (ilen - fill) 0 }
        else update_blocks proc ctx input ilen left)"

definition digest_padding :: bytes where
  "digest_padding = 0x80 # replicate 63 0"

text \<open>The length in bits, as two words.\<close>

definition bits_high :: "'s digest_context \<Rightarrow> u32" where
  "bits_high ctx = drop_bit 29 (total0 ctx) OR push_bit 3 (total1 ctx)"

definition bits_low :: "'s digest_context \<Rightarrow> u32" where
  "bits_low ctx = push_bit 3 (total0 ctx)"

text \<open>The two updates of \<open>utils_md5_finish\<close> and \<open>utils_sha1_finish\<close>.\<close>

definition digest_finish :: "'s process \<Rightarrow> (u32 \<Rightarrow> u32 \<Rightarrow> bytes) \<Rightarrow> 's digest_context \<Rightarrow> 's digest_context option" where
  "digest_finish proc msglen ctx = do {
     let high = bits_high ctx;
     let low = bits_low ctx;
     let last = unat (total0 ctx AND 0x3F);
     let padn = (if last < 56 then 56 - last else 120 - last);
     ctx \<leftarrow> digest_update proc ctx digest_padding padn;
     digest_update proc ctx (msglen high low) 8 }"

section \<open>The message in a context\<close>

text \<open>The state after all whole blocks of a message, and the bytes that are left.\<close>

function absorb :: "'s process \<Rightarrow> 's \<Rightarrow> bytes \<Rightarrow> 's" where
  "absorb proc s m = (if length m \<ge> 64 then absorb proc (proc (take 64 m) s) (drop 64 m) else s)"
  by pat_completeness auto
termination by (relation "measure (\<lambda>(proc, s, m). length m)") auto

declare absorb.simps [simp del]

definition rest :: "bytes \<Rightarrow> bytes" where
  "rest m = drop (length m - length m mod 64) m"

definition holds :: "'s process \<Rightarrow> 's \<Rightarrow> 's digest_context \<Rightarrow> bytes \<Rightarrow> bool" where
  "holds proc iv ctx m \<longleftrightarrow>
     total0 ctx = of_nat (length m) \<and> total1 ctx = of_nat (length m div 2 ^ 32) \<and>
     length (buffer ctx) = 64 \<and> state ctx = absorb proc iv m \<and> take (length m mod 64) (buffer ctx) = rest m"

lemma length_rest [simp]: "length (rest m) = length m mod 64"
  by (simp add: rest_def)

lemma absorb_short: "length m < 64 \<Longrightarrow> absorb proc s m = s"
  by (subst absorb.simps) simp

lemma rest_short: "length m < 64 \<Longrightarrow> rest m = m"
  by (simp add: rest_def)

lemma absorb_append:
  "64 dvd length a \<Longrightarrow> absorb proc s (a @ b) = absorb proc (absorb proc s a) b"
proof (induction proc s a rule: absorb.induct)
  case (1 proc s a)
  show ?case
  proof (cases "length a \<ge> 64")
    case True
    have "64 dvd length (drop 64 a)" using 1(2) True by (simp add: dvd_diff_nat)
    with 1(1) [OF True] True show ?thesis
      by (subst (1 2) absorb.simps) (simp add: absorb.simps [of proc s a])
  next
    case False
    with 1(2) have "a = []" by (cases a) (auto dest: dvd_imp_le)
    then show ?thesis by (simp add: absorb_short)
  qed
qed

lemma rest_append: "64 dvd length a \<Longrightarrow> rest (a @ b) = rest b"
  by (auto simp: rest_def elim!: dvdE)

lemma split_rest: "m = take (length m - length m mod 64) m @ rest m"
  by (simp add: rest_def)

lemma absorb_cut: "absorb proc s m = absorb proc s (take (length m - length m mod 64) m)"
proof -
  have "64 dvd length (take (length m - length m mod 64) m)"
    by (simp add: dvd_minus_mod)
  from absorb_append [OF this, of proc s "rest m"] split_rest [of m] show ?thesis
    by (simp add: absorb_short)
qed

lemma process_blocks_eq:
  "process_blocks proc s (x @ post) (length x) =
    Some (absorb proc s x, rest x @ post, length x mod 64)"
proof (induction "length x" arbitrary: x s rule: less_induct)
  case less
  show ?case
  proof (cases "length x \<ge> 64")
    case True
    have "process_blocks proc (proc (take 64 x) s) (drop 64 x @ post) (length (drop 64 x)) =
        Some (absorb proc (proc (take 64 x) s) (drop 64 x), rest (drop 64 x) @ post, length (drop 64 x) mod 64)"
      using True by (intro less) auto
    moreover have "rest (drop 64 x) = rest x"
      using rest_append [of "take 64 x" "drop 64 x"] True by simp
    moreover have "(length x - 64) mod 64 = length x mod 64" using True by (simp add: le_mod_geq)
    ultimately show ?thesis using True
      by (subst process_blocks.simps) (simp add: rd_bytes_def absorb.simps [of proc s x])
  next
    case False
    then show ?thesis by (subst process_blocks.simps) (simp add: absorb_short rest_short)
  qed
qed

lemma unat_and_63: "unat ((v :: u32) AND 0x3F) = unat v mod 64"
proof -
  have "v AND 0x3F = take_bit 6 v" by (simp add: take_bit_eq_mask mask_eq_exp_minus_1)
  then have "unat (v AND 0x3F) = take_bit 6 (unat v)" by (simp only: unsigned_take_bit_eq)
  then show ?thesis by (simp add: take_bit_eq_mod)
qed

lemma left_eq: "total0 ctx = of_nat n \<Longrightarrow> unat (total0 ctx AND 0x3F) = n mod 64"
  by (simp add: unat_and_63 unat_of_nat mod_mod_cancel)

lemma carry_iff:
  fixes n k M :: nat
  assumes "k < M"
  shows "(n + k) mod M < k \<longleftrightarrow> M \<le> n mod M + k"
    and "(n + k) div M = n div M + (if M \<le> n mod M + k then 1 else 0)"
proof -
  define a where "a = n mod M"
  have a: "a < M" using assms by (simp add: a_def)
  have "(n + k) mod M = (a + k) mod M" by (simp add: a_def mod_add_left_eq)
  also have "\<dots> = (if M \<le> a + k then a + k - M else a + k)"
  proof -
    have "a + k - M < M" using a assms by linarith
    then show ?thesis by (simp add: le_mod_geq)
  qed
  finally have e: "(n + k) mod M = (if M \<le> a + k then a + k - M else a + k)" .
  show "(n + k) mod M < k \<longleftrightarrow> M \<le> n mod M + k"
    unfolding e a_def [symmetric] using a assms by auto
  have "(a + k) div M = (if M \<le> a + k then 1 else 0)"
    using a assms by (simp add: le_div_geq)
  then show "(n + k) div M = n div M + (if M \<le> n mod M + k then 1 else 0)"
    using assms by (simp add: div_add1_eq [of n k] a_def)
qed

lemma add_total_eq:
  assumes "total0 ctx = of_nat n" and "total1 ctx = of_nat (n div 2 ^ 32)" and "k < 2 ^ 32"
  shows "add_total k ctx = ctx\<lparr>total0 := of_nat (n + k), total1 := of_nat ((n + k) div 2 ^ 32)\<rparr>"
proof -
  have "(of_nat (n + k) :: u32) < of_nat k \<longleftrightarrow> (n + k) mod 2 ^ 32 < k"
    using assms(3) by (simp only: word_less_nat_alt unat_of_nat) simp
  also have "\<dots> \<longleftrightarrow> 2 ^ 32 \<le> n mod 2 ^ 32 + k" using assms(3) by (rule carry_iff)
  finally have lt: "(of_nat (n + k) :: u32) < of_nat k \<longleftrightarrow> 2 ^ 32 \<le> n mod 2 ^ 32 + k" .
  have "total0 ctx + of_nat k = of_nat (n + k)" by (simp add: assms(1))
  with lt carry_iff(2) [OF assms(3), of n] show ?thesis
    unfolding add_total_def Let_def by (cases "2 ^ 32 \<le> n mod 2 ^ 32 + k") (simp_all add: assms(2))
qed

lemma take_overwrite: "i + length bs \<le> length m \<Longrightarrow> take (i + length bs) (overwrite m i bs) = take i m @ bs"
  by (simp add: overwrite_def)

lemma whole_append:
  "absorb proc iv (m @ x) = absorb proc (absorb proc iv m) (rest m @ x)"
  "rest (m @ x) = rest (rest m @ x)"
proof -
  let ?w = "take (length m - length m mod 64) m"
  have w: "64 dvd length ?w" by (simp add: dvd_minus_mod)
  have m: "m @ x = ?w @ (rest m @ x)" using split_rest [of m] by simp
  show "absorb proc iv (m @ x) = absorb proc (absorb proc iv m) (rest m @ x)"
    unfolding m absorb_append [OF w] by (simp add: absorb_cut [of proc iv m])
  show "rest (m @ x) = rest (rest m @ x)"
    unfolding m rest_append [OF w] by simp
qed

lemma keep_rest_eq:
  assumes "length (buffer ctx) = 64" and "left + length y \<le> 64"
  shows "\<exists>buf. keep_rest ctx left (y @ post) (length y) = Some (ctx\<lparr>buffer := buf\<rparr>) \<and> length buf = 64 \<and>
    take (left + length y) buf = take left (buffer ctx) @ y"
proof (cases "y = []")
  case True
  have "ctx = ctx\<lparr>buffer := buffer ctx\<rparr>" by simp
  moreover have "take (left + length y) (buffer ctx) = take left (buffer ctx) @ y" using True by simp
  ultimately show ?thesis using True assms by (intro exI [of _ "buffer ctx"]) (simp add: keep_rest_def)
next
  case False
  with assms take_overwrite [of left y "buffer ctx"] show ?thesis
    by (intro exI [of _ "overwrite (buffer ctx) left y"]) (simp add: keep_rest_def rd_bytes_def wr_bytes_def)
qed

lemma update_blocks_eq:
  assumes "length (buffer ctx) = 64" and "left + length (rest y) \<le> 64"
  shows "\<exists>buf. update_blocks proc ctx (y @ post) (length y) left =
      Some (ctx\<lparr>state := absorb proc (state ctx) y, buffer := buf\<rparr>) \<and>
    length buf = 64 \<and> take (left + length (rest y)) buf = take left (buffer ctx) @ rest y"
proof -
  let ?ctx = "ctx\<lparr>state := absorb proc (state ctx) y\<rparr>"
  have "length (buffer ?ctx) = 64" using assms(1) by simp
  from keep_rest_eq [OF this assms(2), of post] show ?thesis
    by (simp add: update_blocks_def process_blocks_eq)
qed

lemma holdsI:
  assumes "total0 ctx = of_nat (length m)" and "total1 ctx = of_nat (length m div 2 ^ 32)"
    and "length (buffer ctx) = 64" and "state ctx = absorb proc iv m" and "take (length (rest m)) (buffer ctx) = rest m"
  shows "holds proc iv ctx m"
  using assms by (simp add: holds_def)

lemma update_holds:
  assumes h: "holds proc iv ctx m" and x: "length x < 2 ^ 32"
  shows "\<exists>ctx'. digest_update proc ctx (x @ post) (length x) = Some ctx' \<and> holds proc iv ctx' (m @ x)"
proof (cases "x = []")
  case True
  with h show ?thesis by (simp add: digest_update_def)
next
  case ne: False
  then have nz: "length x \<noteq> 0" by simp
  define r where "r = length (rest m)"
  define ctx1 where "ctx1 = add_total (length x) ctx"
  have ctx1: "ctx1 = ctx\<lparr>total0 := of_nat (length (m @ x)), total1 := of_nat (length (m @ x) div 2 ^ 32)\<rparr>"
    unfolding ctx1_def length_append using h x by (intro add_total_eq) (simp_all add: holds_def)
  have left: "r = unat (total0 ctx AND 0x3F)"
    using left_eq [of ctx "length m"] h by (simp add: r_def holds_def)
  have r: "r < 64" by (simp add: r_def)
  note whole = whole_append(1) [of proc iv m x] whole_append(2) [of m x]
  note length_rest [simp del] r_def [symmetric, simp]
  have buf: "length (buffer ctx1) = 64" "take r (buffer ctx1) = rest m" and st: "state ctx1 = absorb proc iv m"
    using h length_rest [of m] by (simp_all add: holds_def ctx1)
  have totals: "total0 ctx1 = of_nat (length (m @ x))" "total1 ctx1 = of_nat (length (m @ x) div 2 ^ 32)"
    by (simp_all add: ctx1 del: length_append)
  show ?thesis
  proof (cases "r \<noteq> 0 \<and> 64 - r \<le> length x")
    case True
    let ?b = "rest m @ take (64 - r) x" and ?y = "drop (64 - r) x"
    have b: "length ?b = 64" using True r by simp
    have 1: "rd_bytes (x @ post) 0 (64 - r) = Some (take (64 - r) x)" using True by (auto simp: rd_bytes_def)
    have "take 64 (overwrite (buffer ctx1) r (take (64 - r) x)) = ?b"
      using take_overwrite [of r "take (64 - r) x" "buffer ctx1"] True r buf by simp
    then have 2: "wr_bytes (buffer ctx1) r (take (64 - r) x) = Some ?b"
      using True r buf by (simp add: wr_bytes_def)
    have a: "absorb proc iv (m @ x) = absorb proc (proc ?b (absorb proc iv m)) ?y" "rest (m @ x) = rest ?y"
    proof -
      have split: "rest m @ x = ?b @ ?y" by simp
      show "absorb proc iv (m @ x) = absorb proc (proc ?b (absorb proc iv m)) ?y"
        unfolding whole(1) split using b absorb_append [of ?b proc "absorb proc iv m" ?y]
        by (simp add: absorb.simps [of proc _ ?b] absorb_short)
      show "rest (m @ x) = rest ?y"
        unfolding whole(2) split using b rest_append [of ?b ?y] by simp
    qed
    let ?ctx2 = "ctx1\<lparr>buffer := ?b, state := proc ?b (absorb proc iv m)\<rparr>"
    have "length (buffer ?ctx2) = 64" "0 + length (rest ?y) \<le> 64"
      using b mod_less_divisor [of 64 "length ?y"] by (simp_all add: length_rest)
    from update_blocks_eq [OF this, of proc post] obtain bf where
      bf: "update_blocks proc ?ctx2 (?y @ post) (length ?y) 0 = Some (?ctx2\<lparr>state := absorb proc iv (m @ x), buffer := bf\<rparr>)"
        "length bf = 64" "take (length (rest (m @ x))) bf = rest (m @ x)"
      by (auto simp: a)
    have dr: "drop (64 - r) (x @ post) = ?y @ post"
      by (simp only: drop_append drop_0 diff_is_0_eq' [OF conjunct2 [OF True]])
    have "digest_update proc ctx (x @ post) (length x) = update_blocks proc ?ctx2 (?y @ post) (length ?y) 0"
      using nz True 1 2 by (simp add: digest_update_def left [symmetric] ctx1_def [symmetric] st Let_def dr del: drop_append)
    moreover have "holds proc iv (?ctx2\<lparr>state := absorb proc iv (m @ x), buffer := bf\<rparr>) (m @ x)"
      by (rule holdsI) (use totals bf(2,3) in \<open>simp_all del: length_append length_rest\<close>)
    ultimately show ?thesis using bf(1) by auto
  next
    case False
    then have small: "r = 0 \<or> length x < 64 - r" by auto
    have a: "absorb proc iv (m @ x) = absorb proc (absorb proc iv m) x \<and> rest (m @ x) = take r (buffer ctx1) @ rest x \<and>
        r + length (rest x) \<le> 64"
    proof (cases "r = 0")
      case True
      then have "length (rest m) = 0" by simp
      then have "rest m = []" by (simp only: length_0_conv)
      then show ?thesis using True by (simp add: whole length_rest less_imp_le)
    next
      case r0: False
      with small r have lt: "length (rest m @ x) < 64" "length x < 64" by simp_all
      then show ?thesis unfolding whole buf(2) using r0
        by (simp add: absorb_short rest_short)
    qed
    from update_blocks_eq [OF buf(1), of r x proc post] a obtain bf where
      bf: "update_blocks proc ctx1 (x @ post) (length x) r = Some (ctx1\<lparr>state := absorb proc iv (m @ x), buffer := bf\<rparr>)"
        "length bf = 64" "take (r + length (rest x)) bf = rest (m @ x)"
      by (auto simp: st)
    have "digest_update proc ctx (x @ post) (length x) = update_blocks proc ctx1 (x @ post) (length x) r"
      using nz small by (auto simp: digest_update_def left [symmetric] ctx1_def [symmetric] Let_def)
    moreover have "length (rest (m @ x)) = r + length (rest x)"
      using a buf(1) r by (simp del: length_rest)
    then have "holds proc iv (ctx1\<lparr>state := absorb proc iv (m @ x), buffer := bf\<rparr>) (m @ x)"
      by (intro holdsI) (use totals bf(2,3) in \<open>simp_all del: length_append length_rest\<close>)
    ultimately show ?thesis using bf(1) by auto
  qed
qed


section \<open>Finishing\<close>

text \<open>The padding of a message of \<open>n\<close> bytes, without the length, and its length in bits.\<close>

definition pad_zeros :: "nat \<Rightarrow> bytes" where
  "pad_zeros n = 0x80 # replicate (if n mod 64 < 56 then 55 - n mod 64 else 119 - n mod 64) 0"

lemma length_pad: "length (pad_zeros n) = (if n mod 64 < 56 then 56 - n mod 64 else 120 - n mod 64)"
  by (auto simp: pad_zeros_def)

lemma pad_take:
  "take (length (pad_zeros n)) digest_padding = pad_zeros n"
proof -
  have "n mod 64 < 64" by simp
  then show ?thesis by (auto simp: length_pad pad_zeros_def digest_padding_def take_Cons' min_def)
qed

lemma padded_length: "64 dvd length (m @ pad_zeros (length m) @ l)" if "length l = 8"
proof -
  have "length m mod 64 < 64" by simp
  moreover have "(length m + length (pad_zeros (length m)) + 8) mod 64 = 0"
  proof -
    have "length m mod 64 + length (pad_zeros (length m)) + 8 = (if length m mod 64 < 56 then 64 else 128)"
      using \<open>length m mod 64 < 64\<close> by (auto simp: length_pad)
    then have "(length m mod 64 + length (pad_zeros (length m)) + 8) mod 64 = 0" by simp
    then show ?thesis by (simp only: add.assoc mod_add_left_eq)
  qed
  ultimately show ?thesis using that by (simp add: dvd_eq_mod_eq_0 add.assoc)
qed

lemma bit_div_power: "bit (n div 2 ^ j :: nat) k = bit n (k + j)"
  by (simp only: drop_bit_eq_div [symmetric] bit_drop_bit_eq o_apply add.commute)

text \<open>The length of \<open>n\<close> bytes in bits, modulo \<open>2 ^ 64\<close>, as its upper and its lower word.\<close>

lemma bits_words:
  assumes "total0 ctx = of_nat n" and "total1 ctx = of_nat (n div 2 ^ 32)"
  shows "bits_low ctx = of_nat (8 * n)" and "bits_high ctx = of_nat (8 * n div 2 ^ 32)"
proof -
  show "bits_low ctx = of_nat (8 * n)"
    by (simp add: bits_low_def assms push_bit_eq_mult)
  show "bits_high ctx = of_nat (8 * n div 2 ^ 32)"
  proof (rule bit_word_eqI)
    fix k assume k: "k < LENGTH(32)"
    have "bit (8 * n div 2 ^ 32) k = bit (n div 2 ^ 29) k"
      using div_mult2_eq [of n "2 ^ 29"] by (simp add: div_mult_mult1 [of 8 n "2 ^ 29", symmetric])
    also have "\<dots> = bit n (k + 29)" by (rule bit_div_power)
    finally have "bit (of_nat (8 * n div 2 ^ 32) :: u32) k = bit n (k + 29)"
      using k by (simp add: bit_of_nat_iff_bit bit_of_nat_iff)
    moreover have "bit (bits_high ctx) k = bit n (k + 29)"
      using k bit_div_power [of n 32 "k - 3"] by (auto simp: bits_high_def assms bit_simps add.commute)
    ultimately show "bit (bits_high ctx) k = bit (of_nat (8 * n div 2 ^ 32) :: u32) k" by simp
  qed
qed

lemma finish_holds:
  assumes h: "holds proc iv ctx m" and len: "\<And>h l. length (msglen h l) = 8"
  shows "\<exists>ctx'. digest_finish proc msglen ctx = Some ctx' \<and>
    state ctx' = absorb proc iv (m @ pad_zeros (length m) @ msglen (of_nat (8 * length m div 2 ^ 32)) (of_nat (8 * length m)))"
proof -
  let ?l = "msglen (of_nat (8 * length m div 2 ^ 32)) (of_nat (8 * length m))"
  have tot: "total0 ctx = of_nat (length m)" "total1 ctx = of_nat (length m div 2 ^ 32)"
    using h by (simp_all add: holds_def)
  have padn: "(if length m mod 64 < 56 then 56 - length m mod 64 else 120 - length m mod 64) = length (pad_zeros (length m))"
    by (simp add: length_pad)
  obtain post where p: "digest_padding = pad_zeros (length m) @ post"
    using pad_take [of "length m"] append_take_drop_id [of "length (pad_zeros (length m))" digest_padding] by metis
  have "length (pad_zeros (length m)) \<le> 64" by (auto simp: length_pad)
  then have "length (pad_zeros (length m)) < 2 ^ 32" by simp
  from update_holds [OF h this, of post] obtain ctx1 where
    1: "digest_update proc ctx digest_padding (length (pad_zeros (length m))) = Some ctx1" "holds proc iv ctx1 (m @ pad_zeros (length m))"
    by (auto simp: p)
  have "length ?l < 2 ^ 32" by (simp add: len)
  from update_holds [OF 1(2) this, of "[]"] obtain ctx2 where
    2: "digest_update proc ctx1 ?l 8 = Some ctx2" "holds proc iv ctx2 (m @ pad_zeros (length m) @ ?l)"
    by (auto simp: len)
  have "digest_finish proc msglen ctx = Some ctx2"
    unfolding digest_finish_def Let_def left_eq [OF tot(1)] padn bits_words [OF tot] using 1(1) 2(1) by simp
  with 2(2) show ?thesis by (auto simp: holds_def)
qed


section \<open>The contract of a streaming hash\<close>

text \<open>
  \<open>holding c m\<close> says that the context \<open>c\<close> has taken in the message \<open>m\<close>. An input is the memory
  behind a pointer with the number of bytes to take from it.
\<close>

locale stream_hash =
  fixes starts :: 'c
    and update :: "'c \<Rightarrow> bytes \<Rightarrow> nat \<Rightarrow> 'c option"
    and finish :: "'c \<Rightarrow> bytes option"
    and holding :: "'c \<Rightarrow> bytes \<Rightarrow> bool"
    and digest :: "bytes \<Rightarrow> bytes"
  assumes holding_start: "holding starts []"
    and holding_update: "holding c m \<Longrightarrow> length x < 2 ^ 32 \<Longrightarrow> \<exists>c'. update c (x @ post) (length x) = Some c' \<and> holding c' (m @ x)"
    and finish_digest: "holding c m \<Longrightarrow> finish c = Some (digest m)"
begin

fun feed :: "'c \<Rightarrow> bytes list \<Rightarrow> 'c option" where
  "feed c [] = Some c"
| "feed c (x # xs) = do { c \<leftarrow> update c x (length x); feed c xs }"

lemma feed_holding:
  "holding c m \<Longrightarrow> list_all (\<lambda>x. length x < 2 ^ 32) xs \<Longrightarrow> \<exists>c'. feed c xs = Some c' \<and> holding c' (m @ concat xs)"
proof (induction xs arbitrary: c m)
  case (Cons x xs)
  then obtain c1 where 1: "update c x (length x) = Some c1" "holding c1 (m @ x)"
    using holding_update [of c m x "[]"] by auto
  with Cons obtain c2 where "feed c1 xs = Some c2" "holding c2 ((m @ x) @ concat xs)" by fastforce
  with 1 show ?case by simp
qed simp

lemma feed_digest:
  "list_all (\<lambda>x. length x < 2 ^ 32) xs \<Longrightarrow> feed starts xs \<bind> finish = Some (digest (concat xs))"
  using feed_holding [OF holding_start, of xs] finish_digest by fastforce

lemma one_update:
  assumes "length x < 2 ^ 32"
  shows "do { c \<leftarrow> update starts (x @ post) (length x); finish c } = Some (digest x)"
  using holding_update [OF holding_start assms, of post] finish_digest by fastforce

lemma two_updates:
  assumes "length x < 2 ^ 32" and "length y < 2 ^ 32"
  shows "do { c \<leftarrow> update starts (x @ px) (length x); c \<leftarrow> update c (y @ py) (length y); finish c } = Some (digest (x @ y))"
proof -
  obtain c where c: "update starts (x @ px) (length x) = Some c" "holding c x"
    using holding_update [OF holding_start assms(1), of px] by auto
  then obtain c' where "update c (y @ py) (length y) = Some c'" "holding c' (x @ y)"
    using holding_update [OF c(2) assms(2), of py] by auto
  with c finish_digest show ?thesis by simp
qed

end

section \<open>Words and their bytes\<close>

definition rotl :: "u32 \<Rightarrow> nat \<Rightarrow> u32" where
  "rotl x n = push_bit n x OR drop_bit (32 - n) (x AND 0xFFFFFFFF)"

lemma rotl_word_rotl:
  assumes "n < 32"
  shows "rotl x n = word_rotl n x"
proof (rule bit_word_eqI)
  fix k assume k: "k < LENGTH(32)"
  have "x AND mask 32 = x" by (auto intro!: bit_word_eqI simp: bit_simps)
  then have m: "x AND 0xFFFFFFFF = x" by (simp add: mask_eq_exp_minus_1)
  have rot: "bit (word_rotl n x) k \<longleftrightarrow> bit x ((k + (32 - n)) mod 32)"
    using k assms by (simp add: bit_word_rotl_iff)
  have own: "bit (rotl x n) k \<longleftrightarrow> n \<le> k \<and> bit x (k - n) \<or> bit x (32 - n + k)"
    using k by (auto simp: rotl_def m bit_simps)
  show "bit (rotl x n) k = bit (word_rotl n x) k"
  proof (cases "n \<le> k")
    case True
    have "\<not> bit x (32 - n + k)" using True assms by (intro notI) (auto dest: bit_imp_le_length)
    moreover have "(k + (32 - n)) mod 32 = k - n" using True k assms by (simp add: le_mod_geq)
    ultimately show ?thesis using True unfolding own rot by simp
  next
    case False
    then have "(k + (32 - n)) mod 32 = 32 - n + k" using assms by simp
    with False show ?thesis unfolding own rot by simp
  qed
qed

lemma byte_of_word:
  assumes "j \<le> 24"
  shows "(ucast (drop_bit j (of_nat n :: u32)) :: u8) = of_nat (n div 2 ^ j)"
proof (rule bit_word_eqI)
  fix k assume "k < LENGTH(8)"
  with assms show "bit (ucast (drop_bit j (of_nat n :: u32)) :: u8) k = bit (of_nat (n div 2 ^ j) :: u8) k"
    by (auto simp: bit_simps bit_div_power add.commute)
qed

end
