(* ===== verification/Digest_Md5.thy ===== *)
theory Digest_Md5
  imports Digest_Stream
begin

text \<open>
  sdk/utils/digest/utils_md5.c. The 64 steps of \<open>utils_md5_process\<close> permute the roles of A to D instead
  of moving them; here the state tuple is in the order of the macro's arguments. The result is compared
  with MD5 as RFC 1321 defines it.
\<close>

section \<open>The code\<close>

type_synonym md5_state = "u32 \<times> u32 \<times> u32 \<times> u32"
type_synonym iot_md5_context = "md5_state digest_context"

text \<open>\<open>IOT_MD5_GET_UINT32_LE\<close> and \<open>IOT_MD5_PUT_UINT32_LE\<close>.\<close>

definition get_uint32_le :: "bytes \<Rightarrow> nat \<Rightarrow> u32" where
  "get_uint32_le b i =
     ucast (b ! i) OR push_bit 8 (ucast (b ! (i + 1))) OR push_bit 16 (ucast (b ! (i + 2))) OR push_bit 24 (ucast (b ! (i + 3)))"

definition put_uint32_le :: "u32 \<Rightarrow> bytes" where
  "put_uint32_le n =
     [ucast (n AND 0xFF), ucast (drop_bit 8 n AND 0xFF), ucast (drop_bit 16 n AND 0xFF), ucast (drop_bit 24 n AND 0xFF)]"

definition utils_md5_init :: iot_md5_context where
  "utils_md5_init = \<lparr>total0 = 0, total1 = 0, state = (0, 0, 0, 0), buffer = replicate 64 0\<rparr>"

definition utils_md5_starts :: "iot_md5_context \<Rightarrow> iot_md5_context" where
  "utils_md5_starts ctx = ctx\<lparr>total0 := 0, total1 := 0, state := (0x67452301, 0xEFCDAB89, 0x98BADCFE, 0x10325476)\<rparr>"

text \<open>The four rounds: the macros F and P, and the arguments k, s and t of the steps.\<close>

definition md5_F :: "nat \<Rightarrow> u32 \<Rightarrow> u32 \<Rightarrow> u32 \<Rightarrow> u32" where
  "md5_F r x y z =
     (if r = 0 then z XOR (x AND (y XOR z))
      else if r = 1 then y XOR (z AND (x XOR y))
      else if r = 2 then x XOR y XOR z
      else y XOR (x OR NOT z))"

definition md5_P :: "nat \<Rightarrow> u32 list \<Rightarrow> nat \<times> nat \<times> u32 \<Rightarrow> md5_state \<Rightarrow> md5_state" where
  "md5_P r X kst st =
     (case kst of (k, s, t) \<Rightarrow> case st of (a, b, c, d) \<Rightarrow>
        let a = a + (md5_F r b c d + X ! k + t);
            a = rotl a s + b
        in (d, a, b, c))"

definition md5_steps1 :: "(nat \<times> nat \<times> u32) list" where
  "md5_steps1 =
    [(0, 7, 0xD76AA478), (1, 12, 0xE8C7B756), (2, 17, 0x242070DB), (3, 22, 0xC1BDCEEE),
     (4, 7, 0xF57C0FAF), (5, 12, 0x4787C62A), (6, 17, 0xA8304613), (7, 22, 0xFD469501),
     (8, 7, 0x698098D8), (9, 12, 0x8B44F7AF), (10, 17, 0xFFFF5BB1), (11, 22, 0x895CD7BE),
     (12, 7, 0x6B901122), (13, 12, 0xFD987193), (14, 17, 0xA679438E), (15, 22, 0x49B40821)]"

definition md5_steps2 :: "(nat \<times> nat \<times> u32) list" where
  "md5_steps2 =
    [(1, 5, 0xF61E2562), (6, 9, 0xC040B340), (11, 14, 0x265E5A51), (0, 20, 0xE9B6C7AA),
     (5, 5, 0xD62F105D), (10, 9, 0x02441453), (15, 14, 0xD8A1E681), (4, 20, 0xE7D3FBC8),
     (9, 5, 0x21E1CDE6), (14, 9, 0xC33707D6), (3, 14, 0xF4D50D87), (8, 20, 0x455A14ED),
     (13, 5, 0xA9E3E905), (2, 9, 0xFCEFA3F8), (7, 14, 0x676F02D9), (12, 20, 0x8D2A4C8A)]"

definition md5_steps3 :: "(nat \<times> nat \<times> u32) list" where
  "md5_steps3 =
    [(5, 4, 0xFFFA3942), (8, 11, 0x8771F681), (11, 16, 0x6D9D6122), (14, 23, 0xFDE5380C),
     (1, 4, 0xA4BEEA44), (4, 11, 0x4BDECFA9), (7, 16, 0xF6BB4B60), (10, 23, 0xBEBFBC70),
     (13, 4, 0x289B7EC6), (0, 11, 0xEAA127FA), (3, 16, 0xD4EF3085), (6, 23, 0x04881D05),
     (9, 4, 0xD9D4D039), (12, 11, 0xE6DB99E5), (15, 16, 0x1FA27CF8), (2, 23, 0xC4AC5665)]"

definition md5_steps4 :: "(nat \<times> nat \<times> u32) list" where
  "md5_steps4 =
    [(0, 6, 0xF4292244), (7, 10, 0x432AFF97), (14, 15, 0xAB9423A7), (5, 21, 0xFC93A039),
     (12, 6, 0x655B59C3), (3, 10, 0x8F0CCC92), (10, 15, 0xFFEFF47D), (1, 21, 0x85845DD1),
     (8, 6, 0x6FA87E4F), (15, 10, 0xFE2CE6E0), (6, 15, 0xA3014314), (13, 21, 0x4E0811A1),
     (4, 6, 0xF7537E82), (11, 10, 0xBD3AF235), (2, 15, 0x2AD7D2BB), (9, 21, 0xEB86D391)]"

definition utils_md5_process :: "bytes \<Rightarrow> md5_state \<Rightarrow> md5_state" where
  "utils_md5_process data st =
     (let X = map (\<lambda>i. get_uint32_le data (4 * i)) [0..<16]
      in case st of (s0, s1, s2, s3) \<Rightarrow>
         case fold (md5_P 3 X) md5_steps4 (fold (md5_P 2 X) md5_steps3 (fold (md5_P 1 X) md5_steps2 (fold (md5_P 0 X) md5_steps1 st))) of
           (A, B, C, D) \<Rightarrow> (s0 + A, s1 + B, s2 + C, s3 + D))"

definition utils_md5_update :: "iot_md5_context \<Rightarrow> bytes \<Rightarrow> nat \<Rightarrow> iot_md5_context option" where
  "utils_md5_update = digest_update utils_md5_process"

definition utils_md5_finish :: "iot_md5_context \<Rightarrow> (iot_md5_context \<times> bytes) option" where
  "utils_md5_finish ctx = do {
     ctx \<leftarrow> digest_finish utils_md5_process (\<lambda>high low. put_uint32_le low @ put_uint32_le high) ctx;
     Some (ctx, case state ctx of (s0, s1, s2, s3) \<Rightarrow>
       put_uint32_le s0 @ put_uint32_le s1 @ put_uint32_le s2 @ put_uint32_le s3) }"

definition utils_md5 :: "bytes \<Rightarrow> nat \<Rightarrow> bytes option" where
  "utils_md5 input ilen = do {
     let ctx = utils_md5_init;
     let ctx = utils_md5_starts ctx;
     ctx \<leftarrow> utils_md5_update ctx input ilen;
     (ctx, output) \<leftarrow> utils_md5_finish ctx;
     Some output }"


section \<open>MD5\<close>

text \<open>
  RFC 1321, sections 3.1 to 3.5. The table of \<open>\<lfloor>2 ^ 32 * \<bar>sin i\<bar>\<rfloor>\<close>, for i from 1 to 64, is written out as
  numbers of its own; the order of the words and the shifts are by formula.
\<close>

definition md5_f :: "nat \<Rightarrow> u32 \<Rightarrow> u32 \<Rightarrow> u32 \<Rightarrow> u32" where
  "md5_f i x y z =
     (if i < 16 then (x AND y) OR (NOT x AND z)
      else if i < 32 then (x AND z) OR (y AND NOT z)
      else if i < 48 then x XOR y XOR z
      else y XOR (x OR NOT z))"

definition md5_word :: "nat \<Rightarrow> nat" where
  "md5_word i =
     (if i < 16 then i else if i < 32 then (5 * i + 1) mod 16 else if i < 48 then (3 * i + 5) mod 16 else 7 * i mod 16)"

definition md5_shift :: "nat \<Rightarrow> nat" where
  "md5_shift i = [[7, 12, 17, 22], [5, 9, 14, 20], [4, 11, 16, 23], [6, 10, 15, 21]] ! (i div 16) ! (i mod 4)"

definition md5_steps :: "(nat \<times> nat \<times> u32) list" where
  "md5_steps = md5_steps1 @ md5_steps2 @ md5_steps3 @ md5_steps4"

definition md5_table :: "u32 list" where
  "md5_table =
    [3614090360, 3905402710, 606105819, 3250441966,
     4118548399, 1200080426, 2821735955, 4249261313,
     1770035416, 2336552879, 4294925233, 2304563134,
     1804603682, 4254626195, 2792965006, 1236535329,
     4129170786, 3225465664, 643717713, 3921069994,
     3593408605, 38016083, 3634488961, 3889429448,
     568446438, 3275163606, 4107603335, 1163531501,
     2850285829, 4243563512, 1735328473, 2368359562,
     4294588738, 2272392833, 1839030562, 4259657740,
     2763975236, 1272893353, 4139469664, 3200236656,
     681279174, 3936430074, 3572445317, 76029189,
     3654602809, 3873151461, 530742520, 3299628645,
     4096336452, 1126891415, 2878612391, 4237533241,
     1700485571, 2399980690, 4293915773, 2240044497,
     1873313359, 4264355552, 2734768916, 1309151649,
     4149444226, 3174756917, 718787259, 3951481745]"

definition md5_step :: "bytes \<Rightarrow> nat \<Rightarrow> md5_state \<Rightarrow> md5_state" where
  "md5_step M i st =
     (case st of (a, b, c, d) \<Rightarrow>
        let X = of_nat (foldr (\<lambda>b v. unat b + 256 * v) (take 4 (drop (4 * md5_word i) M)) 0)
        in (d, b + word_rotl (md5_shift i) (a + md5_f i b c d + X + md5_table ! i), b, c))"

definition md5_compress :: "bytes \<Rightarrow> md5_state \<Rightarrow> md5_state" where
  "md5_compress M h =
     (case h of (a, b, c, d) \<Rightarrow> case fold (md5_step M) [0..<64] h of (a', b', c', d') \<Rightarrow>
        (a + a', b + b', c + c', d + d'))"

definition little_endian :: "nat \<Rightarrow> nat \<Rightarrow> bytes" where
  "little_endian k n = map (\<lambda>i. of_nat (n div 2 ^ (8 * i))) [0..<k]"

definition md5_padded :: "bytes \<Rightarrow> bytes" where
  "md5_padded m = m @ 0x80 # replicate ((119 - length m mod 64) mod 64) 0 @ little_endian 8 (8 * length m)"

definition md5 :: "bytes \<Rightarrow> bytes" where
  "md5 m =
     (case absorb md5_compress (0x67452301, 0xEFCDAB89, 0x98BADCFE, 0x10325476) (md5_padded m) of
        (a, b, c, d) \<Rightarrow> concat (map (\<lambda>h. little_endian 4 (unat h)) [a, b, c, d]))"

section \<open>The code computes MD5\<close>

lemmas md5_steps_defs = md5_steps1_def md5_steps2_def md5_steps3_def md5_steps4_def

lemma md5_F_eq: "md5_F (i div 16) x y z = md5_f i x y z" if "i < 64"
proof -
  have "z XOR (x AND (y XOR z)) = (x AND y) OR (NOT x AND z)"
    by (rule bit_word_eqI) (auto simp: bit_simps)
  moreover have "y XOR (z AND (x XOR y)) = (x AND z) OR (y AND NOT z)"
    by (rule bit_word_eqI) (auto simp: bit_simps)
  moreover have "i div 16 = 0 \<longleftrightarrow> i < 16" "i div 16 = 1 \<longleftrightarrow> 16 \<le> i \<and> i < 32" "i div 16 = 2 \<longleftrightarrow> 32 \<le> i \<and> i < 48"
    by auto
  ultimately show ?thesis by (auto simp: md5_F_def md5_f_def)
qed

lemma md5_steps_nth:
  assumes "i < 64"
  shows "md5_steps ! i = (md5_word i, md5_shift i, md5_table ! i)" and "md5_word i < 16" and "md5_shift i < 32"
proof -
  have l: "length md5_steps1 = 16" "length md5_steps2 = 16" "length md5_steps3 = 16" "length md5_steps4 = 16"
    by (simp_all add: md5_steps_defs)
  have "map (\<lambda>(k, s, t). (k, s)) md5_steps = map (\<lambda>i. (md5_word i, md5_shift i)) [0..<64]"
    by (simp add: md5_steps_def md5_steps_defs upt_rec md5_word_def md5_shift_def)
  then have "map (\<lambda>(k, s, t). (k, s)) md5_steps ! i = map (\<lambda>i. (md5_word i, md5_shift i)) [0..<64] ! i" by simp
  then have "(case md5_steps ! i of (k, s, t) \<Rightarrow> (k, s)) = (md5_word i, md5_shift i)"
    using assms l by (simp add: md5_steps_def del: map_append)
  moreover have "md5_table = map (snd \<circ> snd) md5_steps"
    by (simp add: md5_table_def md5_steps_def md5_steps_defs)
  then have "md5_table ! i = snd (snd (md5_steps ! i))"
    using assms l nth_map [of i md5_steps "snd \<circ> snd"] by (simp add: md5_steps_def del: map_append)
  ultimately show "md5_steps ! i = (md5_word i, md5_shift i, md5_table ! i)"
    by (cases "md5_steps ! i") simp
  show "md5_word i < 16" by (simp add: md5_word_def)
  have "list_all (\<lambda>i. md5_shift i < 32) [0..<64]"
    by (simp add: upt_rec md5_shift_def)
  then show "md5_shift i < 32" using assms by (simp add: list_all_iff)
qed

text \<open>The four runs of 16 steps are one run of 64.\<close>

lemma md5_runs:
  "fold (md5_P 3 X) md5_steps4 (fold (md5_P 2 X) md5_steps3 (fold (md5_P 1 X) md5_steps2 (fold (md5_P 0 X) md5_steps1 st))) =
   fold (\<lambda>i. md5_P (i div 16) X (md5_steps ! i)) [0..<64] st"
proof -
  have run: "fold (md5_P r X) rows st = fold (\<lambda>i. md5_P (i div 16) X (md5_steps ! i)) [16 * r..<16 * r + 16] st"
    if "length rows = 16" "\<And>i. i < 16 \<Longrightarrow> md5_steps ! (16 * r + i) = rows ! i" for r rows st
  proof -
    have "fold (\<lambda>i. md5_P (i div 16) X (md5_steps ! i)) [16 * r..<16 * r + 16] st =
        fold (\<lambda>i. md5_P r X (rows ! i)) [0..<16] st"
    proof -
      have "[16 * r..<16 * r + 16] = map (\<lambda>i. i + 16 * r) [0..<16]"
        using map_add_upt [of "16 * r" 16] by (simp add: add.commute)
      then show ?thesis
        by (simp only: fold_map comp_def) (rule fold_cong, auto simp: that(2) [symmetric] add.commute)
    qed
    also have "\<dots> = fold (md5_P r X) (map ((!) rows) [0..<length rows]) st"
      by (simp only: that(1) fold_map comp_def)
    finally show ?thesis by (simp only: map_nth)
  qed
  have l: "length md5_steps1 = 16" "length md5_steps2 = 16" "length md5_steps3 = 16" "length md5_steps4 = 16"
    by (simp_all add: md5_steps_defs)
  have "[0..<64] = [16 * 0..<16 * 0 + 16] @ [16 * 1..<16 * 1 + 16] @ [16 * 2..<16 * 2 + 16] @ [16 * 3..<16 * 3 + (16 :: nat)]"
    by (simp add: upt_rec)
  then show ?thesis
    using run [of md5_steps1 0] run [of md5_steps2 1] run [of md5_steps3 2] run [of md5_steps4 3] l
    by (simp add: md5_steps_def nth_append)
qed

lemma get_uint32_le_value:
  assumes "i + 4 \<le> length b"
  shows "get_uint32_le b i = of_nat (foldr (\<lambda>b v. unat b + 256 * v) (take 4 (drop i b)) 0)"
proof -
  have b: "take 4 (drop i b) = [b ! i, b ! (i + 1), b ! (i + 2), b ! (i + 3)]"
    using assms by (intro nth_equalityI) (auto simp: nth_Cons less_Suc_eq numeral_eq_Suc split: nat.splits)
  let ?B = "\<lambda>k. ucast (b ! (i + k)) :: u32"
  have "push_bit 16 (?B 2) OR push_bit 24 (?B 3) = push_bit 16 (?B 2) + push_bit 24 (?B 3)"
    by (rule disjunctive_add [symmetric]) (auto simp: bit_simps dest: bit_imp_le_length)
  moreover have "push_bit 8 (?B 1) OR (push_bit 16 (?B 2) OR push_bit 24 (?B 3)) = push_bit 8 (?B 1) + (push_bit 16 (?B 2) OR push_bit 24 (?B 3))"
    by (rule disjunctive_add [symmetric]) (auto simp: bit_simps dest: bit_imp_le_length)
  moreover have "?B 0 OR (push_bit 8 (?B 1) OR (push_bit 16 (?B 2) OR push_bit 24 (?B 3))) =
      ?B 0 + (push_bit 8 (?B 1) OR (push_bit 16 (?B 2) OR push_bit 24 (?B 3)))"
    by (rule disjunctive_add [symmetric]) (auto simp: bit_simps dest: bit_imp_le_length)
  ultimately have "get_uint32_le b i = ?B 0 + (push_bit 8 (?B 1) + (push_bit 16 (?B 2) + push_bit 24 (?B 3)))"
    by (simp only: get_uint32_le_def add_0_right)
  then show ?thesis
    by (simp add: b push_bit_eq_mult algebra_simps)
qed

lemma bytes_of_words_le:
  "put_uint32_le (of_nat n) @ put_uint32_le (of_nat (n div 2 ^ 32)) = little_endian 8 n"
  "put_uint32_le x = little_endian 4 (unat x)"
proof -
  have low: "ucast (v AND 0xFF) = (ucast v :: u8)" for v :: u32
  proof -
    have "v AND 0xFF = take_bit 8 v" by (simp add: take_bit_eq_mask mask_eq_exp_minus_1)
    then show ?thesis by (auto intro!: bit_word_eqI simp: bit_simps)
  qed
  have p: "put_uint32_le (of_nat v) = map (\<lambda>j. of_nat (v div 2 ^ j)) [0, 8, 16, 24]" for v
    using byte_of_word [of 24 v] byte_of_word [of 16 v] byte_of_word [of 8 v] byte_of_word [of 0 v]
    by (simp add: put_uint32_le_def low)
  show "put_uint32_le (of_nat n) @ put_uint32_le (of_nat (n div 2 ^ 32)) = little_endian 8 n"
    unfolding p by (simp add: little_endian_def upt_rec div_mult2_eq [symmetric])
  show "put_uint32_le x = little_endian 4 (unat x)"
    using p [of "unat x"] by (simp add: little_endian_def upt_rec)
qed

lemma md5_process_eq:
  assumes M: "length M = 64"
  shows "utils_md5_process M s = md5_compress M s"
proof -
  let ?X = "map (\<lambda>i. get_uint32_le M (4 * i)) [0..<16]"
  have "fold (\<lambda>i. md5_P (i div 16) ?X (md5_steps ! i)) [0..<64] s = fold (md5_step M) [0..<64] s"
  proof (rule fold_cong)
    fix i assume "i \<in> set [0..<64 :: nat]"
    then have i: "i < 64" by simp
    have k: "4 * md5_word i + 4 \<le> length M" using md5_steps_nth(2) [OF i] M by linarith
    show "md5_P (i div 16) ?X (md5_steps ! i) = md5_step M i"
      unfolding md5_steps_nth(1) [OF i] using md5_steps_nth(2,3) [OF i] get_uint32_le_value [OF k]
      by (auto simp: md5_P_def md5_step_def md5_F_eq [OF i] rotl_word_rotl Let_def add_ac fun_eq_iff
          simp del: upt_rec_numeral)
  qed simp_all
  then show ?thesis
    unfolding utils_md5_process_def md5_compress_def Let_def md5_runs by simp
qed

lemma md5_absorb: "absorb utils_md5_process s m = absorb md5_compress s m"
proof (induction "length m" arbitrary: m s rule: less_induct)
  case less
  show ?case
    by (subst (1 2) absorb.simps) (simp add: less md5_process_eq)
qed

lemma md5_padded_eq:
  "md5_padded m = m @ pad_zeros (length m) @ put_uint32_le (of_nat (8 * length m)) @ put_uint32_le (of_nat (8 * length m div 2 ^ 32))"
proof -
  have "length m mod 64 < 64" by simp
  then have "(119 - length m mod 64) mod 64 = (if length m mod 64 < 56 then 55 - length m mod 64 else 119 - length m mod 64)"
    by (auto simp: le_mod_geq)
  then show ?thesis unfolding bytes_of_words_le(1) by (simp add: md5_padded_def pad_zeros_def)
qed

definition md5_context :: "iot_md5_context \<Rightarrow> bytes \<Rightarrow> bool" where
  "md5_context = holds utils_md5_process (0x67452301, 0xEFCDAB89, 0x98BADCFE, 0x10325476)"

lemma md5_finish_digest:
  assumes "md5_context ctx m"
  shows "map_option snd (utils_md5_finish ctx) = Some (md5 m)"
proof -
  have "\<And>h l. length (put_uint32_le l @ put_uint32_le h) = 8" by (simp add: put_uint32_le_def)
  from finish_holds [OF assms [unfolded md5_context_def], of "\<lambda>h l. put_uint32_le l @ put_uint32_le h", OF this]
  obtain ctx' where "digest_finish utils_md5_process (\<lambda>h l. put_uint32_le l @ put_uint32_le h) ctx = Some ctx'"
    "state ctx' = absorb md5_compress (0x67452301, 0xEFCDAB89, 0x98BADCFE, 0x10325476) (md5_padded m)"
    unfolding md5_padded_eq md5_absorb append_assoc by blast
  then show ?thesis
    by (simp add: utils_md5_finish_def md5_def bytes_of_words_le(2) split: prod.split)
qed

interpretation md5: stream_hash "utils_md5_starts utils_md5_init" utils_md5_update
  "\<lambda>ctx. map_option snd (utils_md5_finish ctx)" md5_context Digest_Md5.md5
proof unfold_locales
  show "md5_context (utils_md5_starts utils_md5_init) []"
    by (simp add: md5_context_def holds_def utils_md5_starts_def utils_md5_init_def absorb_short rest_short)
  show "\<exists>c'. utils_md5_update c (x @ post) (length x) = Some c' \<and> md5_context c' (m @ x)"
    if "md5_context c m" "length x < 2 ^ 32" for c m x post
    using update_holds [OF that(1) [unfolded md5_context_def] that(2), of post]
    by (simp add: md5_context_def utils_md5_update_def)
qed (rule md5_finish_digest)

lemma utils_md5_run:
  "utils_md5 input ilen = do { ctx \<leftarrow> utils_md5_update (utils_md5_starts utils_md5_init) input ilen; map_option snd (utils_md5_finish ctx) }"
  by (auto simp: utils_md5_def Let_def split: option.split bind_splits)

text \<open>
  Property C18: \<open>utils_md5\<close> computes MD5 as RFC 1321 defines it, with a table of sines that is independent of
  the constants in the code, for every message shorter than \<open>2 ^ 32\<close> bytes, and reads nothing behind the
  message.
\<close>

theorem utils_md5_correct:
  assumes "length m < 2 ^ 32"
  shows "utils_md5 (m @ post) (length m) = Some (md5 m)"
  unfolding utils_md5_run using assms by (rule md5.one_update)

theorem utils_md5_correct_witness:
  "utils_md5 [0x61, 0x62, 0x63] 3 = Some (md5 [0x61, 0x62, 0x63])"
  using utils_md5_correct [of "[0x61, 0x62, 0x63]" "[]"] by (simp add: numeral_3_eq_3)

text \<open>\<open>utils_hb2hex\<close>.\<close>

definition utils_hb2hex :: "u8 \<Rightarrow> u8" where
  "utils_hb2hex hb = (let hb = hb AND 0xF in if hb < 10 then 0x30 + hb else hb - 10 + 0x61)"

end
