(* ===== verification/Digest_Sha1.thy ===== *)
theory Digest_Sha1
  imports Digest_Stream
begin

text \<open>
  sdk/utils/digest/utils_sha1.c. The 80 steps of \<open>utils_sha1_process\<close> use a circular schedule of 16
  words and permute the roles of A to E instead of moving them; here the state tuple is in the order of
  the macro's arguments. The result is compared with SHA-1 as FIPS 180-4 defines it.
\<close>

section \<open>The code\<close>

type_synonym sha1_state = "u32 \<times> u32 \<times> u32 \<times> u32 \<times> u32"
type_synonym iot_sha1_context = "sha1_state digest_context"

text \<open>\<open>IOT_SHA1_GET_UINT32_BE\<close> and \<open>IOT_SHA1_PUT_UINT32_BE\<close>.\<close>

definition get_uint32_be :: "bytes \<Rightarrow> nat \<Rightarrow> u32" where
  "get_uint32_be b i =
     push_bit 24 (ucast (b ! i)) OR push_bit 16 (ucast (b ! (i + 1))) OR push_bit 8 (ucast (b ! (i + 2))) OR ucast (b ! (i + 3))"

definition put_uint32_be :: "u32 \<Rightarrow> bytes" where
  "put_uint32_be n = [ucast (drop_bit 24 n), ucast (drop_bit 16 n), ucast (drop_bit 8 n), ucast n]"

definition utils_sha1_init :: iot_sha1_context where
  "utils_sha1_init = \<lparr>total0 = 0, total1 = 0, state = (0, 0, 0, 0, 0), buffer = replicate 64 0\<rparr>"

definition utils_sha1_starts :: "iot_sha1_context \<Rightarrow> iot_sha1_context" where
  "utils_sha1_starts ctx = ctx\<lparr>total0 := 0, total1 := 0, state := (0x67452301, 0xEFCDAB89, 0x98BADCFE, 0x10325476, 0xC3D2E1F0)\<rparr>"

text \<open>The four rounds: the macros F and K, and R and P.\<close>

definition sha1_F :: "nat \<Rightarrow> u32 \<Rightarrow> u32 \<Rightarrow> u32 \<Rightarrow> u32" where
  "sha1_F t x y z =
     (if t < 20 then z XOR (x AND (y XOR z))
      else if t < 40 then x XOR y XOR z
      else if t < 60 then (x AND y) OR (z AND (x OR y))
      else x XOR y XOR z)"

definition sha1_K :: "nat \<Rightarrow> u32" where
  "sha1_K t = (if t < 20 then 0x5A827999 else if t < 40 then 0x6ED9EBA1 else if t < 60 then 0x8F1BBCDC else 0xCA62C1D6)"

definition sha1_R :: "u32 list \<Rightarrow> nat \<Rightarrow> u32 list \<times> u32" where
  "sha1_R W t =
     (let temp = W ! ((t - 3) mod 16) XOR W ! ((t - 8) mod 16) XOR W ! ((t - 14) mod 16) XOR W ! (t mod 16);
          x = rotl temp 1
      in (W[t mod 16 := x], x))"

definition sha1_P :: "nat \<Rightarrow> sha1_state \<Rightarrow> u32 \<Rightarrow> sha1_state" where
  "sha1_P t s x =
     (case s of (a, b, c, d, e) \<Rightarrow>
        let e = e + (rotl a 5 + sha1_F t b c d + sha1_K t + x);
            b = rotl b 30
        in (e, a, b, c, d))"

primrec sha1_rounds :: "nat \<Rightarrow> u32 list \<times> sha1_state \<Rightarrow> u32 list \<times> sha1_state" where
  "sha1_rounds 0 c = c"
| "sha1_rounds (Suc t) c =
     (case sha1_rounds t c of (W, s) \<Rightarrow>
        if t < 16 then (W, sha1_P t s (W ! t))
        else case sha1_R W t of (W, x) \<Rightarrow> (W, sha1_P t s x))"

definition utils_sha1_process :: "bytes \<Rightarrow> sha1_state \<Rightarrow> sha1_state" where
  "utils_sha1_process data s =
     (let W = map (\<lambda>i. get_uint32_be data (4 * i)) [0..<16]
      in case s of (s0, s1, s2, s3, s4) \<Rightarrow>
         case snd (sha1_rounds 80 (W, s)) of (A, B, C, D, E) \<Rightarrow>
           (s0 + A, s1 + B, s2 + C, s3 + D, s4 + E))"

definition utils_sha1_update :: "iot_sha1_context \<Rightarrow> bytes \<Rightarrow> nat \<Rightarrow> iot_sha1_context option" where
  "utils_sha1_update = digest_update utils_sha1_process"

definition utils_sha1_finish :: "iot_sha1_context \<Rightarrow> (iot_sha1_context \<times> bytes) option" where
  "utils_sha1_finish ctx = do {
     ctx \<leftarrow> digest_finish utils_sha1_process (\<lambda>high low. put_uint32_be high @ put_uint32_be low) ctx;
     Some (ctx, case state ctx of (s0, s1, s2, s3, s4) \<Rightarrow>
       put_uint32_be s0 @ put_uint32_be s1 @ put_uint32_be s2 @ put_uint32_be s3 @ put_uint32_be s4) }"

definition utils_sha1 :: "bytes \<Rightarrow> nat \<Rightarrow> bytes option" where
  "utils_sha1 input ilen = do {
     let ctx = utils_sha1_init;
     let ctx = utils_sha1_starts ctx;
     ctx \<leftarrow> utils_sha1_update ctx input ilen;
     (ctx, output) \<leftarrow> utils_sha1_finish ctx;
     Some output }"


section \<open>SHA-1\<close>

text \<open>FIPS 180-4, sections 4.1.1, 4.2.1, 5.1.1, 5.3.1 and 6.1.2.\<close>

definition Ch :: "u32 \<Rightarrow> u32 \<Rightarrow> u32 \<Rightarrow> u32" where
  "Ch x y z = (x AND y) XOR (NOT x AND z)"

definition Parity :: "u32 \<Rightarrow> u32 \<Rightarrow> u32 \<Rightarrow> u32" where
  "Parity x y z = x XOR y XOR z"

definition Maj :: "u32 \<Rightarrow> u32 \<Rightarrow> u32 \<Rightarrow> u32" where
  "Maj x y z = (x AND y) XOR (x AND z) XOR (y AND z)"

definition sha1_f :: "nat \<Rightarrow> u32 \<Rightarrow> u32 \<Rightarrow> u32 \<Rightarrow> u32" where
  "sha1_f t = (if t < 20 then Ch else if t < 40 then Parity else if t < 60 then Maj else Parity)"

text \<open>
  The constants of section 4.2.1: the first 32 bits of the square roots of 2, 3, 5 and 10, the point being
  behind the second bit. They are given by the root, not taken from the code.
\<close>

definition root_bits :: "nat \<Rightarrow> nat \<Rightarrow> bool" where
  "root_bits n k \<longleftrightarrow> k ^ 2 \<le> n * 2 ^ 60 \<and> n * 2 ^ 60 < (k + 1) ^ 2"

definition sha1_constants :: "nat list" where
  "sha1_constants = [1518500249, 1859775393, 2400959708, 3395469782]"

lemma sha1_constants_roots:
  "list_all2 root_bits [2, 3, 5, 10] sha1_constants"
  by (simp add: root_bits_def sha1_constants_def)

definition sha1_k :: "nat \<Rightarrow> u32" where
  "sha1_k t = of_nat (sha1_constants ! (t div 20))"

fun sha1_w :: "bytes \<Rightarrow> nat \<Rightarrow> u32" where
  "sha1_w M t =
     (if t < 16 then of_nat (foldl (\<lambda>v b. 256 * v + unat b) 0 (take 4 (drop (4 * t) M)))
      else word_rotl 1 (sha1_w M (t - 3) XOR sha1_w M (t - 8) XOR sha1_w M (t - 14) XOR sha1_w M (t - 16)))"

declare sha1_w.simps [simp del]

definition sha1_step :: "bytes \<Rightarrow> nat \<Rightarrow> sha1_state \<Rightarrow> sha1_state" where
  "sha1_step M t s =
     (case s of (a, b, c, d, e) \<Rightarrow>
        (word_rotl 5 a + sha1_f t b c d + e + sha1_k t + sha1_w M t, a, word_rotl 30 b, c, d))"

definition sha1_compress :: "bytes \<Rightarrow> sha1_state \<Rightarrow> sha1_state" where
  "sha1_compress M h =
     (case h of (h0, h1, h2, h3, h4) \<Rightarrow> case fold (sha1_step M) [0..<80] h of (a, b, c, d, e) \<Rightarrow>
        (h0 + a, h1 + b, h2 + c, h3 + d, h4 + e))"

definition big_endian :: "nat \<Rightarrow> nat \<Rightarrow> bytes" where
  "big_endian k n = map (\<lambda>i. of_nat (n div 2 ^ (8 * (k - 1 - i)))) [0..<k]"

definition sha1_padded :: "bytes \<Rightarrow> bytes" where
  "sha1_padded m = m @ 0x80 # replicate ((119 - length m mod 64) mod 64) 0 @ big_endian 8 (8 * length m)"

definition sha1 :: "bytes \<Rightarrow> bytes" where
  "sha1 m =
     (case absorb sha1_compress (0x67452301, 0xEFCDAB89, 0x98BADCFE, 0x10325476, 0xC3D2E1F0) (sha1_padded m) of
        (a, b, c, d, e) \<Rightarrow> concat (map (\<lambda>h. big_endian 4 (unat h)) [a, b, c, d, e]))"

section \<open>The code computes SHA-1\<close>

lemma sha1_F_eq: "sha1_F t x y z = sha1_f t x y z"
proof -
  have "z XOR (x AND (y XOR z)) = Ch x y z"
    by (rule bit_word_eqI) (auto simp: Ch_def bit_simps)
  moreover have "(x AND y) OR (z AND (x OR y)) = Maj x y z"
    by (rule bit_word_eqI) (auto simp: Maj_def bit_simps)
  ultimately show ?thesis by (simp add: sha1_F_def sha1_f_def Parity_def)
qed

lemma sha1_K_eq:
  assumes "t < 80" shows "sha1_K t = sha1_k t"
proof -
  have "t div 20 = (if t < 20 then 0 else if t < 40 then 1 else if t < 60 then 2 else 3)" using assms by auto
  then show ?thesis by (simp add: sha1_K_def sha1_k_def sha1_constants_def)
qed

lemma sha1_P_step: "t < 80 \<Longrightarrow> x = sha1_w M t \<Longrightarrow> sha1_P t s x = sha1_step M t s"
  by (cases s) (simp add: sha1_P_def sha1_step_def rotl_word_rotl sha1_F_eq sha1_K_eq add_ac)

text \<open>The circular schedule holds the last 16 words.\<close>

definition schedule :: "bytes \<Rightarrow> nat \<Rightarrow> u32 list \<Rightarrow> bool" where
  "schedule M n W \<longleftrightarrow> length W = 16 \<and> (\<forall>i<n. n \<le> i + 16 \<longrightarrow> W ! (i mod 16) = sha1_w M i)"

lemma schedule_R:
  assumes "schedule M t W" and "16 \<le> t"
  shows "schedule M (Suc t) (fst (sha1_R W t))" and "snd (sha1_R W t) = sha1_w M t"
proof -
  have W: "W ! ((t - k) mod 16) = sha1_w M (t - k)" if "1 \<le> k" "k \<le> 16" for k
    using assms that by (simp add: schedule_def)
  have "(t - 16) mod 16 = t mod 16" using assms(2) by (simp add: le_mod_geq [symmetric])
  then have "W ! (t mod 16) = sha1_w M (t - 16)" using W [of 16] by simp
  with W [of 3] W [of 8] W [of 14] assms(2) show x: "snd (sha1_R W t) = sha1_w M t"
    by (simp add: sha1_R_def Let_def rotl_word_rotl sha1_w.simps [of M t])
  have n: "i mod 16 \<noteq> t mod 16" if "i < t" "t < i + 16" for i
  proof
    assume "i mod 16 = t mod 16"
    then have "(t - i) mod 16 = 0" using that by (metis less_imp_le mod_eq_dvd_iff_nat mod_0_imp_dvd dvd_imp_mod_0)
    with that show False by simp
  qed
  show "schedule M (Suc t) (fst (sha1_R W t))"
    unfolding schedule_def
  proof (intro conjI allI impI)
    show "length (fst (sha1_R W t)) = 16" using assms by (simp add: sha1_R_def schedule_def Let_def)
    fix i assume i: "i < Suc t" "Suc t \<le> i + 16"
    show "fst (sha1_R W t) ! (i mod 16) = sha1_w M i"
    proof (cases "i = t")
      case True
      then show ?thesis using x assms(1) by (simp add: sha1_R_def schedule_def Let_def)
    next
      case False
      with i n [of i] assms(1) show ?thesis by (simp add: sha1_R_def schedule_def Let_def)
    qed
  qed
qed

lemma sha1_rounds_eq:
  assumes "schedule M 16 W"
  shows "t \<le> 80 \<Longrightarrow> \<exists>W'. sha1_rounds t (W, s) = (W', fold (sha1_step M) [0..<t] s) \<and> schedule M (max t 16) W' \<and> (t \<le> 16 \<longrightarrow> W' = W)"
proof (induction t)
  case (Suc t)
  from Suc.prems have t80: "t < 80" by simp
  from Suc obtain W' where W': "sha1_rounds t (W, s) = (W', fold (sha1_step M) [0..<t] s)"
    "schedule M (max t 16) W'" "t \<le> 16 \<longrightarrow> W' = W" using t80 by auto
  show ?case
  proof (cases "t < 16")
    case True
    then have "W ! t = sha1_w M t" using assms by (auto simp: schedule_def)
    with True W' show ?thesis by (simp add: sha1_P_step [OF t80] max_def)
  next
    case False
    with W'(2) have "schedule M t W'" by (simp add: max_def)
    from schedule_R [OF this] False W' show ?thesis
      by (auto simp: case_prod_beta' sha1_P_step [OF t80] max_def)
  qed
qed (use assms in simp)

lemma get_uint32_be_value:
  assumes "i + 4 \<le> length b"
  shows "get_uint32_be b i = of_nat (foldl (\<lambda>v b. 256 * v + unat b) 0 (take 4 (drop i b)))"
proof -
  have b: "take 4 (drop i b) = [b ! i, b ! (i + 1), b ! (i + 2), b ! (i + 3)]"
    using assms by (intro nth_equalityI) (auto simp: nth_Cons less_Suc_eq numeral_eq_Suc split: nat.splits)
  let ?B = "\<lambda>k. ucast (b ! (i + k)) :: u32"
  have "push_bit 8 (?B 2) OR ?B 3 = push_bit 8 (?B 2) + ?B 3"
    by (rule disjunctive_add [symmetric]) (auto simp: bit_simps dest: bit_imp_le_length)
  moreover have "push_bit 16 (?B 1) OR (push_bit 8 (?B 2) OR ?B 3) = push_bit 16 (?B 1) + (push_bit 8 (?B 2) OR ?B 3)"
    by (rule disjunctive_add [symmetric]) (auto simp: bit_simps dest: bit_imp_le_length)
  moreover have "push_bit 24 (?B 0) OR (push_bit 16 (?B 1) OR (push_bit 8 (?B 2) OR ?B 3)) =
      push_bit 24 (?B 0) + (push_bit 16 (?B 1) OR (push_bit 8 (?B 2) OR ?B 3))"
    by (rule disjunctive_add [symmetric]) (auto simp: bit_simps dest: bit_imp_le_length)
  ultimately have "get_uint32_be b i = push_bit 24 (?B 0) + (push_bit 16 (?B 1) + (push_bit 8 (?B 2) + ?B 3))"
    by (simp only: get_uint32_be_def add_0_right)
  then show ?thesis
    by (simp add: b push_bit_eq_mult algebra_simps)
qed

lemma bytes_of_words:
  "put_uint32_be (of_nat (n div 2 ^ 32)) @ put_uint32_be (of_nat n) = big_endian 8 n"
  "put_uint32_be x = big_endian 4 (unat x)"
proof -
  have p: "put_uint32_be (of_nat v) = map (\<lambda>j. of_nat (v div 2 ^ j)) [24, 16, 8, 0]" for v
    using byte_of_word [of 24 v] byte_of_word [of 16 v] byte_of_word [of 8 v] byte_of_word [of 0 v]
    by (simp add: put_uint32_be_def)
  show "put_uint32_be (of_nat (n div 2 ^ 32)) @ put_uint32_be (of_nat n) = big_endian 8 n"
    unfolding p by (simp add: big_endian_def upt_rec div_mult2_eq [symmetric])
  show "put_uint32_be x = big_endian 4 (unat x)"
    using p [of "unat x"] by (simp add: big_endian_def upt_rec)
qed

lemma sha1_schedule_start:
  assumes "length M = 64"
  shows "schedule M 16 (map (\<lambda>i. get_uint32_be M (4 * i)) [0..<16])"
  using assms by (auto simp: schedule_def get_uint32_be_value sha1_w.simps)

lemma sha1_process_eq:
  assumes "length M = 64"
  shows "utils_sha1_process M s = sha1_compress M s"
  using sha1_rounds_eq [OF sha1_schedule_start [OF assms] order_refl, of s]
  by (auto simp: utils_sha1_process_def sha1_compress_def Let_def simp del: upt_conv_Cons upt_rec_numeral)

lemma sha1_absorb: "absorb utils_sha1_process s m = absorb sha1_compress s m"
proof (induction "length m" arbitrary: m s rule: less_induct)
  case less
  show ?case
    by (subst (1 2) absorb.simps) (simp add: less sha1_process_eq)
qed

lemma sha1_padded_eq:
  "sha1_padded m = m @ pad_zeros (length m) @ put_uint32_be (of_nat (8 * length m div 2 ^ 32)) @ put_uint32_be (of_nat (8 * length m))"
proof -
  have "length m mod 64 < 64" by simp
  then have "(119 - length m mod 64) mod 64 = (if length m mod 64 < 56 then 55 - length m mod 64 else 119 - length m mod 64)"
    by (auto simp: le_mod_geq)
  then show ?thesis unfolding bytes_of_words(1) by (simp add: sha1_padded_def pad_zeros_def)
qed

definition sha1_context :: "iot_sha1_context \<Rightarrow> bytes \<Rightarrow> bool" where
  "sha1_context = holds utils_sha1_process (0x67452301, 0xEFCDAB89, 0x98BADCFE, 0x10325476, 0xC3D2E1F0)"

lemma sha1_finish_digest:
  assumes "sha1_context ctx m"
  shows "map_option snd (utils_sha1_finish ctx) = Some (sha1 m)"
proof -
  have "\<And>h l. length (put_uint32_be h @ put_uint32_be l) = 8" by (simp add: put_uint32_be_def)
  from finish_holds [OF assms [unfolded sha1_context_def], of "\<lambda>h l. put_uint32_be h @ put_uint32_be l", OF this]
  obtain ctx' where "digest_finish utils_sha1_process (\<lambda>h l. put_uint32_be h @ put_uint32_be l) ctx = Some ctx'"
    "state ctx' = absorb sha1_compress (0x67452301, 0xEFCDAB89, 0x98BADCFE, 0x10325476, 0xC3D2E1F0) (sha1_padded m)"
    unfolding sha1_padded_eq sha1_absorb append_assoc by blast
  then show ?thesis
    by (simp add: utils_sha1_finish_def sha1_def bytes_of_words(2) split: prod.split)
qed

interpretation sha1: stream_hash "utils_sha1_starts utils_sha1_init" utils_sha1_update
  "\<lambda>ctx. map_option snd (utils_sha1_finish ctx)" sha1_context Digest_Sha1.sha1
proof unfold_locales
  show "sha1_context (utils_sha1_starts utils_sha1_init) []"
    by (simp add: sha1_context_def holds_def utils_sha1_starts_def utils_sha1_init_def absorb_short rest_short)
  show "\<exists>c'. utils_sha1_update c (x @ post) (length x) = Some c' \<and> sha1_context c' (m @ x)"
    if "sha1_context c m" "length x < 2 ^ 32" for c m x post
    using update_holds [OF that(1) [unfolded sha1_context_def] that(2), of post]
    by (simp add: sha1_context_def utils_sha1_update_def)
qed (rule sha1_finish_digest)

lemma utils_sha1_run:
  "utils_sha1 input ilen = do { ctx \<leftarrow> utils_sha1_update (utils_sha1_starts utils_sha1_init) input ilen; map_option snd (utils_sha1_finish ctx) }"
  by (auto simp: utils_sha1_def Let_def split: option.split bind_splits)

text \<open>
  Property C5: \<open>utils_sha1\<close> computes SHA-1 as FIPS 180-4 defines it, with the constants of the standard (the
  square roots of 2, 3, 5 and 10), for every message shorter than \<open>2 ^ 32\<close> bytes, and reads nothing behind the
  message.
\<close>

theorem utils_sha1_correct:
  assumes "length m < 2 ^ 32"
  shows "utils_sha1 (m @ post) (length m) = Some (sha1 m)"
  unfolding utils_sha1_run using assms by (rule sha1.one_update)

theorem utils_sha1_correct_witness:
  "utils_sha1 [0x61, 0x62, 0x63] 3 = Some (sha1 [0x61, 0x62, 0x63])"
  using utils_sha1_correct [of "[0x61, 0x62, 0x63]" "[]"] by (simp add: numeral_3_eq_3)

end
