(* ===== verification/Digest_Hmac.thy ===== *)
theory Digest_Hmac
  imports Digest_Md5 Digest_Sha1
begin

text \<open>
  sdk/utils/digest/utils_hmac.c. The two functions are the same code over the two hashes; it is proved
  against RFC 2104 once, from the contract of a streaming hash.
\<close>

section \<open>The code\<close>

text \<open>A key pad: the key, filled up with zeros, with every byte changed by \<open>c\<close>.\<close>

definition key_pad :: "bytes \<Rightarrow> int \<Rightarrow> u8 \<Rightarrow> bytes option" where
  "key_pad key key_len c =
     (if key_len < 0 then None
      else do {
        k \<leftarrow> rd_bytes key 0 (nat key_len);
        pad \<leftarrow> wr_bytes (replicate 64 0) 0 k;
        Some (map (\<lambda>b. b XOR c) pad) })"

text \<open>The digest in hexadecimal digits.\<close>

primrec hex_digest :: "nat \<Rightarrow> bytes \<Rightarrow> bytes \<Rightarrow> bytes option" where
  "hex_digest 0 out digest = Some digest"
| "hex_digest (Suc i) out digest = do {
     digest \<leftarrow> hex_digest i out digest;
     b \<leftarrow> rd out i;
     digest \<leftarrow> wr digest (i * 2) (utils_hb2hex (drop_bit 4 b));
     wr digest (i * 2 + 1) (utils_hb2hex b) }"

text \<open>
  The common body; the hash is given by its functions and the size of its digest. The result is the
  array \<open>digest\<close>. A negative length is converted to a huge one.
\<close>

definition utils_hmac ::
  "'c \<Rightarrow> ('c \<Rightarrow> bytes \<Rightarrow> nat \<Rightarrow> 'c option) \<Rightarrow> ('c \<Rightarrow> bytes option) \<Rightarrow> nat \<Rightarrow>
   bytes option \<Rightarrow> int \<Rightarrow> bytes option \<Rightarrow> bytes option \<Rightarrow> int \<Rightarrow> bytes option option" where
  "utils_hmac starts update finish n msg msg_len digest key key_len =
     (case (msg, digest, key) of
        (Some msg, Some digest, Some key) \<Rightarrow>
          if key_len > 64 then Some (Some digest)
          else if msg_len < 0 then None
          else do {
            k_ipad \<leftarrow> key_pad key key_len 0x36;
            k_opad \<leftarrow> key_pad key key_len 0x5c;
            ctx \<leftarrow> update starts k_ipad 64;
            ctx \<leftarrow> update ctx msg (nat msg_len);
            out \<leftarrow> finish ctx;
            ctx \<leftarrow> update starts k_opad 64;
            ctx \<leftarrow> update ctx out n;
            out \<leftarrow> finish ctx;
            map_option Some (hex_digest n out digest) }
      | _ \<Rightarrow> Some digest)"

definition utils_hmac_md5 :: "bytes option \<Rightarrow> int \<Rightarrow> bytes option \<Rightarrow> bytes option \<Rightarrow> int \<Rightarrow> bytes option option" where
  "utils_hmac_md5 =
     utils_hmac (utils_md5_starts utils_md5_init) utils_md5_update (\<lambda>ctx. map_option snd (utils_md5_finish ctx)) 16"

definition utils_hmac_sha1 :: "bytes option \<Rightarrow> int \<Rightarrow> bytes option \<Rightarrow> bytes option \<Rightarrow> int \<Rightarrow> bytes option option" where
  "utils_hmac_sha1 =
     utils_hmac (utils_sha1_starts utils_sha1_init) utils_sha1_update (\<lambda>ctx. map_option snd (utils_sha1_finish ctx)) 20"

section \<open>HMAC\<close>

text \<open>RFC 2104, for a hash with blocks of 64 bytes.\<close>

definition hmac :: "(bytes \<Rightarrow> bytes) \<Rightarrow> bytes \<Rightarrow> bytes \<Rightarrow> bytes" where
  "hmac H key m =
     (let k = (if length key > 64 then H key else key);
          k = k @ replicate (64 - length k) 0
      in H (map (\<lambda>b. b XOR 0x5c) k @ H (map (\<lambda>b. b XOR 0x36) k @ m)))"

lemma utils_hb2hex_eq: "utils_hb2hex b = hex_digit (unat b mod 16)"
proof -
  have "b AND 0xF = take_bit 4 b" by (simp add: take_bit_eq_mask mask_eq_exp_minus_1)
  then have "unat (b AND 0xF) = take_bit 4 (unat b)" by (simp only: unsigned_take_bit_eq)
  then have w: "unat b mod 16 = unat (b AND 0xF)" by (simp add: take_bit_eq_mod)
  have "b AND 0xF < 10 \<longleftrightarrow> unat (b AND 0xF) < 10"
    by (simp add: word_less_nat_alt unat_numeral)
  then show ?thesis
    unfolding w by (cases "unat (b AND 0xF) < 10") (simp_all add: utils_hb2hex_def hex_digit_def Let_def)
qed

lemma hex_digest_eq:
  "i \<le> length out \<Longrightarrow> 2 * i \<le> length digest \<Longrightarrow>
    hex_digest i out digest = Some (hex (take i out) @ drop (2 * i) digest)"
proof (induction i)
  case 0
  then show ?case by (simp add: hex_def)
next
  case (Suc i)
  let ?h = "hex (take i out)"
  have h: "length ?h = 2 * i" using Suc.prems by simp
  have "2 \<le> length (drop (2 * i) digest)" using Suc.prems by simp
  then obtain c d rest where d: "drop (2 * i) digest = c # d # rest"
    by (cases "drop (2 * i) digest"; cases "tl (drop (2 * i) digest)") auto
  have r: "drop (2 * Suc i) digest = rest" using d by (metis drop_Suc_Cons drop_drop mult_Suc_right numeral_2_eq_2 drop0 add.commute)
  have "hex (take (Suc i) out) = ?h @ [hex_digit (unat (out ! i) div 16), hex_digit (unat (out ! i) mod 16)]"
    using Suc.prems by (simp add: take_Suc_conv_app_nth hex_def)
  moreover have "utils_hb2hex (drop_bit 4 (out ! i)) = hex_digit (unat (out ! i) div 16)"
  proof -
    have "unat (out ! i) div 16 < 16" using unsigned_less [of "out ! i", where ?'a = nat] by simp
    moreover have "unat (drop_bit 4 (out ! i)) = unat (out ! i) div 16"
      by (simp add: drop_bit_eq_div unat_div)
    ultimately show ?thesis by (simp only: utils_hb2hex_eq mod_less)
  qed
  ultimately show ?case
    using Suc d h r by (simp add: rd_def wr_def utils_hb2hex_eq list_update_append mult.commute)
qed

lemma key_pad_eq:
  "length key \<le> 64 \<Longrightarrow> key_pad (key @ post) (int (length key)) c =
    Some (map (\<lambda>b. b XOR c) (key @ replicate (64 - length key) 0))"
  by (simp add: key_pad_def rd_bytes_def wr_bytes_def overwrite_def)

context stream_hash begin

lemma utils_hmac_eq:
  assumes size: "\<And>m. length (digest m) = n" and n: "n < 2 ^ 32"
    and key: "length key \<le> 64" and m: "length m < 2 ^ 31" and d: "2 * n \<le> length d"
  shows "utils_hmac starts update finish n (Some (m @ mp)) (int (length m)) (Some d) (Some (key @ kp)) (int (length key)) =
    Some (Some (hex (hmac digest key m) @ drop (2 * n) d))"
proof -
  let ?k = "key @ replicate (64 - length key) 0"
  let ?i = "map (\<lambda>b. b XOR 0x36) ?k" and ?o = "map (\<lambda>b. b XOR 0x5c) ?k"
  have len: "length ?i = 64" "length ?o = 64" using key by simp_all
  have small: "length ?i < 2 ^ 32" "length ?o < 2 ^ 32" "length m < 2 ^ 32" "length (digest (?i @ m)) < 2 ^ 32"
    using key m n by (simp_all add: size)
  have inner: "do { c \<leftarrow> update starts ?i 64; c \<leftarrow> update c (m @ mp) (length m); finish c } = Some (digest (?i @ m))"
    using two_updates [OF small(1,3), of "[]" mp] unfolding len append_Nil2 .
  have outer: "do { c \<leftarrow> update starts ?o 64; c \<leftarrow> update c (digest (?i @ m)) n; finish c } = Some (digest (?o @ digest (?i @ m)))"
    using two_updates [OF small(2,4), of "[]" "[]"] unfolding len size append_Nil2 .
  have spec: "hmac digest key m = digest (?o @ digest (?i @ m))"
    using key by (simp add: hmac_def Let_def)
  have hex: "hex_digest n (digest x) d = Some (hex (digest x) @ drop (2 * n) d)" for x
    using hex_digest_eq [of n "digest x" d] size d by simp
  from inner obtain c1 c2 where i: "update starts ?i 64 = Some c1" "update c1 (m @ mp) (length m) = Some c2"
    "finish c2 = Some (digest (?i @ m))" by (auto simp: bind_eq_Some_conv)
  from outer obtain c3 c4 where o: "update starts ?o 64 = Some c3" "update c3 (digest (?i @ m)) n = Some c4"
    "finish c4 = Some (digest (?o @ digest (?i @ m)))" by (auto simp: bind_eq_Some_conv)
  show ?thesis
    unfolding utils_hmac_def spec using key
    by (simp add: key_pad_eq i o hex del: map_append)
qed

end
lemma length_md5: "length (md5 m) = 16"
  by (simp add: md5_def little_endian_def split: prod.split)

lemma length_sha1: "length (sha1 m) = 20"
  by (simp add: sha1_def big_endian_def split: prod.split)

text \<open>
  Property C19: both functions write the HMAC of the message as RFC 2104 defines it, in lower-case
  hexadecimal digits, to the start of \<open>digest\<close>, for every key of at most 64 bytes. For a longer key,
  which RFC 2104 hashes first, they return with \<open>digest\<close> as it was.
\<close>

theorem utils_hmac_correct:
  assumes "length m < 2 ^ 31" and "length key < 2 ^ 31" and "40 \<le> length d"
  shows "utils_hmac_md5 (Some (m @ mp)) (int (length m)) (Some d) (Some (key @ kp)) (int (length key)) =
      Some (Some (if length key \<le> 64 then hex (hmac md5 key m) @ drop 32 d else d)) \<and>
    utils_hmac_sha1 (Some (m @ mp)) (int (length m)) (Some d) (Some (key @ kp)) (int (length key)) =
      Some (Some (if length key \<le> 64 then hex (hmac sha1 key m) @ drop 40 d else d))"
proof
  show "utils_hmac_md5 (Some (m @ mp)) (int (length m)) (Some d) (Some (key @ kp)) (int (length key)) =
      Some (Some (if length key \<le> 64 then hex (hmac md5 key m) @ drop 32 d else d))"
    using md5.utils_hmac_eq [OF length_md5, of key m d mp kp] assms
    by (cases "length key \<le> 64") (simp_all add: utils_hmac_md5_def utils_hmac_def)
  show "utils_hmac_sha1 (Some (m @ mp)) (int (length m)) (Some d) (Some (key @ kp)) (int (length key)) =
      Some (Some (if length key \<le> 64 then hex (hmac sha1 key m) @ drop 40 d else d))"
    using sha1.utils_hmac_eq [OF length_sha1, of key m d mp kp] assms
    by (cases "length key \<le> 64") (simp_all add: utils_hmac_sha1_def utils_hmac_def)
qed

theorem utils_hmac_correct_witness:
  "utils_hmac_sha1 (Some [0x61]) 1 (Some (replicate 40 0)) (Some [0x6B]) 1 = Some (Some (hex (hmac sha1 [0x6B] [0x61])))"
  using utils_hmac_correct [of "[0x61]" "[0x6B]" "replicate 40 0" "[]" "[]"] by simp

end
