(* ===== verification/Comm_Manager.thy ===== *)
theory Comm_Manager
  imports Utils_Timer Cloud_Datapoint
begin

text \<open>
  The connection of the device to the cloud: sdk/comm-if/iotx_comm_if_api.c with the events of
  sdk/system/iotx_system_api.c. The manager drives one of two back ends through five functions
  (\<open>iotx_comm_connect\<close> and so on), keeps the state of the connection, reports its changes to the
  application and reconnects after a loss.

  The back end, the clock, the random generator and the application's handler are the record \<open>e\<close>
  over a world \<open>w\<close>. Locks are not modelled: one thread drives the SDK, and the handler does not call
  back into the manager. \<open>events\<close> is the history of all events given to \<open>IOT_SYSTEM_NotifyEvent\<close>.
\<close>

section \<open>State\<close>

datatype iotx_network_state_t = IOTX_NETWORK_STATE_DISCONNECTED | IOTX_NETWORK_STATE_CONNECTED

datatype iotx_conn_state_t =
    IOTX_CONN_STATE_INVALID
  | IOTX_CONN_STATE_INITIALIZED
  | IOTX_CONN_STATE_CONNECTED
  | IOTX_CONN_STATE_DISCONNECTED
  | IOTX_CONN_STATE_DISCONNECTED_RECONNECTING

datatype iotx_conn_send_t = IOTX_CONN_SEND_DATA | IOTX_CONN_SEND_ACTION_REPLY

datatype iotx_ota_reply_t =
    IOTX_OTA_REPLY_PROGRESS
  | IOTX_OTA_REPLY_FETCH_FAILED
  | IOTX_OTA_REPLY_FETCH_SUCCESS
  | IOTX_OTA_REPLY_BURN_FAILED
  | IOTX_OTA_REPLY_BURN_SUCCESS

text \<open>The events with their parameters; the Boolean is \<open>ep_..._connected\<close>.\<close>

datatype iotx_system_event_t =
    event_network_status bool
  | event_cloud_status bool
  | event_cloud_comm_data bytes
  | event_cloud_comm_ota bytes

record iotx_conn_info_t =
  conninfo_inited :: bool
  network_state :: iotx_network_state_t
  conn_state :: iotx_conn_state_t
  conn_reconnect_next_time :: iotx_time_t
  conn_reconnect_time_interval_ms :: u32
  eventHandler :: nat
  events :: "iotx_system_event_t list"

type_synonym 'w comm = "iotx_conn_info_t \<times> 'w"

text \<open>
  \<open>tr_send\<close> takes the memory behind the data pointer and the length. \<open>define_defaults\<close> defines the
  two default data points. \<open>send_automatic\<close> is \<open>IOT_DataPoint_SendDatapointAutomatic\<close>, which calls
  \<open>IOT_Comm_SendData\<close> of the manager: it is given that function.
\<close>

record 'w comm_env =
  tr_connect :: "'w \<Rightarrow> (int \<times> 'w) option"
  tr_isconnected :: "'w \<Rightarrow> (bool \<times> 'w) option"
  tr_disconnect :: "'w \<Rightarrow> (int \<times> 'w) option"
  tr_send :: "iotx_conn_send_t \<Rightarrow> bytes \<Rightarrow> u16 \<Rightarrow> 'w \<Rightarrow> (int \<times> 'w) option"
  tr_yield :: "'w \<Rightarrow> (int \<times> 'w) option"
  call_handler :: "nat \<Rightarrow> iotx_system_event_t \<Rightarrow> 'w \<Rightarrow> 'w"
  comm_uptime :: "'w \<Rightarrow> u32 \<times> 'w"
  comm_random :: "u32 \<Rightarrow> 'w \<Rightarrow> u32 \<times> 'w"
  define_defaults :: "'w \<Rightarrow> 'w option"
  send_automatic :: "(bytes \<Rightarrow> 'w comm \<Rightarrow> (int \<times> 'w comm) option) \<Rightarrow> 'w comm \<Rightarrow> 'w comm option"

abbreviation (input) IOTX_CONN_RECONNECT_INTERVAL_MIN_MS :: u32 where "IOTX_CONN_RECONNECT_INTERVAL_MIN_MS \<equiv> 1000"
abbreviation (input) IOTX_CONN_RECONNECT_INTERVAL_MAX_MS :: u32 where "IOTX_CONN_RECONNECT_INTERVAL_MAX_MS \<equiv> 60000"

section \<open>Events\<close>

definition IOT_SYSTEM_SetEventCallback :: "nat \<Rightarrow> 'w comm \<Rightarrow> 'w comm" where
  "IOT_SYSTEM_SetEventCallback handler c =
     (case c of (s, w) \<Rightarrow> if handler \<noteq> 0 then (s\<lparr>eventHandler := handler\<rparr>, w) else (s, w))"

definition IOT_SYSTEM_NotifyEvent :: "'w comm_env \<Rightarrow> iotx_system_event_t \<Rightarrow> 'w comm \<Rightarrow> 'w comm" where
  "IOT_SYSTEM_NotifyEvent e ev c =
     (case c of (s, w) \<Rightarrow>
        (s\<lparr>events := events s @ [ev]\<rparr>, if eventHandler s \<noteq> 0 then call_handler e (eventHandler s) ev w else w))"

section \<open>The state of the connection\<close>

text \<open>The globals before \<open>main\<close>.\<close>

definition initial_conn_info :: iotx_conn_info_t where
  "initial_conn_info =
     \<lparr>conninfo_inited = False, network_state = IOTX_NETWORK_STATE_DISCONNECTED, conn_state = IOTX_CONN_STATE_INVALID,
      conn_reconnect_next_time = \<lparr>time = 0\<rparr>, conn_reconnect_time_interval_ms = 0, eventHandler = 0, events = []\<rparr>"

definition IOT_Comm_Init :: "'w comm_env \<Rightarrow> 'w comm \<Rightarrow> (int \<times> 'w comm) option" where
  "IOT_Comm_Init e c =
     (case c of (s, w) \<Rightarrow>
        if conninfo_inited s then Some (0, (s, w))
        else do {
          let s = s\<lparr>conn_reconnect_time_interval_ms := 0\<rparr>;
          let s = s\<lparr>conn_state := IOTX_CONN_STATE_INVALID, network_state := IOTX_NETWORK_STATE_DISCONNECTED\<rparr>;
          let s = s\<lparr>conn_reconnect_next_time := the (iotx_time_init (Some (conn_reconnect_next_time s)))\<rparr>;
          w \<leftarrow> define_defaults e w;
          Some (0, (s\<lparr>conninfo_inited := True\<rparr>, w)) })"

definition iotx_conn_info_get :: "'w comm_env \<Rightarrow> 'w comm \<Rightarrow> 'w comm option" where
  "iotx_conn_info_get e c = do { (_, c) \<leftarrow> IOT_Comm_Init e c; Some c }"

definition iotx_get_network_state :: "'w comm_env \<Rightarrow> 'w comm \<Rightarrow> (iotx_network_state_t \<times> 'w comm) option" where
  "iotx_get_network_state e c = do { c \<leftarrow> iotx_conn_info_get e c; Some (network_state (fst c), c) }"

definition iotx_set_network_state :: "'w comm_env \<Rightarrow> iotx_network_state_t \<Rightarrow> 'w comm \<Rightarrow> 'w comm option" where
  "iotx_set_network_state e newState c = do {
     c \<leftarrow> iotx_conn_info_get e c;
     let c = (if network_state (fst c) \<noteq> newState
              then (case newState of
                      IOTX_NETWORK_STATE_DISCONNECTED \<Rightarrow> IOT_SYSTEM_NotifyEvent e (event_network_status False) c
                    | IOTX_NETWORK_STATE_CONNECTED \<Rightarrow> IOT_SYSTEM_NotifyEvent e (event_network_status True) c)
              else c);
     Some (case c of (s, w) \<Rightarrow> (s\<lparr>network_state := newState\<rparr>, w)) }"

definition iotx_get_conn_state :: "'w comm_env \<Rightarrow> 'w comm \<Rightarrow> (iotx_conn_state_t \<times> 'w comm) option" where
  "iotx_get_conn_state e c = do { c \<leftarrow> iotx_conn_info_get e c; Some (conn_state (fst c), c) }"

definition notify_conn_state :: "'w comm_env \<Rightarrow> iotx_conn_state_t \<Rightarrow> 'w comm \<Rightarrow> 'w comm" where
  "notify_conn_state e newState c =
     (case newState of
        IOTX_CONN_STATE_INITIALIZED \<Rightarrow>
          if conn_state (fst c) = IOTX_CONN_STATE_CONNECTED
          then IOT_SYSTEM_NotifyEvent e (event_cloud_status False) c else c
      | IOTX_CONN_STATE_DISCONNECTED \<Rightarrow>
          if conn_state (fst c) = IOTX_CONN_STATE_CONNECTED
          then IOT_SYSTEM_NotifyEvent e (event_cloud_status False) c else c
      | IOTX_CONN_STATE_CONNECTED \<Rightarrow> IOT_SYSTEM_NotifyEvent e (event_cloud_status True) c
      | _ \<Rightarrow> c)"

definition iotx_set_conn_state :: "'w comm_env \<Rightarrow> iotx_conn_state_t \<Rightarrow> 'w comm \<Rightarrow> 'w comm option" where
  "iotx_set_conn_state e newState c = do {
     c \<leftarrow> iotx_conn_info_get e c;
     let c = (if conn_state (fst c) \<noteq> newState then notify_conn_state e newState c else c);
     Some (case c of (s, w) \<Rightarrow> (s\<lparr>conn_state := newState\<rparr>, w)) }"

definition IOT_Network_IsConnected :: "'w comm_env \<Rightarrow> 'w comm \<Rightarrow> (bool \<times> 'w comm) option" where
  "IOT_Network_IsConnected e c = do {
     (st, c) \<leftarrow> iotx_get_network_state e c;
     if st \<noteq> IOTX_NETWORK_STATE_CONNECTED
     then do { c \<leftarrow> iotx_set_conn_state e IOTX_CONN_STATE_DISCONNECTED c; Some (False, c) }
     else Some (True, c) }"

definition IOT_Network_SetState :: "'w comm_env \<Rightarrow> iotx_network_state_t \<Rightarrow> 'w comm \<Rightarrow> 'w comm option" where
  "IOT_Network_SetState e st c = iotx_set_network_state e st c"

text \<open>A call of the back end.\<close>

definition on_world :: "('w \<Rightarrow> ('a \<times> 'w) option) \<Rightarrow> 'w comm \<Rightarrow> ('a \<times> 'w comm) option" where
  "on_world f c = (case c of (s, w) \<Rightarrow> do { (a, w) \<leftarrow> f w; Some (a, (s, w)) })"

definition IOT_Comm_Connect :: "'w comm_env \<Rightarrow> 'w comm \<Rightarrow> 'w comm option" where
  "IOT_Comm_Connect e c = do {
     (up, c) \<leftarrow> IOT_Network_IsConnected e c;
     if \<not> up then Some c
     else do {
       (st, c) \<leftarrow> iotx_get_conn_state e c;
       if st = IOTX_CONN_STATE_CONNECTED then Some c
       else do {
         (rst, c) \<leftarrow> on_world (tr_connect e) c;
         if rst < 0 then iotx_set_conn_state e IOTX_CONN_STATE_DISCONNECTED c
         else iotx_set_conn_state e IOTX_CONN_STATE_CONNECTED c } } }"

definition IOT_Comm_IsConnected :: "'w comm_env \<Rightarrow> 'w comm \<Rightarrow> (bool \<times> 'w comm) option" where
  "IOT_Comm_IsConnected e c = do {
     (up, c) \<leftarrow> IOT_Network_IsConnected e c;
     if \<not> up then Some (False, c)
     else do {
       (st, c) \<leftarrow> iotx_get_conn_state e c;
       if st \<noteq> IOTX_CONN_STATE_CONNECTED then Some (False, c)
       else do {
         (rst, c) \<leftarrow> on_world (tr_isconnected e) c;
         c \<leftarrow> (if rst then iotx_set_conn_state e IOTX_CONN_STATE_CONNECTED c
              else iotx_set_conn_state e IOTX_CONN_STATE_DISCONNECTED c);
         Some (rst, c) } } }"

definition IOT_Comm_Disconnect :: "'w comm_env \<Rightarrow> 'w comm \<Rightarrow> 'w comm option" where
  "IOT_Comm_Disconnect e c = do {
     c \<leftarrow> iotx_set_conn_state e IOTX_CONN_STATE_INITIALIZED c;
     (_, c) \<leftarrow> on_world (tr_disconnect e) c;
     Some c }"

section \<open>Sending\<close>

definition IOT_Comm_SendData :: "'w comm_env \<Rightarrow> bytes \<Rightarrow> u16 \<Rightarrow> 'w comm \<Rightarrow> (int \<times> 'w comm) option" where
  "IOT_Comm_SendData e data datalen c = do {
     (up, c) \<leftarrow> IOT_Network_IsConnected e c;
     if \<not> up then Some (-1, c)
     else do {
       (st, c) \<leftarrow> iotx_get_conn_state e c;
       if st \<noteq> IOTX_CONN_STATE_CONNECTED then Some (-1, c)
       else do {
         (rst, c) \<leftarrow> on_world (tr_send e IOTX_CONN_SEND_DATA data datalen) c;
         c \<leftarrow> (if rst < 0 then iotx_set_conn_state e IOTX_CONN_STATE_DISCONNECTED c else Some c);
         Some (rst, c) } } }"

definition reply_text :: "u8 \<Rightarrow> iotx_ota_reply_t \<Rightarrow> u8 \<Rightarrow> bytes" where
  "reply_text fileType reply progress =
     literal ''{\"type\":\"'' @ decimal (unat fileType) @
     (case reply of
        IOTX_OTA_REPLY_PROGRESS \<Rightarrow> literal ''\",\"status\":\"10\",\"progress\":\"'' @ decimal (unat progress) @ literal ''\"}''
      | IOTX_OTA_REPLY_FETCH_FAILED \<Rightarrow> literal ''\",\"status\":\"11\"}''
      | IOTX_OTA_REPLY_FETCH_SUCCESS \<Rightarrow> literal ''\",\"status\":\"15\"}''
      | IOTX_OTA_REPLY_BURN_FAILED \<Rightarrow> literal ''\",\"status\":\"13\"}''
      | IOTX_OTA_REPLY_BURN_SUCCESS \<Rightarrow> literal ''\",\"status\":\"14\"}'')"

text \<open>\<open>snprintf\<close> into \<open>temp\<close> keeps at most 127 characters. The result is the length and the buffer.\<close>

definition iotx_get_action_reply :: "bytes \<Rightarrow> u16 \<Rightarrow> u8 \<Rightarrow> iotx_ota_reply_t \<Rightarrow> u8 \<Rightarrow> (int \<times> bytes) option" where
  "iotx_get_action_reply buf buflen fileType reply progress =
     (let temp = take 127 (reply_text fileType reply progress);
          templen = length temp
      in if templen \<ge> unat buflen then Some (-1, buf)
         else do {
           buf \<leftarrow> wr_bytes buf 0 (replicate (unat buflen) 0);
           buf \<leftarrow> wr_bytes buf 0 temp;
           Some (int templen, buf) })"

definition IOT_Comm_SendActionReply :: "'w comm_env \<Rightarrow> u8 \<Rightarrow> iotx_ota_reply_t \<Rightarrow> u8 \<Rightarrow> 'w comm \<Rightarrow> (int \<times> 'w comm) option" where
  "IOT_Comm_SendActionReply e fileType reply progress c = do {
     (up, c) \<leftarrow> IOT_Network_IsConnected e c;
     if \<not> up then Some (-1, c)
     else do {
       (st, c) \<leftarrow> iotx_get_conn_state e c;
       if st \<noteq> IOTX_CONN_STATE_CONNECTED then Some (-1, c)
       else do {
         (templen, temp) \<leftarrow> iotx_get_action_reply (replicate 128 0) 128 fileType reply progress;
         if templen \<le> 0 then Some (-1, c)
         else do {
           (rst, c) \<leftarrow> on_world (tr_send e IOTX_CONN_SEND_ACTION_REPLY temp (of_int templen)) c;
           c \<leftarrow> (if rst < 0 then iotx_set_conn_state e IOTX_CONN_STATE_DISCONNECTED c else Some c);
           Some (rst, c) } } } }"

section \<open>Reconnecting\<close>

definition reconnect_backoff :: "u32 \<Rightarrow> u32" where
  "reconnect_backoff i =
     (if IOTX_CONN_RECONNECT_INTERVAL_MAX_MS > i then i * 2 else IOTX_CONN_RECONNECT_INTERVAL_MIN_MS)"

definition reconnect_delay :: "u32 \<Rightarrow> u32 \<Rightarrow> u32" where
  "reconnect_delay i r =
     (let interval_ms = i + r in
      if IOTX_CONN_RECONNECT_INTERVAL_MAX_MS < interval_ms then IOTX_CONN_RECONNECT_INTERVAL_MAX_MS else interval_ms)"

text \<open>\<open>utils_time_countdown_ms\<close> of the time of the next attempt.\<close>

definition arm_reconnect :: "'w comm_env \<Rightarrow> u32 \<Rightarrow> 'w comm \<Rightarrow> 'w comm" where
  "arm_reconnect e ms c =
     (case c of (s, w) \<Rightarrow> let (now, w) = comm_uptime e w in
        (s\<lparr>conn_reconnect_next_time := the (utils_time_countdown_ms now (Some (conn_reconnect_next_time s)) ms)\<rparr>, w))"

definition iotx_conn_handle_reconnect :: "'w comm_env \<Rightarrow> 'w comm \<Rightarrow> (int \<times> 'w comm) option" where
  "iotx_conn_handle_reconnect e c = do {
     (s, w) \<leftarrow> iotx_conn_info_get e c;
     let (now, w) = comm_uptime e w;
     if \<not> utils_time_is_expired now (Some (conn_reconnect_next_time s)) then Some (-1, (s, w))
     else do {
       (rc, w) \<leftarrow> tr_connect e w;
       if rc = 0 then do { c \<leftarrow> iotx_set_conn_state e IOTX_CONN_STATE_CONNECTED (s, w); Some (0, c) }
       else do {
         let i = reconnect_backoff (conn_reconnect_time_interval_ms s);
         let (r, w) = comm_random e i w;
         Some (rc, arm_reconnect e (reconnect_delay i r) (s\<lparr>conn_reconnect_time_interval_ms := i\<rparr>, w)) } } }"

definition yield_reconnect :: "'w comm_env \<Rightarrow> 'w comm \<Rightarrow> (int \<times> 'w comm) option" where
  "yield_reconnect e c = do {
     (connState, c) \<leftarrow> iotx_get_conn_state e c;
     if connState = IOTX_CONN_STATE_DISCONNECTED_RECONNECTING then do {
       (rc, (s, w)) \<leftarrow> iotx_conn_handle_reconnect e c;
       Some (0, (if rc \<noteq> 0 then s else s\<lparr>conn_reconnect_time_interval_ms := IOTX_CONN_RECONNECT_INTERVAL_MAX_MS\<rparr>, w)) }
     else if connState = IOTX_CONN_STATE_DISCONNECTED then do {
       let c = (case c of (s, w) \<Rightarrow> (s\<lparr>conn_reconnect_time_interval_ms := IOTX_CONN_RECONNECT_INTERVAL_MIN_MS\<rparr>, w));
       let c = arm_reconnect e (conn_reconnect_time_interval_ms (fst c)) c;
       c \<leftarrow> iotx_set_conn_state e IOTX_CONN_STATE_DISCONNECTED_RECONNECTING c;
       Some (0, c) }
     else Some (0, c) }"

definition IOT_Comm_Yield :: "'w comm_env \<Rightarrow> 'w comm \<Rightarrow> (int \<times> 'w comm) option" where
  "IOT_Comm_Yield e c = do {
     c \<leftarrow> iotx_conn_info_get e c;
     (up, c) \<leftarrow> IOT_Network_IsConnected e c;
     if \<not> up then Some (-1, c)
     else do {
       (_, c) \<leftarrow> on_world (tr_yield e) c;
       (conn, c) \<leftarrow> IOT_Comm_IsConnected e c;
       if conn then do {
         c \<leftarrow> send_automatic e (\<lambda>data c. IOT_Comm_SendData e data (of_nat (length data)) c) c;
         Some (0, c) }
       else yield_reconnect e c } }"

definition IOT_SYSTEM_Loop :: "'w comm_env \<Rightarrow> 'w comm \<Rightarrow> 'w comm option" where
  "IOT_SYSTEM_Loop e c = do { (_, c) \<leftarrow> IOT_Comm_Yield e c; Some c }"

section \<open>The data points as the sender of a yield\<close>

text \<open>
  The world of the data points while they are sent: the manager and the rest, or \<open>None\<close> after an
  undefined step. What the back end does to the table of data points while it sends is dropped; it
  does nothing to it.
\<close>

definition lift_world :: "('v \<Rightarrow> 'a \<times> 'v) \<Rightarrow> 'a \<Rightarrow> ('s \<times> 'v) option \<Rightarrow> 'a \<times> ('s \<times> 'v) option" where
  "lift_world f d u =
     (case u of None \<Rightarrow> (d, None) | Some (s, v) \<Rightarrow> let (a, v) = f v in (a, Some (s, v)))"

definition sending_env ::
    "('d, 'v) dp_env \<Rightarrow> (bytes \<Rightarrow> ('d dp_state \<times> 'v) comm \<Rightarrow> (int \<times> ('d dp_state \<times> 'v) comm) option) \<Rightarrow> 'd dp_state \<Rightarrow>
     ('d, 'v comm option) dp_env" where
  "sending_env de send dps =
     \<lparr>dp_fp = dp_fp de,
      malloc_conf = lift_world (malloc_conf de) None,
      malloc_ok = (\<lambda>n. lift_world (malloc_ok de n) False),
      comm_send_data = (\<lambda>data u. case u of None \<Rightarrow> (0, None)
        | Some (s, v) \<Rightarrow> (case send data (s, (dps, v)) of
              None \<Rightarrow> (0, None) | Some (rc, (s, (_, v))) \<Rightarrow> (rc, Some (s, v)))),
      dp_uptime = lift_world (dp_uptime de) 0,
      system_reboot = map_option (\<lambda>(s, v). (s, system_reboot de v))\<rparr>"

definition automatic_datapoints ::
    "('d, 'v) dp_env \<Rightarrow> (bytes \<Rightarrow> ('d dp_state \<times> 'v) comm \<Rightarrow> (int \<times> ('d dp_state \<times> 'v) comm) option) \<Rightarrow>
     ('d dp_state \<times> 'v) comm \<Rightarrow> ('d dp_state \<times> 'v) comm option" where
  "automatic_datapoints de send c =
     (case c of (s, (dps, v)) \<Rightarrow>
        case IOT_DataPoint_SendDatapointAutomatic (sending_env de send dps) dps (Some (s, v)) of
          Some (_, dps, Some (s, v)) \<Rightarrow> Some (s, (dps, v))
        | _ \<Rightarrow> None)"

definition default_datapoints :: "('d, 'v) dp_env \<Rightarrow> 'd dp_state \<times> 'v \<Rightarrow> ('d dp_state \<times> 'v) option" where
  "default_datapoints de c =
     (case c of (dps, v) \<Rightarrow> do {
        (dps, v) \<leftarrow> IOT_DataPoint_DefineBool de DPID_DEFAULT_BOOL_RESET DP_PERMISSION_UP_DOWN False dps v;
        IOT_DataPoint_DefineBool de DPID_DEFAULT_BOOL_GETALLDATAPOINT DP_PERMISSION_UP_DOWN False dps v })"

definition with_datapoints :: "('d, 'v) dp_env \<Rightarrow> ('d dp_state \<times> 'v) comm_env \<Rightarrow> ('d dp_state \<times> 'v) comm_env" where
  "with_datapoints de be = be\<lparr>define_defaults := default_datapoints de, send_automatic := automatic_datapoints de\<rparr>"

section \<open>The invariant\<close>

definition cloud_events :: "iotx_conn_info_t \<Rightarrow> bool list" where
  "cloud_events s = concat (map (\<lambda>ev. case ev of event_cloud_status b \<Rightarrow> [b] | _ \<Rightarrow> []) (events s))"

definition network_events :: "iotx_conn_info_t \<Rightarrow> bool list" where
  "network_events s = concat (map (\<lambda>ev. case ev of event_network_status b \<Rightarrow> [b] | _ \<Rightarrow> []) (events s))"

text \<open>Connected and disconnected in turn, beginning with connected.\<close>

definition in_turn :: "bool list \<Rightarrow> bool \<Rightarrow> bool" where
  "in_turn bs up \<longleftrightarrow> bs = map even [0..<length bs] \<and> (up \<longleftrightarrow> odd (length bs))"

lemma in_turn_snoc: "in_turn bs (\<not> b) \<Longrightarrow> in_turn (bs @ [b]) b"
  by (auto simp: in_turn_def)

definition comm_inv :: "iotx_conn_info_t \<Rightarrow> bool" where
  "comm_inv s \<longleftrightarrow>
     in_turn (cloud_events s) (conn_state s = IOTX_CONN_STATE_CONNECTED) \<and>
     in_turn (network_events s) (network_state s = IOTX_NETWORK_STATE_CONNECTED) \<and>
     (conn_state s = IOTX_CONN_STATE_DISCONNECTED_RECONNECTING \<longrightarrow>
       (\<exists>k \<le> 6. conn_reconnect_time_interval_ms s = 1000 * 2 ^ k)) \<and>
     (\<not> conninfo_inited s \<longrightarrow> events s = [])"

lemma comm_inv_initial: "comm_inv initial_conn_info"
  by (simp add: comm_inv_def initial_conn_info_def in_turn_def cloud_events_def network_events_def)

text \<open>What every step keeps, as a relation, so that it can be used for the sender of a yield.\<close>

definition keeps_inv :: "iotx_conn_info_t \<Rightarrow> iotx_conn_info_t \<Rightarrow> bool" where
  "keeps_inv s s' \<longleftrightarrow> (comm_inv s \<longrightarrow> comm_inv s')"

named_theorems comm_defs "operations of the connection manager"

lemma comm_inv_get: "iotx_conn_info_get e (s, w) = Some (s', w') \<Longrightarrow> comm_inv s \<Longrightarrow> comm_inv s' \<and> conninfo_inited s'"
  by (auto simp: iotx_conn_info_get_def IOT_Comm_Init_def Let_def bind_eq_Some_conv comm_inv_def in_turn_def
      cloud_events_def network_events_def split: if_splits)

lemma get_inited [simp]: "conninfo_inited s \<Longrightarrow> iotx_conn_info_get e (s, w) = Some (s, w)"
  by (simp add: iotx_conn_info_get_def IOT_Comm_Init_def)

lemma events_snoc [simp]:
  "cloud_events (s\<lparr>events := evs @ [event_cloud_status b]\<rparr>) = cloud_events (s\<lparr>events := evs\<rparr>) @ [b]"
  "cloud_events (s\<lparr>events := evs @ [event_network_status b]\<rparr>) = cloud_events (s\<lparr>events := evs\<rparr>)"
  "network_events (s\<lparr>events := evs @ [event_cloud_status b]\<rparr>) = network_events (s\<lparr>events := evs\<rparr>)"
  "network_events (s\<lparr>events := evs @ [event_network_status b]\<rparr>) = network_events (s\<lparr>events := evs\<rparr>) @ [b]"
  by (simp_all add: cloud_events_def network_events_def)

lemma events_same [simp]:
  "cloud_events (s\<lparr>events := events s\<rparr>) = cloud_events s" "network_events (s\<lparr>events := events s\<rparr>) = network_events s"
  "cloud_events (s\<lparr>conn_state := x\<rparr>) = cloud_events s" "network_events (s\<lparr>conn_state := x\<rparr>) = network_events s"
  "cloud_events (s\<lparr>network_state := y\<rparr>) = cloud_events s" "network_events (s\<lparr>network_state := y\<rparr>) = network_events s"
  "cloud_events (s\<lparr>conn_reconnect_time_interval_ms := i\<rparr>) = cloud_events s"
  "network_events (s\<lparr>conn_reconnect_time_interval_ms := i\<rparr>) = network_events s"
  "cloud_events (s\<lparr>conn_reconnect_next_time := t\<rparr>) = cloud_events s"
  "network_events (s\<lparr>conn_reconnect_next_time := t\<rparr>) = network_events s"
  "cloud_events (s\<lparr>eventHandler := h\<rparr>) = cloud_events s" "network_events (s\<lparr>eventHandler := h\<rparr>) = network_events s"
  by (simp_all add: cloud_events_def network_events_def)

text \<open>
  Every operation starts with \<open>iotx_conn_info_get\<close>, which changes nothing the second time: it is enough
  to look at initialised states.
\<close>

lemma get_again: "iotx_conn_info_get e c = Some c' \<Longrightarrow> iotx_conn_info_get e c' = Some c'"
  by (cases c) (auto simp: iotx_conn_info_get_def IOT_Comm_Init_def Let_def bind_eq_Some_conv split: if_splits)

lemma set_network_inited:
  "conninfo_inited s \<Longrightarrow> iotx_set_network_state e st (s, w) = Some
    (s\<lparr>events := events s @ (if network_state s = st then [] else [event_network_status (st = IOTX_NETWORK_STATE_CONNECTED)]),
       network_state := st\<rparr>,
     if network_state s = st \<or> eventHandler s = 0 then w
     else call_handler e (eventHandler s) (event_network_status (st = IOTX_NETWORK_STATE_CONNECTED)) w)"
  by (cases st) (auto simp: iotx_set_network_state_def IOT_SYSTEM_NotifyEvent_def)

definition conn_change :: "iotx_conn_state_t \<Rightarrow> iotx_conn_info_t \<Rightarrow> iotx_system_event_t list" where
  "conn_change st s =
     (if conn_state s \<noteq> IOTX_CONN_STATE_CONNECTED \<and> st = IOTX_CONN_STATE_CONNECTED then [event_cloud_status True]
      else if conn_state s = IOTX_CONN_STATE_CONNECTED \<and> (st = IOTX_CONN_STATE_DISCONNECTED \<or> st = IOTX_CONN_STATE_INITIALIZED)
      then [event_cloud_status False] else [])"

lemma set_conn_inited:
  "conninfo_inited s \<Longrightarrow> iotx_set_conn_state e st (s, w) = Some
    (s\<lparr>events := events s @ conn_change st s, conn_state := st\<rparr>,
     if eventHandler s = 0 then w else fold (call_handler e (eventHandler s)) (conn_change st s) w)"
  by (cases st) (auto simp: iotx_set_conn_state_def notify_conn_state_def conn_change_def IOT_SYSTEM_NotifyEvent_def)

lemma is_connected_inited:
  "conninfo_inited s \<Longrightarrow> IOT_Network_IsConnected e (s, w) =
    (if network_state s = IOTX_NETWORK_STATE_CONNECTED then Some (True, (s, w))
     else Some (False, (s\<lparr>events := events s @ conn_change IOTX_CONN_STATE_DISCONNECTED s, conn_state := IOTX_CONN_STATE_DISCONNECTED\<rparr>,
       if eventHandler s = 0 then w else fold (call_handler e (eventHandler s)) (conn_change IOTX_CONN_STATE_DISCONNECTED s) w)))"
  by (simp add: IOT_Network_IsConnected_def iotx_get_network_state_def set_conn_inited)

lemmas comm_inited = set_network_inited set_conn_inited is_connected_inited iotx_get_network_state_def iotx_get_conn_state_def

lemma inv_set_conn:
  assumes "comm_inv s" and "st \<noteq> IOTX_CONN_STATE_DISCONNECTED_RECONNECTING \<and> st \<noteq> IOTX_CONN_STATE_INVALID \<or>
    conn_state s = IOTX_CONN_STATE_DISCONNECTED \<and> conn_reconnect_time_interval_ms s = 1000"
    and "conninfo_inited s"
  shows "comm_inv (s\<lparr>events := events s @ conn_change st s, conn_state := st\<rparr>)"
proof -
  have "\<exists>k \<le> (6 :: nat). (1000 :: u32) = 1000 * 2 ^ k" by (intro exI [of _ 0]) simp
  with assms show ?thesis
    by (cases st) (auto simp: comm_inv_def conn_change_def intro: in_turn_snoc)
qed

lemma inv_set_network:
  assumes "comm_inv s" and "conninfo_inited s"
  shows "comm_inv (s\<lparr>events := events s @ (if network_state s = st then [] else [event_network_status (st = IOTX_NETWORK_STATE_CONNECTED)]),
       network_state := st\<rparr>)"
  using assms by (cases st; cases "network_state s") (auto simp: comm_inv_def intro: in_turn_snoc)

lemmas comm_ops = IOT_Network_SetState_def iotx_set_network_state_def IOT_Network_IsConnected_def IOT_Comm_Connect_def
  IOT_Comm_IsConnected_def IOT_Comm_Disconnect_def iotx_set_conn_state_def IOT_Comm_SendData_def IOT_Comm_SendActionReply_def
  IOT_Comm_Yield_def iotx_get_network_state_def

lemma get_first:
  "IOT_Network_SetState e st c = iotx_conn_info_get e c \<bind> IOT_Network_SetState e st"
  "IOT_Network_IsConnected e c = iotx_conn_info_get e c \<bind> IOT_Network_IsConnected e"
  "IOT_Comm_Connect e c = iotx_conn_info_get e c \<bind> IOT_Comm_Connect e"
  "IOT_Comm_IsConnected e c = iotx_conn_info_get e c \<bind> IOT_Comm_IsConnected e"
  "IOT_Comm_Disconnect e c = iotx_conn_info_get e c \<bind> IOT_Comm_Disconnect e"
  "IOT_Comm_SendData e data n c = iotx_conn_info_get e c \<bind> IOT_Comm_SendData e data n"
  "IOT_Comm_SendActionReply e ft reply pr c = iotx_conn_info_get e c \<bind> IOT_Comm_SendActionReply e ft reply pr"
  "IOT_Comm_Yield e c = iotx_conn_info_get e c \<bind> IOT_Comm_Yield e"
  by (cases "iotx_conn_info_get e c"; simp add: comm_ops get_again)+

lemma via_get:
  assumes "f c = iotx_conn_info_get e c \<bind> f" and "f c = Some r" and "comm_inv (fst c)"
  obtains c1 where "f c1 = Some r" and "comm_inv (fst c1)" and "conninfo_inited (fst c1)"
proof -
  obtain s1 w1 where 1: "iotx_conn_info_get e c = Some (s1, w1)" "f (s1, w1) = Some r"
    using assms(1,2) by (cases "iotx_conn_info_get e c") auto
  with comm_inv_get [of e "fst c" "snd c" s1 w1] assms(3) that [of "(s1, w1)"] show ?thesis by simp
qed

definition good :: "iotx_conn_info_t \<Rightarrow> bool" where
  "good s \<longleftrightarrow> comm_inv s \<and> conninfo_inited s"

lemma good_set_conn:
  "good s \<Longrightarrow> st \<noteq> IOTX_CONN_STATE_DISCONNECTED_RECONNECTING \<Longrightarrow> st \<noteq> IOTX_CONN_STATE_INVALID \<Longrightarrow>
    iotx_set_conn_state e st (s, w) = Some (s', w') \<Longrightarrow> good s'"
  using inv_set_conn [of s st] by (auto simp: good_def set_conn_inited)

lemma good_network:
  "good s \<Longrightarrow> IOT_Network_SetState e st (s, w) = Some (s', w') \<Longrightarrow> good s'"
  using inv_set_network [of s st] by (auto simp: good_def set_network_inited IOT_Network_SetState_def)

lemma good_is_up:
  "good s \<Longrightarrow> IOT_Network_IsConnected e (s, w) = Some (b, (s', w')) \<Longrightarrow> good s'"
  using inv_set_conn [of s IOTX_CONN_STATE_DISCONNECTED] by (auto simp: good_def is_connected_inited split: if_splits)

lemma good_get: "iotx_get_conn_state e (s, w) = Some (st, (s', w')) \<Longrightarrow> good s \<Longrightarrow> good s'"
  by (auto simp: good_def iotx_get_conn_state_def)

lemma on_worldD: "on_world f (s, w) = Some (a, (s', w')) \<Longrightarrow> s' = s \<and> f w = Some (a, w')"
  by (auto simp: on_world_def bind_eq_Some_conv)

lemmas good_set =
  good_set_conn [of _ IOTX_CONN_STATE_CONNECTED, simplified]
  good_set_conn [of _ IOTX_CONN_STATE_DISCONNECTED, simplified]
  good_set_conn [of _ IOTX_CONN_STATE_INITIALIZED, simplified]

lemma good_connect: "good s \<Longrightarrow> IOT_Comm_Connect e (s, w) = Some (s', w') \<Longrightarrow> good s'"
  by (auto simp: IOT_Comm_Connect_def bind_eq_Some_conv dest!: on_worldD split: if_splits;
      blast dest: good_is_up good_get good_set)

lemma good_connected: "good s \<Longrightarrow> IOT_Comm_IsConnected e (s, w) = Some (b, (s', w')) \<Longrightarrow> good s'"
  by (auto simp: IOT_Comm_IsConnected_def bind_eq_Some_conv dest!: on_worldD split: if_splits;
      blast dest: good_is_up good_get good_set)

lemma good_disconnect: "good s \<Longrightarrow> IOT_Comm_Disconnect e (s, w) = Some (s', w') \<Longrightarrow> good s'"
  by (auto simp: IOT_Comm_Disconnect_def bind_eq_Some_conv dest!: on_worldD dest: good_set)

lemma good_send: "good s \<Longrightarrow> IOT_Comm_SendData e data n (s, w) = Some (rc, (s', w')) \<Longrightarrow> good s'"
  by (auto simp: IOT_Comm_SendData_def bind_eq_Some_conv dest!: on_worldD split: if_splits;
      blast dest: good_is_up good_get good_set)

lemma good_reply: "good s \<Longrightarrow> IOT_Comm_SendActionReply e ft reply pr (s, w) = Some (rc, (s', w')) \<Longrightarrow> good s'"
  by (auto simp: IOT_Comm_SendActionReply_def bind_eq_Some_conv dest!: on_worldD split: if_splits;
      blast dest: good_is_up good_get good_set)

text \<open>The interval doubles from one second to 64 and starts again.\<close>

lemma backoff_cycle:
  assumes "i = 1000 * 2 ^ k" and "k \<le> (6 :: nat)"
  shows "reconnect_backoff i = 1000 * 2 ^ (Suc k mod 7)"
proof -
  have "k = 0 \<or> k = 1 \<or> k = 2 \<or> k = 3 \<or> k = 4 \<or> k = 5 \<or> k = 6" using assms(2) by auto
  then show ?thesis using assms(1) by (auto simp: reconnect_backoff_def)
qed

lemma delay_bounds:
  assumes "i = 1000 * 2 ^ k" and "k \<le> (6 :: nat)" and "r \<le> i"
  shows "unat (reconnect_delay i r) = min 60000 (unat i + unat r)"
proof -
  have "k = 0 \<or> k = 1 \<or> k = 2 \<or> k = 3 \<or> k = 4 \<or> k = 5 \<or> k = 6" using assms(2) by auto
  then have i: "i \<le> 64000" using assms(1) by auto
  have "unat i + unat r < 2 ^ 32" using i assms(3) by (simp add: word_le_nat_alt)
  then have s: "unat (i + r) = unat i + unat r" by (simp add: unat_word_ariths)
  then show ?thesis by (simp add: reconnect_delay_def Let_def word_less_nat_alt min_def)
qed

lemma good_arm: "good s \<Longrightarrow> arm_reconnect e ms (s, w) = (s', w') \<Longrightarrow> good s'"
  by (auto simp: arm_reconnect_def good_def comm_inv_def split: prod.splits)

lemma good_interval:
  "good s \<Longrightarrow> k \<le> (6 :: nat) \<Longrightarrow> good (s\<lparr>conn_reconnect_time_interval_ms := 1000 * 2 ^ k\<rparr>)"
  by (auto simp: good_def comm_inv_def)

lemma good_handle_reconnect:
  assumes "good s" and "conn_state s = IOTX_CONN_STATE_DISCONNECTED_RECONNECTING"
    and "iotx_conn_handle_reconnect e (s, w) = Some (rc, (s', w'))"
  shows "good s' \<and> (rc = 0 \<longrightarrow> conn_state s' = IOTX_CONN_STATE_CONNECTED)"
proof -
  from assms(1,2) obtain k where k: "conn_reconnect_time_interval_ms s = 1000 * 2 ^ k" "k \<le> 6" and "conninfo_inited s"
    by (auto simp: good_def comm_inv_def)
  have "Suc k mod 7 \<le> 6" by (simp add: less_Suc_eq_le [symmetric])
  with assms backoff_cycle [OF k] \<open>conninfo_inited s\<close> show ?thesis
    by (auto simp: iotx_conn_handle_reconnect_def bind_eq_Some_conv Let_def set_conn_inited
        dest!: good_arm [rotated] intro: good_interval inv_set_conn simp: good_def split: prod.splits if_splits)
qed

lemma good_yield_reconnect:
  assumes "good s" and "yield_reconnect e (s, w) = Some (rc, (s', w'))"
  shows "good s'"
proof -
  have ini: "conninfo_inited s" and ci: "comm_inv s" using assms(1) by (simp_all add: good_def)
  consider "conn_state s = IOTX_CONN_STATE_DISCONNECTED_RECONNECTING" | "conn_state s = IOTX_CONN_STATE_DISCONNECTED"
    | "conn_state s \<noteq> IOTX_CONN_STATE_DISCONNECTED_RECONNECTING" "conn_state s \<noteq> IOTX_CONN_STATE_DISCONNECTED" by blast
  then show ?thesis
  proof cases
    case 1
    with assms(2) obtain rc1 s1 where h: "iotx_conn_handle_reconnect e (s, w) = Some (rc1, (s1, w'))"
      and s': "s' = (if rc1 \<noteq> 0 then s1 else s1\<lparr>conn_reconnect_time_interval_ms := 60000\<rparr>)"
      by (auto simp: yield_reconnect_def iotx_get_conn_state_def ini bind_eq_Some_conv split: if_splits)
    from good_handle_reconnect [OF assms(1) 1 h] s' show ?thesis
      by (auto simp: good_def comm_inv_def)
  next
    case 2
    with assms(2) ini ci show ?thesis
      by (auto simp: yield_reconnect_def iotx_get_conn_state_def good_def arm_reconnect_def set_conn_inited comm_inv_def
          conn_change_def Let_def intro!: exI [of _ 0] split: prod.splits)
  next
    case 3
    with assms ini show ?thesis by (simp add: yield_reconnect_def iotx_get_conn_state_def)
  qed
qed

section \<open>The contract of the sender\<close>

text \<open>
  Whatever sending with \<open>IOT_Comm_SendData\<close> keeps of the state of the manager, the automatic sender
  keeps: it touches the manager in no other way.
\<close>

locale comm_platform =
  fixes e :: "'w comm_env"
  assumes automatic_only_sends:
    "(\<And>d s w rc s' w'. send d (s, w) = Some (rc, (s', w')) \<Longrightarrow> R s s') \<Longrightarrow> reflp R \<Longrightarrow> transp R \<Longrightarrow>
      send_automatic e send (s, w) = Some (s', w') \<Longrightarrow> R s s'"
begin

lemma good_automatic:
  assumes "send_automatic e (\<lambda>data c. IOT_Comm_SendData e data (of_nat (length data)) c) (s, w) = Some (s', w')" and "good s"
  shows "good s'"
proof -
  let ?R = "\<lambda>s s'. good s \<longrightarrow> good s'"
  have "?R s s'"
    by (rule automatic_only_sends [of _ ?R, OF _ _ _ assms(1)]) (auto dest: good_send simp: reflp_def transp_def)
  with assms(2) show ?thesis by simp
qed

lemma good_yield:
  assumes "good s" and "IOT_Comm_Yield e (s, w) = Some (rc, (s', w'))"
  shows "good s'"
proof -
  have "iotx_conn_info_get e (s, w) = Some (s, w)" using assms(1) by (simp add: good_def)
  with assms show ?thesis
    by (auto simp: IOT_Comm_Yield_def bind_eq_Some_conv dest!: on_worldD split: if_splits;
        blast dest: good_is_up good_connected good_yield_reconnect good_automatic)
qed

end

text \<open>
  The states the application can reach, with any behaviour of the world between the calls. The
  queries change the state too.
\<close>

inductive comm_reachable :: "'w comm_env \<Rightarrow> 'w comm \<Rightarrow> bool" for e where
  start: "comm_reachable e (initial_conn_info, w)"
| init: "comm_reachable e c \<Longrightarrow> IOT_Comm_Init e c = Some (rc, c') \<Longrightarrow> comm_reachable e c'"
| callback: "comm_reachable e c \<Longrightarrow> comm_reachable e (IOT_SYSTEM_SetEventCallback h c)"
| set_network: "comm_reachable e c \<Longrightarrow> IOT_Network_SetState e st c = Some c' \<Longrightarrow> comm_reachable e c'"
| network: "comm_reachable e c \<Longrightarrow> IOT_Network_IsConnected e c = Some (b, c') \<Longrightarrow> comm_reachable e c'"
| connect: "comm_reachable e c \<Longrightarrow> IOT_Comm_Connect e c = Some c' \<Longrightarrow> comm_reachable e c'"
| connected: "comm_reachable e c \<Longrightarrow> IOT_Comm_IsConnected e c = Some (b, c') \<Longrightarrow> comm_reachable e c'"
| disconnect: "comm_reachable e c \<Longrightarrow> IOT_Comm_Disconnect e c = Some c' \<Longrightarrow> comm_reachable e c'"
| send: "comm_reachable e c \<Longrightarrow> IOT_Comm_SendData e data n c = Some (rc, c') \<Longrightarrow> comm_reachable e c'"
| reply: "comm_reachable e c \<Longrightarrow> IOT_Comm_SendActionReply e ft r pr c = Some (rc, c') \<Longrightarrow> comm_reachable e c'"
| loop: "comm_reachable e c \<Longrightarrow> IOT_SYSTEM_Loop e c = Some c' \<Longrightarrow> comm_reachable e c'"
| world: "comm_reachable e (s, w) \<Longrightarrow> comm_reachable e (s, w')"

lemma comm_inv_step:
  assumes "f c = iotx_conn_info_get e c \<bind> f" and "f c = Some r" and "comm_inv (fst c)"
    and "\<And>s w. good s \<Longrightarrow> f (s, w) = Some r \<Longrightarrow> good (fst (g r))"
  shows "comm_inv (fst (g r))"
  using via_get [OF assms(1-3)] assms(4) by (metis good_def prod.collapse)

context comm_platform begin

lemma reachable_comm_inv: "comm_reachable e c \<Longrightarrow> comm_inv (fst c)"
proof (induction rule: comm_reachable.induct)
  case (start w)
  then show ?case by (simp add: comm_inv_initial)
next
  case (init c rc c')
  then show ?case using comm_inv_get [of e "fst c" "snd c" "fst c'" "snd c'"]
    by (simp add: iotx_conn_info_get_def)
next
  case (callback c h)
  then show ?case by (cases c) (simp add: IOT_SYSTEM_SetEventCallback_def comm_inv_def)
next
  case (set_network c st c')
  then show ?case using comm_inv_step [OF get_first(1), of e st c c' "\<lambda>r. r"] good_network
    by (metis prod.collapse)
next
  case (network c b c')
  then show ?case using comm_inv_step [OF get_first(2), of e c "(b, c')" snd] good_is_up by (metis prod.collapse snd_conv)
next
  case (connect c c')
  then show ?case using comm_inv_step [OF get_first(3), of e c c' "\<lambda>r. r"] good_connect by (metis prod.collapse)
next
  case (connected c b c')
  then show ?case using comm_inv_step [OF get_first(4), of e c "(b, c')" snd] good_connected by (metis prod.collapse snd_conv)
next
  case (disconnect c c')
  then show ?case using comm_inv_step [OF get_first(5), of e c c' "\<lambda>r. r"] good_disconnect by (metis prod.collapse)
next
  case (send c data n rc c')
  then show ?case using comm_inv_step [OF get_first(6), of e data n c "(rc, c')" snd] good_send by (metis prod.collapse snd_conv)
next
  case (reply c ft r pr rc c')
  then show ?case using comm_inv_step [OF get_first(7), of e ft r pr c "(rc, c')" snd] good_reply by (metis prod.collapse snd_conv)
next
  case (loop c c')
  then obtain rc where "IOT_Comm_Yield e c = Some (rc, c')" by (auto simp: IOT_SYSTEM_Loop_def bind_eq_Some_conv)
  with loop show ?case using comm_inv_step [OF get_first(8), of e c "(rc, c')" snd] good_yield by (metis prod.collapse snd_conv)
qed simp

end

text \<open>The automatic sender of the data points keeps the contract.\<close>

lemma lift_fst: "lift_world f d (Some (s, v)) = (a, u) \<Longrightarrow> \<exists>v'. u = Some (s, v')"
  by (auto simp: lift_world_def split: prod.splits)

lemma transmit_step:
  assumes "\<And>d s w rc s' w'. send d (s, w) = Some (rc, (s', w')) \<Longrightarrow> R s s'"
    and "intoyunTransmitData (sending_env de send dps) data (Some (s, v)) = (rc, Some (s', v'))"
  shows "R s s'"
  using assms(2) by (auto simp: intoyunTransmitData_def sending_env_def split: option.splits prod.splits if_splits intro: assms(1))

interpretation datapoint_comm: comm_platform "with_datapoints de be" for de :: "('d, 'v) dp_env" and be
proof unfold_locales
  fix send :: "bytes \<Rightarrow> ('d dp_state \<times> 'v) comm \<Rightarrow> (int \<times> ('d dp_state \<times> 'v) comm) option" and R s w s' w'
  assume step: "\<And>d s w rc s' w'. send d (s, w) = Some (rc, (s', w')) \<Longrightarrow> R s s'" and "reflp R" and "transp R"
    and a: "send_automatic (with_datapoints de be) send (s, w) = Some (s', w')"
  obtain dps v where w: "w = (dps, v)" by (cases w)
  have up: "\<exists>v'. u = Some (s, v')" if "dp_uptime (sending_env de send dps) (Some (s, v)) = (t, u)" for v t u
    using that by (auto simp: sending_env_def lift_world_def split: prod.splits)
  have r: "R s s" using \<open>reflp R\<close> by (simp add: reflp_def)
  have all: "R s s''" if "IOT_DataPoint_SendAll (sending_env de send dps) x (Some (s, v)) = Some (rc, y, Some (s'', v''))"
    for x y v rc s'' v''
    using that r by (auto simp: IOT_DataPoint_SendAll_def bind_eq_Some_conv case_prod_beta prod_eq_iff split: if_splits
        intro: transmit_step [of send R, OF step] simp del: split_paired_Ex intro!: prod_eqI)
  show "R s s'"
    using a w r by (auto simp: with_datapoints_def automatic_datapoints_def IOT_DataPoint_SendDatapointAutomatic_def Let_def
        split: option.splits prod.splits if_splits dest!: up all)
qed

section \<open>Sending and reconnecting\<close>

lemma conn_change_connected: "conn_state s = IOTX_CONN_STATE_CONNECTED \<Longrightarrow>
    conn_change IOTX_CONN_STATE_DISCONNECTED s = [event_cloud_status False]"
  by (simp add: conn_change_def)

lemma yield_inited:
  assumes "conninfo_inited s" and "network_state s = IOTX_NETWORK_STATE_CONNECTED"
    and "conn_state s \<noteq> IOTX_CONN_STATE_CONNECTED"
  shows "IOT_Comm_Yield e (s, w) = do { (_, w) \<leftarrow> tr_yield e w; yield_reconnect e (s, w) }"
  using assms by (simp add: IOT_Comm_Yield_def IOT_Comm_IsConnected_def iotx_get_conn_state_def is_connected_inited
      on_world_def case_prod_beta')

lemma reconnect_attempt:
  assumes s: "conninfo_inited s" "conn_state s = IOTX_CONN_STATE_DISCONNECTED_RECONNECTING"
    and k: "conn_reconnect_time_interval_ms s = 1000 * 2 ^ k" "k \<le> (6 :: nat)"
    and rnd: "\<And>i w. fst (comm_random e i w) \<le> i"
    and up: "comm_uptime e w = (now, w2)" and ex: "utils_time_is_expired now (Some (conn_reconnect_next_time s))"
    and cn: "tr_connect e w2 = Some (rc, w3)"
  obtains s' w' where "yield_reconnect e (s, w) = Some (0, (s', w'))"
    and "rc = 0 \<Longrightarrow> conn_state s' = IOTX_CONN_STATE_CONNECTED \<and> events s' = events s @ [event_cloud_status True]"
    and "rc \<noteq> 0 \<Longrightarrow> conn_state s' = IOTX_CONN_STATE_DISCONNECTED_RECONNECTING \<and> events s' = events s \<and>
      conn_reconnect_time_interval_ms s' = 1000 * 2 ^ (Suc k mod 7) \<and>
      (\<exists>now d. time (conn_reconnect_next_time s') = now + d \<and>
         min 60000 (unat (conn_reconnect_time_interval_ms s')) \<le> unat d \<and> unat d \<le> 60000)"
proof (cases "rc = 0")
  case True
  with s up ex cn show ?thesis
    by (intro that) (auto simp: yield_reconnect_def iotx_get_conn_state_def iotx_conn_handle_reconnect_def set_conn_inited
        conn_change_def)
next
  case False
  define i where "i = reconnect_backoff (conn_reconnect_time_interval_ms s)"
  obtain r w4 where r: "comm_random e i w3 = (r, w4)" by fastforce
  obtain now' w5 where u: "comm_uptime e w4 = (now', w5)" by fastforce
  let ?k = "Suc k mod 7"
  have i: "i = 1000 * 2 ^ ?k" unfolding i_def by (rule backoff_cycle [OF k])
  have "?k \<le> 6" by (simp add: less_Suc_eq_le [symmetric])
  moreover have "r \<le> i" using rnd [of i w3] r by simp
  ultimately have d: "unat (reconnect_delay i r) = min 60000 (unat i + unat r)" using delay_bounds [OF i] by blast
  let ?s = "s\<lparr>conn_reconnect_time_interval_ms := i, conn_reconnect_next_time := \<lparr>time = now' + reconnect_delay i r\<rparr>\<rparr>"
  have y: "yield_reconnect e (s, w) = Some (0, (?s, w5))"
    using s up ex cn False r u
    by (simp add: yield_reconnect_def iotx_get_conn_state_def iotx_conn_handle_reconnect_def i_def [symmetric] arm_reconnect_def
        utils_time_countdown_ms_def)
  have "min 60000 (unat i) \<le> unat (reconnect_delay i r)" "unat (reconnect_delay i r) \<le> 60000" using d by auto
  then have "\<exists>now d. time (conn_reconnect_next_time ?s) = now + d \<and>
      min 60000 (unat (conn_reconnect_time_interval_ms ?s)) \<le> unat d \<and> unat d \<le> 60000"
    by (intro exI [of _ now'] exI [of _ "reconnect_delay i r"]) simp
  then show ?thesis using False s i by (intro that [OF y]) simp_all
qed


section \<open>A concrete platform\<close>

text \<open>A back end that is always up, and data points without entries.\<close>

definition demo_backend :: "(int dp_state \<times> bytes list) comm_env" where
  "demo_backend =
     \<lparr>tr_connect = (\<lambda>w. Some (0, w)), tr_isconnected = (\<lambda>w. Some (True, w)), tr_disconnect = (\<lambda>w. Some (0, w)),
      tr_send = (\<lambda>ty data n (dps, ms). Some (0, (dps, ms @ [take (unat n) data]))), tr_yield = (\<lambda>w. Some (0, w)),
      call_handler = (\<lambda>h ev w. w), comm_uptime = (\<lambda>w. (5000, w)), comm_random = (\<lambda>i w. (0, w)),
      define_defaults = (\<lambda>w. Some w), send_automatic = (\<lambda>send c. Some c)\<rparr>"

definition no_datapoints :: "int dp_state" where
  "no_datapoints = \<lparr>properties = [], datapoint_transmit_mode = DP_TRANSMIT_MODE_MANUAL, datapoint_transmit_lapse = 600,
     transmit_runtime = 0\<rparr>"

definition demo_conn :: iotx_conn_info_t where
  "demo_conn = initial_conn_info\<lparr>conninfo_inited := True, network_state := IOTX_NETWORK_STATE_CONNECTED,
     conn_state := IOTX_CONN_STATE_DISCONNECTED_RECONNECTING, conn_reconnect_time_interval_ms := 4000\<rparr>"

section \<open>Properties\<close>

text \<open>
  Property C10: Whatever the application calls and however the network, the back end and the data points
  behave, the application is told \<open>connected\<close> and \<open>disconnected\<close> strictly in turn, beginning with
  \<open>connected\<close>, and the last event is the state the manager is in; the same holds for the events of
  the network. While the manager is reconnecting, its interval is one of the seven steps from one
  second to 64.
\<close>

theorem comm_events_in_turn:
  assumes "comm_reachable (with_datapoints de be) (s, w)"
  shows "in_turn (cloud_events s) (conn_state s = IOTX_CONN_STATE_CONNECTED) \<and>
    in_turn (network_events s) (network_state s = IOTX_NETWORK_STATE_CONNECTED) \<and>
    (conn_state s = IOTX_CONN_STATE_DISCONNECTED_RECONNECTING \<longrightarrow>
      (\<exists>k \<le> 6. conn_reconnect_time_interval_ms s = 1000 * 2 ^ k))"
  using datapoint_comm.reachable_comm_inv [OF assms] by (simp add: comm_inv_def)

theorem comm_events_in_turn_witness:
  "\<exists>s w. comm_reachable (with_datapoints demo_dp_env demo_backend) (s, w) \<and>
     in_turn (cloud_events s) (conn_state s = IOTX_CONN_STATE_CONNECTED) \<and> cloud_events s = [True, False] \<and>
     network_events s = [True]"
proof -
  let ?e = "with_datapoints demo_dp_env demo_backend"
  let ?c0 = "(initial_conn_info, (no_datapoints, []))"
  note ev = with_datapoints_def demo_backend_def default_datapoints_def IOT_DataPoint_DefineBool_def define_property_def
    setDatapointValueInit_def demo_dp_env_def initial_conn_info_def no_datapoints_def getPropertyIndex_def Let_def
    IOT_Network_SetState_def iotx_set_network_state_def iotx_conn_info_get_def IOT_Comm_Init_def IOT_SYSTEM_NotifyEvent_def
    IOT_Comm_Connect_def IOT_Comm_Disconnect_def IOT_Network_IsConnected_def iotx_get_network_state_def iotx_get_conn_state_def
    iotx_set_conn_state_def notify_conn_state_def on_world_def demo_conf_def
  obtain c1 where 1: "IOT_Network_SetState ?e IOTX_NETWORK_STATE_CONNECTED ?c0 = Some c1"
    "events (fst c1) = [event_network_status True]" "conninfo_inited (fst c1)" "conn_state (fst c1) = IOTX_CONN_STATE_INVALID"
    "network_state (fst c1) = IOTX_NETWORK_STATE_CONNECTED"
    by (simp add: ev)
  obtain c2 where 2: "IOT_Comm_Connect ?e c1 = Some c2" "events (fst c2) = [event_network_status True, event_cloud_status True]"
    "conninfo_inited (fst c2)" "conn_state (fst c2) = IOTX_CONN_STATE_CONNECTED"
    using 1 by (cases c1) (auto simp: IOT_Comm_Connect_def is_connected_inited iotx_get_conn_state_def set_conn_inited
        on_world_def conn_change_def with_datapoints_def demo_backend_def)
  obtain c3 where 3: "IOT_Comm_Disconnect ?e c2 = Some c3"
    "events (fst c3) = [event_network_status True, event_cloud_status True, event_cloud_status False]"
    using 2 by (cases c2) (auto simp: IOT_Comm_Disconnect_def set_conn_inited on_world_def conn_change_def with_datapoints_def
        demo_backend_def)
  have r: "comm_reachable ?e c3"
    by (intro comm_reachable.disconnect [OF _ 3(1)] comm_reachable.connect [OF _ 2(1)] comm_reachable.set_network [OF _ 1(1)]
        comm_reachable.start)
  obtain s w where c: "c3 = (s, w)" by (cases c3)
  from r c comm_events_in_turn [of demo_dp_env demo_backend s w] 3(2) show ?thesis
    by (intro exI [of _ s] exI [of _ w]) (simp add: cloud_events_def network_events_def)
qed

text \<open>
  \<open>IOT_Comm_SendData\<close> hands the data to the back end exactly when the network is up and the
  manager is connected. A failure there disconnects, with one event; in every other state nothing
  is sent, the result is \<open>-1\<close>, and only a lost network changes the state.
\<close>

theorem comm_send_guarded:
  assumes "conninfo_inited s"
  shows "IOT_Comm_SendData e data n (s, w) =
    (if network_state s = IOTX_NETWORK_STATE_CONNECTED \<and> conn_state s = IOTX_CONN_STATE_CONNECTED
     then do {
       (rc, w) \<leftarrow> tr_send e IOTX_CONN_SEND_DATA data n w;
       if rc < 0
       then Some (rc, (s\<lparr>events := events s @ [event_cloud_status False], conn_state := IOTX_CONN_STATE_DISCONNECTED\<rparr>,
         if eventHandler s = 0 then w else call_handler e (eventHandler s) (event_cloud_status False) w))
       else Some (rc, (s, w)) }
     else if network_state s = IOTX_NETWORK_STATE_CONNECTED then Some (-1, (s, w))
     else do { (_, c) \<leftarrow> IOT_Network_IsConnected e (s, w); Some (-1, c) })"
  using assms
  by (cases "tr_send e IOTX_CONN_SEND_DATA data n w")
    (auto simp: IOT_Comm_SendData_def is_connected_inited iotx_get_conn_state_def on_world_def set_conn_inited conn_change_def)

theorem comm_send_guarded_witness:
  "IOT_Comm_SendData demo_backend [1, 2, 3] 2 (demo_conn\<lparr>conn_state := IOTX_CONN_STATE_CONNECTED\<rparr>, (no_datapoints, [])) =
     Some (0, (demo_conn\<lparr>conn_state := IOTX_CONN_STATE_CONNECTED\<rparr>, (no_datapoints, [[1, 2]])))"
  by (subst comm_send_guarded) (simp_all add: demo_conn_def demo_backend_def)



text \<open>
  After \<open>IOT_Comm_Disconnect\<close> the manager does not reconnect, until a loop sees the network down: then
  it is in the state that a loss of the connection leads to, and reconnects when the network is back.
\<close>

theorem comm_disconnect_undone:
  assumes "conninfo_inited s" and "network_state s = IOTX_NETWORK_STATE_DISCONNECTED" and "IOT_Comm_Disconnect e (s, w) = Some c"
  shows "\<exists>c'. IOT_Comm_Yield e c = Some (-1, c') \<and> conn_state (fst c') = IOTX_CONN_STATE_DISCONNECTED"
proof -
  obtain s1 w1 where "c = (s1, w1)" "conninfo_inited s1" "network_state s1 = IOTX_NETWORK_STATE_DISCONNECTED"
    using assms by (auto simp: IOT_Comm_Disconnect_def set_conn_inited on_world_def bind_eq_Some_conv)
  then show ?thesis by (simp add: IOT_Comm_Yield_def is_connected_inited)
qed

end
