(* ===== verification/Utils_Aes.thy ===== *)
theory Utils_Aes
  imports Iotkit_Prelude
begin

text \<open>
  The part of sdk/utils/digest/utils_aes.c the configuration compiles: encryption with a key schedule
  (\<open>AES_ENC_PREKEYED\<close>), with tables (\<open>USE_TABLES\<close>), in place (\<open>VERSION_1\<close>). A block is a list of
  16 bytes.
\<close>

section \<open>Tables\<close>

text \<open>The macros \<open>f2\<close> and \<open>f3\<close> compute in \<open>int\<close>.\<close>

definition f2 :: "u32 \<Rightarrow> u32" where
  "f2 x = push_bit 1 x XOR ((drop_bit 7 x AND 1) * 0x011b)"

definition f3 :: "u32 \<Rightarrow> u32" where
  "f3 x = f2 x XOR x"

definition sb_data :: "(u32 \<Rightarrow> u32) \<Rightarrow> u32 list" where
  "sb_data w = map w
     [0x63, 0x7c, 0x77, 0x7b, 0xf2, 0x6b, 0x6f, 0xc5, 0x30, 0x01, 0x67, 0x2b, 0xfe, 0xd7, 0xab, 0x76,
      0xca, 0x82, 0xc9, 0x7d, 0xfa, 0x59, 0x47, 0xf0, 0xad, 0xd4, 0xa2, 0xaf, 0x9c, 0xa4, 0x72, 0xc0,
      0xb7, 0xfd, 0x93, 0x26, 0x36, 0x3f, 0xf7, 0xcc, 0x34, 0xa5, 0xe5, 0xf1, 0x71, 0xd8, 0x31, 0x15,
      0x04, 0xc7, 0x23, 0xc3, 0x18, 0x96, 0x05, 0x9a, 0x07, 0x12, 0x80, 0xe2, 0xeb, 0x27, 0xb2, 0x75,
      0x09, 0x83, 0x2c, 0x1a, 0x1b, 0x6e, 0x5a, 0xa0, 0x52, 0x3b, 0xd6, 0xb3, 0x29, 0xe3, 0x2f, 0x84,
      0x53, 0xd1, 0x00, 0xed, 0x20, 0xfc, 0xb1, 0x5b, 0x6a, 0xcb, 0xbe, 0x39, 0x4a, 0x4c, 0x58, 0xcf,
      0xd0, 0xef, 0xaa, 0xfb, 0x43, 0x4d, 0x33, 0x85, 0x45, 0xf9, 0x02, 0x7f, 0x50, 0x3c, 0x9f, 0xa8,
      0x51, 0xa3, 0x40, 0x8f, 0x92, 0x9d, 0x38, 0xf5, 0xbc, 0xb6, 0xda, 0x21, 0x10, 0xff, 0xf3, 0xd2,
      0xcd, 0x0c, 0x13, 0xec, 0x5f, 0x97, 0x44, 0x17, 0xc4, 0xa7, 0x7e, 0x3d, 0x64, 0x5d, 0x19, 0x73,
      0x60, 0x81, 0x4f, 0xdc, 0x22, 0x2a, 0x90, 0x88, 0x46, 0xee, 0xb8, 0x14, 0xde, 0x5e, 0x0b, 0xdb,
      0xe0, 0x32, 0x3a, 0x0a, 0x49, 0x06, 0x24, 0x5c, 0xc2, 0xd3, 0xac, 0x62, 0x91, 0x95, 0xe4, 0x79,
      0xe7, 0xc8, 0x37, 0x6d, 0x8d, 0xd5, 0x4e, 0xa9, 0x6c, 0x56, 0xf4, 0xea, 0x65, 0x7a, 0xae, 0x08,
      0xba, 0x78, 0x25, 0x2e, 0x1c, 0xa6, 0xb4, 0xc6, 0xe8, 0xdd, 0x74, 0x1f, 0x4b, 0xbd, 0x8b, 0x8a,
      0x70, 0x3e, 0xb5, 0x66, 0x48, 0x03, 0xf6, 0x0e, 0x61, 0x35, 0x57, 0xb9, 0x86, 0xc1, 0x1d, 0x9e,
      0xe1, 0xf8, 0x98, 0x11, 0x69, 0xd9, 0x8e, 0x94, 0x9b, 0x1e, 0x87, 0xe9, 0xce, 0x55, 0x28, 0xdf,
      0x8c, 0xa1, 0x89, 0x0d, 0xbf, 0xe6, 0x42, 0x68, 0x41, 0x99, 0x2d, 0x0f, 0xb0, 0x54, 0xbb, 0x16]"

definition sbox :: bytes where
  "sbox = map ucast (sb_data (\<lambda>x. x))"

definition gfm2_sbox :: bytes where
  "gfm2_sbox = map ucast (sb_data f2)"

definition gfm3_sbox :: bytes where
  "gfm3_sbox = map ucast (sb_data f3)"

definition s_box :: "u8 \<Rightarrow> u8" where
  "s_box x = sbox ! unat x"

definition gfm2_sb :: "u8 \<Rightarrow> u8" where
  "gfm2_sb x = gfm2_sbox ! unat x"

definition gfm3_sb :: "u8 \<Rightarrow> u8" where
  "gfm3_sb x = gfm3_sbox ! unat x"

section \<open>Blocks\<close>

definition copy_block :: "bytes \<Rightarrow> bytes \<Rightarrow> bytes option" where
  "copy_block d s = do { s \<leftarrow> rd_bytes s 0 16; wr_bytes d 0 s }"

definition copy_block_nn :: "bytes \<Rightarrow> bytes \<Rightarrow> u8 \<Rightarrow> bytes option" where
  "copy_block_nn d s nn = do { s \<leftarrow> rd_bytes s 0 (unat nn); wr_bytes d 0 s }"

definition xor_block :: "bytes \<Rightarrow> bytes \<Rightarrow> bytes option" where
  "xor_block d s = do { a \<leftarrow> rd_bytes d 0 16; b \<leftarrow> rd_bytes s 0 16; wr_bytes d 0 (map2 (XOR) a b) }"

definition copy_and_key :: "bytes \<Rightarrow> bytes \<Rightarrow> bytes \<Rightarrow> bytes option" where
  "copy_and_key d s k = do { s \<leftarrow> rd_bytes s 0 16; k \<leftarrow> rd_bytes k 0 16; wr_bytes d 0 (map2 (XOR) s k) }"

definition add_round_key :: "bytes \<Rightarrow> bytes \<Rightarrow> bytes option" where
  "add_round_key d k = xor_block d k"

definition shift_sub_rows :: "bytes \<Rightarrow> bytes" where
  "shift_sub_rows st =
     (let st = st[0 := s_box (st ! 0)]; st = st[4 := s_box (st ! 4)];
          st = st[8 := s_box (st ! 8)]; st = st[12 := s_box (st ! 12)];
          tt = st ! 1; st = st[1 := s_box (st ! 5)]; st = st[5 := s_box (st ! 9)];
          st = st[9 := s_box (st ! 13)]; st = st[13 := s_box tt];
          tt = st ! 2; st = st[2 := s_box (st ! 10)]; st = st[10 := s_box tt];
          tt = st ! 6; st = st[6 := s_box (st ! 14)]; st = st[14 := s_box tt];
          tt = st ! 15; st = st[15 := s_box (st ! 11)]; st = st[11 := s_box (st ! 7)];
          st = st[7 := s_box (st ! 3)]; st = st[3 := s_box tt]
      in st)"

text \<open>All 16 bytes of \<open>dt\<close> are computed from its copy \<open>st\<close>.\<close>

definition mix_sub_columns :: "bytes \<Rightarrow> bytes" where
  "mix_sub_columns st =
     [gfm2_sb (st ! 0) XOR gfm3_sb (st ! 5) XOR s_box (st ! 10) XOR s_box (st ! 15),
      s_box (st ! 0) XOR gfm2_sb (st ! 5) XOR gfm3_sb (st ! 10) XOR s_box (st ! 15),
      s_box (st ! 0) XOR s_box (st ! 5) XOR gfm2_sb (st ! 10) XOR gfm3_sb (st ! 15),
      gfm3_sb (st ! 0) XOR s_box (st ! 5) XOR s_box (st ! 10) XOR gfm2_sb (st ! 15),

      gfm2_sb (st ! 4) XOR gfm3_sb (st ! 9) XOR s_box (st ! 14) XOR s_box (st ! 3),
      s_box (st ! 4) XOR gfm2_sb (st ! 9) XOR gfm3_sb (st ! 14) XOR s_box (st ! 3),
      s_box (st ! 4) XOR s_box (st ! 9) XOR gfm2_sb (st ! 14) XOR gfm3_sb (st ! 3),
      gfm3_sb (st ! 4) XOR s_box (st ! 9) XOR s_box (st ! 14) XOR gfm2_sb (st ! 3),

      gfm2_sb (st ! 8) XOR gfm3_sb (st ! 13) XOR s_box (st ! 2) XOR s_box (st ! 7),
      s_box (st ! 8) XOR gfm2_sb (st ! 13) XOR gfm3_sb (st ! 2) XOR s_box (st ! 7),
      s_box (st ! 8) XOR s_box (st ! 13) XOR gfm2_sb (st ! 2) XOR gfm3_sb (st ! 7),
      gfm3_sb (st ! 8) XOR s_box (st ! 13) XOR s_box (st ! 2) XOR gfm2_sb (st ! 7),

      gfm2_sb (st ! 12) XOR gfm3_sb (st ! 1) XOR s_box (st ! 6) XOR s_box (st ! 11),
      s_box (st ! 12) XOR gfm2_sb (st ! 1) XOR gfm3_sb (st ! 6) XOR s_box (st ! 11),
      s_box (st ! 12) XOR s_box (st ! 1) XOR gfm2_sb (st ! 6) XOR gfm3_sb (st ! 11),
      gfm3_sb (st ! 12) XOR s_box (st ! 1) XOR s_box (st ! 6) XOR gfm2_sb (st ! 11)]"

section \<open>The key schedule\<close>

record aes_context =
  ksch :: bytes
  rnd :: u8

text \<open>
  The four bytes \<open>t0\<close> to \<open>t3\<close> before the last \<open>xor\<close>, with the new round constant. The counter \<open>cc\<close>
  runs in steps of 4 up to \<open>hi\<close>, which is at most 240, and does not wrap in its 8 bits.
\<close>

definition key_core :: "nat \<Rightarrow> nat \<Rightarrow> u8 \<Rightarrow> bytes \<Rightarrow> bytes \<times> u8" where
  "key_core keylen cc rc t =
     (if cc mod keylen = 0
      then ([s_box (t ! 1) XOR rc, s_box (t ! 2), s_box (t ! 3), s_box (t ! 0)], ucast (f2 (ucast rc)))
      else if keylen > 24 \<and> cc mod keylen = 16
      then ([s_box (t ! 0), s_box (t ! 1), s_box (t ! 2), s_box (t ! 3)], rc)
      else (t, rc))"

function key_loop :: "nat \<Rightarrow> nat \<Rightarrow> nat \<Rightarrow> u8 \<Rightarrow> bytes \<Rightarrow> bytes option" where
  "key_loop keylen hi cc rc k =
     (if cc < hi then do {
        t \<leftarrow> rd_bytes k (cc - 4) 4;
        let (t, rc) = key_core keylen cc rc t;
        p \<leftarrow> rd_bytes k (cc - keylen) 4;
        k \<leftarrow> wr_bytes k cc (map2 (XOR) p t);
        key_loop keylen hi (cc + 4) rc k }
      else Some k)"
  by pat_completeness auto
termination by (relation "measure (\<lambda>(keylen, hi, cc, rc, k). hi - cc)") auto

declare key_loop.simps [simp del]

definition aes_set_key1 :: "bytes \<Rightarrow> u8 \<Rightarrow> aes_context \<Rightarrow> (u8 \<times> aes_context) option" where
  "aes_set_key1 key keylen ctx =
     (if keylen = 16 \<or> keylen = 24 \<or> keylen = 32 then do {
        k \<leftarrow> copy_block_nn (ksch ctx) key keylen;
        let hi = push_bit 2 (keylen + 28);
        let ctx = ctx\<lparr>rnd := drop_bit 4 hi - 1\<rparr>;
        k \<leftarrow> key_loop (unat keylen) (unat hi) (unat keylen) 1 k;
        Some (0, ctx\<lparr>ksch := k\<rparr>) }
      else Some (255, ctx\<lparr>rnd := 0\<rparr>))"

section \<open>Encryption\<close>

function encrypt_rounds :: "bytes \<Rightarrow> nat \<Rightarrow> nat \<Rightarrow> bytes \<Rightarrow> bytes option" where
  "encrypt_rounds k n r s1 =
     (if r < n then do {
        s1 \<leftarrow> add_round_key (mix_sub_columns s1) (drop (r * 16) k);
        encrypt_rounds k n (r + 1) s1 }
      else Some s1)"
  by pat_completeness auto
termination by (relation "measure (\<lambda>(k, n, r, s1). n - r)") auto

declare encrypt_rounds.simps [simp del]

text \<open>\<open>s1\<close> is set in full before it is read. \<open>inp\<close> and \<open>out\<close> may be the same block.\<close>

definition aes_encrypt1 :: "bytes \<Rightarrow> bytes \<Rightarrow> aes_context \<Rightarrow> (u8 \<times> bytes) option" where
  "aes_encrypt1 inp out ctx =
     (if rnd ctx \<noteq> 0 then do {
        s1 \<leftarrow> copy_and_key (replicate 16 0) inp (ksch ctx);
        s1 \<leftarrow> encrypt_rounds (ksch ctx) (unat (rnd ctx)) 1 s1;
        let s1 = shift_sub_rows s1;
        out \<leftarrow> copy_and_key out s1 (drop (unat (rnd ctx) * 16) (ksch ctx));
        Some (0, out) }
      else Some (255, out))"

text \<open>A negative number of blocks does not stop the loop before the input ends.\<close>

function cbc_loop :: "bytes \<Rightarrow> nat \<Rightarrow> bytes \<Rightarrow> int \<Rightarrow> bytes \<Rightarrow> aes_context \<Rightarrow> (u8 \<times> bytes \<times> bytes) option" where
  "cbc_loop inp p out n_block iv ctx =
     (if n_block = 0 then Some (0, out, iv)
      else if length inp < p + 16 then None
      else do {
        iv \<leftarrow> xor_block iv (drop p inp);
        (rc, iv) \<leftarrow> aes_encrypt1 iv iv ctx;
        if rc \<noteq> 0 then Some (1, out, iv)
        else do {
          b \<leftarrow> copy_block (drop p out) iv;
          cbc_loop inp (p + 16) (take p out @ b) (n_block - 1) iv ctx } })"
  by pat_completeness auto
termination by (relation "measure (\<lambda>(inp, p, out, n_block, iv, ctx). length inp - p)") auto

declare cbc_loop.simps [simp del]

definition aes_cbc_encrypt1 :: "bytes \<Rightarrow> bytes \<Rightarrow> int \<Rightarrow> bytes \<Rightarrow> aes_context \<Rightarrow> (u8 \<times> bytes \<times> bytes) option" where
  "aes_cbc_encrypt1 inp out n_block iv ctx = cbc_loop inp 0 out n_block iv ctx"

section \<open>FIPS 197: the field and the S-box\<close>

definition xtime :: "u8 \<Rightarrow> u8" where
  "xtime b = (if bit b 7 then push_bit 1 b XOR 0x1b else push_bit 1 b)"

text \<open>The product of two polynomials modulo \<open>x^8 + x^4 + x^3 + x + 1\<close>.\<close>

fun gf_mul_bits :: "nat \<Rightarrow> u8 \<Rightarrow> u8 \<Rightarrow> u8" where
  "gf_mul_bits 0 a b = 0"
| "gf_mul_bits (Suc n) a b = (if bit a 0 then b else 0) XOR gf_mul_bits n (drop_bit 1 a) (xtime b)"

definition gf_mul :: "u8 \<Rightarrow> u8 \<Rightarrow> u8" where
  "gf_mul a b = gf_mul_bits 8 a b"

definition gf_inv_table :: bytes where
  "gf_inv_table =
     [0x00, 0x01, 0x8d, 0xf6, 0xcb, 0x52, 0x7b, 0xd1, 0xe8, 0x4f, 0x29, 0xc0, 0xb0, 0xe1, 0xe5, 0xc7,
      0x74, 0xb4, 0xaa, 0x4b, 0x99, 0x2b, 0x60, 0x5f, 0x58, 0x3f, 0xfd, 0xcc, 0xff, 0x40, 0xee, 0xb2,
      0x3a, 0x6e, 0x5a, 0xf1, 0x55, 0x4d, 0xa8, 0xc9, 0xc1, 0x0a, 0x98, 0x15, 0x30, 0x44, 0xa2, 0xc2,
      0x2c, 0x45, 0x92, 0x6c, 0xf3, 0x39, 0x66, 0x42, 0xf2, 0x35, 0x20, 0x6f, 0x77, 0xbb, 0x59, 0x19,
      0x1d, 0xfe, 0x37, 0x67, 0x2d, 0x31, 0xf5, 0x69, 0xa7, 0x64, 0xab, 0x13, 0x54, 0x25, 0xe9, 0x09,
      0xed, 0x5c, 0x05, 0xca, 0x4c, 0x24, 0x87, 0xbf, 0x18, 0x3e, 0x22, 0xf0, 0x51, 0xec, 0x61, 0x17,
      0x16, 0x5e, 0xaf, 0xd3, 0x49, 0xa6, 0x36, 0x43, 0xf4, 0x47, 0x91, 0xdf, 0x33, 0x93, 0x21, 0x3b,
      0x79, 0xb7, 0x97, 0x85, 0x10, 0xb5, 0xba, 0x3c, 0xb6, 0x70, 0xd0, 0x06, 0xa1, 0xfa, 0x81, 0x82,
      0x83, 0x7e, 0x7f, 0x80, 0x96, 0x73, 0xbe, 0x56, 0x9b, 0x9e, 0x95, 0xd9, 0xf7, 0x02, 0xb9, 0xa4,
      0xde, 0x6a, 0x32, 0x6d, 0xd8, 0x8a, 0x84, 0x72, 0x2a, 0x14, 0x9f, 0x88, 0xf9, 0xdc, 0x89, 0x9a,
      0xfb, 0x7c, 0x2e, 0xc3, 0x8f, 0xb8, 0x65, 0x48, 0x26, 0xc8, 0x12, 0x4a, 0xce, 0xe7, 0xd2, 0x62,
      0x0c, 0xe0, 0x1f, 0xef, 0x11, 0x75, 0x78, 0x71, 0xa5, 0x8e, 0x76, 0x3d, 0xbd, 0xbc, 0x86, 0x57,
      0x0b, 0x28, 0x2f, 0xa3, 0xda, 0xd4, 0xe4, 0x0f, 0xa9, 0x27, 0x53, 0x04, 0x1b, 0xfc, 0xac, 0xe6,
      0x7a, 0x07, 0xae, 0x63, 0xc5, 0xdb, 0xe2, 0xea, 0x94, 0x8b, 0xc4, 0xd5, 0x9d, 0xf8, 0x90, 0x6b,
      0xb1, 0x0d, 0xd6, 0xeb, 0xc6, 0x0e, 0xcf, 0xad, 0x08, 0x4e, 0xd7, 0xe3, 0x5d, 0x50, 0x1e, 0xb3,
      0x5b, 0x23, 0x38, 0x34, 0x68, 0x46, 0x03, 0x8c, 0xdd, 0x9c, 0x7d, 0xa0, 0xcd, 0x1a, 0x41, 0x1c]"

definition gf_inv :: "u8 \<Rightarrow> u8" where
  "gf_inv x = gf_inv_table ! unat x"

definition affine :: "u8 \<Rightarrow> u8" where
  "affine b = b XOR word_rotl 1 b XOR word_rotl 2 b XOR word_rotl 3 b XOR word_rotl 4 b XOR 0x63"

definition SubByte :: "u8 \<Rightarrow> u8" where
  "SubByte x = affine (gf_inv x)"

text \<open>The state in columns: byte \<open>r + 4 c\<close> is in row \<open>r\<close> and column \<open>c\<close>.\<close>

definition SubBytes :: "bytes \<Rightarrow> bytes" where
  "SubBytes st = map SubByte st"

definition ShiftRows :: "bytes \<Rightarrow> bytes" where
  "ShiftRows st = map (\<lambda>i. st ! (i mod 4 + 4 * ((i div 4 + i mod 4) mod 4))) [0..<16]"

definition MixColumn :: "bytes \<Rightarrow> bytes" where
  "MixColumn a =
     [gf_mul 2 (a ! 0) XOR gf_mul 3 (a ! 1) XOR a ! 2 XOR a ! 3,
      a ! 0 XOR gf_mul 2 (a ! 1) XOR gf_mul 3 (a ! 2) XOR a ! 3,
      a ! 0 XOR a ! 1 XOR gf_mul 2 (a ! 2) XOR gf_mul 3 (a ! 3),
      gf_mul 3 (a ! 0) XOR a ! 1 XOR a ! 2 XOR gf_mul 2 (a ! 3)]"

definition MixColumns :: "bytes \<Rightarrow> bytes" where
  "MixColumns st = concat (map (\<lambda>c. MixColumn (take 4 (drop (4 * c) st))) [0..<4])"

definition AddRoundKey :: "bytes \<Rightarrow> bytes \<Rightarrow> bytes" where
  "AddRoundKey st k = map2 (XOR) st k"

definition RotWord :: "bytes \<Rightarrow> bytes" where
  "RotWord t = [t ! 1, t ! 2, t ! 3, t ! 0]"

definition Rcon :: "nat \<Rightarrow> bytes" where
  "Rcon j = [(xtime ^^ (j - 1)) 1, 0, 0, 0]"

text \<open>Word \<open>i\<close> of the key schedule for a key of \<open>nk\<close> words.\<close>

function key_word :: "nat \<Rightarrow> bytes \<Rightarrow> nat \<Rightarrow> bytes" where
  "key_word nk key i =
     (if i < nk \<or> nk = 0 then take 4 (drop (4 * i) key)
      else map2 (XOR) (key_word nk key (i - nk))
        (if i mod nk = 0 then map2 (XOR) (SubBytes (RotWord (key_word nk key (i - 1)))) (Rcon (i div nk))
         else if nk > 6 \<and> i mod nk = 4 then SubBytes (key_word nk key (i - 1))
         else key_word nk key (i - 1)))"
  by pat_completeness auto
termination by (relation "measure (\<lambda>(nk, key, i). i)") auto

declare key_word.simps [simp del]

definition round_key :: "bytes \<Rightarrow> nat \<Rightarrow> bytes" where
  "round_key key r = concat (map (key_word (length key div 4) key) [4 * r..<4 * r + 4])"

text \<open>The cipher with \<open>length key div 4 + 6\<close> rounds.\<close>

definition aes_round :: "bytes \<Rightarrow> nat \<Rightarrow> bytes \<Rightarrow> bytes" where
  "aes_round key r st = AddRoundKey (MixColumns (ShiftRows (SubBytes st))) (round_key key r)"

definition Cipher :: "bytes \<Rightarrow> bytes \<Rightarrow> bytes" where
  "Cipher key inp =
     (let nr = length key div 4 + 6;
          st = fold (aes_round key) [1..<nr] (AddRoundKey inp (round_key key 0))
      in AddRoundKey (ShiftRows (SubBytes st)) (round_key key nr))"

section \<open>Tables and field\<close>

text \<open>The table of inverses and the two facts of tables below are checked entry by entry.\<close>

definition inverse_pair :: "nat \<Rightarrow> u8 \<Rightarrow> bool" where
  "inverse_pair n y \<longleftrightarrow> gf_mul (of_nat n) y = 1"

definition f2_byte :: "nat \<Rightarrow> bool" where
  "f2_byte n \<longleftrightarrow> ucast (f2 (of_nat n)) = xtime (of_nat n)"

lemma inverses_low: "list_all2 inverse_pair [1..<128] (take 127 (drop 1 gf_inv_table))" by code_simp

lemma inverses_high: "list_all2 inverse_pair [128..<256] (drop 128 gf_inv_table)" by code_simp

lemma sbox_affine: "sbox = map affine gf_inv_table" by code_simp

lemma f2_bytes: "list_all f2_byte [0..<256]" by code_simp

lemma length_inv_table: "length gf_inv_table = 256"
  by (simp add: gf_inv_table_def)

lemma gf_inv_correct:
  assumes "x \<noteq> 0"
  shows "gf_mul x (gf_inv x) = 1"
proof -
  have 0: "0 < unat x" using assms by (simp add: unat_gt_0)
  show ?thesis
  proof (cases "unat x < 128")
    case True
    have "inverse_pair ([1..<128] ! (unat x - 1)) (take 127 (drop 1 gf_inv_table) ! (unat x - 1))"
      using True 0 by (intro list_all2_nthD [OF inverses_low]) simp
    then show ?thesis using True 0 by (simp add: inverse_pair_def gf_inv_def length_inv_table del: upt_rec_numeral)
  next
    case False
    have "inverse_pair ([128..<256] ! (unat x - 128)) (drop 128 gf_inv_table ! (unat x - 128))"
      using False unat_byte [of x] by (intro list_all2_nthD [OF inverses_high]) simp
    then show ?thesis using False unat_byte [of x] by (simp add: inverse_pair_def gf_inv_def length_inv_table del: upt_rec_numeral)
  qed
qed

lemma s_box_eq: "s_box x = SubByte x"
  by (simp add: s_box_def SubByte_def gf_inv_def sbox_affine length_inv_table unat_byte)

lemma f2_xtime: "ucast (f2 (ucast x)) = xtime x"
proof -
  have "f2_byte (unat x)" using f2_bytes unat_byte [of x] by (simp add: list_all_iff)
  then show ?thesis by (simp add: f2_byte_def)
qed

lemma f3_xtime: "ucast (f3 (ucast x)) = xtime x XOR x"
proof -
  have "(ucast (f3 (ucast x)) :: u8) = ucast (f2 (ucast x)) XOR x"
    by (rule bit_word_eqI) (simp add: f3_def bit_simps)
  then show ?thesis by (simp only: f2_xtime)
qed

lemma sb_data_map: "sb_data w = map w (map ucast sbox)"
  by (simp add: sb_data_def sbox_def)

lemma length_sbox: "length sbox = 256"
  by (simp add: sbox_affine length_inv_table)

lemma gfm2_sb_eq: "gfm2_sb x = xtime (SubByte x)"
  by (simp add: gfm2_sb_def gfm2_sbox_def sb_data_map length_sbox unat_byte f2_xtime flip: s_box_eq s_box_def)

lemma gfm3_sb_eq: "gfm3_sb x = xtime (SubByte x) XOR SubByte x"
  by (simp add: gfm3_sb_def gfm3_sbox_def sb_data_map length_sbox unat_byte f3_xtime flip: s_box_eq s_box_def)

lemma gf_mul_bits_0: "gf_mul_bits n 0 b = 0"
  by (induction n arbitrary: b) simp_all

lemma gf_mul_2: "gf_mul 2 b = xtime b"
proof -
  have "gf_mul_bits (Suc (Suc 6)) 2 b = xtime b" by (simp only: gf_mul_bits.simps) (simp add: gf_mul_bits_0)
  then show ?thesis by (simp add: gf_mul_def)
qed

lemma gf_mul_3: "gf_mul 3 b = xtime b XOR b"
proof -
  have "gf_mul_bits (Suc (Suc 6)) 3 b = xtime b XOR b"
    by (simp only: gf_mul_bits.simps) (simp add: gf_mul_bits_0 xor.commute)
  then show ?thesis by (simp add: gf_mul_def)
qed

section \<open>The steps of a round\<close>

lemma upt_16: "[0..<16] = [0, 1, 2, 3, 4, 5, 6, 7, 8, 9, 10, 11, 12, 13, 14, 15 :: nat]"
  by (simp add: upt_rec)

lemma below_16: "i < 16 \<Longrightarrow> i \<in> {0, 1, 2, 3, 4, 5, 6, 7, 8, 9, 10, 11, 12, 13, 14, 15 :: nat}"
  using set_upt [of 0 16] unfolding upt_16 by auto

lemma length_SubBytes [simp]: "length (SubBytes st) = length st"
  by (simp add: SubBytes_def)

lemma length_ShiftRows [simp]: "length (ShiftRows st) = 16"
  by (simp add: ShiftRows_def)

lemma shift_sub_rows_eq:
  assumes "length st = 16"
  shows "shift_sub_rows st = ShiftRows (SubBytes st)"
proof (rule nth_equalityI)
  show "length (shift_sub_rows st) = length (ShiftRows (SubBytes st))" using assms by (simp add: shift_sub_rows_def Let_def)
  fix i assume "i < length (shift_sub_rows st)"
  then have "i \<in> {0, 1, 2, 3, 4, 5, 6, 7, 8, 9, 10, 11, 12, 13, 14, 15}"
    using assms by (intro below_16) (simp add: shift_sub_rows_def Let_def)
  then show "shift_sub_rows st ! i = ShiftRows (SubBytes st) ! i"
    using assms by (elim insertE emptyE) (simp_all add: shift_sub_rows_def Let_def ShiftRows_def SubBytes_def s_box_eq)
qed

lemma mix_sub_columns_eq:
  assumes "length st = 16"
  shows "mix_sub_columns st = MixColumns (ShiftRows (SubBytes st))"
proof -
  have up4: "[0..<4] = [0, 1, 2, 3 :: nat]" by (simp add: upt_rec)
  have "ShiftRows (SubBytes st) = map SubByte (map (\<lambda>i. st ! i) [0, 5, 10, 15, 4, 9, 14, 3, 8, 13, 2, 7, 12, 1, 6, 11])"
    unfolding ShiftRows_def upt_16 using assms by (simp add: SubBytes_def)
  then show ?thesis
    unfolding MixColumns_def up4
    by (simp add: MixColumn_def mix_sub_columns_def gfm2_sb_eq gfm3_sb_eq s_box_eq gf_mul_2 gf_mul_3)
qed

section \<open>The key schedule\<close>

lemma length_key_word:
  assumes "length key = 4 * nk" and "0 < nk"
  shows "length (key_word nk key i) = 4"
  using assms
proof (induction nk key i rule: key_word.induct)
  case (1 nk key i)
  then show ?case by (subst key_word.simps) (auto simp: RotWord_def Rcon_def)
qed

lemma concat_words_at:
  assumes "\<And>j. length (w j) = 4" and "j < i"
  shows "take 4 (drop (4 * j) (concat (map w [0..<i]))) = w j"
proof -
  have l: "length (concat (map w [0..<n])) = 4 * n" for n
    by (induction n) (simp_all add: assms(1))
  have "[0..<i] = [0..<j] @ j # [Suc j..<i]"
    using assms(2) upt_add_eq_append [of 0 j "i - j"] by (simp add: upt_conv_Cons)
  then have "concat (map w [0..<i]) = concat (map w [0..<j]) @ w j @ concat (map w [Suc j..<i])" by simp
  then show ?thesis using l [of j] assms(1) [of j] by simp
qed

lemma concat_words_length: "(\<And>j. length (w j) = (4 :: nat)) \<Longrightarrow> length (concat (map w js)) = 4 * length js"
  by (induction js) simp_all

lemma list_of_4: "length t = 4 \<Longrightarrow> t = [t ! 0, t ! 1, t ! 2, t ! 3]"
  by (auto simp: length_Suc_conv numeral_eq_Suc)

text \<open>The core of a step of the loop is the second argument of the \<open>xor\<close> in FIPS 197.\<close>

lemma key_core_eq:
  assumes "length t = 4" and "0 < nk" and "nk \<le> i" and "rc = (xtime ^^ ((i - 1) div nk)) 1"
  shows "key_core (4 * nk) (4 * i) rc t =
    (if i mod nk = 0 then map2 (XOR) (SubBytes (RotWord t)) (Rcon (i div nk))
     else if nk > 6 \<and> i mod nk = 4 then SubBytes t else t, (xtime ^^ (i div nk)) 1)"
proof -
  have c: "4 * i mod (4 * nk) = 4 * (i mod nk)" by simp
  have t: "SubBytes t = [s_box (t ! 0), s_box (t ! 1), s_box (t ! 2), s_box (t ! 3)]"
    using list_of_4 [OF assms(1)] by (metis SubBytes_def list.simps(8,9) s_box_eq)
  show ?thesis
  proof (cases "i mod nk = 0")
    case True
    then obtain q where q: "i = nk * q" by auto
    then have "0 < q" using assms(2,3) by (cases q) auto
    then have d: "(i - 1) div nk = q - 1" "i div nk = q" "Suc (q - 1) = q"
      using assms(2) q by (auto simp: algebra_simps div_eq_dividend_iff intro!: div_nat_eqI)
    then have "xtime ((xtime ^^ (q - 1)) 1) = (xtime ^^ q) 1" by (metis comp_apply funpow.simps(2))
    then show ?thesis using True d
      by (simp add: key_core_def c assms(4) f2_xtime Rcon_def RotWord_def SubBytes_def s_box_eq)
  next
    case False
    have "nk * (i div nk) + i mod nk = i" "i mod nk < nk" using assms(2) by simp_all
    then have "nk * (i div nk) \<le> i - 1" "i - 1 < nk * Suc (i div nk)" using False unfolding mult_Suc_right by linarith+
    then have "(i - 1) div nk = i div nk" by (intro div_nat_eqI)
    then show ?thesis using False by (simp add: key_core_def c assms(4) t)
  qed
qed

lemma key_loop_eq:
  assumes "length key = 4 * nk" and "0 < nk" and "nk \<le> i" and "i \<le> m" and "4 * m \<le> length k"
    and "take (4 * i) k = concat (map (key_word nk key) [0..<i])" and "rc = (xtime ^^ ((i - 1) div nk)) 1"
  shows "\<exists>k'. key_loop (4 * nk) (4 * m) (4 * i) rc k = Some k' \<and> length k' = length k \<and>
    take (4 * m) k' = concat (map (key_word nk key) [0..<m])"
  using assms(3-7)
proof (induction "m - i" arbitrary: i k rc)
  case 0
  then show ?case by (subst key_loop.simps) simp
next
  case (Suc d)
  let ?w = "key_word nk key"
  have lw: "length (?w j) = 4" for j by (rule length_key_word [OF assms(1,2)])
  have i: "i < m" "0 < i" using Suc.hyps(2) Suc.prems(1) assms(2) by simp_all
  have word: "rd_bytes k (4 * j) 4 = Some (?w j)" if "j < i" for j
  proof -
    have "take 4 (drop (4 * j) (take (4 * i) k)) = take 4 (drop (4 * j) k)" using that by (simp add: drop_take min_absorb1)
    then show ?thesis using concat_words_at [of ?w, OF lw that] that i Suc.prems(3,4) by (simp add: rd_bytes_def)
  qed
  let ?t = "if i mod nk = 0 then map2 (XOR) (SubBytes (RotWord (?w (i - 1)))) (Rcon (i div nk))
     else if nk > 6 \<and> i mod nk = 4 then SubBytes (?w (i - 1)) else ?w (i - 1)"
  have wi: "?w i = map2 (XOR) (?w (i - nk)) ?t" using Suc.prems(1) assms(2) by (subst key_word.simps) simp
  have 4: "rd_bytes k (4 * i - 4) 4 = Some (?w (i - 1))" "rd_bytes k (4 * i - 4 * nk) 4 = Some (?w (i - nk))"
    using word [of "i - 1"] word [of "i - nk"] i assms(2) by (simp_all add: right_diff_distrib')
  define k1 where "k1 = overwrite k (4 * i) (?w i)"
  have wr: "wr_bytes k (4 * i) (?w i) = Some k1" using i Suc.prems(3) by (simp add: wr_bytes_def lw k1_def)
  have step: "key_loop (4 * nk) (4 * m) (4 * i) rc k = key_loop (4 * nk) (4 * m) (4 * Suc i) ((xtime ^^ (i div nk)) 1) k1"
  proof -
    have "4 * i < 4 * m" "4 * i + 4 = 4 * Suc i" using i by simp_all
    then show ?thesis
      by (subst key_loop.simps)
        (simp only: if_True 4 Option.bind.bind_lunit key_core_eq [OF lw assms(2) Suc.prems(1,5)] Let_def prod.case wi [symmetric] wr)
  qed
  have "take (4 * Suc i) k1 = take (4 * i) k @ ?w i"
    using i Suc.prems(3) lw by (simp add: k1_def overwrite_def)
  then have "take (4 * Suc i) k1 = concat (map ?w [0..<Suc i])" using Suc.prems(4) by simp
  moreover have k1: "length k1 = length k" using i Suc.prems(3) lw by (simp add: k1_def)
  moreover have "d = m - Suc i" using Suc.hyps(2) by simp
  ultimately have "\<exists>k'. key_loop (4 * nk) (4 * m) (4 * Suc i) ((xtime ^^ (i div nk)) 1) k1 = Some k' \<and>
      length k' = length k1 \<and> take (4 * m) k' = concat (map ?w [0..<m])"
    using i Suc.prems(1,3) by (intro Suc.hyps(1)) simp_all
  then show ?case unfolding step k1 .
qed

lemma concat_chunks: "4 * n \<le> length key \<Longrightarrow> concat (map (\<lambda>i. take 4 (drop (4 * i) key)) [0..<n]) = take (4 * n) key"
  by (induction n) (simp_all add: take_add [symmetric] add.commute)

text \<open>A context made for \<open>key\<close>.\<close>

definition keyed :: "bytes \<Rightarrow> aes_context \<Rightarrow> bool" where
  "keyed key ctx \<longleftrightarrow> length (ksch ctx) = 240 \<and> unat (rnd ctx) = length key div 4 + 6 \<and>
     take (4 * (length key + 28)) (ksch ctx) = concat (map (key_word (length key div 4) key) [0..<length key + 28])"

lemma aes_set_key1_eq:
  assumes "length key \<in> {16, 24, 32}" and "length (ksch ctx) = 240"
  shows "\<exists>ctx'. aes_set_key1 (key @ post) (of_nat (length key)) ctx = Some (0, ctx') \<and> keyed key ctx'"
proof -
  let ?nk = "length key div 4"
  define m where "m = length key + 28"
  have nk: "length key = 4 * ?nk" "0 < ?nk" "?nk \<le> m" and m: "4 * m \<le> 240" using assms(1) by (auto simp: m_def)
  have u: "unat (of_nat (length key) :: u8) = length key" "unat (push_bit 2 (of_nat (length key) + 28) :: u8) = 4 * m"
    "unat (drop_bit 4 (push_bit 2 (of_nat (length key) + 28)) - 1 :: u8) = ?nk + 6"
    "of_nat (length key) = (16 :: u8) \<or> of_nat (length key) = (24 :: u8) \<or> of_nat (length key) = (32 :: u8)"
    using assms(1) by (auto simp: m_def)
  define k where "k = overwrite (ksch ctx) 0 key"
  have k: "copy_block_nn (ksch ctx) (key @ post) (of_nat (length key)) = Some k" "length k = 240"
    using assms u(1) by (auto simp: copy_block_nn_def rd_bytes_def wr_bytes_def k_def)
  have "take (4 * ?nk) k = concat (map (key_word ?nk key) [0..<?nk])"
  proof -
    have "concat (map (key_word ?nk key) [0..<?nk]) = concat (map (\<lambda>i. take 4 (drop (4 * i) key)) [0..<?nk])"
      by (intro arg_cong [where f = concat] map_cong refl) (subst key_word.simps, simp)
    also have "\<dots> = key" using concat_chunks [of ?nk key] nk(1) by simp
    finally show ?thesis using nk(1) by (simp add: k_def overwrite_zero)
  qed
  then obtain k' where "key_loop (4 * ?nk) (4 * m) (4 * ?nk) 1 k = Some k'" "length k' = 240"
    "take (4 * m) k' = concat (map (key_word ?nk key) [0..<m])"
    using key_loop_eq [OF nk(1,2) order_refl nk(3), of k 1] m k(2) nk(2) by auto
  then show ?thesis
    using u k by (auto simp: aes_set_key1_def Let_def keyed_def m_def simp flip: nk(1))
qed

section \<open>Encryption\<close>

lemma xor_block_eq: "length d = 16 \<Longrightarrow> 16 \<le> length s \<Longrightarrow> xor_block d s = Some (map2 (XOR) d (take 16 s))"
  by (simp add: xor_block_def rd_bytes_def wr_bytes_def overwrite_def)

lemma copy_and_key_eq:
  "length d = 16 \<Longrightarrow> 16 \<le> length s \<Longrightarrow> 16 \<le> length k \<Longrightarrow> copy_and_key d s k = Some (map2 (XOR) (take 16 s) (take 16 k))"
  by (simp add: copy_and_key_def rd_bytes_def wr_bytes_def overwrite_def)

lemma length_round_key:
  assumes "length key \<in> {16, 24, 32}"
  shows "length (round_key key r) = 16"
proof -
  have "length (key_word (length key div 4) key i) = 4" for i using assms by (intro length_key_word) auto
  then show ?thesis using concat_words_length [of "key_word (length key div 4) key" "[4 * r..<4 * r + 4]"] by (simp add: round_key_def)
qed

lemma length_MixColumns [simp]: "length (MixColumns st) = 16"
  by (simp add: MixColumns_def MixColumn_def upt_rec)

lemma length_aes_round [simp]: "length key \<in> {16, 24, 32} \<Longrightarrow> length (aes_round key r st) = 16"
  using length_round_key [of key r] by (simp add: aes_round_def AddRoundKey_def)

lemma length_Cipher [simp]: "length key \<in> {16, 24, 32} \<Longrightarrow> length (Cipher key m) = 16"
  using length_round_key [of key "length key div 4 + 6"] by (simp add: Cipher_def AddRoundKey_def Let_def)

lemma upt_append3: "a \<le> b \<Longrightarrow> b \<le> c \<Longrightarrow> [0..<c] = [0..<a] @ [a..<b] @ [b..<c]"
  using upt_add_eq_append [of 0 a "c - a"] upt_add_eq_append [of a b "c - b"] by simp

lemma keyed_round_key:
  assumes "keyed key ctx" and "length key \<in> {16, 24, 32}" and "r \<le> length key div 4 + 6"
  shows "take 16 (drop (16 * r) (ksch ctx)) = round_key key r" and "16 * r + 16 \<le> length (ksch ctx)"
proof -
  let ?w = "key_word (length key div 4) key" and ?m = "length key + 28"
  have lw: "length (?w i) = 4" for i using assms(2) by (intro length_key_word) auto
  have m: "4 * r + 4 \<le> ?m" using assms(2,3) by auto
  have "[0..<?m] = [0..<4 * r] @ [4 * r..<4 * r + 4] @ [4 * r + 4..<?m]"
    using upt_append3 [of "4 * r" "4 * r + 4" ?m] m by simp
  then have "take (4 * ?m) (ksch ctx) = concat (map ?w [0..<4 * r]) @ round_key key r @ concat (map ?w [4 * r + 4..<?m])"
    using assms(1) by (simp add: keyed_def round_key_def)
  moreover have "length (concat (map ?w [0..<4 * r])) = 16 * r" using concat_words_length [of ?w, OF lw] by simp
  ultimately have "take 16 (drop (16 * r) (take (4 * ?m) (ksch ctx))) = round_key key r"
    using length_round_key [OF assms(2), of r] by simp
  moreover have "take 16 (drop (16 * r) (take (4 * ?m) (ksch ctx))) = take 16 (drop (16 * r) (ksch ctx))"
    using m by (simp add: drop_take min_absorb1)
  ultimately show "take 16 (drop (16 * r) (ksch ctx)) = round_key key r" by simp
  show "16 * r + 16 \<le> length (ksch ctx)" using assms by (auto simp: keyed_def)
qed

lemma encrypt_rounds_eq:
  assumes "keyed key ctx" and "length key \<in> {16, 24, 32}" and "n = length key div 4 + 6"
  shows "r \<le> n \<Longrightarrow> length st = 16 \<Longrightarrow> encrypt_rounds (ksch ctx) n r st = Some (fold (aes_round key) [r..<n] st)"
proof (induction "n - r" arbitrary: r st)
  case 0
  then show ?case by (subst encrypt_rounds.simps) simp
next
  case (Suc d)
  then have r: "r < n" by simp
  have "add_round_key (mix_sub_columns st) (drop (r * 16) (ksch ctx)) = Some (aes_round key r st)"
    using keyed_round_key [OF assms(1,2), of r] r Suc.prems assms(3)
    by (simp add: add_round_key_def mix_sub_columns_eq xor_block_eq aes_round_def AddRoundKey_def mult.commute)
  moreover have "fold (aes_round key) [r..<n] st = fold (aes_round key) [r + 1..<n] (aes_round key r st)"
    using r by (simp add: upt_conv_Cons)
  ultimately show ?case
    using r Suc.hyps(1) [of "r + 1" "aes_round key r st"] Suc.hyps(2) assms(2) by (subst encrypt_rounds.simps) simp
qed

lemma aes_encrypt1_eq:
  assumes "keyed key ctx" and "length key \<in> {16, 24, 32}" and "16 \<le> length m" and "length out = 16"
  shows "aes_encrypt1 m out ctx = Some (0, Cipher key (take 16 m))"
proof -
  let ?n = "length key div 4 + 6"
  have n: "unat (rnd ctx) = ?n" "rnd ctx \<noteq> 0" using assms(1) by (auto simp: keyed_def)
  let ?s1 = "AddRoundKey (take 16 m) (round_key key 0)"
  have l: "length ?s1 = 16" "length (fold (aes_round key) [1..<?n] ?s1) = 16"
  proof -
    show 1: "length ?s1 = 16" using assms length_round_key [of key 0] by (simp add: AddRoundKey_def)
    show "length (fold (aes_round key) [1..<?n] ?s1) = 16"
      using 1 assms(2) by (intro fold_invariant [where P = "\<lambda>st. length st = 16" and Q = "\<lambda>_. True"]) auto
  qed
  have "copy_and_key (replicate 16 0) m (ksch ctx) = Some ?s1"
    using keyed_round_key [OF assms(1,2), of 0] assms(3) by (simp add: copy_and_key_eq AddRoundKey_def)
  moreover have "copy_and_key out (shift_sub_rows st) (drop (?n * 16) (ksch ctx)) =
      Some (AddRoundKey (ShiftRows (SubBytes st)) (round_key key ?n))" if "length st = 16" for st
    using keyed_round_key [OF assms(1,2), of ?n] assms(4) that
    by (simp add: shift_sub_rows_eq copy_and_key_eq AddRoundKey_def mult.commute)
  ultimately show ?thesis
    using n l assms(4) by (simp add: aes_encrypt1_def encrypt_rounds_eq [OF assms(1,2) refl] Cipher_def Let_def)
qed

text \<open>
  Property C6: The key schedule and the block cipher are those of FIPS 197 for keys of 16, 24 and 32
  bytes: after \<open>aes_set_key1\<close> every block is encrypted to the \<open>Cipher\<close> of the standard, defined with
  the S-box as the affine image of the inverse in the field (\<open>gf_inv_correct\<close>). For every other length
  the context is marked, and encryption with it fails and writes nothing; among these lengths are 128 and
  192, the lengths in bits that the comment of utils_aes.h (lines 76 to 81) calls valid: the code
  accepts lengths in bytes only.
\<close>

theorem aes_correct:
  assumes "length (ksch ctx) = 240"
  shows "(length key \<in> {16, 24, 32} \<longrightarrow>
      (\<exists>ctx'. aes_set_key1 (key @ post) (of_nat (length key)) ctx = Some (0, ctx') \<and>
         (\<forall>m out. length m = 16 \<longrightarrow> length out = 16 \<longrightarrow> aes_encrypt1 m out ctx' = Some (0, Cipher key m)))) \<and>
    (keylen \<notin> {16, 24, 32} \<longrightarrow>
      (\<exists>ctx'. aes_set_key1 key keylen ctx = Some (255, ctx') \<and> (\<forall>m out. aes_encrypt1 m out ctx' = Some (255, out))))"
proof (intro conjI impI)
  assume "length key \<in> {16, 24, 32}"
  then show "\<exists>ctx'. aes_set_key1 (key @ post) (of_nat (length key)) ctx = Some (0, ctx') \<and>
      (\<forall>m out. length m = 16 \<longrightarrow> length out = 16 \<longrightarrow> aes_encrypt1 m out ctx' = Some (0, Cipher key m))"
    using aes_set_key1_eq [of key ctx post] assms by (auto simp: aes_encrypt1_eq)
qed (auto simp: aes_set_key1_def aes_encrypt1_def)

theorem aes_correct_witness:
  "\<exists>ctx'. aes_set_key1 (replicate 16 0) 16 \<lparr>ksch = replicate 240 7, rnd = 9\<rparr> = Some (0, ctx') \<and>
     aes_encrypt1 (replicate 16 1) (replicate 16 2) ctx' = Some (0, Cipher (replicate 16 0) (replicate 16 1))"
  using aes_correct [of "\<lparr>ksch = replicate 240 7, rnd = 9\<rparr>" "replicate 16 0" "[]" 16] by auto

section \<open>Chaining\<close>

fun cbc :: "bytes \<Rightarrow> bytes \<Rightarrow> bytes list \<Rightarrow> bytes list" where
  "cbc key iv [] = []"
| "cbc key iv (b # bs) = Cipher key (map2 (XOR) iv b) # cbc key (Cipher key (map2 (XOR) iv b)) bs"

lemma cbc_loop_eq:
  assumes "keyed key ctx" and "length key \<in> {16, 24, 32}" and "\<And>b. b \<in> set bs \<Longrightarrow> length b = 16" and "length iv = 16"
    and "length out0 = length pre" and "16 * length bs \<le> length out"
  shows "cbc_loop (pre @ concat bs @ post) (length pre) (out0 @ out) (int (length bs)) iv ctx =
    Some (0, out0 @ concat (cbc key iv bs) @ drop (16 * length bs) out, last (iv # cbc key iv bs))"
  using assms(3-6)
proof (induction bs arbitrary: pre iv out0 out)
  case Nil
  then show ?case by (subst cbc_loop.simps) simp
next
  case (Cons b bs)
  let ?c = "Cipher key (map2 (XOR) iv b)"
  have b: "length b = 16" and c: "length ?c = 16" using Cons.prems(1) assms(2) by simp_all
  have x: "xor_block iv (drop (length pre) (pre @ concat (b # bs) @ post)) = Some (map2 (XOR) iv b)"
    using b Cons.prems(2) by (simp add: xor_block_eq)
  have e: "aes_encrypt1 (map2 (XOR) iv b) (map2 (XOR) iv b) ctx = Some (0, ?c)"
    using aes_encrypt1_eq [OF assms(1,2), of "map2 (XOR) iv b" "map2 (XOR) iv b"] b Cons.prems(2) by simp
  have w: "copy_block (drop (length pre) (out0 @ out)) ?c = Some (?c @ drop 16 out)"
    using c Cons.prems(3,4) by (simp add: copy_block_def rd_bytes_def wr_bytes_def overwrite_def)
  have "cbc_loop (pre @ concat (b # bs) @ post) (length pre) (out0 @ out) (int (length (b # bs))) iv ctx =
      cbc_loop ((pre @ b) @ concat bs @ post) (length (pre @ b)) ((out0 @ ?c) @ drop 16 out) (int (length bs)) ?c ctx"
    using b Cons.prems(3) x e w by (subst cbc_loop.simps) simp
  also have "\<dots> = Some (0, (out0 @ ?c) @ concat (cbc key ?c bs) @ drop (16 * length bs) (drop 16 out), last (?c # cbc key ?c bs))"
    using Cons.prems b c by (intro Cons.IH) simp_all
  finally show ?case by (simp add: add.commute)
qed

text \<open>\<open>aes_cbc_encrypt1\<close> chains the blocks as in SP 800-38A and leaves the last one in the vector.\<close>

theorem aes_cbc_correct:
  assumes "keyed key ctx" and "length key \<in> {16, 24, 32}" and "\<And>b. b \<in> set bs \<Longrightarrow> length b = 16" and "length iv = 16"
    and "16 * length bs \<le> length out"
  shows "aes_cbc_encrypt1 (concat bs @ post) out (int (length bs)) iv ctx =
    Some (0, concat (cbc key iv bs) @ drop (16 * length bs) out, last (iv # cbc key iv bs))"
  using cbc_loop_eq [OF assms(1-4), where pre = "[]" and ?out0.0 = "[]" and out = out and post = post] assms(5) by (simp add: aes_cbc_encrypt1_def)

end
