(* ===== verification/Utils_Cmac.thy ===== *)
theory Utils_Cmac
  imports Utils_Aes
begin

text \<open>
  sdk/utils/digest/utils_cmac.c: the message authentication code AES-CMAC, computed over a message that
  arrives in pieces, and RFC 4493 as its specification. The functions ignore what \<open>aes_encrypt1\<close> returns.
\<close>

section \<open>The code\<close>

record AES_CMAC_CTX =
  rijndael :: aes_context
  cmac_X :: bytes
  M_last :: bytes
  M_n :: u32

text \<open>The macros; \<open>LSHIFT\<close> is used in place and reads each byte before it is overwritten.\<close>

definition LSHIFT :: "bytes \<Rightarrow> bytes" where
  "LSHIFT v = map (\<lambda>i. push_bit 1 (v ! i) OR drop_bit 7 (v ! (i + 1))) [0..<15] @ [push_bit 1 (v ! 15)]"

definition XOR_into :: "bytes \<Rightarrow> bytes \<Rightarrow> bytes option" where
  "XOR_into v r = do { a \<leftarrow> rd_bytes r 0 16; b \<leftarrow> rd_bytes v 0 16; wr_bytes r 0 (map2 (XOR) a b) }"

definition AES_CMAC_Init :: "AES_CMAC_CTX \<Rightarrow> AES_CMAC_CTX" where
  "AES_CMAC_Init ctx =
     ctx\<lparr>cmac_X := replicate 16 0, M_n := 0, rijndael := (rijndael ctx)\<lparr>ksch := replicate 240 0\<rparr>\<rparr>"

definition AES_CMAC_SetKey :: "AES_CMAC_CTX \<Rightarrow> bytes \<Rightarrow> AES_CMAC_CTX option" where
  "AES_CMAC_SetKey ctx key = do { (_, a) \<leftarrow> aes_set_key1 key 16 (rijndael ctx); Some (ctx\<lparr>rijndael := a\<rparr>) }"

text \<open>The blocks that are not the last, and saving the rest.\<close>

function cmac_blocks :: "AES_CMAC_CTX \<Rightarrow> bytes \<Rightarrow> nat \<Rightarrow> AES_CMAC_CTX option" where
  "cmac_blocks ctx data n =
     (if n > 16 then do {
        x \<leftarrow> XOR_into data (cmac_X ctx);
        (_, x) \<leftarrow> aes_encrypt1 x x (rijndael ctx);
        cmac_blocks (ctx\<lparr>cmac_X := x\<rparr>) (drop 16 data) (n - 16) }
      else do {
        d \<leftarrow> rd_bytes data 0 n;
        l \<leftarrow> wr_bytes (M_last ctx) 0 d;
        Some (ctx\<lparr>M_last := l, M_n := of_nat n\<rparr>) })"
  by pat_completeness auto
termination by (relation "measure (\<lambda>(ctx, data, n). n)") auto

declare cmac_blocks.simps [simp del]

definition AES_CMAC_Update :: "AES_CMAC_CTX \<Rightarrow> bytes \<Rightarrow> u32 \<Rightarrow> AES_CMAC_CTX option" where
  "AES_CMAC_Update ctx data n =
     (if M_n ctx > 0 then do {
        let mlen = min (16 - M_n ctx) n;
        d \<leftarrow> rd_bytes data 0 (unat mlen);
        l \<leftarrow> wr_bytes (M_last ctx) (unat (M_n ctx)) d;
        let ctx = ctx\<lparr>M_last := l, M_n := M_n ctx + mlen\<rparr>;
        if M_n ctx < 16 \<or> n = mlen then Some ctx
        else do {
          x \<leftarrow> XOR_into (M_last ctx) (cmac_X ctx);
          (_, x) \<leftarrow> aes_encrypt1 x x (rijndael ctx);
          cmac_blocks (ctx\<lparr>cmac_X := x\<rparr>) (drop (unat mlen) data) (unat (n - mlen)) } }
      else cmac_blocks ctx data (unat n))"

definition cmac_double :: "bytes \<Rightarrow> bytes" where
  "cmac_double K =
     (if K ! 0 AND 0x80 \<noteq> 0 then let K = LSHIFT K in K[15 := K ! 15 XOR 0x87] else LSHIFT K)"

text \<open>\<open>while (++ctx->M_n < 16) ctx->M_last[ctx->M_n] = 0\<close>\<close>

function cmac_zeros :: "bytes \<Rightarrow> nat \<Rightarrow> (bytes \<times> nat) option" where
  "cmac_zeros l n = (let n = n + 1 in if n < 16 then do { l \<leftarrow> wr l n 0; cmac_zeros l n } else Some (l, n))"
  by pat_completeness auto
termination by (relation "measure (\<lambda>(l, n). 16 - n)") auto

declare cmac_zeros.simps [simp del]

definition AES_CMAC_Final :: "bytes \<Rightarrow> AES_CMAC_CTX \<Rightarrow> (bytes \<times> AES_CMAC_CTX) option" where
  "AES_CMAC_Final digest ctx = do {
     (_, K) \<leftarrow> aes_encrypt1 (replicate 16 0) (replicate 16 0) (rijndael ctx);
     let K = cmac_double K;
     ctx \<leftarrow> (if M_n ctx = 16 then do {
               l \<leftarrow> XOR_into K (M_last ctx);
               Some (ctx\<lparr>M_last := l\<rparr>) }
             else do {
               let K = cmac_double K;
               l \<leftarrow> wr (M_last ctx) (unat (M_n ctx)) 0x80;
               (l, n) \<leftarrow> cmac_zeros l (unat (M_n ctx));
               l \<leftarrow> XOR_into K l;
               Some (ctx\<lparr>M_last := l, M_n := of_nat n\<rparr>) });
     x \<leftarrow> XOR_into (M_last ctx) (cmac_X ctx);
     (_, digest) \<leftarrow> aes_encrypt1 x digest (rijndael ctx);
     Some (digest, ctx\<lparr>cmac_X := x\<rparr>) }"

section \<open>RFC 4493\<close>

text \<open>Blocks as numbers of 128 bits, first byte first.\<close>

definition block_number :: "bytes \<Rightarrow> 128 word" where
  "block_number bs = fold (\<lambda>b w. push_bit 8 w OR ucast b) bs 0"

definition number_block :: "128 word \<Rightarrow> bytes" where
  "number_block w = map (\<lambda>i. ucast (drop_bit (8 * (15 - i)) w)) [0..<16]"

text \<open>The subkeys: doubling in the field of \<open>2 ^ 128\<close> elements.\<close>

definition double :: "128 word \<Rightarrow> 128 word" where
  "double w = (if bit w 127 then push_bit 1 w XOR 0x87 else push_bit 1 w)"

definition subkey1 :: "(bytes \<Rightarrow> bytes) \<Rightarrow> bytes" where
  "subkey1 E = number_block (double (block_number (E (replicate 16 0))))"

definition subkey2 :: "(bytes \<Rightarrow> bytes) \<Rightarrow> bytes" where
  "subkey2 E = number_block (double (double (block_number (E (replicate 16 0)))))"

text \<open>The chain over all blocks but the last, which is not empty unless the message is.\<close>

function chain :: "(bytes \<Rightarrow> bytes) \<Rightarrow> bytes \<Rightarrow> bytes \<Rightarrow> bytes \<times> bytes" where
  "chain E x m = (if length m \<le> 16 then (x, m) else chain E (E (map2 (XOR) x (take 16 m))) (drop 16 m))"
  by pat_completeness auto
termination by (relation "measure (\<lambda>(E, x, m). length m)") auto

declare chain.simps [simp del]

definition cmac :: "(bytes \<Rightarrow> bytes) \<Rightarrow> bytes \<Rightarrow> bytes" where
  "cmac E m =
     (let (x, l) = chain E (replicate 16 0) m;
          l = (if length l = 16 then map2 (XOR) l (subkey1 E)
               else map2 (XOR) (l @ 0x80 # replicate (15 - length l) 0) (subkey2 E))
      in E (map2 (XOR) x l))"

section \<open>Doubling\<close>

lemma bit_block_number:
  "n < 128 \<Longrightarrow> bit (block_number bs) n \<longleftrightarrow> n div 8 < length bs \<and> bit (rev bs ! (n div 8)) (n mod 8)"
proof (induction bs arbitrary: n rule: rev_induct)
  case Nil
  show ?case by (simp add: block_number_def)
next
  case (snoc b bs)
  have "block_number (bs @ [b]) = push_bit 8 (block_number bs) OR ucast b" by (simp add: block_number_def)
  then show ?case
    using snoc.IH [of "n - 8"] snoc.prems
    by (cases "n < 8") (auto simp: bit_simps le_div_geq le_mod_geq dest: bit_imp_le_length)
qed

lemma bit_87: "bit (0x87 :: 128 word) n \<longleftrightarrow> n < 8 \<and> bit (0x87 :: u8) n"
proof -
  have "(0x87 :: 128 word) = ucast (0x87 :: u8)" by simp
  then show ?thesis by (simp only: bit_unsigned_iff) (auto dest: bit_imp_le_length)
qed

lemma block_bit:
  assumes "length bs = 16" and "i < 16" and "j < 8"
  shows "bit (block_number bs) (8 * (15 - i) + j) = bit (bs ! i) j"
  using assms bit_block_number [of "8 * (15 - i) + j" bs] by (simp add: rev_nth)

lemma nth_number_block:
  assumes "i < 16" and "j < 8"
  shows "bit (number_block w ! i) j = bit w (8 * (15 - i) + j)"
proof -
  have "number_block w ! i = ucast (drop_bit (8 * (15 - i)) w)" using assms by (simp add: number_block_def del: upt_rec_numeral)
  then show ?thesis using assms(2) by (simp only: bit_unsigned_iff bit_drop_bit_eq comp_apply) (auto dest: bit_imp_le_length)
qed

lemma bit_double: "bit (push_bit 1 w) n \<longleftrightarrow> 0 < n \<and> n < 128 \<and> bit (w :: 128 word) (n - 1)"
  by (simp only: bit_push_bit_iff possible_bit_word) auto

lemma length_LSHIFT [simp]: "length (LSHIFT v) = 16"
  by (simp add: LSHIFT_def)

lemma bit_LSHIFT:
  assumes "i < 16" and "j < 8"
  shows "bit (LSHIFT v ! i) j \<longleftrightarrow> (if j = 0 then i < 15 \<and> bit (v ! (i + 1)) 7 else bit (v ! i) (j - 1))"
proof -
  have nth: "LSHIFT v ! i = (if i = 15 then push_bit 1 (v ! i) else push_bit 1 (v ! i) OR drop_bit 7 (v ! (i + 1)))"
    using assms(1) by (simp add: LSHIFT_def nth_append del: upt_rec_numeral)
  have shift: "bit (push_bit 1 b) j \<longleftrightarrow> 0 < j \<and> bit b (j - 1)" for b :: u8
    using assms(2) by (simp only: bit_push_bit_iff possible_bit_word) auto
  have high: "bit (b :: u8) (7 + j) \<longleftrightarrow> j = 0 \<and> bit b 7" for b by (cases "j = 0") (auto dest: bit_imp_le_length)
  show ?thesis
    unfolding nth using assms by (auto simp only: shift high bit_or_iff bit_drop_bit_eq comp_apply split: if_splits)
qed

lemma LSHIFT_eq:
  assumes "length bs = 16"
  shows "LSHIFT bs = number_block (push_bit 1 (block_number bs))"
proof (rule nth_equalityI)
  fix i assume "i < length (LSHIFT bs)"
  then have i: "i < 16" by simp
  show "LSHIFT bs ! i = number_block (push_bit 1 (block_number bs)) ! i"
  proof (rule bit_word_eqI)
    fix j assume "j < LENGTH(8)"
    then have j: "j < 8" by simp
    have r: "bit (number_block (push_bit 1 (block_number bs)) ! i) j \<longleftrightarrow>
        0 < 8 * (15 - i) + j \<and> bit (block_number bs) (8 * (15 - i) + j - 1)"
      unfolding nth_number_block [OF i j] bit_double using i j by linarith
    show "bit (LSHIFT bs ! i) j = bit (number_block (push_bit 1 (block_number bs)) ! i) j"
    proof (cases j)
      case 0
      have "8 * (15 - i) - 1 = 8 * (15 - (i + 1)) + 7" if "i < 15" using that by simp
      then show ?thesis using 0 i block_bit [OF assms, of "i + 1" 7] unfolding r bit_LSHIFT [OF i j] by (cases "i < 15") auto
    next
      case (Suc j')
      then show ?thesis using i j block_bit [OF assms i, of j'] unfolding r bit_LSHIFT [OF i j] by simp
    qed
  qed
qed (simp add: number_block_def)

lemma number_block_number:
  assumes "length bs = 16"
  shows "number_block (block_number bs) = bs"
proof (rule nth_equalityI)
  fix i assume "i < length (number_block (block_number bs))"
  then have i: "i < 16" by (simp add: number_block_def)
  show "number_block (block_number bs) ! i = bs ! i"
    by (rule bit_word_eqI) (use i in \<open>simp add: nth_number_block block_bit [OF assms]\<close>)
qed (simp add: number_block_def assms)

lemma block_number_block: "block_number (number_block w) = w"
proof (rule bit_word_eqI)
  fix n assume "n < LENGTH(128)"
  then have n: "n < 128" by simp
  then have "15 - (15 - n div 8) = n div 8" "8 * (n div 8) + n mod 8 = n" "n div 8 < 16" by auto
  then show "bit (block_number (number_block w)) n = bit w n"
    using n bit_block_number [OF n, of "number_block w"]
    by (simp add: number_block_def rev_nth bit_simps del: upt_rec_numeral)
qed

lemma cmac_double_eq:
  assumes "length bs = 16"
  shows "cmac_double bs = number_block (double (block_number bs))"
proof -
  have top: "bs ! 0 AND 0x80 \<noteq> 0 \<longleftrightarrow> bit (block_number bs) 127"
    using block_bit [OF assms, of 0 7] and_exp_eq_0_iff_not_bit [of "bs ! 0" 7] by simp
  have "(LSHIFT bs)[15 := LSHIFT bs ! 15 XOR 0x87] = number_block (push_bit 1 (block_number bs) XOR 0x87)"
  proof (rule nth_equalityI)
    fix i assume "i < length ((LSHIFT bs)[15 := LSHIFT bs ! 15 XOR 0x87])"
    then have i: "i < 16" by simp
    show "(LSHIFT bs)[15 := LSHIFT bs ! 15 XOR 0x87] ! i = number_block (push_bit 1 (block_number bs) XOR 0x87) ! i"
    proof (rule bit_word_eqI)
      fix j assume "j < LENGTH(8)"
      then have j: "j < 8" by simp
      have 1: "bit (number_block (push_bit 1 (block_number bs) XOR 0x87) ! i) j \<longleftrightarrow>
          bit (LSHIFT bs ! i) j \<noteq> bit (0x87 :: 128 word) (8 * (15 - i) + j)"
        unfolding LSHIFT_eq [OF assms] nth_number_block [OF i j] by (simp only: bit_xor_iff)
      have "bit (0x87 :: 128 word) (8 * (15 - i) + j) \<longleftrightarrow> i = 15 \<and> bit (0x87 :: u8) j"
        using i j unfolding bit_87 by (cases "i = 15") auto
      then show "bit ((LSHIFT bs)[15 := LSHIFT bs ! 15 XOR 0x87] ! i) j =
          bit (number_block (push_bit 1 (block_number bs) XOR 0x87) ! i) j"
        unfolding 1 by (cases "i = 15") (auto simp only: nth_list_update_eq nth_list_update_neq bit_xor_iff length_LSHIFT)
    qed
  qed (simp add: number_block_def)
  then show ?thesis using top LSHIFT_eq [OF assms] by (simp add: cmac_double_def double_def Let_def)
qed

lemma length_cmac_double [simp]: "length (cmac_double bs) = 16"
  by (simp add: cmac_double_def Let_def)

section \<open>The chain\<close>

text \<open>
  A block cipher as its users see it: a permutation of blocks for every valid key. The chain over a
  message that goes on continues from the chain over its beginning.
\<close>

locale block_cipher =
  fixes E :: "'k \<Rightarrow> bytes \<Rightarrow> bytes" and valid :: "'k \<Rightarrow> bool"
  assumes length_E: "valid k \<Longrightarrow> length (E k b) = 16"
begin

lemma length_chain:
  "valid k \<Longrightarrow> length x = 16 \<Longrightarrow> length (fst (chain (E k) x m)) = 16 \<and> length (snd (chain (E k) x m)) \<le> 16"
proof (induction "E k" x m rule: chain.induct)
  case (1 x m)
  then show ?case by (subst (1 2) chain.simps) (simp add: length_E)
qed

lemma chain_append:
  "chain (E k) x (m @ d) = (case chain (E k) x m of (y, l) \<Rightarrow> chain (E k) y (l @ d))"
proof (induction "E k" x m rule: chain.induct)
  case (1 x m)
  show ?case
  proof (cases "length m \<le> 16")
    case True
    then show ?thesis by (subst (2) chain.simps) simp
  next
    case False
    have "chain (E k) x (m @ d) = chain (E k) (E k (map2 (XOR) x (take 16 m))) (drop 16 m @ d)"
      using False by (subst chain.simps) simp
    also have "\<dots> = (case chain (E k) (E k (map2 (XOR) x (take 16 m))) (drop 16 m) of (y, l) \<Rightarrow> chain (E k) y (l @ d))"
      using 1 False by simp
    also have "chain (E k) (E k (map2 (XOR) x (take 16 m))) (drop 16 m) = chain (E k) x m"
      using False by (subst (2) chain.simps) simp
    finally show ?thesis .
  qed
qed

lemma length_cmac: "valid k \<Longrightarrow> length (cmac (E k) m) = 16"
  by (simp add: cmac_def length_E Let_def case_prod_beta)

end

interpretation aes: block_cipher Cipher "\<lambda>key. length key \<in> {16, 24, 32}"
  by unfold_locales (rule length_Cipher)

section \<open>Updates\<close>

text \<open>A context that has taken the message \<open>m\<close>.\<close>

definition cmac_holds :: "bytes \<Rightarrow> bytes \<Rightarrow> AES_CMAC_CTX \<Rightarrow> bool" where
  "cmac_holds key m ctx \<longleftrightarrow> keyed key (rijndael ctx) \<and> length (cmac_X ctx) = 16 \<and> length (M_last ctx) = 16 \<and>
     unat (M_n ctx) \<le> 16 \<and> chain (Cipher key) (replicate 16 0) m = (cmac_X ctx, take (unat (M_n ctx)) (M_last ctx))"

lemma XOR_into_eq: "length r = 16 \<Longrightarrow> 16 \<le> length v \<Longrightarrow> XOR_into v r = Some (map2 (XOR) r (take 16 v))"
  by (simp add: XOR_into_def rd_bytes_def wr_bytes_def overwrite_def)

lemma cmac_blocks_eq:
  assumes "length key = 16"
  shows "keyed key (rijndael ctx) \<Longrightarrow> length (cmac_X ctx) = 16 \<Longrightarrow> length (M_last ctx) = 16 \<Longrightarrow>
    \<exists>ctx'. cmac_blocks ctx (d @ post) (length d) = Some ctx' \<and> rijndael ctx' = rijndael ctx \<and> length (cmac_X ctx') = 16 \<and>
      length (M_last ctx') = 16 \<and> unat (M_n ctx') \<le> 16 \<and>
      chain (Cipher key) (cmac_X ctx) d = (cmac_X ctx', take (unat (M_n ctx')) (M_last ctx'))"
proof (induction "length d" arbitrary: ctx d rule: less_induct)
  case less
  show ?case
  proof (cases "16 < length d")
    case True
    let ?x = "Cipher key (map2 (XOR) (cmac_X ctx) (take 16 d))" and ?ctx = "\<lambda>x. ctx\<lparr>cmac_X := x\<rparr>"
    have "XOR_into (d @ post) (cmac_X ctx) = Some (map2 (XOR) (cmac_X ctx) (take 16 d))"
      using True less.prems by (simp add: XOR_into_eq)
    moreover have "aes_encrypt1 (map2 (XOR) (cmac_X ctx) (take 16 d)) (map2 (XOR) (cmac_X ctx) (take 16 d)) (rijndael ctx) = Some (0, ?x)"
      using True less.prems assms by (simp add: aes_encrypt1_eq)
    ultimately have "cmac_blocks ctx (d @ post) (length d) = cmac_blocks (?ctx ?x) (drop 16 d @ post) (length (drop 16 d))"
      using True by (subst cmac_blocks.simps) simp
    moreover have "chain (Cipher key) (cmac_X ctx) d = chain (Cipher key) (cmac_X (?ctx ?x)) (drop 16 d)"
      using True by (subst chain.simps) simp
    ultimately show ?thesis
      using less.hyps [of "drop 16 d" "?ctx ?x"] True less.prems assms by simp
  next
    case False
    then have "unat (of_nat (length d) :: u32) = length d" by (simp add: unat_of_nat)
    then show ?thesis
      using False less.prems
      by (subst cmac_blocks.simps, subst chain.simps) (simp add: rd_bytes_def wr_bytes_def overwrite_zero)
  qed
qed

lemma cmac_update_eq:
  assumes "cmac_holds key m ctx" and "length key = 16" and "length d < 2 ^ 32"
  shows "\<exists>ctx'. AES_CMAC_Update ctx (d @ post) (of_nat (length d)) = Some ctx' \<and> cmac_holds key (m @ d) ctx'"
proof -
  let ?x = "cmac_X ctx" and ?n = "unat (M_n ctx)"
  let ?l = "take ?n (M_last ctx)"
  have u: "unat (of_nat (length d) :: u32) = length d" using assms(3) by (simp add: unat_of_nat)
  have h: "keyed key (rijndael ctx)" "length ?x = 16" "length (M_last ctx) = 16" "?n \<le> 16" "length ?l = ?n"
    "chain (Cipher key) (replicate 16 0) m = (?x, ?l)"
    using assms(1) by (simp_all add: cmac_holds_def)
  have m: "chain (Cipher key) (replicate 16 0) (m @ d) = chain (Cipher key) ?x (?l @ d)"
    by (simp only: aes.chain_append [of key _ m d] h(6) prod.case)
  show ?thesis
  proof (cases "M_n ctx = 0")
    case True
    then obtain ctx' where "cmac_blocks ctx (d @ post) (length d) = Some ctx'" "rijndael ctx' = rijndael ctx" 
      "length (cmac_X ctx') = 16" "length (M_last ctx') = 16" "unat (M_n ctx') \<le> 16"
      "chain (Cipher key) ?x d = (cmac_X ctx', take (unat (M_n ctx')) (M_last ctx'))"
      using cmac_blocks_eq [OF assms(2) h(1-3), of d post] by auto
    then show ?thesis using True u h m by (simp add: AES_CMAC_Update_def cmac_holds_def)
  next
    case False
    define k where "k = min (16 - ?n) (length d)"
    have k: "unat (min (16 - M_n ctx) (of_nat (length d))) = k" "?n + k \<le> 16" "k \<le> length d"
      using h(4) u by (auto simp: k_def min_def word_le_nat_alt unat_sub)
    have n': "unat (M_n ctx + min (16 - M_n ctx) (of_nat (length d))) = ?n + k"
      using k by (simp add: unat_word_ariths)
    let ?M = "overwrite (M_last ctx) ?n (take k d)"
    have M: "length ?M = 16" "take (?n + k) ?M = ?l @ take k d" using h k by (simp_all add: overwrite_def)
    have w: "wr_bytes (M_last ctx) ?n (take k d) = Some ?M" using h k by (simp add: wr_bytes_def)
    have r: "rd_bytes (d @ post) 0 k = Some (take k d)" using k by (simp add: rd_bytes_def)
    have lt: "M_n ctx + min (16 - M_n ctx) (of_nat (length d)) < 16 \<longleftrightarrow> ?n + k < 16"
      using n' by (simp add: word_less_nat_alt)
    have eq: "of_nat (length d) = min (16 - M_n ctx) (of_nat (length d)) \<longleftrightarrow> length d = k"
      by (simp only: word_unat_eq_iff u k(1))
    show ?thesis
    proof (cases "?n + k < 16 \<or> length d = k")
      case True
      then have "take k d = d" using k by (auto simp: k_def)
      then have "chain (Cipher key) ?x (?l @ d) = (?x, take (?n + k) ?M)" using M(2) h k True by (subst chain.simps) auto
      then show ?thesis
        using True False u h m k w r n' lt eq M by (simp add: AES_CMAC_Update_def Let_def cmac_holds_def word_gt_0)
    next
      case False2: False
      then have full: "?n + k = 16" "k < length d" using k by auto
      then have k16: "16 - ?n = k" by simp
      let ?b = "?l @ take k d"
      have b: "?M = ?b" "length ?b = 16" using M full by simp_all
      let ?y = "Cipher key (map2 (XOR) ?x ?b)"
      let ?ctx = "ctx\<lparr>M_last := ?b, M_n := M_n ctx + min (16 - M_n ctx) (of_nat (length d)), cmac_X := ?y\<rparr>"
      have "chain (Cipher key) ?x (?l @ d) = chain (Cipher key) ?y (drop k d)"
        using full h(5) by (subst chain.simps) (simp add: k16)
      moreover have "unat (of_nat (length d) - min (16 - M_n ctx) (of_nat (length d)) :: u32) = length (drop k d)"
        using k u full by (simp add: unat_sub word_le_nat_alt)
      moreover have "XOR_into ?b ?x = Some (map2 (XOR) ?x ?b)"
        using XOR_into_eq [of ?x ?b] h(2) b(2) by (simp only: take_all order_refl)
      moreover have "aes_encrypt1 (map2 (XOR) ?x ?b) (map2 (XOR) ?x ?b) (rijndael ctx) = Some (0, ?y)"
      proof -
        have enc: "aes_encrypt1 c c (rijndael ctx) = Some (0, Cipher key c)" if "length c = 16" for c
          using aes_encrypt1_eq [OF h(1), of c c] assms(2) that by simp
        show ?thesis by (rule enc) (use b(2) h(2) in \<open>simp only: length_map length_zip min.idem\<close>)
      qed
      ultimately show ?thesis
        using cmac_blocks_eq [OF assms(2), of ?ctx "drop k d" post] False False2 full h m k w r n' lt eq b assms(2)
        by (auto simp: AES_CMAC_Update_def Let_def cmac_holds_def word_gt_0)
    qed
  qed
qed

section \<open>The code of a message\<close>

lemma cmac_zeros_eq:
  "length l = 16 \<Longrightarrow> n < 16 \<Longrightarrow> cmac_zeros l n = Some (take (n + 1) l @ replicate (15 - n) 0, 16)"
proof (induction "15 - n" arbitrary: l n)
  case 0
  then show ?case by (subst cmac_zeros.simps) (simp add: Let_def)
next
  case (Suc k)
  then have n: "n + 1 < 16" "15 - n = Suc (15 - (n + 1))" by simp_all
  have "cmac_zeros l n = cmac_zeros (l[n + 1 := 0]) (n + 1)"
    using n Suc.prems by (subst cmac_zeros.simps) (simp add: Let_def wr_def)
  also have "\<dots> = Some (take (n + 2) (l[n + 1 := 0]) @ replicate (15 - (n + 1)) 0, 16)"
    using Suc.hyps(1) [of "n + 1" "l[n + 1 := 0]"] Suc.hyps(2) Suc.prems n by simp
  also have "take (n + 2) (l[n + 1 := 0]) = take (n + 1) l @ [0]"
    using n Suc.prems(1) take_Suc_conv_app_nth [of "n + 1" "l[n + 1 := 0]"] by simp
  finally show ?case using n(2) by simp
qed

lemma length_number_block [simp]: "length (number_block w) = 16"
  by (simp add: number_block_def)

lemma cmac_final_eq:
  assumes "cmac_holds key m ctx" and "length key = 16" and "length digest = 16"
  shows "\<exists>ctx'. AES_CMAC_Final digest ctx = Some (cmac (Cipher key) m, ctx')"
proof -
  let ?x = "cmac_X ctx" and ?n = "unat (M_n ctx)" and ?L = "Cipher key (replicate 16 0)"
  let ?l = "take ?n (M_last ctx)"
  have h: "keyed key (rijndael ctx)" "length ?x = 16" "length (M_last ctx) = 16" "?n \<le> 16" "length ?l = ?n"
    "chain (Cipher key) (replicate 16 0) m = (?x, ?l)"
    using assms(1) by (simp_all add: cmac_holds_def)
  have e: "aes_encrypt1 b out (rijndael ctx) = Some (0, Cipher key b)" if "length b = 16" "length out = 16" for b out
    using aes_encrypt1_eq [OF h(1)] that assms(2) by simp
  have L: "length ?L = 16" using assms(2) by simp
  have k1: "cmac_double ?L = subkey1 (Cipher key)" by (simp add: cmac_double_eq L subkey1_def)
  have k2: "cmac_double (cmac_double ?L) = subkey2 (Cipher key)"
    by (simp add: cmac_double_eq L subkey2_def block_number_block)
  have K: "aes_encrypt1 (replicate 16 0) (replicate 16 0) (rijndael ctx) = Some (0, ?L)" by (intro e) simp_all
  have kl: "length (subkey1 (Cipher key)) = 16" "length (subkey2 (Cipher key)) = 16" by (simp_all add: subkey1_def subkey2_def)
  show ?thesis
  proof (cases "M_n ctx = 16")
    case True
    then have l: "?l = M_last ctx" using h(3) by simp
    then show ?thesis
      using True h L e kl assms(3)
      by (simp add: AES_CMAC_Final_def K k1 Let_def XOR_into_eq cmac_def xor.commute)
  next
    case False
    then have n: "?n < 16" using h(4) by (auto simp: word_unat_eq_iff)
    let ?p = "?l @ 0x80 # replicate (15 - ?n) 0"
    have w: "wr (M_last ctx) ?n 0x80 = Some ((M_last ctx)[?n := 0x80])" using n h(3) by (simp add: wr_def)
    have "take (?n + 1) ((M_last ctx)[?n := 0x80]) = ?l @ [0x80]"
      using n h(3) take_Suc_conv_app_nth [of ?n "(M_last ctx)[?n := 0x80]"] by simp
    then have z: "cmac_zeros ((M_last ctx)[?n := 0x80]) ?n = Some (?p, 16)"
      using cmac_zeros_eq [of "(M_last ctx)[?n := 0x80]" ?n] n h(3) by simp
    have p: "length ?p = 16" using n h(3) by simp
    show ?thesis
      using False h(2,6) e kl p n assms(3)
      by (simp add: AES_CMAC_Final_def K k2 Let_def w z XOR_into_eq cmac_def)
  qed
qed

text \<open>Updates with the pieces of a message, one after the other.\<close>

fun cmac_updates :: "AES_CMAC_CTX \<Rightarrow> bytes list \<Rightarrow> AES_CMAC_CTX option" where
  "cmac_updates ctx [] = Some ctx"
| "cmac_updates ctx (d # ds) = do { ctx \<leftarrow> AES_CMAC_Update ctx d (of_nat (length d)); cmac_updates ctx ds }"

lemma cmac_updates_eq:
  "cmac_holds key m ctx \<Longrightarrow> length key = 16 \<Longrightarrow> (\<And>d. d \<in> set ds \<Longrightarrow> length d < 2 ^ 32) \<Longrightarrow>
    \<exists>ctx'. cmac_updates ctx ds = Some ctx' \<and> cmac_holds key (m @ concat ds) ctx'"
proof (induction ds arbitrary: m ctx)
  case (Cons d ds)
  obtain ctx1 where 1: "AES_CMAC_Update ctx d (of_nat (length d)) = Some ctx1" "cmac_holds key (m @ d) ctx1"
    using cmac_update_eq [OF Cons.prems(1,2), of d "[]"] Cons.prems(3) by auto
  then show ?case using Cons.IH [OF 1(2) Cons.prems(2)] Cons.prems(3) by simp
qed simp

lemma cmac_start:
  assumes "length key = 16" and "length (M_last ctx) = 16"
  shows "\<exists>ctx'. AES_CMAC_SetKey (AES_CMAC_Init ctx) (key @ post) = Some ctx' \<and> cmac_holds key [] ctx'"
proof -
  let ?ctx = "AES_CMAC_Init ctx"
  obtain a where "aes_set_key1 (key @ post) (of_nat (length key)) (rijndael ?ctx) = Some (0, a)" "keyed key a"
    using aes_set_key1_eq [of key "rijndael ?ctx" post] assms(1) by (auto simp: AES_CMAC_Init_def)
  then show ?thesis
    using assms by (simp add: AES_CMAC_SetKey_def cmac_holds_def AES_CMAC_Init_def chain.simps)
qed

text \<open>
  Property C20: the code of a message is the AES-CMAC of RFC 4493, however the message is cut into pieces,
  empty pieces and pieces that end within a block included.
\<close>

theorem cmac_correct:
  assumes "length key = 16" and "length (M_last ctx) = 16" and "\<forall>d \<in> set ds. length d < 2 ^ 32" and "length digest = 16"
  shows "\<exists>ctx'. do {
      ctx \<leftarrow> AES_CMAC_SetKey (AES_CMAC_Init ctx) key;
      ctx \<leftarrow> cmac_updates ctx ds;
      AES_CMAC_Final digest ctx } = Some (cmac (Cipher key) (concat ds), ctx')"
proof -
  obtain c1 where 1: "AES_CMAC_SetKey (AES_CMAC_Init ctx) key = Some c1" "cmac_holds key [] c1"
    using cmac_start [OF assms(1,2), of "[]"] by auto
  obtain c2 where 2: "cmac_updates c1 ds = Some c2" "cmac_holds key (concat ds) c2"
    using cmac_updates_eq [OF 1(2) assms(1), of ds] assms(3) by auto
  show ?thesis using 1(1) 2(1) cmac_final_eq [OF 2(2) assms(1,4)] by simp
qed

theorem cmac_correct_witness:
  "\<exists>ctx'. do {
      ctx \<leftarrow> AES_CMAC_SetKey (AES_CMAC_Init \<lparr>rijndael = \<lparr>ksch = [], rnd = 0\<rparr>, cmac_X = [], M_last = replicate 16 9, M_n = 5\<rparr>)
        (replicate 16 1);
      ctx \<leftarrow> cmac_updates ctx [[1, 2, 3], replicate 20 4, []];
      AES_CMAC_Final (replicate 16 0) ctx } = Some (cmac (Cipher (replicate 16 1)) ([1, 2, 3] @ replicate 20 4), ctx')"
  using cmac_correct [of "replicate 16 1" "\<lparr>rijndael = \<lparr>ksch = [], rnd = 0\<rparr>, cmac_X = [], M_last = replicate 16 9, M_n = 5\<rparr>"
      "[[1, 2, 3], replicate 20 4, []]" "replicate 16 0"] by simp

end
