(* ===== verification/Utils_Common.thy ===== *)
theory Utils_Common
  imports Iotkit_Prelude
begin

text \<open>
  sdk/utils/misc/utils_common.c: hexadecimal text and big-endian numbers. A pointer is the memory from
  its target on; the result of a function that writes is the return value and the memory behind \<open>pdest\<close>.
\<close>

section \<open>The code\<close>

definition ascii_nibble :: "u8 \<Rightarrow> u8" where
  "ascii_nibble nibble = (let hex_digit = nibble + 48 in if 57 < hex_digit then hex_digit + 39 else hex_digit)"

definition hex_nibble :: "u8 \<Rightarrow> u8" where
  "hex_nibble nibble =
     (if 0x30 \<le> nibble \<and> nibble \<le> 0x39 then nibble - 0x30
      else if 0x61 \<le> nibble \<and> nibble \<le> 0x66 then nibble - 0x61 + 10
      else if 0x41 \<le> nibble \<and> nibble \<le> 0x46 then nibble - 0x41 + 10
      else 0)"

definition hex_pair :: "bytes \<Rightarrow> nat \<Rightarrow> u8 option" where
  "hex_pair psrc i = do {
     a \<leftarrow> rd psrc i;
     b \<leftarrow> rd psrc (i + 1);
     Some (push_bit 4 (hex_nibble a) OR hex_nibble b) }"

function hex_forward :: "bytes \<Rightarrow> nat \<Rightarrow> nat \<Rightarrow> nat \<Rightarrow> nat \<Rightarrow> bytes \<Rightarrow> (nat \<times> bytes) option" where
  "hex_forward psrc srclen destlen index n pdest =
     (if index < srclen \<and> n \<le> destlen then do {
        b \<leftarrow> hex_pair psrc index;
        pdest \<leftarrow> wr pdest n b;
        hex_forward psrc srclen destlen (index + 2) (n + 1) pdest }
      else Some (n, pdest))"
  by pat_completeness auto
termination by (relation "measure (\<lambda>(psrc, srclen, destlen, index, n, pdest). srclen - index)") auto

declare hex_forward.simps [simp del]

function hex_backward :: "bytes \<Rightarrow> nat \<Rightarrow> int \<Rightarrow> nat \<Rightarrow> bytes \<Rightarrow> (nat \<times> bytes) option" where
  "hex_backward psrc destlen index n pdest =
     (if index \<ge> 0 \<and> n \<le> destlen then do {
        b \<leftarrow> hex_pair psrc (nat index);
        pdest \<leftarrow> wr pdest n b;
        hex_backward psrc destlen (index - 2) (n + 1) pdest }
      else Some (n, pdest))"
  by pat_completeness auto
termination by (relation "measure (\<lambda>(psrc, destlen, index, n, pdest). nat (index + 2))") auto

declare hex_backward.simps [simp del]

text \<open>\<open>memset(pdest, 0, sizeof(destlen))\<close> clears two bytes.\<close>

definition StringToHex :: "bytes \<Rightarrow> u16 \<Rightarrow> bytes \<Rightarrow> u16 \<Rightarrow> bool \<Rightarrow> (int \<times> bytes) option" where
  "StringToHex psrc srclen pdest destlen reverse = do {
     l \<leftarrow> strlen psrc;
     if l \<noteq> unat srclen then Some (-1, pdest)
     else do {
       pdest \<leftarrow> wr_bytes pdest 0 [0, 0];
       (n, pdest) \<leftarrow> (if \<not> reverse then hex_forward psrc (unat srclen) (unat destlen) 0 0 pdest
                     else hex_backward psrc (unat destlen) (int (unat srclen) - 2) 0 pdest);
       Some (int n, pdest) } }"

text \<open>The bytes in the given order, two digits each; \<open>destlen\<close> is not looked at.\<close>

fun put_digits :: "bytes \<Rightarrow> cursor \<Rightarrow> cursor option" where
  "put_digits [] c = Some c"
| "put_digits (b # bs) c = do {
     c \<leftarrow> put_bytes [ascii_nibble (drop_bit 4 b)] c;
     c \<leftarrow> put_bytes [ascii_nibble (b AND 0xF)] c;
     put_digits bs c }"

definition HexToString :: "bytes \<Rightarrow> u16 \<Rightarrow> bytes \<Rightarrow> u16 \<Rightarrow> bool \<Rightarrow> (int \<times> bytes) option" where
  "HexToString psrc srclen pdest destlen reverse = do {
     bs \<leftarrow> rd_bytes psrc 0 (unat srclen);
     (pdest, n) \<leftarrow> put_digits (if \<not> reverse then bs else rev bs) (pdest, 0);
     Some (int n, pdest) }"

definition Uint16ToHex :: "bytes \<Rightarrow> u16 \<Rightarrow> u16 \<Rightarrow> (int \<times> bytes) option" where
  "Uint16ToHex pdest destlen val =
     (if destlen < 2 then Some (-1, pdest)
      else do {
        pdest \<leftarrow> wr pdest 0 (ucast (drop_bit 8 val AND 0xFF));
        pdest \<leftarrow> wr pdest 1 (ucast (val AND 0xFF));
        Some (0, pdest) })"

definition Uint32ToHex :: "bytes \<Rightarrow> u16 \<Rightarrow> u32 \<Rightarrow> (int \<times> bytes) option" where
  "Uint32ToHex pdest destlen val =
     (if destlen < 4 then Some (-1, pdest)
      else do {
        pdest \<leftarrow> wr pdest 0 (ucast (drop_bit 24 val AND 0xFF));
        pdest \<leftarrow> wr pdest 1 (ucast (drop_bit 16 val AND 0xFF));
        pdest \<leftarrow> wr pdest 2 (ucast (drop_bit 8 val AND 0xFF));
        pdest \<leftarrow> wr pdest 3 (ucast (val AND 0xFF));
        Some (0, pdest) })"

definition HexToUint16 :: "bytes \<Rightarrow> u16 option" where
  "HexToUint16 psrc = do {
     a \<leftarrow> rd psrc 0;
     b \<leftarrow> rd psrc 1;
     Some (push_bit 8 (ucast a) + ucast b) }"

definition HexToUint32 :: "bytes \<Rightarrow> u32 option" where
  "HexToUint32 psrc = do {
     a \<leftarrow> rd psrc 0;
     b \<leftarrow> rd psrc 1;
     c \<leftarrow> rd psrc 2;
     d \<leftarrow> rd psrc 3;
     Some (push_bit 24 (ucast a) + push_bit 16 (ucast b) + push_bit 8 (ucast c) + ucast d) }"

section \<open>Digits\<close>

lemma unat_and_15: "unat ((b :: u8) AND 0xF) = unat b mod 16"
proof -
  have "b AND 0xF = take_bit 4 b" by (simp add: take_bit_eq_mask mask_eq_exp_minus_1)
  then have "unat (b AND 0xF) = take_bit 4 (unat b)" by (simp only: unsigned_take_bit_eq)
  then show ?thesis by (simp add: take_bit_eq_mod)
qed

lemma unat_drop_4: "unat (drop_bit 4 (b :: u8)) = unat b div 16"
  by (simp add: drop_bit_eq_div unat_div)

lemma ascii_nibble_eq: "unat b < 16 \<Longrightarrow> ascii_nibble b = hex_digit (unat b)"
  by (simp add: ascii_nibble_def hex_digit_def Let_def word_less_nat_alt unat_word_ariths)

lemma hex_nibble_digit:
  assumes "k < 16"
  shows "hex_nibble (hex_digit k) = of_nat k"
proof -
  have "list_all (\<lambda>k. hex_nibble (hex_digit k) = of_nat k) [0..<16]"
    by (simp add: upt_rec hex_nibble_def hex_digit_def)
  with assms show ?thesis by (simp add: list_all_iff)
qed

lemma nibbles_join: "push_bit 4 (of_nat (unat b div 16)) OR of_nat (unat b mod 16) = (b :: u8)"
proof -
  have 1: "of_nat (unat b div 16) = drop_bit 4 b" by (simp flip: unat_drop_4)
  have 2: "of_nat (unat b mod 16) = b AND 0xF" by (simp flip: unat_and_15)
  have "b AND 0xF = take_bit 4 b" by (simp add: take_bit_eq_mask mask_eq_exp_minus_1)
  then show ?thesis unfolding 1 2 by (auto intro!: bit_word_eqI simp: bit_simps)
qed

lemma emits_digits: "emits (put_digits bs) (hex bs)"
proof (induction bs)
  case Nil
  show ?case by (simp add: hex_def emits_skip)
next
  case (Cons b bs)
  have "hex (b # bs) = [ascii_nibble (drop_bit 4 b)] @ [ascii_nibble (b AND 0xF)] @ hex bs"
    using unat_byte [of b] by (simp add: hex_def ascii_nibble_eq unat_drop_4 unat_and_15 less_mult_imp_div_less)
  then show ?case by (simp only: put_digits.simps) (intro emits_bind emits_put_bytes Cons)
qed

lemma HexToString_eq:
  assumes "2 * length bs \<le> length d" and "length bs < 65536"
  shows "HexToString (bs @ post) (of_nat (length bs)) d destlen r =
    Some (int (2 * length bs), hex (if r then rev bs else bs) @ drop (2 * length bs) d)"
  using assms emits_run [OF emits_digits, of 0 "if r then rev bs else bs" d]
  by (cases r) (simp_all add: HexToString_def rd_bytes_def unat_of_nat overwrite_zero)

lemma hex_nth:
  "i < length bs \<Longrightarrow> hex bs ! (2 * i) = hex_digit (unat (bs ! i) div 16) \<and>
    hex bs ! (2 * i + 1) = hex_digit (unat (bs ! i) mod 16)"
proof (induction bs arbitrary: i)
  case (Cons b bs)
  have "hex (b # bs) = hex_digit (unat b div 16) # hex_digit (unat b mod 16) # hex bs" by (simp add: hex_def)
  with Cons show ?case by (cases i) simp_all
qed simp

lemma hex_pair_eq:
  assumes "i < length bs"
  shows "hex_pair (hex bs @ post) (2 * i) = Some (bs ! i)"
proof -
  have "unat (bs ! i) div 16 < 16" using unat_byte [of "bs ! i"] by (simp add: less_mult_imp_div_less)
  with assms hex_nth [OF assms] show ?thesis
    by (simp add: hex_pair_def rd_def nth_append hex_nibble_digit nibbles_join)
qed

lemma hex_forward_eq:
  assumes "length bs \<le> destlen + 1" and "length bs \<le> length d" and "i \<le> length bs"
  shows "hex_forward (hex bs @ post) (2 * length bs) destlen (2 * i) i d = Some (length bs, take i d @ drop i bs @ drop (length bs) d)"
  using assms
proof (induction "length bs - i" arbitrary: i d)
  case 0
  then show ?case by (simp add: hex_forward.simps [of _ _ _ "2 * i"])
next
  case (Suc k)
  then have i: "i < length bs" "i < length d" "i \<le> destlen" by auto
  have "hex_forward (hex bs @ post) (2 * length bs) destlen (2 * Suc i) (Suc i) (d[i := bs ! i]) =
      Some (length bs, take (Suc i) (d[i := bs ! i]) @ drop (Suc i) bs @ drop (length bs) (d[i := bs ! i]))"
    using Suc.hyps(2) Suc.prems i by (intro Suc.hyps(1)) auto
  moreover have "take (Suc i) (d[i := bs ! i]) @ drop (Suc i) bs = take i d @ drop i bs"
    using i by (simp add: take_Suc_conv_app_nth Cons_nth_drop_Suc)
  ultimately show ?case
    using i hex_pair_eq [OF i(1), of post] by (subst hex_forward.simps) (simp add: wr_def append_assoc [symmetric] del: append_assoc)
qed

lemma hex_backward_eq:
  assumes "length bs \<le> destlen + 1" and "length bs \<le> length d" and "i \<le> length bs"
  shows "hex_backward (hex bs @ post) destlen (2 * int (length bs - i) - 2) i d =
    Some (length bs, take i d @ drop i (rev bs) @ drop (length bs) d)"
  using assms
proof (induction "length bs - i" arbitrary: i d)
  case 0
  then show ?case by (simp add: hex_backward.simps [of _ _ "- 2"])
next
  case (Suc k)
  then have i: "i < length bs" "i < length d" "i \<le> destlen" by auto
  define j where "j = length bs - Suc i"
  have j: "j < length bs" "rev bs ! i = bs ! j" using i by (simp_all add: j_def rev_nth)
  have idx: "2 * int (length bs - i) - 2 = int (2 * j)" "int (2 * j) - 2 = 2 * int (length bs - Suc i) - 2"
    using i by (simp_all add: j_def of_nat_diff)
  have "hex_backward (hex bs @ post) destlen (int (2 * j) - 2) (Suc i) (d[i := bs ! j]) =
      Some (length bs, take (Suc i) (d[i := bs ! j]) @ drop (Suc i) (rev bs) @ drop (length bs) (d[i := bs ! j]))"
    unfolding idx(2) using Suc.hyps(2) Suc.prems i by (intro Suc.hyps(1)) auto
  moreover have "take (Suc i) (d[i := bs ! j]) @ drop (Suc i) (rev bs) = take i d @ drop i (rev bs)"
    using i j(2) by (simp add: take_Suc_conv_app_nth flip: Cons_nth_drop_Suc)
  ultimately show ?case
    unfolding idx(1) using i hex_pair_eq [OF j(1), of post]
    by (subst hex_backward.simps) (simp add: wr_def append_assoc [symmetric] del: append_assoc of_nat_mult of_nat_numeral)
qed

lemma hex_no_end: "0 \<notin> set (hex bs)"
proof -
  have "hex_digit k \<noteq> 0" if "k < 16" for k
    using that by (auto simp: hex_digit_def word_unat_eq_iff unat_of_nat)
  moreover have "unat b div 16 < 16" for b :: u8 using unat_byte [of b] by (simp add: less_mult_imp_div_less)
  ultimately show ?thesis by (force simp: hex_def)
qed

text \<open>The two cases in which the destination is too short: the digits run over it.\<close>

lemma hex_forward_overrun:
  assumes "length d = destlen" and "destlen < length bs" and "i \<le> destlen"
  shows "hex_forward (hex bs @ post) (2 * length bs) destlen (2 * i) i d = None"
  using assms
proof (induction "destlen - i" arbitrary: i d)
  case 0
  then show ?case by (subst hex_forward.simps) (simp add: wr_def bind_eq_None_conv split: option.split)
next
  case (Suc k)
  have "hex_forward (hex bs @ post) (2 * length bs) destlen (2 * Suc i) (Suc i) (d[i := b]) = None" for b
    using Suc.hyps(2) Suc.prems by (intro Suc.hyps(1)) auto
  then show ?case using Suc.hyps(2) Suc.prems
    by (subst hex_forward.simps) (auto simp: wr_def bind_eq_None_conv split: if_splits)
qed

lemma StringToHex_hex:
  fixes bs :: bytes
  defines "s \<equiv> \<lambda>r. hex (if r then rev bs else bs)"
  assumes "2 * length bs < 65536" and "length bs \<le> unat destlen" and "length bs \<le> length d" and "2 \<le> length d"
  shows "StringToHex (s r @ 0 # post) (of_nat (2 * length bs)) d destlen r =
    Some (int (length bs), bs @ drop (length bs) (overwrite d 0 [0, 0]))"
proof -
  let ?bs = "if r then rev bs else bs"
  have l: "strlen (hex ?bs @ 0 # post) = Some (2 * length bs)"
    using strlen_string [OF hex_no_end, of ?bs post] by simp
  have u: "unat (of_nat (2 * length bs) :: u16) = 2 * length bs" using assms(2) by (simp only: unat_of_nat) simp
  have d: "length (overwrite d 0 [0, 0]) = length d" using assms(5) by simp
  show ?thesis
  proof (cases r)
    case True
    with hex_backward_eq [of ?bs "unat destlen" "overwrite d 0 [0, 0]" 0 "0 # post"] assms l u d show ?thesis
      by (simp add: StringToHex_def wr_bytes_def)
  next
    case False
    with hex_forward_eq [of ?bs "unat destlen" "overwrite d 0 [0, 0]" 0 "0 # post"] assms l u d show ?thesis
      by (simp add: StringToHex_def wr_bytes_def)
  qed
qed

text \<open>
  The bytes \<open>HexToString\<close> writes as text are read back by \<open>StringToHex\<close>, in the given or
  in reverse order, and nothing else changes but the two bytes that are cleared first.
\<close>

theorem hex_roundtrip:
  assumes "2 * length bs < 65536" and "2 * length bs < length s" and "length bs \<le> unat destlen"
    and "length bs \<le> length d" and "2 \<le> length d"
  shows "\<exists>s'. HexToString (bs @ post) (of_nat (length bs)) s slen r = Some (int (2 * length bs), s') \<and>
    StringToHex (s'[2 * length bs := 0]) (of_nat (2 * length bs)) d destlen r =
      Some (int (length bs), bs @ drop (length bs) (overwrite d 0 [0, 0]))"
proof -
  let ?bs = "if r then rev bs else bs"
  obtain z ss where z: "drop (2 * length bs) s = z # ss"
    using assms(2) by (cases "drop (2 * length bs) s") auto
  have s': "HexToString (bs @ post) (of_nat (length bs)) s slen r = Some (int (2 * length bs), hex ?bs @ z # ss)"
    using HexToString_eq [of bs s post slen r] assms z by simp
  have len: "length ?bs = length bs" by simp
  have str: "(hex ?bs @ z # ss)[2 * length bs := 0] = hex ?bs @ 0 # ss"
    using list_update_length [of "hex ?bs" z ss 0] by (simp add: len)
  have "StringToHex (hex ?bs @ 0 # ss) (of_nat (2 * length bs)) d destlen r =
      Some (int (length bs), bs @ drop (length bs) (overwrite d 0 [0, 0]))"
    by (rule StringToHex_hex) (use assms in auto)
  with s' str show ?thesis by simp
qed

theorem hex_roundtrip_witness:
  "\<exists>s'. HexToString [0xAB, 0x01] 2 (replicate 5 1) 5 False = Some (4, s') \<and>
     StringToHex (s'[4 := 0]) 4 [9, 9, 9] 3 False = Some (2, [0xAB, 1, 9])"
  using hex_roundtrip [of "[0xAB, 0x01]" "replicate 5 1" 3 "[9, 9, 9]" "[]" 5 False]
  by (simp add: overwrite_def)

text \<open>
  The bound of the loop of \<open>StringToHex\<close> is \<open>n <= destlen\<close>: text for more bytes than \<open>destlen\<close> is
  written behind a buffer of \<open>destlen\<close> bytes.
\<close>

theorem StringToHex_overrun:
  assumes "unat destlen < length bs" and "2 * length bs < 65536" and "length d = unat destlen"
  shows "StringToHex (hex bs @ 0 # post) (of_nat (2 * length bs)) d destlen False = None"
proof -
  have l: "strlen (hex bs @ 0 # post) = Some (2 * length bs)"
    using strlen_string [OF hex_no_end, of bs post] by simp
  have u: "unat (of_nat (2 * length bs) :: u16) = 2 * length bs" using assms(2) by (simp only: unat_of_nat) simp
  have "hex_forward (hex bs @ 0 # post) (2 * length bs) (unat destlen) 0 0 (overwrite d 0 [0, 0]) = None" if "2 \<le> length d"
    using hex_forward_overrun [of "overwrite d 0 [0, 0]" "unat destlen" bs 0 "0 # post"] assms that by simp
  then show ?thesis using l u assms by (auto simp: StringToHex_def wr_bytes_def)
qed

end
