(* ===== verification/Security.thy ===== *)
theory Security
  imports Utils_Cmac Utils_Common
begin

text \<open>
  sdk/security: the keys of a session (iotx_guider_api.c) and the packets protected with them
  (iotx_crypto_api.c), with the device information of sdk/system/iotx_system_api.c they start from. The
  configuration is \<open>CONFIG_CLOUD_SECURE_MODE == 1\<close>: encrypted and authenticated packets over TCP.
  Strings are memories with a final 0. The source, the destination and the keys do not overlap.
\<close>

section \<open>Device information\<close>

record iotx_device_info_t =
  device_id :: bytes
  device_secret :: bytes
  product_id :: bytes
  product_secret :: bytes
  hardware_version :: bytes
  software_version :: bytes

text \<open>The globals \<open>iotx_device_info\<close> and \<open>iotx_devinfo_inited\<close>.\<close>

type_synonym device_state = "iotx_device_info_t \<times> bool"

definition IOT_SYSTEM_DeviceInit :: "device_state \<Rightarrow> device_state" where
  "IOT_SYSTEM_DeviceInit s =
     (if snd s then s
      else (\<lparr>device_id = replicate 33 0, device_secret = replicate 33 0, product_id = replicate 33 0,
             product_secret = replicate 33 0, hardware_version = replicate 33 0, software_version = replicate 33 0\<rparr>, True))"

definition iotx_device_info_get :: "device_state \<Rightarrow> iotx_device_info_t \<times> device_state" where
  "iotx_device_info_get s = (let s = IOT_SYSTEM_DeviceInit s in (fst s, s))"

text \<open>The library function: \<open>n\<close> bytes are written, the string first and zeros behind it.\<close>

definition strncpy :: "bytes \<Rightarrow> bytes \<Rightarrow> nat \<Rightarrow> bytes option" where
  "strncpy d s n =
     (let t = takeWhile (\<lambda>b. b \<noteq> 0) (take n s)
      in if length t < n \<and> length t = length s then None else wr_bytes d 0 (t @ replicate (n - length t) 0))"

text \<open>The fields of \<open>iotx_conn_info_t\<close> that the security functions use.\<close>

record conn_secrets =
  password :: bytes
  random_str :: bytes
  appskey :: bytes
  nwkskey :: bytes
  up_packetid :: u16
  down_packetid :: u16

definition IOT_SYSTEM_SetDeviceInfo ::
    "bytes \<Rightarrow> bytes \<Rightarrow> bytes \<Rightarrow> bytes \<Rightarrow> bytes \<Rightarrow> bytes \<Rightarrow> conn_secrets \<Rightarrow> device_state \<Rightarrow> (conn_secrets \<times> device_state) option" where
  "IOT_SYSTEM_SetDeviceInfo deviceId deviceSecret productID productSecret hardwareVersion softwareVersion c s = do {
     let (d, s) = iotx_device_info_get s;
     x \<leftarrow> strncpy (device_id d) deviceId 32; let d = d\<lparr>device_id := x\<rparr>;
     x \<leftarrow> strncpy (device_secret d) deviceSecret 32; let d = d\<lparr>device_secret := x\<rparr>;
     x \<leftarrow> strncpy (product_id d) productID 32; let d = d\<lparr>product_id := x\<rparr>;
     x \<leftarrow> strncpy (product_secret d) productSecret 32; let d = d\<lparr>product_secret := x\<rparr>;
     x \<leftarrow> strncpy (hardware_version d) hardwareVersion 32; let d = d\<lparr>hardware_version := x\<rparr>;
     x \<leftarrow> strncpy (software_version d) softwareVersion 32; let d = d\<lparr>software_version := x\<rparr>;
     x \<leftarrow> strncpy (password c) (device_secret d) 32;
     Some (c\<lparr>password := x\<rparr>, (d, snd s)) }"

section \<open>Authentication codes and session keys\<close>

text \<open>The local context: all of it is set before it is used.\<close>

definition local_cmac_ctx :: AES_CMAC_CTX where
  "local_cmac_ctx = \<lparr>rijndael = \<lparr>ksch = replicate 240 0, rnd = 0\<rparr>, cmac_X = replicate 16 0, M_last = replicate 16 0, M_n = 0\<rparr>"

definition calc_cmac :: "bytes \<Rightarrow> u16 \<Rightarrow> bytes \<Rightarrow> bytes \<Rightarrow> bytes option" where
  "calc_cmac buffer n key cMac = do {
     ctx \<leftarrow> AES_CMAC_SetKey (AES_CMAC_Init local_cmac_ctx) key;
     ctx \<leftarrow> AES_CMAC_Update ctx buffer (ucast n);
     (cMac, _) \<leftarrow> AES_CMAC_Final cMac ctx;
     Some cMac }"

definition cal_mic :: "bytes \<Rightarrow> u16 \<Rightarrow> bytes \<Rightarrow> bytes \<Rightarrow> bytes option" where
  "cal_mic src srclen key mic = do {
     ctx \<leftarrow> AES_CMAC_SetKey (AES_CMAC_Init local_cmac_ctx) key;
     ctx \<leftarrow> AES_CMAC_Update ctx src (ucast srclen);
     (Mic, _) \<leftarrow> AES_CMAC_Final (replicate 16 0) ctx;
     wr_bytes mic 0 (take 4 Mic) }"

definition session_nonce :: "u8 \<Rightarrow> bytes \<Rightarrow> bytes option" where
  "session_nonce b random = do {
     let nonce = (replicate 16 0)[0 := b];
     n \<leftarrow> strlen random;
     r \<leftarrow> rd_bytes random 0 n;
     wr_bytes nonce 1 r }"

text \<open>The result is the two keys, \<open>nwkSKey\<close> first.\<close>

definition gen_session_keys :: "bytes \<Rightarrow> bytes \<Rightarrow> bytes \<Rightarrow> bytes \<Rightarrow> (bytes \<times> bytes) option" where
  "gen_session_keys key random nwkSKey appSKey = do {
     nonce \<leftarrow> session_nonce 1 random;
     appSKey \<leftarrow> calc_cmac nonce 16 key appSKey;
     nonce \<leftarrow> session_nonce 2 random;
     nwkSKey \<leftarrow> calc_cmac nonce 16 key nwkSKey;
     Some (nwkSKey, appSKey) }"

section \<open>Packets\<close>

text \<open>\<open>aBlock\<close> with its counter.\<close>

definition a_block :: "u8 \<Rightarrow> u16 \<Rightarrow> bytes \<Rightarrow> u16 \<Rightarrow> bytes" where
  "a_block dir seqId ident ctr =
     [dir, ucast (drop_bit 8 seqId AND 0xFF), ucast (seqId AND 0xFF)] @ ident @
     [0, ucast (drop_bit 8 ctr AND 0xFF), ucast (ctr AND 0xFF)]"

definition xor_at :: "bytes \<Rightarrow> bytes \<Rightarrow> nat \<Rightarrow> nat \<Rightarrow> bytes \<Rightarrow> bytes option" where
  "xor_at dest src p n sBlock = do { b \<leftarrow> rd_bytes src p n; wr_bytes dest p (map2 (XOR) b (take n sBlock)) }"

text \<open>\<open>srclen\<close> is what is left; the index into the two buffers has 8 bits.\<close>

function encrypt_loop :: "aes_context \<Rightarrow> (u16 \<Rightarrow> bytes) \<Rightarrow> bytes \<Rightarrow> nat \<Rightarrow> u8 \<Rightarrow> u16 \<Rightarrow> bytes \<Rightarrow> bytes option" where
  "encrypt_loop ctx aBlock src srclen bufferIndex ctr dest =
     (if srclen \<ge> 16 then do {
        (_, sBlock) \<leftarrow> aes_encrypt1 (aBlock ctr) (replicate 16 0) ctx;
        dest \<leftarrow> xor_at dest src (unat bufferIndex) 16 sBlock;
        encrypt_loop ctx aBlock src (srclen - 16) (bufferIndex + 16) (ctr + 1) dest }
      else if srclen > 0 then do {
        (_, sBlock) \<leftarrow> aes_encrypt1 (aBlock ctr) (replicate 16 0) ctx;
        xor_at dest src (unat bufferIndex) srclen sBlock }
      else Some dest)"
  by pat_completeness auto
termination by (relation "measure (\<lambda>(ctx, aBlock, src, srclen, bufferIndex, ctr, dest). srclen)") auto

declare encrypt_loop.simps [simp del]

definition payload_encrypt :: "bytes \<Rightarrow> u16 \<Rightarrow> bytes \<Rightarrow> u8 \<Rightarrow> u16 \<Rightarrow> bytes \<Rightarrow> bytes \<Rightarrow> bytes option" where
  "payload_encrypt src srclen key dir seqId deviceId dest = do {
     l \<leftarrow> strlen deviceId;
     let i = (of_nat l :: u16);
     if i < 10 then Some dest
     else do {
       (_, ctx) \<leftarrow> aes_set_key1 key 16 \<lparr>ksch = replicate 240 0, rnd = 0\<rparr>;
       ident \<leftarrow> rd_bytes deviceId (unat i - 10) 10;
       encrypt_loop ctx (a_block dir seqId ident) src (unat srclen) 0 1 dest } }"

definition payload_decrypt :: "bytes \<Rightarrow> u16 \<Rightarrow> bytes \<Rightarrow> u8 \<Rightarrow> u16 \<Rightarrow> bytes \<Rightarrow> bytes \<Rightarrow> bytes option" where
  "payload_decrypt src srclen key dir seqId deviceId dest = payload_encrypt src srclen key dir seqId deviceId dest"

definition iotx_comm_payload_encrypt ::
    "bytes \<Rightarrow> bytes \<Rightarrow> u16 \<Rightarrow> bytes \<Rightarrow> u16 \<Rightarrow> conn_secrets \<Rightarrow> (int \<times> bytes \<times> conn_secrets) option" where
  "iotx_comm_payload_encrypt deviceId dest destlen src srclen c =
     (if 2 + unat srclen + 4 > unat destlen then Some (-1, dest, c)
      else do {
        let c = c\<lparr>up_packetid := up_packetid c + 1\<rparr>;
        (_, dest) \<leftarrow> Uint16ToHex dest 2 (up_packetid c);
        t \<leftarrow> payload_encrypt src srclen (appskey c) 0 (up_packetid c) deviceId (drop 2 dest);
        let dest = take 2 dest @ t;
        let p = 2 + unat srclen;
        t \<leftarrow> cal_mic dest (of_nat p) (nwkskey c) (drop p dest);
        Some (int (p + 4), take p dest @ t, c) })"

definition iotx_comm_payload_decrypt ::
    "bytes \<Rightarrow> bytes \<Rightarrow> u16 \<Rightarrow> bytes \<Rightarrow> u16 \<Rightarrow> conn_secrets \<Rightarrow> (int \<times> bytes \<times> conn_secrets) option" where
  "iotx_comm_payload_decrypt deviceId dest destlen src srclen c =
     (if int (unat srclen) - 2 - 4 > int (unat destlen) then Some (-1, dest, c)
      else do {
        let destlen = srclen - 6;
        mic \<leftarrow> cal_mic src (srclen - 4) (nwkskey c) (replicate 4 0);
        m \<leftarrow> (if srclen < 4 then None else rd_bytes src (unat srclen - 4) 4);
        if m = mic then do {
          seqId \<leftarrow> HexToUint16 src;
          let c = c\<lparr>down_packetid := seqId\<rparr>;
          dest \<leftarrow> payload_decrypt (drop 2 src) destlen (appskey c) 1 seqId deviceId dest;
          Some (int (unat destlen), dest, c) }
        else Some (0, dest, c) })"

section \<open>Authentication\<close>

datatype SECURE_MODE = MODE_TCP_GUIDER_FORMENCRYPT | MODE_TCP_GUIDER_FORMPLAIN | MODE_TLS_GUIDER_PLAIN

definition iotx_guider_get_secure_mode :: SECURE_MODE where
  "iotx_guider_get_secure_mode = MODE_TCP_GUIDER_FORMENCRYPT"

text \<open>
  \<open>get_epoch_time\<close> is \<open>utils_http_get_epoch_time\<close>: it may fill the buffer with a time stamp, and returns
  0 when it fails. \<open>seed_random\<close> is \<open>HAL_Srandom\<close> after \<open>atoi\<close>.
\<close>

record 'w guider_env =
  get_epoch_time :: "bytes \<Rightarrow> 'w \<Rightarrow> (nat \<times> bytes) \<times> 'w"
  seed_random :: "bytes \<Rightarrow> 'w \<Rightarrow> 'w"
  draw_random :: "u32 \<Rightarrow> 'w \<Rightarrow> u32 \<times> 'w"

text \<open>The \<open>do\<close> loop with \<open>n\<close> attempts left after the next one.\<close>

fun timestamp_loop :: "'w guider_env \<Rightarrow> nat \<Rightarrow> bytes \<Rightarrow> 'w \<Rightarrow> bytes \<times> 'w" where
  "timestamp_loop e n buf w =
     (let ((ret, buf), w) = get_epoch_time e buf w
      in case n of 0 \<Rightarrow> (buf, w) | Suc n \<Rightarrow> if ret = 0 then timestamp_loop e n buf w else (buf, w))"

declare timestamp_loop.simps [simp del]

definition guider_get_timestamp_str :: "'w guider_env \<Rightarrow> bytes \<Rightarrow> 'w \<Rightarrow> bytes \<times> 'w" where
  "guider_get_timestamp_str e buf w = timestamp_loop e 9 buf w"

text \<open>The library function: the string at \<open>s\<close> is appended to the one at \<open>d\<close>.\<close>

definition strcat :: "bytes \<Rightarrow> bytes \<Rightarrow> bytes option" where
  "strcat d s = do { l \<leftarrow> strlen d; n \<leftarrow> strlen s; wr_bytes d l (take n s @ [0]) }"

definition mode_suffix :: "SECURE_MODE \<Rightarrow> bytes" where
  "mode_suffix m =
     (case m of MODE_TCP_GUIDER_FORMPLAIN \<Rightarrow> literal '':0'' | MODE_TLS_GUIDER_PLAIN \<Rightarrow> literal '':2''
      | MODE_TCP_GUIDER_FORMENCRYPT \<Rightarrow> literal '':1'')"

text \<open>The key of the device: the local array keeps its zeros when the secret has not 32 characters.\<close>

definition secret_key :: "bytes \<Rightarrow> bytes option" where
  "secret_key secret = do { (_, k) \<leftarrow> StringToHex secret 32 (replicate 16 0) 16 False; Some k }"

definition iotx_guider_authenticate ::
    "'w guider_env \<Rightarrow> iotx_device_info_t \<Rightarrow> conn_secrets \<times> 'w \<Rightarrow> (int \<times> conn_secrets \<times> 'w) option" where
  "iotx_guider_authenticate e d s =
     (case s of (c, w) \<Rightarrow> do {
        let (ts, w) = guider_get_timestamp_str e (replicate 16 0) w;
        let w = seed_random e ts w;
        let c = c\<lparr>up_packetid := 0, down_packetid := 0\<rparr>;
        let (r, w) = draw_random e 0x7FFFFFFF w;
        (_, h) \<leftarrow> Uint32ToHex (replicate 4 0) 4 r;
        (_, x) \<leftarrow> HexToString h 4 (random_str c) 16 False;
        let c = c\<lparr>random_str := x, password := replicate 65 0\<rparr>;
        p \<leftarrow> strcat (password c) (random_str c);
        p \<leftarrow> strcat p (mode_suffix iotx_guider_get_secure_mode @ [0]);
        k \<leftarrow> secret_key (device_secret d);
        n \<leftarrow> strlen (random_str c);
        cMac \<leftarrow> calc_cmac (random_str c) (of_nat n) k (replicate 16 0);
        (_, t) \<leftarrow> HexToString cMac 16 (replicate 33 0) 33 False;
        p \<leftarrow> strcat p t;
        Some (0, c\<lparr>password := p\<rparr>, w) })"

definition iotx_guider_auth_gen_keys :: "iotx_device_info_t \<Rightarrow> conn_secrets \<Rightarrow> (int \<times> conn_secrets) option" where
  "iotx_guider_auth_gen_keys d c = do {
     k \<leftarrow> secret_key (device_secret d);
     (n, a) \<leftarrow> gen_session_keys k (random_str c) (nwkskey c) (appskey c);
     Some (0, c\<lparr>nwkskey := n, appskey := a\<rparr>) }"

section \<open>Counter mode\<close>

definition keystream :: "bytes \<Rightarrow> u8 \<Rightarrow> u16 \<Rightarrow> bytes \<Rightarrow> nat \<Rightarrow> u8" where
  "keystream key dir seqId ident n = Cipher key (a_block dir seqId ident (of_nat (n div 16 + 1))) ! (n mod 16)"

text \<open>\<open>m\<close> with the key stream from block \<open>j\<close> on.\<close>

definition ctr_from :: "nat \<Rightarrow> bytes \<Rightarrow> u8 \<Rightarrow> u16 \<Rightarrow> bytes \<Rightarrow> bytes \<Rightarrow> bytes" where
  "ctr_from j key dir seqId ident m = map (\<lambda>n. m ! n XOR keystream key dir seqId ident (16 * j + n)) [0..<length m]"

definition ctr_crypt :: "bytes \<Rightarrow> u8 \<Rightarrow> u16 \<Rightarrow> bytes \<Rightarrow> bytes \<Rightarrow> bytes" where
  "ctr_crypt key dir seqId ident m = ctr_from 0 key dir seqId ident m"

lemma length_ctr_from [simp]: "length (ctr_from j key dir seqId ident m) = length m"
  by (simp add: ctr_from_def)

lemma length_ctr_crypt [simp]: "length (ctr_crypt key dir seqId ident m) = length m"
  by (simp add: ctr_crypt_def)

lemma ctr_crypt_twice: "ctr_crypt key dir seqId ident (ctr_crypt key dir seqId ident m) = m"
  by (rule nth_equalityI) (simp_all add: ctr_crypt_def ctr_from_def xor.assoc)

lemma ctr_from_block:
  assumes "length key = 16"
  shows "ctr_from j key dir seqId ident m =
    map2 (XOR) (take 16 m) (take (min 16 (length m)) (Cipher key (a_block dir seqId ident (of_nat (j + 1))))) @
    ctr_from (j + 1) key dir seqId ident (drop 16 m)"
    (is "?l = ?a @ ?b")
proof (rule nth_equalityI)
  have c: "length (Cipher key b) = 16" for b using assms by simp
  show "length ?l = length (?a @ ?b)" by (simp add: c min_def)
  fix n assume "n < length ?l"
  then have n: "n < length m" by simp
  show "?l ! n = (?a @ ?b) ! n"
  proof (cases "n < 16")
    case True
    then have "(16 * j + n) div 16 = j" by simp
    then show ?thesis using n True by (simp add: ctr_from_def keystream_def nth_append c)
  next
    case False
    then have "(?a @ ?b) ! n = ?b ! (n - 16)" using n by (simp add: nth_append c min_def)
    moreover have "16 * (j + 1) + (n - 16) = 16 * j + n" using False by simp
    ultimately show ?thesis using n False by (simp add: ctr_from_def)
  qed
qed

lemma length_a_block: "length ident = 10 \<Longrightarrow> length (a_block dir seqId ident ctr) = 16"
  by (simp add: a_block_def)

lemma encrypt_loop_eq:
  assumes "keyed key ctx" and "length key = 16" and "length ident = 10"
  shows "length pre = 16 * j \<Longrightarrow> length d0 = 16 * j \<Longrightarrow> 16 * j + length m \<le> 256 \<Longrightarrow> length m \<le> length d \<Longrightarrow>
    encrypt_loop ctx (a_block dir seqId ident) (pre @ m @ post) (length m) (of_nat (16 * j)) (of_nat (j + 1)) (d0 @ d) =
      Some (d0 @ ctr_from j key dir seqId ident m @ drop (length m) d)"
proof (induction "length m" arbitrary: pre j d0 m d rule: less_induct)
  case less
  let ?a = "a_block dir seqId ident" and ?src = "pre @ m @ post"
  let ?s = "Cipher key (?a (of_nat (j + 1)))"
  have s: "length ?s = 16" using assms(2) by simp
  have e: "aes_encrypt1 (?a (of_nat (j + 1))) (replicate 16 0) ctx = Some (0, ?s)"
    using aes_encrypt1_eq [OF assms(1), of "?a (of_nat (j + 1))" "replicate 16 0"] assms(2,3) by (simp add: length_a_block)
  have u: "unat (of_nat (16 * j) :: u8) = 16 * j" if "m \<noteq> []"
    using less.prems(3) that by (simp only: unat_of_nat) (cases m, simp_all)
  have x: "xor_at (d0 @ d) ?src (16 * j) n ?s = Some (d0 @ map2 (XOR) (take n m) (take n ?s) @ drop n d)"
    if "n \<le> length m" "n \<le> 16" for n
    using that less.prems s by (simp add: xor_at_def rd_bytes_def wr_bytes_def overwrite_def)
  show ?case
  proof (cases "16 \<le> length m")
    case True
    let ?c = "map2 (XOR) (take 16 m) (take 16 ?s)"
    define b k where "b = (of_nat (16 * j) :: u8)" and "k = (of_nat (j + 1) :: u16)"
    have bk: "b + 16 = of_nat (16 * (j + 1))" "k + 1 = of_nat (j + 1 + 1)" by (simp_all add: b_def k_def)
    have ub: "unat b = 16 * j" unfolding b_def by (rule u) (use True in auto)
    have "encrypt_loop ctx ?a ?src (length m) b k (d0 @ d) =
        encrypt_loop ctx ?a ?src (length m - 16) (b + 16) (k + 1) ((d0 @ ?c) @ drop 16 d)"
      using True x [of 16] e unfolding k_def [symmetric] by (subst encrypt_loop.simps) (simp add: ub)
    then have "encrypt_loop ctx ?a ?src (length m) (of_nat (16 * j)) (of_nat (j + 1)) (d0 @ d) =
        encrypt_loop ctx ?a ((pre @ take 16 m) @ drop 16 m @ post) (length (drop 16 m)) (of_nat (16 * (j + 1))) (of_nat (j + 1 + 1))
          ((d0 @ ?c) @ drop 16 d)"
      unfolding bk unfolding b_def k_def by (simp only: append_assoc append_take_drop_id length_drop flip: append_assoc [of "take 16 m"])
    also have "\<dots> = Some ((d0 @ ?c) @ ctr_from (j + 1) key dir seqId ident (drop 16 m) @ drop (length (drop 16 m)) (drop 16 d))"
      using True less.prems s by (intro less.hyps) auto
    finally show ?thesis using True ctr_from_block [OF assms(2), of j dir seqId ident m] by simp
  next
    case False
    then have "ctr_from j key dir seqId ident m = map2 (XOR) (take (length m) m) (take (length m) ?s)"
      using ctr_from_block [OF assms(2), of j dir seqId ident m] by (simp add: ctr_from_def)
    then show ?thesis using False u x [of "length m"] e by (subst encrypt_loop.simps) (auto simp: ctr_from_def)
  qed
qed

text \<open>The last ten characters of the identifier of the device.\<close>

definition ident_of :: "bytes \<Rightarrow> bytes" where
  "ident_of s = drop (length s - 10) s"

lemma payload_encrypt_setup:
  assumes "length key = 16" and "10 \<le> length s" and "length s < 65536" and "0 \<notin> set s"
  shows "\<exists>ctx. keyed key ctx \<and> payload_encrypt src srclen (key @ kpost) dir seqId (s @ 0 # spost) dest =
    encrypt_loop ctx (a_block dir seqId (ident_of s)) src (unat srclen) 0 1 dest"
proof -
  obtain ctx where "aes_set_key1 (key @ kpost) 16 \<lparr>ksch = replicate 240 0, rnd = 0\<rparr> = Some (0, ctx)" "keyed key ctx"
    using aes_set_key1_eq [of key "\<lparr>ksch = replicate 240 0, rnd = 0\<rparr>" kpost] assms(1) by auto
  moreover have "unat (of_nat (length s) :: u16) = length s" using assms(3) by (simp add: unat_of_nat)
  moreover from this have "\<not> of_nat (length s) < (10 :: u16)" using assms(2) by (simp add: word_less_nat_alt)
  ultimately show ?thesis
    using assms(2,4) by (auto simp: payload_encrypt_def strlen_string rd_bytes_def ident_of_def Let_def)
qed

text \<open>
  Payloads of at most 256 bytes are encrypted in counter mode, one block of key stream for 16 bytes.
\<close>

lemma payload_encrypt_eq:
  assumes "length key = 16" and "10 \<le> length s" and "length s < 65536" and "0 \<notin> set s"
    and "length m \<le> 256" and "length m \<le> length dest"
  shows "payload_encrypt (m @ post) (of_nat (length m)) (key @ kpost) dir seqId (s @ 0 # spost) dest =
    Some (ctr_crypt key dir seqId (ident_of s) m @ drop (length m) dest)"
proof -
  obtain ctx where ctx: "keyed key ctx" "payload_encrypt (m @ post) (of_nat (length m)) (key @ kpost) dir seqId (s @ 0 # spost) dest =
    encrypt_loop ctx (a_block dir seqId (ident_of s)) (m @ post) (unat (of_nat (length m) :: u16)) 0 1 dest"
    using payload_encrypt_setup [OF assms(1-4)] by metis
  have "length (ident_of s) = 10" using assms(2) by (simp add: ident_of_def)
  moreover have "unat (of_nat (length m) :: u16) = length m" using assms(5) by (simp add: unat_of_nat)
  ultimately show ?thesis
    using encrypt_loop_eq [OF ctx(1) assms(1), of "ident_of s" "[]" 0 "[]" m dest dir seqId post] ctx(2) assms(5,6)
    by (simp add: ctr_crypt_def)
qed

text \<open>The index has 8 bits: it comes back to 0 after 256 bytes, and nothing behind them is ever written.\<close>

lemma encrypt_loop_wraps:
  assumes "keyed key ctx" and "length key = 16" and "\<And>c. length (aBlock c) = 16" and "256 \<le> length src"
  shows "16 dvd unat b \<Longrightarrow> 256 \<le> length dest \<Longrightarrow>
    \<exists>dest'. encrypt_loop ctx aBlock src n b c dest = Some dest' \<and> drop 256 dest' = drop 256 dest \<and> length dest' = length dest"
proof (induction n arbitrary: b c dest rule: less_induct)
  case (less n)
  obtain q where q: "unat b = 16 * q" using less.prems(1) by auto
  then have b: "unat b + 16 \<le> 256" using unat_byte [of b] by simp
  have e: "aes_encrypt1 (aBlock c) (replicate 16 0) ctx = Some (0, Cipher key (aBlock c))"
    using aes_encrypt1_eq [OF assms(1), of "aBlock c" "replicate 16 0"] assms(2,3) by simp
  have x: "\<exists>d. xor_at dest src (unat b) k (Cipher key (aBlock c)) = Some d \<and> drop 256 d = drop 256 dest \<and> length d = length dest"
    if "k \<le> 16" for k
  proof -
    let ?x = "map2 (XOR) (take k (drop (unat b) src)) (take k (Cipher key (aBlock c)))"
    have l: "length ?x = k" "unat b + k \<le> 256" using that b assms(2,4) by simp_all
    then have "xor_at dest src (unat b) k (Cipher key (aBlock c)) = Some (overwrite dest (unat b) ?x)"
      using b less.prems(2) assms(4) by (simp add: xor_at_def rd_bytes_def wr_bytes_def)
    moreover have "drop 256 (overwrite dest (unat b) ?x) = drop 256 dest"
      using l less.prems(2) by (simp add: overwrite_def)
    ultimately show ?thesis using l less.prems(2) by simp
  qed
  have d: "16 dvd unat (b + 16)"
  proof -
    have "unat (b + 16) = (unat b + 16) mod 256" by (simp add: unat_word_ariths)
    then show ?thesis using less.prems(1) by (simp add: dvd_mod)
  qed
  obtain d16 where d16: "xor_at dest src (unat b) 16 (Cipher key (aBlock c)) = Some d16"
    "drop 256 d16 = drop 256 dest" "length d16 = length dest" using x [of 16] by auto
  show ?case
  proof (cases "16 \<le> n")
    case True
    then show ?thesis
      using less.IH [of "n - 16" "b + 16" d16 "c + 1"] d d16 less.prems(2) e by (subst encrypt_loop.simps) simp
  next
    case False
    then show ?thesis using x [of n] e by (subst encrypt_loop.simps) auto
  qed
qed

text \<open>
  Property C30: a payload of more than 256 bytes is not encrypted: the bytes behind the first 256 of the
  destination stay as they were, because the index into the buffers has 8 bits.
\<close>

theorem payload_encrypt_wraps:
  assumes "length key = 16" and "10 \<le> length s" and "length s < 65536" and "0 \<notin> set s"
    and "256 \<le> length src" and "256 \<le> length dest"
  shows "\<exists>dest'. payload_encrypt src srclen key dir seqId (s @ 0 # spost) dest = Some dest' \<and>
    drop 256 dest' = drop 256 dest"
proof -
  obtain ctx where ctx: "keyed key ctx" "payload_encrypt src srclen (key @ []) dir seqId (s @ 0 # spost) dest =
    encrypt_loop ctx (a_block dir seqId (ident_of s)) src (unat srclen) 0 1 dest"
    using payload_encrypt_setup [OF assms(1-4)] by metis
  have "length (a_block dir seqId (ident_of s) c) = 16" for c using assms(2) by (simp add: length_a_block ident_of_def)
  then show ?thesis
    using encrypt_loop_wraps [OF ctx(1) assms(1), of "a_block dir seqId (ident_of s)" src 0 dest "unat srclen" 1] ctx(2) assms(5,6)
    by auto
qed

theorem payload_encrypt_wraps_witness:
  "\<exists>dest'. payload_encrypt (replicate 300 1) 300 (replicate 16 2) 0 1 (replicate 10 65 @ [0]) (replicate 300 9) = Some dest' \<and>
     drop 256 dest' = replicate 44 9"
  using payload_encrypt_wraps [of "replicate 16 2" "replicate 10 65" "replicate 300 1" "replicate 300 9" 300 0 1 "[]"]
  by simp

section \<open>Protected packets\<close>

lemma Uint16ToHex_eq:
  assumes "2 \<le> length d"
  shows "Uint16ToHex d 2 v = Some (0, be16 (unat v) @ drop 2 d)"
proof -
  obtain a b r where "d = a # b # r" using assms by (cases d; cases "tl d") auto
  then have "Uint16ToHex d 2 v = Some (0, [ucast (drop_bit 8 v AND 0xFF), ucast (v AND 0xFF)] @ drop 2 d)"
    by (simp add: Uint16ToHex_def wr_def)
  then show ?thesis unfolding ucast_high_byte_masked unfolding ucast_low_byte be16_def .
qed

lemma HexToUint16_eq: "HexToUint16 (be16 (unat v) @ r) = Some v"
  using u16_of_bytes [of "unat v"] unsigned_less [of v, where ?'a = nat] by (simp add: HexToUint16_def rd_def be16_def)

lemma cmac_of_eq:
  assumes "length key = 16" and "length m < 65536"
  shows "calc_cmac (m @ post) (of_nat (length m)) (key @ kpost) (replicate 16 b) = Some (cmac (Cipher key) m)"
    and "4 \<le> length mic \<Longrightarrow>
      cal_mic (m @ post) (of_nat (length m)) (key @ kpost) mic = Some (take 4 (cmac (Cipher key) m) @ drop 4 mic)"
proof -
  have u: "ucast (of_nat (length m) :: u16) = (of_nat (length m) :: u32)"
    using assms(2) by (simp add: word_unat_eq_iff unat_of_nat unsigned_ucast_eq unsigned_take_bit_eq take_bit_eq_mod)
  obtain c1 where 1: "AES_CMAC_SetKey (AES_CMAC_Init local_cmac_ctx) (key @ kpost) = Some c1" "cmac_holds key [] c1"
    using cmac_start [OF assms(1), of local_cmac_ctx kpost] by (auto simp: local_cmac_ctx_def)
  obtain c2 where 2: "AES_CMAC_Update c1 (m @ post) (of_nat (length m)) = Some c2" "cmac_holds key m c2"
    using cmac_update_eq [OF 1(2) assms(1), of m post] assms(2) by auto
  have 3: "\<exists>c3. AES_CMAC_Final (replicate 16 b) c2 = Some (cmac (Cipher key) m, c3)" for b
    by (rule cmac_final_eq [OF 2(2) assms(1)]) simp
  show "calc_cmac (m @ post) (of_nat (length m)) (key @ kpost) (replicate 16 b) = Some (cmac (Cipher key) m)"
    using 1 2 3 [of b] by (auto simp: calc_cmac_def u)
  have "length (cmac (Cipher key) m) = 16" using assms(1) by (intro aes.length_cmac) simp
  then show "cal_mic (m @ post) (of_nat (length m)) (key @ kpost) mic = Some (take 4 (cmac (Cipher key) m) @ drop 4 mic)"
    if "4 \<le> length mic"
    using 1 2 3 [of 0] that by (auto simp: cal_mic_def u wr_bytes_def overwrite_zero)
qed

text \<open>A packet: the number, the encrypted payload, and the first four bytes of their code.\<close>

definition secure_packet :: "bytes \<Rightarrow> bytes \<Rightarrow> u8 \<Rightarrow> bytes \<Rightarrow> u16 \<Rightarrow> bytes \<Rightarrow> bytes" where
  "secure_packet akey nkey dir ident n m =
     (let body = be16 (unat n) @ ctr_crypt akey dir n ident m in body @ take 4 (cmac (Cipher nkey) body))"

lemma comm_payload_encrypt_eq:
  assumes "length (appskey c) = 16" and "length (nwkskey c) = 16" and "10 \<le> length s" and "length s < 65536" and "0 \<notin> set s"
    and "length m \<le> 256" and "unat destlen \<le> length dest"
  shows "iotx_comm_payload_encrypt (s @ 0 # spost) dest destlen (m @ post) (of_nat (length m)) c =
    (if length m + 6 \<le> unat destlen
     then Some (int (length m + 6),
       secure_packet (appskey c) (nwkskey c) 0 (ident_of s) (up_packetid c + 1) m @ drop (length m + 6) dest,
       c\<lparr>up_packetid := up_packetid c + 1\<rparr>)
     else Some (-1, dest, c))"
proof (cases "length m + 6 \<le> unat destlen")
  case True
  let ?n = "up_packetid c + 1" and ?id = "be16 (unat (up_packetid c + 1))"
  let ?x = "ctr_crypt (appskey c) 0 ?n (ident_of s) m"
  have u: "unat (of_nat (length m) :: u16) = length m" using assms(6) by (simp add: unat_of_nat)
  have p: "payload_encrypt (m @ post) (of_nat (length m)) (appskey c) 0 ?n (s @ 0 # spost) (drop 2 dest) =
      Some (?x @ drop (length m + 2) dest)"
    using payload_encrypt_eq [OF assms(1,3,4,5,6), of "drop 2 dest" post "[]" 0 ?n spost] True assms(7) by (simp add: add.commute)
  have c: "cal_mic ((?id @ ?x) @ drop (length m + 2) dest) (of_nat (length (?id @ ?x))) (nwkskey c) (drop (length m + 2) dest) =
      Some (take 4 (cmac (Cipher (nwkskey c)) (?id @ ?x)) @ drop 4 (drop (length m + 2) dest))"
    using cmac_of_eq(2) [OF assms(2), of "?id @ ?x" "drop (length m + 2) dest" "drop (length m + 2) dest" "[]"] assms(6,7) True
    by simp
  show ?thesis
    using True assms(7) u p c
    by (simp add: iotx_comm_payload_encrypt_def Uint16ToHex_eq Let_def secure_packet_def add.commute)
next
  case False
  have "unat (of_nat (length m) :: u16) = length m" using assms(6) by (simp add: unat_of_nat)
  then show ?thesis using False by (simp add: iotx_comm_payload_encrypt_def)
qed


lemma comm_payload_decrypt_eq:
  assumes "length (appskey c) = 16" and "length (nwkskey c) = 16" and "10 \<le> length s" and "length s < 65536" and "0 \<notin> set s"
    and "length x \<le> 256" and "length x \<le> unat destlen" and "unat destlen \<le> length dest" and "length mic = 4"
  shows "iotx_comm_payload_decrypt (s @ 0 # spost) dest destlen (be16 (unat n) @ x @ mic @ post) (of_nat (length x + 6)) c =
      (if mic = take 4 (cmac (Cipher (nwkskey c)) (be16 (unat n) @ x))
       then Some (int (length x), ctr_crypt (appskey c) 1 n (ident_of s) x @ drop (length x) dest, c\<lparr>down_packetid := n\<rparr>)
       else Some (0, dest, c)) \<and>
    (\<forall>m. length m \<le> 256 \<longrightarrow> length m \<le> unat destlen \<longrightarrow>
      iotx_comm_payload_decrypt (s @ 0 # spost) dest destlen
        (secure_packet (appskey c) (nwkskey c) 1 (ident_of s) n m @ post) (of_nat (length m + 6)) c =
      Some (int (length m), m @ drop (length m) dest, c\<lparr>down_packetid := n\<rparr>))"
proof -
  have main: "iotx_comm_payload_decrypt (s @ 0 # spost) dest destlen (be16 (unat n) @ x @ mic @ post) (of_nat (length x + 6)) c =
      (if mic = take 4 (cmac (Cipher (nwkskey c)) (be16 (unat n) @ x))
       then Some (int (length x), ctr_crypt (appskey c) 1 n (ident_of s) x @ drop (length x) dest, c\<lparr>down_packetid := n\<rparr>)
       else Some (0, dest, c))"
    if x: "length x \<le> 256" "length x \<le> unat destlen" "length mic = 4" for x mic
  proof -
    let ?b = "be16 (unat n) @ x" and ?src = "be16 (unat n) @ x @ mic @ post"
    have u: "unat (of_nat (length x + 6) :: u16) = length x + 6" using x(1) by (simp only: unat_of_nat) simp
    have k: "(of_nat (length x + 6) - 6 :: u16) = of_nat (length x)" "(of_nat (length x + 6) - 4 :: u16) = of_nat (length ?b)"
      by simp_all
    have ul: "unat (of_nat (length x) :: u16) = length x" using x(1) by (simp add: unat_of_nat)
    have c: "cal_mic ?src (of_nat (length ?b)) (nwkskey c) (replicate 4 0) = Some (take 4 (cmac (Cipher (nwkskey c)) ?b))"
      using cmac_of_eq(2) [OF assms(2), of ?b "replicate 4 0" "mic @ post" "[]"] x(1) by simp
    have r: "rd_bytes ?src (length x + 6 - 4) 4 = Some mic" using x(3) by (simp add: rd_bytes_def)
    have 4: "\<not> of_nat (length x + 6) < (4 :: u16)" using u by (simp only: word_less_nat_alt) simp
    have d: "payload_encrypt (drop 2 ?src) (of_nat (length x)) (appskey c) 1 n (s @ 0 # spost) dest =
        Some (ctr_crypt (appskey c) 1 n (ident_of s) x @ drop (length x) dest)"
      using payload_encrypt_eq [OF assms(1,3,4,5) x(1), of dest "mic @ post" "[]" 1 n spost] x(2) assms(8) by simp
    have "int (length x) \<le> int (unat destlen)" using x(2) by (simp only: of_nat_le_iff)
    then have g: "\<not> int (length x + 6) - 2 - 4 > int (unat destlen)" by linarith
    show ?thesis
    proof (cases "mic = take 4 (cmac (Cipher (nwkskey c)) ?b)")
      case True
      have ak: "appskey (c\<lparr>down_packetid := n\<rparr>) = appskey c" by simp
      have "cal_mic ?src (of_nat (length ?b)) (nwkskey c) (replicate 4 0) = Some mic" using c True by simp
      then show ?thesis
        unfolding iotx_comm_payload_decrypt_def u k if_P [OF True]
        by (simp only: Let_def r 4 d g ak payload_decrypt_def HexToUint16_eq ul Option.bind.bind_lunit if_False if_True refl)
    next
      case False
      then show ?thesis
        unfolding iotx_comm_payload_decrypt_def u k
        by (simp only: Let_def c r 4 g Option.bind.bind_lunit if_False)
    qed
  qed
  have "iotx_comm_payload_decrypt (s @ 0 # spost) dest destlen
        (secure_packet (appskey c) (nwkskey c) 1 (ident_of s) n m @ post) (of_nat (length m + 6)) c =
      Some (int (length m), m @ drop (length m) dest, c\<lparr>down_packetid := n\<rparr>)"
    if "length m \<le> 256" "length m \<le> unat destlen" for m
  proof -
    let ?x = "ctr_crypt (appskey c) 1 n (ident_of s) m"
    have "length (cmac (Cipher (nwkskey c)) (be16 (unat n) @ ?x)) = 16" using assms(2) by (intro aes.length_cmac) simp
    then show ?thesis
      using main [of ?x "take 4 (cmac (Cipher (nwkskey c)) (be16 (unat n) @ ?x))"] that
      by (simp add: secure_packet_def Let_def ctr_crypt_twice)
  qed
  then show ?thesis using main [OF assms(6,7,9)] by blast
qed

text \<open>
  Property C12: On a device whose identifier has at least 10 characters, a received packet with a payload of at
  most 256 bytes that fits the destination is accepted exactly when its last four bytes are those of the
  code of the rest. Then its payload is decrypted and its number kept; otherwise nothing is delivered, and
  neither the destination nor the state changes. What the other side packs with the same keys and
  direction 1, within the same bounds, is accepted and comes out as it was put in. The bounds are needed: a
  longer payload is encrypted over its first 256 bytes only, and with a shorter identifier the
  destination is not written.
\<close>

theorem comm_payload_decrypt_correct:
  assumes "length (appskey c) = 16" and "length (nwkskey c) = 16" and "10 \<le> length s" and "length s < 65536" and "0 \<notin> set s"
    and "length x \<le> 256" and "length x \<le> unat destlen" and "unat destlen \<le> length dest" and "length mic = 4"
  shows "iotx_comm_payload_decrypt (s @ 0 # spost) dest destlen (be16 (unat n) @ x @ mic @ post) (of_nat (length x + 6)) c =
      (if mic = take 4 (cmac (Cipher (nwkskey c)) (be16 (unat n) @ x))
       then Some (int (length x), ctr_crypt (appskey c) 1 n (ident_of s) x @ drop (length x) dest, c\<lparr>down_packetid := n\<rparr>)
       else Some (0, dest, c)) \<and>
    (\<forall>m. length m \<le> 256 \<longrightarrow> length m \<le> unat destlen \<longrightarrow>
      iotx_comm_payload_decrypt (s @ 0 # spost) dest destlen
        (secure_packet (appskey c) (nwkskey c) 1 (ident_of s) n m @ post) (of_nat (length m + 6)) c =
      Some (int (length m), m @ drop (length m) dest, c\<lparr>down_packetid := n\<rparr>))"
  by (rule comm_payload_decrypt_eq [OF assms])

text \<open>A packet of fewer than four bytes makes the function read in front of it.\<close>

lemma comm_payload_decrypt_short:
  assumes "srclen < 4"
  shows "iotx_comm_payload_decrypt deviceId dest destlen src srclen c = None"
proof -
  have "unat srclen < 4" using assms by (simp add: word_less_nat_alt)
  then have "\<not> int (unat srclen) - 2 - 4 > int (unat destlen)" by linarith
  then show ?thesis using assms unfolding iotx_comm_payload_decrypt_def
    by (simp only: Let_def if_False if_True) (simp add: bind_eq_None_conv)
qed


theorem comm_payload_decrypt_correct_witness:
  "iotx_comm_payload_decrypt (replicate 10 65 @ [0]) (replicate 5 9) 5
      (secure_packet (replicate 16 1) (replicate 16 2) 1 (replicate 10 65) 8 [1, 2, 3]) 9
      \<lparr>password = [], random_str = [], appskey = replicate 16 1, nwkskey = replicate 16 2, up_packetid = 7, down_packetid = 0\<rparr> =
    Some (3, [1, 2, 3] @ replicate 2 9,
      \<lparr>password = [], random_str = [], appskey = replicate 16 1, nwkskey = replicate 16 2, up_packetid = 7, down_packetid = 8\<rparr>)"
  using comm_payload_decrypt_correct [of "\<lparr>password = [], random_str = [], appskey = replicate 16 1, nwkskey = replicate 16 2,
      up_packetid = 7, down_packetid = 0\<rparr>" "replicate 10 65" "[]" 5 "replicate 5 9" "replicate 4 0" "[]" 8 "[]"]
  by (auto simp: ident_of_def dest!: spec [of _ "[1, 2, 3]"])

section \<open>Sessions\<close>

lemma secret_key_hex:
  assumes "length k = 16"
  shows "secret_key (hex k @ 0 # post) = Some k"
  using StringToHex_hex [of k 16 "replicate 16 0" False post] assms by (simp add: secret_key_def)

text \<open>A secret of any other length than 32 characters silently becomes the key of 16 zeros.\<close>

lemma secret_key_bad:
  assumes "0 \<notin> set s" and "length s \<noteq> 32"
  shows "secret_key (s @ 0 # post) = Some (replicate 16 0)"
  using assms by (simp add: secret_key_def StringToHex_def strlen_string)

lemma strlen_filled: "0 \<notin> set a \<Longrightarrow> 0 < n \<Longrightarrow> strlen (a @ replicate n 0) = Some (length a)"
  by (cases n) (simp_all add: strlen_string)

lemma strcat_eq:
  assumes "0 \<notin> set a" and "0 \<notin> set b" and "length b < n"
  shows "strcat (a @ replicate n 0) (b @ 0 # post) = Some (a @ b @ replicate (n - length b) 0)"
proof -
  have "replicate (n - length b) (0 :: u8) = 0 # replicate (n - Suc (length b)) 0"
    using assms(3) by (simp add: Suc_diff_Suc flip: replicate_Suc)
  then show ?thesis
    using assms by (simp add: strcat_def strlen_filled strlen_string wr_bytes_def overwrite_def)
qed

lemma gen_session_keys_eq:
  assumes "length key = 16" and "0 \<notin> set r" and "length r = 8" and "length n = 16" and "length a = 16"
  shows "gen_session_keys key (r @ 0 # post) n a =
    Some (cmac (Cipher key) (2 # r @ replicate 7 0), cmac (Cipher key) (1 # r @ replicate 7 0))"
proof -
  have "(replicate 16 0)[0 := b] = b # replicate 15 0" for b :: u8
    using replicate_Suc [of 15 "0 :: u8"] by simp
  then have nonce: "session_nonce b (r @ 0 # post) = Some (b # r @ replicate 7 0)" for b
    using assms(2,3) by (simp add: session_nonce_def strlen_string rd_bytes_def wr_bytes_def overwrite_def)
  have c: "calc_cmac (b # r @ replicate 7 0) 16 key x = Some (cmac (Cipher key) (b # r @ replicate 7 0))" if "length x = 16" for b x
  proof -
    obtain c1 where 1: "AES_CMAC_SetKey (AES_CMAC_Init local_cmac_ctx) key = Some c1" "cmac_holds key [] c1"
      using cmac_start [OF assms(1), of local_cmac_ctx "[]"] by (auto simp: local_cmac_ctx_def)
    obtain c2 where 2: "AES_CMAC_Update c1 (b # r @ replicate 7 0) 16 = Some c2" "cmac_holds key (b # r @ replicate 7 0) c2"
      using cmac_update_eq [OF 1(2) assms(1), of "b # r @ replicate 7 0" "[]"] assms(3) by auto
    show ?thesis using 1 2 cmac_final_eq [OF 2(2) assms(1) that] by (auto simp: calc_cmac_def)
  qed
  show ?thesis using nonce c assms(4,5) by (simp add: gen_session_keys_def)
qed

text \<open>The four bytes of a random number, the most significant one first.\<close>

definition nonce :: "u32 \<Rightarrow> bytes" where
  "nonce r = map (\<lambda>k. of_nat (unat r div 2 ^ k)) [24, 16, 8, 0]"

lemma length_nonce [simp]: "length (nonce r) = 4"
  by (simp add: nonce_def)

lemma Uint32ToHex_eq: "Uint32ToHex (replicate 4 0) 4 r = Some (0, nonce r)"
proof -
  have low: "ucast (v AND 0xFF) = (ucast v :: u8)" for v :: u32
  proof -
    have "v AND 0xFF = take_bit 8 v" by (simp add: take_bit_eq_mask mask_eq_exp_minus_1)
    then show ?thesis by (auto intro!: bit_word_eqI simp: bit_simps)
  qed
  have b: "(ucast (drop_bit k r) :: u8) = of_nat (unat r div 2 ^ k)" for k
    by (rule bit_word_eqI) (auto simp: bit_simps bit_of_nat_iff drop_bit_eq_div [symmetric] simp del: drop_bit_of_nat)
  have "Uint32ToHex (replicate 4 0) 4 r =
      Some (0, [ucast (drop_bit 24 r AND 0xFF), ucast (drop_bit 16 r AND 0xFF), ucast (drop_bit 8 r AND 0xFF), ucast (r AND 0xFF)])"
    by (simp add: Uint32ToHex_def wr_def numeral_eq_Suc)
  then show ?thesis
    using b [of 24] b [of 16] b [of 8] b [of 0] unfolding low by (simp only: nonce_def list.map drop_bit_0 id_apply)
qed

text \<open>
  Property C22: An authentication resets the packet numbers, seeds the generator with the time it was
  given, and makes the password: the hexadecimal text of the four bytes of the number it draws then, the mode, and
  in hexadecimal the code of this text under the key of the device. The session keys generated after it
  are the codes of the same text with 1 and 2 in front: all the server needs for them is the password and
  the secret of the device. The device has a secret of 32 hexadecimal digits, and the arrays have the sizes of
  the structures.
\<close>

theorem guider_session:
  assumes "device_secret d = hex k @ 0 # post" and "length k = 16" and "length (random_str c) = 16" and "random_str c ! 8 = 0"
    and "length (appskey c) = 16" and "length (nwkskey c) = 16"
    and "guider_get_timestamp_str e (replicate 16 0) w = (ts, w1)"
    and "draw_random e 0x7FFFFFFF (seed_random e ts w1) = (r, w2)"
  shows "\<exists>c'. iotx_guider_authenticate e d (c, w) = Some (0, c', w2) \<and>
    password c' = hex (nonce r) @ literal '':1'' @ hex (cmac (Cipher k) (hex (nonce r))) @ replicate 23 0 \<and>
    up_packetid c' = 0 \<and> down_packetid c' = 0 \<and>
    iotx_guider_auth_gen_keys d c' = Some (0, c'\<lparr>nwkskey := cmac (Cipher k) (2 # hex (nonce r) @ replicate 7 0),
      appskey := cmac (Cipher k) (1 # hex (nonce r) @ replicate 7 0)\<rparr>)"
proof -
  note t = assms(7) and r = assms(8)
  define h where "h = nonce r"
  have h: "Uint32ToHex (replicate 4 0) 4 r = Some (0, h)" "length h = 4"
    by (simp_all add: h_def Uint32ToHex_eq)
  obtain rr where rr: "drop 8 (random_str c) = 0 # rr" "length rr = 7"
    using assms(3,4) by (cases "drop 8 (random_str c)") (auto simp: nth_via_drop dest: arg_cong [where f = length])
  let ?code = "cmac (Cipher k) (hex h)"
  have lc: "length ?code = 16" using assms(2) by (intro aes.length_cmac) simp
  have x: "HexToString h 4 (random_str c) 16 False = Some (8, hex h @ 0 # rr)"
    using HexToString_eq [of h "random_str c" "[]" 16 False] h(2) assms(3) rr by simp
  have p1: "strcat (replicate 65 0) (hex h @ 0 # rr) = Some (hex h @ replicate 57 0)"
    using strcat_eq [of "[]" "hex h" 65 rr] hex_no_end [of h] h(2) by simp
  have p2: "strcat (hex h @ replicate 57 0) (mode_suffix iotx_guider_get_secure_mode @ [0]) =
      Some ((hex h @ literal '':1'') @ replicate 55 0)"
    using strcat_eq [of "hex h" "literal '':1''" 57 "[]"] hex_no_end [of h]
    by (simp add: mode_suffix_def iotx_guider_get_secure_mode_def literal_def)
  have n: "strlen (hex h @ 0 # rr) = Some 8" using strlen_string [OF hex_no_end, of h rr] h(2) by simp
  have code: "calc_cmac (hex h @ 0 # rr) (of_nat 8) k (replicate 16 0) = Some ?code"
    using cmac_of_eq(1) [OF assms(2), of "hex h" "0 # rr" "[]" 0] h(2) by simp
  have x2: "HexToString ?code 16 (replicate 33 0) 33 False = Some (32, hex ?code @ [0])"
    using HexToString_eq [of ?code "replicate 33 0" "[]" 33 False] lc by simp
  have p3: "strcat ((hex h @ literal '':1'') @ replicate 55 0) (hex ?code @ [0]) =
      Some ((hex h @ literal '':1'') @ hex ?code @ replicate 23 0)"
    using strcat_eq [of "hex h @ literal '':1''" "hex ?code" 55 "[]"] hex_no_end [of h] hex_no_end [of ?code] lc
    by (simp add: literal_def)
  let ?c = "c\<lparr>up_packetid := 0, down_packetid := 0, random_str := hex h @ 0 # rr,
      password := hex h @ literal '':1'' @ hex ?code @ replicate 23 0\<rparr>"
  have "iotx_guider_authenticate e d (c, w) = Some (0, ?c, w2)"
    using t r h(1) x p1 p2 p3 n code x2 secret_key_hex [OF assms(2), of post] assms(1)
    by (simp add: iotx_guider_authenticate_def)
  moreover have "gen_session_keys k (hex h @ 0 # rr) (nwkskey c) (appskey c) =
      Some (cmac (Cipher k) (2 # hex h @ replicate 7 0), cmac (Cipher k) (1 # hex h @ replicate 7 0))"
    using gen_session_keys_eq [OF assms(2) hex_no_end _ assms(6,5)] h(2) by simp
  ultimately show ?thesis unfolding h_def [symmetric]
    using h(2) secret_key_hex [OF assms(2), of post] assms(1) by (auto simp: iotx_guider_auth_gen_keys_def)
qed

text \<open>An environment whose clock server never answers.\<close>

definition demo_guider_env :: "nat guider_env" where
  "demo_guider_env =
     \<lparr>get_epoch_time = (\<lambda>buf n. ((0, buf), Suc n)), seed_random = (\<lambda>_ n. n), draw_random = (\<lambda>_ n. (7, n))\<rparr>"

definition demo_secrets :: conn_secrets where
  "demo_secrets = \<lparr>password = replicate 65 0, random_str = replicate 16 0, appskey = replicate 16 0,
     nwkskey = replicate 16 0, up_packetid = 3, down_packetid = 4\<rparr>"

theorem guider_session_witness:
  "\<exists>c' w'. iotx_guider_authenticate demo_guider_env
       \<lparr>device_id = [0], device_secret = hex (replicate 16 5) @ [0], product_id = [0], product_secret = [0],
        hardware_version = [0], software_version = [0]\<rparr> (demo_secrets, 0) = Some (0, c', w') \<and>
     password c' = hex [0, 0, 0, 7] @ literal '':1'' @ hex (cmac (Cipher (replicate 16 5)) (hex [0, 0, 0, 7])) @ replicate 23 0"
proof -
  let ?d = "\<lparr>device_id = [0], device_secret = hex (replicate 16 5) @ [0], product_id = [0], product_secret = [0],
        hardware_version = [0], software_version = [0]\<rparr>"
  have t: "guider_get_timestamp_str demo_guider_env (replicate 16 0) 0 = (replicate 16 0, 10)"
    by (simp add: guider_get_timestamp_str_def timestamp_loop.simps demo_guider_env_def numeral_eq_Suc)
  have r: "draw_random demo_guider_env 0x7FFFFFFF (seed_random demo_guider_env (replicate 16 0) 10) = (7, 10)"
    by (simp add: demo_guider_env_def)
  have d: "device_secret ?d = hex (replicate 16 5) @ 0 # []" "length (replicate 16 (5 :: u8)) = 16"
    "length (random_str demo_secrets) = 16" "random_str demo_secrets ! 8 = 0"
    "length (appskey demo_secrets) = 16" "length (nwkskey demo_secrets) = 16"
    by (simp_all add: demo_secrets_def)
  have n: "nonce 7 = [0, 0, 0, 7]" by (simp add: nonce_def)
  from guider_session [OF d t r] show ?thesis unfolding n by blast
qed

section \<open>The information of the device\<close>

lemma strncpy_eq:
  assumes "0 \<notin> set s" and "length d = 33" and "d ! 32 = 0"
  shows "strncpy d (s @ 0 # post) 32 = Some (take 32 s @ replicate (33 - min 32 (length s)) 0)"
proof -
  let ?t = "takeWhile (\<lambda>b. b \<noteq> 0) (take 32 (s @ 0 # post))"
  have t: "?t = take 32 s"
  proof (cases "length s < 32")
    case True
    then obtain k where "32 - length s = Suc k" by (cases "32 - length s") auto
    then show ?thesis using assms(1) True by (auto simp: takeWhile_append)
  next
    case False
    then have "\<forall>b \<in> set (take 32 s). b \<noteq> 0" using assms(1) by (metis in_set_takeD)
    then show ?thesis using False by simp
  qed
  have d: "drop 32 d = [0]" using assms(2,3) by (intro nth_equalityI) auto
  have "(replicate (33 - min 32 (length s)) 0 :: bytes) = replicate (32 - length s) 0 @ [0]"
  proof -
    have "33 - min 32 (length s) = Suc (32 - length s)" by arith
    then show ?thesis by (simp add: replicate_append_same)
  qed
  then show ?thesis
    unfolding strncpy_def t using assms(2) d by (simp add: Let_def wr_bytes_def overwrite_def min_def)
qed

lemma strncpy_some: "0 \<in> set s \<Longrightarrow> 32 \<le> length d \<Longrightarrow> \<exists>x. strncpy d s 32 = Some x"
proof -
  assume s: "0 \<in> set s" and d: "32 \<le> length d"
  have "length (takeWhile (\<lambda>b. b \<noteq> 0) (take 32 s)) \<le> 32"
    using length_takeWhile_le [of "\<lambda>b. b \<noteq> 0" "take 32 s"] by simp
  moreover have "length (takeWhile (\<lambda>b. b \<noteq> 0) (take 32 s)) < length s"
  proof (rule ccontr)
    assume n: "\<not> ?thesis"
    then have 1: "take 32 s = s" using length_takeWhile_le [of "\<lambda>b. b \<noteq> 0" "take 32 s"] by simp
    then have "takeWhile (\<lambda>b. b \<noteq> 0) s = s" using n takeWhile_eq_take [of "\<lambda>b. b \<noteq> 0" s] by simp
    then show False using s by (metis set_takeWhileD)
  qed
  ultimately show ?thesis using d by (auto simp: strncpy_def Let_def wr_bytes_def)
qed

text \<open>The fields as strings: of each argument the first 32 characters are kept, with a final 0.\<close>

definition device_field :: "bytes \<Rightarrow> bytes" where
  "device_field s = take 32 s @ replicate (33 - min 32 (length s)) 0"

definition device_ok :: "iotx_device_info_t \<Rightarrow> bool" where
  "device_ok d \<longleftrightarrow> (\<forall>f \<in> {device_id d, device_secret d, product_id d, product_secret d, hardware_version d, software_version d}.
     length f = 33 \<and> f ! 32 = 0)"

text \<open>
  \<open>IOT_SYSTEM_SetDeviceInfo\<close> keeps the first 32 characters of each argument, always with a final 0.
\<close>

theorem device_info_set:
  assumes "snd s \<longrightarrow> device_ok (fst s)" and "32 \<le> length (password c)"
    and "\<forall>x \<in> {i, ds, p, ps, h, v}. 0 \<notin> set x"
  shows "\<exists>c' d. IOT_SYSTEM_SetDeviceInfo (i @ 0 # i') (ds @ 0 # ds') (p @ 0 # p') (ps @ 0 # ps') (h @ 0 # h') (v @ 0 # v') c s =
      Some (c', (d, True)) \<and> device_ok d \<and>
    d = \<lparr>device_id = device_field i, device_secret = device_field ds, product_id = device_field p,
         product_secret = device_field ps, hardware_version = device_field h, software_version = device_field v\<rparr>"
proof -
  define d0 where "d0 = fst (IOT_SYSTEM_DeviceInit s)"
  have d0: "IOT_SYSTEM_DeviceInit s = (d0, True)" "device_ok d0"
    using assms(1) by (cases s; cases "snd s"; simp add: d0_def IOT_SYSTEM_DeviceInit_def device_ok_def)+
  have f: "strncpy f (x @ 0 # y) 32 = Some (device_field x)"
    if "x \<in> {i, ds, p, ps, h, v}" "f \<in> {device_id d0, device_secret d0, product_id d0, product_secret d0, hardware_version d0, software_version d0}" for f x y
    unfolding device_field_def using that assms(3) d0(2) by (intro strncpy_eq) (auto simp: device_ok_def)
  obtain x where x: "strncpy (password c) (device_field ds) 32 = Some x"
    using strncpy_some [of "device_field ds" "password c"] assms(2) by (auto simp: device_field_def)
  have ok: "length (device_field y) = 33 \<and> device_field y ! 32 = 0" for y
    by (auto simp: device_field_def nth_append min_def)
  show ?thesis
    using d0(1) x ok by (simp add: IOT_SYSTEM_SetDeviceInfo_def iotx_device_info_get_def Let_def f device_ok_def)
qed

end
