(* ===== verification/Comm_Mqtt.thy ===== *)
theory Comm_Mqtt
  imports Mqtt_Session Comm_Manager Security
begin

text \<open>
  The back end of the connection manager over MQTT: sdk/comm-if/iotx_comm_if_mqtt.c, with the client of
  Mqtt_Session, the packets and keys of Security, and the five functions the manager of Comm_Manager
  calls (\<open>mqtt_backend\<close>).

  \<open>pclient\<close> of the connection is \<open>NULL\<close>, a live client, or a pointer to a client that was freed; every use of the
  last is undefined. The world of the MQTT client is the secrets of the connection and the platform, and
  \<open>None\<close> after an undefined step of one of its callbacks.
\<close>

section \<open>State\<close>

datatype client_ref = No_client | Live iotx_mc_client_t | Freed

record mqtt_link =
  pclient :: client_ref
  link_secrets :: conn_secrets
  topic_name_tx :: bytes
  topic_name_action :: bytes

text \<open>
  What the back end calls: the platform as the MQTT client sees it (\<open>pl_env\<close>; its callbacks are those of
  this file), the services of the authentication, the allocator with the contents of the new memory,
  \<open>IOT_DataPoint_ParseReceiveDatapoints\<close> and \<open>IOT_SYSTEM_NotifyEvent\<close>, the device information and the
  text \<open>iotx_get_device_info\<close> makes of it.
\<close>

record 'w mqtt_platform =
  pl_env :: "'w env"
  pl_guider :: "'w guider_env"
  pl_malloc :: "nat \<Rightarrow> 'w \<Rightarrow> bytes option \<times> 'w"
  pl_parse_datapoints :: "bytes \<Rightarrow> 'w \<Rightarrow> 'w"
  pl_system_event :: "iotx_system_event_t \<Rightarrow> 'w \<Rightarrow> 'w"
  pl_device :: iotx_device_info_t
  pl_host :: bytes
  pl_device_info :: bytes

type_synonym 'w mworld = "(conn_secrets \<times> 'w) option"

text \<open>The string at the start of a memory.\<close>

definition string_at :: "bytes \<Rightarrow> bytes" where
  "string_at m = takeWhile (\<lambda>b. b \<noteq> 0) m"

definition device_name :: "'w mqtt_platform \<Rightarrow> bytes" where
  "device_name p = string_at (iotx_device_info_t.device_id (pl_device p))"

section \<open>Topics and callbacks\<close>

text \<open>\<open>snprintf\<close> into a buffer of \<open>buf_len\<close> bytes; the assertion only logs.\<close>

definition gen_mqt_topic :: "'w mqtt_platform \<Rightarrow> bytes \<Rightarrow> nat \<Rightarrow> string \<Rightarrow> bytes option" where
  "gen_mqt_topic p buf buf_len name =
     wr_bytes buf 0 (take (buf_len - 1) (literal ''v2/device/'' @ device_name p @ literal ''/'' @ literal name) @ [0])"

definition cloud_data_receive_callback :: "'w mqtt_platform \<Rightarrow> iotx_mqtt_topic_info_t \<Rightarrow> 'w mworld \<Rightarrow> 'w mworld" where
  "cloud_data_receive_callback p msg u = do {
     (s, w) \<leftarrow> u;
     m \<leftarrow> ti_payload msg;
     d \<leftarrow> rd_bytes m 0 (unat (ti_payload_len msg));
     let w = pl_parse_datapoints p d w;
     Some (s, pl_system_event p (event_cloud_comm_data d) w) }"

definition cloud_action_callback :: "'w mqtt_platform \<Rightarrow> iotx_mqtt_topic_info_t \<Rightarrow> 'w mworld \<Rightarrow> 'w mworld" where
  "cloud_action_callback p msg u = do {
     (s, w) \<leftarrow> u;
     m \<leftarrow> ti_payload msg;
     d \<leftarrow> rd_bytes m 0 (unat (ti_payload_len msg));
     Some (s, pl_system_event p (event_cloud_comm_ota d) w) }"

text \<open>The two callbacks as numbers, for the MQTT client.\<close>

definition link_notify :: "'w mqtt_platform \<Rightarrow> nat \<Rightarrow> nat \<Rightarrow> iotx_mqtt_event \<Rightarrow> 'w mworld \<Rightarrow> 'w mworld" where
  "link_notify p fp ctx ev u =
     (case ev of
        IOTX_MQTT_EVENT_PUBLISH_RECVEIVED msg \<Rightarrow>
          if fp = 1 then cloud_data_receive_callback p msg u
          else if fp = 2 then cloud_action_callback p msg u else u
      | _ \<Rightarrow> u)"

section \<open>Authentication, encryption and decryption\<close>

definition iotx_mqtt_pre_auth_process :: "'w mqtt_platform \<Rightarrow> 'w mworld \<Rightarrow> int \<times> 'w mworld" where
  "iotx_mqtt_pre_auth_process p u =
     (case u \<bind> iotx_guider_authenticate (pl_guider p) (pl_device p) of
        None \<Rightarrow> (0, None) | Some (rc, s, w) \<Rightarrow> (rc, Some (s, w)))"

definition iotx_mqtt_post_auth_process :: "'w mqtt_platform \<Rightarrow> 'w mworld \<Rightarrow> int \<times> 'w mworld" where
  "iotx_mqtt_post_auth_process p u =
     (case u of None \<Rightarrow> (0, None)
      | Some (s, w) \<Rightarrow> (case iotx_guider_auth_gen_keys (pl_device p) s of
            None \<Rightarrow> (0, None) | Some (rc, s) \<Rightarrow> (rc, Some (s, w))))"

text \<open>What both processes do with the buffer \<open>out\<close> of a result \<open>n\<close>, an unsigned 16-bit number.\<close>

definition put_payload :: "iotx_mqtt_topic_info_t \<Rightarrow> bytes \<Rightarrow> bytes \<Rightarrow> u16 \<Rightarrow> (int \<times> iotx_mqtt_topic_info_t) option" where
  "put_payload msg payload out n =
     (if n \<le> 0 then Some (-1, msg)
      else do {
        m \<leftarrow> wr_bytes payload 0 (replicate (unat (ti_payload_len msg)) 0);
        d \<leftarrow> rd_bytes out 0 (unat n);
        m \<leftarrow> wr_bytes m 0 d;
        Some (0, msg\<lparr>ti_payload := Some m, ti_payload_len := n\<rparr>) })"

definition iotx_mqtt_up_process ::
    "'w mqtt_platform \<Rightarrow> iotx_mqtt_topic_info_t \<Rightarrow> conn_secrets \<times> 'w \<Rightarrow> (int \<times> iotx_mqtt_topic_info_t \<times> conn_secrets \<times> 'w) option" where
  "iotx_mqtt_up_process p msg sw = do {
     let (s, w) = sw;
     let out_buf_len = ti_payload_len msg + 6;
     let (out_buf, w) = pl_malloc p (unat out_buf_len) w;
     case out_buf of
       None \<Rightarrow> Some (-1, msg, s, w)
     | Some out_buf \<Rightarrow> do {
         payload \<leftarrow> ti_payload msg;
         (n, out_buf, s) \<leftarrow> iotx_comm_payload_encrypt (iotx_device_info_t.device_id (pl_device p)) out_buf out_buf_len payload (ti_payload_len msg) s;
         (ret, msg) \<leftarrow> put_payload msg payload out_buf (of_int n);
         Some (ret, msg, s, w) } }"

definition iotx_mqtt_down_process ::
    "'w mqtt_platform \<Rightarrow> iotx_mqtt_topic_info_t \<Rightarrow> conn_secrets \<times> 'w \<Rightarrow> (int \<times> iotx_mqtt_topic_info_t \<times> conn_secrets \<times> 'w) option" where
  "iotx_mqtt_down_process p msg sw = do {
     let (s, w) = sw;
     let out_buf_len = ti_payload_len msg;
     let (out_buf, w) = pl_malloc p (unat out_buf_len) w;
     case out_buf of
       None \<Rightarrow> Some (-1, msg, s, w)
     | Some out_buf \<Rightarrow> do {
         payload \<leftarrow> ti_payload msg;
         (n, out_buf, s) \<leftarrow> iotx_comm_payload_decrypt (iotx_device_info_t.device_id (pl_device p)) out_buf out_buf_len payload (ti_payload_len msg) s;
         (ret, msg) \<leftarrow> put_payload msg payload out_buf (of_int n);
         Some (ret, msg, s, w) } }"

text \<open>The client calls the two processes and drops their results.\<close>

definition process_msg ::
    "(iotx_mqtt_topic_info_t \<Rightarrow> conn_secrets \<times> 'w \<Rightarrow> (int \<times> iotx_mqtt_topic_info_t \<times> conn_secrets \<times> 'w) option) \<Rightarrow>
     iotx_mqtt_topic_info_t \<Rightarrow> 'w mworld \<Rightarrow> iotx_mqtt_topic_info_t \<times> 'w mworld" where
  "process_msg f msg u =
     (case u \<bind> f msg of None \<Rightarrow> (msg, None) | Some (ret, msg, s, w) \<Rightarrow> (msg, Some (s, w)))"

section \<open>The environment of the client\<close>

definition mqtt_client_env :: "'w mqtt_platform \<Rightarrow> 'w mworld env" where
  "mqtt_client_env p =
     (let e = pl_env p in
      \<lparr>uptime = lift_world (uptime e) 0,
       net_write = (\<lambda>d t. lift_world (net_write e d t) (int (length d))),
       net_read = (\<lambda>n t u. let ((rc, bs), u) = lift_world (\<lambda>w. let (rc, bs, w) = net_read e n t w in ((rc, bs), w)) (-1, []) u
          in (rc, bs, u)),
       net_connect = lift_world (net_connect e) (-1),
       net_disconnect = lift_world (net_disconnect e) (-1),
       env.malloc_ok = (\<lambda>n. lift_world (env.malloc_ok e n) False),
       hal_random = (\<lambda>n. lift_world (env.hal_random e n) 0),
       hal_srandom = (\<lambda>seed. map_option (\<lambda>(s, w). (s, hal_srandom e seed w))),
       hal_delay = (\<lambda>ms. map_option (\<lambda>(s, w). (s, hal_delay e ms w))),
       notify = link_notify p,
       mqtt_pre_auth_process = Some (iotx_mqtt_pre_auth_process p),
       mqtt_post_auth_process = Some (iotx_mqtt_post_auth_process p),
       mqtt_up_process = Some (\<lambda>topic. process_msg (iotx_mqtt_up_process p)),
       mqtt_down_process = Some (process_msg (iotx_mqtt_down_process p)),
       env.device_secret = env.device_secret e,
       password_memory = Some (\<lambda>u. case u of None \<Rightarrow> [] | Some (s, w) \<Rightarrow> string_at (conn_secrets.password s)),
       stack_u16 = stack_u16 e\<rparr>)"

text \<open>An operation of the client on the link.\<close>

definition on_client ::
    "('w mworld env \<Rightarrow> 'w mworld \<Rightarrow> ('a \<times> 'w mworld) option) \<Rightarrow> 'w mqtt_platform \<Rightarrow> mqtt_link \<times> 'w \<Rightarrow> ('a \<times> mqtt_link \<times> 'w) option" where
  "on_client f p lw =
     (case lw of (l, w) \<Rightarrow> do {
        (a, u) \<leftarrow> f (mqtt_client_env p) (Some (link_secrets l, w));
        (s, w) \<leftarrow> u;
        Some (a, l\<lparr>link_secrets := s\<rparr>, w) })"

section \<open>Connecting\<close>

definition iotx_comm_disconnect :: "'w mqtt_platform \<Rightarrow> mqtt_link \<times> 'w \<Rightarrow> (int \<times> mqtt_link \<times> 'w) option" where
  "iotx_comm_disconnect p lw =
     (case pclient (fst lw) of
        No_client \<Rightarrow> Some (0, lw)
      | Freed \<Rightarrow> None
      | Live c \<Rightarrow> do {
          (_, l, w) \<leftarrow> on_client (\<lambda>e u. do { (rc, h, u) \<leftarrow> IOT_MQTT_Destroy e (Some c) u; Some (rc, u) }) p lw;
          Some (0, l\<lparr>pclient := Freed\<rparr>, w) })"

text \<open>\<open>memset\<close> of the parameters leaves \<open>handle_event\<close> zero.\<close>

definition link_params :: "'w mqtt_platform \<Rightarrow> conn_secrets \<Rightarrow> bytes \<Rightarrow> bytes \<Rightarrow> iotx_mqtt_param_t" where
  "link_params p s wb rb =
     \<lparr>prm_host = Some (pl_host p), prm_client_id = Some (device_name p), prm_username = Some (device_name p),
      prm_password = Some (string_at (conn_secrets.password s)), prm_clean_session = 0, prm_request_timeout_ms = 2000,
      prm_keepalive_interval_ms = 60000, prm_pwrite_buf = Some wb, prm_write_buf_size = 1024, prm_pread_buf = Some rb,
      prm_read_buf_size = 1024, prm_event_fp = 0, prm_event_pcontext = 0, prm_reconnect_open = False\<rparr>"

definition link_subscribe ::
    "'w mqtt_platform \<Rightarrow> iotx_mc_client_t \<Rightarrow> bytes \<Rightarrow> nat \<Rightarrow> mqtt_link \<times> 'w \<Rightarrow> ((int \<times> iotx_mc_client_t) \<times> mqtt_link \<times> 'w) option" where
  "link_subscribe p c topic fp =
     on_client (\<lambda>e u. do {
       (rc, h, u) \<leftarrow> IOT_MQTT_Subscribe e (Some c) (Some (string_at topic)) 0 fp 0 u;
       c \<leftarrow> h;
       Some ((rc, c), u) }) p"

definition link_publish ::
    "'w mqtt_platform \<Rightarrow> iotx_mc_client_t \<Rightarrow> bytes \<Rightarrow> iotx_mqtt_topic_info_t \<Rightarrow> mqtt_link \<times> 'w \<Rightarrow>
     ((int \<times> iotx_mc_client_t) \<times> mqtt_link \<times> 'w) option" where
  "link_publish p c topic msg =
     on_client (\<lambda>e u. do {
       (rc, h, _, u) \<leftarrow> IOT_MQTT_Publish e (Some c) (Some (string_at topic)) (Some msg) u;
       c \<leftarrow> h;
       Some ((rc, c), u) }) p"

definition publish_msg :: "u8 \<Rightarrow> u8 \<Rightarrow> bytes \<Rightarrow> u16 \<Rightarrow> iotx_mqtt_topic_info_t" where
  "publish_msg qos retain payload n =
     \<lparr>ti_packet_id = 0, ti_qos = qos, ti_dup = 0, ti_retain = retain, ti_topic_len = 0, ti_payload_len = n,
      ti_ptopic = None, ti_payload = Some payload\<rparr>"

text \<open>
  The two subscriptions and the publication of the device information, from the array \<open>msg_buf\<close> of 256
  bytes; a negative result is a jump to \<open>do_exit\<close>.
\<close>

definition start_session ::
    "'w mqtt_platform \<Rightarrow> iotx_mc_client_t \<Rightarrow> mqtt_link \<times> 'w \<Rightarrow> ((int \<times> iotx_mc_client_t) \<times> mqtt_link \<times> 'w) option" where
  "start_session p c lw = do {
     let (l, w) = lw;
     t \<leftarrow> gen_mqt_topic p (topic_name_tx l) 64 ''tx'';
     let l = l\<lparr>topic_name_tx := t\<rparr>;
     ((rc, c), l, w) \<leftarrow> link_subscribe p c t 1 (l, w);
     if rc < 0 then Some ((rc, c), l, w)
     else do {
       t \<leftarrow> gen_mqt_topic p (topic_name_action l) 64 ''action'';
       let l = l\<lparr>topic_name_action := t\<rparr>;
       ((rc, c), l, w) \<leftarrow> link_subscribe p c t 2 (l, w);
       if rc < 0 then Some ((rc, c), l, w)
       else if length (pl_device_info p) \<ge> 256 then Some ((-1, c), l, w)
       else do {
         let msg_buf = pl_device_info p @ replicate (256 - length (pl_device_info p)) 0;
         t \<leftarrow> gen_mqt_topic p (replicate 64 0) 64 ''info'';
         ((rc, c), l, w) \<leftarrow> link_publish p c t (publish_msg 1 1 msg_buf (of_nat (length (pl_device_info p)))) (l, w);
         Some ((if rc < 0 then -1 else 0, c), l, w) } } }"

text \<open>\<open>do_exit\<close> frees the two buffers before \<open>IOT_MQTT_Destroy\<close> uses them: freed memory has no readable byte.\<close>

definition iotx_comm_connect :: "'w mqtt_platform \<Rightarrow> mqtt_link \<times> 'w \<Rightarrow> (int \<times> mqtt_link \<times> 'w) option" where
  "iotx_comm_connect p lw = do {
     (_, l, w) \<leftarrow> iotx_comm_disconnect p lw;
     let (wb, w) = pl_malloc p 1024 w;
     case wb of None \<Rightarrow> Some (-1, l, w)
     | Some wb \<Rightarrow> do {
         let (rb, w) = pl_malloc p 1024 w;
         case rb of None \<Rightarrow> Some (-1, l, w)
         | Some rb \<Rightarrow> do {
             (h, l, w) \<leftarrow> on_client (\<lambda>e. IOT_MQTT_Construct e (Some (link_params p (link_secrets l) wb rb))) p (l, w);
             case h of None \<Rightarrow> Some (-1, l, w)
             | Some c \<Rightarrow> do {
                 ((rc, c), l, w) \<leftarrow> start_session p c (l, w);
                 if rc < 0 then do {
                   let c = c\<lparr>buf_send := [], buf_read := []\<rparr>;
                   (_, l, w) \<leftarrow> on_client (\<lambda>e u. do { (rc, h, u) \<leftarrow> IOT_MQTT_Destroy e (Some c) u; Some (rc, u) }) p (l, w);
                   Some (-1, l, w) }
                 else Some (0, l\<lparr>pclient := Live c\<rparr>, w) } } } }"

section \<open>The other functions of the back end\<close>

definition iotx_comm_isconnected :: "mqtt_link \<times> 'w \<Rightarrow> (bool \<times> mqtt_link \<times> 'w) option" where
  "iotx_comm_isconnected lw =
     (case pclient (fst lw) of
        No_client \<Rightarrow> Some (False, lw)
      | Freed \<Rightarrow> None
      | Live c \<Rightarrow> Some (IOT_MQTT_CheckStateNormal (Some c) \<noteq> 0, lw))"

definition iotx_comm_send :: "'w mqtt_platform \<Rightarrow> iotx_conn_send_t \<Rightarrow> bytes \<Rightarrow> u16 \<Rightarrow> mqtt_link \<times> 'w \<Rightarrow> (int \<times> mqtt_link \<times> 'w) option" where
  "iotx_comm_send p sendType data datalen lw =
     (case pclient (fst lw) of
        No_client \<Rightarrow> Some (-1, lw)
      | r \<Rightarrow> do {
          let topic_tail = (case sendType of IOTX_CONN_SEND_DATA \<Rightarrow> ''rx'' | IOTX_CONN_SEND_ACTION_REPLY \<Rightarrow> ''reply'');
          t \<leftarrow> gen_mqt_topic p (replicate 64 0) 64 topic_tail;
          let payloadlen = datalen + 6;
          let (l, w) = lw;
          let (payload, w) = pl_malloc p (unat payloadlen) w;
          case payload of None \<Rightarrow> Some (-1, l, w)
          | Some payload \<Rightarrow> do {
              payload \<leftarrow> wr_bytes payload 0 (replicate (unat payloadlen) 0);
              d \<leftarrow> rd_bytes data 0 (unat datalen);
              payload \<leftarrow> wr_bytes payload 0 d;
              c \<leftarrow> (case r of Live c \<Rightarrow> Some c | _ \<Rightarrow> None);
              ((rc, c), l, w) \<leftarrow> link_publish p c t (publish_msg 0 0 payload datalen) (l, w);
              Some (rc, l\<lparr>pclient := Live c\<rparr>, w) } })"

definition iotx_comm_yield :: "'w mqtt_platform \<Rightarrow> mqtt_link \<times> 'w \<Rightarrow> (int \<times> mqtt_link \<times> 'w) option" where
  "iotx_comm_yield p lw =
     (case pclient (fst lw) of
        No_client \<Rightarrow> Some (0, lw)
      | Freed \<Rightarrow> None
      | Live c \<Rightarrow> do {
          (h, l, w) \<leftarrow> on_client (\<lambda>e u. do { (rc, h, u) \<leftarrow> IOT_MQTT_Yield e (Some c) 200 u; Some (h, u) }) p lw;
          c \<leftarrow> h;
          Some (0, l\<lparr>pclient := Live c\<rparr>, w) })"

section \<open>The back end as the manager sees it\<close>

definition mqtt_backend :: "'w mqtt_platform \<Rightarrow> (mqtt_link \<times> 'w) comm_env \<Rightarrow> (mqtt_link \<times> 'w) comm_env" where
  "mqtt_backend p base =
     base\<lparr>tr_connect := iotx_comm_connect p, tr_isconnected := iotx_comm_isconnected,
       tr_disconnect := iotx_comm_disconnect p, tr_send := iotx_comm_send p, tr_yield := iotx_comm_yield p\<rparr>"

section \<open>The client on the platform of the link\<close>

lemma client_env_simps [simp]:
  "net_write (mqtt_client_env p) = (\<lambda>d t. lift_world (net_write (pl_env p) d t) (int (length d)))"
  "uptime (mqtt_client_env p) = lift_world (uptime (pl_env p)) 0"
  "mqtt_up_process (mqtt_client_env p) = Some (\<lambda>topic. process_msg (iotx_mqtt_up_process p))"
  "mqtt_down_process (mqtt_client_env p) = Some (process_msg (iotx_mqtt_down_process p))"
  by (simp_all add: mqtt_client_env_def Let_def)

lemma client_writes_whole:
  "writes_whole (pl_env p) d t w \<Longrightarrow> writes_whole (mqtt_client_env p) d t (Some (s, w))"
  by (auto simp: writes_whole_def timer_expired_def timer_left_def lift_world_def Let_def split: prod.splits if_splits)

lemma client_timer_arm:
  "timer_arm (pl_env p) ms w = (t, w') \<Longrightarrow> timer_arm (mqtt_client_env p) ms (Some (s, w)) = (t, Some (s, w'))"
  by (auto simp: timer_arm_def lift_world_def split: prod.splits)

lemma client_send_once:
  "send_once (pl_env p) d t w = (rc, w') \<Longrightarrow> send_once (mqtt_client_env p) d t (Some (s, w)) = (rc, Some (s, w'))"
  by (auto simp: send_once_def timer_expired_def timer_left_def lift_world_def Let_def split: prod.splits if_splits)

section \<open>Encryption and decryption in place\<close>

lemma put_payload_eq:
  assumes "new \<noteq> []" and "length new < 65536" and "length new \<le> length payload" and "unat (ti_payload_len msg) \<le> length payload"
  shows "put_payload msg payload (new @ rest) (of_nat (length new)) =
    Some (0, msg\<lparr>ti_payload := Some (overwrite (overwrite payload 0 (replicate (unat (ti_payload_len msg)) 0)) 0 new),
      ti_payload_len := of_nat (length new)\<rparr>)"
proof -
  have u: "unat (of_nat (length new) :: u16) = length new" using assms(2) by (simp add: unat_of_nat)
  then have "\<not> (of_nat (length new) :: u16) \<le> 0" using assms(1) by (simp add: word_le_nat_alt)
  then show ?thesis using assms u by (simp add: put_payload_def wr_bytes_def rd_bytes_def)
qed

definition keys_ok :: "conn_secrets \<Rightarrow> bool" where
  "keys_ok s \<longleftrightarrow> length (appskey s) = 16 \<and> length (nwkskey s) = 16"

text \<open>A device identifier: 10 to 32 characters that a topic may hold, and a final 0.\<close>

definition id_ok :: "bytes \<Rightarrow> bool" where
  "id_ok i \<longleftrightarrow> 10 \<le> length i \<and> length i \<le> 32 \<and>
     list_all (\<lambda>b. 32 \<le> unat b \<and> unat b < 127 \<and> b \<noteq> ch_plus \<and> b \<noteq> ch_hash) i"

lemma id_no_end: "id_ok i \<Longrightarrow> 0 \<notin> set i"
  by (auto simp: id_ok_def list_all_iff)

lemma up_process_eq:
  assumes "keys_ok s" and "id_ok i" and "iotx_device_info_t.device_id (pl_device p) = i @ 0 # post"
    and "length m \<le> 256" and "ti_payload_len msg = of_nat (length m)" and "ti_payload msg = Some (m @ replicate 6 0)"
    and "pl_malloc p (length m + 6) w = (r, w')" and "\<And>out. r = Some out \<Longrightarrow> length out = length m + 6"
  shows "iotx_mqtt_up_process p msg (s, w) = Some
    (if r = None then (-1, msg, s, w')
     else (0, msg\<lparr>ti_payload := Some (secure_packet (appskey s) (nwkskey s) 0 (ident_of i) (up_packetid s + 1) m),
         ti_payload_len := of_nat (length m + 6)\<rparr>, s\<lparr>up_packetid := up_packetid s + 1\<rparr>, w'))"
proof -
  have u: "unat (of_nat (length m) :: u16) = length m" using assms(4) by (simp add: unat_of_nat)
  have u6: "unat (of_nat (length m) + 6 :: u16) = length m + 6"
  proof -
    have "unat (of_nat (length m + 6) :: u16) = length m + 6" using assms(4) by (simp only: unat_of_nat) simp
    then show ?thesis by (simp add: add.commute)
  qed
  show ?thesis
  proof (cases r)
    case None
    then show ?thesis using assms(5,7) u6 by (simp add: iotx_mqtt_up_process_def)
  next
    case (Some out)
    let ?pkt = "secure_packet (appskey s) (nwkskey s) 0 (ident_of i) (up_packetid s + 1) m"
    have "length (cmac (Cipher (nwkskey s)) b) = 16" for b
      using assms(1) by (intro aes.length_cmac) (simp add: keys_ok_def)
    then have l: "length ?pkt = length m + 6" by (simp add: secure_packet_def Let_def)
    have out: "length out = length m + 6" using assms(8) Some by blast
    have enc: "iotx_comm_payload_encrypt (i @ 0 # post) out (of_nat (length m) + 6) (m @ replicate 6 0) (of_nat (length m)) s =
        Some (int (length m + 6), ?pkt, s\<lparr>up_packetid := up_packetid s + 1\<rparr>)"
      using comm_payload_encrypt_eq [of s i m "of_nat (length m) + 6" out post "replicate 6 0"] assms(1,2,4) id_no_end [OF assms(2)]
        u6 out by (simp add: keys_ok_def id_ok_def)
    have "put_payload msg (m @ replicate 6 0) (?pkt @ []) (of_nat (length ?pkt)) =
        Some (0, msg\<lparr>ti_payload := Some (overwrite (overwrite (m @ replicate 6 0) 0 (replicate (length m) 0)) 0 ?pkt),
          ti_payload_len := of_nat (length ?pkt)\<rparr>)"
      using put_payload_eq [of ?pkt "m @ replicate 6 0" msg "[]"] assms(4,5) l u by fastforce
    then have put: "put_payload msg (m @ replicate 6 0) ?pkt (of_nat (length m + 6)) =
        Some (0, msg\<lparr>ti_payload := Some ?pkt, ti_payload_len := of_nat (length m + 6)\<rparr>)"
      using l by (simp add: overwrite_zero)
    show ?thesis
      using assms(3,5,6,7) u6 enc put Some
      by (simp add: iotx_mqtt_up_process_def)
  qed
qed

lemma down_process_eq:
  assumes "keys_ok s" and "id_ok i" and "iotx_device_info_t.device_id (pl_device p) = i @ 0 # post"
    and "x \<noteq> []" and "length x \<le> 256" and "length mic = 4" and "ti_payload_len msg = of_nat (length x + 6)"
    and "ti_payload msg = Some (be16 (unat n) @ x @ mic @ rest)"
    and "pl_malloc p (length x + 6) w = (Some out, w')" and "length out = length x + 6"
  shows "iotx_mqtt_down_process p msg (s, w) = Some
    (if mic = take 4 (cmac (Cipher (nwkskey s)) (be16 (unat n) @ x))
     then (0, msg\<lparr>ti_payload := Some (ctr_crypt (appskey s) 1 n (ident_of i) x @ replicate 6 0 @ rest),
             ti_payload_len := of_nat (length x)\<rparr>, s\<lparr>down_packetid := n\<rparr>, w')
     else (-1, msg, s, w'))"
proof -
  have u: "unat (of_nat (length x + 6) :: u16) = length x + 6" using assms(5) by (simp only: unat_of_nat) simp
  let ?src = "be16 (unat n) @ x @ mic @ rest" and ?m = "ctr_crypt (appskey s) 1 n (ident_of i) x"
  have dec: "iotx_comm_payload_decrypt (i @ 0 # post) out (of_nat (length x + 6)) ?src (of_nat (length x + 6)) s =
      (if mic = take 4 (cmac (Cipher (nwkskey s)) (be16 (unat n) @ x))
       then Some (int (length x), ?m @ drop (length x) out, s\<lparr>down_packetid := n\<rparr>) else Some (0, out, s))"
    using comm_payload_decrypt_eq [of s i x "of_nat (length x + 6)" out mic post n rest] assms(1,2,5,6,10) id_no_end [OF assms(2)] u
    by (simp add: keys_ok_def id_ok_def del: of_nat_add)
  show ?thesis
  proof (cases "mic = take 4 (cmac (Cipher (nwkskey s)) (be16 (unat n) @ x))")
    case True
    have l: "length ?m = length x" by simp
    have "put_payload msg ?src (?m @ drop (length x) out) (of_nat (length ?m)) =
        Some (0, msg\<lparr>ti_payload := Some (overwrite (overwrite ?src 0 (replicate (length x + 6) 0)) 0 ?m),
          ti_payload_len := of_nat (length ?m)\<rparr>)"
      using put_payload_eq [of ?m ?src msg "drop (length x) out"] assms(4-7) l u by fastforce
    moreover have "overwrite (overwrite ?src 0 (replicate (length x + 6) 0)) 0 ?m = ?m @ replicate 6 0 @ rest"
      using assms(6) by (simp add: overwrite_zero)
    ultimately show ?thesis
      using True assms(3,7,8,9) u dec by (simp add: iotx_mqtt_down_process_def del: of_nat_add)
  next
    case False
    have "put_payload msg ?src out 0 = Some (-1, msg)" by (simp add: put_payload_def)
    then show ?thesis
      using False assms(3,7,8,9) u dec by (simp add: iotx_mqtt_down_process_def del: of_nat_add)
  qed
qed

section \<open>Publishing on the link\<close>

lemma send_once_rc: "send_once e d t w = (rc, w') \<Longrightarrow> rc = SUCCESS_RETURN \<or> rc = MQTT_NETWORK_ERROR"
  by (auto simp: send_once_def Let_def split: prod.splits if_splits)

lemma MQTTPublish_qos0_eq:
  assumes "length (buf_send c) = unat (buf_size_send c)" and "ti_qos msg = 0" and "ti_payload msg = Some payload"
    and len: "unat (ti_payload_len msg) \<le> length payload"
    and fits: "MQTTPacket_len (MQTTSerialize_publishLength 0 (mqtt_cstring topic) (unat (ti_payload_len msg))) \<le> unat (buf_size_send c)"
    and sz: "MQTTSerialize_publishLength 0 (mqtt_cstring topic) (unat (ti_payload_len msg)) < 268435456"
    and "writes_whole e pkt t w1" and "timer_arm e (request_timeout_ms c) w = (t, w1)"
    and pkt: "pkt = publish_packet 0 0 (ti_retain msg) (ti_packet_id msg) topic (take (unat (ti_payload_len msg)) payload)"
    and once: "send_once e pkt t w1 = (rc, w2)"
  shows "MQTTPublish e c topic msg w = Some (rc, c\<lparr>buf_send := pkt @ drop (length pkt) (buf_send c)\<rparr>, w2)"
proof -
  have str: "mqtt_string_ok (mqtt_cstring topic)" "mqtt_chars (mqtt_cstring topic) = topic"
    by (simp_all add: mqtt_string_ok_def mqtt_chars_def mqtt_cstring_def MQTTString_initializer_def)
  let ?payload = "if ti_payload_len msg = 0 then [] else payload"
  have len': "unat (ti_payload_len msg) \<le> length ?payload" using len by simp
  have ser: "MQTTSerialize_publish (buf_send c) (unat (buf_size_send c)) 0 0 (ti_retain msg) (ti_packet_id msg) (mqtt_cstring topic)
      ?payload (unat (ti_payload_len msg)) = Some (int (length pkt), pkt @ drop (length pkt) (buf_send c))"
    using MQTTSerialize_publish_eq [OF str(1) len' sz, of "unat (buf_size_send c)" "buf_send c" 0 "ti_retain msg" "ti_packet_id msg"]
      fits assms(1) str(2) pkt by (simp add: Let_def)
  have n: "0 < length pkt" by (simp add: pkt publish_packet_def mqtt_packet_def)
  have pay: "(if ti_payload_len msg = 0 then Some [] else ti_payload msg) = Some ?payload" using assms(3) by simp
  have "iotx_mc_send_packet e (pkt @ drop (length pkt) (buf_send c)) (length pkt) t w1 = Some (rc, w2)"
    using send_packet_whole [of e "length pkt" "pkt @ drop (length pkt) (buf_send c)"] assms(7) n once by simp
  then show ?thesis
    using send_once_rc [OF once] n assms(2,8)
    by (auto simp: MQTTPublish_def pay ser)
qed

definition device_topic :: "bytes \<Rightarrow> string \<Rightarrow> bytes" where
  "device_topic i name = literal ''v2/device/'' @ i @ literal ''/'' @ literal name"

lemma gen_topic_eq:
  assumes "id_ok i" and "iotx_device_info_t.device_id (pl_device p) = i @ 0 # post" and "length name \<le> 8"
  shows "gen_mqt_topic p (replicate 64 0) 64 name = Some (device_topic i name @ replicate (64 - length (device_topic i name)) 0)"
proof -
  have name: "device_name p = i"
    using id_no_end [OF assms(1)] assms(2) by (auto simp: device_name_def string_at_def takeWhile_append)
  have l: "length (device_topic i name) \<le> 63" using assms(1,3) by (simp add: device_topic_def literal_def id_ok_def)
  then have "64 - length (device_topic i name) = Suc (63 - length (device_topic i name))" by arith
  then have "replicate (64 - length (device_topic i name)) 0 = (0 :: u8) # replicate (63 - length (device_topic i name)) 0"
    by simp
  then show ?thesis
    using l unfolding gen_mqt_topic_def name device_topic_def [symmetric] by (simp add: wr_bytes_def overwrite_def)
qed

lemma string_at_filled: "0 \<notin> set t \<Longrightarrow> string_at (t @ replicate n 0) = t"
proof -
  assume "0 \<notin> set t"
  then have "\<forall>b \<in> set t. b \<noteq> 0" by auto
  then show "string_at (t @ replicate n 0) = t" by (cases n) (simp_all add: string_at_def takeWhile_append)
qed

lemma device_topic_ok:
  assumes "id_ok i" and "list_all (\<lambda>b. 32 \<le> unat b \<and> unat b < 127 \<and> b \<noteq> ch_plus \<and> b \<noteq> ch_hash) (literal name)" and "length name \<le> 8"
  shows "0 \<notin> set (device_topic i name)" and "iotx_mc_check_topic (Some (device_topic i name)) TOPIC_NAME_TYPE = 0"
    and "device_topic i name \<noteq> []"
proof -
  let ?ok = "\<lambda>b :: u8. 32 \<le> unat b \<and> unat b < 127 \<and> b \<noteq> ch_plus \<and> b \<noteq> ch_hash"
  have lit: "list_all ?ok (literal ''v2/device/'')" "list_all ?ok (literal ''/'')"
    by (simp_all add: literal_def)
  then have all: "list_all ?ok (device_topic i name)" using assms(1,2) by (simp add: device_topic_def id_ok_def)
  then show "0 \<notin> set (device_topic i name)" by (auto simp: list_all_iff)
  have l: "length (device_topic i name) \<le> 127" using assms(1,3) by (simp add: device_topic_def literal_def id_ok_def)
  have "literal ''v2/device/'' = 118 # literal ''2/device/''" by (simp add: literal_def)
  then show "iotx_mc_check_topic (Some (device_topic i name)) TOPIC_NAME_TYPE = 0" "device_topic i name \<noteq> []"
    using all l check_topic_name_correct [of "device_topic i name"] by (auto simp: device_topic_def)
qed

text \<open>What is sent for a payload: the packet of the counter and the keys, or the payload as it is.\<close>

definition uplink_packet :: "conn_secrets \<Rightarrow> bytes \<Rightarrow> bytes option \<Rightarrow> bytes \<Rightarrow> bytes" where
  "uplink_packet s i r m =
     (if r = None then m else secure_packet (appskey s) (nwkskey s) 0 (ident_of i) (up_packetid s + 1) m)"

lemma link_publish_eq:
  assumes keys: "keys_ok (link_secrets l)" and i: "id_ok i" "iotx_device_info_t.device_id (pl_device p) = i @ 0 # post"
    and m: "length m \<le> 256" and c: "client_state c = IOTX_MC_STATE_CONNECTED" "buf_size_send c = 1024" "length (buf_send c) = 1024"
    and fw: "writes_whole (pl_env p) pkt t w2"
    and topic: "iotx_mc_check_topic (Some topic) TOPIC_NAME_TYPE = 0" "0 \<notin> set topic" "topic \<noteq> []" "length topic \<le> 64"
    and malloc: "pl_malloc p (length m + 6) w = (r, w1)" "\<And>out. r = Some out \<Longrightarrow> length out = length m + 6"
    and t: "timer_arm (pl_env p) (request_timeout_ms c) w1 = (t, w2)"
    and pkt: "pkt = publish_packet 0 0 0 0 topic (uplink_packet (link_secrets l) i r m)"
    and once: "send_once (pl_env p) pkt t w2 = (rc, w3)"
  shows "link_publish p c (topic @ replicate k 0) (publish_msg 0 0 (m @ replicate 6 0) (of_nat (length m))) (l, w) = Some
    ((rc, c\<lparr>buf_send := pkt @ drop (length pkt) (buf_send c),
        client_state := if rc = 0 then IOTX_MC_STATE_CONNECTED else IOTX_MC_STATE_DISCONNECTED\<rparr>),
     l\<lparr>link_secrets := if r = None then link_secrets l else (link_secrets l)\<lparr>up_packetid := up_packetid (link_secrets l) + 1\<rparr>\<rparr>, w3)"
proof -
  let ?e = "mqtt_client_env p" and ?s = "link_secrets l"
  let ?s' = "if r = None then ?s else ?s\<lparr>up_packetid := up_packetid ?s + 1\<rparr>"
  let ?msg = "publish_msg 0 0 (m @ replicate 6 0) (of_nat (length m))"
  define msg' where "msg' = (if r = None then ?msg else ?msg\<lparr>ti_payload := Some (uplink_packet ?s i r m), ti_payload_len := of_nat (length m + 6)\<rparr>)"
  have up: "process_msg (iotx_mqtt_up_process p) ?msg (Some (?s, w)) = (msg', Some (?s', w1))"
    using up_process_eq [OF keys i m _ _ malloc, of ?msg]
    by (auto simp: process_msg_def publish_msg_def msg'_def uplink_packet_def)
  have "length (cmac (Cipher (nwkskey ?s)) b) = 16" for b
    using keys by (intro aes.length_cmac) (simp add: keys_ok_def)
  then have lu: "length (uplink_packet ?s i r m) = (if r = None then length m else length m + 6)"
    by (simp add: uplink_packet_def secure_packet_def Let_def)
  have um: "unat (of_nat (length m) :: u16) = length m" using m by (simp add: unat_of_nat)
  have um6: "unat (of_nat (length m + 6) :: u16) = length m + 6" using m by (simp only: unat_of_nat) simp
  have msg': "ti_qos msg' = 0" "ti_retain msg' = 0" "ti_packet_id msg' = 0"
    "ti_payload msg' = Some (if r = None then m @ replicate 6 0 else uplink_packet ?s i r m)"
    "unat (ti_payload_len msg') = length (uplink_packet ?s i r m)"
    using um um6 lu by (simp_all add: msg'_def publish_msg_def del: of_nat_add)
  have takem: "take (unat (ti_payload_len msg')) (if r = None then m @ replicate 6 0 else uplink_packet ?s i r m) = uplink_packet ?s i r m"
    using msg'(5) lu by (auto simp: uplink_packet_def)
  have body: "MQTTSerialize_publishLength 0 (mqtt_cstring topic) (unat (ti_payload_len msg')) \<le> 2 + 64 + 262"
    using msg'(5) lu m topic(4)
    by (simp add: MQTTSerialize_publishLength_def MQTTstrlen_def mqtt_cstring_def MQTTString_initializer_def)
  have pub: "MQTTPublish ?e c topic msg' (Some (?s', w1)) =
      Some (rc, c\<lparr>buf_send := pkt @ drop (length pkt) (buf_send c)\<rparr>, Some (?s', w3))"
  proof (rule MQTTPublish_qos0_eq)
    show "length (buf_send c) = unat (buf_size_send c)" using c by simp
    show "MQTTPacket_len (MQTTSerialize_publishLength 0 (mqtt_cstring topic) (unat (ti_payload_len msg'))) \<le> unat (buf_size_send c)"
      using body c(2) by (auto simp: MQTTPacket_len_def Let_def)
    show "MQTTSerialize_publishLength 0 (mqtt_cstring topic) (unat (ti_payload_len msg')) < 268435456" using body by simp
    show "writes_whole ?e pkt t (Some (?s', w2))" by (rule client_writes_whole [OF fw])
    show "timer_arm ?e (request_timeout_ms c) (Some (?s', w1)) = (t, Some (?s', w2))" by (rule client_timer_arm [OF t])
    show "send_once ?e pkt t (Some (?s', w2)) = (rc, Some (?s', w3))" by (rule client_send_once [OF once])
    show "pkt = publish_packet 0 0 (ti_retain msg') (ti_packet_id msg') topic
        (take (unat (ti_payload_len msg')) (if r = None then m @ replicate 6 0 else uplink_packet ?s i r m))"
      unfolding takem msg'(2,3) by (rule pkt)
    show "unat (ti_payload_len msg') \<le> length (if r = None then m @ replicate 6 0 else uplink_packet ?s i r m)"
      using msg'(5) lu by simp
  qed (use msg' in simp_all)
  have q: "ti_qos ?msg = 0" by (simp add: publish_msg_def)
  have "iotx_mc_publish ?e c (Some topic) (Some ?msg) (Some (?s, w)) = Some (rc, c\<lparr>buf_send := pkt @ drop (length pkt) (buf_send c),
        client_state := if rc = 0 then IOTX_MC_STATE_CONNECTED else IOTX_MC_STATE_DISCONNECTED\<rparr>, Some msg', Some (?s', w3))"
    using pub up q topic(1) c(1) send_once_rc [OF once]
    by (auto simp: iotx_mc_publish_def iotx_mc_check_state_normal_def iotx_mc_set_client_state_def)
  then show ?thesis
    unfolding link_publish_def on_client_def string_at_filled [OF topic(2)]
    by (simp add: IOT_MQTT_Publish_def str_set_def topic(3))
qed

section \<open>A dangling client\<close>

lemma disconnect_frees:
  "pclient l = Live c \<Longrightarrow> iotx_comm_disconnect p (l, w) = Some (rc, l', w') \<Longrightarrow> pclient l' = Freed"
  by (auto simp: iotx_comm_disconnect_def bind_eq_Some_conv split: prod.splits)

lemma on_client_pclient: "on_client f p (l, w) = Some (a, l', w') \<Longrightarrow> pclient l' = pclient l"
  by (auto simp: on_client_def bind_eq_Some_conv)

lemma link_ops_pclient:
  "link_subscribe p c t n (l, w) = Some (r, l', w') \<Longrightarrow> pclient l' = pclient l"
  "link_publish p c t m (l, w) = Some (r, l', w') \<Longrightarrow> pclient l' = pclient l"
  unfolding link_subscribe_def link_publish_def by (rule on_client_pclient, assumption)+

lemma start_session_pclient:
  assumes "start_session p c (l, w) = Some (r, l', w')"
  shows "pclient l' = pclient l"
proof -
  obtain t where t: "gen_mqt_topic p (topic_name_tx l) 64 ''tx'' = Some t"
    using assms unfolding start_session_def Let_def prod.case by (cases "gen_mqt_topic p (topic_name_tx l) 64 ''tx''") simp_all
  obtain rc c1 l1 w1 where 1: "link_subscribe p c t 1 (l\<lparr>topic_name_tx := t\<rparr>, w) = Some ((rc, c1), l1, w1)"
    using assms t unfolding start_session_def Let_def prod.case
    by (cases "link_subscribe p c t 1 (l\<lparr>topic_name_tx := t\<rparr>, w)") auto
  have p1: "pclient l1 = pclient l" using link_ops_pclient(1) [OF 1] by simp
  show ?thesis
  proof (cases "rc < 0")
    case True
    then show ?thesis using assms t 1 p1 unfolding start_session_def Let_def by simp
  next
    case False
    obtain t2 where t2: "gen_mqt_topic p (topic_name_action l1) 64 ''action'' = Some t2"
      using assms t 1 False unfolding start_session_def Let_def
      by (cases "gen_mqt_topic p (topic_name_action l1) 64 ''action''") simp_all
    obtain rc2 c2 l2 w2 where 2: "link_subscribe p c1 t2 2 (l1\<lparr>topic_name_action := t2\<rparr>, w1) = Some ((rc2, c2), l2, w2)"
      using assms t 1 t2 False unfolding start_session_def Let_def
      by (cases "link_subscribe p c1 t2 2 (l1\<lparr>topic_name_action := t2\<rparr>, w1)") auto
    have p2: "pclient l2 = pclient l" using link_ops_pclient(1) [OF 2] p1 by simp
    show ?thesis
    proof (cases "rc2 < 0 \<or> 256 \<le> length (pl_device_info p)")
      case True
      then show ?thesis using assms t 1 t2 2 False p2 unfolding start_session_def Let_def by (auto split: if_splits)
    next
      case stop: False
      show ?thesis
        using assms t 1 t2 2 False stop p2 unfolding start_session_def Let_def
        by (auto simp: bind_eq_Some_conv dest!: link_ops_pclient(2))
    qed
  qed
qed

lemma failed_connect_frees:
  assumes "pclient l = Live c" and "iotx_comm_connect p (l, w) = Some (rc, l', w')" and "rc \<noteq> 0"
  shows "pclient l' = Freed"
proof -
  obtain d l1 w1 where 1: "iotx_comm_disconnect p (l, w) = Some (d, l1, w1)"
    using assms(2) by (auto simp: iotx_comm_connect_def bind_eq_Some_conv)
  have "pclient l1 = Freed" by (rule disconnect_frees [OF assms(1) 1])
  with 1 show ?thesis using assms(2,3)
    by (auto simp: iotx_comm_connect_def bind_eq_Some_conv Let_def dest!: on_client_pclient start_session_pclient
        split: option.splits prod.splits if_splits)
qed

lemma freed_is_undefined:
  assumes "pclient l = Freed"
  shows "iotx_comm_yield p (l, w) = None" and "iotx_comm_isconnected (l, w) = None"
    and "iotx_comm_disconnect p (l, w) = None" and "iotx_comm_connect p (l, w) = None"
  using assms by (simp_all add: iotx_comm_yield_def iotx_comm_isconnected_def iotx_comm_disconnect_def iotx_comm_connect_def)

text \<open>
  \<open>do_exit\<close> of \<open>iotx_comm_connect\<close>: when a subscription or the publication fails while the client is still
  connected, \<open>IOT_MQTT_Destroy\<close> writes its DISCONNECT packet into the buffer that was just freed.
\<close>

lemma destroy_without_buffers:
  assumes "client_state c = IOTX_MC_STATE_CONNECTED" and "buf_send c = []" and "2 \<le> unat (buf_size_send c)"
  shows "IOT_MQTT_Destroy e (Some c) u = None"
  using assms
  by (simp add: IOT_MQTT_Destroy_def iotx_mc_release_def iotx_mc_disconnect_def iotx_mc_check_state_normal_def MQTTDisconnect_def
      MQTTSerialize_disconnect_def MQTTSerialize_zero_def run_writer_def writeChar_def put_bytes_def wr_bytes_def wr_def)

section \<open>A concrete platform\<close>

definition demo_platform :: "(bytes \<times> bytes) mqtt_platform" where
  "demo_platform =
     \<lparr>pl_env = demo_env,
      pl_guider = \<lparr>get_epoch_time = (\<lambda>buf w. ((0, buf), w)), seed_random = (\<lambda>_ w. w), draw_random = (\<lambda>_ w. (7, w))\<rparr>,
      pl_malloc = (\<lambda>n w. (Some (replicate n 0), w)), pl_parse_datapoints = (\<lambda>_ w. w), pl_system_event = (\<lambda>_ w. w),
      pl_device = \<lparr>device_id = replicate 10 65 @ [0], device_secret = [0], product_id = [0], product_secret = [0],
        hardware_version = [0], software_version = [0]\<rparr>, pl_host = [104], pl_device_info = []\<rparr>"

definition demo_keys :: conn_secrets where
  "demo_keys = demo_secrets\<lparr>appskey := replicate 16 1, nwkskey := replicate 16 2\<rparr>"

definition demo_link :: mqtt_link where
  "demo_link =
     \<lparr>pclient = Live (demo_client\<lparr>buf_size_send := 1024, buf_send := replicate 1024 0\<rparr>), link_secrets = demo_keys,
      topic_name_tx = replicate 64 0, topic_name_action = replicate 64 0\<rparr>"

lemma demo_platform_simps [simp]:
  "pl_env demo_platform = demo_env" "pl_malloc demo_platform n w = (Some (replicate n 0), w)"
  "iotx_device_info_t.device_id (pl_device demo_platform) = replicate 10 65 @ [0]"
  by (simp_all add: demo_platform_def)

lemma demo_id: "id_ok (replicate 10 65)" and demo_keys_ok: "keys_ok demo_keys"
  by (simp_all add: id_ok_def keys_ok_def demo_keys_def list_all_iff)

text \<open>The same without memory for the buffers, and a manager around it.\<close>

definition demo_no_memory :: "(bytes \<times> bytes) mqtt_platform" where
  "demo_no_memory = demo_platform\<lparr>pl_malloc := \<lambda>n w. (None, w)\<rparr>"

definition demo_base :: "(mqtt_link \<times> bytes \<times> bytes) comm_env" where
  "demo_base =
     \<lparr>tr_connect = (\<lambda>w. None), tr_isconnected = (\<lambda>w. None), tr_disconnect = (\<lambda>w. None), tr_send = (\<lambda>ty data n w. None),
      tr_yield = (\<lambda>w. None), call_handler = (\<lambda>h ev w. w), comm_uptime = (\<lambda>w. (5000, w)), comm_random = (\<lambda>i w. (0, w)),
      define_defaults = (\<lambda>w. Some w), send_automatic = (\<lambda>send c. Some c)\<rparr>"

section \<open>Properties\<close>

text \<open>
  Property C13: while the client is connected and the QoS 0 request is made, sending a payload of at most 256 bytes
  first gives the network exactly the PUBLISH packet for the topic of the device, with the payload protected under the
  next packet number and the keys of the session. The statement is for a network call that takes the whole packet
  or fails (\<open>n\<close>), in time and with memory for the copy of the payload; what a call that takes only a part
  leads to is \<open>send_packet_partial_overread\<close>. A failed call disconnects the client. If the memory for the
  encryption (\<open>r\<close>) is not there, the packet leaves with the plain payload, and its number is not used:
  the client drops the error.
\<close>

theorem comm_send_uplink:
  assumes "pclient l = Live c" and "client_state c = IOTX_MC_STATE_CONNECTED" and "buf_size_send c = 1024"
    and "length (buf_send c) = 1024" and "keys_ok (link_secrets l)" and "id_ok i"
    and "iotx_device_info_t.device_id (pl_device p) = i @ 0 # post" and "length m \<le> 256"
    and "pl_malloc p (length m + 6) w = (Some b, w0)" and "length b = length m + 6"
    and "pl_malloc p (length m + 6) w0 = (r, w1)" and "\<And>out. r = Some out \<Longrightarrow> length out = length m + 6"
    and "timer_arm (pl_env p) (request_timeout_ms c) w1 = (t, w2)"
    and "timer_expired (pl_env p) t w2 = (False, w3)" and "timer_left (pl_env p) t w3 = (left, w4)"
    and "pkt = publish_packet 0 0 0 0 (device_topic i (case ty of IOTX_CONN_SEND_DATA \<Rightarrow> ''rx'' | IOTX_CONN_SEND_ACTION_REPLY \<Rightarrow> ''reply''))
      (uplink_packet (link_secrets l) i r m)"
    and "net_write (pl_env p) pkt left w4 = (n, w5)" and "n < 0 \<or> n = int (length pkt)"
  shows "iotx_comm_send p ty (m @ rest) (of_nat (length m)) (l, w) = Some (if n < 0 then MQTT_NETWORK_ERROR else 0,
    l\<lparr>link_secrets := if r = None then link_secrets l else (link_secrets l)\<lparr>up_packetid := up_packetid (link_secrets l) + 1\<rparr>,
      pclient := Live (c\<lparr>buf_send := pkt @ drop (length pkt) (buf_send c),
        client_state := if n < 0 then IOTX_MC_STATE_DISCONNECTED else IOTX_MC_STATE_CONNECTED\<rparr>)\<rparr>, w5)"
proof -
  let ?name = "case ty of IOTX_CONN_SEND_DATA \<Rightarrow> ''rx'' | IOTX_CONN_SEND_ACTION_REPLY \<Rightarrow> ''reply''"
  let ?topic = "device_topic i ?name"
  define rc :: int where "rc = (if n < 0 then MQTT_NETWORK_ERROR else 0)"
  have once: "send_once (pl_env p) pkt t w2 = (rc, w5)" "writes_whole (pl_env p) pkt t w2"
    using assms(14,15,17,18) by (simp_all add: send_once_def writes_whole_def rc_def)
  have state: "(if n < 0 then IOTX_MC_STATE_DISCONNECTED else IOTX_MC_STATE_CONNECTED) =
      (if rc = 0 then IOTX_MC_STATE_CONNECTED else IOTX_MC_STATE_DISCONNECTED)"
    by (simp add: rc_def)
  have name: "length ?name \<le> 8" "list_all (\<lambda>b. 32 \<le> unat b \<and> unat b < 127 \<and> b \<noteq> ch_plus \<and> b \<noteq> ch_hash) (literal ?name)"
    by (cases ty; simp add: literal_def)+
  have "length ?topic \<le> 64" using assms(6) name(1) by (simp add: device_topic_def literal_def id_ok_def)
  then have pub: "link_publish p c (?topic @ replicate (64 - length ?topic) 0) (publish_msg 0 0 (m @ replicate 6 0) (of_nat (length m))) (l, w0) =
    Some ((rc, c\<lparr>buf_send := pkt @ drop (length pkt) (buf_send c),
        client_state := if rc = 0 then IOTX_MC_STATE_CONNECTED else IOTX_MC_STATE_DISCONNECTED\<rparr>),
     l\<lparr>link_secrets := if r = None then link_secrets l else (link_secrets l)\<lparr>up_packetid := up_packetid (link_secrets l) + 1\<rparr>\<rparr>, w5)"
    using assms(12)
    by (intro link_publish_eq [OF assms(5,6,7,8,2,3,4) once(2) device_topic_ok(2,1,3) [OF assms(6) name(2,1)] _ assms(11) _ assms(13,16) once(1)])
  have u6: "unat (of_nat (length m) + 6 :: u16) = length m + 6"
  proof -
    have "unat (of_nat (length m + 6) :: u16) = length m + 6" using assms(8) by (simp only: unat_of_nat) simp
    then show ?thesis by (simp add: add.commute)
  qed
  have um: "unat (of_nat (length m) :: u16) = length m" using assms(8) by (simp add: unat_of_nat)
  have fill: "overwrite (replicate (length m + 6) 0) 0 m = m @ replicate 6 0" by (simp add: overwrite_zero)
  have rep: "overwrite b 0 (replicate (length m + 6) 0) = replicate (length m + 6) 0" using assms(10) by (simp add: overwrite_zero)
  have buf: "wr_bytes b 0 (replicate (length m + 6) 0) = Some (replicate (length m + 6) 0)"
    "rd_bytes (m @ rest) 0 (length m) = Some m" "wr_bytes (replicate (length m + 6) 0) 0 m = Some (m @ replicate 6 0)"
    using assms(10) by (simp_all add: wr_bytes_def rd_bytes_def rep fill)
  show ?thesis
    unfolding iotx_comm_send_def fst_conv assms(1) client_ref.case gen_topic_eq [OF assms(6,7) name(1)] Let_def Option.bind.bind_lunit u6 um
      prod.case assms(9) option.case buf
    unfolding pub rc_def [symmetric] state
    by simp
qed

theorem comm_send_uplink_witness:
  "\<exists>l' sent. iotx_comm_send demo_platform IOTX_CONN_SEND_DATA [1, 2, 3] 2 (demo_link, ([], [])) = Some (0, l', ([], sent)) \<and>
     up_packetid (link_secrets l') = 4 \<and>
     sent = publish_packet 0 0 0 0 (device_topic (replicate 10 65) ''rx'')
       (secure_packet (replicate 16 1) (replicate 16 2) 0 (ident_of (replicate 10 65)) 4 [1, 2])"
proof -
  have k: "appskey (link_secrets demo_link) = replicate 16 1" "nwkskey (link_secrets demo_link) = replicate 16 2"
    "up_packetid (link_secrets demo_link) = 3"
    by (simp_all add: demo_link_def demo_keys_def demo_secrets_def)
  have t: "timer_expired demo_env \<lparr>time = 2000\<rparr> ([], []) = (False, ([], []))" "timer_left demo_env \<lparr>time = 2000\<rparr> ([], []) = (2000, ([], []))"
    by (simp_all add: timer_expired_def timer_left_def utils_time_is_expired_def iotx_time_left_def)
  show ?thesis
    using comm_send_uplink [of demo_link "demo_client\<lparr>buf_size_send := 1024, buf_send := replicate 1024 0\<rparr>" "replicate 10 65"
        demo_platform "[]" "[1, 2]" "([], [])" "replicate 8 0" "([], [])" "Some (replicate 8 0)" "([], [])"
        "\<lparr>time = 2000\<rparr>" "([], [])" "([], [])" 2000 "([], [])"
        "publish_packet 0 0 0 0 (device_topic (replicate 10 65) ''rx'')
           (secure_packet (replicate 16 1) (replicate 16 2) 0 (ident_of (replicate 10 65)) 4 [1, 2])" IOTX_CONN_SEND_DATA] demo_id demo_keys_ok t k
    by (simp add: demo_link_def demo_keys_def demo_secrets_def demo_client_def timer_arm_def uplink_packet_def)
qed

text \<open>
  Property C24: a received publication whose code is right reaches the subscriptions decrypted, and its packet number is
  kept. One whose code is wrong reaches them all the same, as it came: the client ignores the result of
  the check.
\<close>

theorem downlink_unchecked:
  assumes "keys_ok s" and "id_ok i" and "iotx_device_info_t.device_id (pl_device p) = i @ 0 # post"
    and "MQTTDeserialize_publish publish_out_init (buf_read c) = Some (1, out)" and "po_qos out = 0" and "po_payload out \<noteq> 0"
    and "po_payloadlen out = int (length x + 6)" and "drop (po_payload out) (buf_read c) = be16 (unat n) @ x @ mic @ rest"
    and "x \<noteq> []" and "length x \<le> 256" and "length mic = 4"
    and "pl_malloc p (length x + 6) w = (Some b, w')" and "length b = length x + 6"
  shows "iotx_mc_handle_recv_PUBLISH (mqtt_client_env p) c (Some (s, w)) =
    (let got = topic_info_of (buf_read c) out;
         good = (mic = take 4 (cmac (Cipher (nwkskey s)) (be16 (unat n) @ x)));
         plain = ctr_crypt (appskey s) 1 n (ident_of i) x
     in do {
       u \<leftarrow> iotx_mc_deliver_message (mqtt_client_env p) c (po_topicName out)
         (if good then got\<lparr>ti_payload := Some (plain @ replicate 6 0 @ rest), ti_payload_len := of_nat (length x)\<rparr> else got)
         (Some (if good then s\<lparr>down_packetid := n\<rparr> else s, w'));
       Some (SUCCESS_RETURN, c, u) })"
proof -
  let ?got = "topic_info_of (buf_read c) out"
  have got: "ti_payload_len ?got = of_nat (length x + 6)" "ti_payload ?got = Some (be16 (unat n) @ x @ mic @ rest)"
    "ti_qos ?got = 0" "ti_ptopic ?got = None" "ti_topic_len ?got = 0"
    using assms(5-8) by (simp_all add: topic_info_of_def)
  have same: "?got\<lparr>ti_ptopic := None, ti_topic_len := 0\<rparr> = ?got"
    "?got\<lparr>ti_payload := a, ti_payload_len := k, ti_ptopic := None, ti_topic_len := 0\<rparr> = ?got\<lparr>ti_payload := a, ti_payload_len := k\<rparr>" for a k
    by (simp_all add: topic_info_of_def)
  show ?thesis
    using assms(4) got(3) same down_process_eq [OF assms(1-3,9-11) got(1,2) assms(12,13)]
    by (auto simp: iotx_mc_handle_recv_PUBLISH_def process_msg_def Let_def)
qed

definition demo_received :: iotx_mc_client_t where
  "demo_received = demo_client\<lparr>buf_read := [0x30, 10, 0, 1, 97, 0, 9, 7, 1, 2, 3, 4]\<rparr>"

theorem downlink_unchecked_witness:
  "\<exists>out. MQTTDeserialize_publish publish_out_init (buf_read demo_received) = Some (1, out) \<and>
    iotx_mc_handle_recv_PUBLISH (mqtt_client_env demo_platform) demo_received (Some (demo_keys, ([], []))) =
    (let got = topic_info_of (buf_read demo_received) out;
         good = ([1, 2, 3, 4] = take 4 (cmac (Cipher (replicate 16 2)) [0, 9, 7]));
         plain = ctr_crypt (replicate 16 1) 1 9 (ident_of (replicate 10 65)) [7]
     in do {
       u \<leftarrow> iotx_mc_deliver_message (mqtt_client_env demo_platform) demo_received (po_topicName out)
         (if good then got\<lparr>ti_payload := Some (plain @ replicate 6 0), ti_payload_len := 1\<rparr> else got)
         (Some (if good then demo_keys\<lparr>down_packetid := 9\<rparr> else demo_keys, ([], [])));
       Some (SUCCESS_RETURN, demo_received, u) })"
proof -
  have "case MQTTDeserialize_publish publish_out_init (buf_read demo_received) of
      Some (r, out) \<Rightarrow> r = 1 \<and> po_qos out = 0 \<and> po_payload out = 5 \<and> po_payloadlen out = 7 | None \<Rightarrow> False"
    by code_simp
  then obtain out where out: "MQTTDeserialize_publish publish_out_init (buf_read demo_received) = Some (1, out)"
    "po_qos out = 0" "po_payload out = 5" "po_payloadlen out = 7"
    by (auto split: option.splits)
  have d: "drop (po_payload out) (buf_read demo_received) = be16 (unat (9 :: u16)) @ [7] @ [1, 2, 3, 4] @ []"
    using out(3) by (simp add: demo_received_def be16_def)
  have b: "be16 (unat (9 :: u16)) @ [7] = [0, 9, 7]" "appskey demo_keys = replicate 16 1" "nwkskey demo_keys = replicate 16 2"
    "(of_nat (length [7 :: u8]) :: u16) = 1" by (simp_all add: be16_def demo_keys_def)
  show ?thesis
    using downlink_unchecked [OF demo_keys_ok demo_id _ out(1,2) _ _ d, of demo_platform "[]" "([], [])" "replicate 7 0" "([], [])"]
      out unfolding b append_Nil2 by simp
qed

text \<open>
  Property C25: a failed attempt to reconnect leaves the pointer to the client that the attempt freed. The manager
  plans the next attempt as usual, but its next round uses the freed client.
\<close>

theorem failed_reconnect_dangles:
  assumes "conninfo_inited s" and "network_state s = IOTX_NETWORK_STATE_CONNECTED"
    and "conn_state s = IOTX_CONN_STATE_DISCONNECTED_RECONNECTING"
    and "pclient (fst u) = Live c" and "comm_uptime base u = (now, u1)" and "utils_time_is_expired now (Some (conn_reconnect_next_time s))"
    and "iotx_comm_connect p u1 = Some (rc, u2)" and "rc \<noteq> 0"
    and "\<And>u. fst (snd (comm_uptime base u)) = fst u" and "\<And>i u. fst (snd (comm_random base i u)) = fst u"
  shows "\<exists>s' u'. yield_reconnect (mqtt_backend p base) (s, u) = Some (0, (s', u')) \<and>
    pclient (fst u') = Freed \<and> IOT_Comm_Yield (mqtt_backend p base) (s', u') = None"
proof -
  let ?e = "mqtt_backend p base" and ?i = "reconnect_backoff (conn_reconnect_time_interval_ms s)"
  have e: "comm_uptime ?e = comm_uptime base" "comm_random ?e = comm_random base" "tr_connect ?e = iotx_comm_connect p"
    "tr_yield ?e = iotx_comm_yield p" by (simp_all add: mqtt_backend_def)
  have "fst u1 = fst u" using assms(5,9) by (metis snd_conv)
  then have f: "pclient (fst u2) = Freed"
    using failed_connect_frees [of "fst u1" c p "snd u1" rc "fst u2" "snd u2"] assms(4,7,8) unfolding prod.collapse by simp
  obtain r u3 where r: "comm_random base ?i u2 = (r, u3)" by (cases "comm_random base ?i u2") blast
  obtain now' u4 where a: "comm_uptime base u3 = (now', u4)" by (cases "comm_uptime base u3") blast
  have f4: "pclient (fst u4) = Freed" using f r a assms(9,10) by (metis snd_conv)
  define s' where "s' = s\<lparr>conn_reconnect_time_interval_ms := ?i, conn_reconnect_next_time := (conn_reconnect_next_time s)\<lparr>time := now' + reconnect_delay ?i r\<rparr>\<rparr>"
  have "yield_reconnect ?e (s, u) = Some (0, (s', u4))"
    using assms(1,3,5,6,7,8) r a e
    by (simp add: yield_reconnect_def iotx_get_conn_state_def iotx_conn_handle_reconnect_def iotx_conn_info_get_def IOT_Comm_Init_def
        arm_reconnect_def s'_def utils_time_countdown_ms_def Let_def)
  moreover have "conninfo_inited s'" "network_state s' = IOTX_NETWORK_STATE_CONNECTED" "conn_state s' \<noteq> IOTX_CONN_STATE_CONNECTED"
    using assms(1-3) by (simp_all add: s'_def)
  then have "IOT_Comm_Yield ?e (s', u4) = None"
    using yield_inited [of s' ?e u4] freed_is_undefined(1) [of "fst u4" p "snd u4"] f4 e by simp
  ultimately show ?thesis using f4 by blast
qed

theorem failed_reconnect_dangles_witness:
  "\<exists>s' u'. yield_reconnect (mqtt_backend demo_no_memory demo_base) (demo_conn, (demo_link, ([], []))) = Some (0, (s', u')) \<and>
     IOT_Comm_Yield (mqtt_backend demo_no_memory demo_base) (s', u') = None"
proof -
  have "case iotx_comm_connect demo_no_memory (demo_link, ([], [])) of Some (rc, u) \<Rightarrow> rc = -1 | None \<Rightarrow> False"
    by code_simp
  then obtain u where "iotx_comm_connect demo_no_memory (demo_link, ([], [])) = Some (-1, u)" by (auto split: option.splits)
  then show ?thesis
    using failed_reconnect_dangles [of demo_conn "(demo_link, ([], []))" "demo_client\<lparr>buf_size_send := 1024, buf_send := replicate 1024 0\<rparr>"
        demo_base 5000 "(demo_link, ([], []))" demo_no_memory "-1" u]
    by (auto simp: demo_base_def demo_conn_def initial_conn_info_def utils_time_is_expired_def demo_link_def)
qed

text \<open>A failing subscription or publication of a connected client sends the client to the freed buffers.\<close>

theorem failed_subscription_uses_freed:
  assumes "iotx_comm_disconnect p (l, w) = Some (d, l1, w1)"
    and "pl_malloc p 1024 w1 = (Some wb, w2)" and "pl_malloc p 1024 w2 = (Some rb, w3)"
    and "on_client (\<lambda>e. IOT_MQTT_Construct e (Some (link_params p (link_secrets l1) wb rb))) p (l1, w3) = Some (Some c, l4, w4)"
    and "start_session p c (l4, w4) = Some ((rc, c'), l5, w5)" and "rc < 0"
    and "client_state c' = IOTX_MC_STATE_CONNECTED" and "2 \<le> unat (buf_size_send c')"
  shows "iotx_comm_connect p (l, w) = None"
proof -
  have "IOT_MQTT_Destroy e (Some (c'\<lparr>buf_send := [], buf_read := []\<rparr>)) u = None" for e :: "'a mworld env" and u
    using assms(7,8) by (intro destroy_without_buffers) simp_all
  then have "on_client (\<lambda>e u. do { (rc, h, u) \<leftarrow> IOT_MQTT_Destroy e (Some (c'\<lparr>buf_send := [], buf_read := []\<rparr>)) u; Some (rc, u) }) p (l5, w5) = None"
    by (simp add: on_client_def)
  then show ?thesis using assms(1-6) by (simp add: iotx_comm_connect_def)
qed

end
