(* ===== verification/Utils_Base64.thy ===== *)
theory Utils_Base64
  imports Iotkit_Prelude
begin

text \<open>
  sdk/utils/digest/utils_base64.c, with Base64 as RFC 4648 defines it. \<open>None\<close> in an option pointer is
  \<open>NULL\<close>; the results hold \<open>*outputLength\<close> (unless it is not set) and the output buffer.
\<close>

section \<open>The code\<close>

definition g_encodingTable :: bytes where
  "g_encodingTable = literal ''ABCDEFGHIJKLMNOPQRSTUVWXYZabcdefghijklmnopqrstuvwxyz0123456789+/''"

definition g_modTable :: "nat list" where
  "g_modTable = [0, 2, 1]"

text \<open>The table after \<open>build_decoding_table\<close>; the entries of other characters stay 0.\<close>

definition build_decoding_table :: "u32 list" where
  "build_decoding_table = fold (\<lambda>i t. t[unat (g_encodingTable ! i) := of_nat i]) [0..<64] (replicate 256 0)"

definition octet :: "bytes \<Rightarrow> nat \<Rightarrow> nat \<Rightarrow> u32 option" where
  "octet data n i = (if i < n then map_option ucast (rd data i) else Some 0)"

definition encode_triple :: "u32 \<Rightarrow> bytes" where
  "encode_triple triple =
     [g_encodingTable ! unat (drop_bit 18 triple AND 0x3F), g_encodingTable ! unat (drop_bit 12 triple AND 0x3F),
      g_encodingTable ! unat (drop_bit 6 triple AND 0x3F), g_encodingTable ! unat (triple AND 0x3F)]"

function encode_loop :: "bytes \<Rightarrow> nat \<Rightarrow> nat \<Rightarrow> cursor \<Rightarrow> cursor option" where
  "encode_loop data n i c =
     (if i < n then do {
        octet_a \<leftarrow> octet data n i;
        octet_b \<leftarrow> octet data n (i + 1);
        octet_c \<leftarrow> octet data n (i + 2);
        let triple = push_bit 16 octet_a + push_bit 8 octet_b + octet_c;
        c \<leftarrow> put_bytes (encode_triple triple) c;
        encode_loop data n (i + 3) c }
      else Some c)"
  by pat_completeness auto
termination by (relation "measure (\<lambda>(data, n, i, c). n - i)") auto

declare encode_loop.simps [simp del]

fun pad_loop :: "nat \<Rightarrow> nat \<Rightarrow> bytes \<Rightarrow> bytes option" where
  "pad_loop 0 n buf = Some buf"
| "pad_loop (Suc i) n buf = do { buf \<leftarrow> pad_loop i n buf; wr buf (n - 1 - i) 0x3D }"

definition utils_base64encode ::
    "bytes \<Rightarrow> u32 \<Rightarrow> u32 \<Rightarrow> bytes option \<Rightarrow> (int \<times> u32 option \<times> bytes option) option" where
  "utils_base64encode data inputLength outputLenMax encodedData =
     (case encodedData of
        None \<Rightarrow> Some (-1, None, None)
      | Some buf \<Rightarrow>
          let outputLength = 4 * ((inputLength + 2) div 3) in
          if outputLenMax < outputLength then Some (-1, Some outputLength, Some buf)
          else do {
            (buf, _) \<leftarrow> encode_loop data (unat inputLength) 0 (buf, 0);
            buf \<leftarrow> pad_loop (g_modTable ! (unat inputLength mod 3)) (unat outputLength) buf;
            Some (0, Some outputLength, Some buf) })"

definition sextet :: "bytes \<Rightarrow> nat \<Rightarrow> u32 option" where
  "sextet data i = do {
     b \<leftarrow> rd data i;
     Some (if b = 0x3D then 0 else build_decoding_table ! unat b) }"

definition put_below :: "nat \<Rightarrow> u8 \<Rightarrow> cursor \<Rightarrow> cursor option" where
  "put_below n b c = (if snd c < n then put_bytes [b] c else Some c)"

function decode_loop :: "bytes \<Rightarrow> nat \<Rightarrow> nat \<Rightarrow> nat \<Rightarrow> cursor \<Rightarrow> cursor option" where
  "decode_loop data inputLength outputLength i c =
     (if i < inputLength then do {
        sextet_a \<leftarrow> sextet data i;
        sextet_b \<leftarrow> sextet data (i + 1);
        sextet_c \<leftarrow> sextet data (i + 2);
        sextet_d \<leftarrow> sextet data (i + 3);
        let triple = push_bit 18 sextet_a + push_bit 12 sextet_b + push_bit 6 sextet_c + sextet_d;
        c \<leftarrow> put_below outputLength (ucast (drop_bit 16 triple AND 0xFF)) c;
        c \<leftarrow> put_below outputLength (ucast (drop_bit 8 triple AND 0xFF)) c;
        c \<leftarrow> put_below outputLength (ucast (triple AND 0xFF)) c;
        decode_loop data inputLength outputLength (i + 4) c }
      else Some c)"
  by pat_completeness auto
termination by (relation "measure (\<lambda>(data, inputLength, outputLength, i, c). inputLength - i)") auto

declare decode_loop.simps [simp del]

text \<open>For an empty input the code looks at the two bytes before it.\<close>

definition utils_base64decode :: "bytes \<Rightarrow> u32 \<Rightarrow> u32 \<Rightarrow> bytes \<Rightarrow> (int \<times> u32 option \<times> bytes) option" where
  "utils_base64decode data inputLength outputLenMax decodedData =
     (if inputLength mod 4 \<noteq> 0 then Some (-1, None, decodedData)
      else if inputLength = 0 then None
      else do {
        let outputLength = inputLength div 4 * 3;
        b \<leftarrow> rd data (unat inputLength - 1);
        let outputLength = (if b = 0x3D then outputLength - 1 else outputLength);
        b \<leftarrow> rd data (unat inputLength - 2);
        let outputLength = (if b = 0x3D then outputLength - 1 else outputLength);
        if outputLenMax < outputLength then Some (-1, Some outputLength, decodedData)
        else do {
          (buf, _) \<leftarrow> decode_loop data (unat inputLength) (unat outputLength) 0 (decodedData, 0);
          Some (0, Some outputLength, buf) } })"

section \<open>Base64\<close>

text \<open>RFC 4648, section 4: a value below 64 as a character, and groups of three bytes.\<close>

definition base64_char :: "nat \<Rightarrow> u8" where
  "base64_char k =
     of_nat (if k < 26 then 65 + k else if k < 52 then 71 + k else if k < 62 then k - 4 else if k = 62 then 43 else 47)"

fun base64 :: "bytes \<Rightarrow> bytes" where
  "base64 (a # b # c # bs) =
     map base64_char [unat a div 4, unat a mod 4 * 16 + unat b div 16, unat b mod 16 * 4 + unat c div 64, unat c mod 64] @ base64 bs"
| "base64 [a, b] = map base64_char [unat a div 4, unat a mod 4 * 16 + unat b div 16, unat b mod 16 * 4] @ [0x3D]"
| "base64 [a] = map base64_char [unat a div 4, unat a mod 4 * 16] @ [0x3D, 0x3D]"
| "base64 [] = []"

lemma encoding_char:
  assumes "k < 64"
  shows "g_encodingTable ! k = base64_char k"
proof -
  have "list_all (\<lambda>k. g_encodingTable ! k = base64_char k) [0..<64]" by code_simp
  then show ?thesis using assms by (simp add: list_all_iff)
qed

lemma decoding_char:
  assumes "k < 64"
  shows "build_decoding_table ! unat (base64_char k) = of_nat k" and "base64_char k \<noteq> 0x3D"
proof -
  have "list_all (\<lambda>k. build_decoding_table ! unat (base64_char k) = of_nat k \<and> base64_char k \<noteq> 0x3D) [0..<64]" by code_simp
  then show "build_decoding_table ! unat (base64_char k) = of_nat k" and "base64_char k \<noteq> 0x3D"
    using assms by (simp_all add: list_all_iff)
qed

section \<open>Encoding\<close>

definition chars4 :: "nat \<Rightarrow> nat \<Rightarrow> nat \<Rightarrow> bytes" where
  "chars4 a b c = map base64_char [a div 4, a mod 4 * 16 + b div 16, b mod 16 * 4 + c div 64, c mod 64]"

lemma length_chars4 [simp]: "length (chars4 a b c) = 4"
  by (simp add: chars4_def)

text \<open>Base64 with the last group filled up with zeros, before the padding.\<close>

fun groups :: "bytes \<Rightarrow> bytes" where
  "groups (a # b # c # bs) = chars4 (unat a) (unat b) (unat c) @ groups bs"
| "groups [a, b] = chars4 (unat a) (unat b) 0"
| "groups [a] = chars4 (unat a) 0 0"
| "groups [] = []"

lemma length_groups: "length (groups m) = 4 * ((length m + 2) div 3)"
  by (induction m rule: groups.induct) (simp_all, presburger+)

lemma length_base64: "length (base64 m) = 4 * ((length m + 2) div 3)"
  by (induction m rule: base64.induct) (simp_all, presburger+)

lemma unat_sextet: "unat (drop_bit n (t :: u32) AND 0x3F) = unat t div 2 ^ n mod 64"
proof -
  have "drop_bit n t AND 0x3F = take_bit 6 (drop_bit n t)" by (simp add: take_bit_eq_mask mask_eq_exp_minus_1)
  then have "unat (drop_bit n t AND 0x3F) = take_bit 6 (drop_bit n (unat t))"
    by (simp only: unsigned_take_bit_eq unat_drop_bit_eq)
  then show ?thesis by (simp add: take_bit_eq_mod drop_bit_eq_div)
qed

lemma triple_value:
  assumes "a < 256" and "b < 256" and "c < 256"
  shows "unat (push_bit 16 (of_nat a) + push_bit 8 (of_nat b) + of_nat c :: u32) = 65536 * a + 256 * b + c"
proof -
  have "push_bit 16 (of_nat a) + push_bit 8 (of_nat b) + of_nat c = (of_nat (65536 * a + 256 * b + c) :: u32)"
    by (simp add: push_bit_eq_mult)
  moreover have "65536 * a + 256 * b + c < 2 ^ 32" using assms by simp
  ultimately show ?thesis by (simp only: unat_of_nat) simp
qed

lemma mod_block: "x < (c :: nat) \<Longrightarrow> (a * c + x) mod (c * k) = a mod k * c + x"
  by (simp add: mod_mult2_eq mult.commute)

lemma sextets_of_triple:
  fixes a b c :: nat
  assumes "a < 256" and "b < 256" and "c < 256"
  defines "t \<equiv> 65536 * a + 256 * b + c"
  shows "t div 2 ^ 18 mod 64 = a div 4" and "t div 2 ^ 12 mod 64 = a mod 4 * 16 + b div 16"
    and "t div 2 ^ 6 mod 64 = b mod 16 * 4 + c div 64" and "t mod 64 = c mod 64"
proof -
  have 1: "t div 256 = 256 * a + b" using div_mult_self1 [of 256 c "256 * a + b"] assms(3) by (simp add: t_def add_ac)
  have m: "t div 262144 = t div 256 div 256 div 4" "t div 4096 = t div 256 div 16"
    by (simp_all add: div_mult2_eq [symmetric])
  have "(256 * a + b) div 256 = a" using div_mult_self1 [of 256 b a] assms(2) by (simp add: add_ac)
  moreover have "a div 4 < 64" using assms(1) by (simp add: less_mult_imp_div_less)
  ultimately show "t div 2 ^ 18 mod 64 = a div 4" using m(1) unfolding 1 by simp
  have "(256 * a + b) div 16 = a * 16 + b div 16" using div_mult_self1 [of 16 b "16 * a"] by (simp add: add_ac)
  moreover have "(a * 16 + b div 16) mod (16 * 4) = a mod 4 * 16 + b div 16"
    using assms(2) by (intro mod_block) (simp add: less_mult_imp_div_less)
  ultimately show "t div 2 ^ 12 mod 64 = a mod 4 * 16 + b div 16" using m(2) unfolding 1 by simp
  have "t div 64 = (256 * a + b) * 4 + c div 64"
    using div_mult_self1 [of 64 c "1024 * a + 4 * b"] by (simp add: t_def algebra_simps)
  moreover have "((256 * a + b) * 4 + c div 64) mod (4 * 16) = (256 * a + b) mod 16 * 4 + c div 64"
    using assms(3) by (intro mod_block) (simp add: less_mult_imp_div_less)
  moreover have "(256 * a + b) mod 16 = b mod 16" using mod_mult_self1 [of b "16 * a" 16] by (simp add: add_ac)
  ultimately show "t div 2 ^ 6 mod 64 = b mod 16 * 4 + c div 64" by simp
  show "t mod 64 = c mod 64" using mod_mult_self1 [of c "1024 * a + 4 * b" 64] by (simp add: t_def algebra_simps)
qed

lemma group_bounds:
  assumes "a < 256" and "b < 256" and "c < (256 :: nat)"
  shows "a div 4 < 64" and "a mod 4 * 16 + b div 16 < 64" and "b mod 16 * 4 + c div 64 < 64" and "c mod 64 < 64"
proof -
  have "b div 16 < 16" "c div 64 < 4" "a mod 4 < 4" "b mod 16 < 16" using assms by (simp_all add: less_mult_imp_div_less)
  then show "a mod 4 * 16 + b div 16 < 64" "b mod 16 * 4 + c div 64 < 64" by linarith+
qed (use assms in \<open>simp_all add: less_mult_imp_div_less\<close>)

lemma encode_triple_eq:
  assumes "a < 256" and "b < 256" and "c < 256"
  shows "encode_triple (push_bit 16 (of_nat a) + push_bit 8 (of_nat b) + of_nat c) = chars4 a b c"
proof -
  let ?t = "push_bit 16 (of_nat a) + push_bit 8 (of_nat b) + of_nat c :: u32"
  let ?T = "65536 * a + 256 * b + c"
  have t: "unat ?t = ?T" by (rule triple_value [OF assms])
  have 0: "unat (?t AND 0x3F) = ?T mod 64" using unat_sextet [of 0 ?t] t by simp
  have "?T div 2 ^ 18 mod 64 = a div 4" "?T div 2 ^ 12 mod 64 = a mod 4 * 16 + b div 16"
    "?T div 2 ^ 6 mod 64 = b mod 16 * 4 + c div 64" "?T mod 64 = c mod 64"
    by (rule sextets_of_triple [OF assms])+
  moreover have "a div 4 < 64" "a mod 4 * 16 + b div 16 < 64" "b mod 16 * 4 + c div 64 < 64" "c mod 64 < 64"
    by (rule group_bounds [OF assms])+
  ultimately show ?thesis
    unfolding encode_triple_def chars4_def unat_sextet 0 t by (simp add: encoding_char)
qed

lemma octet_in: "i < n \<Longrightarrow> octet data n i = map_option (\<lambda>b. of_nat (unat b)) (rd data i)"
  by (simp add: octet_def)

lemma encode_loop_end: "n \<le> i \<Longrightarrow> encode_loop data n i = Some"
  by (rule ext, subst encode_loop.simps) simp

lemma encode_loop_emits:
  "emits (encode_loop (pre @ m @ post) (length pre + length m) (length pre)) (groups m)"
proof (induction m arbitrary: pre rule: groups.induct)
  case (1 a b c bs)
  let ?data = "pre @ (a # b # c # bs) @ post"
  have o: "octet ?data (length pre + length (a # b # c # bs)) (length pre) = Some (of_nat (unat a))"
    "octet ?data (length pre + length (a # b # c # bs)) (length pre + 1) = Some (of_nat (unat b))"
    "octet ?data (length pre + length (a # b # c # bs)) (length pre + 2) = Some (of_nat (unat c))"
    by (simp_all add: octet_in rd_def nth_append del: of_nat_unat)
  have "encode_loop ?data (length pre + length (a # b # c # bs)) (length pre) =
      (\<lambda>cur. put_bytes (chars4 (unat a) (unat b) (unat c)) cur \<bind> encode_loop ?data (length pre + length (a # b # c # bs)) (length pre + 3))"
    by (rule ext, subst encode_loop.simps) (simp only: o Let_def encode_triple_eq unat_byte Option.bind.bind_lunit, simp)
  moreover have "emits (encode_loop ?data (length pre + length (a # b # c # bs)) (length pre + 3)) (groups bs)"
    using 1 [of "pre @ [a, b, c]"] by (simp add: add.commute add.left_commute numeral_3_eq_3)
  ultimately show ?case by (simp only: groups.simps) (intro emits_bind emits_put_bytes)
next
  case (2 a b)
  let ?data = "pre @ [a, b] @ post"
  have o: "octet ?data (length pre + length [a, b]) (length pre) = Some (of_nat (unat a))"
    "octet ?data (length pre + length [a, b]) (length pre + 1) = Some (of_nat (unat b))"
    "octet ?data (length pre + length [a, b]) (length pre + 2) = Some (of_nat 0)"
    by (simp_all add: octet_in rd_def nth_append del: of_nat_unat) (simp add: octet_def)
  have "encode_loop ?data (length pre + length [a, b]) (length pre) = put_bytes (chars4 (unat a) (unat b) 0)"
    by (rule ext, subst encode_loop.simps)
      (simp only: o Let_def encode_triple_eq unat_byte zero_less_numeral Option.bind.bind_lunit, simp add: encode_loop_end)
  then show ?case by (simp only: groups.simps emits_put_bytes)
next
  case (3 a)
  let ?data = "pre @ [a] @ post"
  have o: "octet ?data (length pre + length [a]) (length pre) = Some (of_nat (unat a))"
    "octet ?data (length pre + length [a]) (length pre + 1) = Some (of_nat 0)"
    "octet ?data (length pre + length [a]) (length pre + 2) = Some (of_nat 0)"
    by (simp_all add: octet_in rd_def nth_append del: of_nat_unat) (simp_all add: octet_def)
  have "encode_loop ?data (length pre + length [a]) (length pre) = put_bytes (chars4 (unat a) 0 0)"
    by (rule ext, subst encode_loop.simps)
      (simp only: o Let_def encode_triple_eq unat_byte zero_less_numeral Option.bind.bind_lunit, simp add: encode_loop_end)
  then show ?case by (simp only: groups.simps emits_put_bytes)
next
  case 4
  show ?case by (subst encode_loop.simps) (simp add: emits_def)
qed

text \<open>The padding overwrites the zeros of the last group.\<close>

lemma pad_groups:
  "pad_loop (g_modTable ! (length m mod 3)) (length (groups m)) (groups m @ rest) = Some (base64 m @ rest)"
proof (induction m rule: groups.induct)
  case (1 a b c bs)
  let ?g = "chars4 (unat a) (unat b) (unat c)" and ?k = "g_modTable ! (length bs mod 3)"
  have k: "?k = 0 \<or> (?k = 1 \<or> ?k = 2) \<and> 4 \<le> length (groups bs)"
  proof -
    have "length bs mod 3 = 0 \<or> (length bs mod 3 = 1 \<or> length bs mod 3 = 2) \<and> 1 \<le> (length bs + 2) div 3" by presburger
    then show ?thesis by (auto simp: g_modTable_def length_groups)
  qed
  have "pad_loop ?k (length (?g @ groups bs)) ((?g @ groups bs) @ rest) =
      map_option (\<lambda>buf. ?g @ buf) (pad_loop ?k (length (groups bs)) (groups bs @ rest))"
    using k by (auto simp: numeral_2_eq_2 wr_def list_update_append)
  moreover have "length (a # b # c # bs) mod 3 = length bs mod 3" by simp
  ultimately show ?case using 1 by (simp add: chars4_def)
next
  case (2 a b)
  then show ?case by (simp add: g_modTable_def wr_def chars4_def numeral_2_eq_2 list_update_append)
next
  case (3 a)
  then show ?case by (simp add: g_modTable_def wr_def chars4_def numeral_2_eq_2 list_update_append)
next
  case 4
  then show ?case by (simp add: g_modTable_def)
qed

lemma output_length:
  assumes "n < 2 ^ 31"
  shows "unat (4 * ((of_nat n + 2) div 3) :: u32) = 4 * ((n + 2) div 3)"
proof -
  have "unat (of_nat n + 2 :: u32) = n + 2" using assms by (simp add: unat_word_ariths unat_of_nat)
  then have "unat ((of_nat n + 2) div 3 :: u32) = (n + 2) div 3" by (simp add: unat_div)
  moreover have "4 * ((n + 2) div 3) < 2 ^ 32" using assms by simp
  ultimately show ?thesis by (simp add: unat_word_ariths)
qed

lemma encode_eq:
  assumes "length m < 2 ^ 31" and "length (base64 m) \<le> unat outmax" and "length (base64 m) \<le> length d"
  shows "utils_base64encode (m @ post) (of_nat (length m)) outmax (Some d) =
    Some (0, Some (of_nat (length (base64 m))), Some (base64 m @ drop (length (base64 m)) d))"
proof -
  let ?L = "4 * ((of_nat (length m) + 2) div 3) :: u32"
  have L: "unat ?L = length (base64 m)" using output_length [OF assms(1)] by (simp add: length_base64)
  then have L': "?L = of_nat (length (base64 m))" by (simp flip: L)
  have g: "length (groups m) = length (base64 m)" by (simp add: length_groups length_base64)
  have u: "unat (of_nat (length m) :: u32) = length m" using assms(1) by (simp add: unat_of_nat)
  have run: "encode_loop (m @ post) (length m) 0 (d, 0) = Some (groups m @ drop (length (base64 m)) d, length (base64 m))"
    using emits_run [OF encode_loop_emits [of "[]" m post], of 0 d] assms(3) g by (simp add: overwrite_zero)
  have "\<not> outmax < ?L" using assms(2) L by (simp add: word_less_nat_alt)
  then show ?thesis
    using pad_groups [of m "drop (length (base64 m)) d"] L g
    unfolding utils_base64encode_def Let_def u by (simp add: run L')
qed

section \<open>Decoding\<close>

lemma low_byte: "(ucast (drop_bit j (w :: u32) AND 0xFF) :: u8) = of_nat (unat w div 2 ^ j)"
proof -
  have "drop_bit j w AND 0xFF = take_bit 8 (drop_bit j w)" by (simp add: take_bit_eq_mask mask_eq_exp_minus_1)
  then have "(ucast (drop_bit j w AND 0xFF) :: u8) = ucast (drop_bit j w)" by (auto intro!: bit_word_eqI simp: bit_simps)
  also have "\<dots> = of_nat (unat (drop_bit j w))" by (simp only: of_nat_unat)
  finally show ?thesis by (simp only: unat_drop_bit_eq) (simp only: drop_bit_eq_div)
qed

lemma triple_of_sextets:
  fixes a b c :: nat
  shows "push_bit 18 (of_nat (a div 4)) + push_bit 12 (of_nat (a mod 4 * 16 + b div 16)) +
    push_bit 6 (of_nat (b mod 16 * 4 + c div 64)) + of_nat (c mod 64) =
    (push_bit 16 (of_nat a) + push_bit 8 (of_nat b) + of_nat c :: u32)"
proof -
  have join: "a1 * 2 ^ 18 + (a0 * 16 + b1) * 2 ^ 12 + (b0 * 4 + c1) * 2 ^ 6 + c0 = a * 2 ^ 16 + b * 2 ^ 8 + c"
    if "a = 4 * a1 + a0" "b = 16 * b1 + b0" "c = 64 * c1 + c0" for a1 a0 b1 b0 c1 c0
    using that by simp
  have "a div 4 * 2 ^ 18 + (a mod 4 * 16 + b div 16) * 2 ^ 12 + (b mod 16 * 4 + c div 64) * 2 ^ 6 + c mod 64 =
      a * 2 ^ 16 + b * 2 ^ 8 + c"
    by (rule join) simp_all
  then have "(of_nat (a div 4 * 2 ^ 18 + (a mod 4 * 16 + b div 16) * 2 ^ 12 + (b mod 16 * 4 + c div 64) * 2 ^ 6 + c mod 64) :: u32) =
      of_nat (a * 2 ^ 16 + b * 2 ^ 8 + c)" by (rule arg_cong)
  then show ?thesis by (simp only: push_bit_eq_mult of_nat_add of_nat_mult of_nat_power of_nat_numeral)
qed

lemma bytes_of_triple:
  assumes "a < 256" and "b < 256" and "c < 256"
  defines "t \<equiv> push_bit 16 (of_nat a) + push_bit 8 (of_nat b) + of_nat c :: u32"
  shows "(ucast (drop_bit 16 t AND 0xFF) :: u8) = of_nat a" and "(ucast (drop_bit 8 t AND 0xFF) :: u8) = of_nat b"
    and "(ucast (t AND 0xFF) :: u8) = of_nat c"
proof -
  have t: "unat t = 65536 * a + 256 * b + c" unfolding t_def by (rule triple_value [OF assms(1-3)])
  have 1: "unat t div 256 = 256 * a + b" using div_mult_self1 [of 256 c "256 * a + b"] assms(3) by (simp add: t add_ac)
  have 2: "unat t div 65536 = a"
    using div_mult2_eq [of "unat t" 256 256] div_mult_self1 [of 256 b a] assms(2) unfolding 1 by (simp add: add_ac)
  show "(ucast (drop_bit 16 t AND 0xFF) :: u8) = of_nat a" using 2 by (simp only: low_byte) simp
  have z: "(256 :: u8) = 0" "(65536 :: u8) = 0" by (simp_all add: word_unat_eq_iff)
  have "(of_nat (256 * a + b) :: u8) = of_nat b" "(of_nat (65536 * a + 256 * b + c) :: u8) = of_nat c"
    by (simp_all only: of_nat_add of_nat_mult of_nat_numeral z mult_zero_left add_0_left)
  then show "(ucast (drop_bit 8 t AND 0xFF) :: u8) = of_nat b" "(ucast (t AND 0xFF) :: u8) = of_nat c"
    using 1 low_byte [of 8 t] low_byte [of 0 t] t by simp_all
qed

lemma sextet_char:
  "k < 64 \<Longrightarrow> sextet (pre @ base64_char k # rest) (length pre) = Some (of_nat k)"
  by (simp add: sextet_def rd_def decoding_char)

lemma sextet_pad: "sextet (pre @ 0x3D # rest) (length pre) = Some 0"
  by (simp add: sextet_def rd_def)

lemma sextets_at:
  assumes "k0 < 64" and "k1 < 64"
  shows "sextet (pre @ base64_char k0 # x) (length pre) = Some (of_nat k0)"
    and "sextet (pre @ y # base64_char k1 # x) (length pre + 1) = Some (of_nat k1)"
    and "sextet (pre @ y # z # base64_char k1 # x) (length pre + 2) = Some (of_nat k1)"
    and "sextet (pre @ y # z # 0x3D # x) (length pre + 2) = Some 0"
    and "sextet (pre @ y # z # u # base64_char k1 # x) (length pre + 3) = Some (of_nat k1)"
    and "sextet (pre @ y # z # u # 0x3D # x) (length pre + 3) = Some 0"
  using sextet_char [OF assms(1), of pre x] sextet_char [OF assms(2), of "pre @ [y]" x] sextet_char [OF assms(2), of "pre @ [y, z]" x]
    sextet_pad [of "pre @ [y, z]" x] sextet_char [OF assms(2), of "pre @ [y, z, u]" x] sextet_pad [of "pre @ [y, z, u]" x]
  by (simp_all add: numeral_3_eq_3)

text \<open>One round of the loop on the group of the three values \<open>a\<close>, \<open>b\<close> and \<open>c\<close>.\<close>

lemma decode_round:
  assumes "a < 256" and "b < 256" and "c < 256" and "i < n"
    and "sextet data i = Some (of_nat (a div 4))" and "sextet data (i + 1) = Some (of_nat (a mod 4 * 16 + b div 16))"
    and "sextet data (i + 2) = Some (of_nat (b mod 16 * 4 + c div 64))" and "sextet data (i + 3) = Some (of_nat (c mod 64))"
  shows "decode_loop data n l i cur = do {
    cur \<leftarrow> put_below l (of_nat a) cur; cur \<leftarrow> put_below l (of_nat b) cur; cur \<leftarrow> put_below l (of_nat c) cur;
    decode_loop data n l (i + 4) cur }"
  using assms(4)
  by (subst decode_loop.simps)
    (simp only: assms(5-8) Option.bind.bind_lunit Let_def triple_of_sextets bytes_of_triple [OF assms(1-3)] if_True)

lemma decode_loop_end: "n \<le> i \<Longrightarrow> decode_loop data n l i = Some"
  by (rule ext, subst decode_loop.simps) simp

lemma put_below_in: "j < l \<Longrightarrow> j < length d \<Longrightarrow> put_below l b (d, j) = Some (overwrite d j [b], Suc j)"
  by (simp add: put_below_def put_bytes_def wr_bytes_def)

lemma put_below_out: "l \<le> j \<Longrightarrow> put_below l b (d, j) = Some (d, j)"
  by (simp add: put_below_def)

lemma overwrite_Cons: "j < length d \<Longrightarrow> overwrite (overwrite d j [b]) (Suc j) bs = overwrite d j (b # bs)"
  using overwrite_append [of j "[b]" d bs] by simp

lemma decode_full:
  assumes bnd: "a < 256" "b < 256" "c < 256"
  shows "decode_loop (pre @ chars4 a b c @ rest) (length pre + 4 + n) l (length pre) cur = do {
    cur \<leftarrow> put_below l (of_nat a) cur; cur \<leftarrow> put_below l (of_nat b) cur; cur \<leftarrow> put_below l (of_nat c) cur;
    decode_loop (pre @ chars4 a b c @ rest) (length pre + 4 + n) l (length pre + 4) cur }"
proof -
  note g = group_bounds [OF bnd]
  show ?thesis
    by (rule decode_round [OF bnd])
      (simp_all only: chars4_def list.map append_Cons append_Nil sextets_at [OF g(1) g(1)] sextets_at [OF g(2) g(2)]
        sextets_at [OF g(3) g(3)] sextets_at [OF g(4) g(4)], simp_all?)
qed

lemma decode_two:
  assumes bnd: "a < 256" "b < 256"
  shows "decode_loop (pre @ (map base64_char [a div 4, a mod 4 * 16 + b div 16, b mod 16 * 4] @ [0x3D]) @ rest) (length pre + 4) l (length pre) cur = do {
    cur \<leftarrow> put_below l (of_nat a) cur; cur \<leftarrow> put_below l (of_nat b) cur; put_below l 0 cur }"
proof -
  have z: "(0 :: nat) < 256" by simp
  note g = group_bounds [OF bnd z]
  let ?data = "pre @ (map base64_char [a div 4, a mod 4 * 16 + b div 16, b mod 16 * 4] @ [0x3D]) @ rest"
  have g3: "b mod 16 * 4 < 64" using g(3) by simp
  have "decode_loop ?data (length pre + 4) l (length pre) cur = do {
      cur \<leftarrow> put_below l (of_nat a) cur; cur \<leftarrow> put_below l (of_nat b) cur; cur \<leftarrow> put_below l (of_nat 0) cur;
      decode_loop ?data (length pre + 4) l (length pre + 4) cur }"
    by (rule decode_round [OF bnd z])
      (simp_all only: list.map append_Cons append_Nil sextets_at [OF g(1) g(1)] sextets_at [OF g(2) g(2)] sextets_at [OF g3 g3]
        div_0 mod_0 add_0_right of_nat_0, simp_all?)
  then show ?thesis by (simp add: decode_loop_end)
qed

lemma decode_one:
  assumes bnd: "a < 256"
  shows "decode_loop (pre @ (map base64_char [a div 4, a mod 4 * 16] @ [0x3D, 0x3D]) @ rest) (length pre + 4) l (length pre) cur = do {
    cur \<leftarrow> put_below l (of_nat a) cur; cur \<leftarrow> put_below l 0 cur; put_below l 0 cur }"
proof -
  have z: "(0 :: nat) < 256" by simp
  note g = group_bounds [OF bnd z z]
  let ?data = "pre @ (map base64_char [a div 4, a mod 4 * 16] @ [0x3D, 0x3D]) @ rest"
  have g2: "a mod 4 * 16 < 64" using g(2) by simp
  have "decode_loop ?data (length pre + 4) l (length pre) cur = do {
      cur \<leftarrow> put_below l (of_nat a) cur; cur \<leftarrow> put_below l (of_nat 0) cur; cur \<leftarrow> put_below l (of_nat 0) cur;
      decode_loop ?data (length pre + 4) l (length pre + 4) cur }"
    by (rule decode_round [OF bnd z z])
      (simp_all only: list.map append_Cons append_Nil sextets_at [OF g(1) g(1)] sextets_at [OF g2 g2]
        div_0 mod_0 add_0_right of_nat_0 mult_zero_left, simp_all?)
  then show ?thesis by (simp add: decode_loop_end)
qed

lemma decode_loop_eq:
  "j + length m = l \<Longrightarrow> l \<le> length d \<Longrightarrow>
    decode_loop (pre @ base64 m @ post) (length pre + length (base64 m)) l (length pre) (d, j) = Some (overwrite d j m, l)"
proof (induction m arbitrary: pre d j rule: base64.induct)
  case (1 a b c bs)
  let ?g = "chars4 (unat a) (unat b) (unat c)"
  let ?d3 = "overwrite (overwrite (overwrite d j [a]) (Suc j) [b]) (Suc (Suc j)) [c]"
  have enc: "base64 (a # b # c # bs) = ?g @ base64 bs" by (simp add: chars4_def)
  have "decode_loop (pre @ (?g @ base64 bs) @ post) (length pre + length (?g @ base64 bs)) l (length pre) (d, j) =
      decode_loop ((pre @ ?g) @ base64 bs @ post) (length (pre @ ?g) + length (base64 bs)) l (length (pre @ ?g)) (?d3, j + 3)"
    using decode_full [OF unat_byte unat_byte unat_byte, of pre a b c "base64 bs @ post" "length (base64 bs)" l "(d, j)"] 1(2,3)
    by (simp add: put_below_in numeral_3_eq_3 add.assoc)
  also have "\<dots> = Some (overwrite ?d3 (j + 3) bs, l)" using 1(2,3) by (intro 1(1)) simp_all
  also have "overwrite ?d3 (j + 3) bs = overwrite d j (a # b # c # bs)"
    using 1(2,3) overwrite_append [of j "[a, b]" d "c # bs"] by (simp add: overwrite_Cons numeral_3_eq_3)
  finally show ?case unfolding enc .
next
  case (2 a b)
  have four: "length pre + length (base64 [a, b]) = length pre + 4" by simp
  show ?case using decode_two [OF unat_byte unat_byte, of pre a b post l "(d, j)"] 2
    unfolding four by (simp add: put_below_in put_below_out overwrite_Cons)
next
  case (3 a)
  have four: "length pre + length (base64 [a]) = length pre + 4" by simp
  show ?case using decode_one [OF unat_byte, of pre a post l "(d, j)"] 3
    unfolding four by (simp add: put_below_in put_below_out)
next
  case 4
  then show ?case by (simp add: decode_loop_end)
qed

text \<open>The padding tells the length.\<close>

lemma base64_tail:
  "m \<noteq> [] \<Longrightarrow> base64 m ! (length (base64 m) - 1) = 0x3D \<longleftrightarrow> length m mod 3 \<noteq> 0"
  "m \<noteq> [] \<Longrightarrow> base64 m ! (length (base64 m) - 2) = 0x3D \<longleftrightarrow> length m mod 3 = 1"
proof (induction m rule: base64.induct)
  case (1 a b c bs)
  note IH = 1
  let ?g = "map base64_char [unat a div 4, unat a mod 4 * 16 + unat b div 16, unat b mod 16 * 4 + unat c div 64, unat c mod 64]"
  have g: "length ?g = 4" by simp
  note gb = group_bounds [OF unat_byte [of a] unat_byte [of b] unat_byte [of c]]
  have l: "bs \<noteq> [] \<Longrightarrow> 4 \<le> length (base64 bs)" by (cases bs rule: base64.cases) simp_all
  have m3: "length (a # b # c # bs) mod 3 = length bs mod 3" by simp
  have tail: "bs \<noteq> [] \<Longrightarrow> (?g @ base64 bs) ! (length (?g @ base64 bs) - k) = base64 bs ! (length (base64 bs) - k)"
    if "k \<le> 4" for k
    using l that unfolding nth_append g by auto
  {
    case 1
    show ?case unfolding base64.simps m3
    proof (cases "bs = []")
      case True
      then show "(?g @ base64 bs) ! (length (?g @ base64 bs) - 1) = 0x3D \<longleftrightarrow> length bs mod 3 \<noteq> 0"
        using decoding_char(2) [OF gb(4)] by simp
    next
      case False
      then show "(?g @ base64 bs) ! (length (?g @ base64 bs) - 1) = 0x3D \<longleftrightarrow> length bs mod 3 \<noteq> 0"
        using tail [of 1] IH(1) by simp
    qed
  next
    case 2
    show ?case unfolding base64.simps m3
    proof (cases "bs = []")
      case True
      then show "(?g @ base64 bs) ! (length (?g @ base64 bs) - 2) = 0x3D \<longleftrightarrow> length bs mod 3 = 1"
        using decoding_char(2) [OF gb(3)] by simp
    next
      case False
      then show "(?g @ base64 bs) ! (length (?g @ base64 bs) - 2) = 0x3D \<longleftrightarrow> length bs mod 3 = 1"
        using tail [of 2] IH(2) by simp
    qed
  }
next
  case (2 a b)
  note gb = group_bounds [OF unat_byte [of a] unat_byte [of b] zero_less_numeral]
  have "base64_char (unat b mod 16 * 4) \<noteq> 0x3D" using gb(3) by (intro decoding_char(2)) simp
  then show "base64 [a, b] ! (length (base64 [a, b]) - 1) = 0x3D \<longleftrightarrow> length [a, b] mod 3 \<noteq> 0"
    "base64 [a, b] ! (length (base64 [a, b]) - 2) = 0x3D \<longleftrightarrow> length [a, b] mod 3 = 1" by simp_all
qed simp_all

lemma decode_eq:
  assumes m: "m \<noteq> []" and l: "length m < 2 ^ 31" and outmax: "length m \<le> unat outmax" and d: "length m \<le> length d"
  shows "utils_base64decode (base64 m @ post) (of_nat (length (base64 m))) outmax d =
    Some (0, Some (of_nat (length m)), m @ drop (length m) d)"
proof -
  let ?L = "length (base64 m)"
  have n: "1 \<le> length m" using m by (cases m) simp_all
  have L: "?L = 4 * ((length m + 2) div 3)" by (rule length_base64)
  have L4: "4 \<le> ?L" using n L by simp
  have small: "?L < 2 ^ 32" using l L by simp
  have u: "unat (of_nat ?L :: u32) = ?L" using small by (simp only: unat_of_nat) simp
  have m4: "(of_nat ?L :: u32) mod 4 = 0" using u L by (simp add: word_unat_eq_iff unat_mod)
  have nz: "(of_nat ?L :: u32) \<noteq> 0" using u L4 by (auto simp: word_unat_eq_iff)
  have q: "(of_nat ?L :: u32) div 4 * 3 = of_nat (3 * ((length m + 2) div 3))"
  proof -
    have "unat ((of_nat ?L :: u32) div 4) = (length m + 2) div 3" using u L by (simp add: unat_div)
    then have "(of_nat ?L :: u32) div 4 = of_nat ((length m + 2) div 3)" by (metis of_nat_unat ucast_id)
    then show ?thesis by (simp add: mult.commute)
  qed
  define k where "k = (if length m mod 3 = 0 then 0 else if length m mod 3 = 1 then 2 else 1 :: nat)"
  have k: "3 * ((length m + 2) div 3) = length m + k"
    unfolding k_def using div_mult_mod_eq [of "length m" 3] mod_less_divisor [of 3 "length m"] by presburger
  have r: "rd (base64 m @ post) (?L - 1) = Some (base64 m ! (?L - 1))" "rd (base64 m @ post) (?L - 2) = Some (base64 m ! (?L - 2))"
  proof -
    have "?L - 1 < ?L" "?L - 2 < ?L" using L4 by linarith+
    then show "rd (base64 m @ post) (?L - 1) = Some (base64 m ! (?L - 1))" "rd (base64 m @ post) (?L - 2) = Some (base64 m ! (?L - 2))"
      by (simp_all only: rd_append_left)
  qed
  have out: "(let outputLength = (of_nat (length m + k) :: u32);
      outputLength = (if length m mod 3 \<noteq> 0 then outputLength - 1 else outputLength)
      in if length m mod 3 = 1 then outputLength - 1 else outputLength) = of_nat (length m)"
    by (auto simp: k_def Let_def)
  have um: "unat (of_nat (length m) :: u32) = length m" using l by (simp add: unat_of_nat)
  have "decode_loop (base64 m @ post) ?L (length m) 0 (d, 0) = Some (m @ drop (length m) d, length m)"
    using decode_loop_eq [of 0 m "length m" d "[]" post] d by (simp add: overwrite_zero)
  moreover have "\<not> outmax < of_nat (length m)" using outmax um by (simp add: word_less_nat_alt)
  ultimately show ?thesis
    using out unfolding utils_base64decode_def u q k Let_def r Option.bind.bind_lunit base64_tail [OF m] by (simp add: m4 nz um)
qed

text \<open>
  Property C34: \<open>utils_base64encode\<close> writes the Base64 text of RFC 4648, and \<open>utils_base64decode\<close> gets
  the bytes back from it, for every input that is not empty and is shorter than \<open>2 ^ 31\<close> bytes.
\<close>

theorem base64_roundtrip:
  assumes "m \<noteq> []" and "length m < 2 ^ 31" and "4 * ((length m + 2) div 3) \<le> length d"
    and "4 * ((length m + 2) div 3) \<le> unat encmax" and "length m \<le> unat decmax" and "length m \<le> length d'"
  shows "\<exists>buf. utils_base64encode (m @ post) (of_nat (length m)) encmax (Some d) =
      Some (0, Some (of_nat (length (base64 m))), Some buf) \<and> take (length (base64 m)) buf = base64 m \<and>
    utils_base64decode buf (of_nat (length (base64 m))) decmax d' =
      Some (0, Some (of_nat (length m)), m @ drop (length m) d')"
  using encode_eq [of m encmax d post] decode_eq [OF assms(1,2,5,6), of "drop (length (base64 m)) d"] assms
  by (simp add: length_base64)

theorem base64_roundtrip_witness:
  "\<exists>buf. utils_base64encode [0xFF, 1] 2 8 (Some [0, 0, 0, 0, 7]) = Some (0, Some 4, Some buf) \<and> take 4 buf = base64 [0xFF, 1] \<and>
    utils_base64decode buf 4 2 [0, 0, 9] = Some (0, Some 2, [0xFF, 1, 9])"
  using base64_roundtrip [of "[0xFF, 1]" "[0, 0, 0, 0, 7]" 8 2 "[0, 0, 9]" "[]"] by (simp del: base64.simps add: length_base64)

end
