(* ===== verification/Utils_Net.thy ===== *)
theory Utils_Net
  imports Iotkit_Prelude
begin

text \<open>
  The network connection of sdk/utils/misc/utils_net.c: TCP without a certificate, TLS with one.
  The platform's sockets (platform/inc/hal_tcp_interface.h, hal_tls_interface.h) are the record
  \<open>e\<close> over a world \<open>w\<close>; a read returns its result and the bytes it stored. The \<open>NULL\<close> tests of the TLS
  functions are never reached with \<open>NULL\<close>: the public functions have read \<open>ca_crt\<close> before.
\<close>

record utils_network =
  pHostAddress :: bytes
  port :: u16
  ca_crt_len :: u16
  ca_crt :: "bytes option"
  handle :: int
  ops_set :: bool

record 'w net_env =
  HAL_TCP_Establish :: "bytes \<Rightarrow> u16 \<Rightarrow> 'w \<Rightarrow> int \<times> 'w"
  HAL_TCP_Destroy :: "int \<Rightarrow> 'w \<Rightarrow> 'w"
  HAL_TCP_Write :: "int \<Rightarrow> bytes \<Rightarrow> u32 \<Rightarrow> 'w \<Rightarrow> int \<times> 'w"
  HAL_TCP_Read :: "int \<Rightarrow> u32 \<Rightarrow> u32 \<Rightarrow> 'w \<Rightarrow> int \<times> bytes \<times> 'w"
  HAL_SSL_Establish :: "bytes \<Rightarrow> u16 \<Rightarrow> bytes \<Rightarrow> nat \<Rightarrow> 'w \<Rightarrow> int \<times> 'w"
  HAL_SSL_Destroy :: "int \<Rightarrow> 'w \<Rightarrow> 'w"
  HAL_SSL_Write :: "int \<Rightarrow> bytes \<Rightarrow> u32 \<Rightarrow> 'w \<Rightarrow> int \<times> 'w"
  HAL_SSL_Read :: "int \<Rightarrow> u32 \<Rightarrow> u32 \<Rightarrow> 'w \<Rightarrow> int \<times> bytes \<times> 'w"

section \<open>TCP\<close>

definition read_tcp :: "('w, 'z) net_env_scheme \<Rightarrow> utils_network \<Rightarrow> u32 \<Rightarrow> u32 \<Rightarrow> 'w \<Rightarrow> int \<times> bytes \<times> 'w" where
  "read_tcp e pNetwork n timeout_ms w = HAL_TCP_Read e (handle pNetwork) n timeout_ms w"

definition write_tcp :: "('w, 'z) net_env_scheme \<Rightarrow> utils_network \<Rightarrow> bytes \<Rightarrow> u32 \<Rightarrow> 'w \<Rightarrow> int \<times> 'w" where
  "write_tcp e pNetwork d timeout_ms w = HAL_TCP_Write e (handle pNetwork) d timeout_ms w"

definition disconnect_tcp :: "('w, 'z) net_env_scheme \<Rightarrow> utils_network \<Rightarrow> 'w \<Rightarrow> int \<times> utils_network \<times> 'w" where
  "disconnect_tcp e pNetwork w =
     (if handle pNetwork < 0 then (-1, pNetwork, w)
      else (0, pNetwork\<lparr>handle := -1\<rparr>, HAL_TCP_Destroy e (handle pNetwork) w))"

definition connect_tcp :: "('w, 'z) net_env_scheme \<Rightarrow> utils_network \<Rightarrow> 'w \<Rightarrow> int \<times> utils_network \<times> 'w" where
  "connect_tcp e pNetwork w =
     (let (fd, w) = HAL_TCP_Establish e (pHostAddress pNetwork) (port pNetwork) w
      in (if fd < 0 then -1 else 0, pNetwork\<lparr>handle := fd\<rparr>, w))"

section \<open>TLS\<close>

definition read_ssl :: "('w, 'z) net_env_scheme \<Rightarrow> utils_network \<Rightarrow> u32 \<Rightarrow> u32 \<Rightarrow> 'w \<Rightarrow> int \<times> bytes \<times> 'w" where
  "read_ssl e pNetwork n timeout_ms w = HAL_SSL_Read e (handle pNetwork) n timeout_ms w"

definition write_ssl :: "('w, 'z) net_env_scheme \<Rightarrow> utils_network \<Rightarrow> bytes \<Rightarrow> u32 \<Rightarrow> 'w \<Rightarrow> int \<times> 'w" where
  "write_ssl e pNetwork d timeout_ms w = HAL_SSL_Write e (handle pNetwork) d timeout_ms w"

definition disconnect_ssl :: "('w, 'z) net_env_scheme \<Rightarrow> utils_network \<Rightarrow> 'w \<Rightarrow> int \<times> utils_network \<times> 'w" where
  "disconnect_ssl e pNetwork w = (0, pNetwork\<lparr>handle := -1\<rparr>, HAL_SSL_Destroy e (handle pNetwork) w)"

definition connect_ssl :: "('w, 'z) net_env_scheme \<Rightarrow> bytes \<Rightarrow> utils_network \<Rightarrow> 'w \<Rightarrow> int \<times> utils_network \<times> 'w" where
  "connect_ssl e crt pNetwork w =
     (let (fd, w) = HAL_SSL_Establish e (pHostAddress pNetwork) (port pNetwork) crt (unat (ca_crt_len pNetwork) + 1) w
      in (if fd \<ge> 0 then 0 else -1, pNetwork\<lparr>handle := fd\<rparr>, w))"

section \<open>The interface\<close>

definition utils_net_read :: "('w, 'z) net_env_scheme \<Rightarrow> utils_network \<Rightarrow> u32 \<Rightarrow> u32 \<Rightarrow> 'w \<Rightarrow> int \<times> bytes \<times> 'w" where
  "utils_net_read e pNetwork n timeout_ms w =
     (case ca_crt pNetwork of None \<Rightarrow> read_tcp e pNetwork n timeout_ms w | Some _ \<Rightarrow> read_ssl e pNetwork n timeout_ms w)"

definition utils_net_write :: "('w, 'z) net_env_scheme \<Rightarrow> utils_network \<Rightarrow> bytes \<Rightarrow> u32 \<Rightarrow> 'w \<Rightarrow> int \<times> 'w" where
  "utils_net_write e pNetwork d timeout_ms w =
     (case ca_crt pNetwork of None \<Rightarrow> write_tcp e pNetwork d timeout_ms w | Some _ \<Rightarrow> write_ssl e pNetwork d timeout_ms w)"

definition iotx_net_disconnect :: "('w, 'z) net_env_scheme \<Rightarrow> utils_network \<Rightarrow> 'w \<Rightarrow> int \<times> utils_network \<times> 'w" where
  "iotx_net_disconnect e pNetwork w =
     (case ca_crt pNetwork of None \<Rightarrow> disconnect_tcp e pNetwork w | Some _ \<Rightarrow> disconnect_ssl e pNetwork w)"

definition iotx_net_connect :: "('w, 'z) net_env_scheme \<Rightarrow> utils_network \<Rightarrow> 'w \<Rightarrow> int \<times> utils_network \<times> 'w" where
  "iotx_net_connect e pNetwork w =
     (case ca_crt pNetwork of None \<Rightarrow> connect_tcp e pNetwork w | Some crt \<Rightarrow> connect_ssl e crt pNetwork w)"

text \<open>\<open>ops_set\<close>: the four function pointers point to the functions above.\<close>

definition iotx_net_init :: "utils_network option \<Rightarrow> bytes option \<Rightarrow> u16 \<Rightarrow> bytes option \<Rightarrow> int \<times> utils_network option" where
  "iotx_net_init pNetwork host prt crt =
     (case (pNetwork, host) of
        (Some n, Some h) \<Rightarrow>
          (0, Some (n\<lparr>pHostAddress := h, port := prt, ca_crt := crt,
                      ca_crt_len := (case crt of None \<Rightarrow> 0 | Some c \<Rightarrow> of_nat (length c)),
                      handle := -1, ops_set := True\<rparr>))
      | _ \<Rightarrow> (-1, pNetwork))"

text \<open>
  A connection that \<open>iotx_net_init\<close> prepared is open exactly when connecting succeeded, is closed by
  disconnecting, and stays set up; without a certificate only the TCP functions are used.
\<close>

lemma net_connect_open:
  assumes "iotx_net_connect e n w = (rc, n', w')"
  shows "rc = 0 \<longleftrightarrow> handle n' \<ge> 0" and "rc \<le> 0" and "n' = n\<lparr>handle := handle n'\<rparr>"
  using assms by (auto simp: iotx_net_connect_def connect_tcp_def connect_ssl_def
      split: option.splits prod.splits if_splits)

lemma net_disconnect_closed:
  assumes "iotx_net_disconnect e n w = (rc, n', w')"
  shows "handle n' < 0" and "n' = n\<lparr>handle := handle n'\<rparr>"
  using assms by (auto simp: iotx_net_disconnect_def disconnect_tcp_def disconnect_ssl_def
      split: option.splits if_splits)

end
