(* ===== verification/Utils_Httpc.thy ===== *)
theory Utils_Httpc
  imports Utils_Net Utils_Timer
begin

text \<open>
  The HTTP client of sdk/utils/misc/utils_httpc.c, used to download firmware and to ask for the
  time. A request is sent as one block; the status line and the headers are read into a buffer of
  256 bytes, the body goes from there to the buffer of the caller.

  Signed C integers are \<open>int\<close>, unsigned ones words, and a comparison of both is made on words, as C
  does. Strings are the lists of their characters before the end. The loops that wait for the
  network are partial functions: \<open>None\<close> means that the loop never ends or that memory outside a
  buffer is used. \<open>min_len\<close> of \<open>httpclient_recv\<close> has no effect and is left out.
\<close>

section \<open>The C library: strings and sscanf\<close>

definition cstring :: "bytes \<Rightarrow> bytes option" where
  "cstring m = map_option (\<lambda>n. take n m) (strlen m)"

text \<open>\<open>strstr\<close>.\<close>

fun find_text :: "bytes \<Rightarrow> bytes \<Rightarrow> nat option" where
  "find_text pat [] = (if pat = [] then Some 0 else None)"
| "find_text pat (b # bs) =
     (if take (length pat) (b # bs) = pat then Some 0 else map_option Suc (find_text pat bs))"

abbreviation (input) crlf :: bytes where "crlf \<equiv> [0x0D, 0x0A]"

definition white :: "u8 \<Rightarrow> bool" where
  "white b \<longleftrightarrow> b = 0x20 \<or> 9 \<le> b \<and> b \<le> 13"

definition digit :: "u8 \<Rightarrow> bool" where
  "digit b \<longleftrightarrow> 0x30 \<le> b \<and> b \<le> 0x39"

definition xdigit :: "u8 \<Rightarrow> bool" where
  "xdigit b \<longleftrightarrow> digit b \<or> 0x41 \<le> b \<and> b \<le> 0x46 \<or> 0x61 \<le> b \<and> b \<le> 0x66"

definition digit_value :: "u8 \<Rightarrow> nat" where
  "digit_value b = (if digit b then unat b - 48 else if b \<le> 0x46 then unat b - 55 else unat b - 87)"

definition number :: "nat \<Rightarrow> bytes \<Rightarrow> nat" where
  "number base ds = foldl (\<lambda>n d. n * base + digit_value d) 0 ds"

definition scan_sign :: "bytes \<Rightarrow> bool \<times> bytes" where
  "scan_sign s =
     (case s of
        b # t \<Rightarrow> if b = 0x2D then (True, t) else if b = 0x2B then (False, t) else (False, s)
      | [] \<Rightarrow> (False, s))"

text \<open>\<open>%d\<close> and \<open>%x\<close>: the number and the rest, \<open>None\<close> without a conversion.\<close>

definition scan_int :: "bytes \<Rightarrow> (int \<times> bytes) option" where
  "scan_int s =
     (case scan_sign (dropWhile white s) of (neg, s) \<Rightarrow>
        if takeWhile digit s = [] then None
        else Some ((if neg then - 1 else 1) * int (number 10 (takeWhile digit s)), dropWhile digit s))"

definition scan_hex :: "bytes \<Rightarrow> int option" where
  "scan_hex s =
     (case scan_sign (dropWhile white s) of (neg, s) \<Rightarrow>
        let s = (if take 2 s = [0x30, 0x78] \<or> take 2 s = [0x30, 0x58] then drop 2 s else s)
        in if takeWhile xdigit s = [] then None
           else Some ((if neg then - 1 else 1) * int (number 16 (takeWhile xdigit s))))"

text \<open>A converted number that its variable cannot hold is undefined in C.\<close>

definition fits_int :: "int \<Rightarrow> bool" where
  "fits_int n \<longleftrightarrow> - (2 ^ 31) \<le> n \<and> n < 2 ^ 31"

text \<open>A signed difference; overflow is undefined.\<close>

definition sub_int :: "int \<Rightarrow> int \<Rightarrow> int option" where
  "sub_int a b = (if fits_int (a - b) then Some (a - b) else None)"

definition fits_unsigned :: "int \<Rightarrow> bool" where
  "fits_unsigned n \<longleftrightarrow> \<bar>n\<bar> < 2 ^ 32"

text \<open>\<open>"HTTP/%*d.%*d %d %*[^\r\n]"\<close> and \<open>"%31[^:]: %31[^\r\n]"\<close>.\<close>

definition scan_status :: "bytes \<Rightarrow> int option" where
  "scan_status s =
     (if take 5 s = literal ''HTTP/'' then do {
        (_, s) \<leftarrow> scan_int (drop 5 s);
        s \<leftarrow> (case s of b # t \<Rightarrow> if b = 0x2E then Some t else None | [] \<Rightarrow> None);
        (_, s) \<leftarrow> scan_int s;
        (code, _) \<leftarrow> scan_int s;
        Some code }
      else None)"

definition scan_header :: "bytes \<Rightarrow> (bytes \<times> bytes) option" where
  "scan_header s =
     (let key = take 31 (takeWhile (\<lambda>b. b \<noteq> 0x3A) s) in
      if key = [] then None
      else case drop (length key) s of
             b # t \<Rightarrow>
               if b = 0x3A
               then let val = take 31 (takeWhile (\<lambda>b. b \<noteq> 0x0D \<and> b \<noteq> 0x0A) (dropWhile white t))
                    in if val = [] then None else Some (key, val)
               else None
           | [] \<Rightarrow> None)"

section \<open>Data\<close>

datatype HTTPCLIENT_REQUEST_TYPE =
  HTTPCLIENT_GET | HTTPCLIENT_POST | HTTPCLIENT_PUT | HTTPCLIENT_DELETE | HTTPCLIENT_HEAD

record httpclient_t =
  remote_port :: int
  net :: utils_network
  response_code :: int
  header :: "bytes option"
  auth_user :: "bytes option"
  auth_password :: "bytes option"

record httpclient_data_t =
  is_more :: bool
  is_chunked :: bool
  retrieve_len :: int
  response_content_len :: u32
  post_buf_len :: u32
  response_buf_len :: u32
  post_content_type :: "bytes option"
  post_buf :: "bytes option"
  response_buf :: "bytes option"

text \<open>The platform: besides the sockets the clock, the allocator and the signedness of \<open>char\<close>.\<close>

record 'w http_env = "'w net_env" +
  http_uptime :: "'w \<Rightarrow> u32 \<times> 'w"
  http_malloc :: "nat \<Rightarrow> 'w \<Rightarrow> bool \<times> 'w"
  char_signed :: bool

abbreviation (input) ERROR_HTTP_CONN :: int where "ERROR_HTTP_CONN \<equiv> -8"
abbreviation (input) ERROR_HTTP_PARSE :: int where "ERROR_HTTP_PARSE \<equiv> -7"
abbreviation (input) ERROR_HTTP_UNRESOLVED_DNS :: int where "ERROR_HTTP_UNRESOLVED_DNS \<equiv> -6"
abbreviation (input) ERROR_HTTP :: int where "ERROR_HTTP \<equiv> -4"
abbreviation (input) ERROR_HTTP_CLOSED :: int where "ERROR_HTTP_CLOSED \<equiv> -3"
abbreviation (input) HTTP_RETRIEVE_MORE_DATA :: int where "HTTP_RETRIEVE_MORE_DATA \<equiv> 1"

text \<open>The timers with the platform's clock, and the function pointers of the connection.\<close>

definition http_countdown :: "('w, 'z) http_env_scheme \<Rightarrow> u32 \<Rightarrow> 'w \<Rightarrow> iotx_time_t \<times> 'w" where
  "http_countdown e ms w = (let (now, w) = http_uptime e w in (\<lparr>time = now + ms\<rparr>, w))"

definition http_left :: "('w, 'z) http_env_scheme \<Rightarrow> iotx_time_t \<Rightarrow> 'w \<Rightarrow> u32 \<times> 'w" where
  "http_left e t w =
     (let (now1, w) = http_uptime e w in
      if utils_time_is_expired now1 (Some t) then (0, w)
      else let (now2, w) = http_uptime e w in (iotx_time_left now1 now2 (Some t), w))"

definition net_write_op :: "('w, 'z) http_env_scheme \<Rightarrow> httpclient_t \<Rightarrow> bytes \<Rightarrow> 'w \<Rightarrow> (int \<times> 'w) option" where
  "net_write_op e client d w = (if ops_set (net client) then Some (utils_net_write e (net client) d 5000 w) else None)"

definition net_read_op :: "('w, 'z) http_env_scheme \<Rightarrow> httpclient_t \<Rightarrow> u32 \<Rightarrow> u32 \<Rightarrow> 'w \<Rightarrow> (int \<times> bytes \<times> 'w) option" where
  "net_read_op e client n timeout_ms w =
     (if ops_set (net client) then Some (utils_net_read e (net client) n timeout_ms w) else None)"

section \<open>The URL\<close>

definition httpclient_parse_url ::
    "bytes \<Rightarrow> nat \<Rightarrow> nat \<Rightarrow> nat \<Rightarrow> (int + bytes \<times> bytes \<times> int \<times> bytes) option" where
  "httpclient_parse_url url max_scheme_len maxhost_len max_path_len =
     (case find_text (literal ''://'') url of
        None \<Rightarrow> Some (Inl ERROR_HTTP_PARSE)
      | Some scheme_len \<Rightarrow>
          if max_scheme_len < scheme_len + 1 then Some (Inl ERROR_HTTP_PARSE)
          else
            let host_ptr = drop (scheme_len + 3) url in
            case find_text [0x2F] host_ptr of
              None \<Rightarrow> Some (Inl (-1))
            | Some host_len \<Rightarrow>
                if maxhost_len < host_len + 1 then Some (Inl ERROR_HTTP_PARSE)
                else
                  let path_ptr = drop host_len host_ptr;
                      path_len = (case find_text [0x23] host_ptr of
                                    Some fragment \<Rightarrow> of_int (int fragment - int host_len)
                                  | None \<Rightarrow> of_nat (length path_ptr)) :: u32
                  in if of_nat max_path_len < path_len + 1 then Some (Inl ERROR_HTTP_PARSE)
                     else do {
                       path \<leftarrow> (if unat path_len < max_path_len then rd_bytes path_ptr 0 (unat path_len) else None);
                       Some (Inr (take scheme_len url, take host_len host_ptr, 0, path)) })"

text \<open>Without a slash after the host the path pointer is \<open>NULL\<close> and the host length meaningless.\<close>

definition httpclient_parse_host :: "bytes \<Rightarrow> nat \<Rightarrow> (int + bytes) option" where
  "httpclient_parse_host url maxhost_len =
     (case find_text (literal ''://'') url of
        None \<Rightarrow> Some (Inl ERROR_HTTP_PARSE)
      | Some scheme_len \<Rightarrow>
          let host_ptr = drop (scheme_len + 3) url in
          case find_text [0x2F] host_ptr of
            None \<Rightarrow> None
          | Some host_len \<Rightarrow>
              if maxhost_len < host_len + 1 then Some (Inl ERROR_HTTP_PARSE)
              else Some (Inr (take host_len host_ptr)))"

section \<open>The request\<close>

text \<open>\<open>httpclient_base64enc\<close>: the rest of the string, the bits in \<open>x\<close> and their number \<open>l\<close>, the text so far.\<close>

definition base64_code :: bytes where
  "base64_code = literal ''ABCDEFGHIJKLMNOPQRSTUVWXYZabcdefghijklmnopqrstuvwxyz0123456789+/=''"

fun base64_emit :: "u32 \<Rightarrow> nat \<Rightarrow> bytes \<Rightarrow> nat \<times> bytes" where
  "base64_emit x l out =
     (if l \<ge> 6 then base64_emit x (l - 6) (out @ [base64_code ! unat (drop_bit (l - 6) x AND 0x3F)]) else (l, out))"

declare base64_emit.simps [simp del]

fun base64enc_loop :: "bool \<Rightarrow> bytes \<Rightarrow> u32 \<Rightarrow> nat \<Rightarrow> bytes \<Rightarrow> u32 \<times> nat \<times> bytes" where
  "base64enc_loop sg [] x l out = (x, l, out)"
| "base64enc_loop sg (c # inp) x l out =
     (let x = push_bit 8 x OR (if sg then scast c else ucast c);
          (l, out) = base64_emit x (l + 8) out
      in base64enc_loop sg inp x l out)"

definition httpclient_base64enc :: "bool \<Rightarrow> bytes \<Rightarrow> bytes" where
  "httpclient_base64enc sg inp =
     (let (x, l, out) = base64enc_loop sg inp 0 0 [];
          out = (if l > 0 then out @ [base64_code ! unat (push_bit (6 - l) x AND 0x3F)] else out)
      in out @ replicate ((4 - length out mod 4) mod 4) 0x3D)"

text \<open>
  Appending to the 1024 bytes of \<open>send_buf\<close>. \<open>memcpy\<close> starts at \<open>buf\<close> in every round, a write ends the
  function with what it returned unless that is 0, and the index is stored at the end only.
\<close>

partial_function (option) get_info_loop ::
    "('w, 'z) http_env_scheme \<Rightarrow> httpclient_t \<Rightarrow> bytes \<Rightarrow> nat \<Rightarrow> bytes \<Rightarrow> u32 \<Rightarrow> 'w \<Rightarrow> (int \<times> bytes \<times> nat \<times> 'w) option" where
  "get_info_loop e client send_buf idx buf n w = do {
     let cp_len = (if n \<le> of_nat (1024 - idx) then unat n else 1024 - idx);
     d \<leftarrow> rd_bytes buf 0 cp_len;
     send_buf \<leftarrow> wr_bytes send_buf idx d;
     let idx = idx + cp_len;
     let n = n - of_nat cp_len;
     (ret, w) \<leftarrow> (if idx = 1024 then net_write_op e client (take 1024 send_buf) w else Some (0, w));
     if ret \<noteq> 0 then Some (ret, send_buf, idx, w)
     else if n \<noteq> 0 then get_info_loop e client send_buf idx buf n w
     else Some (0, send_buf, idx, w) }"

definition httpclient_get_info ::
    "('w, 'z) http_env_scheme \<Rightarrow> httpclient_t \<Rightarrow> bytes \<Rightarrow> u32 \<Rightarrow> nat \<times> bytes \<times> 'w \<Rightarrow> (int \<times> nat \<times> bytes \<times> 'w) option" where
  "httpclient_get_info e client buf n st = (case st of (send_idx, send_buf, w) \<Rightarrow> do {
     let n = (if n = 0 then of_nat (length buf) else n);
     (ret, send_buf, idx, w) \<leftarrow> get_info_loop e client send_buf send_idx buf n w;
     Some (ret, if ret = 0 then idx else send_idx, send_buf, w) })"

definition httpclient_set_custom_header :: "bytes \<Rightarrow> httpclient_t \<Rightarrow> httpclient_t" where
  "httpclient_set_custom_header hdr client = client\<lparr>header := Some hdr\<rparr>"

definition httpclient_basic_auth :: "bytes \<Rightarrow> bytes \<Rightarrow> httpclient_t \<Rightarrow> int \<times> httpclient_t" where
  "httpclient_basic_auth user password client =
     (if length user + length password \<ge> 128 then (ERROR_HTTP, client)
      else (0, client\<lparr>auth_user := Some user, auth_password := Some password\<rparr>))"

text \<open>\<open>base64buff\<close> has 131 bytes, \<open>b_auth\<close> 175.\<close>

definition httpclient_send_auth ::
    "('w, 'z) http_env_scheme \<Rightarrow> httpclient_t \<Rightarrow> nat \<times> bytes \<times> 'w \<Rightarrow> (nat \<times> bytes \<times> 'w) option" where
  "httpclient_send_auth e client st = do {
     (_, st) \<leftarrow> httpclient_get_info e client (literal ''Authorization: Basic '') 0 st;
     user \<leftarrow> auth_user client;
     password \<leftarrow> auth_password client;
     let base64buff = user @ [0x3A] @ password;
     if length base64buff + 1 > 131 then None
     else do {
       let b_auth = httpclient_base64enc (char_signed e) base64buff @ [0x0A];
       if length b_auth + 1 > 175 then None
       else do { (_, st) \<leftarrow> httpclient_get_info e client b_auth 0 st; Some st } } }"

definition method_text :: "HTTPCLIENT_REQUEST_TYPE \<Rightarrow> bytes" where
  "method_text m =
     literal (case m of HTTPCLIENT_GET \<Rightarrow> ''GET'' | HTTPCLIENT_POST \<Rightarrow> ''POST'' | HTTPCLIENT_PUT \<Rightarrow> ''PUT''
              | HTTPCLIENT_DELETE \<Rightarrow> ''DELETE'' | HTTPCLIENT_HEAD \<Rightarrow> ''HEAD'')"

definition append_text :: "('w, 'z) http_env_scheme \<Rightarrow> httpclient_t \<Rightarrow> bytes \<Rightarrow> nat \<times> bytes \<times> 'w \<Rightarrow> (nat \<times> bytes \<times> 'w) option" where
  "append_text e client buf st = do { (_, st) \<leftarrow> httpclient_get_info e client buf (of_nat (length buf)) st; Some st }"

text \<open>\<open>snprintf\<close> keeps 1023 characters. The results of the appends after the first are ignored.\<close>

definition request_line :: "HTTPCLIENT_REQUEST_TYPE \<Rightarrow> bytes \<Rightarrow> bytes \<Rightarrow> bytes" where
  "request_line m path host =
     take 1023 (method_text m @ [0x20] @ path @ literal '' HTTP/1.1'' @ crlf @ literal ''Host: '' @ host @ crlf)"

definition add_headers ::
    "('w, 'z) http_env_scheme \<Rightarrow> httpclient_t \<Rightarrow> httpclient_data_t \<Rightarrow> nat \<times> bytes \<times> 'w \<Rightarrow> (nat \<times> bytes \<times> 'w) option" where
  "add_headers e client d st = do {
     st \<leftarrow> (if auth_user client \<noteq> None then httpclient_send_auth e client st else Some st);
     st \<leftarrow> (case header client of Some h \<Rightarrow> append_text e client h st | None \<Rightarrow> Some st);
     st \<leftarrow> (if post_buf d \<noteq> None then do {
             st \<leftarrow> append_text e client (take 1023 (literal ''Content-Length: '' @ decimal (unat (post_buf_len d)) @ crlf)) st;
             (case post_content_type d of
                Some t \<Rightarrow> append_text e client (take 1023 (literal ''Content-Type: '' @ t @ crlf)) st
              | None \<Rightarrow> Some st) }
           else Some st);
     (_, st) \<leftarrow> httpclient_get_info e client crlf 0 st;
     Some st }"

definition write_result :: "int \<Rightarrow> int" where
  "write_result ret = (if ret > 0 then 0 else if ret = 0 then ERROR_HTTP_CLOSED else ERROR_HTTP_CONN)"

definition send_request_text ::
    "('w, 'z) http_env_scheme \<Rightarrow> httpclient_t \<Rightarrow> bytes \<Rightarrow> HTTPCLIENT_REQUEST_TYPE \<Rightarrow> httpclient_data_t \<Rightarrow> 'w \<Rightarrow> (int \<times> 'w) option" where
  "send_request_text e client url m d w = do {
     parsed \<leftarrow> httpclient_parse_url url 8 64 64;
     (case parsed of
        Inl res \<Rightarrow> Some (res, w)
      | Inr (scheme, host, prt, path) \<Rightarrow> do {
          let buf = request_line m path host;
          (ret, len, send_buf, w) \<leftarrow> httpclient_get_info e client buf (of_nat (length buf)) (0, replicate 1024 0, w);
          if ret \<noteq> 0 then Some (ERROR_HTTP_CONN, w)
          else do {
            (len, send_buf, w) \<leftarrow> add_headers e client d (len, send_buf, w);
            (ret, w) \<leftarrow> net_write_op e client (take len send_buf) w;
            Some (write_result ret, w) } }) }"

fun alloc_all :: "('w, 'z) http_env_scheme \<Rightarrow> nat list \<Rightarrow> 'w \<Rightarrow> bool \<times> 'w" where
  "alloc_all e [] w = (True, w)"
| "alloc_all e (n # ns) w = (let (ok, w) = http_malloc e n w in if ok then alloc_all e ns w else (False, w))"

text \<open>The four buffers in the order of their allocation; they are freed on every path.\<close>

definition httpclient_send_header ::
    "('w, 'z) http_env_scheme \<Rightarrow> httpclient_t \<Rightarrow> bytes \<Rightarrow> HTTPCLIENT_REQUEST_TYPE \<Rightarrow> httpclient_data_t \<Rightarrow> 'w \<Rightarrow> (int \<times> 'w) option" where
  "httpclient_send_header e client url m d w =
     (let (ok, w) = alloc_all e [64, 64, 1024, 1024] w
      in if ok then send_request_text e client url m d w else Some (-1, w))"

definition httpclient_send_userdata ::
    "('w, 'z) http_env_scheme \<Rightarrow> httpclient_t \<Rightarrow> httpclient_data_t \<Rightarrow> 'w \<Rightarrow> (int \<times> 'w) option" where
  "httpclient_send_userdata e client d w =
     (case post_buf d of
        None \<Rightarrow> Some (0, w)
      | Some buf \<Rightarrow>
          if post_buf_len d = 0 then Some (0, w)
          else do {
            bs \<leftarrow> rd_bytes buf 0 (unat (post_buf_len d));
            (ret, w) \<leftarrow> net_write_op e client bs w;
            Some (write_result ret, w) })"

section \<open>The response\<close>

text \<open>\<open>buf\<close> is the memory of the buffer, \<open>off\<close> where the bytes go to. The result has \<open>*p_read_len\<close>.\<close>

definition httpclient_recv ::
    "('w, 'z) http_env_scheme \<Rightarrow> httpclient_t \<Rightarrow> bytes \<Rightarrow> nat \<Rightarrow> u32 \<Rightarrow> u32 \<Rightarrow> 'w \<Rightarrow> (int \<times> int \<times> bytes \<times> 'w) option" where
  "httpclient_recv e client buf off max_len timeout_ms w = do {
     let (timer, w) = http_countdown e timeout_ms w;
     let (left, w) = http_left e timer w;
     (ret, bs, w) \<leftarrow> net_read_op e client max_len left w;
     buf \<leftarrow> wr_bytes buf off bs;
     Some (if ret > 0 then (0, ret, buf, w)
           else if ret = 0 then (0, 0, buf, w)
           else (ERROR_HTTP_CONN, 0, buf, w)) }"

definition recv_before ::
    "('w, 'z) http_env_scheme \<Rightarrow> httpclient_t \<Rightarrow> iotx_time_t \<Rightarrow> bytes \<Rightarrow> nat \<Rightarrow> u32 \<Rightarrow> 'w \<Rightarrow> (int \<times> int \<times> bytes \<times> 'w) option" where
  "recv_before e client timer buf off max_len w =
     (let (left, w) = http_left e timer w in httpclient_recv e client buf off max_len left w)"

abbreviation (input) u32_of :: "int \<Rightarrow> u32" where "u32_of \<equiv> word_of_int"

definition put_response :: "httpclient_data_t \<Rightarrow> int \<Rightarrow> bytes \<Rightarrow> httpclient_data_t option" where
  "put_response d count bs = do {
     buf \<leftarrow> response_buf d;
     buf \<leftarrow> wr_bytes buf (nat count) bs;
     Some (d\<lparr>response_buf := Some buf\<rparr>) }"

text \<open>\<open>memmove\<close> of \<open>n\<close> bytes to the start; a negative size is a huge one.\<close>

definition move_front :: "bytes \<Rightarrow> nat \<Rightarrow> int \<Rightarrow> bytes option" where
  "move_front data from n = do { bs \<leftarrow> rd_bytes data from (unat (u32_of n)); wr_bytes data 0 bs }"

text \<open>The buffer is full: what still fits, and the end of the string.\<close>

definition fill_response :: "httpclient_data_t \<Rightarrow> int \<Rightarrow> bytes \<Rightarrow> httpclient_data_t option" where
  "fill_response d count data = do {
     bs \<leftarrow> rd_bytes data 0 (unat (response_buf_len d - 1 - u32_of count));
     d \<leftarrow> put_response d count bs;
     put_response d (uint (response_buf_len d - 1)) [0] }"

text \<open>A body without a length: until nothing more comes.\<close>

partial_function (option) read_unbounded ::
    "('w, 'z) http_env_scheme \<Rightarrow> httpclient_t \<Rightarrow> iotx_time_t \<Rightarrow> int \<Rightarrow> bytes \<Rightarrow> int \<Rightarrow> httpclient_data_t \<Rightarrow> 'w \<Rightarrow>
       (int \<times> httpclient_data_t \<times> 'w) option" where
  "read_unbounded e client timer count data len d w =
     (if u32_of (count + len) < response_buf_len d - 1 then do {
        bs \<leftarrow> rd_bytes data 0 (nat len);
        d \<leftarrow> put_response d count bs;
        let count = count + len;
        d \<leftarrow> put_response d count [0];
        let max_len = min 255 (response_buf_len d - 1 - u32_of count);
        (ret, len, data, w) \<leftarrow> recv_before e client timer data 0 max_len w;
        if ret = ERROR_HTTP_CONN then Some (ret, d, w)
        else if len = 0 then Some (0, d\<lparr>is_more := False\<rparr>, w)
        else read_unbounded e client timer count data len d w }
      else do {
        d \<leftarrow> fill_response d count data;
        Some (HTTP_RETRIEVE_MORE_DATA, d, w) })"

text \<open>
  The line with the length of a chunk: \<open>Inr\<close> the position of its end. The search stops two bytes
  before the end of the data.
\<close>

partial_function (option) chunk_header ::
    "('w, 'z) http_env_scheme \<Rightarrow> httpclient_t \<Rightarrow> iotx_time_t \<Rightarrow> bytes \<Rightarrow> int \<Rightarrow> 'w \<Rightarrow>
       ((int + nat) \<times> bytes \<times> int \<times> 'w) option" where
  "chunk_header e client timer data len w = do {
     data \<leftarrow> wr data (nat len) 0;
     (case find_text crlf (take (nat len - 1) data) of
        Some crlf_pos \<Rightarrow> Some (Inr crlf_pos, data, len, w)
      | None \<Rightarrow>
          if len < 256 then do {
            (ret, new_trf_len, data, w) \<leftarrow> recv_before e client timer data (nat len) (u32_of (256 - len - 1)) w;
            let len = len + new_trf_len;
            if ret = ERROR_HTTP_CONN then Some (Inl ret, data, len, w)
            else chunk_header e client timer data len w }
          else Some (Inl ERROR_HTTP, data, len, w)) }"

text \<open>
  The \<open>do\<close> loop over the bytes of the content or of one chunk: \<open>Inl\<close> when the function returns,
  \<open>Inr\<close> with \<open>count\<close>, \<open>data\<close> and \<open>len\<close> when \<open>readLen\<close> has become 0.
\<close>

partial_function (option) read_counted ::
    "('w, 'z) http_env_scheme \<Rightarrow> httpclient_t \<Rightarrow> iotx_time_t \<Rightarrow> int \<Rightarrow> bytes \<Rightarrow> int \<Rightarrow> u32 \<Rightarrow> httpclient_data_t \<Rightarrow> 'w \<Rightarrow>
       ((int + int \<times> bytes \<times> int) \<times> httpclient_data_t \<times> 'w) option" where
  "read_counted e client timer count data len readLen d w = do {
     let templen = sint (min (u32_of len) readLen);
     if u32_of (count + templen) < response_buf_len d - 1 then do {
       bs \<leftarrow> rd_bytes data 0 (unat (u32_of templen));
       d \<leftarrow> put_response d count bs;
       let count = count + templen;
       d \<leftarrow> put_response d count [0];
       r \<leftarrow> sub_int (retrieve_len d) templen;
       let d = d\<lparr>retrieve_len := r\<rparr>;
       (data, len, readLen, d) \<leftarrow>
         (if u32_of len > readLen then do {
            data \<leftarrow> move_front data (unat readLen) (len - uint readLen);
            Some (data, len - uint readLen, 0, d\<lparr>retrieve_len := 0\<rparr>) }
          else Some (data, len, readLen - u32_of len, d));
       if readLen \<noteq> 0 then do {
         let max_len = min (min 255 (response_buf_len d - 1 - u32_of count)) readLen;
         (ret, len, data, w) \<leftarrow> recv_before e client timer data 0 max_len w;
         if ret = ERROR_HTTP_CONN then Some (Inl ret, d, w)
         else read_counted e client timer count data len readLen d w }
       else Some (Inr (count, data, len), d, w) }
     else do {
       d \<leftarrow> fill_response d count data;
       let d = d\<lparr>retrieve_len := sint (u32_of (retrieve_len d) - (response_buf_len d - 1 - u32_of count))\<rparr>;
       Some (Inl HTTP_RETRIEVE_MORE_DATA, d, w) } }"

text \<open>
  The end of a chunk: fewer than two bytes are completed by one more read, then the two characters
  behind the chunk are checked and removed.
\<close>

definition chunk_end ::
    "('w, 'z) http_env_scheme \<Rightarrow> httpclient_t \<Rightarrow> iotx_time_t \<Rightarrow> bytes \<Rightarrow> int \<Rightarrow> 'w \<Rightarrow> ((int + bytes \<times> int) \<times> 'w) option" where
  "chunk_end e client timer data len w = do {
     (ret, new_trf_len, data, w) \<leftarrow>
       (if len < 2 then recv_before e client timer data (nat len) (u32_of (256 - len - 1)) w else Some (0, 0, data, w));
     if ret = ERROR_HTTP_CONN then Some (Inl ret, w)
     else do {
       let len = len + new_trf_len;
       d0 \<leftarrow> rd data 0;
       d1 \<leftarrow> rd data 1;
       if d0 \<noteq> 0x0D \<or> d1 \<noteq> 0x0A then Some (Inl ERROR_HTTP_UNRESOLVED_DNS, w)
       else do { data \<leftarrow> move_front data 2 (len - 2); Some (Inr (data, len - 2), w) } } }"

text \<open>The length of the chunk read into \<open>readLen\<close>, \<open>Inl\<close> when the function returns.\<close>

definition next_chunk ::
    "('w, 'z) http_env_scheme \<Rightarrow> httpclient_t \<Rightarrow> iotx_time_t \<Rightarrow> bytes \<Rightarrow> int \<Rightarrow> httpclient_data_t \<Rightarrow> 'w \<Rightarrow>
       ((int + u32 \<times> bytes \<times> int) \<times> httpclient_data_t \<times> 'w) option" where
  "next_chunk e client timer data len d w =
     (if is_chunked d \<and> retrieve_len d \<le> 0 then do {
        (r, data, len, w) \<leftarrow> chunk_header e client timer data len w;
        (case r of
           Inl ret \<Rightarrow> Some (Inl ret, d, w)
         | Inr crlf_pos \<Rightarrow> do {
             data \<leftarrow> wr data crlf_pos 0;
             s \<leftarrow> cstring data;
             readLen \<leftarrow> (case scan_hex s of None \<Rightarrow> Some 0 | Some n \<Rightarrow> if fits_unsigned n then Some (u32_of n) else None);
             let d = d\<lparr>retrieve_len := sint readLen, response_content_len := response_content_len d + readLen\<rparr>;
             if scan_hex s = None then Some (Inl ERROR_HTTP_UNRESOLVED_DNS, d, w)
             else do {
               data \<leftarrow> move_front data (crlf_pos + 2) (len - int (crlf_pos + 2));
               let len = len - int (crlf_pos + 2);
               if readLen = 0 then Some (Inl 0, d\<lparr>is_more := False\<rparr>, w)
               else Some (Inr (readLen, data, len), d, w) } }) }
      else Some (Inr (u32_of (retrieve_len d), data, len), d, w))"

partial_function (option) retrieve_loop ::
    "('w, 'z) http_env_scheme \<Rightarrow> httpclient_t \<Rightarrow> iotx_time_t \<Rightarrow> int \<Rightarrow> bytes \<Rightarrow> int \<Rightarrow> httpclient_data_t \<Rightarrow> 'w \<Rightarrow>
       (int \<times> httpclient_data_t \<times> 'w) option" where
  "retrieve_loop e client timer count data len d w = do {
     (r, d, w) \<leftarrow> next_chunk e client timer data len d w;
     (case r of
        Inl ret \<Rightarrow> Some (ret, d, w)
      | Inr (readLen, data, len) \<Rightarrow> do {
          (r, d, w) \<leftarrow> read_counted e client timer count data len readLen d w;
          (case r of
             Inl ret \<Rightarrow> Some (ret, d, w)
           | Inr (count, data, len) \<Rightarrow>
               if is_chunked d then do {
                 (r, w) \<leftarrow> chunk_end e client timer data len w;
                 (case r of
                    Inl ret \<Rightarrow> Some (ret, d, w)
                  | Inr (data, len) \<Rightarrow> retrieve_loop e client timer count data len d w) }
               else Some (0, d\<lparr>is_more := False\<rparr>, w)) }) }"

definition httpclient_retrieve_content ::
    "('w, 'z) http_env_scheme \<Rightarrow> httpclient_t \<Rightarrow> bytes \<Rightarrow> int \<Rightarrow> u32 \<Rightarrow> httpclient_data_t \<Rightarrow> 'w \<Rightarrow>
       (int \<times> httpclient_data_t \<times> 'w) option" where
  "httpclient_retrieve_content e client data len timeout_ms d w =
     (let (timer, w) = http_countdown e timeout_ms w;
          d = d\<lparr>is_more := True\<rparr>
      in if response_content_len d = - 1 \<and> \<not> is_chunked d
         then read_unbounded e client timer 0 data len d w
         else retrieve_loop e client timer 0 data len d w)"

definition apply_header :: "bytes \<Rightarrow> bytes \<Rightarrow> httpclient_data_t \<Rightarrow> httpclient_data_t option" where
  "apply_header key val d =
     (if key = literal ''Content-Length'' then do {
        n \<leftarrow> (case scan_int val of
               None \<Rightarrow> Some (response_content_len d)
             | Some (n, _) \<Rightarrow> if fits_int n then Some (u32_of n) else None);
        Some (d\<lparr>response_content_len := n, retrieve_len := sint n\<rparr>) }
      else if key = literal ''Transfer-Encoding'' \<and> (val = literal ''Chunked'' \<or> val = literal ''chunked'')
      then Some (d\<lparr>is_chunked := True, response_content_len := 0, retrieve_len := 0\<rparr>)
      else Some d)"

text \<open>The headers: \<open>Inl\<close> an error, \<open>Inr\<close> the data after the empty line.\<close>

partial_function (option) read_headers ::
    "('w, 'z) http_env_scheme \<Rightarrow> httpclient_t \<Rightarrow> iotx_time_t \<Rightarrow> bytes \<Rightarrow> int \<Rightarrow> httpclient_data_t \<Rightarrow> 'w \<Rightarrow>
       ((int + bytes \<times> int) \<times> httpclient_data_t \<times> 'w) option" where
  "read_headers e client timer data len d w = do {
     s \<leftarrow> cstring data;
     (case find_text crlf s of
        None \<Rightarrow>
          if len < 255 then do {
            (ret, new_trf_len, data, w) \<leftarrow> recv_before e client timer data (nat len) (u32_of (256 - len - 1)) w;
            let len = len + new_trf_len;
            data \<leftarrow> wr data (nat len) 0;
            if ret = ERROR_HTTP_CONN then Some (Inl ret, d, w)
            else read_headers e client timer data len d w }
          else Some (Inl ERROR_HTTP, d, w)
      | Some crlf_pos \<Rightarrow>
          if crlf_pos = 0 then do {
            data \<leftarrow> move_front data 2 (len - 2 + 1);
            Some (Inr (data, len - 2), d, w) }
          else do {
            data \<leftarrow> wr data crlf_pos 0;
            s \<leftarrow> cstring data;
            (case scan_header s of
               None \<Rightarrow> Some (Inl ERROR_HTTP, d, w)
             | Some (key, val) \<Rightarrow> do {
                 d \<leftarrow> apply_header key val d;
                 data \<leftarrow> move_front data (crlf_pos + 2) (len - int (crlf_pos + 2) + 1);
                 read_headers e client timer data (len - int (crlf_pos + 2)) d w }) }) }"

text \<open>\<open>client->response_code\<close> is the second component of the result.\<close>

definition httpclient_response_parse ::
    "('w, 'z) http_env_scheme \<Rightarrow> httpclient_t \<Rightarrow> bytes \<Rightarrow> int \<Rightarrow> u32 \<Rightarrow> httpclient_data_t \<Rightarrow> 'w \<Rightarrow>
       (int \<times> httpclient_t \<times> httpclient_data_t \<times> 'w) option" where
  "httpclient_response_parse e client data len timeout_ms d w = do {
     let (timer, w) = http_countdown e timeout_ms w;
     let d = d\<lparr>response_content_len := - 1\<rparr>;
     s \<leftarrow> cstring data;
     (case find_text crlf s of
        None \<Rightarrow> Some (ERROR_HTTP_UNRESOLVED_DNS, client, d, w)
      | Some crlf_pos \<Rightarrow> do {
          data \<leftarrow> wr data crlf_pos 0;
          s \<leftarrow> cstring data;
          (case scan_status s of
             None \<Rightarrow> Some (ERROR_HTTP_UNRESOLVED_DNS, client, d, w)
           | Some code \<Rightarrow>
               if \<not> fits_int code then None
               else do {
                 let client = client\<lparr>response_code := code\<rparr>;
                 data \<leftarrow> move_front data (crlf_pos + 2) (len - int (crlf_pos + 2) + 1);
                 let d = d\<lparr>is_chunked := False\<rparr>;
                 (r, d, w) \<leftarrow> read_headers e client timer data (len - int (crlf_pos + 2)) d w;
                 (case r of
                    Inl ret \<Rightarrow> Some (ret, client, d, w)
                  | Inr (data, len) \<Rightarrow> do {
                      let (left, w) = http_left e timer w;
                      (ret, d, w) \<leftarrow> httpclient_retrieve_content e client data len left d w;
                      Some (ret, client, d, w) }) }) }) }"

section \<open>The connection\<close>

definition httpclient_conn :: "('w, 'z) http_env_scheme \<Rightarrow> httpclient_t \<Rightarrow> 'w \<Rightarrow> (int \<times> httpclient_t \<times> 'w) option" where
  "httpclient_conn e client w =
     (if ops_set (net client)
      then case iotx_net_connect e (net client) w of
             (rc, n, w) \<Rightarrow> Some (if rc \<noteq> 0 then ERROR_HTTP_CONN else 0, client\<lparr>net := n\<rparr>, w)
      else None)"

definition httpclient_connect :: "('w, 'z) http_env_scheme \<Rightarrow> httpclient_t \<Rightarrow> 'w \<Rightarrow> (int \<times> httpclient_t \<times> 'w) option" where
  "httpclient_connect e client w = httpclient_conn e (client\<lparr>net := (net client)\<lparr>handle := -1\<rparr>\<rparr>) w"

definition httpclient_send_request ::
    "('w, 'z) http_env_scheme \<Rightarrow> httpclient_t \<Rightarrow> bytes \<Rightarrow> HTTPCLIENT_REQUEST_TYPE \<Rightarrow> httpclient_data_t \<Rightarrow> 'w \<Rightarrow> (int \<times> 'w) option" where
  "httpclient_send_request e client url m d w =
     (if handle (net client) < 0 then Some (ERROR_HTTP_CONN, w)
      else do {
        (ret, w) \<leftarrow> httpclient_send_header e client url m d w;
        if ret \<noteq> 0 then Some (ret, w)
        else if m = HTTPCLIENT_POST \<or> m = HTTPCLIENT_PUT then httpclient_send_userdata e client d w
        else Some (ret, w) })"

definition httpclient_recv_response ::
    "('w, 'z) http_env_scheme \<Rightarrow> httpclient_t \<Rightarrow> u32 \<Rightarrow> httpclient_data_t \<Rightarrow> 'w \<Rightarrow>
       (int \<times> httpclient_t \<times> httpclient_data_t \<times> 'w) option" where
  "httpclient_recv_response e client timeout_ms d w = do {
     let buf = replicate 256 0;
     let (timer, w) = http_countdown e timeout_ms w;
     if handle (net client) < 0 then Some (ERROR_HTTP_CONN, client, d, w)
     else if is_more d then do {
       d \<leftarrow> put_response d 0 [0];
       let (left, w) = http_left e timer w;
       (ret, d, w) \<leftarrow> httpclient_retrieve_content e client buf 0 left d w;
       Some (ret, client, d, w) }
     else do {
       let d = d\<lparr>is_more := True\<rparr>;
       (ret, reclen, buf, w) \<leftarrow> recv_before e client timer buf 0 255 w;
       if ret \<noteq> 0 then Some (ret, client, d, w)
       else do {
         buf \<leftarrow> wr buf (nat reclen) 0;
         if reclen \<noteq> 0 then do {
           let (left, w) = http_left e timer w;
           httpclient_response_parse e client buf reclen left d w }
         else Some (ret, client, d, w) } } }"

definition httpclient_close :: "('w, 'z) http_env_scheme \<Rightarrow> httpclient_t \<Rightarrow> 'w \<Rightarrow> (httpclient_t \<times> 'w) option" where
  "httpclient_close e client w = do {
     (n, w) \<leftarrow> (if handle (net client) \<ge> 0
               then if ops_set (net client) then Some (snd (iotx_net_disconnect e (net client) w)) else None
               else Some (net client, w));
     Some (client\<lparr>net := n\<lparr>handle := -1\<rparr>\<rparr>, w) }"

text \<open>A \<open>httpclient_t\<close> of zeros with the handle closed; the function pointers are \<open>NULL\<close>.\<close>

definition httpclient_init :: "httpclient_t option \<Rightarrow> int \<times> httpclient_t option" where
  "httpclient_init client =
     (case client of
        None \<Rightarrow> (-1, None)
      | Some _ \<Rightarrow>
          (0, Some \<lparr>remote_port = 0,
                    net = \<lparr>pHostAddress = [], port = 0, ca_crt_len = 0, ca_crt = None, handle = -1, ops_set = False\<rparr>,
                    response_code = 0, header = None, auth_user = None, auth_password = None\<rparr>))"

text \<open>The result of \<open>httpclient_parse_host\<close> is ignored: on an error \<open>host\<close> stays empty.\<close>

definition establish ::
    "('w, 'z) http_env_scheme \<Rightarrow> bytes \<Rightarrow> u16 \<Rightarrow> bytes option \<Rightarrow> httpclient_t \<Rightarrow> 'w \<Rightarrow> (int \<times> httpclient_t \<times> 'w) option" where
  "establish e url prt crt client w = do {
     h \<leftarrow> httpclient_parse_host url 64;
     let host = (case h of Inl _ \<Rightarrow> [] | Inr host \<Rightarrow> host);
     let client = client\<lparr>net := the (snd (iotx_net_init (Some (net client)) (Some host) prt crt))\<rparr>;
     (ret, client, w) \<leftarrow> httpclient_connect e client w;
     if ret \<noteq> 0 then do { (client, w) \<leftarrow> httpclient_close e client w; Some (ret, client, w) }
     else Some (0, client, w) }"

definition httpclient_common ::
    "('w, 'z) http_env_scheme \<Rightarrow> httpclient_t \<Rightarrow> bytes \<Rightarrow> u16 \<Rightarrow> bytes option \<Rightarrow> HTTPCLIENT_REQUEST_TYPE \<Rightarrow> u32 \<Rightarrow>
       httpclient_data_t \<Rightarrow> 'w \<Rightarrow> (int \<times> httpclient_t \<times> httpclient_data_t \<times> 'w) option" where
  "httpclient_common e client url prt crt m timeout_ms d w = do {
     (ret, client, w) \<leftarrow> (if handle (net client) < 0 then establish e url prt crt client w else Some (0, client, w));
     if ret \<noteq> 0 then Some (ret, client, d, w)
     else do {
       (ret, w) \<leftarrow> httpclient_send_request e client url m d w;
       if ret \<noteq> 0 then do { (client, w) \<leftarrow> httpclient_close e client w; Some (ret, client, d, w) }
       else do {
         let (timer, w) = http_countdown e timeout_ms w;
         (ret, client, d, w) \<leftarrow>
           (if response_buf d \<noteq> None \<or> response_buf_len d \<noteq> 0
            then let (left, w) = http_left e timer w in httpclient_recv_response e client left d w
            else Some (ret, client, d, w));
         if ret < 0 then do { (client, w) \<leftarrow> httpclient_close e client w; Some (ret, client, d, w) }
         else do {
           (client, w) \<leftarrow> (if \<not> is_more d then httpclient_close e client w else Some (client, w));
           Some (if ret \<ge> 0 then 0 else -1, client, d, w) } } } }"

definition utils_get_response_code :: "httpclient_t \<Rightarrow> int" where
  "utils_get_response_code client = response_code client"

definition iotx_post ::
    "('w, 'z) http_env_scheme \<Rightarrow> httpclient_t \<Rightarrow> bytes \<Rightarrow> u16 \<Rightarrow> bytes option \<Rightarrow> u32 \<Rightarrow>
       httpclient_data_t \<Rightarrow> 'w \<Rightarrow> (int \<times> httpclient_t \<times> httpclient_data_t \<times> 'w) option" where
  "iotx_post e client url prt crt timeout_ms d w = httpclient_common e client url prt crt HTTPCLIENT_POST timeout_ms d w"

end
