(* ===== verification/Httpc_Response.thy ===== *)
theory Httpc_Response
  imports Utils_Httpc
begin

text \<open>
  The responses of the HTTP client (Utils_Httpc): what a body with a length, the headers and chunks
  become when the server delivers them in pieces of any size.
\<close>

section \<open>A server\<close>

text \<open>
  What a good connection does: while there are bytes for the client, a read returns at least one of
  them and at most as many as asked for, in order. \<open>pending\<close> are the bytes the client has not read.
\<close>

definition delivers :: "('w \<Rightarrow> bytes) \<Rightarrow> bytes \<Rightarrow> u32 \<Rightarrow> int \<times> bytes \<times> 'w \<Rightarrow> bool" where
  "delivers pending before n r \<longleftrightarrow>
     (case r of (ret, bs, w') \<Rightarrow>
        bs \<noteq> [] \<and> length bs \<le> unat n \<and> ret = int (length bs) \<and> before = bs @ pending w')"

definition serves :: "('w, 'z) http_env_scheme \<Rightarrow> httpclient_t \<Rightarrow> ('w \<Rightarrow> bytes) \<Rightarrow> bool" where
  "serves e client pending \<longleftrightarrow>
     ops_set (net client) \<and>
     (\<forall>w. pending (snd (http_uptime e w)) = pending w) \<and>
     (\<forall>n t w. pending w \<noteq> [] \<and> n \<noteq> 0 \<longrightarrow> delivers pending (pending w) n (utils_net_read e (net client) n t w))"

lemma serves_timers:
  fixes timer :: iotx_time_t
  assumes "serves e client pending"
  shows "pending (snd (http_countdown e ms w)) = pending w" and "pending (snd (http_left e timer w)) = pending w"
  using assms by (simp_all add: serves_def http_countdown_def http_left_def split: prod.split)
    (metis snd_conv)+

lemma serves_recv:
  assumes "serves e client pending" and "pending w \<noteq> []" and "n \<noteq> 0" and "off + unat n \<le> length buf"
  shows "\<exists>bs w'. httpclient_recv e client buf off n t w = Some (0, int (length bs), overwrite buf off bs, w') \<and>
           bs \<noteq> [] \<and> length bs \<le> unat n \<and> pending w = bs @ pending w'"
proof -
  obtain timer w1 where 1: "http_countdown e t w = (timer, w1)" by fastforce
  obtain left w2 where 2: "http_left e timer w1 = (left, w2)" by fastforce
  have p: "pending w2 = pending w"
    using serves_timers(1) [OF assms(1), of t w] serves_timers(2) [OF assms(1), of timer w1] 1 2 by simp
  obtain ret bs w3 where 3: "utils_net_read e (net client) n left w2 = (ret, bs, w3)" using prod_cases3 by blast
  from assms(1) p assms(2,3) have "delivers pending (pending w2) n (utils_net_read e (net client) n left w2)"
    unfolding serves_def by metis
  with p 3 have *: "bs \<noteq> []" "length bs \<le> unat n" "ret = int (length bs)" "pending w = bs @ pending w3"
    by (simp_all add: delivers_def)
  have "httpclient_recv e client buf off n t w = Some (0, int (length bs), overwrite buf off bs, w3)"
    using 1 2 3 assms(1,4) * by (simp add: httpclient_recv_def net_read_op_def serves_def wr_bytes_def)
  with * show ?thesis by blast
qed

lemma serves_recv_before:
  assumes "serves e client pending" and "pending w \<noteq> []" and "n \<noteq> 0" and "off + unat n \<le> length buf"
  shows "\<exists>bs w'. recv_before e client timer buf off n w = Some (0, int (length bs), overwrite buf off bs, w') \<and>
           bs \<noteq> [] \<and> length bs \<le> unat n \<and> pending w = bs @ pending w'"
proof -
  obtain left w1 where 1: "http_left e timer w = (left, w1)" by fastforce
  then have "pending w1 = pending w" using serves_timers(2) [OF assms(1), of timer w] by simp
  with serves_recv [OF assms(1), of w1 n off buf left] assms 1 show ?thesis by (simp add: recv_before_def)
qed

lemma overwrite_chain:
  assumes "i + length xs + length ys + 1 \<le> length m"
  shows "overwrite (overwrite m i (xs @ [a])) (i + length xs) (ys @ [b]) = overwrite m i (xs @ ys @ [b])"
proof -
  have "overwrite m i (xs @ [a]) = overwrite (overwrite m i xs) (i + length xs) [a]"
    using assms by (simp add: overwrite_append)
  moreover have "overwrite (overwrite z j [a]) j (ys @ [b]) = overwrite z j (ys @ [b])" if "j < length z" for z j
    using that by (cases ys) (simp_all add: overwrite_def add.commute)
  ultimately have "overwrite (overwrite m i (xs @ [a])) (i + length xs) (ys @ [b]) = overwrite (overwrite m i xs) (i + length xs) (ys @ [b])"
    using assms by simp
  also have "\<dots> = overwrite m i (xs @ ys @ [b])" using assms by (simp add: overwrite_append)
  finally show ?thesis .
qed

lemma put_twice:
  assumes "response_buf d = Some buf" and "c + length bs < length buf"
  shows "do { d \<leftarrow> put_response d (int c) bs; put_response d (int (c + length bs)) [z] } =
           Some (d\<lparr>response_buf := Some (overwrite buf c (bs @ [z]))\<rparr>)"
proof -
  have "nat (int (c + length bs)) = c + length bs" by (rule nat_int)
  with assms show ?thesis
    by (simp add: put_response_def wr_bytes_def overwrite_append del: of_nat_add)
qed

text \<open>Signed and unsigned views of a number both types can hold.\<close>

definition small :: "nat \<Rightarrow> bool" where
  "small n \<longleftrightarrow> n < 2 ^ 31"

lemma small_le: "small n \<Longrightarrow> m \<le> n \<Longrightarrow> small m"
  by (simp only: small_def)

lemma u32_unat: "small n \<Longrightarrow> unat (of_nat n :: u32) = n"
  unfolding small_def by (simp only: unat_of_nat) (simp add: take_bit_nat_eq_self)

lemma u32_uint: "small n \<Longrightarrow> uint (of_nat n :: u32) = int n"
  by (metis u32_unat uint_nat)

lemma u32_sint:
  assumes "small n"
  shows "sint (of_nat n :: u32) = int n"
proof -
  have "sint (of_nat n :: u32) = signed_take_bit 31 (int n)" by (simp only: signed_of_nat) simp
  also have "\<dots> = int n"
    using assms unfolding small_def by (intro signed_take_bit_int_eq_self) (simp_all)
  finally show ?thesis .
qed

lemma u32_less: "small m \<Longrightarrow> small n \<Longrightarrow> ((of_nat m :: u32) < of_nat n) = (m < n)"
  by (simp only: word_less_nat_alt u32_unat)

lemma u32_min: "small m \<Longrightarrow> small n \<Longrightarrow> min (of_nat m :: u32) (of_nat n) = of_nat (min m n)"
  by (simp only: min_def word_le_nat_alt u32_unat split: if_split) simp

lemma u32_zero: "small n \<Longrightarrow> ((of_nat n :: u32) = 0) = (n = 0)"
  by (simp only: word_unat_eq_iff u32_unat unat_0)

lemma u32_diff: "n \<le> m \<Longrightarrow> (of_nat m :: u32) - of_nat n = of_nat (m - n)"
  by (simp add: of_nat_diff)

definition body_room :: "httpclient_data_t \<Rightarrow> nat \<Rightarrow> bytes \<Rightarrow> bool" where
  "body_room d room buf \<longleftrightarrow> response_buf_len d - 1 = of_nat room \<and> response_buf d = Some buf \<and> room < length buf \<and> small room"

lemma put_response_some:
  "response_buf d = Some buf \<Longrightarrow> c + length bs \<le> length buf \<Longrightarrow>
     put_response d (int c) bs = Some (d\<lparr>response_buf := Some (overwrite buf c bs)\<rparr>)"
  by (simp add: put_response_def wr_bytes_def)

lemma fill_response_room:
  assumes "body_room d room buf" and "c + length xs = room"
  shows "fill_response d (int c) (xs @ rest) = Some (d\<lparr>response_buf := Some (overwrite buf c (xs @ [0]))\<rparr>)"
proof -
  from assms have r: "response_buf_len d - 1 = of_nat room" "response_buf d = Some buf" "c + length xs < length buf"
    by (auto simp: body_room_def)
  have u: "uint (of_nat room :: u32) = int (c + length xs)" "unat (of_nat (length xs) :: u32) = length xs"
    using assms(1) unfolding assms(2) body_room_def
    by (blast intro: u32_uint) (use assms in \<open>auto intro!: u32_unat small_le [of room] simp: body_room_def\<close>)
  have "(of_nat room :: u32) - u32_of (int c) = of_nat (length xs)" using assms(2) by force
  moreover have "rd_bytes (xs @ rest) 0 (length xs) = Some xs" by (simp add: rd_bytes_def)
  ultimately have "fill_response d (int c) (xs @ rest) = put_response d (int c) xs \<bind> (\<lambda>d. put_response d (uint (response_buf_len d - 1)) [0])"
    by (simp only: fill_response_def r(1) u bind.bind_lunit)
  also have "\<dots> = put_response (d\<lparr>response_buf := Some (overwrite buf c xs)\<rparr>) (int (c + length xs)) [0]"
    using r put_response_some [of d buf c xs] by (simp add: u del: of_nat_add)
  also have "\<dots> = Some (d\<lparr>response_buf := Some (overwrite buf c (xs @ [0]))\<rparr>)"
    using put_response_some [of "d\<lparr>response_buf := Some (overwrite buf c xs)\<rparr>" "overwrite buf c xs" "c + length xs" "[0]"] r
    by (simp add: overwrite_append del: of_nat_add)
  finally show ?thesis .
qed

lemma sub_int_small: "small m \<Longrightarrow> n \<le> m \<Longrightarrow> sub_int (int m) (int n) = Some (int (m - n))"
  by (simp add: sub_int_def fits_int_def small_def of_nat_diff)

lemma read_counted_fill:
  assumes "body_room d room buf" and "c + length xs = room" and "length xs \<le> R" and "small R" and "retrieve_len d = int R"
  shows "read_counted e client timer (int c) (xs @ rest) (int (length xs)) (of_nat R) d w =
           Some (Inl 1, d\<lparr>response_buf := Some (overwrite buf c (xs @ [0])), retrieve_len := int (R - length xs)\<rparr>, w)"
proof -
  have len: "small (length xs)" using assms(3,4) by (simp add: small_le)
  have t: "sint (min (u32_of (int (length xs))) (of_nat R)) = int (length xs)"
    using u32_min [OF len assms(4)] u32_sint [OF len] assms(3) by (simp add: min_absorb1)
  have r: "response_buf_len d - 1 = of_nat room" using assms(1) by (simp add: body_room_def)
  have full: "\<not> u32_of (int c + int (length xs)) < of_nat room"
    by (simp add: assms(2) [symmetric])
  have "(of_nat R :: u32) - (of_nat room - of_nat c) = of_nat (R - length xs)"
    using assms(3) by (simp add: assms(2) [symmetric] of_nat_diff)
  then have n: "sint (u32_of (int R) - (of_nat room - u32_of (int c))) = int (R - length xs)"
    using u32_sint [OF small_le [OF assms(4), of "R - length xs"]] by simp
  show ?thesis
    unfolding read_counted.simps [of e client timer "int c"] Let_def t r if_not_P [OF full]
      fill_response_room [OF assms(1,2)] bind.bind_lunit
    using n by (simp add: r assms(5))
qed

text \<open>One round in which bytes are missing afterwards, and the last one.\<close>

lemma read_counted_step:
  assumes "body_room d room buf" and "c + length xs < room" and "length xs \<le> R" and "small R" and "retrieve_len d = int R"
    and "d' = d\<lparr>response_buf := Some (overwrite buf c (xs @ [0])), retrieve_len := int (R - length xs)\<rparr>"
  shows "read_counted e client timer (int c) (xs @ rest) (int (length xs)) (of_nat R) d w =
           (if length xs = R then Some (Inr (int (c + R), xs @ rest, int R), d', w)
            else do {
              (ret, len, data, w) \<leftarrow>
                recv_before e client timer (xs @ rest) 0 (of_nat (min (min 255 (room - (c + length xs))) (R - length xs))) w;
              if ret = ERROR_HTTP_CONN then Some (Inl ret, d', w)
              else read_counted e client timer (int (c + length xs)) data len (of_nat (R - length xs)) d' w })"
proof -
  have len: "small (length xs)" using assms(3,4) by (simp add: small_le)
  have t: "sint (min (u32_of (int (length xs))) (of_nat R)) = int (length xs)"
    using u32_min [OF len assms(4)] u32_sint [OF len] assms(3) by (simp add: min_absorb1)
  have r: "response_buf_len d - 1 = of_nat room" "response_buf d = Some buf" "room < length buf" "small room"
    using assms(1) by (simp_all add: body_room_def)
  have fits: "u32_of (int c + int (length xs)) < of_nat room"
    using u32_less [OF small_le [OF r(4), of "c + length xs"] r(4)] assms(2) by simp
  have p: "put_response d (int c) xs = Some (d\<lparr>response_buf := Some (overwrite buf c xs)\<rparr>)"
    using r assms(2) by (intro put_response_some) auto
  have q: "put_response (d\<lparr>response_buf := Some (overwrite buf c xs)\<rparr>) (int c + int (length xs)) [0] =
      Some (d\<lparr>response_buf := Some (overwrite buf c (xs @ [0]))\<rparr>)"
    using put_response_some [of "d\<lparr>response_buf := Some (overwrite buf c xs)\<rparr>" "overwrite buf c xs" "c + length xs" "[0]"] r assms(2)
    by (simp add: overwrite_append)
  have bs: "rd_bytes (xs @ rest) 0 (unat (u32_of (int (length xs)))) = Some xs"
    using u32_unat [OF len] by (simp add: rd_bytes_def)
  have notmore: "\<not> u32_of (int (length xs)) > of_nat R" using u32_less [OF assms(4) len] assms(3) by simp
  have sub: "of_nat R - u32_of (int (length xs)) = of_nat (R - length xs)" using assms(3) by (simp add: of_nat_diff)
  have z: "((of_nat (R - length xs) :: u32) = 0) = (length xs = R)"
    using u32_zero [OF small_le [OF assms(4), of "R - length xs"]] assms(3) by auto
  have "of_nat room - u32_of (int c + int (length xs)) = of_nat (room - (c + length xs))"
    using assms(2) by (simp add: of_nat_diff)
  moreover have "small 255" by (simp add: small_def)
  ultimately have m: "min (min 255 (of_nat room - u32_of (int c + int (length xs)))) (of_nat (R - length xs)) =
      (of_nat (min (min 255 (room - (c + length xs))) (R - length xs)) :: u32)"
    using u32_min [of 255 "room - (c + length xs)"] u32_min [of "min 255 (room - (c + length xs))" "R - length xs"]
      small_le [OF r(4), of "room - (c + length xs)"] small_le [of 255 "min 255 (room - (c + length xs))"]
      small_le [OF assms(4), of "R - length xs"]
    by simp
  have d': "d\<lparr>response_buf := Some (overwrite buf c (xs @ [0])), retrieve_len := int (R - length xs)\<rparr> = d'"
    by (simp add: assms(6))
  have sb: "sub_int (retrieve_len (d\<lparr>response_buf := Some (overwrite buf c (xs @ [0]))\<rparr>)) (int (length xs)) = Some (int (R - length xs))"
    using sub_int_small [OF assms(4,3)] by (simp add: assms(5))
  have r': "response_buf_len d' = response_buf_len d" by (simp add: assms(6))
  show ?thesis
    unfolding read_counted.simps [of e client timer "int c"] Let_def t r(1) if_P [OF fits] bs bind.bind_lunit p q if_not_P [OF notmore] sub
      prod.case z sb d' r'
    using m by (simp add: r cong: if_cong)
qed

text \<open>
  The whole loop on content that the server delivers in any pieces: the first \<open>room\<close> bytes of it are
  stored and what is left over stays counted.
\<close>

lemma overwrite_prefix:
  "drop (length bs) (overwrite m 0 bs) = drop (length bs) m" "overwrite m 0 bs = bs @ drop (length bs) m"
  by (simp_all add: overwrite_def)

lemma read_counted_content:
  assumes "serves e client pending"
    and "body_room d room buf" and "c + length xs \<le> room" and "length xs \<le> R" and "small R" and "retrieve_len d = int R"
    and "R \<le> length (xs @ pending w)" and "length (xs @ rest) = 256"
  shows "\<exists>w' ys rest'.
      read_counted e client timer (int c) (xs @ rest) (int (length xs)) (of_nat R) d w =
        (let n = min R (room - c);
             d' = d\<lparr>response_buf := Some (overwrite buf c (take n (xs @ pending w) @ [0])), retrieve_len := int (R - n)\<rparr>
         in Some (if c + R < room then Inr (int (c + R), ys @ rest', int (length ys)) else Inl 1, d', w')) \<and>
      pending w' = drop (min R (room - c)) (xs @ pending w) \<and>
      length (ys @ rest') = 256 \<and> (c + R < room \<longrightarrow> (\<exists>zs. take R (xs @ pending w) = zs @ ys) \<and> (R > 0 \<longrightarrow> ys \<noteq> []))"
  using assms(2-)
proof (induction "R - length xs" arbitrary: c xs R d rest w buf rule: less_induct)
  case less
  note prems = less.prems
  let ?L = "length xs"
  consider "c + ?L = room" | "c + ?L < room" "?L = R" | "c + ?L < room" "?L < R" using prems(2,3) by linarith
  then show ?case
  proof cases
    case 1
    have "min R (room - c) = ?L" using 1 prems(3) by auto
    with 1 prems(3) show ?thesis
      by - (rule exI [of _ w], rule exI [of _ "[]"], rule exI [of _ "xs @ rest"],
        simp add: Let_def read_counted_fill [OF prems(1) 1 prems(3,4,5)] prems(7) [simplified])
  next
    case 2
    have "min R (room - c) = R" using 2 by auto
    moreover note read_counted_step [OF prems(1) 2(1) prems(3,4,5) refl, of e client timer rest w]
    ultimately show ?thesis
      by - (rule exI [of _ w], rule exI [of _ xs], rule exI [of _ rest],
        use 2 prems(7) in \<open>auto simp: Let_def\<close>)
  next
    case 3
    define m where "m = min (min 255 (room - (c + ?L))) (R - ?L)"
    let ?d = "d\<lparr>response_buf := Some (overwrite buf c (xs @ [0])), retrieve_len := int (R - ?L)\<rparr>"
    have m: "m \<le> 255" "m \<le> R - ?L" "m \<le> room - (c + ?L)" "m \<noteq> 0" using 3 unfolding m_def by linarith+
    have sm: "small m" using small_le [OF prems(4)] m(2) by simp
    have "0 + unat (of_nat m :: u32) \<le> length (xs @ rest)" unfolding u32_unat [OF sm] prems(7) using m(1) by simp
    moreover have "(of_nat m :: u32) \<noteq> 0" using u32_zero [OF sm] m(4) by simp
    moreover have "pending w \<noteq> []" using 3 prems(6) by auto
    ultimately obtain bs w1 where recv: "recv_before e client timer (xs @ rest) 0 (of_nat m) w =
          Some (0, int (length bs), overwrite (xs @ rest) 0 bs, w1)"
      and bs: "bs \<noteq> []" "length bs \<le> m" "pending w = bs @ pending w1"
      using serves_recv_before [OF assms(1), of w "of_nat m" 0 "xs @ rest" timer] u32_unat [OF sm] by metis
    define rest1 where "rest1 = drop (length bs) (xs @ rest)"
    have data: "overwrite (xs @ rest) 0 bs = bs @ rest1" by (simp add: overwrite_def rest1_def)
    have l: "length (bs @ rest1) = 256" using prems(7) bs(2) m(1) by (simp add: rest1_def)
    have room': "body_room ?d room (overwrite buf c (xs @ [0]))"
      using prems(1) 3 by (simp add: body_room_def)
    have step: "read_counted e client timer (int c) (xs @ rest) (int ?L) (of_nat R) d w =
        read_counted e client timer (int (c + ?L)) (bs @ rest1) (int (length bs)) (of_nat (R - ?L)) ?d w1"
      using 3 by (simp add: read_counted_step [OF prems(1) 3(1) prems(3,4,5) refl] recv [unfolded m_def] data)
    let ?n = "min (R - ?L) (room - (c + ?L))"
    have n: "min R (room - c) = ?L + ?n" "R - (?L + ?n) = R - ?L - ?n" using 3 by auto
    have stored: "overwrite (overwrite buf c (xs @ [0])) (c + ?L) (take ?n (pending w) @ [0]) =
        overwrite buf c (take (?L + ?n) (xs @ pending w) @ [0])"
    proof -
      have "length (take ?n (pending w)) \<le> ?n" by (simp only: length_take min.cobounded2)
      then have "c + ?L + length (take ?n (pending w)) + 1 \<le> length buf" using prems(1) 3 unfolding body_room_def by linarith
      from overwrite_chain [OF this, of 0 0] 3 show ?thesis by simp
    qed
    have "length bs > 0" using bs(1) by simp
    then have less: "R - ?L - length bs < R - ?L" using 3 by linarith
    have p: "c + ?L + length bs \<le> room" "length bs \<le> R - ?L"
      "retrieve_len ?d = int (R - ?L)" "R - ?L \<le> length (bs @ pending w1)"
      using 3 bs(2,3) m prems(6) by simp_all
    note ih = less.hyps [where R = "R - ?L" and xs = bs and c = "c + ?L" and d = ?d and w = w1 and rest = rest1,
        OF less room' p(1,2) small_le [OF prems(4) diff_le_self] p(3,4) l]
    then obtain w' ys rest' where ih: "read_counted e client timer (int (c + ?L)) (bs @ rest1) (int (length bs)) (of_nat (R - ?L)) ?d w1 =
        (let n = min (R - ?L) (room - (c + ?L));
             d' = ?d\<lparr>response_buf := Some (overwrite (overwrite buf c (xs @ [0])) (c + ?L) (take n (bs @ pending w1) @ [0])), retrieve_len := int (R - ?L - n)\<rparr>
         in Some (if c + ?L + (R - ?L) < room then Inr (int (c + ?L + (R - ?L)), ys @ rest', int (length ys)) else Inl 1, d', w'))"
      and ih': "pending w' = drop ?n (bs @ pending w1)" "length (ys @ rest') = 256"
        "c + ?L + (R - ?L) < room \<longrightarrow> (\<exists>zs. take (R - ?L) (bs @ pending w1) = zs @ ys) \<and> (R - ?L > 0 \<longrightarrow> ys \<noteq> [])"
      by (elim exE conjE) (rule that)
    have cR: "c + ?L + (R - ?L) = c + R" using 3 by simp
    let ?d' = "d\<lparr>response_buf := Some (overwrite buf c (take (?L + ?n) (xs @ pending w) @ [0])), retrieve_len := int (R - (?L + ?n))\<rparr>"
    have res: "read_counted e client timer (int c) (xs @ rest) (int ?L) (of_nat R) d w =
        Some (if c + R < room then Inr (int (c + R), ys @ rest', int (length ys)) else Inl 1, ?d', w')"
      using ih unfolding step cR Let_def n(2) bs(3) [symmetric] stored by simp
    have pend: "pending w' = drop (?L + ?n) (xs @ pending w)" using ih'(1) bs(3) by simp
    have split: "take R (xs @ pending w) = xs @ take (R - ?L) (bs @ pending w1)" using 3 bs(3) by simp
    have "(\<exists>zs. take R (xs @ pending w) = zs @ ys) \<and> (R > 0 \<longrightarrow> ys \<noteq> [])" if last: "c + R < room"
    proof -
      have "R - ?L > 0" using 3 by simp
      then obtain zs where "take (R - ?L) (bs @ pending w1) = zs @ ys" "ys \<noteq> []"
        using mp [OF ih'(3) [unfolded cR] last] by blast
      then have "take R (xs @ pending w) = (xs @ zs) @ ys" unfolding split by simp
      with \<open>ys \<noteq> []\<close> show ?thesis by blast
    qed
    with res pend ih'(2) show ?thesis
      unfolding n(1) Let_def by blast
  qed
qed

text \<open>More bytes than the content has: the rest of them is moved to the front.\<close>

lemma read_counted_over:
  assumes "body_room d room buf" and "c + R < room" and "R < length xs" and "small (length xs)" and "length (xs @ rest) = 256"
    and "retrieve_len d = int R"
  shows "\<exists>rest'. read_counted e client timer (int c) (xs @ rest) (int (length xs)) (of_nat R) d w =
             Some (Inr (int (c + R), drop R xs @ rest', int (length xs - R)),
                   d\<lparr>response_buf := Some (overwrite buf c (take R xs @ [0])), retrieve_len := 0\<rparr>, w) \<and>
           length (drop R xs @ rest') = 256"
proof -
  have R: "small R" using assms(3,4) by (simp add: small_le)
  have t: "sint (min (u32_of (int (length xs))) (of_nat R)) = int R"
    using u32_min [OF assms(4) R] u32_sint [OF R] assms(3) by (simp add: min_absorb2)
  have r: "response_buf_len d - 1 = of_nat room" "response_buf d = Some buf" "room < length buf" "small room"
    using assms(1) by (simp_all add: body_room_def)
  have fits: "u32_of (int c + int R) < of_nat room"
    using u32_less [OF small_le [OF r(4), of "c + R"] r(4)] assms(2) by simp
  have len: "length (take R xs) = R" using assms(3) by simp
  have p: "put_response d (int c) (take R xs) = Some (d\<lparr>response_buf := Some (overwrite buf c (take R xs))\<rparr>)"
    using put_response_some [OF r(2), of c "take R xs"] r(3) assms(2) len by simp
  have q: "put_response (d\<lparr>response_buf := Some (overwrite buf c (take R xs))\<rparr>) (int c + int R) [0] =
      Some (d\<lparr>response_buf := Some (overwrite buf c (take R xs @ [0]))\<rparr>)"
    using put_response_some [of "d\<lparr>response_buf := Some (overwrite buf c (take R xs))\<rparr>" "overwrite buf c (take R xs)" "c + R" "[0]"]
      overwrite_append [of c "take R xs" buf "[0]"] length_overwrite [of c "take R xs" buf] len r assms(2)
    by simp
  have sb: "sub_int (retrieve_len (d\<lparr>response_buf := Some (overwrite buf c (take R xs @ [0]))\<rparr>)) (int R) = Some 0"
    using sub_int_small [OF R order_refl] by (simp add: assms(6))
  have bs: "rd_bytes (xs @ rest) 0 (unat (u32_of (int R))) = Some (take R xs)"
    using u32_unat [OF R] assms(3) by (simp add: rd_bytes_def)
  have more: "u32_of (int (length xs)) > of_nat R" using u32_less [OF R assms(4)] assms(3) by simp
  have uR: "uint (of_nat R :: u32) = int R" "unat (of_nat R :: u32) = R" using R by (rule u32_uint, rule u32_unat)
  have dR: "int (length xs) - int R = int (length xs - R)" using assms(3) by (simp add: of_nat_diff)
  define rest' where "rest' = drop (length xs - R) (xs @ rest)"
  have "unat (u32_of (int (length xs - R))) = length xs - R"
    using u32_unat [OF small_le [OF assms(4), of "length xs - R"]] by simp
  then have m: "move_front (xs @ rest) R (int (length xs - R)) = Some (drop R xs @ rest')"
    using assms(3) by (simp add: move_front_def rd_bytes_def wr_bytes_def overwrite_def rest'_def)
  have "read_counted e client timer (int c) (xs @ rest) (int (length xs)) (of_nat R) d w =
             Some (Inr (int (c + R), drop R xs @ rest', int (length xs - R)),
                   d\<lparr>response_buf := Some (overwrite buf c (take R xs @ [0])), retrieve_len := 0\<rparr>, w)"
    unfolding read_counted.simps [of e client timer "int c"] Let_def t r(1) if_P [OF fits] bs bind.bind_lunit p q sb if_P [OF more] uR dR m
      prod.case
    by simp
  moreover have "length (drop R xs @ rest') = 256" using assms(3,5) by (simp add: rest'_def)
  ultimately show ?thesis by blast
qed

text \<open>
  A body whose length the server announced is read completely, in whatever pieces it
  arrives: the first \<open>room\<close> bytes are put into the buffer of the caller and closed with 0, nothing
  behind the body is taken from the connection, and what did not fit is counted as still missing.
  The function returns for every such server.
\<close>

lemma retrieve_content_counted:
  assumes "serves e client pending"
    and "\<not> is_chunked d" and "response_content_len d \<noteq> - 1" and "retrieve_len d = int N" and "small N"
    and "body_room d room buf" and "length xs \<le> room" and "length (xs @ rest) = 256"
    and "N \<le> length (xs @ pending w)"
  shows "\<exists>w'. httpclient_retrieve_content e client (xs @ rest) (int (length xs)) timeout_ms d w =
      Some (if N < room then 0 else 1,
            d\<lparr>is_more := \<not> N < room, retrieve_len := int (N - min N room),
              response_buf := Some (overwrite buf 0 (take (min N room) (xs @ pending w) @ [0]))\<rparr>, w') \<and>
      pending w' = drop (min N room - length xs) (pending w)"
proof -
  obtain timer w1 where 1: "http_countdown e timeout_ms w = (timer, w1)" by fastforce
  then have p: "pending w1 = pending w" using serves_timers(1) [OF assms(1), of timeout_ms w] by simp
  let ?d = "d\<lparr>is_more := True\<rparr>"
  have room: "body_room ?d room buf" using assms(6) by (simp add: body_room_def)
  have loop: "httpclient_retrieve_content e client (xs @ rest) (int (length xs)) timeout_ms d w =
      retrieve_loop e client timer 0 (xs @ rest) (int (length xs)) ?d w1"
    using assms(3) 1 by (simp add: httpclient_retrieve_content_def Let_def)
  have nc: "next_chunk e client timer (xs @ rest) (int (length xs)) ?d w1 =
      Some (Inr (of_nat N, xs @ rest, int (length xs)), ?d, w1)"
    using assms(2,4) by (simp add: next_chunk_def)
  have once: "retrieve_loop e client timer 0 (xs @ rest) (int (length xs)) ?d w1 = do {
      (r, d, w) \<leftarrow> read_counted e client timer (int 0) (xs @ rest) (int (length xs)) (of_nat N) ?d w1;
      (case r of
         Inl ret \<Rightarrow> Some (ret, d, w)
       | Inr (count, data, len) \<Rightarrow>
           if is_chunked d then do {
             (r, w) \<leftarrow> chunk_end e client timer data len w;
             (case r of
                Inl ret \<Rightarrow> Some (ret, d, w)
              | Inr (data, len) \<Rightarrow> retrieve_loop e client timer count data len d w) }
           else Some (0, d\<lparr>is_more := False\<rparr>, w)) }"
    by (subst retrieve_loop.simps) (simp add: nc)
  show ?thesis
  proof (cases "length xs \<le> N")
    case True
    from read_counted_content [OF assms(1) room _ True assms(5), of 0 w1 rest timer] assms(4,7,8,9) p
    obtain w' ys rest' where rc: "read_counted e client timer (int 0) (xs @ rest) (int (length xs)) (of_nat N) ?d w1 =
        (let n = min N (room - 0);
             d' = ?d\<lparr>response_buf := Some (overwrite buf 0 (take n (xs @ pending w1) @ [0])), retrieve_len := int (N - n)\<rparr>
         in Some (if 0 + N < room then Inr (int (0 + N), ys @ rest', int (length ys)) else Inl 1, d', w'))"
      and w': "pending w' = drop (min N (room - 0)) (xs @ pending w1)"
      by auto
    have "pending w' = drop (min N room - length xs) (pending w)"
      using w' p True assms(7) by simp
    moreover have "retrieve_loop e client timer 0 (xs @ rest) (int (length xs)) ?d w1 =
        Some (if N < room then 0 else 1,
            d\<lparr>is_more := \<not> N < room, retrieve_len := int (N - min N room),
              response_buf := Some (overwrite buf 0 (take (min N room) (xs @ pending w) @ [0]))\<rparr>, w')"
      unfolding once rc using assms(2) p by (auto simp: Let_def)
    ultimately show ?thesis unfolding loop by blast
  next
    case False
    then have N: "N < length xs" "N < room" using assms(7) by auto
    have "small (length xs)" using assms(6,7) small_le unfolding body_room_def by blast
    from read_counted_over [OF room _ N(1) this assms(8), of 0 e client timer w1] N assms(4)
    obtain rest' where rc: "read_counted e client timer (int 0) (xs @ rest) (int (length xs)) (of_nat N) ?d w1 =
        Some (Inr (int (0 + N), drop N xs @ rest', int (length xs - N)),
              ?d\<lparr>response_buf := Some (overwrite buf 0 (take N xs @ [0])), retrieve_len := 0\<rparr>, w1)"
      by auto
    have "retrieve_loop e client timer 0 (xs @ rest) (int (length xs)) ?d w1 =
        Some (if N < room then 0 else 1,
            d\<lparr>is_more := \<not> N < room, retrieve_len := int (N - min N room),
              response_buf := Some (overwrite buf 0 (take (min N room) (xs @ pending w) @ [0]))\<rparr>, w1)"
      unfolding once rc using assms(2) N by simp
    moreover have "pending w1 = drop (min N room - length xs) (pending w)" using N p by simp
    ultimately show ?thesis unfolding loop by blast
  qed
qed

section \<open>Status line and headers\<close>

lemma cstring_ended: "cstring (xs @ 0 # rest) = Some (takeWhile (\<lambda>b. b \<noteq> 0) xs)"
  by (induction xs) (auto simp: cstring_def strlen_def)

lemma find_crlf: "0x0D \<notin> set line \<Longrightarrow> find_text crlf (line @ 0x0D # 0x0A # r) = Some (length line)"
  by (induction line) auto

lemma find_crlf_None: "0x0D \<notin> set line \<Longrightarrow> k < length line + 2 \<Longrightarrow> find_text crlf (take k (line @ 0x0D # 0x0A # r)) = None"
proof (induction line arbitrary: k)
  case Nil
  then show ?case by (cases k) auto
next
  case (Cons b line)
  then show ?case by (cases k) auto
qed

text \<open>A line of the head: no end of line and no 0 in it, and short enough for the buffer.\<close>

definition line_ok :: "bytes \<Rightarrow> bool" where
  "line_ok line \<longleftrightarrow> 0 \<notin> set line \<and> 0x0D \<notin> set line \<and> length line + 2 \<le> 255"

lemma takeWhile_line: "(0 :: u8) \<notin> set line \<Longrightarrow> \<exists>r'. takeWhile (\<lambda>b. b \<noteq> 0) (line @ 0x0D # 0x0A # r) = line @ 0x0D # 0x0A # r'"
  by (induction line) auto

lemma line_incomplete:
  assumes "line_ok line" and "xs @ p = line @ 0x0D # 0x0A # r" and "length xs < length line + 2"
  shows "find_text crlf (takeWhile (\<lambda>b. b \<noteq> 0) xs) = None"
proof -
  have xs: "xs = take (length xs) (line @ 0x0D # 0x0A # r)" using assms(2) by (metis append_eq_conv_conj)
  also have "line @ 0x0D # 0x0A # r = (line @ [0x0D, 0x0A]) @ r" by simp
  also have "take (length xs) \<dots> = take (length xs) (line @ [0x0D, 0x0A])"
    using assms(3) by (simp only: take_append) simp
  finally have "set xs \<subseteq> set (line @ [0x0D, 0x0A])" by (metis set_take_subset)
  then have "\<forall>b \<in> set xs. b \<noteq> 0" using assms(1) by (auto simp: line_ok_def)
  then have "takeWhile (\<lambda>b. b \<noteq> 0) xs = xs" by (simp add: takeWhile_eq_all_conv)
  moreover have "find_text crlf xs = None"
    using find_crlf_None [of line "length xs" r] xs [symmetric] assms(1,3) by (simp add: line_ok_def)
  ultimately show ?thesis by (simp only:)
qed

lemma small_256: "small 256"
  by (simp add: small_def)

lemma u32_int: "u32_of (int n) = of_nat n"
  by simp

lemma read_headers_fill:
  assumes "serves e client pending" and "line_ok line"
    and "xs @ pending w = line @ 0x0D # 0x0A # r" and "length (xs @ 0 # rest) = 256"
  shows "\<exists>xs' rest' w'. read_headers e client timer (xs @ 0 # rest) (int (length xs)) d w =
           read_headers e client timer (xs' @ 0 # rest') (int (length xs')) d w' \<and>
         xs' @ pending w' = line @ 0x0D # 0x0A # r \<and> length (xs' @ 0 # rest') = 256 \<and> length line + 2 \<le> length xs'"
  using assms(3,4)
proof (induction "length line + 2 - length xs" arbitrary: xs rest w rule: less_induct)
  case less
  show ?case
  proof (cases "length line + 2 \<le> length xs")
    case True
    with less.prems show ?thesis by blast
  next
    case False
    let ?n = "255 - length xs"
    have n: "small ?n" by (rule small_le [of 255]) (simp_all add: small_def)
    have n0: "?n \<noteq> 0" using False assms(2) by (simp add: line_ok_def)
    have u: "u32_of (256 - int (length xs) - 1) = of_nat ?n"
    proof -
      have "256 - int (length xs) - 1 = int ?n" using False assms(2) by (simp add: line_ok_def of_nat_diff)
      then show ?thesis by (simp only: u32_int)
    qed
    have "pending w \<noteq> []" 
    proof
      assume "pending w = []"
      then have "length xs = length line + 2 + length r" using arg_cong [OF less.prems(1), of length] by simp
      with False show False by simp
    qed
    moreover have "(of_nat ?n :: u32) \<noteq> 0" using u32_zero [OF n] n0 by simp
    moreover have "length xs + unat (of_nat ?n :: u32) \<le> length (xs @ 0 # rest)"
      unfolding u32_unat [OF n] less.prems(2) using False assms(2) by (simp add: line_ok_def)
    ultimately have "\<exists>bs w'. recv_before e client timer (xs @ 0 # rest) (length xs) (of_nat ?n) w =
          Some (0, int (length bs), overwrite (xs @ 0 # rest) (length xs) bs, w') \<and>
        bs \<noteq> [] \<and> length bs \<le> unat (of_nat ?n :: u32) \<and> pending w = bs @ pending w'"
      by (rule serves_recv_before [OF assms(1)])
    then obtain bs w1 where recv: "recv_before e client timer (xs @ 0 # rest) (length xs) (of_nat ?n) w =
          Some (0, int (length bs), overwrite (xs @ 0 # rest) (length xs) bs, w1)"
      and bs: "bs \<noteq> []" "length bs \<le> ?n" "pending w = bs @ pending w1"
      unfolding u32_unat [OF n] by (elim exE conjE) (rule that)
    define rest1 where "rest1 = drop (length bs) rest"
    have l: "length ((xs @ bs) @ 0 # rest1) = 256" using less.prems(2) bs(2) by (simp add: rest1_def)
    have ow: "overwrite (xs @ 0 # rest) (length xs) bs = (xs @ bs) @ drop (length bs) (0 # rest)"
      by (simp add: overwrite_def)
    obtain b bs' where b: "bs = b # bs'" using bs(1) by (cases bs) auto
    then have "length bs' < length rest" using l less.prems(2) by (simp add: rest1_def)
    then have z: "drop (length bs) (0 # rest) = rest ! length bs' # rest1"
      by (simp add: b rest1_def Cons_nth_drop_Suc)
    have wr: "wr (overwrite (xs @ 0 # rest) (length xs) bs) (length (xs @ bs)) 0 = Some ((xs @ bs) @ 0 # rest1)"
      unfolding ow z by (simp add: wr_def list_update_append)
    have none: "find_text crlf (takeWhile (\<lambda>b. b \<noteq> 0) xs) = None"
      using line_incomplete [OF assms(2) less.prems(1)] False by simp
    have c: "int (length xs) < 255" using False assms(2) by (simp add: line_ok_def)
    have i: "int (length xs) + int (length bs) = int (length (xs @ bs))" by simp
    have step: "read_headers e client timer (xs @ 0 # rest) (int (length xs)) d w =
        read_headers e client timer ((xs @ bs) @ 0 # rest1) (int (length (xs @ bs))) d w1"
      unfolding read_headers.simps [of e client timer "xs @ 0 # rest"] cstring_ended bind.bind_lunit none option.case
        if_P [OF c] nat_int u recv prod.case Let_def i wr by simp
    have "length bs > 0" using bs(1) by simp
    then have "length line + 2 - length (xs @ bs) < length line + 2 - length xs"
      using False unfolding length_append by linarith
    moreover have "(xs @ bs) @ pending w1 = line @ 0x0D # 0x0A # r" using less.prems(1) bs(3) by simp
    ultimately show ?thesis using l unfolding step by (rule less.hyps)
  qed
qed

text \<open>A complete line at the front of the data.\<close>

lemma front_line:
  assumes "line_ok line" and "xs @ p = line @ 0x0D # 0x0A # r" and "length line + 2 \<le> length xs"
  shows "\<exists>ys. xs = line @ 0x0D # 0x0A # ys \<and> ys @ p = r"
proof -
  let ?n = "length line + 2"
  have S: "xs @ p = (line @ [0x0D, 0x0A]) @ r" using assms(2) by simp
  have "take ?n xs = take ?n (xs @ p)" using assms(3) by simp
  also have "\<dots> = line @ [0x0D, 0x0A]" unfolding S by simp
  finally have "xs = (line @ [0x0D, 0x0A]) @ drop ?n xs" by (metis append_take_drop_id)
  moreover have "drop ?n xs @ p = drop ?n (xs @ p)" using assms(3) by simp
  then have "drop ?n xs @ p = r" unfolding S by simp
  ultimately show ?thesis by auto
qed

lemma move_line:
  assumes "length (line @ 0x0D # 0x0A # ys @ 0 # rest) = 256" and "length z = length line"
  shows "\<exists>rest'. move_front (z @ z1 # 0x0A # ys @ 0 # rest) (length line + 2)
      (int (length (line @ 0x0D # 0x0A # ys)) - int (length line + 2) + 1) = Some (ys @ 0 # rest') \<and> length (ys @ 0 # rest') = 256"
proof -
  let ?data = "z @ z1 # 0x0A # ys @ 0 # rest"
  have "int (length (line @ 0x0D # 0x0A # ys)) - int (length line + 2) + 1 = int (length (ys @ [0 :: u8]))" by simp
  moreover have "unat (u32_of (int (length (ys @ [0 :: u8])))) = length (ys @ [0 :: u8])"
    unfolding u32_int using assms(1) by (intro u32_unat, intro small_le [OF small_256]) simp
  moreover have "rd_bytes ?data (length line + 2) (length (ys @ [0])) = Some (ys @ [0])"
    using assms(2) by (simp add: rd_bytes_def)
  moreover have "wr_bytes ?data 0 (ys @ [0]) = Some (ys @ 0 # drop (length ys + 1) ?data)"
    using assms(2) by (simp add: wr_bytes_def overwrite_def)
  ultimately have "move_front ?data (length line + 2) (int (length (line @ 0x0D # 0x0A # ys)) - int (length line + 2) + 1) =
      Some (ys @ 0 # drop (length ys + 1) ?data)"
    by (simp only: move_front_def bind.bind_lunit)
  moreover have "length (ys @ 0 # drop (length ys + 1) ?data) = 256" using assms by simp
  ultimately show ?thesis by blast
qed

lemma cstring_line:
  assumes "line_ok line"
  shows "\<exists>r. cstring ((line @ 0x0D # 0x0A # ys) @ 0 # rest) = Some (line @ 0x0D # 0x0A # r)"
    and "wr ((line @ 0x0D # 0x0A # ys) @ 0 # rest) (length line) 0 = Some (line @ 0 # 0x0A # ys @ 0 # rest)"
    and "cstring (line @ 0 # zs) = Some line"
proof -
  show "\<exists>r. cstring ((line @ 0x0D # 0x0A # ys) @ 0 # rest) = Some (line @ 0x0D # 0x0A # r)"
    unfolding cstring_ended using takeWhile_line [of line ys] assms by (auto simp: line_ok_def)
  show "wr ((line @ 0x0D # 0x0A # ys) @ 0 # rest) (length line) 0 = Some (line @ 0 # 0x0A # ys @ 0 # rest)"
    by (simp add: wr_def list_update_append)
  have "takeWhile (\<lambda>b. b \<noteq> 0) line = line" using assms by (auto simp: line_ok_def takeWhile_eq_all_conv)
  then show "cstring (line @ 0 # zs) = Some line" by (simp only: cstring_ended)
qed

text \<open>The headers of a response, and what they set.\<close>

fun apply_lines :: "bytes list \<Rightarrow> httpclient_data_t \<Rightarrow> httpclient_data_t option" where
  "apply_lines [] d = Some d"
| "apply_lines (l # ls) d = do { (key, val) \<leftarrow> scan_header l; d \<leftarrow> apply_header key val d; apply_lines ls d }"

fun head_text :: "bytes list \<Rightarrow> bytes" where
  "head_text [] = [0x0D, 0x0A]"
| "head_text (l # ls) = l @ 0x0D # 0x0A # head_text ls"

definition header_line :: "bytes \<Rightarrow> bool" where
  "header_line l \<longleftrightarrow> line_ok l \<and> l \<noteq> []"

lemma read_headers_line:
  assumes "header_line line" and "length ((line @ 0x0D # 0x0A # ys) @ 0 # rest) = 256"
    and "scan_header line = Some (key, val)" and "apply_header key val d = Some d'"
  shows "\<exists>rest'. read_headers e client timer ((line @ 0x0D # 0x0A # ys) @ 0 # rest) (int (length (line @ 0x0D # 0x0A # ys))) d w =
           read_headers e client timer (ys @ 0 # rest') (int (length ys)) d' w \<and> length (ys @ 0 # rest') = 256"
proof -
  have ok: "line_ok line" and l: "length line \<noteq> 0" using assms(1) by (auto simp: header_line_def)
  from cstring_line(1) [OF ok] obtain r where 1: "cstring ((line @ 0x0D # 0x0A # ys) @ 0 # rest) = Some (line @ 0x0D # 0x0A # r)" by blast
  have 2: "find_text crlf (line @ 0x0D # 0x0A # r) = Some (length line)" using ok by (intro find_crlf) (simp add: line_ok_def)
  obtain rest' where 3: "move_front (line @ 0 # 0x0A # ys @ 0 # rest) (length line + 2)
      (int (length (line @ 0x0D # 0x0A # ys)) - int (length line + 2) + 1) = Some (ys @ 0 # rest')" "length (ys @ 0 # rest') = 256"
    using move_line [of line ys rest line 0] assms(2) by auto
  have 4: "int (length (line @ 0x0D # 0x0A # ys)) - int (length line + 2) = int (length ys)" by simp
  show ?thesis
    unfolding read_headers.simps [of e client timer "(line @ 0x0D # 0x0A # ys) @ 0 # rest"] 1 2 bind.bind_lunit option.case if_not_P [OF l]
      cstring_line(2,3) [OF ok] assms(3,4) prod.case 3(1)
    unfolding bind.bind_lunit 4
    using 3(2) by blast
qed

lemma read_headers_end:
  assumes "length ((0x0D # 0x0A # ys) @ 0 # rest) = 256"
  shows "\<exists>rest'. read_headers e client timer ((0x0D # 0x0A # ys) @ 0 # rest) (int (length (0x0D # 0x0A # ys))) d w =
           Some (Inr (ys @ 0 # rest', int (length ys)), d, w) \<and> length (ys @ 0 # rest') = 256"
proof -
  have ok: "line_ok []" by (simp add: line_ok_def)
  from cstring_line(1) [OF ok] obtain r where 1: "cstring ((0x0D # 0x0A # ys) @ 0 # rest) = Some (0x0D # 0x0A # r)" by auto
  have 2: "find_text crlf (0x0D # 0x0A # r) = Some 0" by simp
  obtain rest' where 3: "move_front ((0x0D # 0x0A # ys) @ 0 # rest) 2
      (int (length (0x0D # 0x0A # ys)) - 2 + 1) = Some (ys @ 0 # rest')" "length (ys @ 0 # rest') = 256"
    using move_line [of "[]" ys rest "[]" 13] assms by (auto simp: numeral_2_eq_2)
  have 4: "int (length (0x0D # 0x0A # ys)) - 2 = int (length ys)" by simp
  show ?thesis
    unfolding read_headers.simps [of e client timer "(0x0D # 0x0A # ys) @ 0 # rest"] 1 2 bind.bind_lunit option.case if_P [OF refl]
      3(1)
    unfolding bind.bind_lunit 4
    using 3(2) by blast
qed

lemma read_headers_lines:
  assumes "serves e client pending" and "list_all header_line ls" and "apply_lines ls d = Some d'"
    and "xs @ pending w = head_text ls @ r" and "length (xs @ 0 # rest) = 256"
  shows "\<exists>xs' rest' w'. read_headers e client timer (xs @ 0 # rest) (int (length xs)) d w =
           Some (Inr (xs' @ 0 # rest', int (length xs')), d', w') \<and> xs' @ pending w' = r \<and> length (xs' @ 0 # rest') = 256"
  using assms(2-)
proof (induction ls arbitrary: d xs rest w)
  case Nil
  then have "xs @ pending w = [] @ 0x0D # 0x0A # r" by simp
  from read_headers_fill [OF assms(1) _ this Nil.prems(4), of timer d]
  obtain xs1 rest1 w1 where 1: "read_headers e client timer (xs @ 0 # rest) (int (length xs)) d w =
      read_headers e client timer (xs1 @ 0 # rest1) (int (length xs1)) d w1"
    and xs1: "xs1 @ pending w1 = [] @ 0x0D # 0x0A # r" "length (xs1 @ 0 # rest1) = 256" "length ([] :: bytes) + 2 \<le> length xs1"
    by (auto simp: line_ok_def)
  from front_line [OF _ xs1(1,3)] obtain ys where ys: "xs1 = 0x0D # 0x0A # ys" "ys @ pending w1 = r" by (auto simp: line_ok_def)
  from read_headers_end [OF xs1(2) [unfolded ys(1)], of e client timer d w1] Nil.prems(2) show ?case
    unfolding 1 ys(1) using ys(2) by auto
next
  case (Cons line ls)
  then have "xs @ pending w = line @ 0x0D # 0x0A # head_text ls @ r" and ok: "line_ok line" by (simp_all add: header_line_def)
  from read_headers_fill [OF assms(1) ok this(1) Cons.prems(4), of timer d]
  obtain xs1 rest1 w1 where 1: "read_headers e client timer (xs @ 0 # rest) (int (length xs)) d w =
      read_headers e client timer (xs1 @ 0 # rest1) (int (length xs1)) d w1"
    and xs1: "xs1 @ pending w1 = line @ 0x0D # 0x0A # head_text ls @ r" "length (xs1 @ 0 # rest1) = 256" "length line + 2 \<le> length xs1"
    by blast
  from front_line [OF ok xs1(1,3)] obtain ys where ys: "xs1 = line @ 0x0D # 0x0A # ys" "ys @ pending w1 = head_text ls @ r" by auto
  from Cons.prems(2) obtain key val d1 where h: "scan_header line = Some (key, val)" "apply_header key val d = Some d1" "apply_lines ls d1 = Some d'"
    by (auto split: bind_splits)
  from read_headers_line [OF _ xs1(2) [unfolded ys(1)] h(1,2), of e client timer w1] Cons.prems(1)
  obtain rest2 where 2: "read_headers e client timer (xs1 @ 0 # rest1) (int (length xs1)) d w1 =
      read_headers e client timer (ys @ 0 # rest2) (int (length ys)) d1 w1" "length (ys @ 0 # rest2) = 256"
    unfolding ys(1) by auto
  show ?case unfolding 1 2(1) using Cons.IH [OF _ h(3) ys(2) 2(2)] Cons.prems(1) by simp
qed

text \<open>Headers change three fields.\<close>

definition apart_from_headers :: "httpclient_data_t \<Rightarrow> httpclient_data_t" where
  "apart_from_headers d = d\<lparr>is_chunked := False, response_content_len := 0, retrieve_len := 0\<rparr>"

lemma apply_header_frame: "apply_header key val d = Some d' \<Longrightarrow> apart_from_headers d' = apart_from_headers d"
  by (auto simp: apply_header_def apart_from_headers_def split: if_splits bind_splits)

lemma apply_lines_frame: "apply_lines ls d = Some d' \<Longrightarrow> apart_from_headers d' = apart_from_headers d"
  by (induction ls arbitrary: d) (auto dest: apply_header_frame split: bind_splits)

lemma apart_from_headers_eq:
  "apart_from_headers d' = apart_from_headers d \<Longrightarrow>
     d' = d\<lparr>response_content_len := response_content_len d', is_chunked := is_chunked d', retrieve_len := retrieve_len d'\<rparr>"
  by (cases d, cases d') (simp add: apart_from_headers_def)

text \<open>The response of a server: status line, headers with the length of the body, the body and anything behind it.\<close>

definition response_head :: "bytes \<Rightarrow> int \<Rightarrow> bytes list \<Rightarrow> nat \<Rightarrow> bool" where
  "response_head status code ls N \<longleftrightarrow>
     line_ok status \<and> scan_status status = Some code \<and> fits_int code \<and> list_all header_line ls \<and> small N \<and>
     (\<forall>d. response_content_len d = - 1 \<and> \<not> is_chunked d \<longrightarrow>
        (case apply_lines ls d of
           None \<Rightarrow> False
         | Some d' \<Rightarrow> response_content_len d' = of_nat N \<and> retrieve_len d' = int N \<and> \<not> is_chunked d'))"

definition received :: "nat \<Rightarrow> nat \<Rightarrow> bytes \<Rightarrow> bytes \<Rightarrow> httpclient_data_t \<Rightarrow> httpclient_data_t" where
  "received N room buf body d =
     d\<lparr>is_more := \<not> N < room, retrieve_len := int (N - min N room),
       response_buf := Some (overwrite buf 0 (take (min N room) body @ [0]))\<rparr>"

lemma of_nat_not_minus_1: "small N \<Longrightarrow> (of_nat N :: u32) \<noteq> - 1"
proof
  assume "small N" "(of_nat N :: u32) = - 1"
  then have "N = unat (- 1 :: u32)" using u32_unat by metis
  then show False using \<open>small N\<close> by (simp add: small_def unsigned_minus_1_eq_mask mask_eq_exp_minus_1)
qed

lemma response_head_set:
  assumes "response_head status code ls N"
  obtains d' where "apply_lines ls (d\<lparr>response_content_len := - 1, is_chunked := False\<rparr>) = Some d'"
    and "d' = d\<lparr>response_content_len := of_nat N, is_chunked := False, retrieve_len := int N\<rparr>"
proof -
  let ?d = "d\<lparr>response_content_len := - 1, is_chunked := False\<rparr>"
  from assms obtain d' where 1: "apply_lines ls ?d = Some d'" "response_content_len d' = of_nat N" "retrieve_len d' = int N" "\<not> is_chunked d'"
    unfolding response_head_def by (force split: option.splits)
  have "apart_from_headers d' = apart_from_headers d"
    using apply_lines_frame [OF 1(1)] by (simp add: apart_from_headers_def)
  from apart_from_headers_eq [OF this] 1
  have "d' = d\<lparr>response_content_len := of_nat N, is_chunked := False, retrieve_len := int N\<rparr>" by simp
  with 1(1) show thesis by (rule that)
qed

text \<open>
  A response with a \<open>Content-Length\<close> is read as it was meant, in whatever pieces it
  arrives after its status line: the code is stored, every header is interpreted, the first \<open>room\<close>
  bytes of the body are in the caller's buffer, what did not fit stays in the connection and is
  counted, and the function returns.
\<close>

lemma response_parse_counted:
  assumes "serves e client pending" and "response_head status code ls N"
    and "ys @ pending w = head_text ls @ body" and "N \<le> length body"
    and "length ((status @ crlf @ ys) @ 0 # rest) = 256" and "body_room d room buf" and "255 \<le> room"
  shows "\<exists>w'. httpclient_response_parse e client ((status @ crlf @ ys) @ 0 # rest) (int (length (status @ crlf @ ys))) timeout_ms d w =
      Some (if N < room then 0 else 1, client\<lparr>response_code := code\<rparr>,
            received N room buf body (d\<lparr>response_content_len := of_nat N, is_chunked := False\<rparr>), w') \<and>
      (room \<le> N \<longrightarrow> pending w' = drop room body)"
proof -
  have h: "line_ok status" "scan_status status = Some code" "fits_int code" "list_all header_line ls" "small N"
    using assms(2) by (auto simp: response_head_def)
  obtain d1 where d1: "apply_lines ls (d\<lparr>response_content_len := - 1, is_chunked := False\<rparr>) = Some d1"
    "d1 = d\<lparr>response_content_len := of_nat N, is_chunked := False, retrieve_len := int N\<rparr>"
    by (rule response_head_set [OF assms(2)])
  let ?client = "client\<lparr>response_code := code\<rparr>"
  have sv: "serves e ?client pending" using assms(1) by (simp add: serves_def)
  obtain timer w1 where 1: "http_countdown e timeout_ms w = (timer, w1)" by fastforce
  then have p1: "pending w1 = pending w" using serves_timers(1) [OF assms(1), of timeout_ms w] by simp
  have l: "length ((status @ 0x0D # 0x0A # ys) @ 0 # rest) = 256" using assms(5) by simp
  from cstring_line(1) [OF h(1)] obtain r where 2: "cstring ((status @ 0x0D # 0x0A # ys) @ 0 # rest) = Some (status @ 0x0D # 0x0A # r)" by blast
  have 3: "find_text crlf (status @ 0x0D # 0x0A # r) = Some (length status)" using h(1) by (intro find_crlf) (simp add: line_ok_def)
  obtain rest1 where 4: "move_front (status @ 0 # 0x0A # ys @ 0 # rest) (length status + 2)
      (int (length (status @ 0x0D # 0x0A # ys)) - int (length status + 2) + 1) = Some (ys @ 0 # rest1)" "length (ys @ 0 # rest1) = 256"
    using move_line [of status ys rest status 0] l by auto
  have 5: "int (length (status @ 0x0D # 0x0A # ys)) - int (length status + 2) = int (length ys)" by simp
  from read_headers_lines [OF sv h(4) d1(1), of ys w1 body rest1 timer] assms(3) p1 4(2)
  obtain xs2 rest2 w2 where 6: "read_headers e ?client timer (ys @ 0 # rest1) (int (length ys)) (d\<lparr>response_content_len := - 1, is_chunked := False\<rparr>) w1 =
      Some (Inr (xs2 @ 0 # rest2, int (length xs2)), d1, w2)" "xs2 @ pending w2 = body" "length (xs2 @ 0 # rest2) = 256"
    by auto
  obtain left w3 where 7: "http_left e timer w2 = (left, w3)" by fastforce
  then have p3: "pending w3 = pending w2" using serves_timers(2) [OF assms(1), of timer w2] by simp
  have xs2: "length xs2 \<le> room" using 6(3) assms(7) by simp
  have "body_room d1 room buf" using assms(6) by (simp add: body_room_def d1(2))
  from retrieve_content_counted [OF sv _ _ _ h(5) this xs2 6(3), of w3 left] assms(4) 6(2) p3 of_nat_not_minus_1 [OF h(5)]
  obtain w4 where 8: "httpclient_retrieve_content e ?client (xs2 @ 0 # rest2) (int (length xs2)) left d1 w3 =
      Some (if N < room then 0 else 1, received N room buf body d1, w4)" "pending w4 = drop (min N room - length xs2) (pending w2)"
    by (auto simp: d1(2) received_def)
  have 9: "received N room buf body d1 = received N room buf body (d\<lparr>response_content_len := of_nat N, is_chunked := False\<rparr>)"
    by (simp add: d1(2) received_def)
  have "httpclient_response_parse e client ((status @ 0x0D # 0x0A # ys) @ 0 # rest) (int (length (status @ 0x0D # 0x0A # ys))) timeout_ms d w =
      Some (if N < room then 0 else 1, ?client, received N room buf body (d\<lparr>response_content_len := of_nat N, is_chunked := False\<rparr>), w4)"
    unfolding httpclient_response_parse_def 1 prod.case Let_def 2 3 bind.bind_lunit option.case cstring_line(2,3) [OF h(1)] h(2)
      if_not_P [OF not_not [THEN iffD2, OF h(3)]] 4(1)
    unfolding bind.bind_lunit 5 6(1) prod.case sum.case 7
    using 8(1) by (simp add: 9)
  moreover have "pending w4 = drop room body" if "room \<le> N"
    using 8(2) that xs2 6(2) by auto
  ultimately show ?thesis by auto
qed

section \<open>Chunks\<close>

lemma chunk_end_content:
  assumes "serves e client pending" and "pending w \<noteq> []" and "length (ys @ rest) = 256" and "ys \<noteq> []" and "hd ys \<noteq> 0x0D"
  shows "\<exists>w'. chunk_end e client timer (ys @ rest) (int (length ys)) w = Some (Inl ERROR_HTTP_UNRESOLVED_DNS, w')"
proof -
  obtain b bs where b: "ys @ rest = b # bs" "b \<noteq> 0x0D" "length bs = 255" using assms(3-5) by (cases ys) auto
  show ?thesis
  proof (cases "length ys < 2")
    case False
    then show ?thesis using b by (auto simp: chunk_end_def rd_def)
  next
    case True
    then have l: "length ys = 1" using assms(4) by (cases ys) auto
    have "small 254" by (rule small_le [OF small_256]) simp
    then have u: "unat (254 :: u32) = 254" using u32_unat [of 254] by simp
    have "1 + unat (254 :: u32) \<le> length (ys @ rest)" using assms(3) u by simp
    from serves_recv_before [OF assms(1,2) _ this, of timer] obtain xs w1
      where 1: "recv_before e client timer (ys @ rest) 1 254 w = Some (0, int (length xs), overwrite (ys @ rest) 1 xs, w1)"
        and xs: "length xs \<le> unat (254 :: u32)" by auto
    have "overwrite (ys @ rest) 1 xs = b # xs @ drop (length xs) bs" unfolding b(1) by (simp add: overwrite_def)
    moreover have "length xs + length (drop (length xs) bs) \<ge> 1" using b(3) by simp
    ultimately show ?thesis using 1 b(2,3) True l by (auto simp: chunk_end_def rd_def)
  qed
qed

text \<open>
  Property C23: a chunk whose bytes do not all come with the data that was read before its length
  line is never read successfully. The last read of the chunk is limited to the bytes that are
  missing, after it \<open>len\<close> still counts them, and the end of the chunk is looked for in the content:
  unless the content has a carriage return, the result is the error of a malformed chunk, although
  the server sent everything.
\<close>

theorem chunk_end_lost:
  assumes "serves e client pending" and "is_chunked d" and "retrieve_len d = int R" and "small R"
    and "body_room d room buf" and "R < room" and "length xs < R" and "length (xs @ rest) = 256"
    and "R < length (xs @ pending w)" and "0x0D \<notin> set (take R (xs @ pending w))"
  shows "\<exists>d' w'. httpclient_retrieve_content e client (xs @ rest) (int (length xs)) timeout_ms d w =
           Some (ERROR_HTTP_UNRESOLVED_DNS, d', w')"
proof -
  obtain timer w1 where 1: "http_countdown e timeout_ms w = (timer, w1)" by fastforce
  then have p: "pending w1 = pending w" using serves_timers(1) [OF assms(1), of timeout_ms w] by simp
  let ?d = "d\<lparr>is_more := True\<rparr>"
  have room: "body_room ?d room buf" using assms(5) by (simp add: body_room_def)
  from read_counted_content [OF assms(1) room _ _ assms(4), of 0 xs w1 rest timer] assms(3,6,7,8,9) p
  obtain w2 ys rest' where 2: "read_counted e client timer (int 0) (xs @ rest) (int (length xs)) (of_nat R) ?d w1 =
      (let n = min R (room - 0);
           d' = ?d\<lparr>response_buf := Some (overwrite buf 0 (take n (xs @ pending w1) @ [0])), retrieve_len := int (R - n)\<rparr>
       in Some (if 0 + R < room then Inr (int (0 + R), ys @ rest', int (length ys)) else Inl 1, d', w2))"
    and w2: "pending w2 = drop (min R (room - 0)) (xs @ pending w1)" "length (ys @ rest') = 256"
      "0 + R < room \<longrightarrow> (\<exists>zs. take R (xs @ pending w1) = zs @ ys) \<and> (R > 0 \<longrightarrow> ys \<noteq> [])"
    by auto
  obtain zs where ys: "take R (xs @ pending w) = zs @ ys" "ys \<noteq> []" using w2(3) assms(6,7) p by auto
  have "hd ys \<in> set (take R (xs @ pending w))" unfolding ys(1) using ys(2) by simp
  then have "hd ys \<noteq> 0x0D" using assms(10) by metis
  moreover have "length (pending w2) = length (xs @ pending w) - R" using w2(1) assms(6) p by simp
  then have "pending w2 \<noteq> []" using assms(9) by auto
  ultimately obtain w3 where 3: "chunk_end e client timer (ys @ rest') (int (length ys)) w2 = Some (Inl ERROR_HTTP_UNRESOLVED_DNS, w3)"
    using chunk_end_content [OF assms(1) _ w2(2) ys(2)] by blast
  have nc: "next_chunk e client timer (xs @ rest) (int (length xs)) ?d w1 = Some (Inr (of_nat R, xs @ rest, int (length xs)), ?d, w1)"
    using assms(3,7) by (simp add: next_chunk_def)
  have "httpclient_retrieve_content e client (xs @ rest) (int (length xs)) timeout_ms d w =
      retrieve_loop e client timer (int 0) (xs @ rest) (int (length xs)) ?d w1"
    using assms(2) 1 by (simp add: httpclient_retrieve_content_def Let_def)
  also have "\<exists>d' w'. \<dots> = Some (ERROR_HTTP_UNRESOLVED_DNS, d', w')"
    unfolding retrieve_loop.simps [of e client timer "int 0"] nc bind.bind_lunit prod.case sum.case 2 Let_def
    using assms(2,6) 3 by simp
  finally show ?thesis .
qed

section \<open>Witnesses\<close>

text \<open>
  A world of bytes to be read, a clock that stands still and a platform that reads two bytes at a
  time, or 20 of a status line.
\<close>

definition demo_read :: "nat \<Rightarrow> u32 \<Rightarrow> bytes \<Rightarrow> int \<times> bytes \<times> bytes" where
  "demo_read k n p = (let bs = take (min k (unat n)) p in (int (length bs), bs, drop (length bs) p))"

definition demo_http :: "bytes \<Rightarrow> nat \<Rightarrow> bytes http_env" where
  "demo_http response k =
     \<lparr>HAL_TCP_Establish = \<lambda>host p w. (3, response), HAL_TCP_Destroy = \<lambda>fd w. [],
      HAL_TCP_Write = \<lambda>fd d t w. (int (length d) + 1, w), HAL_TCP_Read = \<lambda>fd n t w. demo_read k n w,
      HAL_SSL_Establish = \<lambda>host p crt n w. (-1, w), HAL_SSL_Destroy = \<lambda>fd w. w,
      HAL_SSL_Write = \<lambda>fd d t w. (-1, w), HAL_SSL_Read = \<lambda>fd n t w. (-1, [], w),
      http_uptime = \<lambda>w. (0, w), http_malloc = \<lambda>n w. (True, w), char_signed = True\<rparr>"

definition demo_http_client :: httpclient_t where
  "demo_http_client =
     \<lparr>remote_port = 0, net = \<lparr>pHostAddress = [], port = 80, ca_crt_len = 0, ca_crt = None, handle = 3, ops_set = True\<rparr>,
      response_code = 0, header = Some [0x41], auth_user = None, auth_password = None\<rparr>"

definition demo_http_data :: "nat \<Rightarrow> bool \<Rightarrow> nat \<Rightarrow> httpclient_data_t" where
  "demo_http_data room chunked R =
     \<lparr>is_more = False, is_chunked = chunked, retrieve_len = int R, response_content_len = 0, post_buf_len = 0,
      response_buf_len = of_nat room + 1, post_content_type = None, post_buf = None, response_buf = Some (replicate (room + 1) 0)\<rparr>"

lemma demo_delivers: "p \<noteq> [] \<Longrightarrow> n \<noteq> 0 \<Longrightarrow> k > 0 \<Longrightarrow> delivers (\<lambda>w. w) p n (demo_read k n p)"
  by (cases p) (auto simp: delivers_def demo_read_def Let_def unat_gt_0 min_def)

lemma demo_serves: "k > 0 \<Longrightarrow> serves (demo_http response k) demo_http_client (\<lambda>w. w)"
  by (simp add: serves_def demo_http_def demo_http_client_def demo_delivers utils_net_read_def read_tcp_def)

lemma demo_room: "small room \<Longrightarrow> body_room (demo_http_data room chunked R) room (replicate (room + 1) 0)"
  by (simp add: body_room_def demo_http_data_def)

theorem chunk_end_lost_witness:
  "\<exists>d' w'. httpclient_retrieve_content (demo_http [] 2) demo_http_client (replicate 256 0) 0 1000 (demo_http_data 100 True 5)
     (literal ''hello'' @ crlf) = Some (ERROR_HTTP_UNRESOLVED_DNS, d', w')"
proof -
  have "small 100" "small 5" by (simp_all add: small_def)
  then show ?thesis
    using chunk_end_lost [OF demo_serves [of 2 "[]"] _ _ _ demo_room [of 100 True 5], of 5 "[]" "replicate 256 0" "literal ''hello'' @ crlf" 1000]
    by (simp add: demo_http_data_def literal_def)
qed

end
