(* ===== verification/Httpc_Exchange.thy ===== *)
theory Httpc_Exchange
  imports Httpc_Response
begin

text \<open>
  Whole exchanges of the HTTP client (Utils_Httpc) with a server for one file: the request as it goes
  out, the first part of the body with the response, and the following parts.
\<close>

section \<open>Requests\<close>

lemma get_info_appends:
  assumes "buf \<noteq> []" and "idx + length buf < 1024" and "length send_buf = 1024" and "n = 0 \<or> n = of_nat (length buf)"
  shows "httpclient_get_info e client buf n (idx, send_buf, w) =
           Some (0, idx + length buf, overwrite send_buf idx buf, w)"
proof -
  have sm: "small (length buf)" "small (1024 - idx)" "small 1024"
    using assms(2) by (auto simp: small_def)
  have n: "(if n = 0 then of_nat (length buf) else n) = of_nat (length buf)" using assms(4) by auto
  have le: "(of_nat (length buf) :: u32) \<le> of_nat (1024 - idx)"
    using u32_less [OF sm(2,1)] assms(2) by (simp add: not_less [symmetric] del: of_nat_diff)
  have loop: "get_info_loop e client send_buf idx buf (of_nat (length buf)) w =
      Some (0, overwrite send_buf idx buf, idx + length buf, w)"
    unfolding get_info_loop.simps [of e client send_buf] Let_def if_P [OF le] u32_unat [OF sm(1)]
    using assms(2,3) by (simp add: rd_bytes_def wr_bytes_def)
  show ?thesis by (simp add: httpclient_get_info_def n loop)
qed

text \<open>A plain request: no authorization, nothing to post, a header of the caller that fits.\<close>

definition plain_request :: "httpclient_t \<Rightarrow> bytes \<Rightarrow> httpclient_data_t \<Rightarrow> bytes \<Rightarrow> bytes \<Rightarrow> bytes \<Rightarrow> bytes \<Rightarrow> bool" where
  "plain_request client url d host path hdr scheme \<longleftrightarrow>
     auth_user client = None \<and> header client = Some hdr \<and> hdr \<noteq> [] \<and> length hdr \<le> 800 \<and> post_buf d = None \<and>
     httpclient_parse_url url 8 64 64 = Some (Inr (scheme, host, 0, path)) \<and> length host < 64 \<and> length path < 64"

definition request_text :: "HTTPCLIENT_REQUEST_TYPE \<Rightarrow> bytes \<Rightarrow> bytes \<Rightarrow> bytes \<Rightarrow> bytes" where
  "request_text m path host hdr =
     method_text m @ [0x20] @ path @ literal '' HTTP/1.1'' @ crlf @ literal ''Host: '' @ host @ crlf @ hdr @ crlf"

lemma length_method_text: "length (method_text m) \<le> 6"
  by (cases m) (simp_all add: method_text_def literal_def)

lemma request_line_plain:
  assumes "length host < 64" and "length path < 64"
  shows "request_line m path host = method_text m @ [0x20] @ path @ literal '' HTTP/1.1'' @ crlf @ literal ''Host: '' @ host @ crlf"
    and "length (request_line m path host) \<le> 200" and "request_line m path host \<noteq> []"
proof -
  let ?t = "method_text m @ [0x20] @ path @ literal '' HTTP/1.1'' @ crlf @ literal ''Host: '' @ host @ crlf"
  have l: "length ?t \<le> 200" using assms length_method_text [of m] by (simp add: literal_def)
  then show t: "request_line m path host = ?t" by (simp add: request_line_def)
  show "length (request_line m path host) \<le> 200" unfolding t by (rule l)
  show "request_line m path host \<noteq> []" unfolding t by simp
qed

lemma send_request_plain:
  assumes "plain_request client url d host path hdr scheme" and "ops_set (net client)"
  shows "send_request_text e client url m d w =
           (let (ret, w) = utils_net_write e (net client) (request_text m path host hdr) 5000 w
            in Some (write_result ret, w))"
proof -
  let ?l = "request_line m path host"
  have a: "auth_user client = None" "header client = Some hdr" "hdr \<noteq> []" "length hdr \<le> 800" "post_buf d = None"
    "httpclient_parse_url url 8 64 64 = Some (Inr (scheme, host, 0, path))" "length host < 64" "length path < 64"
    using assms(1) by (simp_all add: plain_request_def)
  note l = request_line_plain [OF a(7,8), of m]
  let ?b0 = "replicate 1024 (0 :: u8)"
  have 1: "httpclient_get_info e client ?l (of_nat (length ?l)) (0, ?b0, w) = Some (0, length ?l, overwrite ?b0 0 ?l, w)"
    using get_info_appends [of ?l 0 ?b0 "of_nat (length ?l)" e client w] l(2,3) by simp
  let ?b1 = "overwrite ?b0 0 ?l"
  have l1: "length ?b1 = 1024" using l(2) by simp
  have 2: "httpclient_get_info e client hdr (of_nat (length hdr)) (length ?l, ?b1, w) =
      Some (0, length ?l + length hdr, overwrite ?b1 (length ?l) hdr, w)"
    using l(2) a(3,4) l1 by (intro get_info_appends) simp_all
  have b2: "overwrite ?b1 (length ?l) hdr = overwrite ?b0 0 (?l @ hdr)"
    using overwrite_append [of 0 ?l ?b0 hdr] l(2) by simp
  have 3: "httpclient_get_info e client crlf 0 (length ?l + length hdr, overwrite ?b0 0 (?l @ hdr), w) =
      Some (0, length ?l + length hdr + 2, overwrite (overwrite ?b0 0 (?l @ hdr)) (length ?l + length hdr) crlf, w)"
    using get_info_appends [of crlf "length ?l + length hdr" "overwrite ?b0 0 (?l @ hdr)" 0 e client w] l(2) a(4) by simp
  have b3: "overwrite (overwrite ?b0 0 (?l @ hdr)) (length ?l + length hdr) crlf = overwrite ?b0 0 (?l @ hdr @ crlf)"
    using overwrite_append [of 0 "?l @ hdr" ?b0 crlf] l(2) a(4) by simp
  have t: "take (length ?l + length hdr + 2) (overwrite ?b0 0 (?l @ hdr @ crlf)) = request_text m path host hdr"
  proof -
    have n: "length ?l + length hdr + 2 = length (?l @ hdr @ crlf)" by simp
    have "?l @ hdr @ crlf = request_text m path host hdr" unfolding l(1) request_text_def by simp
    moreover have "take (length bs) (overwrite ?b0 0 bs) = bs" for bs :: bytes by (simp add: overwrite_def)
    ultimately show ?thesis unfolding n by metis
  qed
  show ?thesis
    unfolding send_request_text_def a(6) bind.bind_lunit sum.case prod.case Let_def 1 if_not_P [OF not_not [THEN iffD2, OF refl]]
    by (simp add: add_headers_def a append_text_def 2 b2 3 b3 t [unfolded add_2_eq_Suc'] net_write_op_def assms(2) split: prod.split)
qed

section \<open>Whole exchanges\<close>

text \<open>
  A server for one file: connecting starts the response, every write is taken and may append
  something to what is sent back, reads deliver it in pieces of any size, but the status line comes
  in one piece.
\<close>

definition at_least :: "nat \<Rightarrow> int \<times> bytes \<times> 'w \<Rightarrow> bool" where
  "at_least k r \<longleftrightarrow> (case r of (ret, bs, w') \<Rightarrow> k \<le> length bs)"

definition keeps :: "('w \<Rightarrow> bytes) \<Rightarrow> ('w \<Rightarrow> 'a \<times> 'w) \<Rightarrow> bool" where
  "keeps pending f \<longleftrightarrow> (\<forall>w. pending (snd (f w)) = pending w)"

definition http_server :: "('w, 'z) http_env_scheme \<Rightarrow> ('w \<Rightarrow> bytes) \<Rightarrow> bytes \<Rightarrow> bytes \<Rightarrow> bool" where
  "http_server e pending status response \<longleftrightarrow>
     (\<forall>host p w. fst (HAL_TCP_Establish e host p w) \<ge> 0 \<and> pending (snd (HAL_TCP_Establish e host p w)) = response) \<and>
     keeps pending (http_uptime e) \<and>
     (\<forall>n. keeps pending (http_malloc e n)) \<and> (\<forall>n w. fst (http_malloc e n w)) \<and>
     (\<forall>fd d t w. fst (HAL_TCP_Write e fd d t w) > 0 \<and> (\<exists>more. pending (snd (HAL_TCP_Write e fd d t w)) = pending w @ more)) \<and>
     (\<forall>fd n t w. pending w \<noteq> [] \<and> n \<noteq> 0 \<longrightarrow> delivers pending (pending w) n (HAL_TCP_Read e fd n t w)) \<and>
     (\<forall>fd t w. take (length status + 2) (pending w) = status @ crlf \<longrightarrow> at_least (length status + 2) (HAL_TCP_Read e fd 255 t w))"

definition client_open :: "httpclient_t \<Rightarrow> bool" where
  "client_open client \<longleftrightarrow> ops_set (net client) \<and> ca_crt (net client) = None \<and> handle (net client) \<ge> 0"

lemma http_server_serves:
  "http_server e pending status response \<Longrightarrow> client_open client \<Longrightarrow> serves e client pending"
  by (simp add: http_server_def serves_def client_open_def keeps_def utils_net_read_def read_tcp_def)

lemma alloc_all_ok:
  assumes "http_server e pending status response"
  shows "fst (alloc_all e ns w)" and "pending (snd (alloc_all e ns w)) = pending w"
  using assms
  by (induction ns arbitrary: w) (auto simp: http_server_def keeps_def Let_def split: prod.split; metis fst_conv snd_conv)+

text \<open>The request of a good exchange is written, the answer starts with what was pending.\<close>

lemma server_takes_request:
  assumes "http_server e pending status response" and "client_open client"
    and "plain_request client url d host path hdr scheme"
  shows "\<exists>w' more. httpclient_send_request e client url HTTPCLIENT_GET d w = Some (0, w') \<and> pending w' = pending w @ more"
proof -
  obtain ok w1 where 1: "alloc_all e [64, 64, 1024, 1024] w = (ok, w1)" by fastforce
  with alloc_all_ok [OF assms(1), of "[64, 64, 1024, 1024]" w] have ok: "ok" "pending w1 = pending w" by simp_all
  obtain r w2 where 2: "HAL_TCP_Write e (handle (net client)) (request_text HTTPCLIENT_GET path host hdr) 5000 w1 = (r, w2)" by fastforce
  with assms(1) have "r > 0" "\<exists>more. pending w2 = pending w1 @ more" unfolding http_server_def by (metis fst_conv, metis snd_conv)
  then show ?thesis
    using 1 2 ok assms(2) send_request_plain [OF assms(3), of e HTTPCLIENT_GET w1]
    by (auto simp: httpclient_send_request_def httpclient_send_header_def client_open_def utils_net_write_def write_tcp_def write_result_def
        simp del: alloc_all.simps)
qed

lemma first_piece:
  assumes "http_server e pending status response" and "client_open client"
    and "take (length status + 2) (pending w) = status @ crlf" and "length buf = 256"
  shows "\<exists>bs w'. recv_before e client timer buf 0 255 w = Some (0, int (length bs), overwrite buf 0 bs, w') \<and>
           length status + 2 \<le> length bs \<and> length bs \<le> 255 \<and> pending w = bs @ pending w'"
proof -
  note sv = http_server_serves [OF assms(1,2)]
  obtain l w1 where 1: "http_left e timer w = (l, w1)" by fastforce
  obtain t w2 where 2: "http_countdown e l w1 = (t, w2)" by fastforce
  obtain l' w3 where 3: "http_left e t w2 = (l', w3)" by fastforce
  have p: "pending w3 = pending w"
    using serves_timers(2) [OF sv, of timer w] serves_timers(1) [OF sv, of l w1] serves_timers(2) [OF sv, of t w2] 1 2 3 by simp
  obtain ret bs w4 where 4: "HAL_TCP_Read e (handle (net client)) 255 l' w3 = (ret, bs, w4)" using prod_cases3 by blast
  have "pending w3 \<noteq> []" using assms(3) p by auto
  moreover have "(255 :: u32) \<noteq> 0" by simp
  ultimately have "delivers pending (pending w3) 255 (HAL_TCP_Read e (handle (net client)) 255 l' w3)"
    using assms(1) unfolding http_server_def by blast
  with 4 have d: "bs \<noteq> []" "length bs \<le> 255" "ret = int (length bs)" "pending w = bs @ pending w4"
    by (simp_all add: delivers_def p)
  have "at_least (length status + 2) (HAL_TCP_Read e (handle (net client)) 255 l' w3)"
    using assms(1,3) p unfolding http_server_def by metis
  with 4 have a: "length status + 2 \<le> length bs" by (simp add: at_least_def)
  have "recv_before e client timer buf 0 255 w = Some (0, int (length bs), overwrite buf 0 bs, w4)"
    using 1 2 3 4 d assms(2,4)
    by (simp add: recv_before_def httpclient_recv_def net_read_op_def client_open_def utils_net_read_def read_tcp_def wr_bytes_def)
  with a d show ?thesis by blast
qed

lemma recv_response_first:
  assumes "http_server e pending status response" and "client_open client" and "response_head status code ls N"
    and "pending w = status @ crlf @ head_text ls @ body" and "N \<le> length body"
    and "body_room d room buf" and "255 \<le> room" and "\<not> is_more d"
  shows "\<exists>w'. httpclient_recv_response e client timeout_ms d w =
      Some (if N < room then 0 else 1, client\<lparr>response_code := code\<rparr>,
            received N room buf body (d\<lparr>response_content_len := of_nat N, is_chunked := False\<rparr>), w') \<and>
      (room \<le> N \<longrightarrow> pending w' = drop room body)"
proof -
  note sv = http_server_serves [OF assms(1,2)]
  obtain t w1 where 1: "http_countdown e timeout_ms w = (t, w1)" by fastforce
  have p1: "pending w1 = pending w" using serves_timers(1) [OF sv, of timeout_ms w] 1 by simp
  let ?d = "d\<lparr>is_more := True\<rparr>"
  let ?buf = "replicate 256 (0 :: u8)"
  from first_piece [OF assms(1,2), of w1 ?buf t] assms(4) p1
  obtain bs w2 where 2: "recv_before e client t ?buf 0 255 w1 = Some (0, int (length bs), overwrite ?buf 0 bs, w2)"
    and bs: "length status + 2 \<le> length bs" "length bs \<le> 255" "pending w = bs @ pending w2"
    by auto
  have "bs @ pending w2 = status @ 0x0D # 0x0A # head_text ls @ body" using assms(4) bs(3) by simp
  moreover have "line_ok status" using assms(3) by (simp add: response_head_def)
  ultimately obtain ys where ys: "bs = status @ crlf @ ys" "ys @ pending w2 = head_text ls @ body"
    using front_line [OF _ _ bs(1), of "pending w2" "head_text ls @ body"] by auto
  define rest where "rest = replicate (255 - length bs) (0 :: u8)"
  have "replicate (256 - length bs) (0 :: u8) = 0 # rest"
    using bs(2) by (simp add: rest_def Suc_diff_le [symmetric] replicate_Suc [symmetric] del: replicate_Suc)
  then have ob: "overwrite ?buf 0 bs = bs @ 0 # rest" by (simp add: overwrite_def)
  have l: "length (bs @ 0 # rest) = 256" using bs(2) by (simp add: rest_def)
  have wr: "wr (overwrite ?buf 0 bs) (nat (int (length bs))) 0 = Some (bs @ 0 # rest)"
    unfolding ob nat_int by (simp add: wr_def list_update_append)
  obtain lft w3 where 3: "http_left e t w2 = (lft, w3)" by fastforce
  then have p3: "pending w3 = pending w2" using serves_timers(2) [OF sv, of t w2] by simp
  have room: "body_room ?d room buf" using assms(6) by (simp add: body_room_def)
  have "length ((status @ crlf @ ys) @ 0 # rest) = 256" using l ys(1) by simp
  from response_parse_counted [OF sv assms(3) _ assms(5) this room assms(7), of w3 lft] ys p3
  obtain w4 where 4: "httpclient_response_parse e client (bs @ 0 # rest) (int (length bs)) lft ?d w3 =
      Some (if N < room then 0 else 1, client\<lparr>response_code := code\<rparr>,
            received N room buf body (?d\<lparr>response_content_len := of_nat N, is_chunked := False\<rparr>), w4)"
    "room \<le> N \<longrightarrow> pending w4 = drop room body"
    unfolding ys(1) by auto
  have h: "\<not> handle (net client) < 0" using assms(2) by (simp add: client_open_def)
  have m: "\<not> is_more d" by (rule assms(8))
  have z: "int (length bs) \<noteq> 0" using bs(1) by auto
  have "httpclient_recv_response e client timeout_ms d w =
      Some (if N < room then 0 else 1, client\<lparr>response_code := code\<rparr>,
            received N room buf body (?d\<lparr>response_content_len := of_nat N, is_chunked := False\<rparr>), w4)"
    unfolding httpclient_recv_response_def 1 prod.case Let_def if_not_P [OF h] if_not_P [OF m] 2 bind.bind_lunit
      if_not_P [OF not_not [THEN iffD2, OF refl]] wr if_P [OF z] 3 4(1) ..
  then show ?thesis using 4(2) by (auto simp: received_def)
qed

text \<open>The connection is kept, and what is left of the body read, as long as more is to come.\<close>

lemma recv_response_next:
  assumes "http_server e pending status response" and "client_open client"
    and "pending w = body" and "N \<le> length body" and "retrieve_len d = int N" and "small N"
    and "body_room d room buf" and "is_more d" and "\<not> is_chunked d" and "response_content_len d \<noteq> - 1" and "0 < room"
  shows "\<exists>w'. httpclient_recv_response e client timeout_ms d w =
      Some (if N < room then 0 else 1, client, received N room (buf[0 := 0]) body d, w') \<and>
      pending w' = drop (min N room) body"
proof -
  note sv = http_server_serves [OF assms(1,2)]
  obtain t w1 where 1: "http_countdown e timeout_ms w = (t, w1)" by fastforce
  obtain lft w2 where 2: "http_left e t w1 = (lft, w2)" by fastforce
  have p2: "pending w2 = pending w" using serves_timers(1) [OF sv, of timeout_ms w] serves_timers(2) [OF sv, of t w1] 1 2 by simp
  have b: "response_buf d = Some buf" "room < length buf" using assms(7) by (simp_all add: body_room_def)
  have b0: "0 < length buf" using b(2) by linarith
  let ?d = "d\<lparr>response_buf := Some (buf[0 := 0])\<rparr>"
  have put: "put_response d 0 [0] = Some ?d"
    using put_response_some [OF b(1), of 0 "[0]"] b(2) overwrite_single [OF b0, of 0] by simp
  have room: "body_room ?d room (buf[0 := 0])" using assms(7) by (simp add: body_room_def)
  from retrieve_content_counted [OF sv _ _ _ assms(6) room, of "[]" "replicate 256 0" w2 lft] assms p2
  obtain w3 where 3: "httpclient_retrieve_content e client (replicate 256 0) 0 lft ?d w2 =
      Some (if N < room then 0 else 1, received N room (buf[0 := 0]) body ?d, w3)" "pending w3 = drop (min N room) body"
    by (auto simp: received_def)
  have h: "\<not> handle (net client) < 0" using assms(2) by (simp add: client_open_def)
  have "httpclient_recv_response e client timeout_ms d w =
      Some (if N < room then 0 else 1, client, received N room (buf[0 := 0]) body ?d, w3)"
    unfolding httpclient_recv_response_def 1 prod.case Let_def if_not_P [OF h] if_P [OF assms(8)] put bind.bind_lunit 2 3(1) ..
  then show ?thesis using 3(2) by (auto simp: received_def)
qed

text \<open>The URLs that can be parsed, and their parts.\<close>

lemma parsed_url:
  assumes "httpclient_parse_url url 8 64 64 = Some (Inr (scheme, host, prt, path))"
  shows "httpclient_parse_host url 64 = Some (Inr host)" and "prt = 0" and "length host < 64" and "length path < 64"
proof -
  from assms have "httpclient_parse_host url 64 = Some (Inr host) \<and> prt = 0 \<and> length host < 64 \<and> length path < 64"
    by (auto simp: httpclient_parse_url_def httpclient_parse_host_def Let_def dest: rd_bytes_length
        split: option.splits if_splits bind_splits)
  then show "httpclient_parse_host url 64 = Some (Inr host)" and "prt = 0" and "length host < 64" and "length path < 64" by simp_all
qed

definition same_request :: "httpclient_t \<Rightarrow> httpclient_t \<Rightarrow> bool" where
  "same_request c c' \<longleftrightarrow> header c' = header c \<and> auth_user c' = auth_user c"

lemma plain_request_same: "same_request c c' \<Longrightarrow> plain_request c' url d host path hdr scheme = plain_request c url d host path hdr scheme"
  by (simp add: same_request_def plain_request_def)

lemma establish_open:
  assumes "http_server e pending status response" and "httpclient_parse_host url 64 = Some h"
  shows "\<exists>client' w'. establish e url prt None client w = Some (0, client', w') \<and>
           client_open client' \<and> same_request client client' \<and> pending w' = response"
proof -
  let ?host = "case h of Inl _ \<Rightarrow> [] | Inr host \<Rightarrow> host"
  obtain fd w1 where 1: "HAL_TCP_Establish e ?host prt w = (fd, w1)" by fastforce
  with assms(1) have "fd \<ge> 0" "pending w1 = response" unfolding http_server_def by (metis fst_conv, metis snd_conv)
  then show ?thesis
    using 1 by (simp add: establish_def assms(2) iotx_net_init_def httpclient_connect_def httpclient_conn_def
        iotx_net_connect_def connect_tcp_def client_open_def same_request_def)
qed

lemma close_closed:
  assumes "ops_set (net client)"
  shows "\<exists>client' w'. httpclient_close e client w = Some (client', w') \<and> handle (net client') < 0 \<and> same_request client client'"
  using assms by (cases "iotx_net_disconnect e (net client) w") (auto simp: httpclient_close_def same_request_def)

lemma common_first:
  assumes "http_server e pending status (status @ crlf @ head_text ls @ body)" and "response_head status code ls N"
    and "N \<le> length body" and "body_room d room buf" and "255 \<le> room" and "\<not> is_more d"
    and "handle (net client) < 0" and "plain_request client url d host path hdr scheme" and "httpclient_parse_host url 64 = Some h"
  shows "\<exists>client' w'. httpclient_common e client url prt None HTTPCLIENT_GET timeout_ms d w =
      Some (0, client', received N room buf body (d\<lparr>response_content_len := of_nat N, is_chunked := False\<rparr>), w') \<and>
      same_request client client' \<and>
      (if N < room then handle (net client') < 0 else client_open client' \<and> (\<exists>more. pending w' = drop room body @ more))"
proof -
  obtain c1 w1 where 1: "establish e url prt None client w = Some (0, c1, w1)" "client_open c1" "same_request client c1"
    "pending w1 = status @ crlf @ head_text ls @ body"
    using establish_open [OF assms(1,9), of prt client w] by blast
  have plain: "plain_request c1 url d host path hdr scheme" using assms(8) plain_request_same [OF 1(3)] by simp
  obtain w2 more where 2: "httpclient_send_request e c1 url HTTPCLIENT_GET d w1 = Some (0, w2)" "pending w2 = pending w1 @ more"
    using server_takes_request [OF assms(1) 1(2) plain] by blast
  obtain t w3 where 3: "http_countdown e timeout_ms w2 = (t, w3)" by fastforce
  obtain l w4 where 4: "http_left e t w3 = (l, w4)" by fastforce
  note sv = http_server_serves [OF assms(1) 1(2)]
  have "pending w4 = pending w2" using serves_timers(1) [OF sv, of timeout_ms w2] serves_timers(2) [OF sv, of t w3] 3 4 by simp
  then have p: "pending w4 = status @ crlf @ head_text ls @ body @ more" using 2(2) 1(4) by simp
  have "N \<le> length (body @ more)" using assms(3) by simp
  from recv_response_first [OF assms(1) 1(2) assms(2) p this assms(4,5,6), of l]
  obtain w5 where 5: "httpclient_recv_response e c1 l d w4 = Some (if N < room then 0 else 1, c1\<lparr>response_code := code\<rparr>,
      received N room buf (body @ more) (d\<lparr>response_content_len := of_nat N, is_chunked := False\<rparr>), w5)"
    "room \<le> N \<longrightarrow> pending w5 = drop room (body @ more)" by blast
  have tk: "received N room buf (body @ more) = received N room buf body"
    using assms(3) by (simp add: received_def fun_eq_iff)
  let ?d = "received N room buf body (d\<lparr>response_content_len := of_nat N, is_chunked := False\<rparr>)"
  let ?c = "c1\<lparr>response_code := code\<rparr>"
  have same: "same_request client ?c" using 1(3) by (simp add: same_request_def)
  have rb: "response_buf d \<noteq> None" using assms(4) by (simp add: body_room_def)
  have more: "is_more ?d = (\<not> N < room)" by (simp add: received_def)
  have pre: "httpclient_common e client url prt None HTTPCLIENT_GET timeout_ms d w = do {
      (client, w) \<leftarrow> (if \<not> is_more ?d then httpclient_close e ?c w5 else Some (?c, w5));
      Some (0, client, ?d, w) }"
    using assms(7) rb by (simp add: httpclient_common_def 1(1) 2(1) 3 4 5(1) tk)
  show ?thesis
  proof (cases "N < room")
    case True
    have ops: "ops_set (net ?c)" using 1(2) by (simp add: client_open_def)
    obtain c' w' where "httpclient_close e ?c w5 = Some (c', w')" "handle (net c') < 0" "same_request ?c c'"
      using close_closed [OF ops, of e w5] by (elim exE conjE) (rule that)
    with True same show ?thesis unfolding pre more by (auto simp: same_request_def)
  next
    case False
    then have "pending w5 = drop room body @ drop (room - length body) more" using 5(2) by simp
    moreover have "client_open ?c" using 1(2) by (simp add: client_open_def)
    ultimately show ?thesis using False same unfolding pre more by auto
  qed
qed

lemma common_next:
  assumes "http_server e pending status response" and "client_open client"
    and "pending w = body @ more0" and "N \<le> length body" and "retrieve_len d = int N" and "small N"
    and "body_room d room buf" and "is_more d" and "\<not> is_chunked d" and "response_content_len d \<noteq> - 1" and "0 < room"
    and "plain_request client url d host path hdr scheme"
  shows "\<exists>client' w'. httpclient_common e client url prt None HTTPCLIENT_GET timeout_ms d w =
      Some (0, client', received N room (buf[0 := 0]) body d, w') \<and>
      same_request client client' \<and>
      (if N < room then handle (net client') < 0 else client_open client' \<and> (\<exists>more. pending w' = drop room body @ more))"
proof -
  obtain w2 more where 2: "httpclient_send_request e client url HTTPCLIENT_GET d w = Some (0, w2)" "pending w2 = pending w @ more"
    using server_takes_request [OF assms(1,2,12)] by blast
  obtain t w3 where 3: "http_countdown e timeout_ms w2 = (t, w3)" by fastforce
  obtain l w4 where 4: "http_left e t w3 = (l, w4)" by fastforce
  note sv = http_server_serves [OF assms(1,2)]
  have "pending w4 = pending w2" using serves_timers(1) [OF sv, of timeout_ms w2] serves_timers(2) [OF sv, of t w3] 3 4 by simp
  then have p: "pending w4 = body @ more0 @ more" using 2(2) assms(3) by simp
  have "N \<le> length (body @ more0 @ more)" using assms(4) by simp
  from recv_response_next [OF assms(1,2) p this assms(5-11), of l]
  obtain w5 where 5: "httpclient_recv_response e client l d w4 = Some (if N < room then 0 else 1, client,
      received N room (buf[0 := 0]) (body @ more0 @ more) d, w5)"
    "pending w5 = drop (min N room) (body @ more0 @ more)" by blast
  have tk: "received N room (buf[0 := 0]) (body @ more0 @ more) = received N room (buf[0 := 0]) body"
    using assms(4) by (simp add: received_def fun_eq_iff)
  let ?d = "received N room (buf[0 := 0]) body d"
  have same: "same_request client client" by (simp add: same_request_def)
  have rb: "response_buf d \<noteq> None" using assms(7) by (simp add: body_room_def)
  have more: "is_more ?d = (\<not> N < room)" by (simp add: received_def)
  have h: "\<not> handle (net client) < 0" using assms(2) by (simp add: client_open_def)
  have pre: "httpclient_common e client url prt None HTTPCLIENT_GET timeout_ms d w = do {
      (client, w) \<leftarrow> (if \<not> is_more ?d then httpclient_close e client w5 else Some (client, w5));
      Some (0, client, ?d, w) }"
    using h rb by (simp add: httpclient_common_def 2(1) 3 4 5(1) tk)
  show ?thesis
  proof (cases "N < room")
    case True
    have ops: "ops_set (net client)" using assms(2) by (simp add: client_open_def)
    obtain c' w' where "httpclient_close e client w5 = Some (c', w')" "handle (net c') < 0" "same_request client c'"
      using close_closed [OF ops, of e w5] by (elim exE conjE) (rule that)
    with True show ?thesis unfolding pre more by auto
  next
    case False
    then have "pending w5 = drop room body @ drop (room - length body) (more0 @ more)" using 5(2) by simp
    then show ?thesis using False same assms(2) unfolding pre more by auto
  qed
qed

end
