(* ===== verification/Cloud_Ota.thy ===== *)
theory Cloud_Ota
  imports Httpc_Exchange Comm_Manager Digest_Hmac
begin

text \<open>
  Firmware updates: sdk/cloud/otaupdate/iotx_ota_api.c over the HTTP client (Utils_Httpc), MD5
  (Digest_Md5) and the connection manager (Comm_Manager). The file is fetched in pieces of at most
  1499 bytes, every piece goes to the progress callback of the application and into the digest, and
  the file is accepted when its digest is the announced one.

  The platform of the HTTP client, the back end of the manager and the callback are the record \<open>e\<close>.
  \<open>progress_calls\<close> is the history of the calls of the callback with the data and the two sizes. The
  callback does not call back into the module. Memory sizes are those of a 32-bit platform.
\<close>

section \<open>Data\<close>

datatype IOT_OTA_State_t = IOT_OTAS_UNINITED | IOT_OTAS_INITED | IOT_OTAS_FETCHING | IOT_OTAS_FETCHED

abbreviation (input) IOT_OTAE_CHECK_FAILED :: int where "IOT_OTAE_CHECK_FAILED \<equiv> -5"
abbreviation (input) IOT_OTAE_FETCH_FAILED :: int where "IOT_OTAE_FETCH_FAILED \<equiv> -4"
abbreviation (input) IOT_OTAE_INVALID_STATE :: int where "IOT_OTAE_INVALID_STATE \<equiv> -3"
abbreviation (input) IOT_OTAE_INVALID_PARAM :: int where "IOT_OTAE_INVALID_PARAM \<equiv> -2"
abbreviation (input) IOT_OTAE_NONE :: int where "IOT_OTAE_NONE \<equiv> 0"

record otahttp_Struct_t =
  ofc_url :: bytes
  http :: httpclient_t
  http_data :: httpclient_data_t

record OTA_Struct_t =
  ota_state :: IOT_OTA_State_t
  type_file :: u8
  purl :: bytes
  pmd5 :: bytes
  size_last_fetched :: u32
  size_fetched :: u32
  size_file :: u32
  err :: int
  md5_handle :: iot_md5_context
  ch_fetch :: otahttp_Struct_t
  progress_cb :: nat
  progress_calls :: "(bytes option \<times> u32 \<times> u32) list"

record 'w ota_env =
  ota_http :: "'w http_env"
  ota_comm :: "'w comm_env"
  call_progress :: "nat \<Rightarrow> bytes option \<Rightarrow> u32 \<Rightarrow> u32 \<Rightarrow> 'w \<Rightarrow> 'w"

section \<open>The digest and the download channel\<close>

definition otalib_MD5Init :: "'w ota_env \<Rightarrow> 'w \<Rightarrow> iot_md5_context option \<times> 'w" where
  "otalib_MD5Init e w =
     (let (ok, w) = http_malloc (ota_http e) 88 w
      in (if ok then Some (utils_md5_starts utils_md5_init) else None, w))"

definition otalib_MD5Update :: "iot_md5_context \<Rightarrow> bytes \<Rightarrow> nat \<Rightarrow> iot_md5_context option" where
  "otalib_MD5Update md5h buf buf_len = utils_md5_update md5h buf buf_len"

text \<open>The text in the 33 bytes of \<open>output_str\<close>, with its end.\<close>

definition otalib_MD5Finalize :: "iot_md5_context \<Rightarrow> bytes \<Rightarrow> (iot_md5_context \<times> bytes) option" where
  "otalib_MD5Finalize md5h output_str = do {
     (md5h, buf_out) \<leftarrow> utils_md5_finish md5h;
     output_str \<leftarrow> hex_digest 16 buf_out output_str;
     output_str \<leftarrow> wr output_str 32 0;
     Some (md5h, output_str) }"

definition ota_header :: bytes where
  "ota_header =
     literal ''Accept: text/html,application/xhtml+xml,application/xml;q=0.9,*/*;q=0.8'' @ crlf @
     literal ''Accept-Encoding: gzip, deflate'' @ crlf"

definition ofc_Init :: "'w ota_env \<Rightarrow> bytes \<Rightarrow> 'w \<Rightarrow> otahttp_Struct_t option \<times> 'w" where
  "ofc_Init e url w =
     (let (ok, w) = http_malloc (ota_http e) 92 w;
          zero = \<lparr>remote_port = 0,
                  net = \<lparr>pHostAddress = [], port = 0, ca_crt_len = 0, ca_crt = None, handle = 0, ops_set = False\<rparr>,
                  response_code = 0, header = None, auth_user = None, auth_password = None\<rparr>;
          no_data = \<lparr>is_more = False, is_chunked = False, retrieve_len = 0, response_content_len = 0, post_buf_len = 0,
                     response_buf_len = 0, post_content_type = None, post_buf = None, response_buf = None\<rparr>;
          client = the (snd (httpclient_init (Some zero)))
      in (if ok then Some \<lparr>ofc_url = url, http = client\<lparr>header := Some ota_header\<rparr>, http_data = no_data\<rparr> else None, w))"

text \<open>The result, the channel and the content of \<open>buf\<close>.\<close>

definition ofc_Fetch ::
    "'w ota_env \<Rightarrow> otahttp_Struct_t \<Rightarrow> bytes \<Rightarrow> u32 \<Rightarrow> u32 \<Rightarrow> 'w \<Rightarrow> (int \<times> bytes \<times> otahttp_Struct_t \<times> 'w) option" where
  "ofc_Fetch e h_odc buf buf_len timeout_s w = do {
     let d = (http_data h_odc)\<lparr>response_buf := Some buf, response_buf_len := buf_len\<rparr>;
     let diff = response_content_len d - u32_of (retrieve_len d);
     (ret, client, d, w) \<leftarrow> httpclient_common (ota_http e) (http h_odc) (ofc_url h_odc) 80 None HTTPCLIENT_GET (timeout_s * 1000) d w;
     buf \<leftarrow> response_buf d;
     let h_odc = h_odc\<lparr>http := client, http_data := d\<rparr>;
     Some (if ret \<noteq> 0 then -1 else sint (response_content_len d - u32_of (retrieve_len d) - diff), buf, h_odc, w) }"

section \<open>The module\<close>

text \<open>
  The parameter \<open>fileType\<close> is only logged. After a failure everything allocated before is freed.
\<close>

definition IOT_OTA_Init :: "'w ota_env \<Rightarrow> u8 \<Rightarrow> bytes option \<Rightarrow> bytes option \<Rightarrow> u32 \<Rightarrow> 'w \<Rightarrow> OTA_Struct_t option \<times> 'w" where
  "IOT_OTA_Init e fileType url md5sum filesize w =
     (case (url, md5sum) of
        (Some url, Some md5sum) \<Rightarrow>
          (let (ok, w) = alloc_all (ota_http e) [44, length url + 1, length md5sum + 1] w in
           if \<not> ok then (None, w)
           else case otalib_MD5Init e w of
             (None, w) \<Rightarrow> (None, w)
           | (Some ctx, w) \<Rightarrow>
               (case ofc_Init e url w of
                  (None, w) \<Rightarrow> (None, w)
                | (Some ch, w) \<Rightarrow>
                    (Some \<lparr>ota_state = IOT_OTAS_INITED, type_file = 0, purl = url, pmd5 = md5sum, size_last_fetched = 0,
                           size_fetched = 0, size_file = filesize, err = 0, md5_handle = ctx, ch_fetch = ch,
                           progress_cb = 0, progress_calls = []\<rparr>, w)))
      | _ \<Rightarrow> (None, w))"

text \<open>The module's memory is freed exactly when the result is 0; then the handle is gone.\<close>

definition IOT_OTA_Deinit :: "OTA_Struct_t option \<Rightarrow> int \<times> OTA_Struct_t option" where
  "IOT_OTA_Deinit h_ota =
     (case h_ota of
        None \<Rightarrow> (IOT_OTAE_INVALID_PARAM, None)
      | Some h \<Rightarrow>
          if ota_state h = IOT_OTAS_UNINITED then (-1, Some (h\<lparr>err := IOT_OTAE_INVALID_STATE\<rparr>))
          else (0, None))"

definition IOT_OTA_SetProgressCallback :: "nat \<Rightarrow> OTA_Struct_t option \<Rightarrow> int \<times> OTA_Struct_t option" where
  "IOT_OTA_SetProgressCallback f h_ota =
     (case h_ota of
        None \<Rightarrow> (IOT_OTAE_INVALID_PARAM, None)
      | Some h \<Rightarrow>
          if ota_state h = IOT_OTAS_UNINITED then (-1, Some (h\<lparr>err := IOT_OTAE_INVALID_STATE\<rparr>))
          else (0, Some (h\<lparr>progress_cb := f\<rparr>)))"

definition IOT_OTA_ReportProgress ::
    "'w ota_env \<Rightarrow> OTA_Struct_t option \<Rightarrow> iotx_ota_reply_t \<Rightarrow> u8 \<Rightarrow> 'w comm \<Rightarrow> (int \<times> OTA_Struct_t option \<times> 'w comm) option" where
  "IOT_OTA_ReportProgress e h_ota reply progress c =
     (case h_ota of
        None \<Rightarrow> Some (IOT_OTAE_INVALID_PARAM, None, c)
      | Some h \<Rightarrow>
          if ota_state h = IOT_OTAS_UNINITED then Some (-1, Some (h\<lparr>err := IOT_OTAE_INVALID_STATE\<rparr>), c)
          else do { (rst, c) \<leftarrow> IOT_Comm_SendActionReply (ota_comm e) (type_file h) reply progress c; Some (rst, Some h, c) })"

definition IOT_OTA_GetLastError :: "OTA_Struct_t option \<Rightarrow> int" where
  "IOT_OTA_GetLastError h_ota = (case h_ota of None \<Rightarrow> IOT_OTAE_INVALID_PARAM | Some h \<Rightarrow> err h)"

text \<open>A call of the callback; a \<open>NULL\<close> callback is called like any other.\<close>

definition progress :: "'w ota_env \<Rightarrow> bytes option \<Rightarrow> u32 \<Rightarrow> OTA_Struct_t \<Rightarrow> 'w comm \<Rightarrow> (OTA_Struct_t \<times> 'w comm) option" where
  "progress e data currentSize h c =
     (if progress_cb h = 0 then None
      else case c of (s, w) \<Rightarrow>
        Some (h\<lparr>progress_calls := progress_calls h @ [(data, currentSize, size_file h)]\<rparr>,
              (s, call_progress e (progress_cb h) data currentSize (size_file h) w)))"

text \<open>The digest of everything fetched against the announced one.\<close>

definition ota_check :: "OTA_Struct_t \<Rightarrow> (bool \<times> OTA_Struct_t) option" where
  "ota_check h = do {
     (md5h, md5_str) \<leftarrow> otalib_MD5Finalize (md5_handle h) (replicate 33 0);
     s \<leftarrow> cstring md5_str;
     let ok = (pmd5 h = s);
     Some (ok, h\<lparr>md5_handle := md5h, err := (if ok then IOT_OTAE_NONE else IOT_OTAE_CHECK_FAILED), ota_state := IOT_OTAS_FETCHED\<rparr>) }"

text \<open>\<open>ret\<close> bytes were fetched: a first report without data, the sizes, the digest, the report.\<close>

definition ota_take :: "'w ota_env \<Rightarrow> int \<Rightarrow> bytes \<Rightarrow> OTA_Struct_t \<Rightarrow> 'w comm \<Rightarrow> (OTA_Struct_t \<times> 'w comm) option" where
  "ota_take e ret buf h c = do {
     (h, c) \<leftarrow> (if size_fetched h = 0 then progress e None 0 h c else Some (h, c));
     let h = h\<lparr>size_last_fetched := u32_of ret, size_fetched := size_fetched h + u32_of ret\<rparr>;
     md5h \<leftarrow> otalib_MD5Update (md5_handle h) buf (nat ret);
     let h = h\<lparr>md5_handle := md5h\<rparr>;
     data \<leftarrow> rd_bytes buf 0 (nat ret);
     progress e (Some data) (size_fetched h) h c }"

partial_function (option) ota_update_loop ::
    "'w ota_env \<Rightarrow> OTA_Struct_t \<Rightarrow> bytes \<Rightarrow> 'w comm \<Rightarrow> (bool \<times> OTA_Struct_t \<times> 'w comm) option" where
  "ota_update_loop e h buf c = do {
     (ret, buf, ch, w) \<leftarrow> ofc_Fetch e (ch_fetch h) buf 1500 1 (snd c);
     let h = h\<lparr>ch_fetch := ch\<rparr>;
     let c = (fst c, w);
     if ret < 0 then Some (False, h\<lparr>ota_state := IOT_OTAS_FETCHED, err := IOT_OTAE_FETCH_FAILED\<rparr>, c)
     else do {
       (h, c) \<leftarrow> ota_take e ret buf h c;
       if size_fetched h \<ge> size_file h then do { (ok, h) \<leftarrow> ota_check h; Some (ok, h, c) }
       else do {
         (_, c) \<leftarrow> IOT_Comm_Yield (ota_comm e) c;
         ota_update_loop e h buf c } } }"

text \<open>\<open>buf\<close> is what the array holds at the start.\<close>

definition IOT_OTA_Update :: "'w ota_env \<Rightarrow> OTA_Struct_t option \<Rightarrow> bytes \<Rightarrow> 'w comm \<Rightarrow> (bool \<times> OTA_Struct_t option \<times> 'w comm) option" where
  "IOT_OTA_Update e h_ota buf c = do {
     (ok, h_ota, c) \<leftarrow> (case h_ota of
        None \<Rightarrow> Some (False, None, c)
      | Some h \<Rightarrow> do { (ok, h, c) \<leftarrow> ota_update_loop e h buf c; Some (ok, Some h, c) });
     (_, h_ota, c) \<leftarrow> IOT_OTA_ReportProgress e h_ota (if ok then IOTX_OTA_REPLY_FETCH_SUCCESS else IOTX_OTA_REPLY_FETCH_FAILED) 0 c;
     Some (ok, h_ota, c) }"

section \<open>What is accepted\<close>

text \<open>The bytes the application was given.\<close>

definition burned :: "(bytes option \<times> u32 \<times> u32) list \<Rightarrow> bytes" where
  "burned cs = concat (map (\<lambda>(d, _). case d of None \<Rightarrow> [] | Some b \<Rightarrow> b) cs)"

lemma burned_append [simp]: "burned (xs @ ys) = burned xs @ burned ys"
  by (simp add: burned_def)

lemma burned_Cons [simp]: "burned ((d, n) # cs) = (case d of None \<Rightarrow> [] | Some b \<Rightarrow> b) @ burned cs"
  by (simp add: burned_def)

lemma burned_Nil [simp]: "burned [] = []"
  by (simp add: burned_def)

lemma progress_some:
  assumes "progress e d n h c = Some (h', c')"
  shows "h' = h\<lparr>progress_calls := progress_calls h @ [(d, n, size_file h)]\<rparr>"
  using assms by (auto simp: progress_def split: if_splits prod.splits)

lemma ofc_Fetch_bound: "ofc_Fetch e ch buf n t w = Some (ret, buf', ch', w') \<Longrightarrow> ret < 2 ^ 32"
proof -
  assume "ofc_Fetch e ch buf n t w = Some (ret, buf', ch', w')"
  then have "ret = -1 \<or> (\<exists>x :: u32. ret = sint x)"
    by (auto simp: ofc_Fetch_def Let_def split: bind_splits if_splits)
  moreover have "sint (x :: u32) < 2 ^ 31" for x using sint_lt [of x] by simp
  ultimately have "ret < 2 ^ 31" by (elim disjE exE) simp_all
  then show "ret < 2 ^ 32" by simp
qed

lemma hex_no_zero: "0 \<notin> set (hex bs)"
proof -
  have "hex_digit n \<noteq> 0" if "n < 16" for n
  proof -
    have "list_all (\<lambda>n. hex_digit n \<noteq> 0) [0..<16]" by code_simp
    with that show ?thesis by (simp add: list_all_iff)
  qed
  moreover have "unat (b :: u8) div 16 < 16" for b using unsigned_less [of b, where ?'a = nat] by simp
  ultimately show ?thesis by (auto simp: hex_def)
qed

lemma ota_length_md5 [simp]: "length (md5 m) = 16"
  by (simp add: md5_def little_endian_def split: prod.split)

lemma finalize_digest:
  assumes "md5_context ctx m"
  shows "\<exists>ctx'. otalib_MD5Finalize ctx (replicate 33 0) = Some (ctx', hex (md5 m) @ [0])"
proof -
  obtain ctx' where f: "utils_md5_finish ctx = Some (ctx', md5 m)" using md5_finish_digest [OF assms] by auto
  have "hex_digest 16 (md5 m) (replicate 33 0) = Some (hex (md5 m) @ [0])"
    by (subst hex_digest_eq) (simp_all add: numeral_eq_Suc)
  moreover have "wr (hex (md5 m) @ [0]) 32 0 = Some (hex (md5 m) @ [0])"
    by (simp add: wr_def list_update_append)
  ultimately show ?thesis using f by (simp add: otalib_MD5Finalize_def)
qed

lemma ota_check_digest:
  assumes "md5_context (md5_handle h) m"
  shows "\<exists>ctx. ota_check h = Some (pmd5 h = hex (md5 m),
           h\<lparr>md5_handle := ctx, err := (if pmd5 h = hex (md5 m) then 0 else -5), ota_state := IOT_OTAS_FETCHED\<rparr>)"
proof -
  obtain ctx where "otalib_MD5Finalize (md5_handle h) (replicate 33 0) = Some (ctx, hex (md5 m) @ [0])"
    using finalize_digest [OF assms] by blast
  moreover have "cstring (hex (md5 m) @ [0]) = Some (hex (md5 m))"
    using hex_no_zero [of "md5 m"] strlen_string [of "hex (md5 m)" "[]"] by (simp add: cstring_def)
  ultimately show ?thesis by (auto simp: ota_check_def Let_def)
qed

text \<open>How an update can end.\<close>

definition update_result :: "bytes \<Rightarrow> OTA_Struct_t \<Rightarrow> bool \<Rightarrow> OTA_Struct_t \<Rightarrow> bool" where
  "update_result m h ok h' \<longleftrightarrow>
     (\<exists>cs. progress_calls h' = progress_calls h @ cs \<and>
        size_fetched h' = size_fetched h + of_nat (length (burned cs)) \<and>
        ota_state h' = IOT_OTAS_FETCHED \<and> type_file h' = type_file h \<and>
        (if err h' = IOT_OTAE_FETCH_FAILED then \<not> ok
         else size_file h \<le> size_fetched h' \<and> (ok \<longleftrightarrow> pmd5 h = hex (md5 (m @ burned cs))) \<and>
              err h' = (if ok then IOT_OTAE_NONE else IOT_OTAE_CHECK_FAILED)))"

lemma update_result_cons:
  assumes "update_result (m @ x) h1 ok h'" and "progress_calls h1 = progress_calls h @ cs" and "burned cs = x"
    and "size_fetched h1 = size_fetched h + of_nat (length x)" and "pmd5 h1 = pmd5 h" and "size_file h1 = size_file h" and "type_file h1 = type_file h"
  shows "update_result m h ok h'"
proof -
  from assms(1) obtain cs1 where 1: "progress_calls h' = progress_calls h1 @ cs1"
      "size_fetched h' = size_fetched h1 + of_nat (length (burned cs1))" "ota_state h' = IOT_OTAS_FETCHED" "type_file h' = type_file h1"
    and 2: "if err h' = IOT_OTAE_FETCH_FAILED then \<not> ok
         else size_file h1 \<le> size_fetched h' \<and> (ok \<longleftrightarrow> pmd5 h1 = hex (md5 ((m @ x) @ burned cs1))) \<and>
              err h' = (if ok then IOT_OTAE_NONE else IOT_OTAE_CHECK_FAILED)"
    unfolding update_result_def by blast
  show ?thesis
    unfolding update_result_def
    using 1 2 assms(2-) by (intro exI [of _ "cs @ cs1"]) (auto simp: add.assoc)
qed

lemma update_digest:
  assumes "md5_context ctx m" and "rd_bytes buf 0 n = Some data" and "n < 2 ^ 32" and "otalib_MD5Update ctx buf n = Some ctx'"
  shows "md5_context ctx' (m @ data)"
proof -
  have d: "buf = data @ drop n buf" "length data = n"
    using assms(2) by (auto simp: rd_bytes_def split: if_splits)
  then show ?thesis
    using md5.holding_update [OF assms(1), of data "drop n buf"] assms(3,4) by (auto simp: otalib_MD5Update_def)
qed

lemma ota_take_some:
  assumes "ota_take e ret buf h c = Some (h', c')" and "0 \<le> ret" and "ret < 2 ^ 32" and "md5_context (md5_handle h) m"
  shows "\<exists>x cs. md5_context (md5_handle h') (m @ x) \<and> progress_calls h' = progress_calls h @ cs \<and> burned cs = x \<and>
           size_fetched h' = size_fetched h + of_nat (length x) \<and> pmd5 h' = pmd5 h \<and> size_file h' = size_file h \<and>
           type_file h' = type_file h \<and> rd_bytes buf 0 (nat ret) = Some x"
proof -
  from assms(1) obtain h0 c0 ctx data where
      0: "(if size_fetched h = 0 then progress e None 0 h c else Some (h, c)) = Some (h0, c0)"
    and u: "otalib_MD5Update (md5_handle h0) buf (nat ret) = Some ctx" and d: "rd_bytes buf 0 (nat ret) = Some data"
    and p: "progress e (Some data) (size_fetched h0 + u32_of ret)
        (h0\<lparr>size_last_fetched := u32_of ret, size_fetched := size_fetched h0 + u32_of ret, md5_handle := ctx\<rparr>) c0 = Some (h', c')"
    unfolding ota_take_def by (auto simp: Let_def simp del: not_None_eq split: bind_splits)
  have h0: "\<exists>cs. h0 = h\<lparr>progress_calls := progress_calls h @ cs\<rparr> \<and> burned cs = []"
    using 0 by (auto dest!: progress_some split: if_splits intro: exI [of _ "[]"])
  have n: "nat ret < 2 ^ 32" using assms(2,3) by simp
  from h0 have "md5_context (md5_handle h0) m" using assms(4) by auto
  from update_digest [OF this d n u] have ctx: "md5_context ctx (m @ data)" .
  have "length data = nat ret" using d by (rule rd_bytes_length)
  then have r: "u32_of ret = of_nat (length data)" using assms(2) by simp
  show ?thesis
    using h0 progress_some [OF p] ctx d unfolding r by (intro exI [of _ data]) (auto simp del: burned_Cons simp add: burned_def)
qed

lemma ota_update_loop_result:
  assumes "ota_update_loop e h buf c = Some r" and "md5_context (md5_handle h) m"
  shows "update_result m h (fst r) (fst (snd r))"
proof -
  have "\<forall>m. md5_context (md5_handle h) m \<longrightarrow> update_result m h (fst r) (fst (snd r))"
    using assms(1)
    apply (rule ota_update_loop.raw_induct [rotated, where P = "\<lambda>e h buf c r. \<forall>m. md5_context (md5_handle h) m \<longrightarrow> update_result m h (fst r) (fst (snd r))"])
    subgoal premises prems for loop e h buf c r
    proof (intro allI impI)
      fix m assume ctx: "md5_context (md5_handle h) m"
      from prems(2) obtain ret buf1 ch w1 where f: "ofc_Fetch e (ch_fetch h) buf 1500 1 (snd c) = Some (ret, buf1, ch, w1)"
        by (auto split: bind_splits)
      let ?h = "h\<lparr>ch_fetch := ch\<rparr>"
      show "update_result m h (fst r) (fst (snd r))"
      proof (cases "ret < 0")
        case True
        with prems(2) have "r = (False, ?h\<lparr>ota_state := IOT_OTAS_FETCHED, err := IOT_OTAE_FETCH_FAILED\<rparr>, (fst c, w1))"
          by (auto simp: f)
        then show ?thesis by (auto simp: update_result_def)
      next
        case False
        with prems(2) obtain h1 c1 where t: "ota_take e ret buf1 ?h (fst c, w1) = Some (h1, c1)"
          and r: "(if size_fetched h1 \<ge> size_file h1 then do { (ok, h) \<leftarrow> ota_check h1; Some (ok, h, c1) }
            else do { (_, c) \<leftarrow> IOT_Comm_Yield (ota_comm e) c1; loop e h1 buf1 c }) = Some r"
          by (auto simp: f Let_def split: bind_splits)
        from ota_take_some [OF t _ ofc_Fetch_bound [OF f], of m] False ctx
        obtain x cs where x: "md5_context (md5_handle h1) (m @ x)" "progress_calls h1 = progress_calls h @ cs" "burned cs = x"
          "size_fetched h1 = size_fetched h + of_nat (length x)" "pmd5 h1 = pmd5 h" "size_file h1 = size_file h" "type_file h1 = type_file h"
          by auto
        show ?thesis
        proof (cases "size_fetched h1 \<ge> size_file h1")
          case True
          from ota_check_digest [OF x(1)] True r show ?thesis
            using x by (auto simp: update_result_def)
        next
          case False
          with r obtain c2 where "loop e h1 buf1 c2 = Some r" by (auto split: bind_splits)
          from prems(1) [OF this] x(1) have "update_result (m @ x) h1 (fst r) (fst (snd r))" by blast
          then show ?thesis using x(2-7) by (rule update_result_cons)
        qed
      qed
    qed
    done
  with assms(2) show ?thesis by blast
qed

section \<open>A complete download\<close>

text \<open>A channel in the middle of a file: \<open>rem\<close> is missing and comes next.\<close>

definition midway :: "('w \<Rightarrow> bytes) \<Rightarrow> otahttp_Struct_t \<Rightarrow> bytes \<Rightarrow> 'w \<Rightarrow> bool" where
  "midway pending ch rem w \<longleftrightarrow>
     client_open (http ch) \<and> (\<exists>more. pending w = rem @ more) \<and> small (length rem) \<and>
     is_more (http_data ch) \<and> \<not> is_chunked (http_data ch) \<and> response_content_len (http_data ch) \<noteq> - 1 \<and>
     retrieve_len (http_data ch) = int (length rem)"

definition plain_channel :: "otahttp_Struct_t \<Rightarrow> bytes \<Rightarrow> bytes \<Rightarrow> bytes \<Rightarrow> bool" where
  "plain_channel ch host path scheme \<longleftrightarrow> plain_request (http ch) (ofc_url ch) (http_data ch) host path ota_header scheme"

lemma small_1500: "small 1500"
  by (simp add: small_def)

lemma room_1499: "length buf = 1500 \<Longrightarrow> body_room (d\<lparr>response_buf := Some buf, response_buf_len := 1500\<rparr>) 1499 buf"
  using small_le [OF small_1500, of 1499] by (simp add: body_room_def)

lemma received_sel [simp]:
  "is_more (received N room buf body d) = (\<not> N < room)"
  "is_chunked (received N room buf body d) = is_chunked d"
  "retrieve_len (received N room buf body d) = int (N - min N room)"
  "response_content_len (received N room buf body d) = response_content_len d"
  "response_buf (received N room buf body d) = Some (overwrite buf 0 (take (min N room) body @ [0]))"
  "post_buf (received N room buf body d) = post_buf d"
  by (simp_all add: received_def)

lemma received_buf:
  assumes "length buf = 1500" and "length body = N"
  shows "length (overwrite buf 0 (take (min N 1499) body @ [0])) = 1500"
    and "take (min N 1499) (overwrite buf 0 (take (min N 1499) body @ [0])) = take (min N 1499) body"
  using assms by (simp_all add: overwrite_def)

lemma fetched_difference: "small N \<Longrightarrow> n \<le> N \<Longrightarrow> sint (x - (u32_of (int (N - n))) - (x - u32_of (int N))) = int n"
proof -
  assume "small N" "n \<le> N"
  then have "x - (u32_of (int (N - n))) - (x - u32_of (int N)) = of_nat n" by (simp add: of_nat_diff)
  then show ?thesis using u32_sint [OF small_le [OF \<open>small N\<close> \<open>n \<le> N\<close>]] by simp
qed

lemma fetch_next:
  assumes "http_server (ota_http e) pending status response" and "midway pending ch rem w" and "plain_channel ch host path scheme"
    and "length buf = 1500"
  defines "n \<equiv> min (length rem) 1499"
  shows "\<exists>buf' ch' w'. ofc_Fetch e ch buf 1500 1 w = Some (int n, buf', ch', w') \<and> length buf' = 1500 \<and> take n buf' = take n rem \<and>
           plain_channel ch' host path scheme \<and> (1499 \<le> length rem \<longrightarrow> midway pending ch' (drop n rem) w')"
proof -
  let ?d = "(http_data ch)\<lparr>response_buf := Some buf, response_buf_len := 1500\<rparr>"
  from assms(2) obtain more where m: "client_open (http ch)" "pending w = rem @ more" "small (length rem)"
      "is_more ?d" "\<not> is_chunked ?d" "response_content_len ?d \<noteq> - 1" "retrieve_len ?d = int (length rem)"
    by (auto simp: midway_def)
  have plain: "plain_request (http ch) (ofc_url ch) ?d host path ota_header scheme"
    using assms(3) by (simp add: plain_channel_def plain_request_def)
  from common_next [OF assms(1) m(1,2) order_refl m(7,3) room_1499 [OF assms(4)] m(4,5,6) _ plain, of 80 1000]
  obtain c' w' where 1: "httpclient_common (ota_http e) (http ch) (ofc_url ch) 80 None HTTPCLIENT_GET 1000 ?d w =
        Some (0, c', received (length rem) 1499 (buf[0 := 0]) rem ?d, w')"
    and 2: "same_request (http ch) c'"
      "if length rem < 1499 then handle (net c') < 0 else client_open c' \<and> (\<exists>more. pending w' = drop 1499 rem @ more)"
    by auto
  let ?d' = "received (length rem) 1499 (buf[0 := 0]) rem ?d"
  let ?buf = "overwrite (buf[0 := 0]) 0 (take n rem @ [0])"
  let ?ch = "ch\<lparr>http := c', http_data := ?d'\<rparr>"
  have "ofc_Fetch e ch buf 1500 1 w = Some (int n, ?buf, ?ch, w')"
    using fetched_difference [OF m(3), of n "response_content_len (http_data ch)"] m(7)
    by (simp add: ofc_Fetch_def Let_def 1 n_def)
  moreover have "length ?buf = 1500" "take n ?buf = take n rem"
    using received_buf [of "buf[0 := 0]" rem "length rem"] assms(4) by (simp_all add: n_def)
  moreover have "plain_channel ?ch host path scheme"
    using assms(3) 2(1) by (simp add: plain_channel_def plain_request_def same_request_def)
  moreover have "midway pending ?ch (drop n rem) w'" if "1499 \<le> length rem"
    using that 2(2) m(5,6) small_le [OF m(3), of "length rem - 1499"] by (simp add: midway_def n_def)
  ultimately show ?thesis by blast
qed

lemma fetch_first:
  assumes "http_server (ota_http e) pending status (status @ crlf @ head_text ls @ body)" and "response_head status code ls (length body)"
    and "handle (net (http ch)) < 0" and "\<not> is_more (http_data ch)" and "retrieve_len (http_data ch) = 0" and "response_content_len (http_data ch) = 0"
    and "plain_channel ch host path scheme" and "httpclient_parse_host (ofc_url ch) 64 = Some hh" and "length buf = 1500"
  defines "n \<equiv> min (length body) 1499"
  shows "\<exists>buf' ch' w'. ofc_Fetch e ch buf 1500 1 w = Some (int n, buf', ch', w') \<and> length buf' = 1500 \<and> take n buf' = take n body \<and>
           plain_channel ch' host path scheme \<and> (1499 \<le> length body \<longrightarrow> midway pending ch' (drop n body) w')"
proof -
  let ?d = "(http_data ch)\<lparr>response_buf := Some buf, response_buf_len := 1500\<rparr>"
  have plain: "plain_request (http ch) (ofc_url ch) ?d host path ota_header scheme"
    using assms(7) by (simp add: plain_channel_def plain_request_def)
  have sm: "small (length body)" using assms(2) by (simp add: response_head_def)
  have more: "\<not> is_more ?d" using assms(4) by simp
  from common_first [OF assms(1,2) order_refl room_1499 [OF assms(9)] _ more assms(3) plain assms(8), of 80 1000 w]
  obtain c' w' where 1: "httpclient_common (ota_http e) (http ch) (ofc_url ch) 80 None HTTPCLIENT_GET 1000 ?d w =
        Some (0, c', received (length body) 1499 buf body (?d\<lparr>response_content_len := of_nat (length body), is_chunked := False\<rparr>), w')"
    and 2: "same_request (http ch) c'"
      "if length body < 1499 then handle (net c') < 0 else client_open c' \<and> (\<exists>more. pending w' = drop 1499 body @ more)"
    by auto
  let ?d' = "received (length body) 1499 buf body (?d\<lparr>response_content_len := of_nat (length body), is_chunked := False\<rparr>)"
  let ?buf = "overwrite buf 0 (take n body @ [0])"
  let ?ch = "ch\<lparr>http := c', http_data := ?d'\<rparr>"
  have "sint (of_nat (length body) - u32_of (int (length body - n)) - (0 - u32_of 0)) = int n"
    using fetched_difference [OF sm, of n "of_nat (length body)"] by (simp add: n_def)
  then have "ofc_Fetch e ch buf 1500 1 w = Some (int n, ?buf, ?ch, w')"
    using assms(5,6) by (simp add: ofc_Fetch_def Let_def 1 n_def)
  moreover have "length ?buf = 1500" "take n ?buf = take n body"
    using received_buf [of buf body "length body"] assms(9) by (simp_all add: n_def)
  moreover have "plain_channel ?ch host path scheme"
    using assms(7) 2(1) by (simp add: plain_channel_def plain_request_def same_request_def)
  moreover have "midway pending ?ch (drop n body) w'" if "1499 \<le> length body"
    using that 2(2) of_nat_not_minus_1 [OF sm] small_le [OF sm, of "length body - 1499"] by (simp add: midway_def n_def)
  ultimately show ?thesis by blast
qed

text \<open>
  The rest of the program while a file is fetched: it returns, and leaves what the server sends alone.
\<close>

definition undisturbed :: "'w ota_env \<Rightarrow> ('w \<Rightarrow> bytes) \<Rightarrow> bool" where
  "undisturbed e pending \<longleftrightarrow>
     (\<forall>cb d a b w. pending (call_progress e cb d a b w) = pending w) \<and>
     (\<forall>c. \<exists>r c'. IOT_Comm_Yield (ota_comm e) c = Some (r, c') \<and> pending (snd c') = pending (snd c)) \<and>
     (\<forall>t r p c. IOT_Comm_SendActionReply (ota_comm e) t r p c \<noteq> None)"

definition fetchable ::
    "'w ota_env \<Rightarrow> ('w \<Rightarrow> bytes) \<Rightarrow> otahttp_Struct_t \<Rightarrow> bytes \<Rightarrow> bytes \<Rightarrow> 'w \<Rightarrow> bytes \<Rightarrow> bytes \<Rightarrow> bytes \<Rightarrow> bool" where
  "fetchable e pending ch buf rem w host path scheme \<longleftrightarrow>
     (let n = min (length rem) 1499 in
      \<exists>buf' ch' w'. ofc_Fetch e ch buf 1500 1 w = Some (int n, buf', ch', w') \<and> length buf' = 1500 \<and> take n buf' = take n rem \<and>
        plain_channel ch' host path scheme \<and> (1499 \<le> length rem \<longrightarrow> midway pending ch' (drop n rem) w'))"

lemma midway_pending: "midway pending ch rem w \<Longrightarrow> pending w' = pending w \<Longrightarrow> midway pending ch rem w'"
  by (simp add: midway_def)

lemma progress_returns:
  assumes "progress_cb h \<noteq> 0" and "undisturbed e pending"
  shows "\<exists>c'. progress e d n h c = Some (h\<lparr>progress_calls := progress_calls h @ [(d, n, size_file h)]\<rparr>, c') \<and>
           pending (snd c') = pending (snd c)"
  using assms by (cases c) (simp add: progress_def undisturbed_def)

lemma ota_take_returns:
  assumes "progress_cb h \<noteq> 0" and "undisturbed e pending" and "md5_context (md5_handle h) m" and "n \<le> length buf" and "n < 2 ^ 32"
  shows "\<exists>h' c'. ota_take e (int n) buf h c = Some (h', c') \<and> pending (snd c') = pending (snd c) \<and>
           progress_cb h' = progress_cb h \<and> ch_fetch h' = ch_fetch h"
proof -
  obtain h0 c0 where 0: "(if size_fetched h = 0 then progress e None 0 h c else Some (h, c)) = Some (h0, c0)"
    "pending (snd c0) = pending (snd c)" "progress_cb h0 = progress_cb h" "ch_fetch h0 = ch_fetch h" "md5_handle h0 = md5_handle h"
    using progress_returns [OF assms(1,2), of None 0 c] by (cases "size_fetched h = 0") auto
  have d: "rd_bytes buf 0 n = Some (take n buf)" using assms(4) by (simp add: rd_bytes_def)
  have "length (take n buf) = n" using assms(4) by simp
  then obtain ctx where u: "otalib_MD5Update (md5_handle h0) buf n = Some ctx"
    using md5.holding_update [OF assms(3), of "take n buf" "drop n buf"] assms(5) 0(5) by (auto simp: otalib_MD5Update_def)
  let ?h = "h0\<lparr>size_last_fetched := of_nat n, size_fetched := size_fetched h0 + of_nat n, md5_handle := ctx\<rparr>"
  have "progress_cb ?h \<noteq> 0" using 0(3) assms(1) by simp
  from progress_returns [OF this assms(2), of "Some (take n buf)" "size_fetched ?h" c0]
  obtain c' where p: "progress e (Some (take n buf)) (size_fetched ?h) ?h c0 =
      Some (?h\<lparr>progress_calls := progress_calls ?h @ [(Some (take n buf), size_fetched ?h, size_file ?h)]\<rparr>, c')"
    "pending (snd c') = pending (snd c0)" by blast
  from 0 u d p show ?thesis by (simp add: ota_take_def Let_def)
qed

lemma download:
  assumes server: "http_server (ota_http e) pending status response" and quiet: "undisturbed e pending"
    and "fetchable e pending (ch_fetch h) buf rem (snd c) host path scheme"
    and "rem \<noteq> []" and "progress_cb h \<noteq> 0" and "md5_context (md5_handle h) m"
    and "size_fetched h = of_nat k" and "size_file h = of_nat (k + length rem)" and "small (k + length rem)"
  shows "\<exists>h' c' cs ok. ota_update_loop e h buf c = Some (ok, h', c') \<and> (ok \<longleftrightarrow> pmd5 h = hex (md5 (m @ rem))) \<and>
           progress_calls h' = progress_calls h @ cs \<and> burned cs = rem \<and> ota_state h' = IOT_OTAS_FETCHED \<and>
           err h' = (if ok then IOT_OTAE_NONE else IOT_OTAE_CHECK_FAILED)"
  using assms(3-)
proof (induction "length rem" arbitrary: h buf c rem m k rule: less_induct)
  case less
  note prems = less.prems
  define n where "n = min (length rem) 1499"
  from prems(1) obtain buf1 ch1 w1 where f: "ofc_Fetch e (ch_fetch h) buf 1500 1 (snd c) = Some (int n, buf1, ch1, w1)"
      "length buf1 = 1500" "take n buf1 = take n rem" "plain_channel ch1 host path scheme"
      "1499 \<le> length rem \<longrightarrow> midway pending ch1 (drop n rem) w1"
    by (auto simp: fetchable_def n_def Let_def)
  let ?h = "h\<lparr>ch_fetch := ch1\<rparr>"
  have n: "n \<le> length buf1" "n < 2 ^ 32" "n \<le> length rem" using f(2) by (simp_all add: n_def)
  from ota_take_returns [of ?h, OF _ quiet _ n(1,2), of m "(fst c, w1)"] prems(3,4)
  obtain h1 c1 where t: "ota_take e (int n) buf1 ?h (fst c, w1) = Some (h1, c1)" "pending (snd c1) = pending w1"
      "progress_cb h1 = progress_cb h" "ch_fetch h1 = ch1" by auto
  from ota_take_some [OF t(1), of m] n(2) prems(4) obtain x cs where x: "md5_context (md5_handle h1) (m @ x)" "progress_calls h1 = progress_calls h @ cs"
      "burned cs = x" "size_fetched h1 = size_fetched h + of_nat (length x)" "pmd5 h1 = pmd5 h" "size_file h1 = size_file h"
      "rd_bytes buf1 0 n = Some x" by auto
  have x': "x = take n rem" "length x = n" using x(7) f(3) n by (auto simp: rd_bytes_def split: if_splits)
  have fetched: "size_fetched h1 = of_nat (k + n)" using x(4) x'(2) prems(5) by simp
  have neg: "\<not> int n < 0" by simp
  have le: "(size_file h1 \<le> size_fetched h1) = (length rem \<le> n)"
    unfolding fetched x(6) prems(6) using u32_less [OF small_le [OF prems(7), of "k + n"] prems(7)] n(3) by (simp add: not_less [symmetric] del: of_nat_add)
  have step: "ota_update_loop e h buf c =
      (if length rem \<le> n then do { (ok, h) \<leftarrow> ota_check h1; Some (ok, h, c1) }
       else do { (_, c) \<leftarrow> IOT_Comm_Yield (ota_comm e) c1; ota_update_loop e h1 buf1 c })"
    unfolding ota_update_loop.simps [of e h] f(1) bind.bind_lunit prod.case Let_def if_not_P [OF neg] t(1) le ..
  show ?case
  proof (cases "length rem \<le> n")
    case True
    then have "x = rem" using x'(1) by simp
    with True ota_check_digest [OF x(1)] x show ?thesis unfolding step by auto
  next
    case False
    then have n1499: "n = 1499" "1499 \<le> length rem" by (auto simp: n_def)
    from quiet obtain r c2 where y: "IOT_Comm_Yield (ota_comm e) c1 = Some (r, c2)" "pending (snd c2) = pending (snd c1)"
      unfolding undisturbed_def by blast
    have "midway pending ch1 (drop n rem) (snd c2)"
      using f(5) n1499(2) t(2) y(2) midway_pending [of pending ch1 "drop n rem" w1 "snd c2"] by simp
    from fetch_next [OF server this f(4,2)]
    have "fetchable e pending (ch_fetch h1) buf1 (drop n rem) (snd c2) host path scheme" by (simp add: fetchable_def t(4) Let_def)
    moreover have "length (drop n rem) < length rem" "drop n rem \<noteq> []" using False n1499 by auto
    moreover have "progress_cb h1 \<noteq> 0" using t(3) prems(3) by simp
    moreover have "size_file h1 = of_nat (k + n + length (drop n rem))" "small (k + n + length (drop n rem))"
      using x(6) prems(6,7) n(3) by simp_all
    ultimately obtain h' c' cs' ok where ih: "ota_update_loop e h1 buf1 c2 = Some (ok, h', c')"
        "ok \<longleftrightarrow> pmd5 h1 = hex (md5 ((m @ x) @ drop n rem))" "progress_calls h' = progress_calls h1 @ cs'" "burned cs' = drop n rem"
        "ota_state h' = IOT_OTAS_FETCHED" "err h' = (if ok then IOT_OTAE_NONE else IOT_OTAE_CHECK_FAILED)"
      using less.hyps [of "drop n rem" h1 buf1 c2 "m @ x" "k + n"] x(1) fetched by blast
    have "(m @ x) @ drop n rem = m @ rem" "burned (cs @ cs') = rem" using x(3) x'(1) ih(4) by simp_all
    with ih False x(2,5) y(1) show ?thesis unfolding step by auto
  qed
qed

section \<open>Properties\<close>

text \<open>
  Property C11: whatever the network does, an update that ends has reported everything it fetched to
  the application, and ends in one of three ways: a fetch failed (-4); or at least the announced size
  was fetched and the update is accepted exactly when the MD5 digest of the bytes the application was
  given is the announced one, with error code 0, or -5 when it is not.
\<close>

theorem ota_update_checked:
  assumes "IOT_OTA_Update e (Some h) buf c = Some (ok, h_ota, c')" and "md5_context (md5_handle h) m"
  shows "\<exists>h' cs. h_ota = Some h' \<and> progress_calls h' = progress_calls h @ cs \<and>
           size_fetched h' = size_fetched h + of_nat (length (burned cs)) \<and>
           (IOT_OTA_GetLastError h_ota = -4 \<and> \<not> ok \<or>
            size_file h \<le> size_fetched h' \<and> ok = (pmd5 h = hex (md5 (m @ burned cs))) \<and>
            IOT_OTA_GetLastError h_ota = (if ok then 0 else -5))"
proof -
  from assms(1) obtain h1 c1 rst where 1: "ota_update_loop e h buf c = Some (ok, h1, c1)"
    and 2: "IOT_OTA_ReportProgress e (Some h1) (if ok then IOTX_OTA_REPLY_FETCH_SUCCESS else IOTX_OTA_REPLY_FETCH_FAILED) 0 c1 = Some (rst, h_ota, c')"
    by (auto simp: IOT_OTA_Update_def split: bind_splits)
  note result = ota_update_loop_result [OF 1 assms(2)]
  then have "ota_state h1 \<noteq> IOT_OTAS_UNINITED" by (auto simp: update_result_def)
  with 2 have 3: "h_ota = Some h1" by (auto simp: IOT_OTA_ReportProgress_def split: bind_splits)
  from result show ?thesis
    unfolding 3 update_result_def IOT_OTA_GetLastError_def by (auto split: if_splits)
qed

text \<open>A module as \<open>IOT_OTA_Init\<close> makes it.\<close>

lemma init_module:
  assumes "IOT_OTA_Init e fileType (Some url) (Some md5sum) filesize w = (Some h, w')"
  shows "ota_state h = IOT_OTAS_INITED" "type_file h = 0" "pmd5 h = md5sum" "size_fetched h = 0" "size_file h = filesize"
    "md5_context (md5_handle h) []" "progress_calls h = []" "ofc_url (ch_fetch h) = url"
    "handle (net (http (ch_fetch h))) < 0" "\<not> is_more (http_data (ch_fetch h))" "retrieve_len (http_data (ch_fetch h)) = 0"
    "response_content_len (http_data (ch_fetch h)) = 0" "header (http (ch_fetch h)) = Some ota_header"
    "auth_user (http (ch_fetch h)) = None" "post_buf (http_data (ch_fetch h)) = None"
  using assms md5.holding_start
  by (auto simp: IOT_OTA_Init_def otalib_MD5Init_def ofc_Init_def httpclient_init_def Let_def split: prod.splits if_splits option.splits)

lemma ota_header_ok: "ota_header \<noteq> []" "length ota_header \<le> 800"
  by (simp_all add: ota_header_def literal_def)

lemma ota_download_returns:
  assumes "http_server (ota_http e) pending status (status @ crlf @ head_text ls @ file)"
    and "response_head status code ls (length file)" and "undisturbed e pending"
    and "IOT_OTA_Init e fileType (Some url) (Some md5sum) (of_nat (length file)) w0 = (Some h0, w)"
    and "IOT_OTA_SetProgressCallback cb (Some h0) = (0, Some h)" and "cb \<noteq> 0" and "file \<noteq> []"
    and "httpclient_parse_url url 8 64 64 = Some (Inr (scheme, host, prt, path))" and "length buf = 1500"
  shows "\<exists>h' c'. IOT_OTA_Update e (Some h) buf (s, w1) = Some (md5sum = hex (md5 file), Some h', c') \<and>
           burned (progress_calls h') = file \<and> IOT_OTA_GetLastError (Some h') = (if md5sum = hex (md5 file) then 0 else -5)"
proof -
  note i = init_module [OF assms(4)]
  have h: "h = h0\<lparr>progress_cb := cb\<rparr>" using assms(5) i(1) by (simp add: IOT_OTA_SetProgressCallback_def)
  note u = parsed_url [OF assms(8)]
  have "plain_channel (ch_fetch h) host path scheme"
    using i u assms(8) ota_header_ok by (simp add: h plain_channel_def plain_request_def)
  from fetch_first [OF assms(1,2) _ _ _ _ this _ assms(9), of "Inr host" w1] i u
  have "fetchable e pending (ch_fetch h) buf file (snd (s, w1)) host path scheme"
    by (simp add: h fetchable_def Let_def)
  moreover have "small (0 + length file)" using assms(2) by (simp add: response_head_def)
  moreover have "progress_cb h \<noteq> 0" "md5_context (md5_handle h) []" "size_fetched h = of_nat 0" "size_file h = of_nat (0 + length file)"
    using assms(6) i by (simp_all add: h)
  ultimately obtain h' c' cs ok where d: "ota_update_loop e h buf (s, w1) = Some (ok, h', c')" "ok \<longleftrightarrow> pmd5 h = hex (md5 ([] @ file))"
      "progress_calls h' = progress_calls h @ cs" "burned cs = file" "ota_state h' = IOT_OTAS_FETCHED"
      "err h' = (if ok then IOT_OTAE_NONE else IOT_OTAE_CHECK_FAILED)"
    using download [OF assms(1,3) _ assms(7)] by blast
  obtain rst c'' where "IOT_Comm_SendActionReply (ota_comm e) (type_file h') (if ok then IOTX_OTA_REPLY_FETCH_SUCCESS else IOTX_OTA_REPLY_FETCH_FAILED) 0 c' = Some (rst, c'')"
    using assms(3) unfolding undisturbed_def by (metis option.exhaust surj_pair)
  then show ?thesis
    using d i(3,7) by (auto simp: IOT_OTA_Update_def IOT_OTA_ReportProgress_def IOT_OTA_GetLastError_def h)
qed


section \<open>Witnesses\<close>

text \<open>A back end that is always there and does nothing.\<close>

definition demo_comm :: "bytes comm_env" where
  "demo_comm =
     \<lparr>tr_connect = \<lambda>w. Some (0, w), tr_isconnected = \<lambda>w. Some (True, w), tr_disconnect = \<lambda>w. Some (0, w),
      tr_send = \<lambda>k d n w. Some (0, w), tr_yield = \<lambda>w. Some (0, w), call_handler = \<lambda>h ev w. w,
      comm_uptime = \<lambda>w. (0, w), comm_random = \<lambda>n w. (0, w), define_defaults = Some, send_automatic = \<lambda>f. Some\<rparr>"

definition demo_file :: bytes where
  "demo_file = literal ''hello''"

definition demo_status :: bytes where
  "demo_status = literal ''HTTP/1.1 200 OK''"

definition demo_url :: bytes where
  "demo_url = literal ''http://h/f''"

definition demo_ota :: "bytes ota_env" where
  "demo_ota =
     \<lparr>ota_http = demo_http (demo_status @ crlf @ head_text [literal ''Content-Length: 5''] @ demo_file) 100,
      ota_comm = demo_comm, call_progress = \<lambda>cb d a b w. w\<rparr>"

lemma demo_notify: "snd (IOT_SYSTEM_NotifyEvent demo_comm ev c) = snd c"
  by (cases c) (simp add: IOT_SYSTEM_NotifyEvent_def demo_comm_def)

lemma demo_init: "\<exists>c'. iotx_conn_info_get demo_comm c = Some c' \<and> snd c' = snd c"
  by (cases c) (simp add: iotx_conn_info_get_def IOT_Comm_Init_def demo_comm_def Let_def)

lemma demo_get: "\<exists>st c'. iotx_get_conn_state demo_comm c = Some (st, c') \<and> snd c' = snd c"
  using demo_init [of c] by (auto simp: iotx_get_conn_state_def)

lemma demo_set: "\<exists>c'. iotx_set_conn_state demo_comm st c = Some c' \<and> snd c' = snd c"
proof -
  obtain s w where 1: "iotx_conn_info_get demo_comm c = Some (s, w)" "w = snd c" using demo_init [of c] by auto
  have "snd (notify_conn_state demo_comm st (s, w)) = w"
    by (cases st) (simp_all add: notify_conn_state_def demo_notify)
  then show ?thesis by (cases "notify_conn_state demo_comm st (s, w)") (simp add: iotx_set_conn_state_def 1 Let_def)
qed

lemma demo_network: "\<exists>up c'. IOT_Network_IsConnected demo_comm c = Some (up, c') \<and> snd c' = snd c"
proof -
  obtain c1 where 1: "iotx_conn_info_get demo_comm c = Some c1" "snd c1 = snd c" using demo_init [of c] by auto
  obtain c2 where "iotx_set_conn_state demo_comm IOTX_CONN_STATE_DISCONNECTED c1 = Some c2" "snd c2 = snd c1" using demo_set by blast
  with 1 show ?thesis by (cases c1; cases c2) (auto simp: IOT_Network_IsConnected_def iotx_get_network_state_def)
qed

lemma demo_connected: "\<exists>up c'. IOT_Comm_IsConnected demo_comm c = Some (up, c') \<and> snd c' = snd c"
proof -
  obtain up c1 where 1: "IOT_Network_IsConnected demo_comm c = Some (up, c1)" "snd c1 = snd c" using demo_network by blast
  obtain st c2 where 2: "iotx_get_conn_state demo_comm c1 = Some (st, c2)" "snd c2 = snd c1" using demo_get by blast
  obtain c3 where 3: "iotx_set_conn_state demo_comm IOTX_CONN_STATE_CONNECTED c2 = Some c3" "snd c3 = snd c2" using demo_set by blast
  have "on_world (tr_isconnected demo_comm) c2 = Some (True, c2)" by (cases c2) (simp add: on_world_def demo_comm_def)
  with 1 2 3 show ?thesis by (cases c1; cases c2; cases c3) (auto simp: IOT_Comm_IsConnected_def)
qed

lemma demo_reconnect: "\<exists>r c'. yield_reconnect demo_comm c = Some (r, c') \<and> snd c' = snd c"
proof -
  obtain st s w where 1: "iotx_get_conn_state demo_comm c = Some (st, (s, w))" "w = snd c" using demo_get [of c] by auto
  obtain s1 where 2: "iotx_conn_info_get demo_comm (s, w) = Some (s1, w)" using demo_init [of "(s, w)"] by auto
  obtain s2 where 3: "iotx_set_conn_state demo_comm IOTX_CONN_STATE_CONNECTED (s1, w) = Some (s2, w)" using demo_set [of _ "(s1, w)"] by auto
  have 4: "\<exists>s3. iotx_set_conn_state demo_comm IOTX_CONN_STATE_DISCONNECTED_RECONNECTING (s', w) = Some (s3, w)" for s'
    using demo_set [of _ "(s', w)"] by auto
  have f: "comm_uptime demo_comm = (\<lambda>w. (0, w))" "tr_connect demo_comm = (\<lambda>w. Some (0, w))" by (simp_all add: demo_comm_def)
  obtain rc s5 where 5: "iotx_conn_handle_reconnect demo_comm (s, w) = Some (rc, (s5, w))"
    using 3 by (cases "utils_time_is_expired 0 (Some (conn_reconnect_next_time s1))") (simp_all add: iotx_conn_handle_reconnect_def 2 f)
  let ?s = "s\<lparr>conn_reconnect_time_interval_ms := 1000\<rparr>"
  obtain s6 where 6: "arm_reconnect demo_comm 1000 (?s, w) = (s6, w)" by (simp add: arm_reconnect_def f)
  from 4 [of s6] obtain s7 where "iotx_set_conn_state demo_comm IOTX_CONN_STATE_DISCONNECTED_RECONNECTING (s6, w) = Some (s7, w)" by blast
  with 1 5 6 show ?thesis by (simp add: yield_reconnect_def Let_def)
qed

lemma demo_yield: "\<exists>r c'. IOT_Comm_Yield demo_comm c = Some (r, c') \<and> snd c' = snd c"
proof -
  obtain c1 where 1: "iotx_conn_info_get demo_comm c = Some c1" "snd c1 = snd c" using demo_init by blast
  obtain up c2 where 2: "IOT_Network_IsConnected demo_comm c1 = Some (up, c2)" "snd c2 = snd c1" using demo_network by blast
  obtain conn c3 where 3: "IOT_Comm_IsConnected demo_comm c2 = Some (conn, c3)" "snd c3 = snd c2" using demo_connected by blast
  obtain r c4 where 4: "yield_reconnect demo_comm c3 = Some (r, c4)" "snd c4 = snd c3" using demo_reconnect by blast
  have "on_world (tr_yield demo_comm) c2 = Some (0, c2)" by (cases c2) (simp add: on_world_def demo_comm_def)
  moreover have "send_automatic demo_comm f c3 = Some c3" for f by (simp add: demo_comm_def)
  ultimately show ?thesis using 1 2 3 4 by (cases c2; cases c3; cases c4) (auto simp: IOT_Comm_Yield_def)
qed

lemma demo_reply: "IOT_Comm_SendActionReply demo_comm t r p c \<noteq> None"
proof -
  obtain up c1 where 1: "IOT_Network_IsConnected demo_comm c = Some (up, c1)" using demo_network [of c] by blast
  obtain st c2 where 2: "iotx_get_conn_state demo_comm c1 = Some (st, c2)" using demo_get [of c1] by blast
  have "length (take 127 (reply_text t r p)) < 128" by simp
  then obtain n temp where 3: "iotx_get_action_reply (replicate 128 0) 128 t r p = Some (n, temp)"
    by (auto simp: iotx_get_action_reply_def wr_bytes_def Let_def)
  have 4: "on_world (tr_send demo_comm k d l) c2 = Some (0, c2)" for k d l by (cases c2) (simp add: on_world_def demo_comm_def)
  show ?thesis using 1 2 3 4 by (simp add: IOT_Comm_SendActionReply_def)
qed

lemma demo_undisturbed: "undisturbed demo_ota (\<lambda>w. w)"
  unfolding undisturbed_def using demo_yield demo_reply by (auto simp: demo_ota_def)

lemma demo_server:
  "http_server (ota_http demo_ota) (\<lambda>w. w) demo_status (demo_status @ crlf @ head_text [literal ''Content-Length: 5''] @ demo_file)"
proof -
  have "at_least (length demo_status + 2) (demo_read 100 255 w)" if "take (length demo_status + 2) w = demo_status @ crlf" for w
  proof -
    have "length demo_status + 2 = 17" by (simp add: demo_status_def literal_def)
    moreover have "length demo_status + 2 \<le> length w" using arg_cong [OF that, of length] by simp
    ultimately show ?thesis by (simp add: at_least_def demo_read_def Let_def)
  qed
  then show ?thesis
    by (simp add: http_server_def demo_ota_def demo_http_def keeps_def demo_delivers)
qed

lemma demo_head: "response_head demo_status 200 [literal ''Content-Length: 5''] (length demo_file)"
proof -
  have l: "length demo_file = 5" "small 5" by (simp_all add: demo_file_def literal_def small_def)
  have s: "line_ok demo_status" "header_line (literal ''Content-Length: 5'')"
    by (simp_all add: line_ok_def header_line_def demo_status_def literal_def)
  have "scan_status demo_status = Some 200" by code_simp
  moreover have "scan_header (literal ''Content-Length: 5'') = Some (literal ''Content-Length'', literal ''5'')" by code_simp
  moreover have "scan_int (literal ''5'') = Some (5, [])" by code_simp
  ultimately show ?thesis
    using l s by (simp add: response_head_def apply_header_def fits_int_def)
qed

definition demo_module :: OTA_Struct_t where
  "demo_module = (the (fst (IOT_OTA_Init demo_ota 1 (Some demo_url) (Some [0x61]) 5 [])))\<lparr>progress_cb := 7\<rparr>"

lemma demo_module:
  obtains h0 w where "IOT_OTA_Init demo_ota 1 (Some demo_url) (Some [0x61]) (of_nat (length demo_file)) [] = (Some h0, w)"
    and "IOT_OTA_SetProgressCallback 7 (Some h0) = (0, Some demo_module)" and "md5_context (md5_handle demo_module) []"
proof -
  have m: "http_malloc (ota_http demo_ota) n w = (True, w)" for n w by (simp add: demo_ota_def demo_http_def)
  obtain h0 w where init: "IOT_OTA_Init demo_ota 1 (Some demo_url) (Some [0x61]) 5 [] = (Some h0, w)"
    by (simp add: IOT_OTA_Init_def otalib_MD5Init_def ofc_Init_def m Let_def)
  have "IOT_OTA_SetProgressCallback 7 (Some h0) = (0, Some demo_module)" "md5_context (md5_handle demo_module) []"
    using init_module(1,6) [OF init] by (simp_all add: IOT_OTA_SetProgressCallback_def demo_module_def init)
  moreover have "(of_nat (length demo_file) :: u32) = 5" by (simp add: demo_file_def literal_def)
  ultimately show thesis using that init by simp
qed

lemma demo_parsed: "demo_file \<noteq> []" "httpclient_parse_url demo_url 8 64 64 = Some (Inr (literal ''http'', literal ''h'', 0, literal ''/f''))"
  by (simp add: demo_file_def literal_def, code_simp)


theorem ota_update_checked_witness:
  "\<exists>h' c' cs. IOT_OTA_Update demo_ota (Some demo_module) (replicate 1500 0) (initial_conn_info, []) =
             Some ([0x61] = hex (md5 demo_file), Some h', c') \<and>
           progress_calls h' = progress_calls demo_module @ cs \<and>
           size_fetched h' = size_fetched demo_module + of_nat (length (burned cs))"
proof -
  obtain h0 w where m: "IOT_OTA_Init demo_ota 1 (Some demo_url) (Some [0x61]) (of_nat (length demo_file)) [] = (Some h0, w)"
    "IOT_OTA_SetProgressCallback 7 (Some h0) = (0, Some demo_module)" "md5_context (md5_handle demo_module) []" by (rule demo_module)
  have "\<exists>h' c'. IOT_OTA_Update demo_ota (Some demo_module) (replicate 1500 0) (initial_conn_info, []) =
             Some ([0x61] = hex (md5 demo_file), Some h', c') \<and> burned (progress_calls h') = demo_file \<and>
           IOT_OTA_GetLastError (Some h') = (if [0x61] = hex (md5 demo_file) then 0 else -5)"
    by (rule ota_download_returns [OF demo_server demo_head demo_undisturbed m(1,2) _ demo_parsed]) simp_all
  then obtain h' c' where run: "IOT_OTA_Update demo_ota (Some demo_module) (replicate 1500 0) (initial_conn_info, []) =
             Some ([0x61] = hex (md5 demo_file), Some h', c')" by blast
  from ota_update_checked [OF run m(3)] run show ?thesis by blast
qed

text \<open>The file type is never stored: every report of the module is one of type 0.\<close>

lemma ota_file_type_lost:
  assumes "IOT_OTA_Init e fileType (Some url) (Some md5sum) filesize w = (Some h, w')"
  shows "IOT_OTA_ReportProgress e (Some h) reply pct c =
           do { (rst, c) \<leftarrow> IOT_Comm_SendActionReply (ota_comm e) 0 reply pct c; Some (rst, Some h, c) }"
  using init_module [OF assms] by (simp add: IOT_OTA_ReportProgress_def)

text \<open>Without a callback the first successful fetch calls \<open>NULL\<close>.\<close>

lemma ota_without_callback:
  assumes "ofc_Fetch e (ch_fetch h) buf 1500 1 (snd c) = Some (ret, buf', ch, w)" and "0 \<le> ret" and "progress_cb h = 0"
  shows "IOT_OTA_Update e (Some h) buf c = None"
  using assms by (simp add: IOT_OTA_Update_def ota_update_loop.simps [of e h] ota_take_def progress_def Let_def split: bind_splits)

end
