(* ===== verification/Sdk_Impl.thy ===== *)
theory Sdk_Impl
  imports Comm_Manager
begin

text \<open>
  The exported helpers of sdk/sdk-impl/sdk_impl.c: the clock, the timers of the application and the
  delay that keeps the SDK running. The tables of functions exported next to them only name
  functions modelled elsewhere.
\<close>

definition millis :: "'w comm_env \<Rightarrow> 'w \<Rightarrow> u32 \<times> 'w" where
  "millis e w = comm_uptime e w"

text \<open>The two functions measure the time since \<open>start\<close> in the same way; \<open>UINT_MAX\<close> is \<open>- 1\<close>.\<close>

definition elapsed :: "u32 \<Rightarrow> u32 \<Rightarrow> u32" where
  "elapsed start current_millis =
     (if current_millis < start then - 1 - start + current_millis else current_millis - start)"

partial_function (option) delay_loop :: "'w comm_env \<Rightarrow> u32 \<Rightarrow> u32 \<Rightarrow> 'w comm \<Rightarrow> 'w comm option" where
  "delay_loop e start_millis ms c = do {
     let (current_millis, w) = comm_uptime e (snd c);
     let c = (fst c, w);
     if elapsed start_millis current_millis > ms then Some c
     else do {
       c \<leftarrow> IOT_SYSTEM_Loop e c;
       delay_loop e start_millis ms c } }"

definition delay :: "'w comm_env \<Rightarrow> u32 \<Rightarrow> 'w comm \<Rightarrow> 'w comm option" where
  "delay e ms c =
     (let (start_millis, w) = comm_uptime e (snd c); c = (fst c, w)
      in if ms = 0 then Some c else delay_loop e start_millis ms c)"

definition timerGetId :: "'w comm_env \<Rightarrow> 'w \<Rightarrow> u32 \<times> 'w" where
  "timerGetId e w = comm_uptime e w"

definition timerIsEnd :: "'w comm_env \<Rightarrow> u32 \<Rightarrow> u32 \<Rightarrow> 'w \<Rightarrow> bool \<times> 'w" where
  "timerIsEnd e timerID ms w =
     (let (current_millis, w) = comm_uptime e w
      in (elapsed timerID current_millis \<ge> ms, w))"

section \<open>The measured time\<close>

lemma elapsed_value:
  assumes "n < 2 ^ 32"
  shows "unat (elapsed t0 (t0 + of_nat n)) = (if unat t0 + n < 2 ^ 32 then n else n - 1)"
proof -
  have t: "unat t0 < 2 ^ 32" using unsigned_less [of t0, where ?'a = nat] by simp
  have n: "unat (of_nat n :: u32) = n" using assms by (simp add: unat_of_nat)
  have s: "unat (t0 + of_nat n) = (unat t0 + n) mod 2 ^ 32"
    using n by (simp add: unat_word_ariths)
  show ?thesis
  proof (cases "unat t0 + n < 2 ^ 32")
    case True
    then have "\<not> t0 + of_nat n < t0" using s by (simp add: word_less_nat_alt)
    then show ?thesis using True n by (simp add: elapsed_def)
  next
    case False
    then have m: "(unat t0 + n) mod 2 ^ 32 = unat t0 + n - 2 ^ 32"
      using t assms by (simp add: mod_if)
    then have "t0 + of_nat n < t0" using s assms False by (simp add: word_less_nat_alt)
    then have "elapsed t0 (t0 + of_nat n) = of_nat n - 1" by (simp add: elapsed_def)
    also have "\<dots> = of_nat (n - 1)" using False t by (cases n) simp_all
    finally have "elapsed t0 (t0 + of_nat n) = of_nat (n - 1)" .
    moreover have "unat (of_nat (n - 1) :: u32) = n - 1" using assms by (simp add: unat_of_nat)
    ultimately show ?thesis using False by simp
  qed
qed

text \<open>
  Property C40: \<open>n\<close> milliseconds after it was taken (less than one turn of the clock), a timer of
  \<open>ms\<close> milliseconds has ended exactly when \<open>ms \<le> n\<close>, unless the clock has wrapped in between: then
  it ends one millisecond late.
\<close>

theorem timerIsEnd_elapsed:
  assumes "timerGetId e w = (timerID, w1)" and "n < 2 ^ 32" and "comm_uptime e w2 = (timerID + of_nat n, w3)"
  shows "timerIsEnd e timerID ms w2 = (if unat timerID + n < 2 ^ 32 then unat ms \<le> n else unat ms \<le> n - 1, w3)"
  using elapsed_value [OF assms(2), of timerID] assms(3)
  by (simp add: timerIsEnd_def word_le_nat_alt)

text \<open>A clock that gives the readings of a list.\<close>

definition demo_clock :: "u32 list comm_env" where
  "demo_clock =
     \<lparr>tr_connect = \<lambda>w. Some (0, w), tr_isconnected = \<lambda>w. Some (True, w), tr_disconnect = \<lambda>w. Some (0, w),
      tr_send = \<lambda>k d n w. Some (0, w), tr_yield = \<lambda>w. Some (0, w), call_handler = \<lambda>h ev w. w,
      comm_uptime = \<lambda>w. (hd w, tl w), comm_random = \<lambda>n w. (0, w), define_defaults = Some, send_automatic = \<lambda>f. Some\<rparr>"

theorem timerIsEnd_elapsed_witness:
  "timerIsEnd demo_clock 0xFFFFFFFF 5 [4] = (False, []) \<and> timerIsEnd demo_clock 0xFFFFFFFF 5 [5] = (True, [])"
proof -
  have a: "timerGetId demo_clock [0xFFFFFFFF] = (0xFFFFFFFF, [])" by (simp add: timerGetId_def demo_clock_def)
  have b: "comm_uptime demo_clock [4] = (0xFFFFFFFF + of_nat 5, [])" "comm_uptime demo_clock [5] = (0xFFFFFFFF + of_nat 6, [])"
    by (simp_all add: demo_clock_def)
  show ?thesis
    using timerIsEnd_elapsed [OF a _ b(1), of 5] timerIsEnd_elapsed [OF a _ b(2), of 5] by simp
qed

end
