(* ===== verification/Spec2Isabelle.thy ===== *)
theory Spec2Isabelle
  imports Mqtt_Session Coap_Client Cloud_Datapoint System_Key Digest_Hmac Comm_Mqtt Utils_Base64
    Cloud_Ota Sdk_Impl
begin

text \<open>
  A model of the IntoYun IoT kit SDK, the C library in src/sdk that connects a device to the IntoYun
  cloud, with the theorems that hold of it.

  \<^bold>\<open>The program.\<close> The application describes its device (IOT_SYSTEM_SetDeviceInfo), defines data
  points, and calls IOT_SYSTEM_Loop for ever. The loop drives the connection manager
  (comm-if/iotx_comm_if_api.c), which keeps the state of network and cloud connection, tells the application of
  its changes, reconnects after a loss, and sends the data points that are due. It calls one of two back
  ends through the same five functions; iotx_comm_if_mqtt.c is the one of the configuration. The back end
  authenticates (security/iotx_guider_api.c), protects every payload (security/iotx_crypto_api.c, over
  AES and CMAC), and drives the MQTT client (comm/mqtt), which serialises packets, waits for
  acknowledgements, keeps the connection alive and hands received messages to callbacks; these decode data
  points and report events. The CoAP client (comm/coap) is the other transport. Firmware is loaded by
  cloud/otaupdate over the HTTP client (utils/misc/utils_httpc.c) and its connections (utils_network.c). Soft
  timers, keys, digests, Base64 and conversions are services for the application and the rest of the SDK.

  \<^bold>\<open>Conventions.\<close> A definition has the name of the C function or type it models; a leading
  underscore is dropped. Memory is a list of bytes from the address of a pointer to the end of its object,
  and every access is checked: the result \<^verbatim>\<open>None\<close> is an access outside, a use of freed memory or a loop
  that does not end, so a theorem with the result \<^verbatim>\<open>Some\<close> includes memory safety. Machine integers are
  words of their width. Everything outside src/ (clock, network, allocator, random generator, callbacks of the
  application) is a record of functions over a world of any type that is passed along; the theorems hold for
  every such record, or name what they need of it (\<^verbatim>\<open>full_writes\<close>, \<^verbatim>\<open>reads_bytes\<close>). Locks are not modelled:
  one thread drives the SDK and callbacks do not call back into it. Logging has no effect.

  \<^bold>\<open>The theories.\<close>
  Iotkit_Prelude: integers, checked memory, writers and the collections of automation.
  Mqtt_Packet (comm/mqtt/MQTTPacket): each serialiser writes the bytes of the MQTT specification, parsing a
  serialised PUBLISH returns what it was made from, and what malformed packets lead to.
  Mqtt_Topic: the checks of names and filters, and matching, equal to the definition over levels.
  Mqtt_Client, Mqtt_Session (comm/mqtt/iotx_mqtt_client.c): the client. Its invariant holds in every state an
  application can reach (\<^verbatim>\<open>mqtt_reachable\<close>); publishing, acknowledging, retransmitting, reconnecting with growing
  intervals, and delivery to exactly the matching subscriptions.
  Utils_Timer, Utils_List (utils/misc): wrapping timers; the doubly linked list over an explicit heap refines
  sequences, and the sweeps of the MQTT client are stated over it.
  Coap_Packet, Coap_Message, Coap_Client (comm/coap): the codec with its round trip, the list of unanswered
  requests as a state machine with its invariant, retransmission, and the requests of the client.
  Cloud_Datapoint (cloud/datapoint): the table of data points, their binary format, receiving and sending; the
  arithmetic of double is a parameter.
  System_Timer, System_Key (system): soft timers, and the state machine of a key.
  Digest_Stream, Digest_Md5, Digest_Sha1, Digest_Hmac, Utils_Base64, Utils_Common: the digests equal their
  standards for any cutting of the input; Base64 and hexadecimal conversion with their round trips.
  Utils_Aes, Utils_Cmac: the table-driven AES equals FIPS 197 with the S-box defined in the field; AES-CMAC equals
  RFC 4493 for any cutting of the input.
  Security: device information, session keys, protected packets: what one side packs the other accepts and
  unpacks, and only packets with the right code are accepted.
  Comm_Manager: events are told in turn, sending is guarded by the state, reconnecting; composed with the data
  points for automatic sending.
  Utils_Net, Utils_Httpc (utils/misc): connections, and the HTTP client, function by function. Httpc_Response: the
  head, the headers and bodies that are counted or chunked are read correctly however the network cuts
  them, and where they are not. Httpc_Exchange: the text of a request, and whole exchanges with a server.
  Cloud_Ota (cloud/otaupdate): loading firmware with its progress, its hash and its reports; what was loaded is
  applied only when length and hash are right.
  Sdk_Impl (sdk-impl): the functions of the export that have a body, milliseconds and timers.
  Comm_Mqtt: the back end, which composes the client, the session keys and the packets: what a send writes to
  the network, what becomes of a received packet, and what is left after a failed reconnection.

  \<^bold>\<open>Interfaces.\<close> Locales state what one part needs of another (a block cipher for CMAC, a hash for HMAC, a
  sender that keeps the state for the manager, and others); each is interpreted on the definitions of the theory that
  provides it.

  \<^bold>\<open>Bounds and loops.\<close> No fuel is used. A loop that is bounded by its data is a function with its termination
  proof; a loop over the network or the clock, which need not end, is a \<^verbatim>\<open>partial_function\<close> with the result
  \<^verbatim>\<open>None\<close> for a run without end. Conditions such as payloads of at most 256 bytes or messages shorter than
  2 ^ 32 bytes are those at which the counters of the code wrap; what happens beyond them is stated where it
  matters (\<^verbatim>\<open>payload_encrypt_wraps\<close>).

  \<^bold>\<open>Not modelled.\<close> The platform layer (platform/), the examples and the tables of exported functions
  (sdk-impl) hold no logic of the SDK. The log (sdk/log) and print functions only write text. DTLS, AES
  decryption and keying on the fly are switched off in the configuration, and so is the CoAP back end. The time
  server query is a parameter where it is used. The JSON parser and the macro lists of utils_queue.h and
  lite-list.h are not modelled.
\<close>

end
